(* ===== verification/Floats.thy ===== *)
theory Floats
  imports Complex_Main
begin

text \<open>
  Python's \<open>float\<close> as far as the runtime uses it: values that are compared, passed to
  \<open>min\<close> and \<open>max\<close>, for deadlines added and subtracted (without rounding), and in the retry loop added and multiplied with
  the rounding of IEEE 754, to nearest and ties to even. A finite double is a rational number; the
  two infinities and \<open>nan\<close> can arrive from parsed JSON, so they are values too, with
  the comparisons of IEEE 754 (every comparison with \<open>nan\<close> is false).
\<close>

datatype pyfloat = NaN | NegInf | Fin rat | PosInf

fun flt :: "pyfloat \<Rightarrow> pyfloat \<Rightarrow> bool" where
  "flt (Fin a) (Fin b) = (a < b)"
| "flt NegInf (Fin b) = True"
| "flt NegInf PosInf = True"
| "flt (Fin a) PosInf = True"
| "flt _ _ = False"

fun fle :: "pyfloat \<Rightarrow> pyfloat \<Rightarrow> bool" where
  "fle NaN _ = False"
| "fle _ NaN = False"
| "fle a b = (a = b \<or> flt a b)"

text \<open>\<open>max(a, b)\<close> returns \<open>b\<close> only if \<open>b > a\<close>, \<open>min(a, b)\<close> only if \<open>b < a\<close>:
  with a \<open>nan\<close> among the arguments the first one is returned.\<close>

definition py_max :: "pyfloat \<Rightarrow> pyfloat \<Rightarrow> pyfloat" where
  "py_max a b = (if flt a b then b else a)"

definition py_min :: "pyfloat \<Rightarrow> pyfloat \<Rightarrow> pyfloat" where
  "py_min a b = (if flt b a then b else a)"

text \<open>Sums and differences, exact on finite values.\<close>

fun fadd :: "pyfloat \<Rightarrow> pyfloat \<Rightarrow> pyfloat" where
  "fadd NaN _ = NaN"
| "fadd _ NaN = NaN"
| "fadd (Fin a) (Fin b) = Fin (a + b)"
| "fadd PosInf NegInf = NaN"
| "fadd NegInf PosInf = NaN"
| "fadd PosInf _ = PosInf"
| "fadd _ PosInf = PosInf"
| "fadd NegInf _ = NegInf"
| "fadd _ NegInf = NegInf"

fun fneg :: "pyfloat \<Rightarrow> pyfloat" where
  "fneg NaN = NaN"
| "fneg PosInf = NegInf"
| "fneg NegInf = PosInf"
| "fneg (Fin a) = Fin (- a)"

definition fsub :: "pyfloat \<Rightarrow> pyfloat \<Rightarrow> pyfloat" where
  "fsub a b = fadd a (fneg b)"

lemma flt_fle_trans: "flt a b \<Longrightarrow> fle b c \<Longrightarrow> flt a c"
  by (cases a; cases b; cases c) auto

lemma flt_imp_fle: "flt a b \<Longrightarrow> fle a b"
  by (cases a; cases b) auto

lemma fle_trans: "fle a b \<Longrightarrow> fle b c \<Longrightarrow> fle a c"
  by (cases a; cases b; cases c) auto

lemma fle_antisym: "fle a b \<Longrightarrow> fle b a \<Longrightarrow> a = b"
  by (cases a; cases b) auto

lemma fle_refl_iff: "fle a a \<longleftrightarrow> a \<noteq> NaN"
  by (cases a) auto

lemma fle_not_nan: "fle a b \<Longrightarrow> a \<noteq> NaN \<and> b \<noteq> NaN"
  by (cases a; cases b) auto

lemma not_flt: "a \<noteq> NaN \<Longrightarrow> b \<noteq> NaN \<Longrightarrow> \<not> flt a b \<longleftrightarrow> fle b a"
  by (cases a; cases b) auto

lemma flt_asym: "flt a b \<Longrightarrow> \<not> fle b a"
  by (cases a; cases b) auto

text \<open>The unit interval, \<open>0.0 <= value <= 1.0\<close>.\<close>

definition unit_interval :: "pyfloat \<Rightarrow> bool" where
  "unit_interval x \<longleftrightarrow> fle (Fin 0) x \<and> fle x (Fin 1)"

lemma unit_interval_not_nan [simp]: "\<not> unit_interval NaN"
  by (simp add: unit_interval_def)

lemma unit_interval_cases: "unit_interval x \<Longrightarrow> (\<And>q. x = Fin q \<Longrightarrow> 0 \<le> q \<Longrightarrow> q \<le> 1 \<Longrightarrow> P) \<Longrightarrow> P"
  by (cases x) (auto simp: unit_interval_def)

lemma unit_interval_Fin [simp]: "unit_interval (Fin q) \<longleftrightarrow> 0 \<le> q \<and> q \<le> 1"
  by (auto simp: unit_interval_def)

lemma py_max_unit: "unit_interval a \<Longrightarrow> unit_interval b \<Longrightarrow> unit_interval (py_max a b)"
  by (simp add: py_max_def)

lemma py_max_upper:
  "unit_interval a \<Longrightarrow> unit_interval b \<Longrightarrow> fle a (py_max a b) \<and> fle b (py_max a b)"
  by (elim unit_interval_cases) (auto simp: py_max_def)

lemma py_max_mono:
  "unit_interval a \<Longrightarrow> unit_interval b \<Longrightarrow> unit_interval c \<Longrightarrow> unit_interval d
     \<Longrightarrow> fle a c \<Longrightarrow> fle b d \<Longrightarrow> fle (py_max a b) (py_max c d)"
  by (elim unit_interval_cases) (auto simp: py_max_def)

lemma py_max_absorb: "fle a b \<Longrightarrow> py_max a b = b"
  by (cases a; cases b) (auto simp: py_max_def)

text \<open>Clamping a score of any provenance into \<open>[baseline, 1.0]\<close>.\<close>

lemma clamp_unit:
  assumes "unit_interval b"
  shows "unit_interval (py_max b (py_min x (Fin 1))) \<and> fle b (py_max b (py_min x (Fin 1)))"
  using assms by (cases x) (auto simp: py_max_def py_min_def elim!: unit_interval_cases)

section \<open>Rounding to a double\<close>

fun bit_count :: "nat \<Rightarrow> nat" where
  "bit_count n = (if n = 0 then 0 else Suc (bit_count (n div 2)))"

declare bit_count.simps [simp del]

lemma bit_count_0 [simp]: "bit_count 0 = 0"
  by (simp add: bit_count.simps)

lemma bit_count_le_iff: "bit_count n \<le> k \<longleftrightarrow> n < 2 ^ k"
proof (induction n arbitrary: k rule: bit_count.induct)
  case (1 n)
  show ?case
  proof (cases "n = 0 \<or> k = 0")
    case True
    then show ?thesis by (cases "n = 0") (simp, subst bit_count.simps, simp)
  next
    case False
    then obtain j where k: "k = Suc j" by (cases k) auto
    have "bit_count (n div 2) \<le> j \<longleftrightarrow> n div 2 < 2 ^ j" using 1 False by simp
    moreover have "n div 2 < 2 ^ j \<longleftrightarrow> n < 2 * 2 ^ j" by (simp add: div_less_iff_less_mult mult.commute)
    ultimately show ?thesis using False by (subst bit_count.simps) (simp add: k)
  qed
qed

text \<open>The nearest integer, of two the even one.\<close>

definition round_even :: "rat \<Rightarrow> int" where
  "round_even x = (let n = \<lfloor>x\<rfloor> in if 1 / 2 < x - of_int n \<or> (x - of_int n = 1 / 2 \<and> odd n) then n + 1 else n)"

lemma round_even_of_int [simp]: "round_even (of_int i) = i"
  by (simp add: round_even_def)

lemma round_even_bounds: "\<lfloor>x\<rfloor> \<le> round_even x" "round_even x \<le> \<lfloor>x\<rfloor> + 1"
  by (simp_all add: round_even_def Let_def)

lemma round_even_mono:
  assumes "x \<le> y" shows "round_even x \<le> round_even y"
proof (cases "\<lfloor>x\<rfloor> = \<lfloor>y\<rfloor>")
  case True
  then show ?thesis using assms by (auto simp: round_even_def Let_def)
next
  case False
  then have "\<lfloor>x\<rfloor> + 1 \<le> \<lfloor>y\<rfloor>" using floor_mono [OF assms] by simp
  then show ?thesis using round_even_bounds [of x] round_even_bounds [of y] by linarith
qed

text \<open>Rounding to 53 significant bits in units of the smallest positive double, \<open>2 ^ - 1074\<close>.\<close>

definition scale_of :: "rat \<Rightarrow> nat" where
  "scale_of x = bit_count (nat \<lfloor>x\<rfloor>) - 53"

definition round_units :: "rat \<Rightarrow> rat" where
  "round_units x = of_int (round_even (x / 2 ^ scale_of x)) * 2 ^ scale_of x"

lemma scale_le_iff: "0 \<le> x \<Longrightarrow> scale_of x \<le> k \<longleftrightarrow> x < 2 ^ (53 + k)"
proof -
  assume x: "0 \<le> x"
  have "scale_of x \<le> k \<longleftrightarrow> nat \<lfloor>x\<rfloor> < 2 ^ (53 + k)"
    by (simp add: scale_of_def bit_count_le_iff [symmetric] le_diff_conv add.commute)
  also have "\<dots> \<longleftrightarrow> \<lfloor>x\<rfloor> < 2 ^ (53 + k)" using x by (simp add: nat_less_iff)
  also have "\<dots> \<longleftrightarrow> x < 2 ^ (53 + k)" by (simp add: floor_less_iff)
  finally show ?thesis .
qed

lemma round_units_mono:
  assumes "0 \<le> x" "x \<le> y"
  shows "round_units x \<le> round_units y"
proof -
  have y: "0 \<le> y" using assms by simp
  have "y < 2 ^ (53 + scale_of y)" using scale_le_iff [OF y] by blast
  then have "scale_of x \<le> scale_of y" using scale_le_iff [OF assms(1), of "scale_of y"] assms(2) by simp
  then consider "scale_of x = scale_of y" | "scale_of x < scale_of y" by linarith
  then show ?thesis
  proof cases
    case 1
    have "round_even (x / 2 ^ scale_of y) \<le> round_even (y / 2 ^ scale_of y)"
      using assms(2) by (intro round_even_mono divide_right_mono) simp_all
    then show ?thesis by (simp add: round_units_def 1)
  next
    case 2
    then obtain j where j: "scale_of y = Suc j" "scale_of x \<le> j" by (cases "scale_of y") auto
    have "x < 2 ^ (53 + scale_of x)" using scale_le_iff [OF assms(1)] by blast
    then have "x / 2 ^ scale_of x \<le> of_int (2 ^ 53)" by (simp add: power_add field_simps)
    from round_even_mono [OF this] have "round_even (x / 2 ^ scale_of x) \<le> 2 ^ 53" by (simp only: round_even_of_int)
    then have "(of_int (round_even (x / 2 ^ scale_of x)) :: rat) \<le> of_int (2 ^ 53)" by (simp only: of_int_le_iff)
    then have "round_units x \<le> of_int (2 ^ 53) * 2 ^ scale_of x" unfolding round_units_def by (intro mult_right_mono) simp_all
    also have "\<dots> \<le> of_int (2 ^ 53) * 2 ^ j" using j(2) by (intro mult_left_mono power_increasing) simp_all
    also have "\<dots> = of_int (2 ^ 52) * 2 ^ scale_of y" by (simp add: j(1))
    also have "\<dots> \<le> round_units y"
    proof -
      have "\<not> y < 2 ^ (53 + j)" using scale_le_iff [OF y, of j] j(1) by simp
      then have "of_int (2 ^ 52) \<le> y / 2 ^ scale_of y" by (simp add: j(1) power_add field_simps)
      from round_even_mono [OF this] have "2 ^ 52 \<le> round_even (y / 2 ^ scale_of y)" by (simp only: round_even_of_int)
      then have "of_int (2 ^ 52) \<le> (of_int (round_even (y / 2 ^ scale_of y)) :: rat)" by (simp only: of_int_le_iff)
      then show ?thesis unfolding round_units_def by (intro mult_right_mono) simp_all
    qed
    finally show ?thesis .
  qed
qed

lemma round_units_exact:
  assumes "m < 2 ^ 53" shows "round_units (of_nat m * 2 ^ e) = of_nat m * 2 ^ e"
proof -
  have "(of_nat m * 2 ^ e :: rat) < 2 ^ 53 * 2 ^ e"
    using assms by (intro mult_strict_right_mono) (metis of_nat_less_iff of_nat_numeral of_nat_power, simp)
  then have k: "scale_of (of_nat m * 2 ^ e) \<le> e" by (simp add: scale_le_iff power_add)
  define k where "k = scale_of (of_nat m * 2 ^ e)"
  have pow: "(2 :: rat) ^ (e - k) * 2 ^ k = 2 ^ e" using k by (simp add: k_def power_add [symmetric])
  have "(of_nat m * 2 ^ e / 2 ^ k :: rat) = of_int (int m * 2 ^ (e - k))"
    using pow by (simp add: field_simps)
  then have "round_even (of_nat m * 2 ^ e / 2 ^ k) = int m * 2 ^ (e - k)" by (simp only: round_even_of_int)
  then show ?thesis using pow by (simp add: round_units_def k_def [symmetric] mult.assoc)
qed

text \<open>The double nearest to a number, and what an operation with that exact result returns.\<close>

definition round_double :: "rat \<Rightarrow> rat" where
  "round_double q = sgn q * round_units (\<bar>q\<bar> * 2 ^ 1074) / 2 ^ 1074"

definition float_of :: "rat \<Rightarrow> pyfloat" where
  "float_of q = (let d = round_double q in if 2 ^ 1024 \<le> d then PosInf else if d \<le> - (2 ^ 1024) then NegInf else Fin d)"

lemma round_double_0 [simp]: "round_double 0 = 0"
  by (simp add: round_double_def)

lemma round_double_pos: "0 < q \<Longrightarrow> round_double q = round_units (q * 2 ^ 1074) / 2 ^ 1074"
  by (simp add: round_double_def sgn_if)

lemma round_units_nonneg: "0 \<le> x \<Longrightarrow> 0 \<le> round_units x"
  using round_units_mono [of 0 x] round_units_exact [of 0 0] by simp

lemma round_double_nonneg: "0 \<le> q \<Longrightarrow> 0 \<le> round_double q"
  using round_units_nonneg [of "q * 2 ^ 1074"] by (cases "q = 0") (simp_all add: round_double_pos)

lemma round_double_mono:
  assumes "0 \<le> p" "p \<le> q" shows "round_double p \<le> round_double q"
proof (cases "p = 0")
  case False
  then have "0 < p" "0 < q" using assms by simp_all
  then show ?thesis using round_units_mono [of "p * 2 ^ 1074" "q * 2 ^ 1074"] assms(2)
    by (simp add: round_double_pos divide_right_mono)
qed (use assms round_double_nonneg in simp)

text \<open>Numbers of at most 53 significant bits are doubles.\<close>

lemma round_double_exact:
  assumes "m < 2 ^ 53" "q * 2 ^ 1074 = of_nat m * 2 ^ e"
  shows "round_double q = q"
proof (cases "m = 0")
  case False
  then have "0 < q * 2 ^ 1074" unfolding assms(2) by simp
  then have "0 < q" by (simp add: zero_less_mult_iff)
  then have "round_double q = round_units (q * 2 ^ 1074) / 2 ^ 1074" by (rule round_double_pos)
  also have "\<dots> = q * 2 ^ 1074 / 2 ^ 1074" unfolding assms(2) round_units_exact [OF assms(1)] ..
  finally show ?thesis by simp
qed (use assms(2) in simp)

lemma float_of_bounded:
  assumes "0 \<le> q" "q \<le> r" "round_double r < 2 ^ 1024"
  shows "float_of q = Fin (round_double q)"
proof -
  have "0 \<le> round_double q" "round_double q < 2 ^ 1024"
    using round_double_nonneg [OF assms(1)] round_double_mono [OF assms(1,2)] assms(3) by linarith+
  then show ?thesis by (simp add: float_of_def Let_def del: power_numeral)
qed

text \<open>The rounding of an exact result.\<close>

definition fround :: "pyfloat \<Rightarrow> pyfloat" where
  "fround x = (case x of Fin q \<Rightarrow> float_of q | _ \<Rightarrow> x)"

end
