(* ===== verification/Prelude.thy ===== *)
theory Prelude
  imports
    Floats
    "HOL-Library.AList"
    "HOL-Library.Char_ord"
    "HOL-Library.List_Lexorder"
    "HOL-Library.Product_Lexorder"
begin

text \<open>
  The parts of Python and of its standard library that every component of the
  runtime uses, and the lemmas the component theories share.

  \<^item> A \<open>str\<close> is a \<^typ>\<open>string\<close>: a list of characters, each standing for one code point
    below 256. \<open>str.strip\<close> and its relatives remove exactly the code points of that range
    that Python counts as white space. \<open>str\<close> comparison is the lexicographic order of
    \<^verbatim>\<open>List_Lexorder\<close>, tuple comparison that of \<^verbatim>\<open>Product_Lexorder\<close>.
  \<^item> A \<open>dict\<close> is an association list in insertion order: \<open>d[k] = v\<close> replaces in
    place or appends (\<^const>\<open>AList.update\<close>), \<open>d.get(k)\<close> is \<^const>\<open>map_of\<close>,
    \<open>d.values()\<close> is \<open>map snd\<close>.
  \<^item> A raised exception is the left side of a sum. A message with interpolated values
    keeps its template and its arguments apart, so that no rendering is invented.
\<close>

named_theorems dict_simps \<open>reading a dictionary after an update\<close>
named_theorems strip_simps \<open>white space removal\<close>
named_theorems clock_simps \<open>evaluation of comparisons on closed dates\<close>

section \<open>Exceptions and results\<close>

text \<open>An f-string: its text with \<open>{}\<close> for each interpolated value, and the values.\<close>

datatype msg = Msg string "string list"

text \<open>The exception classes raised by the modelled code, with their message.\<close>

datatype py_error =
    TaskStoreError msg
  | VersionConflictError msg
  | LookupError msg
  | KeyError msg
  | ValueError msg
  | ValidationError msg
  | RuntimeError msg
  | OverflowError msg
  | AskStoreError msg
  | MessageStreamError msg
  | StopIteration msg
  | RecursionError msg
  | TypeError msg

type_synonym 'a result = "py_error + 'a"

definition is_ok :: "'a result \<Rightarrow> bool" where
  "is_ok r \<longleftrightarrow> (case r of Inl _ \<Rightarrow> False | Inr _ \<Rightarrow> True)"

lemma is_ok_simps [simp]: "is_ok (Inr x)" "\<not> is_ok (Inl e)"
  by (simp_all add: is_ok_def)

lemma is_okE: assumes "is_ok r" obtains x where "r = Inr x"
  using assms by (cases r) auto

text \<open>Post-processing what a call returned; an exception passes through.\<close>

definition map_ok :: "('a \<Rightarrow> 'b) \<Rightarrow> 'a result \<Rightarrow> 'b result" where
  "map_ok f r = (case r of Inl e \<Rightarrow> Inl e | Inr x \<Rightarrow> Inr (f x))"

lemma map_ok_simps [simp]: "map_ok f (Inr x) = Inr (f x)" "map_ok f (Inl e) = Inl e"
  by (simp_all add: map_ok_def)

text \<open>A call that needs what an earlier one returned; the earlier one's exception passes through.\<close>

definition bind_ok :: "'a result \<Rightarrow> ('a \<Rightarrow> 'b result) \<Rightarrow> 'b result" where
  "bind_ok r f = (case r of Inl e \<Rightarrow> Inl e | Inr x \<Rightarrow> f x)"

lemma bind_ok_simps [simp]: "bind_ok (Inr x) f = f x" "bind_ok (Inl e) f = Inl e"
  by (simp_all add: bind_ok_def)

lemma bind_ok_InrE: assumes "bind_ok r f = Inr y" obtains x where "r = Inr x" "f x = Inr y"
  using assms by (cases r) auto

lemma map_ok_InrE: assumes "map_ok f r = Inr y" obtains x where "r = Inr x" "y = f x"
  using assms by (cases r) auto

text \<open>A comprehension whose elements are calls: the first exception ends it.\<close>

fun those_ok :: "'a result list \<Rightarrow> 'a list result" where
  "those_ok [] = Inr []"
| "those_ok (r # rs) = bind_ok r (\<lambda>x. map_ok (\<lambda>xs. x # xs) (those_ok rs))"

lemma those_ok_Inr [simp]: "those_ok (map (\<lambda>x. Inr (f x)) xs) = Inr (map f xs)"
  by (induction xs) auto

section \<open>JSON values\<close>

text \<open>The values of \<open>dict[str, Any]\<close> payloads.\<close>

datatype json =
    JNull
  | JBool bool
  | JInt int
  | JFloat pyfloat
  | JStr string
  | JArr "json list"
  | JObj "(string \<times> json) list"

section \<open>Strings\<close>

text \<open>\<open>str.isspace\<close> for one code point below 256.\<close>

definition is_space :: "char \<Rightarrow> bool" where
  "is_space c \<longleftrightarrow>
     (let n = (of_char c :: nat)
      in (9 \<le> n \<and> n \<le> 13) \<or> (28 \<le> n \<and> n \<le> 32) \<or> n = 133 \<or> n = 160)"

definition lstrip :: "string \<Rightarrow> string" where
  "lstrip s = dropWhile is_space s"

definition rstrip :: "string \<Rightarrow> string" where
  "rstrip s = rev (dropWhile is_space (rev s))"

definition strip :: "string \<Rightarrow> string" where
  "strip s = rstrip (lstrip s)"

text \<open>\<open>not s.strip()\<close>.\<close>

definition blank :: "string \<Rightarrow> bool" where
  "blank s \<longleftrightarrow> strip s = []"

lemma rstrip_Nil_iff [strip_simps]: "rstrip s = [] \<longleftrightarrow> (\<forall>c \<in> set s. is_space c)"
  by (simp add: rstrip_def)

lemma lstrip_Nil_iff [strip_simps]: "lstrip s = [] \<longleftrightarrow> (\<forall>c \<in> set s. is_space c)"
  by (simp add: lstrip_def)

lemma hd_lstrip: "lstrip s \<noteq> [] \<Longrightarrow> \<not> is_space (hd (lstrip s))"
  by (simp add: lstrip_def hd_dropWhile)

lemma blank_iff [strip_simps]: "blank s \<longleftrightarrow> (\<forall>c \<in> set s. is_space c)"
proof
  assume "blank s"
  then have all: "\<forall>c \<in> set (lstrip s). is_space c"
    by (simp add: blank_def strip_def rstrip_Nil_iff)
  have "lstrip s = []"
  proof (rule ccontr)
    assume "lstrip s \<noteq> []"
    with all hd_lstrip [of s] show False by simp
  qed
  then show "\<forall>c \<in> set s. is_space c" by (simp add: lstrip_Nil_iff)
next
  assume "\<forall>c \<in> set s. is_space c"
  then show "blank s" by (simp add: blank_def strip_def lstrip_Nil_iff [THEN iffD2] rstrip_def)
qed

lemma rstrip_prefix: "\<exists>w. s = rstrip s @ w \<and> (\<forall>c \<in> set w. is_space c)"
proof -
  have "s = rev (rev s)" by simp
  also have "\<dots> = rev (takeWhile is_space (rev s) @ dropWhile is_space (rev s))" by simp
  also have "\<dots> = rstrip s @ rev (takeWhile is_space (rev s))"
    by (simp only: rev_append rstrip_def)
  finally have "s = rstrip s @ rev (takeWhile is_space (rev s))" .
  moreover have "\<forall>c \<in> set (rev (takeWhile is_space (rev s))). is_space c"
    by (auto dest: set_takeWhileD)
  ultimately show ?thesis by blast
qed

lemma rstrip_idem [simp]: "rstrip (rstrip s) = rstrip s"
  by (simp add: rstrip_def dropWhile_idem)

lemma lstrip_idem [simp]: "lstrip (lstrip s) = lstrip s"
  by (simp add: lstrip_def dropWhile_idem)

lemma lstrip_rstrip_lstrip: "lstrip (rstrip (lstrip s)) = rstrip (lstrip s)"
proof (cases "rstrip (lstrip s)")
  case Nil
  then show ?thesis by (simp add: lstrip_def)
next
  case (Cons c t)
  obtain w where w: "lstrip s = rstrip (lstrip s) @ w"
    using rstrip_prefix by blast
  with Cons have "lstrip s \<noteq> [] \<and> hd (lstrip s) = c"
    by (metis append_Cons list.distinct(1) list.sel(1))
  with hd_lstrip [of s] Cons show ?thesis by (simp add: lstrip_def)
qed

lemma strip_idem [simp]: "strip (strip s) = strip s"
  by (simp add: strip_def lstrip_rstrip_lstrip)

lemma blank_strip [simp]: "blank (strip s) \<longleftrightarrow> blank s"
  by (simp add: blank_def)

lemma strip_empty_iff [simp]: "strip s = [] \<longleftrightarrow> blank s"
  by (simp add: blank_def)

lemma not_blank_nonempty: "\<not> blank s \<Longrightarrow> s \<noteq> []"
  by (auto simp: blank_iff)

text \<open>\<open>str.lower\<close> for one code point below 256, and \<open>sub in s\<close>.\<close>

definition lower_char :: "char \<Rightarrow> char" where
  "lower_char c = (let n = (of_char c :: nat)
     in if (65 \<le> n \<and> n \<le> 90) \<or> (192 \<le> n \<and> n \<le> 222 \<and> n \<noteq> 215) then char_of (n + 32) else c)"

fun contains :: "string \<Rightarrow> string \<Rightarrow> bool" where
  "contains sub [] = (sub = [])"
| "contains sub (c # s) = (take (length sub) (c # s) = sub \<or> contains sub s)"

text \<open>\<open>str(n)\<close> for an integer.\<close>

fun digits :: "nat \<Rightarrow> string" where
  "digits n = (if n < 10 then [char_of (48 + n)] else digits (n div 10) @ [char_of (48 + n mod 10)])"

declare digits.simps [simp del]

definition str_int :: "int \<Rightarrow> string" where
  "str_int k = (if k < 0 then ''-'' @ digits (nat (- k)) else digits (nat k))"

text \<open>\<open>str(v)\<close> for a JSON value; the text of a float or a container is its \<open>repr\<close>, an argument.\<close>

fun py_str :: "(json \<Rightarrow> string) \<Rightarrow> json \<Rightarrow> string" where
  "py_str py_repr (JStr s) = s"
| "py_str py_repr JNull = ''None''"
| "py_str py_repr (JBool b) = (if b then ''True'' else ''False'')"
| "py_str py_repr (JInt k) = str_int k"
| "py_str py_repr v = py_repr v"

section \<open>Dictionaries in insertion order\<close>

type_synonym ('k, 'v) dict = "('k \<times> 'v) list"

abbreviation dict_get :: "('k, 'v) dict \<Rightarrow> 'k \<Rightarrow> 'v option" where
  "dict_get d k \<equiv> map_of d k"

abbreviation dict_set :: "('k, 'v) dict \<Rightarrow> 'k \<Rightarrow> 'v \<Rightarrow> ('k, 'v) dict" where
  "dict_set d k v \<equiv> AList.update k v d"

abbreviation dict_values :: "('k, 'v) dict \<Rightarrow> 'v list" where
  "dict_values d \<equiv> map snd d"

abbreviation dict_ok :: "('k, 'v) dict \<Rightarrow> bool" where
  "dict_ok d \<equiv> distinct (map fst d)"

lemma dict_get_set [simp, dict_simps]:
  "dict_get (dict_set d k v) k' = (if k' = k then Some v else dict_get d k')"
  by (simp add: update_conv')

lemma dict_ok_set [simp, dict_simps]: "dict_ok d \<Longrightarrow> dict_ok (dict_set d k v)"
  by (rule distinct_update)

lemma dict_values_mem: "dict_ok d \<Longrightarrow> v \<in> set (dict_values d) \<longleftrightarrow> (\<exists>k. dict_get d k = Some v)"
  by (auto simp: map_of_eq_Some_iff image_iff) (metis map_of_eq_Some_iff snd_conv)+

lemma dict_get_mem: "dict_get d k = Some v \<Longrightarrow> v \<in> set (dict_values d)"
  by (auto dest: map_of_SomeD simp: image_iff) (metis map_of_SomeD snd_conv)

lemma dict_set_fresh: "dict_get d k = None \<Longrightarrow> dict_set d k v = d @ [(k, v)]"
  by (induction d) (auto split: if_splits)

text \<open>Plain JSON: finite numbers and distinct keys. Pydantic writes \<open>nan\<close> and the infinities as \<open>null\<close>, so only plain values
  read back from its JSON as they were.\<close>

fun json_plain :: "json \<Rightarrow> bool" where
  "json_plain (JFloat x) = (case x of Fin r \<Rightarrow> True | _ \<Rightarrow> False)"
| "json_plain (JArr js) = list_all json_plain js"
| "json_plain (JObj d) = (dict_ok d \<and> list_all (\<lambda>(k, v). json_plain v) d)"
| "json_plain j = True"

text \<open>\<open>d[k]\<close>, which raises \<open>KeyError\<close>.\<close>

definition dict_item :: "(string, 'v) dict \<Rightarrow> string \<Rightarrow> 'v result" where
  "dict_item d k = (case dict_get d k of None \<Rightarrow> Inl (KeyError (Msg ''{}'' [k])) | Some v \<Rightarrow> Inr v)"

lemma dict_item_simps [simp]: "dict_get d k = Some v \<Longrightarrow> dict_item d k = Inr v"
  by (simp add: dict_item_def)

text \<open>\<open>{**d, **e}\<close>.\<close>

definition dict_merge :: "('k, 'v) dict \<Rightarrow> ('k, 'v) dict \<Rightarrow> ('k, 'v) dict" where
  "dict_merge d e = foldl (\<lambda>m (k, v). dict_set m k v) d e"

text \<open>Replacing a stored value in place touches exactly one entry of a well-formed dictionary.\<close>

lemma dict_set_map:
  "dict_ok d \<Longrightarrow> dict_get d k \<noteq> None \<Longrightarrow>
   dict_set d k v = map (\<lambda>e. if fst e = k then (k, v) else e) d"
proof (induction d)
  case Nil
  then show ?case by simp
next
  case (Cons e d)
  show ?case
  proof (cases "fst e = k")
    case True
    with Cons.prems(1) have "k \<notin> fst ` set d" by auto
    then have "map (\<lambda>e. if fst e = k then (k, v) else e) d = d"
      by (induction d) auto
    with True show ?thesis by (cases e) simp
  next
    case False
    with Cons show ?thesis by (cases e) auto
  qed
qed

section \<open>Sorting and options\<close>

lemma in_sort_key [simp]: "x \<in> set (sort_key f xs) \<longleftrightarrow> x \<in> set xs"
  by simp

lemma hd_sort_key_least:
  assumes "sort_key f xs = y # ys" "x \<in> set xs"
  shows "f y \<le> f x"
proof -
  have "sorted (map f (y # ys))" using assms(1) by (metis sorted_sort_key)
  moreover have "x \<in> set (y # ys)" using assms by (metis set_sort)
  ultimately show ?thesis by auto
qed

lemma sort_key_Nil_iff [simp]: "sort_key f xs = [] \<longleftrightarrow> xs = []"
  by (metis length_0_conv length_sort)

lemma hd_sort_key_mem: "sort_key f xs = y # ys \<Longrightarrow> y \<in> set xs"
  by (metis list.set_intros(1) set_sort)

lemma hd_sort_key_snoc:
  assumes "sort_key f xs = y # ys" "f y \<le> f x"
  shows "\<exists>zs. sort_key f (xs @ [x]) = y # zs"
proof -
  obtain z zs where z: "sort_key f (xs @ [x]) = z # zs"
    by (cases "sort_key f (xs @ [x])") auto
  have y: "y \<in> set xs" using assms(1) by (rule hd_sort_key_mem)
  have "f z \<le> f y" using hd_sort_key_least [OF z] y by simp
  moreover have "z \<in> set (xs @ [x])" using z by (rule hd_sort_key_mem)
  then have "f y \<le> f z" using hd_sort_key_least [OF assms(1)] assms(2) by auto
  ultimately have eq: "f z = f y" by simp
  let ?F = "filter (\<lambda>e. f e = f y)"
  have "?F (z # zs) = ?F (xs @ [x])" using sort_key_stable [of f "f y" "xs @ [x]"] z by simp
  moreover have "?F xs = y # ?F ys" using sort_key_stable [of f "f y" xs] assms(1) by simp
  ultimately have "z # ?F zs = y # ?F ys @ ?F [x]" using eq by simp
  then have "z = y" by simp
  with z show ?thesis by blast
qed

lemma last_sort_key_mem: "xs \<noteq> [] \<Longrightarrow> last (sort_key f xs) \<in> set xs"
  using last_in_set [of "sort_key f xs"] by simp

lemma sort_key_filter_commute: "sort_key f (filter P xs) = filter P (sort_key f xs)"
  by (simp add: filter_sort)

lemma find_map: "find Q (map f xs) = map_option f (find (\<lambda>x. Q (f x)) xs)"
  by (induction xs) auto

lemma sort_key_map: "sort_key k (map f xs) = map f (sort_key (\<lambda>x. k (f x)) xs)"
proof (induction xs)
  case (Cons x xs)
  have "insort_key k (f x) (map f ys) = map f (insort_key (\<lambda>x. k (f x)) x ys)" for ys
    by (induction ys) auto
  with Cons show ?case by simp
qed simp

lemma insort_key_cong:
  "(\<And>y. y \<in> set ys \<Longrightarrow> f x \<le> f y \<longleftrightarrow> g x \<le> g y) \<Longrightarrow> insort_key f x ys = insort_key g x ys"
  by (induction ys) auto

lemma sort_key_cong_le:
  "(\<And>x y. x \<in> set xs \<Longrightarrow> y \<in> set xs \<Longrightarrow> f x \<le> f y \<longleftrightarrow> g x \<le> g y) \<Longrightarrow>
   sort_key f xs = sort_key g xs"
proof (induction xs)
  case (Cons x xs)
  then have "sort_key f xs = sort_key g xs" by simp
  moreover have "insort_key f x (sort_key g xs) = insort_key g x (sort_key g xs)"
    by (rule insort_key_cong) (use Cons.prems in simp)
  ultimately show ?case by simp
qed simp

text \<open>Sorting by an injective key depends on the elements only, not on their order.\<close>

lemma sort_key_set_cong:
  assumes "set xs = set ys" "distinct xs" "distinct ys" "inj_on f (set xs)"
  shows "sort_key f xs = sort_key f ys"
proof -
  have "map f (sort_key f xs) = map f (sort_key f ys)"
    by (rule sorted_distinct_set_unique)
       (use assms in \<open>auto simp: distinct_map\<close>)
  then show ?thesis
    by (rule map_inj_on) (use assms in simp)
qed

text \<open>\<open>x or default\<close> for an optional string.\<close>

definition or_else :: "string option \<Rightarrow> string \<Rightarrow> string" where
  "or_else x d = (case x of None \<Rightarrow> d | Some s \<Rightarrow> if s = [] then d else s)"

text \<open>\<open>Field(default=None, min_length=1)\<close> on an optional string.\<close>

definition opt_nonempty :: "string option \<Rightarrow> bool" where
  "opt_nonempty x \<longleftrightarrow> (case x of None \<Rightarrow> True | Some s \<Rightarrow> s \<noteq> [])"

lemma opt_nonempty_simps [simp]:
  "opt_nonempty None" "opt_nonempty (Some s) \<longleftrightarrow> s \<noteq> []"
  by (simp_all add: opt_nonempty_def)

end
