(* ===== verification/Datetime.thy ===== *)
theory Datetime
  imports Prelude
begin

text \<open>
  The UTC time stamps that \<open>datetime.now(UTC)\<close> makes, their order, and
  \<open>datetime.isoformat()\<close>, which the SQLite stores write into the TEXT columns they sort by.
  The theory shows that the text order of the column is the order of the time stamps, so that
  \<open>ORDER BY created_at\<close> and a Python \<open>sorted\<close> on \<open>created_at\<close> agree.
\<close>

section \<open>Time stamps\<close>

datatype datetime = Datetime
  (year: nat) (month: nat) (day: nat) (hour: nat) (minute: nat) (second: nat) (microsecond: nat)

text \<open>The ranges the constructor of \<open>datetime\<close> accepts.\<close>

definition datetime_ok :: "datetime \<Rightarrow> bool" where
  "datetime_ok d \<longleftrightarrow> year d < 10000 \<and> month d < 13 \<and> day d < 32 \<and> hour d < 24
     \<and> minute d < 60 \<and> second d < 60 \<and> microsecond d < 1000000"

definition datetime_key :: "datetime \<Rightarrow> nat \<times> nat \<times> nat \<times> nat \<times> nat \<times> nat \<times> nat" where
  "datetime_key d = (year d, month d, day d, hour d, minute d, second d, microsecond d)"

lemma datetime_key_inject [simp]: "datetime_key a = datetime_key b \<longleftrightarrow> a = b"
  by (cases a; cases b) (simp add: datetime_key_def)

instantiation datetime :: linorder
begin

definition less_eq_datetime :: "datetime \<Rightarrow> datetime \<Rightarrow> bool" where
  "less_eq_datetime a b \<longleftrightarrow> datetime_key a \<le> datetime_key b"

definition less_datetime :: "datetime \<Rightarrow> datetime \<Rightarrow> bool" where
  "less_datetime a b \<longleftrightarrow> datetime_key a < datetime_key b"

instance
  by intro_classes
     (auto simp: less_eq_datetime_def less_datetime_def less_le_not_le dest: order_antisym)

end

lemmas datetime_order [clock_simps] = less_eq_datetime_def less_datetime_def datetime_key_def

section \<open>isoformat\<close>

text \<open>\<open>f"{n:0wd}"\<close>: the last \<open>w\<close> decimal digits of \<open>n\<close>, most significant first.\<close>

definition digit :: "nat \<Rightarrow> char" where
  "digit n = char_of (48 + n mod 10)"

fun pad :: "nat \<Rightarrow> nat \<Rightarrow> string" where
  "pad 0 n = []"
| "pad (Suc w) n = pad w (n div 10) @ [digit n]"

text \<open>\<open>datetime.isoformat()\<close> of a UTC value: microseconds are left out when they are zero.\<close>

definition fraction :: "nat \<Rightarrow> string" where
  "fraction m = (if m = 0 then [] else ''.'' @ pad 6 m) @ ''+00:00''"

definition isoformat :: "datetime \<Rightarrow> string" where
  "isoformat d =
     pad 4 (year d) @ ''-'' @ pad 2 (month d) @ ''-'' @ pad 2 (day d) @ ''T''
     @ pad 2 (hour d) @ '':'' @ pad 2 (minute d) @ '':'' @ pad 2 (second d)
     @ fraction (microsecond d)"

lemma length_pad [simp]: "length (pad w n) = w"
  by (induction w n rule: pad.induct) auto

lemma less_append_same_length:
  fixes a b :: "'a :: linorder list"
  assumes "length a = length b"
  shows "a @ x < b @ y \<longleftrightarrow> a < b \<or> (a = b \<and> x < y)"
  using assms by (induction a b rule: list_induct2) auto

lemma digit_less [simp]: "digit m < digit n \<longleftrightarrow> m mod 10 < n mod 10"
  by (simp add: digit_def less_char_def)

lemma digit_eq [simp]: "digit m = digit n \<longleftrightarrow> m mod 10 = n mod 10"
  by (metis digit_less linorder_neq_iff)

lemma base10_less:
  fixes a b c d :: nat
  assumes "b < 10" "d < 10"
  shows "a * 10 + b < c * 10 + d \<longleftrightarrow> a < c \<or> (a = c \<and> b < d)"
  by (cases a c rule: linorder_cases) (use assms in linarith)+

lemma pad_order:
  "m < 10 ^ w \<Longrightarrow> n < 10 ^ w \<Longrightarrow> (pad w m < pad w n \<longleftrightarrow> m < n) \<and> (pad w m = pad w n \<longleftrightarrow> m = n)"
proof (induction w arbitrary: m n)
  case 0
  then show ?case by simp
next
  case (Suc w)
  have bounds: "m div 10 < 10 ^ w" "n div 10 < 10 ^ w"
    using Suc.prems by (simp_all add: less_mult_imp_div_less)
  have less: "m < n \<longleftrightarrow> m div 10 < n div 10 \<or> (m div 10 = n div 10 \<and> m mod 10 < n mod 10)"
    using base10_less [of "m mod 10" "n mod 10" "m div 10" "n div 10"] by simp
  have eq: "m = n \<longleftrightarrow> m div 10 = n div 10 \<and> m mod 10 = n mod 10"
    by (rule iffI) (simp, metis mod_div_mult_eq)
  show ?case
    using Suc.IH [OF bounds] less eq by (simp add: less_append_same_length)
qed

text \<open>One fixed-width field in front of two texts: the field decides, then the rest.\<close>

lemma pad_field_less:
  "m < 10 ^ w \<Longrightarrow> n < 10 ^ w \<Longrightarrow>
   pad w m @ x < pad w n @ y \<longleftrightarrow> m < n \<or> (m = n \<and> x < y)"
  by (simp add: less_append_same_length pad_order)

text \<open>
  The optional fraction: a whole second ends in \<open>+00:00\<close>, a fractional one in \<open>.\<close>
  and six digits, and \<open>+\<close> sorts before \<open>.\<close>.
\<close>

lemma fraction_less:
  assumes "m < 1000000" "n < 1000000"
  shows "fraction m < fraction n \<longleftrightarrow> m < n"
proof -
  have six: "pad 6 m @ x < pad 6 n @ x \<longleftrightarrow> m < n" for x
    using assms by (simp add: pad_field_less)
  have plus_dot: "CHR ''+'' < CHR ''.''" "\<not> CHR ''.'' < CHR ''+''"
    by (simp_all add: less_char_def)
  show ?thesis using six plus_dot by (auto simp: fraction_def simp del: pad.simps)
qed

lemma isoformat_less:
  assumes "datetime_ok a" "datetime_ok b"
  shows "isoformat a < isoformat b \<longleftrightarrow> a < b"
proof -
  have lt: "m < (n::nat) \<or> m \<le> n \<and> P \<longleftrightarrow> m < n \<or> m = n \<and> P" for m n P
    by auto
  have fields: "pad 4 (year a) @ x < pad 4 (year b) @ y
        \<longleftrightarrow> year a < year b \<or> (year a = year b \<and> x < y)"
      "pad 2 (month a) @ x < pad 2 (month b) @ y
        \<longleftrightarrow> month a < month b \<or> (month a = month b \<and> x < y)"
      "pad 2 (day a) @ x < pad 2 (day b) @ y
        \<longleftrightarrow> day a < day b \<or> (day a = day b \<and> x < y)"
      "pad 2 (hour a) @ x < pad 2 (hour b) @ y
        \<longleftrightarrow> hour a < hour b \<or> (hour a = hour b \<and> x < y)"
      "pad 2 (minute a) @ x < pad 2 (minute b) @ y
        \<longleftrightarrow> minute a < minute b \<or> (minute a = minute b \<and> x < y)"
      "pad 2 (second a) @ x < pad 2 (second b) @ y
        \<longleftrightarrow> second a < second b \<or> (second a = second b \<and> x < y)"
      "fraction (microsecond a) < fraction (microsecond b) \<longleftrightarrow> microsecond a < microsecond b"
    for x y
    using assms by (auto simp: pad_field_less fraction_less datetime_ok_def)
  show ?thesis
    unfolding isoformat_def less_datetime_def datetime_key_def
    by (simp add: fields less_prod_def lt del: pad.simps)
qed

lemma isoformat_inject:
  "datetime_ok a \<Longrightarrow> datetime_ok b \<Longrightarrow> isoformat a = isoformat b \<longleftrightarrow> a = b"
  by (metis isoformat_less linorder_neq_iff)

lemma isoformat_le:
  "datetime_ok a \<Longrightarrow> datetime_ok b \<Longrightarrow> isoformat a \<le> isoformat b \<longleftrightarrow> a \<le> b"
  by (metis isoformat_less linorder_not_less)

section \<open>Reading the text back\<close>

definition unpad :: "string \<Rightarrow> nat" where
  "unpad s = foldl (\<lambda>n c. n * 10 + (of_char c - 48)) 0 s"

text \<open>A reader for the text of a UTC time stamp.\<close>

definition parse_isoformat :: "string \<Rightarrow> datetime" where
  "parse_isoformat s =
     Datetime (unpad (take 4 s)) (unpad (take 2 (drop 5 s))) (unpad (take 2 (drop 8 s)))
       (unpad (take 2 (drop 11 s))) (unpad (take 2 (drop 14 s))) (unpad (take 2 (drop 17 s)))
       (if s ! 19 = CHR ''.'' then unpad (take 6 (drop 20 s)) else 0)"

lemma unpad_pad: "unpad (pad w n) = n mod 10 ^ w"
proof (induction w n rule: pad.induct)
  case (1 n)
  then show ?case by (simp add: unpad_def)
next
  case (2 w n)
  have "n mod 10 < 10" by simp
  then have "of_char (digit n) - 48 = n mod 10" by (simp add: digit_def)
  moreover have "n div 10 mod 10 ^ w * 10 + n mod 10 = n mod 10 ^ Suc w"
    using mod_mult2_eq [of n 10 "10 ^ w"] by (simp add: mult.commute)
  ultimately show ?case using 2 by (simp add: unpad_def)
qed

lemma drop_pad_append: "w \<le> k \<Longrightarrow> drop k (pad w n @ s) = drop (k - w) s"
  by simp

lemma take_pad_append: "take w (pad w n @ s) = pad w n"
  by simp

lemma parse_isoformat:
  assumes "datetime_ok d"
  shows "parse_isoformat (isoformat d) = d"
proof -
  have head: "isoformat d ! 19 = fraction (microsecond d) ! 0"
    by (simp add: isoformat_def nth_append del: pad.simps)
  have frac: "(if fraction (microsecond d) ! 0 = CHR ''.'' then unpad (take 6 (drop 20 (isoformat d))) else 0)
      = microsecond d"
    using assms by (auto simp: fraction_def isoformat_def unpad_pad datetime_ok_def simp del: pad.simps)
  have "unpad (take 4 (isoformat d)) = year d" "unpad (take 2 (drop 5 (isoformat d))) = month d"
    "unpad (take 2 (drop 8 (isoformat d))) = day d" "unpad (take 2 (drop 11 (isoformat d))) = hour d"
    "unpad (take 2 (drop 14 (isoformat d))) = minute d" "unpad (take 2 (drop 17 (isoformat d))) = second d"
    using assms by (simp_all add: isoformat_def unpad_pad datetime_ok_def del: pad.simps)
  then show ?thesis using head frac by (simp add: parse_isoformat_def)
qed

end
