(* ===== verification/Task_Models.thy ===== *)
theory Task_Models
  imports Datetime
begin

text \<open>
  The published and the draft task facts of \<^verbatim>\<open>task/models.py\<close>: \<open>TaskDomain\<close>,
  \<open>DraftTaskNode\<close>, \<open>DraftTaskTree\<close>, \<open>TaskNodePatch\<close> and
  \<open>DraftToPublishedMapping\<close> as records, with the field constraints and the
  \<open>model_validator\<close> methods of each class. A Python value of such a class is a record
  for which \<open>model_validate\<close> returned; \<open>model_copy(update=...)\<close> is a plain record
  update, which runs no validator, as in Pydantic.
\<close>

section \<open>Literal types\<close>

datatype TaskStatus = Pending | Running | Waiting_for_user | Done | Failed

datatype DraftTaskStatus = Draft | Accepted | Published | Cancelled

datatype TaskRefKind = Draft_ref | Published_ref

datatype TaskInterruptRequestedBy = By_user | By_system

text \<open>The literals' text, as an f-string shows them.\<close>

fun task_status_str :: "TaskStatus \<Rightarrow> string" where
  "task_status_str Pending = ''pending''"
| "task_status_str Running = ''running''"
| "task_status_str Waiting_for_user = ''waiting_for_user''"
| "task_status_str Done = ''done''"
| "task_status_str Failed = ''failed''"

fun draft_status_str :: "DraftTaskStatus \<Rightarrow> string" where
  "draft_status_str Draft = ''draft''"
| "draft_status_str Accepted = ''accepted''"
| "draft_status_str Published = ''published''"
| "draft_status_str Cancelled = ''cancelled''"

text \<open>Reading a draft status from text, as Pydantic does for a \<open>Literal\<close> field.\<close>

definition draft_status_of :: "string \<Rightarrow> DraftTaskStatus option" where
  "draft_status_of s =
     (if s = ''draft'' then Some Draft else if s = ''accepted'' then Some Accepted
      else if s = ''published'' then Some Published else if s = ''cancelled'' then Some Cancelled
      else None)"

lemma draft_status_of_str [simp]: "draft_status_of (draft_status_str st) = Some st"
  by (cases st) (simp_all add: draft_status_of_def)

lemma draft_status_of_SomeD: "draft_status_of s = Some st \<Longrightarrow> s = draft_status_str st"
  by (auto simp: draft_status_of_def split: if_splits)

section \<open>Published tasks\<close>

record TaskRef =
  ref_kind :: TaskRefKind
  ref_id :: string

record TaskDispatchConstraints =
  dc_required_agent_id :: "string option"
  dc_preferred_agent_id :: "string option"
  dc_required_capabilities :: "string list"
  dc_metadata :: "(string \<times> json) list"

record TaskDomain =
  td_task_id :: string
  td_session_id :: string
  td_parent_id :: "string option"
  td_root_id :: string
  td_order_index :: int
  td_intent :: string
  td_summary :: "string option"
  td_instructions :: "string option"
  td_acceptance_criteria :: "string list"
  td_required_capability :: string
  td_dispatch_constraints :: "TaskDispatchConstraints option"
  td_status :: TaskStatus
  td_result_ref :: "string option"
  td_error_ref :: "string option"
  td_claimed_by :: "string option"
  td_waiting_for_ask_id :: "string option"
  td_waiting_for_confirmation_id :: "string option"
  td_waiting_for_user_since :: "datetime option"
  td_interrupt_requested :: bool
  td_interrupt_request_id :: "string option"
  td_interrupt_reason :: "string option"
  td_interrupt_requested_by :: "TaskInterruptRequestedBy option"
  td_interrupt_requested_at :: "datetime option"
  td_created_by :: string
  td_created_at :: datetime
  td_started_at :: "datetime option"
  td_completed_at :: "datetime option"

definition dispatch_fields_ok :: "TaskDispatchConstraints \<Rightarrow> bool" where
  "dispatch_fields_ok c \<longleftrightarrow>
     opt_nonempty (dc_required_agent_id c) \<and> opt_nonempty (dc_preferred_agent_id c)"

text \<open>The \<open>Field(...)\<close> constraints of \<open>TaskDomain\<close>.\<close>

definition TaskDomain_fields_ok :: "TaskDomain \<Rightarrow> bool" where
  "TaskDomain_fields_ok t \<longleftrightarrow>
     td_task_id t \<noteq> [] \<and> td_session_id t \<noteq> [] \<and> opt_nonempty (td_parent_id t)
     \<and> td_root_id t \<noteq> [] \<and> 0 \<le> td_order_index t
     \<and> td_intent t \<noteq> [] \<and> opt_nonempty (td_summary t) \<and> opt_nonempty (td_instructions t)
     \<and> td_required_capability t \<noteq> []
     \<and> (case td_dispatch_constraints t of None \<Rightarrow> True | Some c \<Rightarrow> dispatch_fields_ok c)
     \<and> opt_nonempty (td_result_ref t) \<and> opt_nonempty (td_error_ref t)
     \<and> opt_nonempty (td_claimed_by t)
     \<and> opt_nonempty (td_waiting_for_ask_id t) \<and> opt_nonempty (td_waiting_for_confirmation_id t)
     \<and> opt_nonempty (td_interrupt_request_id t) \<and> opt_nonempty (td_interrupt_reason t)
     \<and> td_created_by t \<noteq> []"

text \<open>\<open>TaskDomain._validate_root\<close>.\<close>

definition validate_root :: "TaskDomain \<Rightarrow> TaskDomain result" where
  "validate_root t =
     (if td_parent_id t = None \<and> td_root_id t \<noteq> td_task_id t
      then Inl (ValueError (Msg ''root task must have root_id == task_id'' []))
      else Inr t)"

text \<open>\<open>TaskDomain._validate_waiting_for_user_linkage\<close>.\<close>

definition validate_waiting_for_user_linkage :: "TaskDomain \<Rightarrow> TaskDomain result" where
  "validate_waiting_for_user_linkage t =
     (if td_status t = Waiting_for_user then
        (let active_links = [td_waiting_for_ask_id t \<noteq> None, td_waiting_for_confirmation_id t \<noteq> None]
         in if count_list active_links True \<noteq> 1
            then Inl (ValueError (Msg
              ''waiting_for_user task requires exactly one active ASK or confirmation linkage'' []))
            else Inr t)
      else if td_waiting_for_ask_id t \<noteq> None \<or> td_waiting_for_confirmation_id t \<noteq> None
              \<or> td_waiting_for_user_since t \<noteq> None
      then Inl (ValueError (Msg ''non-waiting task must not carry active user-wait linkage'' []))
      else Inr t)"

text \<open>Constructing a \<open>TaskDomain\<close>: fields first, then the validators in class order.\<close>

definition TaskDomain_validate :: "TaskDomain \<Rightarrow> TaskDomain result" where
  "TaskDomain_validate t =
     (if \<not> TaskDomain_fields_ok t then Inl (ValidationError (Msg ''TaskDomain'' []))
      else case validate_root t of
             Inl e \<Rightarrow> Inl (ValidationError (Msg ''TaskDomain'' []))
           | Inr t1 \<Rightarrow>
               (case validate_waiting_for_user_linkage t1 of
                  Inl e \<Rightarrow> Inl (ValidationError (Msg ''TaskDomain'' []))
                | Inr t2 \<Rightarrow> Inr t2))"

definition TaskDomain_valid :: "TaskDomain \<Rightarrow> bool" where
  "TaskDomain_valid t \<longleftrightarrow> is_ok (TaskDomain_validate t)"

lemma TaskDomain_valid_iff:
  "TaskDomain_valid t \<longleftrightarrow> TaskDomain_fields_ok t
     \<and> (td_parent_id t = None \<longrightarrow> td_root_id t = td_task_id t)
     \<and> (if td_status t = Waiting_for_user
        then (td_waiting_for_ask_id t = None) \<noteq> (td_waiting_for_confirmation_id t = None)
        else td_waiting_for_ask_id t = None \<and> td_waiting_for_confirmation_id t = None
             \<and> td_waiting_for_user_since t = None)"
  by (auto simp: TaskDomain_valid_def TaskDomain_validate_def validate_root_def
      validate_waiting_for_user_linkage_def Let_def split: if_splits)

lemma TaskDomain_validate_valid: "TaskDomain_valid t \<Longrightarrow> TaskDomain_validate t = Inr t"
  by (auto simp: TaskDomain_valid_def TaskDomain_validate_def validate_root_def
      validate_waiting_for_user_linkage_def Let_def split: if_splits)

section \<open>Draft tasks\<close>

record TaskNodePatch =
  patch_title :: "string option"
  patch_intent :: "string option"
  patch_summary :: "string option"
  patch_instructions :: "string option"
  patch_acceptance_criteria :: "string list option"
  patch_required_capability :: "string option"
  patch_constraints_add :: "string list"
  patch_constraints_remove :: "string list"
  patch_status :: "string option"
  patch_children_ops :: "(string \<times> json) list list"

definition TaskNodePatch_fields_ok :: "TaskNodePatch \<Rightarrow> bool" where
  "TaskNodePatch_fields_ok p \<longleftrightarrow>
     opt_nonempty (patch_title p) \<and> opt_nonempty (patch_intent p) \<and> opt_nonempty (patch_summary p)
     \<and> opt_nonempty (patch_instructions p) \<and> opt_nonempty (patch_required_capability p)"

record DraftTaskNode =
  dn_draft_task_id :: string
  dn_session_id :: string
  dn_draft_tree_id :: string
  dn_parent_draft_task_id :: "string option"
  dn_order_index :: int
  dn_title :: string
  dn_intent :: string
  dn_summary :: "string option"
  dn_instructions :: "string option"
  dn_acceptance_criteria :: "string list"
  dn_required_capability :: string
  dn_constraints :: "string list"
  dn_rationale :: "string option"
  dn_status :: DraftTaskStatus
  dn_version :: int
  dn_created_by :: string
  dn_created_at :: datetime
  dn_updated_at :: datetime

definition DraftTaskNode_fields_ok :: "DraftTaskNode \<Rightarrow> bool" where
  "DraftTaskNode_fields_ok n \<longleftrightarrow>
     dn_draft_task_id n \<noteq> [] \<and> dn_session_id n \<noteq> [] \<and> dn_draft_tree_id n \<noteq> []
     \<and> opt_nonempty (dn_parent_draft_task_id n) \<and> 0 \<le> dn_order_index n
     \<and> dn_title n \<noteq> [] \<and> dn_intent n \<noteq> [] \<and> opt_nonempty (dn_summary n)
     \<and> opt_nonempty (dn_instructions n) \<and> dn_required_capability n \<noteq> []
     \<and> 1 \<le> dn_version n \<and> dn_created_by n \<noteq> []"

text \<open>Construction of a \<open>DraftTaskNode\<close>, with \<open>_validate_timestamps\<close>.\<close>

definition DraftTaskNode_validate :: "DraftTaskNode \<Rightarrow> DraftTaskNode result" where
  "DraftTaskNode_validate n =
     (if \<not> DraftTaskNode_fields_ok n \<or> dn_updated_at n < dn_created_at n
      then Inl (ValidationError (Msg ''DraftTaskNode'' []))
      else Inr n)"

definition DraftTaskNode_valid :: "DraftTaskNode \<Rightarrow> bool" where
  "DraftTaskNode_valid n \<longleftrightarrow> is_ok (DraftTaskNode_validate n)"

lemma DraftTaskNode_validate_cases:
  "DraftTaskNode_validate n = Inr m \<Longrightarrow> m = n \<and> DraftTaskNode_valid n"
  by (auto simp: DraftTaskNode_validate_def DraftTaskNode_valid_def split: if_splits)

lemma DraftTaskNode_valid_iff:
  "DraftTaskNode_valid n \<longleftrightarrow> DraftTaskNode_fields_ok n \<and> dn_created_at n \<le> dn_updated_at n"
  by (auto simp: DraftTaskNode_valid_def DraftTaskNode_validate_def)

lemma DraftTaskNode_validate_valid: "DraftTaskNode_valid n \<Longrightarrow> DraftTaskNode_validate n = Inr n"
  by (auto simp: DraftTaskNode_validate_def DraftTaskNode_valid_def split: if_splits)

record DraftTaskTree =
  dt_draft_tree_id :: string
  dt_session_id :: string
  dt_title :: "string option"
  dt_summary :: "string option"
  dt_root_nodes :: "DraftTaskNode list"
  dt_created_by :: string
  dt_version :: int
  dt_created_at :: datetime
  dt_updated_at :: datetime

definition DraftTaskTree_fields_ok :: "DraftTaskTree \<Rightarrow> bool" where
  "DraftTaskTree_fields_ok t \<longleftrightarrow>
     dt_draft_tree_id t \<noteq> [] \<and> dt_session_id t \<noteq> [] \<and> opt_nonempty (dt_title t)
     \<and> opt_nonempty (dt_summary t) \<and> dt_root_nodes t \<noteq> [] \<and> dt_created_by t \<noteq> []
     \<and> 1 \<le> dt_version t"

text \<open>The loop of \<open>DraftTaskTree._validate_roots\<close>, with its set of seen order indexes.\<close>

fun validate_roots :: "DraftTaskTree \<Rightarrow> int set \<Rightarrow> DraftTaskNode list \<Rightarrow> unit result" where
  "validate_roots t seen [] =
     (if dt_updated_at t < dt_created_at t
      then Inl (ValueError (Msg ''updated_at must be >= created_at'' [])) else Inr ())"
| "validate_roots t seen (n # ns) =
     (if dn_session_id n \<noteq> dt_session_id t
      then Inl (ValueError (Msg ''root node session_id must match tree session_id'' []))
      else if dn_draft_tree_id n \<noteq> dt_draft_tree_id t
      then Inl (ValueError (Msg ''root node draft_tree_id must match tree draft_tree_id'' []))
      else if dn_parent_draft_task_id n \<noteq> None
      then Inl (ValueError (Msg ''root node parent_draft_task_id must be None'' []))
      else if dn_order_index n \<in> seen
      then Inl (ValueError (Msg ''root node order_index values must be unique'' []))
      else validate_roots t (insert (dn_order_index n) seen) ns)"

definition DraftTaskTree_validate :: "DraftTaskTree \<Rightarrow> DraftTaskTree result" where
  "DraftTaskTree_validate t =
     (if \<not> DraftTaskTree_fields_ok t \<or> \<not> list_all DraftTaskNode_valid (dt_root_nodes t)
         \<or> \<not> is_ok (validate_roots t {} (dt_root_nodes t))
      then Inl (ValidationError (Msg ''DraftTaskTree'' []))
      else Inr t)"

definition DraftTaskTree_valid :: "DraftTaskTree \<Rightarrow> bool" where
  "DraftTaskTree_valid t \<longleftrightarrow> is_ok (DraftTaskTree_validate t)"

lemma DraftTaskTree_validate_cases:
  "DraftTaskTree_validate t = Inr u \<Longrightarrow> u = t \<and> DraftTaskTree_valid t"
  by (auto simp: DraftTaskTree_validate_def DraftTaskTree_valid_def split: if_splits)

lemma validate_roots_ok:
  "is_ok (validate_roots t seen ns) \<longleftrightarrow>
     dt_created_at t \<le> dt_updated_at t
     \<and> (\<forall>n \<in> set ns. dn_session_id n = dt_session_id t \<and> dn_draft_tree_id n = dt_draft_tree_id t
          \<and> dn_parent_draft_task_id n = None)
     \<and> distinct (map dn_order_index ns) \<and> dn_order_index ` set ns \<inter> seen = {}"
  by (induction t seen ns rule: validate_roots.induct) auto

lemma DraftTaskTree_valid_iff:
  "DraftTaskTree_valid t \<longleftrightarrow> DraftTaskTree_fields_ok t \<and> dt_created_at t \<le> dt_updated_at t
     \<and> (\<forall>n \<in> set (dt_root_nodes t). DraftTaskNode_valid n
          \<and> dn_session_id n = dt_session_id t \<and> dn_draft_tree_id n = dt_draft_tree_id t
          \<and> dn_parent_draft_task_id n = None)
     \<and> distinct (map dn_order_index (dt_root_nodes t))"
  by (auto simp: DraftTaskTree_valid_def DraftTaskTree_validate_def validate_roots_ok list_all_iff)

record DraftToPublishedMapping =
  dm_session_id :: string
  dm_draft_tree_id :: string
  dm_draft_task_id :: string
  dm_task_id :: string
  dm_published_at :: datetime
  dm_publish_command_id :: string

definition DraftToPublishedMapping_validate :: "DraftToPublishedMapping \<Rightarrow> DraftToPublishedMapping result" where
  "DraftToPublishedMapping_validate m =
     (if dm_session_id m = [] \<or> dm_draft_tree_id m = [] \<or> dm_draft_task_id m = [] \<or> dm_task_id m = []
         \<or> dm_publish_command_id m = []
      then Inl (ValidationError (Msg ''DraftToPublishedMapping'' []))
      else Inr m)"

section \<open>A task for examples\<close>

definition sample_time :: "nat \<Rightarrow> datetime" where
  "sample_time k = Datetime 1 1 1 0 0 k 0"

definition sample_task :: "string \<Rightarrow> string option \<Rightarrow> TaskDomain" where
  "sample_task i p = \<lparr>td_task_id = i, td_session_id = ''s'', td_parent_id = p, td_root_id = ''r'',
     td_order_index = 0, td_intent = ''do it'', td_summary = None, td_instructions = None,
     td_acceptance_criteria = [], td_required_capability = ''code'',
     td_dispatch_constraints = None, td_status = Pending, td_result_ref = None,
     td_error_ref = None, td_claimed_by = None, td_waiting_for_ask_id = None,
     td_waiting_for_confirmation_id = None, td_waiting_for_user_since = None,
     td_interrupt_requested = False, td_interrupt_request_id = None, td_interrupt_reason = None,
     td_interrupt_requested_by = None, td_interrupt_requested_at = None,
     td_created_by = ''user'', td_created_at = sample_time 0, td_started_at = None,
     td_completed_at = None\<rparr>"

end
