(* ===== verification/Task_Bus.thy ===== *)
theory Task_Bus
  imports Task_Models
begin

text \<open>
  \<open>InMemoryTaskBus\<close> of \<^verbatim>\<open>task/bus.py\<close>: the authority over published tasks.
  Every handler is an operation that either raises, before its single write, or
  returns the stored task together with the new bus. \<open>_utcnow()\<close> is the argument
  \<open>now\<close>, \<open>uuid4().hex\<close> the argument \<open>fresh\<close>; the trace calls of
  \<open>main_page_trace\<close> only log and are left out.

  The status guard and the field updates of a handler are a function on one task
  (\<open>fail_task\<close>, \<open>skip_task\<close>, ...), because \<^verbatim>\<open>task/sqlite_bus.py\<close> runs the same ones over
  its rows.
\<close>

section \<open>State\<close>

record InMemoryTaskBus =
  bus_tasks :: "(string \<times> string, TaskDomain) dict"
  bus_children :: "(string \<times> string option, string list) dict"

definition empty_bus :: InMemoryTaskBus where
  "empty_bus = \<lparr>bus_tasks = [], bus_children = []\<rparr>"

section \<open>Reads\<close>

definition get :: "InMemoryTaskBus \<Rightarrow> string \<Rightarrow> string \<Rightarrow> TaskDomain option" where
  "get b session_id task_id = dict_get (bus_tasks b) (session_id, task_id)"

lemma get_update [simp]:
  "get (b\<lparr>bus_tasks := dict_set (bus_tasks b) (s, i) u\<rparr>) s' i' =
     (if s' = s \<and> i' = i then Some u else get b s' i')"
  by (auto simp: get_def)

text \<open>The sort keys \<open>(created_at, order_index, task_id)\<close> and
  \<open>(order_index, created_at, task_id)\<close>.\<close>

definition claim_key :: "TaskDomain \<Rightarrow> datetime \<times> int \<times> string" where
  "claim_key t = (td_created_at t, td_order_index t, td_task_id t)"

definition sibling_key :: "TaskDomain \<Rightarrow> int \<times> datetime \<times> string" where
  "sibling_key t = (td_order_index t, td_created_at t, td_task_id t)"

definition list_for_session :: "InMemoryTaskBus \<Rightarrow> string \<Rightarrow> TaskDomain list" where
  "list_for_session b session_id =
     sort_key claim_key (filter (\<lambda>t. td_session_id t = session_id) (dict_values (bus_tasks b)))"

text \<open>\<open>self._tasks[(session_id, task_id)]\<close> raises \<open>KeyError\<close> on a dangling index entry.\<close>

fun lookup_all :: "InMemoryTaskBus \<Rightarrow> string \<Rightarrow> string list \<Rightarrow> TaskDomain list result" where
  "lookup_all b session_id [] = Inr []"
| "lookup_all b session_id (task_id # ids) =
     (case get b session_id task_id of
        None \<Rightarrow> Inl (KeyError (Msg ''{}'' [task_id]))
      | Some t \<Rightarrow> map_ok (\<lambda>ts. t # ts) (lookup_all b session_id ids))"

definition child_ids :: "InMemoryTaskBus \<Rightarrow> string \<Rightarrow> string option \<Rightarrow> string list" where
  "child_ids b session_id parent_id =
     (case dict_get (bus_children b) (session_id, parent_id) of None \<Rightarrow> [] | Some ids \<Rightarrow> ids)"

definition list_children :: "InMemoryTaskBus \<Rightarrow> string \<Rightarrow> string option \<Rightarrow> TaskDomain list result" where
  "list_children b session_id parent_id =
     map_ok (sort_key sibling_key) (lookup_all b session_id (child_ids b session_id parent_id))"

section \<open>Publishing\<close>

text \<open>\<open>_load\<close>: a new key, an existing parent with the same root.\<close>

definition load :: "InMemoryTaskBus \<Rightarrow> TaskDomain \<Rightarrow> (TaskDomain \<times> InMemoryTaskBus) result" where
  "load b task =
     (let key = (td_session_id task, td_task_id task);
          store = Inr (task, b\<lparr>
            bus_tasks := dict_set (bus_tasks b) key task,
            bus_children := dict_set (bus_children b) (td_session_id task, td_parent_id task)
              (child_ids b (td_session_id task) (td_parent_id task) @ [td_task_id task])\<rparr>)
      in if get b (td_session_id task) (td_task_id task) \<noteq> None
         then Inl (TaskStoreError (Msg ''task {} already exists'' [td_task_id task]))
         else case td_parent_id task of
                None \<Rightarrow> store
              | Some p \<Rightarrow>
                  (case get b (td_session_id task) p of
                     None \<Rightarrow> Inl (TaskStoreError (Msg ''parent task {} not found'' [p]))
                   | Some parent \<Rightarrow>
                       if td_root_id parent \<noteq> td_root_id task
                       then Inl (TaskStoreError
                              (Msg ''child task root_id must match parent root_id'' []))
                       else store))"

definition publish :: "InMemoryTaskBus \<Rightarrow> TaskDomain \<Rightarrow> (TaskDomain \<times> InMemoryTaskBus) result" where
  "publish b task =
     (if td_status task \<noteq> Pending
      then Inl (TaskStoreError (Msg ''published tasks must enter TaskBus as pending'' []))
      else load b task)"

section \<open>Status guards and updates of one task\<close>

text \<open>The update of \<open>claim_next\<close>.\<close>

definition claim_task :: "string \<Rightarrow> datetime \<Rightarrow> TaskDomain \<Rightarrow> TaskDomain" where
  "claim_task agent_id now task =
     task\<lparr>td_status := Running, td_claimed_by := Some agent_id, td_started_at := Some now\<rparr>"

definition fail_task :: "string \<Rightarrow> datetime \<Rightarrow> TaskDomain \<Rightarrow> TaskDomain result" where
  "fail_task error_ref now task =
     (if td_status task \<noteq> Running \<and> td_status task \<noteq> Waiting_for_user
      then Inl (TaskStoreError (Msg
        ''only running or waiting_for_user tasks can transition to failed; got {}''
        [task_status_str (td_status task)]))
      else Inr (task\<lparr>td_status := Failed, td_result_ref := None, td_error_ref := Some error_ref,
        td_waiting_for_ask_id := None, td_waiting_for_confirmation_id := None,
        td_waiting_for_user_since := None, td_completed_at := Some now\<rparr>))"

definition wait_for_user_updates :: "string \<Rightarrow> datetime \<Rightarrow> TaskDomain \<Rightarrow> TaskDomain" where
  "wait_for_user_updates ask_id now task =
     task\<lparr>td_status := Waiting_for_user, td_waiting_for_ask_id := Some ask_id,
       td_waiting_for_confirmation_id := None, td_waiting_for_user_since := Some now,
       td_result_ref := None, td_error_ref := None, td_completed_at := None\<rparr>"

definition wait_for_user_confirmation_updates ::
  "string \<Rightarrow> datetime \<Rightarrow> TaskDomain \<Rightarrow> TaskDomain" where
  "wait_for_user_confirmation_updates confirmation_id now task =
     task\<lparr>td_status := Waiting_for_user, td_waiting_for_ask_id := None,
       td_waiting_for_confirmation_id := Some confirmation_id,
       td_waiting_for_user_since := Some now,
       td_result_ref := None, td_error_ref := None, td_completed_at := None\<rparr>"

definition resume_after_user_updates :: "TaskDomain \<Rightarrow> TaskDomain" where
  "resume_after_user_updates task =
     task\<lparr>td_status := Pending, td_result_ref := None, td_error_ref := None,
       td_claimed_by := None, td_waiting_for_ask_id := None,
       td_waiting_for_confirmation_id := None, td_waiting_for_user_since := None,
       td_started_at := None, td_completed_at := None\<rparr>"

text \<open>The guard of \<open>wait_for_user\<close> and \<open>wait_for_confirmation\<close>.\<close>

definition wait_task :: "(TaskDomain \<Rightarrow> TaskDomain) \<Rightarrow> TaskDomain \<Rightarrow> TaskDomain result" where
  "wait_task updates task =
     (if td_status task \<noteq> Running
      then Inl (TaskStoreError (Msg ''only running tasks can wait for user; got {}''
        [task_status_str (td_status task)]))
      else Inr (updates task))"

definition resume_user_task :: "string \<Rightarrow> TaskDomain \<Rightarrow> TaskDomain result" where
  "resume_user_task ask_id task =
     (if td_status task \<noteq> Waiting_for_user
      then Inl (TaskStoreError (Msg ''only waiting_for_user tasks can resume; got {}''
        [task_status_str (td_status task)]))
      else if td_waiting_for_ask_id task \<noteq> Some ask_id
      then Inl (TaskStoreError (Msg ''resume ask_id does not match active ASK'' []))
      else Inr (resume_after_user_updates task))"

definition resume_confirmation_task :: "string \<Rightarrow> TaskDomain \<Rightarrow> TaskDomain result" where
  "resume_confirmation_task confirmation_id task =
     (if td_status task \<noteq> Waiting_for_user
      then Inl (TaskStoreError (Msg ''only waiting_for_user tasks can resume; got {}''
        [task_status_str (td_status task)]))
      else if td_waiting_for_confirmation_id task \<noteq> Some confirmation_id
      then Inl (TaskStoreError (Msg ''resume confirmation_id does not match active confirmation'' []))
      else Inr (resume_after_user_updates task))"

definition skip_task :: "string \<Rightarrow> datetime \<Rightarrow> TaskDomain \<Rightarrow> TaskDomain result" where
  "skip_task reason now task =
     (if td_status task \<noteq> Pending \<and> td_status task \<noteq> Running
      then Inl (TaskStoreError (Msg ''only pending or running tasks can be skipped; got {}''
        [task_status_str (td_status task)]))
      else Inr (task\<lparr>td_status := Failed, td_error_ref := Some (''skipped: '' @ reason),
        td_completed_at := Some now\<rparr>))"

definition newline :: string where
  "newline = [char_of (10::nat)]"

definition retry_updates :: "string option \<Rightarrow> TaskDomain \<Rightarrow> TaskDomain" where
  "retry_updates instruction task =
     (let updated = task\<lparr>td_status := Pending, td_result_ref := None, td_error_ref := None,
            td_claimed_by := None, td_waiting_for_ask_id := None,
            td_waiting_for_confirmation_id := None, td_waiting_for_user_since := None,
            td_started_at := None, td_completed_at := None, td_interrupt_requested := False,
            td_interrupt_request_id := None, td_interrupt_reason := None,
            td_interrupt_requested_by := None, td_interrupt_requested_at := None\<rparr>;
          retry_instruction = (case instruction of None \<Rightarrow> [] | Some i \<Rightarrow> strip i)
      in if retry_instruction \<noteq> []
         then updated\<lparr>td_intent := rstrip (td_intent task) @ newline @ newline
                @ ''Retry instruction:'' @ newline @ retry_instruction\<rparr>
         else updated)"

definition retry_task :: "string option \<Rightarrow> TaskDomain \<Rightarrow> TaskDomain result" where
  "retry_task instruction task =
     (if td_status task \<noteq> Failed
      then Inl (TaskStoreError (Msg ''only failed tasks can be retried; got {}''
        [task_status_str (td_status task)]))
      else Inr (retry_updates instruction task))"

text \<open>\<open>request_id or uuid4().hex\<close>: an empty identifier counts as missing.\<close>

definition interrupt_updates ::
  "string \<Rightarrow> TaskInterruptRequestedBy \<Rightarrow> string option \<Rightarrow> datetime \<Rightarrow> string
     \<Rightarrow> TaskDomain \<Rightarrow> TaskDomain" where
  "interrupt_updates reason requested_by request_id now fresh task =
     task\<lparr>td_interrupt_requested := True,
       td_interrupt_request_id := Some
         (case request_id of None \<Rightarrow> fresh | Some r \<Rightarrow> if r = [] then fresh else r),
       td_interrupt_reason := Some (strip reason),
       td_interrupt_requested_by := Some requested_by,
       td_interrupt_requested_at := Some now\<rparr>"

definition interrupt_task ::
  "string \<Rightarrow> TaskInterruptRequestedBy \<Rightarrow> string option \<Rightarrow> datetime \<Rightarrow> string
     \<Rightarrow> TaskDomain \<Rightarrow> TaskDomain result" where
  "interrupt_task reason requested_by request_id now fresh task =
     (if td_status task \<noteq> Pending \<and> td_status task \<noteq> Running
      then Inl (TaskStoreError (Msg ''only pending or running tasks can be interrupted; got {}''
        [task_status_str (td_status task)]))
      else let updated = interrupt_updates reason requested_by request_id now fresh task
           in Inr (if td_status task = Pending
                   then updated\<lparr>td_status := Failed,
                          td_error_ref := Some (''cancelled: '' @ strip reason),
                          td_completed_at := Some now\<rparr>
                   else updated))"

definition recover_interrupted_running_updates :: "datetime \<Rightarrow> TaskDomain \<Rightarrow> TaskDomain" where
  "recover_interrupted_running_updates now task =
     (let reason = strip (case td_interrupt_reason task of
                            None \<Rightarrow> ''user requested stop''
                          | Some r \<Rightarrow> if r = [] then ''user requested stop'' else r)
      in task\<lparr>td_status := Failed, td_result_ref := None,
           td_error_ref := Some (''cancelled: '' @ reason @ ''; safe_point=sidecar_recovery''),
           td_waiting_for_ask_id := None, td_waiting_for_confirmation_id := None,
           td_waiting_for_user_since := None, td_completed_at := Some now\<rparr>)"

text \<open>\<open>_transition_running\<close>.\<close>

definition transition_running_task ::
  "TaskStatus \<Rightarrow> string option \<Rightarrow> string option \<Rightarrow> datetime \<Rightarrow> TaskDomain \<Rightarrow> TaskDomain result" where
  "transition_running_task status result_ref error_ref now task =
     (if td_status task \<noteq> Running
      then Inl (TaskStoreError (Msg ''only running tasks can transition to {}; got {}''
        [task_status_str status, task_status_str (td_status task)]))
      else Inr (task\<lparr>td_status := status, td_result_ref := result_ref, td_error_ref := error_ref,
        td_completed_at := Some now\<rparr>))"

section \<open>Handlers\<close>

definition require_task :: "InMemoryTaskBus \<Rightarrow> string \<Rightarrow> string \<Rightarrow> TaskDomain result" where
  "require_task b session_id task_id =
     (case get b session_id task_id of
        None \<Rightarrow> Inl (TaskStoreError (Msg ''task {} not found'' [task_id]))
      | Some t \<Rightarrow> Inr t)"

text \<open>The common body of the handlers: find the task, guard and update it, store it back.\<close>

definition update_task ::
  "InMemoryTaskBus \<Rightarrow> string \<Rightarrow> string \<Rightarrow> (TaskDomain \<Rightarrow> TaskDomain result)
     \<Rightarrow> (TaskDomain \<times> InMemoryTaskBus) result" where
  "update_task b session_id task_id f =
     (case require_task b session_id task_id of
        Inl e \<Rightarrow> Inl e
      | Inr task \<Rightarrow>
          (case f task of
             Inl e \<Rightarrow> Inl e
           | Inr updated \<Rightarrow>
               Inr (updated,
                    b\<lparr>bus_tasks := dict_set (bus_tasks b) (session_id, task_id) updated\<rparr>)))"

definition parent_is_done :: "InMemoryTaskBus \<Rightarrow> TaskDomain \<Rightarrow> bool" where
  "parent_is_done b task =
     (case td_parent_id task of
        None \<Rightarrow> True
      | Some p \<Rightarrow>
          (case get b (td_session_id task) p of
             None \<Rightarrow> False
           | Some parent \<Rightarrow> td_status parent = Done))"

definition claimable :: "InMemoryTaskBus \<Rightarrow> string \<Rightarrow> string \<Rightarrow> TaskDomain \<Rightarrow> bool" where
  "claimable b session_id capability t \<longleftrightarrow>
     td_session_id t = session_id \<and> td_status t = Pending
     \<and> td_required_capability t = capability \<and> parent_is_done b t"

definition claim_next ::
  "InMemoryTaskBus \<Rightarrow> string \<Rightarrow> string \<Rightarrow> string \<Rightarrow> datetime
     \<Rightarrow> (TaskDomain option \<times> InMemoryTaskBus) result" where
  "claim_next b session_id capability agent_id now =
     (if blank capability
      then Inl (TaskStoreError (Msg ''claim capability must not be empty'' []))
      else if blank agent_id
      then Inl (TaskStoreError (Msg ''claim agent_id must not be empty'' []))
      else case sort_key claim_key
             (filter (claimable b session_id capability) (dict_values (bus_tasks b))) of
             [] \<Rightarrow> Inr (None, b)
           | task # _ \<Rightarrow>
               let updated = claim_task agent_id now task
               in Inr (Some updated, b\<lparr>bus_tasks :=
                    dict_set (bus_tasks b) (session_id, td_task_id task) updated\<rparr>))"

definition complete ::
  "InMemoryTaskBus \<Rightarrow> string \<Rightarrow> string \<Rightarrow> string option \<Rightarrow> datetime
     \<Rightarrow> (TaskDomain \<times> InMemoryTaskBus) result" where
  "complete b session_id task_id result_ref now =
     update_task b session_id task_id (transition_running_task Done result_ref None now)"

definition fail ::
  "InMemoryTaskBus \<Rightarrow> string \<Rightarrow> string \<Rightarrow> string \<Rightarrow> datetime
     \<Rightarrow> (TaskDomain \<times> InMemoryTaskBus) result" where
  "fail b session_id task_id error_ref now =
     (if blank error_ref then Inl (TaskStoreError (Msg ''failed task requires error_ref'' []))
      else update_task b session_id task_id (fail_task error_ref now))"

definition wait_for_user ::
  "InMemoryTaskBus \<Rightarrow> string \<Rightarrow> string \<Rightarrow> string \<Rightarrow> datetime
     \<Rightarrow> (TaskDomain \<times> InMemoryTaskBus) result" where
  "wait_for_user b session_id task_id ask_id now =
     (if strip ask_id = [] then Inl (TaskStoreError (Msg ''waiting task requires ask_id'' []))
      else update_task b session_id task_id
             (wait_task (wait_for_user_updates (strip ask_id) now)))"

definition wait_for_confirmation ::
  "InMemoryTaskBus \<Rightarrow> string \<Rightarrow> string \<Rightarrow> string \<Rightarrow> datetime
     \<Rightarrow> (TaskDomain \<times> InMemoryTaskBus) result" where
  "wait_for_confirmation b session_id task_id confirmation_id now =
     (if strip confirmation_id = []
      then Inl (TaskStoreError (Msg ''waiting task requires confirmation_id'' []))
      else update_task b session_id task_id
             (wait_task (wait_for_user_confirmation_updates (strip confirmation_id) now)))"

definition resume_after_user ::
  "InMemoryTaskBus \<Rightarrow> string \<Rightarrow> string \<Rightarrow> string \<Rightarrow> (TaskDomain \<times> InMemoryTaskBus) result" where
  "resume_after_user b session_id task_id ask_id =
     (if strip ask_id = [] then Inl (TaskStoreError (Msg ''resume requires ask_id'' []))
      else update_task b session_id task_id (resume_user_task (strip ask_id)))"

definition resume_after_confirmation ::
  "InMemoryTaskBus \<Rightarrow> string \<Rightarrow> string \<Rightarrow> string \<Rightarrow> (TaskDomain \<times> InMemoryTaskBus) result" where
  "resume_after_confirmation b session_id task_id confirmation_id =
     (if strip confirmation_id = []
      then Inl (TaskStoreError (Msg ''resume requires confirmation_id'' []))
      else update_task b session_id task_id (resume_confirmation_task (strip confirmation_id)))"

definition skip ::
  "InMemoryTaskBus \<Rightarrow> string \<Rightarrow> string \<Rightarrow> string \<Rightarrow> datetime
     \<Rightarrow> (TaskDomain \<times> InMemoryTaskBus) result" where
  "skip b session_id task_id reason now =
     (if blank reason then Inl (TaskStoreError (Msg ''skipped task requires reason'' []))
      else update_task b session_id task_id (skip_task reason now))"

definition retry ::
  "InMemoryTaskBus \<Rightarrow> string \<Rightarrow> string \<Rightarrow> string option \<Rightarrow> (TaskDomain \<times> InMemoryTaskBus) result" where
  "retry b session_id task_id instruction =
     update_task b session_id task_id (retry_task instruction)"

definition request_interrupt ::
  "InMemoryTaskBus \<Rightarrow> string \<Rightarrow> string \<Rightarrow> string \<Rightarrow> TaskInterruptRequestedBy \<Rightarrow> string option
     \<Rightarrow> datetime \<Rightarrow> string \<Rightarrow> (TaskDomain \<times> InMemoryTaskBus) result" where
  "request_interrupt b session_id task_id reason requested_by request_id now fresh =
     (if blank reason then Inl (TaskStoreError (Msg ''interrupt request requires reason'' []))
      else update_task b session_id task_id
             (interrupt_task reason requested_by request_id now fresh))"

text \<open>
  The loop of \<open>recover_interrupted_running_tasks\<close> over the snapshot of the session;
  \<open>clock k\<close> is the \<open>k\<close>-th reading of \<open>_utcnow()\<close>.
\<close>

fun recover_loop ::
  "string \<Rightarrow> (nat \<Rightarrow> datetime) \<Rightarrow> TaskDomain list \<Rightarrow> InMemoryTaskBus
     \<Rightarrow> TaskDomain list \<times> InMemoryTaskBus" where
  "recover_loop session_id clock [] b = ([], b)"
| "recover_loop session_id clock (task # tasks) b =
     (if td_status task \<noteq> Running \<or> \<not> td_interrupt_requested task
      then recover_loop session_id clock tasks b
      else let updated = recover_interrupted_running_updates (clock 0) task;
               (recovered, b') = recover_loop session_id (\<lambda>k. clock (Suc k)) tasks
                 (b\<lparr>bus_tasks := dict_set (bus_tasks b) (session_id, td_task_id task) updated\<rparr>)
           in (updated # recovered, b'))"

definition recover_interrupted_running_tasks ::
  "InMemoryTaskBus \<Rightarrow> string \<Rightarrow> (nat \<Rightarrow> datetime) \<Rightarrow> TaskDomain list \<times> InMemoryTaskBus" where
  "recover_interrupted_running_tasks b session_id clock =
     recover_loop session_id clock (list_for_session b session_id) b"

end
