(* ===== verification/Task_Lifecycle.thy ===== *)
theory Task_Lifecycle
  imports Task_Bus
begin

text \<open>
  The protocol \<open>TaskBus\<close> as one state machine: every call is a \<open>bus_op\<close>, run by
  \<open>exec\<close> on the in-memory bus. A call that returns makes a finite sequence of single writes
  (\<open>bus_write\<close>): it adds one pending task, or replaces one stored task by one of the
  moves a handler makes. The invariants are proved once for a single write and lifted to
  every reachable bus by rule induction.
\<close>

section \<open>Calls\<close>

datatype bus_op =
    Publish TaskDomain
  | Claim_next string string string
  | Complete string string "string option"
  | Fail string string string
  | Wait_for_user string string string
  | Wait_for_confirmation string string string
  | Resume_after_user string string string
  | Resume_after_confirmation string string string
  | Skip string string string
  | Retry string string "string option"
  | Request_interrupt string string string TaskInterruptRequestedBy "string option"
  | Recover string

abbreviation one :: "TaskDomain \<times> 'b \<Rightarrow> TaskDomain list \<times> 'b" where
  "one \<equiv> map_prod (\<lambda>t. [t]) id"

abbreviation at_most_one :: "TaskDomain option \<times> 'b \<Rightarrow> TaskDomain list \<times> 'b" where
  "at_most_one \<equiv> map_prod (case_option [] (\<lambda>t. [t])) id"

fun exec ::
  "(nat \<Rightarrow> datetime) \<Rightarrow> string \<Rightarrow> bus_op \<Rightarrow> InMemoryTaskBus
     \<Rightarrow> (TaskDomain list \<times> InMemoryTaskBus) result" where
  "exec clk fresh (Publish t) b = map_ok one (publish b t)"
| "exec clk fresh (Claim_next s c a) b = map_ok at_most_one (claim_next b s c a (clk 0))"
| "exec clk fresh (Complete s i r) b = map_ok one (complete b s i r (clk 0))"
| "exec clk fresh (Fail s i e) b = map_ok one (fail b s i e (clk 0))"
| "exec clk fresh (Wait_for_user s i a) b = map_ok one (wait_for_user b s i a (clk 0))"
| "exec clk fresh (Wait_for_confirmation s i c) b =
     map_ok one (wait_for_confirmation b s i c (clk 0))"
| "exec clk fresh (Resume_after_user s i a) b = map_ok one (resume_after_user b s i a)"
| "exec clk fresh (Resume_after_confirmation s i c) b =
     map_ok one (resume_after_confirmation b s i c)"
| "exec clk fresh (Skip s i r) b = map_ok one (skip b s i r (clk 0))"
| "exec clk fresh (Retry s i r) b = map_ok one (retry b s i r)"
| "exec clk fresh (Request_interrupt s i r by rid) b =
     map_ok one (request_interrupt b s i r by rid (clk 0) fresh)"
| "exec clk fresh (Recover s) b = Inr (recover_interrupted_running_tasks b s clk)"

text \<open>
  What a caller must respect for the stored values to stay \<open>TaskDomain\<close> values: a
  published object was constructed by its class, a result reference is not the empty string
  and \<open>uuid4().hex\<close> is not empty.
\<close>

fun op_ok :: "string \<Rightarrow> bus_op \<Rightarrow> bool" where
  "op_ok fresh (Publish t) = TaskDomain_valid t"
| "op_ok fresh (Complete s i r) = opt_nonempty r"
| "op_ok fresh (Request_interrupt s i r by rid) = (fresh \<noteq> [])"
| "op_ok fresh _ = True"

section \<open>Single writes\<close>

text \<open>
  One replacement of a stored task. The flag \<open>strict\<close> adds the conditions of
  \<open>op_ok\<close>, the flag \<open>parent_done\<close> says whether the parent guard of
  \<open>claim_next\<close> holds.
\<close>

inductive task_move :: "bool \<Rightarrow> bool \<Rightarrow> TaskDomain \<Rightarrow> TaskDomain \<Rightarrow> bool"
  for strict parent_done where
  move_claim: "td_status t = Pending \<Longrightarrow> parent_done \<Longrightarrow> \<not> blank a \<Longrightarrow>
     task_move strict parent_done t (claim_task a now t)"
| move_complete: "transition_running_task Done r None now t = Inr u \<Longrightarrow>
     (strict \<Longrightarrow> opt_nonempty r) \<Longrightarrow> task_move strict parent_done t u"
| move_fail: "fail_task e now t = Inr u \<Longrightarrow> \<not> blank e \<Longrightarrow> task_move strict parent_done t u"
| move_wait_user: "wait_task (wait_for_user_updates a now) t = Inr u \<Longrightarrow> a \<noteq> [] \<Longrightarrow>
     task_move strict parent_done t u"
| move_wait_confirmation: "wait_task (wait_for_user_confirmation_updates c now) t = Inr u \<Longrightarrow>
     c \<noteq> [] \<Longrightarrow> task_move strict parent_done t u"
| move_resume_user: "resume_user_task a t = Inr u \<Longrightarrow> task_move strict parent_done t u"
| move_resume_confirmation: "resume_confirmation_task c t = Inr u \<Longrightarrow>
     task_move strict parent_done t u"
| move_skip: "skip_task r now t = Inr u \<Longrightarrow> task_move strict parent_done t u"
| move_retry: "retry_task i t = Inr u \<Longrightarrow> task_move strict parent_done t u"
| move_interrupt: "interrupt_task r by rid now fresh t = Inr u \<Longrightarrow> \<not> blank r \<Longrightarrow>
     (strict \<Longrightarrow> fresh \<noteq> []) \<Longrightarrow> task_move strict parent_done t u"
| move_recover: "td_status t = Running \<Longrightarrow> td_interrupt_requested t \<Longrightarrow>
     task_move strict parent_done t (recover_interrupted_running_updates now t)"

lemmas task_update_defs =
  claim_task_def transition_running_task_def fail_task_def wait_task_def
  wait_for_user_updates_def wait_for_user_confirmation_updates_def
  resume_user_task_def resume_confirmation_task_def resume_after_user_updates_def
  skip_task_def retry_task_def retry_updates_def interrupt_task_def interrupt_updates_def
  recover_interrupted_running_updates_def

inductive bus_write :: "bool \<Rightarrow> InMemoryTaskBus \<Rightarrow> InMemoryTaskBus \<Rightarrow> bool" for strict where
  write_new: "load b t = Inr (t, b') \<Longrightarrow> td_status t = Pending \<Longrightarrow>
     (strict \<Longrightarrow> TaskDomain_valid t) \<Longrightarrow> bus_write strict b b'"
| write_old: "get b s i = Some t \<Longrightarrow> task_move strict (parent_is_done b t) t u \<Longrightarrow>
     bus_write strict b (b\<lparr>bus_tasks := dict_set (bus_tasks b) (s, i) u\<rparr>)"

section \<open>What a move keeps and changes\<close>

text \<open>The fields no handler writes: identity, place in the tree, claim order.\<close>

definition same_identity :: "TaskDomain \<Rightarrow> TaskDomain \<Rightarrow> bool" where
  "same_identity t u \<longleftrightarrow>
     td_task_id u = td_task_id t \<and> td_session_id u = td_session_id t
     \<and> td_parent_id u = td_parent_id t \<and> td_root_id u = td_root_id t
     \<and> td_order_index u = td_order_index t \<and> td_created_at u = td_created_at t
     \<and> td_required_capability u = td_required_capability t \<and> td_created_by u = td_created_by t
     \<and> td_dispatch_constraints u = td_dispatch_constraints t"

lemma same_identity_refl [simp]: "same_identity t t"
  by (simp add: same_identity_def)

lemma same_identity_trans: "same_identity t u \<Longrightarrow> same_identity u v \<Longrightarrow> same_identity t v"
  by (simp add: same_identity_def)

text \<open>The status graph of the bus.\<close>

inductive status_step :: "TaskStatus \<Rightarrow> TaskStatus \<Rightarrow> bool" where
  "status_step Pending Running"
| "status_step Running Done"
| "status_step Running Failed"
| "status_step Running Waiting_for_user"
| "status_step Running Running"
| "status_step Waiting_for_user Pending"
| "status_step Waiting_for_user Failed"
| "status_step Pending Failed"
| "status_step Failed Pending"

code_pred status_step .

inductive_cases status_step_from_done [elim!]: "status_step Done s"

lemma task_move_identity: "task_move strict pd t u \<Longrightarrow> same_identity t u"
  by (induction rule: task_move.induct)
     (auto simp: task_update_defs same_identity_def Let_def split: if_splits)

lemma task_move_status: "task_move strict pd t u \<Longrightarrow> status_step (td_status t) (td_status u)"
  by (induction rule: task_move.induct)
     (auto simp: task_update_defs Let_def intro: status_step.intros split: if_splits)

lemma task_move_to_active:
  "task_move strict pd t u \<Longrightarrow> td_status u \<in> {Running, Waiting_for_user, Done} \<Longrightarrow>
   td_status t \<in> {Running, Waiting_for_user, Done} \<or> pd"
  by (induction rule: task_move.induct)
     (auto simp: task_update_defs Let_def split: if_splits)

text \<open>
  Validity after each kind of update. \<open>model_copy\<close> runs no validator, so this is what
  keeps the stored values inside their class.
\<close>

lemmas valid_defs = TaskDomain_valid_iff TaskDomain_fields_ok_def

lemma claim_task_valid:
  "TaskDomain_valid t \<Longrightarrow> td_status t = Pending \<Longrightarrow> a \<noteq> [] \<Longrightarrow> TaskDomain_valid (claim_task a now t)"
  by (simp add: claim_task_def valid_defs)

lemma transition_running_task_valid:
  "transition_running_task Done r None now t = Inr u \<Longrightarrow> TaskDomain_valid t \<Longrightarrow> opt_nonempty r \<Longrightarrow>
   TaskDomain_valid u"
  by (auto simp: transition_running_task_def split: if_splits) (simp add: valid_defs)

lemma fail_task_valid:
  "fail_task e now t = Inr u \<Longrightarrow> TaskDomain_valid t \<Longrightarrow> e \<noteq> [] \<Longrightarrow> TaskDomain_valid u"
  by (auto simp: fail_task_def split: if_splits) (simp_all add: valid_defs)

lemma wait_task_valid:
  "wait_task f t = Inr u \<Longrightarrow> TaskDomain_valid t \<Longrightarrow> x \<noteq> [] \<Longrightarrow>
   f = wait_for_user_updates x now \<or> f = wait_for_user_confirmation_updates x now \<Longrightarrow>
   TaskDomain_valid u"
  by (auto simp: wait_task_def wait_for_user_updates_def wait_for_user_confirmation_updates_def
      split: if_splits) (simp_all add: valid_defs)

lemma resume_updates_valid: "TaskDomain_valid t \<Longrightarrow> TaskDomain_valid (resume_after_user_updates t)"
  by (simp add: resume_after_user_updates_def valid_defs)

lemma skip_task_valid:
  "skip_task r now t = Inr u \<Longrightarrow> TaskDomain_valid t \<Longrightarrow> TaskDomain_valid u"
  by (auto simp: skip_task_def split: if_splits) (simp_all add: valid_defs)

lemma retry_updates_valid: "TaskDomain_valid t \<Longrightarrow> TaskDomain_valid (retry_updates i t)"
  by (simp add: retry_updates_def Let_def valid_defs)

lemma interrupt_updates_valid:
  "TaskDomain_valid t \<Longrightarrow> \<not> blank r \<Longrightarrow> fresh \<noteq> [] \<Longrightarrow>
   TaskDomain_valid (interrupt_updates r by rid now fresh t)"
  by (cases rid) (simp_all add: interrupt_updates_def valid_defs)

lemma interrupt_task_valid:
  assumes "interrupt_task r by rid now fresh t = Inr u" "TaskDomain_valid t" "\<not> blank r"
    "fresh \<noteq> []"
  shows "TaskDomain_valid u"
proof -
  let ?v = "interrupt_updates r by rid now fresh t"
  have v: "TaskDomain_valid ?v" "td_status ?v = td_status t"
    using assms interrupt_updates_valid by (simp_all add: interrupt_updates_def)
  consider "td_status t = Pending" "u = ?v\<lparr>td_status := Failed,
      td_error_ref := Some (''cancelled: '' @ strip r), td_completed_at := Some now\<rparr>"
    | "u = ?v"
    using assms(1) by (auto simp: interrupt_task_def Let_def split: if_splits)
  then show ?thesis by cases (use v in \<open>simp_all add: valid_defs\<close>)
qed

lemma recover_updates_valid:
  "TaskDomain_valid t \<Longrightarrow> TaskDomain_valid (recover_interrupted_running_updates now t)"
  by (simp add: recover_interrupted_running_updates_def Let_def valid_defs)

lemma task_move_valid: "task_move True pd t u \<Longrightarrow> TaskDomain_valid t \<Longrightarrow> TaskDomain_valid u"
  by (induction rule: task_move.induct)
     (auto simp: resume_user_task_def resume_confirmation_task_def retry_task_def
       intro: claim_task_valid transition_running_task_valid fail_task_valid wait_task_valid
         resume_updates_valid skip_task_valid retry_updates_valid interrupt_task_valid
         recover_updates_valid
       dest: not_blank_nonempty split: if_splits)

section \<open>A call is a sequence of single writes\<close>

lemma update_task_write:
  assumes "update_task b s i f = Inr (u, b')"
    and "\<And>t u. f t = Inr u \<Longrightarrow> task_move strict (parent_is_done b t) t u"
  shows "bus_write strict b b'"
  using assms by (auto simp: update_task_def require_task_def intro: bus_write.intros
      split: option.splits sum.splits)

lemma load_result: "load b t = Inr (u, b') \<Longrightarrow> u = t"
  by (auto simp: load_def Let_def split: if_splits option.splits)

lemma publish_write:
  "publish b t = Inr (u, b') \<Longrightarrow> (strict \<Longrightarrow> TaskDomain_valid t) \<Longrightarrow> bus_write strict b b'"
  by (auto simp: publish_def intro!: write_new dest: load_result split: if_splits)

definition keyed :: "InMemoryTaskBus \<Rightarrow> bool" where
  "keyed b \<longleftrightarrow> dict_ok (bus_tasks b)
     \<and> (\<forall>s i t. get b s i = Some t \<longrightarrow> td_session_id t = s \<and> td_task_id t = i)"

lemma keyedD:
  "keyed b \<Longrightarrow> t \<in> set (dict_values (bus_tasks b)) \<Longrightarrow>
   get b (td_session_id t) (td_task_id t) = Some t"
  by (auto simp: keyed_def get_def dict_values_mem simp del: set_map)

lemma keyed_value: "get b s i = Some t \<Longrightarrow> t \<in> set (dict_values (bus_tasks b))"
  unfolding get_def by (rule dict_get_mem)

lemma claim_next_Some:
  assumes "claim_next b s c a now = Inr (Some u, b')"
  obtains t where "\<not> blank c" "\<not> blank a" "t \<in> set (dict_values (bus_tasks b))"
    "claimable b s c t" "u = claim_task a now t"
    "b' = b\<lparr>bus_tasks := dict_set (bus_tasks b) (s, td_task_id t) u\<rparr>"
    "\<And>t'. t' \<in> set (dict_values (bus_tasks b)) \<Longrightarrow> claimable b s c t' \<Longrightarrow> claim_key t \<le> claim_key t'"
proof -
  let ?cs = "filter (claimable b s c) (dict_values (bus_tasks b))"
  from assms obtain t ts where t: "\<not> blank c" "\<not> blank a" "sort_key claim_key ?cs = t # ts"
      "u = claim_task a now t" "b' = b\<lparr>bus_tasks := dict_set (bus_tasks b) (s, td_task_id t) u\<rparr>"
    by (auto simp: claim_next_def Let_def split: if_splits list.splits)
  have "t \<in> set ?cs" using t(3) by (rule hd_sort_key_mem)
  moreover have "claim_key t \<le> claim_key t'" if "t' \<in> set ?cs" for t'
    using t(3) that by (rule hd_sort_key_least)
  ultimately show thesis
    by (intro that [of t] t) auto
qed

lemma claim_next_None:
  "claim_next b s c a now = Inr (None, b') \<Longrightarrow>
   b' = b \<and> (\<forall>t \<in> set (dict_values (bus_tasks b)). \<not> claimable b s c t)"
  by (simp add: claim_next_def Let_def filter_empty_conv del: set_map split: if_splits list.splits)

section \<open>Invariants\<close>

text \<open>A parent exists, in the same session and under the same root.\<close>

definition parents_ok :: "InMemoryTaskBus \<Rightarrow> bool" where
  "parents_ok b \<longleftrightarrow> (\<forall>s i t p. get b s i = Some t \<longrightarrow> td_parent_id t = Some p \<longrightarrow>
     (\<exists>pt. get b (td_session_id t) p = Some pt \<and> td_root_id pt = td_root_id t))"

text \<open>The child index lists exactly the children, in publishing order.\<close>

definition index_ok :: "InMemoryTaskBus \<Rightarrow> bool" where
  "index_ok b \<longleftrightarrow> (\<forall>s p. child_ids b s p =
     map td_task_id (filter (\<lambda>t. td_session_id t = s \<and> td_parent_id t = p)
       (dict_values (bus_tasks b))))"

abbreviation active :: "TaskStatus \<Rightarrow> bool" where
  "active st \<equiv> st \<in> {Running, Waiting_for_user, Done}"

text \<open>A task that has been claimed and not sent back has a finished parent.\<close>

definition order_ok :: "InMemoryTaskBus \<Rightarrow> bool" where
  "order_ok b \<longleftrightarrow> (\<forall>s i t. get b s i = Some t \<longrightarrow> active (td_status t) \<longrightarrow>
     parent_is_done b t)"

definition bus_inv :: "InMemoryTaskBus \<Rightarrow> bool" where
  "bus_inv b \<longleftrightarrow> keyed b \<and> parents_ok b \<and> index_ok b \<and> order_ok b"

definition all_valid :: "InMemoryTaskBus \<Rightarrow> bool" where
  "all_valid b \<longleftrightarrow> (\<forall>s i t. get b s i = Some t \<longrightarrow> TaskDomain_valid t)"

text \<open>Every task's root is stored and is a root.\<close>

definition rooted :: "InMemoryTaskBus \<Rightarrow> bool" where
  "rooted b \<longleftrightarrow> (\<forall>s i t. get b s i = Some t \<longrightarrow>
     (\<exists>r. get b (td_session_id t) (td_root_id t) = Some r \<and> td_parent_id r = None))"

lemma loadE:
  assumes "load b t = Inr (u, b')"
  obtains "get b (td_session_id t) (td_task_id t) = None"
    "bus_tasks b' = bus_tasks b @ [((td_session_id t, td_task_id t), t)]"
    "bus_children b' = dict_set (bus_children b) (td_session_id t, td_parent_id t)
       (child_ids b (td_session_id t) (td_parent_id t) @ [td_task_id t])"
    "\<And>p. td_parent_id t = Some p \<Longrightarrow> \<exists>pt. get b (td_session_id t) p = Some pt
       \<and> td_root_id pt = td_root_id t"
  using assms
  by (auto simp: load_def Let_def dict_set_fresh get_def split: if_splits option.splits)

lemma load_get:
  assumes "load b t = Inr (u, b')"
  shows "get b' s i =
    (if s = td_session_id t \<and> i = td_task_id t then Some t else get b s i)"
  using assms
  by (elim loadE) (auto simp: get_def map_add_Some_iff map_add_def split: option.splits)

lemma update_identity:
  assumes "dict_get d k = Some t" "same_identity t u"
  shows "map td_task_id (filter (\<lambda>t. td_session_id t = s \<and> td_parent_id t = p)
             (dict_values (dict_set d k u))) =
         map td_task_id (filter (\<lambda>t. td_session_id t = s \<and> td_parent_id t = p) (dict_values d))"
  using assms by (induction d) (auto simp: same_identity_def split: if_splits)

lemma write_keyed: "bus_write strict b b' \<Longrightarrow> keyed b \<Longrightarrow> keyed b'"
proof (induction rule: bus_write.induct)
  case (write_new b t b')
  have "dict_ok (bus_tasks b')"
    using write_new(1) write_new.prems
    by (elim loadE) (auto simp: keyed_def get_def map_of_eq_None_iff)
  then show ?case
    using write_new.prems by (auto simp: keyed_def load_get [OF write_new(1)] split: if_splits)
next
  case (write_old b s i t u)
  then show ?case
    by (auto simp: keyed_def same_identity_def dest: task_move_identity)
qed

lemma write_parents: "bus_write strict b b' \<Longrightarrow> parents_ok b \<Longrightarrow> parents_ok b'"
proof (induction rule: bus_write.induct)
  case (write_new b t b')
  have old: "\<exists>pt'. get b' s p = Some pt' \<and> td_root_id pt' = td_root_id pt"
    if "get b s p = Some pt" for s p pt
    using that write_new(1) by (elim loadE) (auto simp: load_get [OF write_new(1)])
  from write_new(1) have "td_parent_id t = Some p \<Longrightarrow>
      \<exists>pt. get b (td_session_id t) p = Some pt \<and> td_root_id pt = td_root_id t" for p
    by (elim loadE) blast
  with write_new.prems old show ?case
    unfolding parents_ok_def by (metis load_get [OF write_new(1)] option.inject)
next
  case (write_old b s i t u)
  have id: "same_identity t u" using write_old(2) by (rule task_move_identity)
  have old: "\<exists>pt'. get (b\<lparr>bus_tasks := dict_set (bus_tasks b) (s, i) u\<rparr>) s' p = Some pt'
      \<and> td_root_id pt' = td_root_id pt" if "get b s' p = Some pt" for s' p pt
    using that id write_old(1) by (auto simp: same_identity_def)
  show ?case
    unfolding parents_ok_def
  proof (intro allI impI)
    fix s' i' v p
    assume v: "get (b\<lparr>bus_tasks := dict_set (bus_tasks b) (s, i) u\<rparr>) s' i' = Some v"
      and p: "td_parent_id v = Some p"
    obtain v0 where "get b s' i' = Some v0" "same_identity v0 v"
      using v id write_old(1) by (auto split: if_splits)
    with p write_old.prems obtain pt where "get b (td_session_id v) p = Some pt"
        "td_root_id pt = td_root_id v"
      unfolding parents_ok_def same_identity_def by metis
    with old show "\<exists>pt. get (b\<lparr>bus_tasks := dict_set (bus_tasks b) (s, i) u\<rparr>)
        (td_session_id v) p = Some pt \<and> td_root_id pt = td_root_id v" by metis
  qed
qed

lemma write_index: "bus_write strict b b' \<Longrightarrow> index_ok b \<Longrightarrow> index_ok b'"
proof (induction rule: bus_write.induct)
  case (write_new b t b')
  from write_new(1) write_new.prems show ?case
    by (elim loadE) (auto simp: index_ok_def child_ids_def)
next
  case (write_old b s i t u)
  then show ?case
    by (simp add: index_ok_def child_ids_def get_def update_identity task_move_identity)
qed

lemma write_order: "bus_write strict b b' \<Longrightarrow> order_ok b \<Longrightarrow> order_ok b'"
proof (induction rule: bus_write.induct)
  case (write_new b t b')
  note ld = write_new(1)
  have keep: "parent_is_done b' v" if "parent_is_done b v" for v
    using that ld
    by (elim loadE) (auto simp: parent_is_done_def load_get [OF ld] split: option.splits)
  show ?case
    using write_new.prems write_new(2) keep
    by (auto simp: order_ok_def load_get [OF ld] split: if_splits)
next
  case (write_old b s i t u)
  let ?b' = "b\<lparr>bus_tasks := dict_set (bus_tasks b) (s, i) u\<rparr>"
  have id: "same_identity t u" using write_old(2) by (rule task_move_identity)
  have done_stays: "td_status t \<noteq> Done"
    using task_move_status [OF write_old(2)] by auto
  have keep: "parent_is_done ?b' v" if "parent_is_done b v" for v
    using that write_old(1) done_stays by (auto simp: parent_is_done_def split: option.splits)
  have same: "parent_is_done ?b' u \<longleftrightarrow> parent_is_done ?b' t"
    using id by (cases "td_parent_id t") (simp_all add: parent_is_done_def same_identity_def)
  have "parent_is_done ?b' u" if "active (td_status u)"
    using that same keep write_old.prems write_old(1) task_move_to_active [OF write_old(2)]
    unfolding order_ok_def by blast
  then show ?case
    using write_old.prems keep by (auto simp: order_ok_def)
qed

lemma write_inv: "bus_write strict b b' \<Longrightarrow> bus_inv b \<Longrightarrow> bus_inv b'"
  by (auto simp: bus_inv_def intro: write_keyed write_parents write_index write_order)

lemma write_valid: "bus_write True b b' \<Longrightarrow> all_valid b \<Longrightarrow> all_valid b'"
  by (induction rule: bus_write.induct)
     (auto simp: all_valid_def load_get split: if_splits dest: task_move_valid)

lemma write_rooted: "bus_write True b b' \<Longrightarrow> keyed b \<Longrightarrow> rooted b \<Longrightarrow> rooted b'"
proof (induction rule: bus_write.induct)
  case (write_new b t b')
  let ?root = "\<lambda>c v. \<exists>r. get c (td_session_id v) (td_root_id v) = Some r \<and> td_parent_id r = None"
  have old: "?root b' v" if "?root b v" for v
  proof -
    from that obtain r where
      r: "get b (td_session_id v) (td_root_id v) = Some r" "td_parent_id r = None" by blast
    then have "get b' (td_session_id v) (td_root_id v) = Some r"
      using write_new(1) by (elim loadE) (auto simp: load_get [OF write_new(1)])
    with r show ?thesis by blast
  qed
  have new: "?root b' t"
  proof (cases "td_parent_id t")
    case None
    with write_new(3) show ?thesis
      by (simp add: load_get [OF write_new(1)] TaskDomain_valid_iff)
  next
    case (Some p)
    with write_new(1) obtain pt where pt: "get b (td_session_id t) p = Some pt"
        "td_root_id pt = td_root_id t"
      by (elim loadE) blast
    then have "td_session_id pt = td_session_id t"
      using write_new.prems(1) by (simp add: keyed_def)
    then have "?root b t" using pt write_new.prems(2) unfolding rooted_def by metis
    then show ?thesis by (rule old)
  qed
  show ?case
    unfolding rooted_def
  proof (intro allI impI)
    fix s i v
    assume "get b' s i = Some v"
    then have "v = t \<or> get b s i = Some v"
      by (auto simp: load_get [OF write_new(1)] split: if_splits)
    then show "?root b' v"
    proof
      assume "get b s i = Some v"
      with write_new.prems(2) have "?root b v" by (simp add: rooted_def)
      then show ?thesis by (rule old)
    qed (simp add: new)
  qed
next
  case (write_old b s i t u)
  have id: "same_identity t u" using write_old(2) by (rule task_move_identity)
  have old: "\<exists>r'. get (b\<lparr>bus_tasks := dict_set (bus_tasks b) (s, i) u\<rparr>) s' i' = Some r'
      \<and> td_parent_id r' = None" if "get b s' i' = Some r" "td_parent_id r = None" for s' i' r
    using that id write_old(1) by (auto simp: same_identity_def)
  show ?case
    unfolding rooted_def
  proof (intro allI impI)
    fix s' i' v
    assume "get (b\<lparr>bus_tasks := dict_set (bus_tasks b) (s, i) u\<rparr>) s' i' = Some v"
    then obtain v0 where "get b s' i' = Some v0" "same_identity v0 v"
      using id write_old(1) by (auto split: if_splits)
    with write_old.prems(2) have "\<exists>r. get b (td_session_id v) (td_root_id v) = Some r
        \<and> td_parent_id r = None"
      unfolding rooted_def same_identity_def by metis
    with old show "\<exists>r. get (b\<lparr>bus_tasks := dict_set (bus_tasks b) (s, i) u\<rparr>)
        (td_session_id v) (td_root_id v) = Some r \<and> td_parent_id r = None" by blast
  qed
qed

section \<open>Every call keeps the invariants\<close>

lemma list_for_session_mem:
  "keyed b \<Longrightarrow> t \<in> set (list_for_session b s) \<longleftrightarrow> get b s (td_task_id t) = Some t"
  unfolding list_for_session_def
  using keyedD [of b t] keyed_value [of b s "td_task_id t" t]
  by (auto simp: keyed_def simp del: set_map)

lemma list_for_session_distinct:
  assumes "keyed b"
  shows "distinct (map td_task_id (list_for_session b s))"
proof -
  have "distinct (map (\<lambda>t. (td_session_id t, td_task_id t)) (dict_values (bus_tasks b)))"
  proof -
    have "map (\<lambda>t. (td_session_id t, td_task_id t)) (dict_values (bus_tasks b))
        = map fst (bus_tasks b)"
      using assms by (auto simp: keyed_def get_def)
    then show ?thesis using assms by (simp only: keyed_def)
  qed
  then have d: "distinct (dict_values (bus_tasks b))"
      and inj: "inj_on (\<lambda>t. (td_session_id t, td_task_id t)) (set (dict_values (bus_tasks b)))"
    by (simp_all only: distinct_map)
  have "distinct (list_for_session b s)"
    unfolding list_for_session_def distinct_sort using d by (rule distinct_filter)
  moreover have "inj_on td_task_id (set (list_for_session b s))"
    using inj unfolding list_for_session_def set_sort set_filter inj_on_def by blast
  ultimately show ?thesis by (simp add: distinct_map)
qed

text \<open>The dictionary \<open>{task.task_id: task for task in tasks}\<close> that readers of a session build, in which a
  later task replaces an earlier one: over the list of a session it is the bus itself.\<close>

definition task_by_id :: "TaskDomain list \<Rightarrow> string \<Rightarrow> TaskDomain option" where
  "task_by_id session_tasks = map_of (rev (map (\<lambda>t. (td_task_id t, t)) session_tasks))"

lemma task_by_id_get:
  assumes "keyed b"
  shows "task_by_id (list_for_session b s) p = get b s p"
proof -
  let ?xs = "rev (map (\<lambda>t. (td_task_id t, t)) (list_for_session b s))"
  have "map fst ?xs = rev (map td_task_id (list_for_session b s))"
    by (simp add: rev_map comp_def)
  then have d: "distinct (map fst ?xs)"
    using list_for_session_distinct [OF assms] by simp
  have "(p, t) \<in> set ?xs \<longleftrightarrow> get b s p = Some t" for t
  proof -
    have "(p, t) \<in> set ?xs \<longleftrightarrow> t \<in> set (list_for_session b s) \<and> td_task_id t = p" by auto
    also have "\<dots> \<longleftrightarrow> get b s (td_task_id t) = Some t \<and> td_task_id t = p"
      by (simp only: list_for_session_mem [OF assms])
    also have "\<dots> \<longleftrightarrow> get b s p = Some t"
      using assms unfolding keyed_def by blast
    finally show ?thesis .
  qed
  then have "task_by_id (list_for_session b s) p = Some t \<longleftrightarrow> get b s p = Some t" for t
    unfolding task_by_id_def using d by (simp only: map_of_eq_Some_iff)
  then show ?thesis by (metis not_None_eq)
qed

lemma list_for_session_session:
  "t \<in> set (list_for_session b s) \<Longrightarrow> td_session_id t = s"
  by (auto simp: list_for_session_def)

lemma recover_loop_write:
  assumes "recover_loop s clk ts b = (r, b')" "distinct (map td_task_id ts)"
    and "\<And>t. t \<in> set ts \<Longrightarrow> get b s (td_task_id t) = Some t"
  shows "(bus_write strict)\<^sup>*\<^sup>* b b'"
  using assms
proof (induction s clk ts b arbitrary: r rule: recover_loop.induct)
  case (1 s clk b)
  then show ?case by simp
next
  case (2 s clk t ts b)
  let ?u = "recover_interrupted_running_updates (clk 0) t"
  let ?b1 = "b\<lparr>bus_tasks := dict_set (bus_tasks b) (s, td_task_id t) ?u\<rparr>"
  show ?case
  proof (cases "td_status t \<noteq> Running \<or> \<not> td_interrupt_requested t")
    case True
    with 2 show ?thesis by simp
  next
    case False
    with "2.prems"(1) obtain r1 where rec: "recover_loop s (\<lambda>k. clk (Suc k)) ts ?b1 = (r1, b')"
      by (auto simp: Let_def split: prod.splits)
    have "bus_write strict b ?b1"
      using False "2.prems"(3) [of t] by (auto intro!: write_old move_recover)
    moreover have "(bus_write strict)\<^sup>*\<^sup>* ?b1 b'"
    proof (rule "2.IH"(2) [OF False refl rec])
      show "distinct (map td_task_id ts)" using "2.prems"(2) by simp
      show "get ?b1 s (td_task_id v) = Some v" if "v \<in> set ts" for v
        using that "2.prems"(2,3) by (auto simp: image_iff)
    qed
    ultimately show ?thesis by (rule converse_rtranclp_into_rtranclp)
  qed
qed

lemma map_ok_one: "map_ok one x = Inr (r, b') \<Longrightarrow> \<exists>t. x = Inr (t, b') \<and> r = [t]"
  by (cases x) auto

lemma map_ok_at_most_one: "map_ok at_most_one x = Inr (r, b') \<Longrightarrow> \<exists>t. x = Inr (t, b')"
  by (cases x) auto

lemmas handler_defs = complete_def fail_def wait_for_user_def wait_for_confirmation_def
  resume_after_user_def resume_after_confirmation_def skip_def retry_def request_interrupt_def

lemma claim_next_write_cases:
  assumes "keyed b" "claim_next b s c a now = Inr (x, b')"
  shows "b' = b \<or> bus_write strict b b'"
proof (cases x)
  case None
  with assms(2) claim_next_None show ?thesis by blast
next
  case (Some u)
  with assms(2) obtain t where t: "\<not> blank a" "t \<in> set (dict_values (bus_tasks b))"
      "claimable b s c t" "u = claim_task a now t"
      "b' = b\<lparr>bus_tasks := dict_set (bus_tasks b) (s, td_task_id t) u\<rparr>"
    by (auto elim: claim_next_Some)
  have "get b s (td_task_id t) = Some t"
    using keyedD [OF assms(1) t(2)] t(3) by (simp add: claimable_def)
  moreover have "task_move strict (parent_is_done b t) t u"
    using t by (auto simp: claimable_def intro: task_move.move_claim)
  ultimately have "bus_write strict b b'" unfolding t(5) by (rule write_old)
  then show ?thesis ..
qed

text \<open>Every call but the recovery writes at most once.\<close>

lemma exec_write_cases:
  assumes "exec clk fresh op b = Inr (r, b')" "keyed b" "strict \<Longrightarrow> op_ok fresh op"
    and "\<And>s. op \<noteq> Recover s"
  shows "b' = b \<or> bus_write strict b b'"
proof (cases op)
  case (Publish t)
  with assms have "bus_write strict b b'" by (auto dest!: map_ok_one intro!: publish_write)
  then show ?thesis ..
next
  case (Claim_next s c a)
  with assms(1) obtain x where "claim_next b s c a (clk 0) = Inr (x, b')"
    by (auto dest!: map_ok_at_most_one)
  with assms(2) show ?thesis by (rule claim_next_write_cases)
next
  case (Recover s)
  with assms(4) show ?thesis by blast
qed (use assms in \<open>auto dest!: map_ok_one intro: task_move.intros
        elim!: update_task_write [THEN disjI2] split: if_splits simp: handler_defs
        simp del: disj_not1\<close>)

lemma exec_writes:
  assumes "exec clk fresh op b = Inr (r, b')" "keyed b" "strict \<Longrightarrow> op_ok fresh op"
  shows "(bus_write strict)\<^sup>*\<^sup>* b b'"
proof (cases "\<exists>s. op = Recover s")
  case True
  then obtain s where "op = Recover s" ..
  with assms(1) have "recover_loop s clk (list_for_session b s) b = (r, b')"
    by (simp add: recover_interrupted_running_tasks_def)
  then show ?thesis
    by (rule recover_loop_write)
       (simp_all add: list_for_session_distinct list_for_session_mem assms(2))
next
  case False
  then have "b' = b \<or> bus_write strict b b'" using assms by (intro exec_write_cases) blast+
  then show ?thesis by blast
qed

lemma writes_inv: "(bus_write strict)\<^sup>*\<^sup>* b b' \<Longrightarrow> bus_inv b \<Longrightarrow> bus_inv b'"
  by (induction rule: rtranclp_induct) (auto intro: write_inv)

lemma writes_valid: "(bus_write True)\<^sup>*\<^sup>* b b' \<Longrightarrow> all_valid b \<Longrightarrow> all_valid b'"
  by (induction rule: rtranclp_induct) (auto intro: write_valid)

lemma writes_rooted: "(bus_write True)\<^sup>*\<^sup>* b b' \<Longrightarrow> bus_inv b \<Longrightarrow> rooted b \<Longrightarrow> rooted b'"
proof (induction rule: rtranclp_induct)
  case (step y z)
  then have "bus_inv y" by (blast intro: writes_inv)
  with step show ?case by (auto simp: bus_inv_def intro: write_rooted)
qed

lemma exec_inv: "exec clk fresh op b = Inr (r, b') \<Longrightarrow> bus_inv b \<Longrightarrow> bus_inv b'"
  by (rule writes_inv [where strict = False], rule exec_writes) (auto simp: bus_inv_def)

text \<open>The buses a process can reach: any calls, with any clock and any identifiers.\<close>

inductive reachable :: "bool \<Rightarrow> InMemoryTaskBus \<Rightarrow> bool" for strict where
  reach_empty: "reachable strict empty_bus"
| reach_exec: "reachable strict b \<Longrightarrow> exec clk fresh op b = Inr (r, b') \<Longrightarrow>
     (strict \<Longrightarrow> op_ok fresh op) \<Longrightarrow> reachable strict b'"

lemma empty_bus_inv: "bus_inv empty_bus" "all_valid empty_bus" "rooted empty_bus"
  by (simp_all add: bus_inv_def keyed_def parents_ok_def index_ok_def order_ok_def all_valid_def
      rooted_def empty_bus_def child_ids_def get_def)

lemma reachable_inv: "reachable strict b \<Longrightarrow> bus_inv b"
  by (induction rule: reachable.induct) (auto simp: empty_bus_inv intro: exec_inv)

lemma reachable_valid_rooted: "reachable True b \<Longrightarrow> all_valid b \<and> rooted b"
proof (induction rule: reachable.induct)
  case reach_empty
  then show ?case by (simp add: empty_bus_inv)
next
  case (reach_exec b clk fresh op r b')
  have "bus_inv b" using reach_exec(1) by (rule reachable_inv)
  then have "(bus_write True)\<^sup>*\<^sup>* b b'"
    using reach_exec by (intro exec_writes) (auto simp: bus_inv_def)
  with \<open>bus_inv b\<close> reach_exec.IH show ?case by (blast intro: writes_valid writes_rooted)
qed

section \<open>One call moves a task at most once\<close>

lemma write_get:
  assumes "bus_write strict b b'" "get b s i = Some t"
  shows "\<exists>u. get b' s i = Some u \<and> (u = t \<or> task_move strict (parent_is_done b t) t u)"
  using assms
proof (induction rule: bus_write.induct)
  case (write_new b v b')
  then show ?case
    by (elim loadE) (auto simp: load_get [OF write_new(1)])
next
  case (write_old b s' i' v u)
  then show ?case by auto
qed

lemma recover_loop_other:
  assumes "recover_loop s clk ts b = (r, b')"
    and "s' = s \<Longrightarrow> \<forall>t \<in> set ts. td_task_id t = i \<longrightarrow> \<not> (td_status t = Running \<and> td_interrupt_requested t)"
  shows "get b' s' i = get b s' i"
  using assms
  by (induction s clk ts b arbitrary: r rule: recover_loop.induct)
     (auto simp: Let_def split: prod.splits if_splits)

lemma recover_loop_hit:
  assumes "recover_loop s clk ts b = (r, b')" "distinct (map td_task_id ts)"
    and "t \<in> set ts" "td_status t = Running" "td_interrupt_requested t"
  shows "\<exists>k. get b' s (td_task_id t) = Some (recover_interrupted_running_updates (clk k) t)"
  using assms
proof (induction s clk ts b arbitrary: r rule: recover_loop.induct)
  case (1 s clk b)
  then show ?case by simp
next
  case (2 s clk v ts b)
  let ?u = "recover_interrupted_running_updates (clk 0) v"
  let ?b1 = "b\<lparr>bus_tasks := dict_set (bus_tasks b) (s, td_task_id v) ?u\<rparr>"
  show ?case
  proof (cases "td_status v \<noteq> Running \<or> \<not> td_interrupt_requested v")
    case True
    then have "t \<noteq> v" using "2.prems" by auto
    with True 2 show ?thesis by auto
  next
    case False
    with "2.prems"(1) obtain r1 where rec: "recover_loop s (\<lambda>k. clk (Suc k)) ts ?b1 = (r1, b')"
      by (auto simp: Let_def split: prod.splits)
    show ?thesis
    proof (cases "t = v")
      case True
      have "get b' s (td_task_id t) = get ?b1 s (td_task_id t)"
        using rec by (rule recover_loop_other) (use "2.prems"(2) True in \<open>auto simp: image_iff\<close>)
      with True show ?thesis by auto
    next
      case neq: False
      then show ?thesis
        using "2.IH"(2) [OF False refl rec] "2.prems" by auto
    qed
  qed
qed

lemma recover_updates_id [simp]:
  "td_task_id (recover_interrupted_running_updates now t) = td_task_id t"
  by (simp add: recover_interrupted_running_updates_def Let_def)

lemma recover_loop_result:
  "map td_task_id (fst (recover_loop s clk ts b)) = map td_task_id
     (filter (\<lambda>t. td_status t = Running \<and> td_interrupt_requested t) ts)"
proof (induction ts arbitrary: clk b)
  case Nil
  then show ?case by simp
next
  case (Cons t ts)
  then show ?case
    by (cases "td_status t \<noteq> Running \<or> \<not> td_interrupt_requested t")
       (auto simp: Let_def split: prod.splits, metis fst_conv)
qed

lemma recover_get:
  assumes "keyed b" "recover_interrupted_running_tasks b s clk = (r, b')" "get b s' i = Some t"
  shows "if s' = s \<and> td_status t = Running \<and> td_interrupt_requested t
         then \<exists>k. get b' s' i = Some (recover_interrupted_running_updates (clk k) t)
         else get b' s' i = Some t"
proof -
  have rec: "recover_loop s clk (list_for_session b s) b = (r, b')"
    using assms(2) by (simp add: recover_interrupted_running_tasks_def)
  have id: "td_task_id t = i" using assms(1,3) by (simp add: keyed_def)
  show ?thesis
  proof (cases "s' = s \<and> td_status t = Running \<and> td_interrupt_requested t")
    case True
    then have "t \<in> set (list_for_session b s)"
      using assms(1,3) id by (simp add: list_for_session_mem)
    with recover_loop_hit [OF rec list_for_session_distinct [OF assms(1)]] True id
    show ?thesis by auto
  next
    case False
    have "get b' s' i = get b s' i"
    proof (rule recover_loop_other [OF rec], intro ballI impI)
      fix v
      assume "s' = s" "v \<in> set (list_for_session b s)" "td_task_id v = i"
      then have "v = t" using assms(1,3) by (simp add: list_for_session_mem)
      with False \<open>s' = s\<close> show "\<not> (td_status v = Running \<and> td_interrupt_requested v)" by simp
    qed
    with False assms(3) show ?thesis by (simp only: if_False)
  qed
qed

lemma exec_get:
  assumes "exec clk fresh op b = Inr (r, b')" "keyed b" "get b s i = Some t"
  shows "\<exists>u. get b' s i = Some u \<and> (u = t \<or> task_move False (parent_is_done b t) t u)"
proof (cases "\<exists>s'. op = Recover s'")
  case True
  then obtain s' where "op = Recover s'" ..
  with assms(1) have "recover_interrupted_running_tasks b s' clk = (r, b')" by simp
  note rec = recover_get [OF assms(2) this assms(3)]
  show ?thesis
  proof (cases "s = s' \<and> td_status t = Running \<and> td_interrupt_requested t")
    case True
    with rec obtain k where "get b' s i = Some (recover_interrupted_running_updates (clk k) t)"
      by auto
    with True show ?thesis by (blast intro: move_recover)
  next
    case False
    with rec have "get b' s i = Some t" by (simp only: if_False)
    then show ?thesis by blast
  qed
next
  case False
  then have "b' = b \<or> bus_write False b b'" using assms(1,2) by (intro exec_write_cases) blast+
  then show ?thesis using assms(3) write_get by blast
qed

section \<open>A sample session\<close>

text \<open>A root task and its child, and the buses a few calls lead to, for the witnesses below.\<close>

fun run :: "bus_op list \<Rightarrow> InMemoryTaskBus \<Rightarrow> InMemoryTaskBus result" where
  "run [] b = Inr b"
| "run (op # ops) b =
     (case exec sample_time ''uuid'' op b of Inl e \<Rightarrow> Inl e | Inr (r, b') \<Rightarrow> run ops b')"

definition sample_calls :: "bus_op list" where
  "sample_calls =
     [Publish (sample_task ''r'' None), Publish (sample_task ''c'' (Some ''r'')),
      Claim_next ''s'' ''code'' ''agent'', Complete ''s'' ''r'' (Some ''result''),
      Claim_next ''s'' ''code'' ''agent'']"

definition sample_bus :: InMemoryTaskBus where
  "sample_bus = projr (run sample_calls empty_bus)"

lemma run_reachable:
  "run ops b = Inr b' \<Longrightarrow> reachable strict b \<Longrightarrow> (strict \<Longrightarrow> list_all (op_ok ''uuid'') ops) \<Longrightarrow>
   reachable strict b'"
  by (induction ops arbitrary: b) (auto split: sum.splits prod.splits intro: reach_exec)

lemma sample_bus_run: "run sample_calls empty_bus = Inr sample_bus"
  by code_simp

lemma sample_bus_reachable: "reachable strict sample_bus"
proof (rule run_reachable [OF sample_bus_run reach_empty])
  show "list_all (op_ok ''uuid'') sample_calls" by code_simp
qed

text \<open>The same session before the first claim.\<close>

definition sample_open :: InMemoryTaskBus where
  "sample_open = projr (run (take 2 sample_calls) empty_bus)"

lemma sample_open_reachable: "reachable strict sample_open"
proof (rule run_reachable [OF _ reach_empty])
  show "run (take 2 sample_calls) empty_bus = Inr sample_open" by code_simp
  show "list_all (op_ok ''uuid'') (take 2 sample_calls)" by code_simp
qed

section \<open>Properties\<close>

text \<open>C1. No task runs before its parent is finished: in every bus reachable by any calls, a
  task that is running, waiting for the user or done has, when it has a parent, a stored
  parent whose status is done.\<close>

theorem started_task_has_done_parent:
  assumes "reachable strict b" "get b s i = Some t"
    and "td_status t \<in> {Running, Waiting_for_user, Done}" "td_parent_id t = Some p"
  shows "\<exists>pt. get b s p = Some pt \<and> td_status pt = Done"
proof -
  have "bus_inv b" using assms(1) by (rule reachable_inv)
  then have "parent_is_done b t" "td_session_id t = s"
    using assms by (auto simp: bus_inv_def order_ok_def keyed_def)
  with assms(4) show ?thesis by (auto simp: parent_is_done_def split: option.splits)
qed

theorem started_task_has_done_parent_witness:
  "\<exists>pt. get sample_bus ''s'' ''r'' = Some pt \<and> td_status pt = Done"
proof -
  let ?t = "claim_task ''agent'' (sample_time 0) (sample_task ''c'' (Some ''r''))"
  have "get sample_bus ''s'' ''c'' = Some ?t" by code_simp
  moreover have "td_status ?t \<in> {Running, Waiting_for_user, Done}" "td_parent_id ?t = Some ''r''"
    by (simp_all add: claim_task_def sample_task_def)
  ultimately show ?thesis
    by (rule started_task_has_done_parent [OF sample_bus_reachable])
qed

text \<open>C4. The handlers store what the class would accept: although \<open>model_copy\<close> runs no
  validator, every task of a bus reached by calls that respect \<open>op_ok\<close> passes the field
  constraints and both validators of \<open>TaskDomain\<close>, so it is read back unchanged.\<close>

theorem stored_tasks_validate:
  assumes "reachable True b" "get b s i = Some t"
  shows "TaskDomain_validate t = Inr t"
  using assms reachable_valid_rooted [of b]
  by (auto simp: all_valid_def intro: TaskDomain_validate_valid)

theorem stored_tasks_validate_witness:
  "TaskDomain_validate (claim_task ''agent'' (sample_time 0) (sample_task ''c'' (Some ''r''))) =
   Inr (claim_task ''agent'' (sample_time 0) (sample_task ''c'' (Some ''r'')))"
proof (rule stored_tasks_validate [OF sample_bus_reachable])
  show "get sample_bus ''s'' ''c'' =
      Some (claim_task ''agent'' (sample_time 0) (sample_task ''c'' (Some ''r'')))" by code_simp
qed

text \<open>C3. A call never loses a task, never changes its identity, its place in the tree or its
  claim order, and moves its status along one edge of the lifecycle at most; a done task is
  left exactly as it is.\<close>

theorem call_follows_lifecycle:
  assumes "reachable strict b" "exec clk fresh op b = Inr (r, b')" "get b s i = Some t"
  shows "\<exists>u. get b' s i = Some u \<and> same_identity t u
    \<and> (u = t \<or> status_step (td_status t) (td_status u))
    \<and> (td_status t = Done \<longrightarrow> u = t)"
proof -
  have "keyed b" using reachable_inv [OF assms(1)] by (simp add: bus_inv_def)
  with assms(2,3) obtain u where u: "get b' s i = Some u"
      "u = t \<or> task_move False (parent_is_done b t) t u"
    by (blast dest: exec_get)
  then show ?thesis
    by (metis same_identity_refl status_step_from_done task_move_identity task_move_status)
qed

theorem call_follows_lifecycle_witness:
  "\<exists>u. get (snd (projr (exec sample_time ''uuid'' (Skip ''s'' ''c'' ''no'') sample_bus))) ''s'' ''r''
       = Some u \<and> same_identity (the (get sample_bus ''s'' ''r'')) u
    \<and> (u = the (get sample_bus ''s'' ''r'')
       \<or> status_step (td_status (the (get sample_bus ''s'' ''r''))) (td_status u))
    \<and> (td_status (the (get sample_bus ''s'' ''r'')) = Done
       \<longrightarrow> u = the (get sample_bus ''s'' ''r''))"
proof (rule call_follows_lifecycle [OF sample_bus_reachable])
  show "exec sample_time ''uuid'' (Skip ''s'' ''c'' ''no'') sample_bus =
    Inr (fst (projr (exec sample_time ''uuid'' (Skip ''s'' ''c'' ''no'') sample_bus)),
         snd (projr (exec sample_time ''uuid'' (Skip ''s'' ''c'' ''no'') sample_bus)))"
    by code_simp
  show "get sample_bus ''s'' ''r'' = Some (the (get sample_bus ''s'' ''r''))" by code_simp
qed

text \<open>C5. \<open>claim_next\<close> with a capability and an agent that are not blank hands out a task
  exactly when the session has a pending one of that capability with a finished parent; it
  takes the first in the order of creation time, order index and identifier, marks it as
  running for the agent and changes no other task.\<close>

theorem claim_next_takes_first_claimable:
  assumes "reachable strict b" "\<not> blank c" "\<not> blank a"
  shows "\<exists>x b'. claim_next b s c a now = Inr (x, b')
    \<and> (case x of
         None \<Rightarrow> b' = b \<and> (\<forall>i t. get b s i = Some t \<longrightarrow> \<not> claimable b s c t)
       | Some u \<Rightarrow> (\<exists>i t. get b s i = Some t \<and> claimable b s c t \<and> u = claim_task a now t
           \<and> (\<forall>s' i'. get b' s' i' = (if s' = s \<and> i' = i then Some u else get b s' i'))
           \<and> (\<forall>i' t'. get b s i' = Some t' \<longrightarrow> claimable b s c t' \<longrightarrow> claim_key t \<le> claim_key t')))"
proof -
  have keyed: "keyed b" using reachable_inv [OF assms(1)] by (simp add: bus_inv_def)
  have "\<exists>x b'. claim_next b s c a now = Inr (x, b')"
    by (cases "sort_key claim_key (filter (claimable b s c) (dict_values (bus_tasks b)))")
       (simp_all add: claim_next_def Let_def assms(2,3))
  then obtain x b' where x: "claim_next b s c a now = Inr (x, b')" by blast
  show ?thesis
  proof (cases x)
    case None
    with x have "b' = b \<and> (\<forall>t \<in> set (dict_values (bus_tasks b)). \<not> claimable b s c t)"
      by (blast dest: claim_next_None)
    with x None show ?thesis by (auto dest: keyed_value simp del: set_map)
  next
    case (Some u)
    with x obtain t where t: "t \<in> set (dict_values (bus_tasks b))"
      "claimable b s c t" "u = claim_task a now t"
      "b' = b\<lparr>bus_tasks := dict_set (bus_tasks b) (s, td_task_id t) u\<rparr>"
      "\<And>t'. t' \<in> set (dict_values (bus_tasks b)) \<Longrightarrow> claimable b s c t' \<Longrightarrow> claim_key t \<le> claim_key t'"
      by (auto elim: claim_next_Some)
    have "get b s (td_task_id t) = Some t"
      using keyedD [OF keyed t(1)] t(2) by (simp add: claimable_def)
    with x Some t show ?thesis
      by (auto dest: keyed_value simp del: set_map intro!: exI [of _ "td_task_id t"] exI [of _ t])
  qed
qed

theorem claim_next_takes_first_claimable_witness:
  "\<exists>x b'. claim_next sample_open ''s'' ''code'' ''agent'' (sample_time 0) = Inr (x, b')
    \<and> (case x of
         None \<Rightarrow> b' = sample_open
           \<and> (\<forall>i t. get sample_open ''s'' i = Some t \<longrightarrow> \<not> claimable sample_open ''s'' ''code'' t)
       | Some u \<Rightarrow> (\<exists>i t. get sample_open ''s'' i = Some t \<and> claimable sample_open ''s'' ''code'' t
           \<and> u = claim_task ''agent'' (sample_time 0) t
           \<and> (\<forall>s' i'. get b' s' i' = (if s' = ''s'' \<and> i' = i then Some u else get sample_open s' i'))
           \<and> (\<forall>i' t'. get sample_open ''s'' i' = Some t' \<longrightarrow> claimable sample_open ''s'' ''code'' t' \<longrightarrow>
                claim_key t \<le> claim_key t')))"
proof (rule claim_next_takes_first_claimable [OF sample_open_reachable])
  show "\<not> blank ''code''" by code_simp
  show "\<not> blank ''agent''" by code_simp
qed

lemma lookup_all_stored:
  "(\<And>t. t \<in> set ts \<Longrightarrow> get b s (td_task_id t) = Some t) \<Longrightarrow>
   lookup_all b s (map td_task_id ts) = Inr ts"
  by (induction ts) auto

text \<open>The child index never dangles: on a reachable bus \<open>list_children\<close> raises no
  \<open>KeyError\<close> and returns exactly the session's tasks with that parent, in sibling
  order.\<close>

theorem list_children_exact:
  assumes "reachable strict b"
  shows "list_children b s p = Inr (sort_key sibling_key
    (filter (\<lambda>t. td_session_id t = s \<and> td_parent_id t = p) (dict_values (bus_tasks b))))"
proof -
  have inv: "keyed b" "index_ok b" using reachable_inv [OF assms] by (simp_all add: bus_inv_def)
  let ?ts = "filter (\<lambda>t. td_session_id t = s \<and> td_parent_id t = p) (dict_values (bus_tasks b))"
  have "lookup_all b s (map td_task_id ?ts) = Inr ?ts"
    by (rule lookup_all_stored) (use keyedD [OF inv(1)] in \<open>auto simp del: set_map\<close>)
  moreover have "child_ids b s p = map td_task_id ?ts"
    using inv(2) by (simp add: index_ok_def)
  ultimately show ?thesis by (simp add: list_children_def)
qed

theorem list_children_exact_witness:
  "list_children sample_bus ''s'' (Some ''r'') = Inr (sort_key sibling_key
    (filter (\<lambda>t. td_session_id t = ''s'' \<and> td_parent_id t = Some ''r'')
      (dict_values (bus_tasks sample_bus))))"
  by (rule list_children_exact [OF sample_bus_reachable])

text \<open>The published tasks are forests: the root a task names is stored in its session, is
  itself without a parent and has the root's identifier.\<close>

theorem root_is_stored:
  assumes "reachable True b" "get b s i = Some t"
  shows "\<exists>r. get b s (td_root_id t) = Some r \<and> td_parent_id r = None
    \<and> td_task_id r = td_root_id t"
proof -
  have "keyed b" using reachable_inv [OF assms(1)] by (simp add: bus_inv_def)
  then have "td_session_id t = s" using assms(2) by (simp add: keyed_def)
  moreover obtain r where "get b (td_session_id t) (td_root_id t) = Some r" "td_parent_id r = None"
    using reachable_valid_rooted [OF assms(1)] assms(2) unfolding rooted_def by blast
  ultimately show ?thesis using \<open>keyed b\<close> by (auto simp: keyed_def)
qed

theorem root_is_stored_witness:
  "\<exists>r. get sample_bus ''s'' (td_root_id (the (get sample_bus ''s'' ''c''))) = Some r
    \<and> td_parent_id r = None \<and> td_task_id r = td_root_id (the (get sample_bus ''s'' ''c''))"
proof (rule root_is_stored [OF sample_bus_reachable])
  show "get sample_bus ''s'' ''c'' = Some (the (get sample_bus ''s'' ''c''))" by code_simp
qed

text \<open>C6. Restart recovery: the tasks of the session that were running with a requested
  interrupt become failed, they are what is returned, in claim order, and every other task of
  every session is untouched.\<close>

theorem recovery_fails_exactly_interrupted:
  assumes "reachable strict b"
    and "recover_interrupted_running_tasks b s clk = (r, b')"
  shows "map td_task_id r = map td_task_id
      (filter (\<lambda>t. td_status t = Running \<and> td_interrupt_requested t) (list_for_session b s))
    \<and> (\<forall>s' i t. get b s' i = Some t \<longrightarrow>
      (if s' = s \<and> td_status t = Running \<and> td_interrupt_requested t
       then \<exists>u. get b' s' i = Some u \<and> td_status u = Failed \<and> same_identity t u
       else get b' s' i = Some t))"
proof (intro conjI allI impI)
  have keyed: "keyed b" using reachable_inv [OF assms(1)] by (simp add: bus_inv_def)
  show "map td_task_id r = map td_task_id
      (filter (\<lambda>t. td_status t = Running \<and> td_interrupt_requested t) (list_for_session b s))"
    using assms(2) recover_loop_result [of s clk "list_for_session b s" b]
    by (simp add: recover_interrupted_running_tasks_def)
  fix s' i t assume "get b s' i = Some t"
  note rec = recover_get [OF keyed assms(2) this]
  have "td_status (recover_interrupted_running_updates n t) = Failed
      \<and> same_identity t (recover_interrupted_running_updates n t)" for n
    by (simp add: recover_interrupted_running_updates_def same_identity_def Let_def)
  with rec show "if s' = s \<and> td_status t = Running \<and> td_interrupt_requested t
       then \<exists>u. get b' s' i = Some u \<and> td_status u = Failed \<and> same_identity t u
       else get b' s' i = Some t"
    by (metis (no_types, lifting))
qed

text \<open>The sample session with an interrupt request for the running child.\<close>

definition sample_stopping :: InMemoryTaskBus where
  "sample_stopping = projr (run (sample_calls
     @ [Request_interrupt ''s'' ''c'' ''stop'' By_user None]) empty_bus)"

lemma sample_stopping_reachable: "reachable strict sample_stopping"
proof (rule run_reachable [OF _ reach_empty])
  show "run (sample_calls @ [Request_interrupt ''s'' ''c'' ''stop'' By_user None]) empty_bus
    = Inr sample_stopping" by code_simp
  show "list_all (op_ok ''uuid'') (sample_calls
    @ [Request_interrupt ''s'' ''c'' ''stop'' By_user None])" by code_simp
qed

theorem recovery_fails_exactly_interrupted_witness:
  "map td_task_id (fst (recover_interrupted_running_tasks sample_stopping ''s'' sample_time)) = [''c'']
   \<and> (\<exists>u. get (snd (recover_interrupted_running_tasks sample_stopping ''s'' sample_time)) ''s'' ''c''
        = Some u \<and> td_status u = Failed
        \<and> same_identity (the (get sample_stopping ''s'' ''c'')) u)"
proof -
  let ?rec = "recover_interrupted_running_tasks sample_stopping ''s'' sample_time"
  let ?c = "the (get sample_stopping ''s'' ''c'')"
  have eq: "?rec = (fst ?rec, snd ?rec)" by simp
  have c: "get sample_stopping ''s'' ''c'' = Some ?c" by code_simp
  have run: "td_status ?c = Running \<and> td_interrupt_requested ?c" by code_simp
  have ids: "map td_task_id (filter (\<lambda>t. td_status t = Running \<and> td_interrupt_requested t)
      (list_for_session sample_stopping ''s'')) = [''c'']" by code_simp
  show ?thesis
    using recovery_fails_exactly_interrupted [OF sample_stopping_reachable eq] c run ids
    by simp
qed

text \<open>Waiting for an ASK and resuming: a running task can always be parked on an ASK, only
  the same ASK resumes it, a confirmation does not, and resuming sends it back to pending with
  no wait linkage and no claim.\<close>

theorem ask_wait_resume:
  assumes "get b s i = Some t" "td_status t = Running" "\<not> blank ask"
  shows "\<exists>u b'. wait_for_user b s i ask now = Inr (u, b')
    \<and> td_waiting_for_ask_id u = Some (strip ask)
    \<and> (\<exists>v b''. resume_after_user b' s i ask = Inr (v, b'') \<and> get b'' s i = Some v
         \<and> td_status v = Pending \<and> td_waiting_for_ask_id v = None
         \<and> td_waiting_for_user_since v = None \<and> td_claimed_by v = None)
    \<and> (\<forall>other. strip other \<noteq> strip ask \<longrightarrow> (\<exists>e. resume_after_user b' s i other = Inl e))
    \<and> (\<forall>c. \<exists>e. resume_after_confirmation b' s i c = Inl e)"
  using assms
  by (auto simp: wait_for_user_def update_task_def require_task_def wait_task_def
      wait_for_user_updates_def resume_after_user_def resume_user_task_def
      resume_after_user_updates_def resume_after_confirmation_def resume_confirmation_task_def)

theorem ask_wait_resume_witness:
  "\<exists>u b'. wait_for_user sample_bus ''s'' ''c'' '' q1 '' (sample_time 5) = Inr (u, b')
    \<and> td_waiting_for_ask_id u = Some (strip '' q1 '')
    \<and> (\<exists>v b''. resume_after_user b' ''s'' ''c'' '' q1 '' = Inr (v, b'') \<and> get b'' ''s'' ''c'' = Some v
         \<and> td_status v = Pending \<and> td_waiting_for_ask_id v = None
         \<and> td_waiting_for_user_since v = None \<and> td_claimed_by v = None)
    \<and> (\<forall>other. strip other \<noteq> strip '' q1 '' \<longrightarrow> (\<exists>e. resume_after_user b' ''s'' ''c'' other = Inl e))
    \<and> (\<forall>c. \<exists>e. resume_after_confirmation b' ''s'' ''c'' c = Inl e)"
proof (rule ask_wait_resume)
  show "get sample_bus ''s'' ''c'' = Some (the (get sample_bus ''s'' ''c''))" by code_simp
  show "td_status (the (get sample_bus ''s'' ''c'')) = Running" by code_simp
  show "\<not> blank '' q1 ''" by code_simp
qed

end
