(* ===== verification/Bus_Protocol.thy ===== *)
theory Bus_Protocol
  imports Task_Lifecycle
begin

text \<open>
  The contract of the \<open>TaskBus\<close> protocol (\<^verbatim>\<open>task/bus.py\<close>) for a client that
  cannot see which implementation it talks to: every call answers as the in-memory bus does.
  The in-memory bus provides it here, the SQLite bus in \<^verbatim>\<open>Sqlite_Bus\<close>; what a client may rely
  on is proved once, inside the locale.
\<close>

type_synonym 'st bus_step =
  "(nat \<Rightarrow> datetime) \<Rightarrow> string \<Rightarrow> bus_op \<Rightarrow> 'st \<Rightarrow> (TaskDomain list \<times> 'st) result"

type_synonym call = "(nat \<Rightarrow> datetime) \<times> string \<times> bus_op"

text \<open>The answers to a sequence of calls; a call that raises leaves the state as it was.\<close>

fun answers :: "'st bus_step \<Rightarrow> call list \<Rightarrow> 'st \<Rightarrow> TaskDomain list result list \<times> 'st" where
  "answers step [] st = ([], st)"
| "answers step ((clk, fresh, op) # calls) st =
     (case step clk fresh op st of
        Inl e \<Rightarrow> map_prod (\<lambda>as. Inl e # as) id (answers step calls st)
      | Inr (r, st') \<Rightarrow> map_prod (\<lambda>as. Inr r # as) id (answers step calls st'))"

locale task_bus =
  fixes step :: "'st bus_step"
    and lookup :: "'st \<Rightarrow> string \<Rightarrow> string \<Rightarrow> TaskDomain option result"
    and allowed :: "string \<Rightarrow> bus_op \<Rightarrow> bool"
    and rel :: "'st \<Rightarrow> InMemoryTaskBus \<Rightarrow> bool"
  assumes step_error: "rel st b \<Longrightarrow> allowed fresh op \<Longrightarrow> exec clk fresh op b = Inl e \<Longrightarrow>
      step clk fresh op st = Inl e"
    and step_ok: "rel st b \<Longrightarrow> allowed fresh op \<Longrightarrow> exec clk fresh op b = Inr (r, b') \<Longrightarrow>
      \<exists>st'. step clk fresh op st = Inr (r, st') \<and> rel st' b'"
    and lookup_get: "rel st b \<Longrightarrow> lookup st s i = Inr (get b s i)"
    and rel_inv: "rel st b \<Longrightarrow> bus_inv b"
begin

lemma step_inv:
  assumes "rel st b" "allowed fresh op" "step clk fresh op st = Inr (r, st')"
  obtains b' where "exec clk fresh op b = Inr (r, b')" "rel st' b'"
  using assms step_error [OF assms(1,2), of clk] step_ok [OF assms(1,2), of clk]
  by (cases "exec clk fresh op b") fastforce+

lemma answers_rel:
  "rel st b \<Longrightarrow> list_all (\<lambda>(clk, fresh, op). allowed fresh op) calls \<Longrightarrow>
   fst (answers step calls st) = fst (answers exec calls b)
   \<and> rel (snd (answers step calls st)) (snd (answers exec calls b))"
proof (induction calls arbitrary: st b)
  case Nil
  then show ?case by simp
next
  case (Cons c calls)
  obtain clk fresh op where c: "c = (clk, fresh, op)" by (cases c) auto
  with Cons.prems have ok: "allowed fresh op" "list_all (\<lambda>(clk, fresh, op). allowed fresh op) calls"
    by auto
  show ?case
  proof (cases "exec clk fresh op b")
    case (Inl e)
    with step_error [OF Cons.prems(1) ok(1)] Cons.IH [OF Cons.prems(1) ok(2)] c
    show ?thesis by simp
  next
    case (Inr x)
    obtain r b' where x: "x = (r, b')" by (cases x)
    with Inr step_ok [OF Cons.prems(1) ok(1)] obtain st' where
      "step clk fresh op st = Inr (r, st')" "rel st' b'" by blast
    with Cons.IH [OF _ ok(2)] Inr x c show ?thesis by simp
  qed
qed

lemma started_parent_done:
  assumes "rel st b" "lookup st s i = Inr (Some t)" "active (td_status t)"
    and "td_parent_id t = Some p"
  shows "\<exists>pt. lookup st s p = Inr (Some pt) \<and> td_status pt = Done"
proof -
  have inv: "bus_inv b" and t: "get b s i = Some t"
    using assms(1,2) by (auto simp: lookup_get rel_inv)
  then have "parent_is_done b t" "td_session_id t = s"
    using assms(3) by (auto simp: bus_inv_def order_ok_def keyed_def)
  with assms(1,4) show ?thesis
    by (auto simp: parent_is_done_def lookup_get split: option.splits)
qed

lemma done_task_is_final:
  assumes "rel st b" "allowed fresh op" "step clk fresh op st = Inr (r, st')"
    and "lookup st s i = Inr (Some t)" "td_status t = Done"
  shows "lookup st' s i = Inr (Some t)"
proof -
  obtain b' where b': "exec clk fresh op b = Inr (r, b')" "rel st' b'"
    using assms(1-3) by (rule step_inv)
  have "keyed b" and t: "get b s i = Some t"
    using assms(1,4) rel_inv by (auto simp: lookup_get bus_inv_def)
  then obtain u where "get b' s i = Some u" "u = t \<or> task_move False (parent_is_done b t) t u"
    using b'(1) by (blast dest: exec_get)
  then show ?thesis
    using b'(2) assms(5) by (auto simp: lookup_get dest: task_move_status)
qed

end

text \<open>The in-memory bus refines itself, with no condition on the calls.\<close>

interpretation mem_bus: task_bus exec "\<lambda>b s i. Inr (get b s i)" "\<lambda>_ _. True"
  "\<lambda>st b. st = b \<and> bus_inv b"
  by unfold_locales (auto intro: exec_inv)

end
