(* ===== verification/Sqlite_Bus.thy ===== *)
theory Sqlite_Bus
  imports Bus_Protocol
begin

text \<open>
  \<open>SqliteTaskBus\<close> of \<^verbatim>\<open>task/sqlite_bus.py\<close>: the same operations over the table
  \<open>tasks\<close>, whose rows carry the task as JSON text beside the columns the queries select and
  sort by. The table is the list of its rows in \<open>id\<close> order; a \<open>SELECT\<close> is a filter and a
  stable sort by the \<open>ORDER BY\<close> columns, an \<open>UPDATE\<close> a map. The Pydantic calls
  \<open>model_dump_json\<close>, \<open>model_validate_json\<close> and \<open>model_validate\<close> and the decoder
  \<open>json.loads\<close> are the fields of a parameter, a \<open>task_codec\<close>; the text itself is only
  handed from one of them to another, so its type is a parameter too.
\<close>

section \<open>Rows and decoding\<close>

record 'j task_row =
  row_session_id :: string
  row_task_id :: string
  row_parent_id :: "string option"
  row_root_id :: string
  row_status :: string
  row_order_index :: int
  row_created_at :: string
  row_payload :: 'j

record 'j task_codec =
  model_dump_json :: "TaskDomain \<Rightarrow> 'j"
  model_validate_json :: "'j \<Rightarrow> TaskDomain result"
  model_validate :: "(string \<times> json) list \<Rightarrow> TaskDomain result"
  json_loads :: "'j \<Rightarrow> json option"

definition legacy_null_task_payload_fields :: "string list" where
  "legacy_null_task_payload_fields = [''waiting_for_confirmation_id'']"

text \<open>\<open>_drop_legacy_null_task_fields\<close>; \<open>None\<close> when it returns its argument itself, which
  the caller tests with \<open>is\<close>.\<close>

definition drop_legacy_null_task_fields ::
  "(string \<times> json) list \<Rightarrow> (string \<times> json) list option" where
  "drop_legacy_null_task_fields payload =
     (let stale_fields = filter (\<lambda>f. map_of payload f = Some JNull) legacy_null_task_payload_fields
      in if stale_fields = [] then None
         else Some (filter (\<lambda>(key, value). key \<notin> set stale_fields) payload))"

definition task_from_legacy_payload :: "'j task_codec \<Rightarrow> 'j \<Rightarrow> TaskDomain option result" where
  "task_from_legacy_payload P payload =
     (case json_loads P payload of
        Some (JObj decoded) \<Rightarrow>
          (case drop_legacy_null_task_fields decoded of
             None \<Rightarrow> Inr None
           | Some normalized \<Rightarrow> map_ok Some (model_validate P normalized))
      | _ \<Rightarrow> Inr None)"

definition task_from_row :: "'j task_codec \<Rightarrow> 'j task_row \<Rightarrow> TaskDomain result" where
  "task_from_row P row =
     (case model_validate_json P (row_payload row) of
        Inr t \<Rightarrow> Inr t
      | Inl exc \<Rightarrow>
          (case task_from_legacy_payload P (row_payload row) of
             Inl e \<Rightarrow> Inl e
           | Inr None \<Rightarrow> Inl exc
           | Inr (Some t) \<Rightarrow> Inr t))"

fun tasks_from_rows :: "'j task_codec \<Rightarrow> 'j task_row list \<Rightarrow> TaskDomain list result" where
  "tasks_from_rows P [] = Inr []"
| "tasks_from_rows P (row # rows) =
     (case task_from_row P row of
        Inl e \<Rightarrow> Inl e
      | Inr t \<Rightarrow> map_ok (\<lambda>ts. t # ts) (tasks_from_rows P rows))"

section \<open>Reads\<close>

definition sql_get :: "'j task_codec \<Rightarrow> 'j task_row list \<Rightarrow> string \<Rightarrow> string \<Rightarrow> TaskDomain option result" where
  "sql_get P db session_id task_id =
     (case find (\<lambda>r. row_session_id r = session_id \<and> row_task_id r = task_id) db of
        None \<Rightarrow> Inr None
      | Some row \<Rightarrow> map_ok Some (task_from_row P row))"

definition sql_list_for_session ::
  "'j task_codec \<Rightarrow> 'j task_row list \<Rightarrow> string \<Rightarrow> TaskDomain list result" where
  "sql_list_for_session P db session_id =
     tasks_from_rows P
       (sort_key (\<lambda>r. (row_created_at r, row_order_index r, row_task_id r))
         (filter (\<lambda>r. row_session_id r = session_id) db))"

text \<open>The two queries of \<open>list_children\<close>: \<open>parent_id IS NULL\<close> and \<open>parent_id = ?\<close>,
  which a NULL never satisfies.\<close>

definition sql_list_children ::
  "'j task_codec \<Rightarrow> 'j task_row list \<Rightarrow> string \<Rightarrow> string option \<Rightarrow> TaskDomain list result" where
  "sql_list_children P db session_id parent_id =
     tasks_from_rows P
       (sort_key (\<lambda>r. (row_order_index r, row_created_at r, row_task_id r))
         (case parent_id of
            None \<Rightarrow> filter (\<lambda>r. row_session_id r = session_id \<and> row_parent_id r = None) db
          | Some p \<Rightarrow> filter (\<lambda>r. row_session_id r = session_id \<and> row_parent_id r = Some p) db))"

section \<open>Writes\<close>

text \<open>The row \<open>publish\<close> inserts.\<close>

definition row_of :: "'j task_codec \<Rightarrow> TaskDomain \<Rightarrow> 'j task_row" where
  "row_of P task = \<lparr>row_session_id = td_session_id task, row_task_id = td_task_id task,
     row_parent_id = td_parent_id task, row_root_id = td_root_id task,
     row_status = task_status_str (td_status task), row_order_index = td_order_index task,
     row_created_at = isoformat (td_created_at task), row_payload = model_dump_json P task\<rparr>"

text \<open>
  Binding an integer of more than 63 bits raises \<open>OverflowError\<close>. The \<open>UNIQUE\<close>
  constraint cannot fail after the check that the key is new.
\<close>

definition sql_insert :: "'j task_codec \<Rightarrow> 'j task_row list \<Rightarrow> TaskDomain \<Rightarrow> (TaskDomain \<times> 'j task_row list) result" where
  "sql_insert P db task =
     (if 9223372036854775808 \<le> td_order_index task
      then Inl (OverflowError (Msg ''Python int too large to convert to SQLite INTEGER'' []))
      else Inr (task, db @ [row_of P task]))"

definition sql_publish ::
  "'j task_codec \<Rightarrow> 'j task_row list \<Rightarrow> TaskDomain \<Rightarrow> (TaskDomain \<times> 'j task_row list) result" where
  "sql_publish P db task =
     (if td_status task \<noteq> Pending
      then Inl (TaskStoreError (Msg ''published tasks must enter TaskBus as pending'' []))
      else case sql_get P db (td_session_id task) (td_task_id task) of
             Inl e \<Rightarrow> Inl e
           | Inr (Some _) \<Rightarrow> Inl (TaskStoreError (Msg ''task {} already exists'' [td_task_id task]))
           | Inr None \<Rightarrow>
               (case td_parent_id task of
                  None \<Rightarrow> sql_insert P db task
                | Some p \<Rightarrow>
                    (case sql_get P db (td_session_id task) p of
                       Inl e \<Rightarrow> Inl e
                     | Inr None \<Rightarrow> Inl (TaskStoreError (Msg ''parent task {} not found'' [p]))
                     | Inr (Some parent) \<Rightarrow>
                         if td_root_id parent \<noteq> td_root_id task
                         then Inl (TaskStoreError
                                (Msg ''child task root_id must match parent root_id'' []))
                         else sql_insert P db task)))"

definition save_task :: "'j task_codec \<Rightarrow> 'j task_row list \<Rightarrow> TaskDomain \<Rightarrow> 'j task_row list" where
  "save_task P db task =
     map (\<lambda>r. if row_session_id r = td_session_id task \<and> row_task_id r = td_task_id task
              then r\<lparr>row_status := task_status_str (td_status task),
                     row_payload := model_dump_json P task\<rparr>
              else r) db"

definition sql_require_task :: "'j task_codec \<Rightarrow> 'j task_row list \<Rightarrow> string \<Rightarrow> string \<Rightarrow> TaskDomain result" where
  "sql_require_task P db session_id task_id =
     (case sql_get P db session_id task_id of
        Inl e \<Rightarrow> Inl e
      | Inr None \<Rightarrow> Inl (TaskStoreError (Msg ''task {} not found'' [task_id]))
      | Inr (Some t) \<Rightarrow> Inr t)"

definition sql_update_task ::
  "'j task_codec \<Rightarrow> 'j task_row list \<Rightarrow> string \<Rightarrow> string \<Rightarrow> (TaskDomain \<Rightarrow> TaskDomain result)
     \<Rightarrow> (TaskDomain \<times> 'j task_row list) result" where
  "sql_update_task P db session_id task_id f =
     (case sql_require_task P db session_id task_id of
        Inl e \<Rightarrow> Inl e
      | Inr task \<Rightarrow>
          (case f task of
             Inl e \<Rightarrow> Inl e
           | Inr updated \<Rightarrow> Inr (updated, save_task P db updated)))"

text \<open>\<open>_parent_is_done\<close> over the dictionary comprehension \<open>task_by_id\<close>, in which a later
  entry replaces an earlier one.\<close>

definition sql_parent_is_done :: "(string \<Rightarrow> TaskDomain option) \<Rightarrow> TaskDomain \<Rightarrow> bool" where
  "sql_parent_is_done by_id task =
     (case td_parent_id task of
        None \<Rightarrow> True
      | Some p \<Rightarrow> (case by_id p of None \<Rightarrow> False | Some parent \<Rightarrow> td_status parent = Done))"

text \<open>The loop over the pending rows: the first one of the capability with a finished parent.\<close>

fun claim_scan ::
  "'j task_codec \<Rightarrow> string \<Rightarrow> (string \<Rightarrow> TaskDomain option) \<Rightarrow> 'j task_row list \<Rightarrow> TaskDomain option result"
where
  "claim_scan P capability by_id [] = Inr None"
| "claim_scan P capability by_id (row # rows) =
     (case task_from_row P row of
        Inl e \<Rightarrow> Inl e
      | Inr task \<Rightarrow>
          if td_required_capability task \<noteq> capability then claim_scan P capability by_id rows
          else if \<not> sql_parent_is_done by_id task then claim_scan P capability by_id rows
          else Inr (Some task))"

text \<open>The \<open>LEFT JOIN\<close> query of \<open>claim_next\<close>.\<close>

definition pending_rows :: "'j task_row list \<Rightarrow> string \<Rightarrow> 'j task_row list" where
  "pending_rows db session_id =
     sort_key (\<lambda>r. (row_created_at r, row_order_index r, row_task_id r))
       (filter (\<lambda>child. row_session_id child = session_id \<and> row_status child = ''pending''
          \<and> (row_parent_id child = None
             \<or> list_ex (\<lambda>parent. row_session_id parent = row_session_id child
                  \<and> Some (row_task_id parent) = row_parent_id child) db)) db)"

definition sql_claim_next ::
  "'j task_codec \<Rightarrow> 'j task_row list \<Rightarrow> string \<Rightarrow> string \<Rightarrow> string \<Rightarrow> datetime
     \<Rightarrow> (TaskDomain option \<times> 'j task_row list) result" where
  "sql_claim_next P db session_id capability agent_id now =
     (if blank capability
      then Inl (TaskStoreError (Msg ''claim capability must not be empty'' []))
      else if blank agent_id
      then Inl (TaskStoreError (Msg ''claim agent_id must not be empty'' []))
      else case sql_list_for_session P db session_id of
             Inl e \<Rightarrow> Inl e
           | Inr session_tasks \<Rightarrow>
               (case claim_scan P capability (task_by_id session_tasks)
                       (pending_rows db session_id) of
                  Inl e \<Rightarrow> Inl e
                | Inr None \<Rightarrow> Inr (None, db)
                | Inr (Some task) \<Rightarrow>
                    let updated = claim_task agent_id now task
                    in Inr (Some updated, save_task P db updated)))"

definition sql_complete ::
  "'j task_codec \<Rightarrow> 'j task_row list \<Rightarrow> string \<Rightarrow> string \<Rightarrow> string option \<Rightarrow> datetime
     \<Rightarrow> (TaskDomain \<times> 'j task_row list) result" where
  "sql_complete P db session_id task_id result_ref now =
     sql_update_task P db session_id task_id (transition_running_task Done result_ref None now)"

definition sql_fail ::
  "'j task_codec \<Rightarrow> 'j task_row list \<Rightarrow> string \<Rightarrow> string \<Rightarrow> string \<Rightarrow> datetime
     \<Rightarrow> (TaskDomain \<times> 'j task_row list) result" where
  "sql_fail P db session_id task_id error_ref now =
     (if blank error_ref then Inl (TaskStoreError (Msg ''failed task requires error_ref'' []))
      else sql_update_task P db session_id task_id (fail_task error_ref now))"

definition sql_wait_for_user ::
  "'j task_codec \<Rightarrow> 'j task_row list \<Rightarrow> string \<Rightarrow> string \<Rightarrow> string \<Rightarrow> datetime
     \<Rightarrow> (TaskDomain \<times> 'j task_row list) result" where
  "sql_wait_for_user P db session_id task_id ask_id now =
     (if strip ask_id = [] then Inl (TaskStoreError (Msg ''waiting task requires ask_id'' []))
      else sql_update_task P db session_id task_id
             (wait_task (wait_for_user_updates (strip ask_id) now)))"

definition sql_wait_for_confirmation ::
  "'j task_codec \<Rightarrow> 'j task_row list \<Rightarrow> string \<Rightarrow> string \<Rightarrow> string \<Rightarrow> datetime
     \<Rightarrow> (TaskDomain \<times> 'j task_row list) result" where
  "sql_wait_for_confirmation P db session_id task_id confirmation_id now =
     (if strip confirmation_id = []
      then Inl (TaskStoreError (Msg ''waiting task requires confirmation_id'' []))
      else sql_update_task P db session_id task_id
             (wait_task (wait_for_user_confirmation_updates (strip confirmation_id) now)))"

definition sql_resume_after_user ::
  "'j task_codec \<Rightarrow> 'j task_row list \<Rightarrow> string \<Rightarrow> string \<Rightarrow> string \<Rightarrow> (TaskDomain \<times> 'j task_row list) result" where
  "sql_resume_after_user P db session_id task_id ask_id =
     (if strip ask_id = [] then Inl (TaskStoreError (Msg ''resume requires ask_id'' []))
      else sql_update_task P db session_id task_id (resume_user_task (strip ask_id)))"

definition sql_resume_after_confirmation ::
  "'j task_codec \<Rightarrow> 'j task_row list \<Rightarrow> string \<Rightarrow> string \<Rightarrow> string \<Rightarrow> (TaskDomain \<times> 'j task_row list) result" where
  "sql_resume_after_confirmation P db session_id task_id confirmation_id =
     (if strip confirmation_id = []
      then Inl (TaskStoreError (Msg ''resume requires confirmation_id'' []))
      else sql_update_task P db session_id task_id
             (resume_confirmation_task (strip confirmation_id)))"

definition sql_skip ::
  "'j task_codec \<Rightarrow> 'j task_row list \<Rightarrow> string \<Rightarrow> string \<Rightarrow> string \<Rightarrow> datetime
     \<Rightarrow> (TaskDomain \<times> 'j task_row list) result" where
  "sql_skip P db session_id task_id reason now =
     (if blank reason then Inl (TaskStoreError (Msg ''skipped task requires reason'' []))
      else sql_update_task P db session_id task_id (skip_task reason now))"

definition sql_retry ::
  "'j task_codec \<Rightarrow> 'j task_row list \<Rightarrow> string \<Rightarrow> string \<Rightarrow> string option
     \<Rightarrow> (TaskDomain \<times> 'j task_row list) result" where
  "sql_retry P db session_id task_id instruction =
     sql_update_task P db session_id task_id (retry_task instruction)"

definition sql_request_interrupt ::
  "'j task_codec \<Rightarrow> 'j task_row list \<Rightarrow> string \<Rightarrow> string \<Rightarrow> string \<Rightarrow> TaskInterruptRequestedBy
     \<Rightarrow> string option \<Rightarrow> datetime \<Rightarrow> string \<Rightarrow> (TaskDomain \<times> 'j task_row list) result" where
  "sql_request_interrupt P db session_id task_id reason requested_by request_id now fresh =
     (if blank reason then Inl (TaskStoreError (Msg ''interrupt request requires reason'' []))
      else sql_update_task P db session_id task_id
             (interrupt_task reason requested_by request_id now fresh))"

fun sql_recover_loop ::
  "'j task_codec \<Rightarrow> (nat \<Rightarrow> datetime) \<Rightarrow> TaskDomain list \<Rightarrow> 'j task_row list
     \<Rightarrow> TaskDomain list \<times> 'j task_row list" where
  "sql_recover_loop P clock [] db = ([], db)"
| "sql_recover_loop P clock (task # tasks) db =
     (if td_status task \<noteq> Running \<or> \<not> td_interrupt_requested task
      then sql_recover_loop P clock tasks db
      else let updated = recover_interrupted_running_updates (clock 0) task;
               (recovered, db') = sql_recover_loop P (\<lambda>k. clock (Suc k)) tasks
                 (save_task P db updated)
           in (updated # recovered, db'))"

definition sql_recover_interrupted_running_tasks ::
  "'j task_codec \<Rightarrow> 'j task_row list \<Rightarrow> string \<Rightarrow> (nat \<Rightarrow> datetime)
     \<Rightarrow> (TaskDomain list \<times> 'j task_row list) result" where
  "sql_recover_interrupted_running_tasks P db session_id clock =
     map_ok (\<lambda>ts. sql_recover_loop P clock ts db) (sql_list_for_session P db session_id)"

fun sql_exec :: "'j task_codec \<Rightarrow> ('j task_row list) bus_step" where
  "sql_exec P clk fresh (Publish t) db = map_ok one (sql_publish P db t)"
| "sql_exec P clk fresh (Claim_next s c a) db =
     map_ok at_most_one (sql_claim_next P db s c a (clk 0))"
| "sql_exec P clk fresh (Complete s i r) db = map_ok one (sql_complete P db s i r (clk 0))"
| "sql_exec P clk fresh (Fail s i e) db = map_ok one (sql_fail P db s i e (clk 0))"
| "sql_exec P clk fresh (Wait_for_user s i a) db =
     map_ok one (sql_wait_for_user P db s i a (clk 0))"
| "sql_exec P clk fresh (Wait_for_confirmation s i c) db =
     map_ok one (sql_wait_for_confirmation P db s i c (clk 0))"
| "sql_exec P clk fresh (Resume_after_user s i a) db =
     map_ok one (sql_resume_after_user P db s i a)"
| "sql_exec P clk fresh (Resume_after_confirmation s i c) db =
     map_ok one (sql_resume_after_confirmation P db s i c)"
| "sql_exec P clk fresh (Skip s i r) db = map_ok one (sql_skip P db s i r (clk 0))"
| "sql_exec P clk fresh (Retry s i r) db = map_ok one (sql_retry P db s i r)"
| "sql_exec P clk fresh (Request_interrupt s i r by rid) db =
     map_ok one (sql_request_interrupt P db s i r by rid (clk 0) fresh)"
| "sql_exec P clk fresh (Recover s) db = sql_recover_interrupted_running_tasks P db s clk"

section \<open>The table as an image of the in-memory bus\<close>

text \<open>What the code relies on of Pydantic: JSON text made from an instance is read back as it, as long as the free
  metadata of its dispatch constraints is plain JSON.\<close>

definition metadata_plain :: "TaskDomain \<Rightarrow> bool" where
  "metadata_plain t \<longleftrightarrow>
     (case td_dispatch_constraints t of None \<Rightarrow> True | Some c \<Rightarrow> json_plain (JObj (dc_metadata c)))"

definition codec_ok :: "'j task_codec \<Rightarrow> bool" where
  "codec_ok P \<longleftrightarrow> (\<forall>t. TaskDomain_valid t \<and> metadata_plain t \<longrightarrow>
     model_validate_json P (model_dump_json P t) = Inr t)"

definition storable :: "TaskDomain \<Rightarrow> bool" where
  "storable t \<longleftrightarrow> TaskDomain_valid t \<and> metadata_plain t \<and> datetime_ok (td_created_at t)"

lemma metadata_identity: "same_identity t u \<Longrightarrow> metadata_plain t \<Longrightarrow> metadata_plain u"
  by (simp add: same_identity_def metadata_plain_def)

definition stored :: "InMemoryTaskBus \<Rightarrow> TaskDomain list" where
  "stored b = dict_values (bus_tasks b)"

lemma stored_key: "keyed b \<Longrightarrow> t \<in> set (stored b) \<Longrightarrow> get b (td_session_id t) (td_task_id t) = Some t"
  unfolding stored_def by (rule keyedD)

lemma stored_get: "get b s i = Some t \<Longrightarrow> t \<in> set (stored b)"
  unfolding stored_def by (rule keyed_value)

definition sim :: "'j task_codec \<Rightarrow> 'j task_row list \<Rightarrow> InMemoryTaskBus \<Rightarrow> bool" where
  "sim P db b \<longleftrightarrow> codec_ok P \<and> db = map (row_of P) (stored b) \<and> bus_inv b
     \<and> (\<forall>t \<in> set (stored b). storable t)"

lemma row_of_simps [simp]:
  "row_session_id (row_of P t) = td_session_id t" "row_task_id (row_of P t) = td_task_id t"
  "row_parent_id (row_of P t) = td_parent_id t" "row_root_id (row_of P t) = td_root_id t"
  "row_status (row_of P t) = task_status_str (td_status t)"
  "row_order_index (row_of P t) = td_order_index t"
  "row_created_at (row_of P t) = isoformat (td_created_at t)"
  "row_payload (row_of P t) = model_dump_json P t"
  by (simp_all add: row_of_def)

lemma task_from_row_of: "codec_ok P \<Longrightarrow> storable t \<Longrightarrow> task_from_row P (row_of P t) = Inr t"
  by (simp add: task_from_row_def codec_ok_def storable_def)

lemma tasks_from_rows_of:
  "codec_ok P \<Longrightarrow> \<forall>t \<in> set ts. storable t \<Longrightarrow> tasks_from_rows P (map (row_of P) ts) = Inr ts"
  by (induction ts) (auto simp: task_from_row_of)

text \<open>The text columns order the rows as the Python keys order the tasks.\<close>

lemma row_claim_order:
  "\<forall>t \<in> set ts. storable t \<Longrightarrow>
   sort_key (\<lambda>r. (row_created_at r, row_order_index r, row_task_id r)) (map (row_of P) ts)
     = map (row_of P) (sort_key claim_key ts)"
  unfolding sort_key_map
  by (rule arg_cong [where f = "map (row_of P)"], rule sort_key_cong_le)
     (auto simp: claim_key_def less_eq_prod_def isoformat_le isoformat_inject isoformat_less
       storable_def)

lemma row_sibling_order:
  "\<forall>t \<in> set ts. storable t \<Longrightarrow>
   sort_key (\<lambda>r. (row_order_index r, row_created_at r, row_task_id r)) (map (row_of P) ts)
     = map (row_of P) (sort_key sibling_key ts)"
  unfolding sort_key_map
  by (rule arg_cong [where f = "map (row_of P)"], rule sort_key_cong_le)
     (auto simp: sibling_key_def less_eq_prod_def isoformat_le isoformat_inject isoformat_less
       storable_def)

lemma filter_row_of: "filter Q (map (row_of P) ts) = map (row_of P) (filter (\<lambda>t. Q (row_of P t)) ts)"
  by (simp add: filter_map comp_def)

lemma keyed_form:
  assumes "keyed b"
  shows "bus_tasks b = map (\<lambda>t. ((td_session_id t, td_task_id t), t)) (stored b)"
proof -
  have "((td_session_id (snd e), td_task_id (snd e)), snd e) = e" if "e \<in> set (bus_tasks b)" for e
  proof -
    obtain s i t where e: "e = ((s, i), t)" by (metis surj_pair)
    with that assms have "get b s i = Some t" by (simp add: get_def keyed_def)
    with assms e show ?thesis by (simp add: keyed_def)
  qed
  then show ?thesis by (simp add: stored_def map_idI comp_def)
qed

lemma map_of_find: "map_of (map (\<lambda>t. (k t, t)) ts) x = find (\<lambda>t. k t = x) ts"
  by (induction ts) auto

lemma get_find:
  "keyed b \<Longrightarrow> get b s i = find (\<lambda>t. td_session_id t = s \<and> td_task_id t = i) (stored b)"
  unfolding get_def by (subst keyed_form, assumption) (simp add: map_of_find)

section \<open>Reads agree\<close>

lemma sim_get: "sim P db b \<Longrightarrow> sql_get P db s i = Inr (get b s i)"
proof -
  assume sim: "sim P db b"
  then have keyed: "keyed b" by (simp add: sim_def bus_inv_def)
  have "sql_get P db s i = (case get b s i of None \<Rightarrow> Inr None
      | Some t \<Rightarrow> map_ok Some (task_from_row P (row_of P t)))"
    using sim by (simp add: sql_get_def sim_def find_map get_find [OF keyed] split: option.splits)
  moreover have "task_from_row P (row_of P t) = Inr t" if "get b s i = Some t" for t
    using that sim by (auto simp: sim_def intro!: task_from_row_of dest: stored_get)
  ultimately show ?thesis by (auto split: option.splits)
qed

lemma sim_list_for_session:
  "sim P db b \<Longrightarrow> sql_list_for_session P db s = Inr (list_for_session b s)"
  by (simp add: sim_def sql_list_for_session_def list_for_session_def filter_row_of
      stored_def [symmetric] row_claim_order tasks_from_rows_of)

lemma sim_list_children:
  assumes "sim P db b"
  shows "sql_list_children P db s p = list_children b s p"
proof -
  have inv: "keyed b" "index_ok b" using assms by (simp_all add: sim_def bus_inv_def)
  let ?ts = "filter (\<lambda>t. td_session_id t = s \<and> td_parent_id t = p) (stored b)"
  have "sql_list_children P db s p = Inr (sort_key sibling_key ?ts)"
    using assms by (cases p) (simp_all add: sim_def sql_list_children_def filter_row_of
        row_sibling_order tasks_from_rows_of)
  moreover have "lookup_all b s (map td_task_id ?ts) = Inr ?ts"
    by (rule lookup_all_stored) (use stored_key [OF inv(1)] in auto)
  ultimately show ?thesis using inv(2)
    by (simp add: list_children_def index_ok_def stored_def [symmetric])
qed

section \<open>Writes agree\<close>

text \<open>\<open>UPDATE tasks\<close> on the image of the bus is the image of the dictionary update.\<close>

lemma save_task_image:
  assumes "keyed b" "get b s i = Some t" "same_identity t u"
  shows "save_task P (map (row_of P) (stored b)) u =
    map (row_of P) (stored (b\<lparr>bus_tasks := dict_set (bus_tasks b) (s, i) u\<rparr>))"
proof -
  have key: "td_session_id u = s" "td_task_id u = i"
    using assms by (auto simp: keyed_def same_identity_def)
  have "stored (b\<lparr>bus_tasks := dict_set (bus_tasks b) (s, i) u\<rparr>) =
      map (\<lambda>v. if td_session_id v = s \<and> td_task_id v = i then u else v) (stored b)"
  proof -
    have "dict_ok (bus_tasks b)" "dict_get (bus_tasks b) (s, i) \<noteq> None"
      using assms(1,2) by (auto simp: keyed_def get_def)
    then have "stored (b\<lparr>bus_tasks := dict_set (bus_tasks b) (s, i) u\<rparr>) =
        map (\<lambda>e. if fst e = (s, i) then u else snd e) (bus_tasks b)"
      by (simp add: stored_def dict_set_map)
    also have "\<dots> = map (\<lambda>v. if td_session_id v = s \<and> td_task_id v = i then u else v) (stored b)"
      by (subst keyed_form [OF assms(1)]) (simp add: comp_def)
    finally show ?thesis .
  qed
  moreover have "(row_of P v)\<lparr>row_status := task_status_str (td_status u),
      row_payload := model_dump_json P u\<rparr> = row_of P u"
    if "v \<in> set (stored b)" "td_session_id v = s" "td_task_id v = i" for v
  proof -
    have "v = t" using stored_key [OF assms(1) that(1)] that assms(2) by simp
    with assms(3) show ?thesis by (simp add: row_of_def same_identity_def)
  qed
  ultimately show ?thesis by (simp add: save_task_def key)
qed

lemma sim_replace:
  assumes "sim P db b" "get b s i = Some t" "task_move True (parent_is_done b t) t u"
  shows "sim P (save_task P db u) (b\<lparr>bus_tasks := dict_set (bus_tasks b) (s, i) u\<rparr>)"
proof -
  let ?b' = "b\<lparr>bus_tasks := dict_set (bus_tasks b) (s, i) u\<rparr>"
  have id: "same_identity t u" using assms(3) by (rule task_move_identity)
  have inv: "bus_inv b" "keyed b" and t: "storable t"
    using assms(1,2) by (auto simp: sim_def bus_inv_def dest: stored_get)
  have inv': "bus_inv ?b'"
    using write_old [OF assms(2,3)] inv(1) by (rule write_inv)
  have "storable u"
    using t assms(3) id by (auto simp: storable_def same_identity_def intro: task_move_valid metadata_identity [OF id])
  moreover have "v = u \<or> v \<in> set (stored b)" if "v \<in> set (stored ?b')" for v
    using stored_key [OF _ that] inv' by (auto simp: bus_inv_def dest: stored_get split: if_splits)
  ultimately show ?thesis
    using assms(1) inv' save_task_image [OF inv(2) assms(2) id] by (auto simp: sim_def)
qed

text \<open>Two answers that agree: the same exception, or the same value and related states.\<close>

definition agree :: "('s \<Rightarrow> 'b \<Rightarrow> bool) \<Rightarrow> ('a \<times> 's) result \<Rightarrow> ('a \<times> 'b) result \<Rightarrow> bool" where
  "agree R x y \<longleftrightarrow> (case y of Inl e \<Rightarrow> x = Inl e | Inr (r, b) \<Rightarrow> (\<exists>st. x = Inr (r, st) \<and> R st b))"

lemma agree_map: "agree R x y \<Longrightarrow> agree R (map_ok (map_prod f id) x) (map_ok (map_prod f id) y)"
  by (auto simp: agree_def split: sum.splits prod.splits)

lemma agree_Inl [simp]: "agree R (Inl e) (Inl e)"
  by (simp add: agree_def)

lemma sim_update:
  assumes "sim P db b"
    and "\<And>t u. f t = Inr u \<Longrightarrow> task_move True (parent_is_done b t) t u"
  shows "agree (sim P) (sql_update_task P db s i f) (update_task b s i f)"
proof (cases "get b s i")
  case None
  then show ?thesis
    by (simp add: agree_def update_task_def require_task_def sql_update_task_def
        sql_require_task_def sim_get [OF assms(1)])
next
  case (Some t)
  show ?thesis
  proof (cases "f t")
    case (Inl e)
    with Some show ?thesis
      by (simp add: agree_def update_task_def require_task_def sql_update_task_def
          sql_require_task_def sim_get [OF assms(1)])
  next
    case (Inr u)
    with Some sim_replace [OF assms(1) Some assms(2)] show ?thesis
      by (simp add: agree_def update_task_def require_task_def sql_update_task_def
          sql_require_task_def sim_get [OF assms(1)])
  qed
qed

lemma sim_publish:
  assumes "sim P db b" "storable t" "td_order_index t < 9223372036854775808"
  shows "agree (sim P) (sql_publish P db t) (publish b t)"
proof (cases "publish b t")
  case (Inl e)
  then show ?thesis
    using assms(3) by (auto simp: agree_def publish_def load_def sql_publish_def sql_insert_def
        sim_get [OF assms(1)] Let_def split: if_splits option.splits)
next
  case (Inr x)
  obtain u b' where x: "x = (u, b')" by (cases x)
  with Inr have pending: "td_status t = Pending" and ld: "load b t = Inr (u, b')"
    by (auto simp: publish_def split: if_splits)
  have "sql_publish P db t = Inr (u, db @ [row_of P t])"
    using ld pending assms(3) by (auto simp: load_def sql_publish_def sql_insert_def
        sim_get [OF assms(1)] Let_def split: if_splits option.splits)
  moreover have "sim P (db @ [row_of P t]) b'"
  proof -
    have "bus_write False b b'" using Inr x by (auto intro: publish_write)
    then have "bus_inv b'" using assms(1) by (auto simp: sim_def intro: write_inv)
    moreover have "stored b' = stored b @ [t]"
      using ld by (elim loadE) (simp add: stored_def)
    ultimately show ?thesis using assms(1,2) by (auto simp: sim_def)
  qed
  ultimately show ?thesis using Inr x by (simp add: agree_def)
qed

lemma claim_scan_of:
  "codec_ok P \<Longrightarrow> \<forall>t \<in> set ts. storable t \<Longrightarrow>
   claim_scan P c by_id (map (row_of P) ts) =
     Inr (find (\<lambda>t. td_required_capability t = c \<and> sql_parent_is_done by_id t) ts)"
  by (induction ts) (auto simp: task_from_row_of)

lemma find_filter_hd: "find Q xs = (case filter Q xs of [] \<Rightarrow> None | x # _ \<Rightarrow> Some x)"
  by (induction xs) auto

lemma task_status_str_pending [simp]: "task_status_str st = ''pending'' \<longleftrightarrow> st = Pending"
  by (cases st) simp_all

lemma pending_rows_of:
  assumes "sim P db b"
  shows "pending_rows db s = map (row_of P) (sort_key claim_key
    (filter (\<lambda>t. td_session_id t = s \<and> td_status t = Pending) (stored b)))"
proof -
  have "bus_inv b" "keyed b" using assms by (auto simp: sim_def bus_inv_def)
  have "td_parent_id t = None \<or> list_ex (\<lambda>parent. row_session_id parent = td_session_id t
      \<and> Some (row_task_id parent) = td_parent_id t) db"
    if t: "t \<in> set (stored b)" for t
  proof (cases "td_parent_id t")
    case p: (Some p)
    obtain pt where "get b (td_session_id t) p = Some pt"
      using \<open>bus_inv b\<close> stored_key [OF \<open>keyed b\<close> t] p
      unfolding bus_inv_def parents_ok_def by blast
    then have "pt \<in> set (stored b)" "td_session_id pt = td_session_id t" "td_task_id pt = p"
      using \<open>keyed b\<close> by (auto simp: keyed_def dest: stored_get)
    with assms p show ?thesis by (auto simp: sim_def list_ex_iff)
  qed simp
  then have "filter (\<lambda>t. td_session_id t = s \<and> td_status t = Pending
        \<and> (td_parent_id t = None \<or> list_ex (\<lambda>parent. row_session_id parent = td_session_id t
             \<and> Some (row_task_id parent) = td_parent_id t) db)) (stored b)
      = filter (\<lambda>t. td_session_id t = s \<and> td_status t = Pending) (stored b)"
    by (intro filter_cong) auto
  moreover have "db = map (row_of P) (stored b)" "\<forall>t \<in> set (stored b). storable t"
    using assms by (auto simp: sim_def)
  ultimately show ?thesis
    by (simp add: pending_rows_def filter_row_of row_claim_order)
qed

lemma claim_candidates:
  assumes "sim P db b"
  shows "claim_scan P c (task_by_id (list_for_session b s)) (pending_rows db s) =
    Inr (case sort_key claim_key (filter (claimable b s c) (stored b)) of
           [] \<Rightarrow> None | t # _ \<Rightarrow> Some t)"
proof -
  have keyed: "keyed b" and codec: "codec_ok P" and ok: "\<forall>t \<in> set (stored b). storable t"
    using assms by (auto simp: sim_def bus_inv_def)
  let ?pending = "filter (\<lambda>t. td_session_id t = s \<and> td_status t = Pending) (stored b)"
  let ?R = "\<lambda>t. td_required_capability t = c
    \<and> sql_parent_is_done (task_by_id (list_for_session b s)) t"
  have "filter ?R (sort_key claim_key ?pending) = sort_key claim_key (filter ?R ?pending)"
    by (rule filter_sort)
  moreover have "filter ?R ?pending = filter (claimable b s c) (stored b)"
  proof -
    have "sql_parent_is_done (task_by_id (list_for_session b s)) t = parent_is_done b t"
      if "td_session_id t = s" for t
      using that by (cases "td_parent_id t")
        (simp_all add: sql_parent_is_done_def parent_is_done_def task_by_id_get [OF keyed])
    then show ?thesis
      unfolding filter_filter claimable_def by (intro filter_cong) auto
  qed
  ultimately show ?thesis
    using codec ok by (simp add: pending_rows_of [OF assms] claim_scan_of find_filter_hd)
qed

lemma sim_claim:
  assumes "sim P db b"
  shows "agree (sim P) (sql_claim_next P db s c a now) (claim_next b s c a now)"
proof (cases "blank c \<or> blank a")
  case True
  then show ?thesis by (auto simp: agree_def sql_claim_next_def claim_next_def)
next
  case False
  show ?thesis
  proof (cases "sort_key claim_key (filter (claimable b s c) (stored b))")
    case Nil
    with False assms show ?thesis
      by (simp add: agree_def sql_claim_next_def claim_next_def stored_def [symmetric]
          sim_list_for_session [OF assms] claim_candidates [OF assms])
  next
    case (Cons t ts)
    have "t \<in> set (filter (claimable b s c) (stored b))" using Cons by (rule hd_sort_key_mem)
    then have t: "t \<in> set (stored b)" "claimable b s c t" by auto
    then have "get b s (td_task_id t) = Some t"
      using stored_key [of b t] assms by (auto simp: sim_def bus_inv_def claimable_def)
    then have "sim P (save_task P db (claim_task a now t))
        (b\<lparr>bus_tasks := dict_set (bus_tasks b) (s, td_task_id t) (claim_task a now t)\<rparr>)"
      using assms t(2) False by (intro sim_replace) (auto simp: claimable_def intro: move_claim)
    with Cons False show ?thesis
      by (simp add: agree_def sql_claim_next_def claim_next_def stored_def [symmetric]
          sim_list_for_session [OF assms] claim_candidates [OF assms] Let_def)
  qed
qed

lemma sim_recover_loop:
  assumes "sim P db b" "distinct (map td_task_id ts)"
    and "\<And>t. t \<in> set ts \<Longrightarrow> get b s (td_task_id t) = Some t"
  shows "fst (sql_recover_loop P clk ts db) = fst (recover_loop s clk ts b)
    \<and> sim P (snd (sql_recover_loop P clk ts db)) (snd (recover_loop s clk ts b))"
  using assms
proof (induction ts arbitrary: clk db b)
  case Nil
  then show ?case by simp
next
  case (Cons t ts)
  let ?u = "recover_interrupted_running_updates (clk 0) t"
  let ?b1 = "b\<lparr>bus_tasks := dict_set (bus_tasks b) (s, td_task_id t) ?u\<rparr>"
  show ?case
  proof (cases "td_status t \<noteq> Running \<or> \<not> td_interrupt_requested t")
    case True
    with Cons show ?thesis by simp
  next
    case False
    have "sim P (save_task P db ?u) ?b1"
      using Cons.prems(1) Cons.prems(3) [of t] False
      by (intro sim_replace) (auto intro: move_recover)
    then have "fst (sql_recover_loop P (\<lambda>k. clk (Suc k)) ts (save_task P db ?u))
          = fst (recover_loop s (\<lambda>k. clk (Suc k)) ts ?b1)
        \<and> sim P (snd (sql_recover_loop P (\<lambda>k. clk (Suc k)) ts (save_task P db ?u)))
            (snd (recover_loop s (\<lambda>k. clk (Suc k)) ts ?b1))"
    proof (rule Cons.IH)
      show "distinct (map td_task_id ts)" using Cons.prems(2) by simp
      show "get ?b1 s (td_task_id v) = Some v" if "v \<in> set ts" for v
        using that Cons.prems(2,3) by (auto simp: image_iff)
    qed
    with False show ?thesis by (auto simp: Let_def split: prod.splits)
  qed
qed

lemma sim_recover:
  assumes "sim P db b"
  shows "agree (sim P) (sql_recover_interrupted_running_tasks P db s clk)
    (Inr (recover_interrupted_running_tasks b s clk))"
proof -
  have keyed: "keyed b" using assms by (simp add: sim_def bus_inv_def)
  have "fst (sql_recover_loop P clk (list_for_session b s) db)
        = fst (recover_loop s clk (list_for_session b s) b)
      \<and> sim P (snd (sql_recover_loop P clk (list_for_session b s) db))
          (snd (recover_loop s clk (list_for_session b s) b))"
    by (rule sim_recover_loop [OF assms list_for_session_distinct [OF keyed]])
       (simp add: list_for_session_mem [OF keyed])
  then show ?thesis
    by (cases "sql_recover_loop P clk (list_for_session b s) db")
       (auto simp: agree_def sql_recover_interrupted_running_tasks_def
        recover_interrupted_running_tasks_def sim_list_for_session [OF assms] split: prod.splits)
qed

text \<open>The calls the table can take: those of \<open>op_ok\<close>, with plain metadata, a creation time in range and
  an order index of at most 63 bits.\<close>

definition sql_op_ok :: "string \<Rightarrow> bus_op \<Rightarrow> bool" where
  "sql_op_ok fresh op \<longleftrightarrow> op_ok fresh op \<and>
     (case op of Publish t \<Rightarrow> metadata_plain t \<and> datetime_ok (td_created_at t) \<and> td_order_index t < 9223372036854775808 | _ \<Rightarrow> True)"

lemma sim_exec:
  assumes "sim P db b" "sql_op_ok fresh op"
  shows "agree (sim P) (sql_exec P clk fresh op db) (exec clk fresh op b)"
proof (cases op)
  case (Publish t)
  with assms show ?thesis
    by (auto simp: sql_op_ok_def storable_def intro!: agree_map sim_publish)
next
  case (Claim_next s c a)
  with assms show ?thesis by (auto intro!: agree_map sim_claim)
next
  case (Recover s)
  with assms sim_recover show ?thesis by simp
qed (use assms in \<open>auto simp: handler_defs sql_complete_def sql_fail_def sql_wait_for_user_def
      sql_wait_for_confirmation_def sql_resume_after_user_def sql_resume_after_confirmation_def
      sql_skip_def sql_retry_def sql_request_interrupt_def sql_op_ok_def
      intro!: agree_map sim_update intro: task_move.intros\<close>)

text \<open>The SQLite bus provides the contract of the protocol.\<close>

interpretation sql_bus: task_bus "sql_exec P" "sql_get P" sql_op_ok "sim P" for P
proof unfold_locales
  fix st b fresh op clk e
  assume "sim P st b" "sql_op_ok fresh op" "exec clk fresh op b = Inl e"
  with sim_exec [of P st b fresh op clk] show "sql_exec P clk fresh op st = Inl e"
    by (simp add: agree_def)
next
  fix st b fresh op clk r b'
  assume "sim P st b" "sql_op_ok fresh op" "exec clk fresh op b = Inr (r, b')"
  with sim_exec [of P st b fresh op clk]
  show "\<exists>st'. sql_exec P clk fresh op st = Inr (r, st') \<and> sim P st' b'"
    by (simp add: agree_def)
next
  fix st b s i
  assume "sim P st b"
  then show "sql_get P st s i = Inr (get b s i)" by (rule sim_get)
next
  fix st b
  assume "sim P st b"
  then show "bus_inv b" by (simp add: sim_def)
qed

lemma sim_empty: "codec_ok P \<Longrightarrow> sim P [] empty_bus"
  by (simp add: sim_def stored_def empty_bus_inv) (simp add: empty_bus_def)

section \<open>Properties\<close>

text \<open>A codec for the witnesses: the payload is the task itself, reading validates it.\<close>

definition sample_codec :: "TaskDomain task_codec" where
  "sample_codec = \<lparr>model_dump_json = (\<lambda>t. t), model_validate_json = TaskDomain_validate,
     model_validate = (\<lambda>_. Inl (ValidationError (Msg ''TaskDomain'' []))),
     json_loads = (\<lambda>_. Some (JObj [(''waiting_for_confirmation_id'', JNull)]))\<rparr>"

lemma sample_codec_ok: "codec_ok sample_codec"
  by (simp add: codec_ok_def sample_codec_def TaskDomain_validate_valid)

lemma sample_calls_ok: "\<forall>op \<in> set (sample_calls @ [Fail ''s'' ''r'' ''late'']). sql_op_ok ''uuid'' op"
  by (simp add: sample_calls_def sample_task_def sample_time_def sql_op_ok_def metadata_plain_def
      TaskDomain_valid_iff TaskDomain_fields_ok_def datetime_ok_def)

text \<open>C2. The SQLite bus is the in-memory bus: on an empty database, any sequence of calls that
  respects \<open>sql_op_ok\<close> (published tasks are values of their class, with plain JSON as metadata and integers that
  SQLite can hold) gives the same answers, call by call, returned tasks and raised
  errors alike, whatever the clock and the identifiers.\<close>

theorem sqlite_answers_as_memory:
  assumes "codec_ok P" "\<forall>(clk, fresh, op) \<in> set calls. sql_op_ok fresh op"
  shows "fst (answers (sql_exec P) calls []) = fst (answers exec calls empty_bus)"
proof -
  have "list_all (\<lambda>(clk, fresh, op). sql_op_ok fresh op) calls"
    using assms(2) by (simp add: list_all_iff)
  with sql_bus.answers_rel [OF sim_empty [OF assms(1)]] show ?thesis by blast
qed

theorem sqlite_answers_as_memory_witness:
  "fst (answers (sql_exec sample_codec)
      (map (\<lambda>op. (sample_time, ''uuid'', op)) (sample_calls @ [Fail ''s'' ''r'' ''late''])) []) =
   fst (answers exec
      (map (\<lambda>op. (sample_time, ''uuid'', op)) (sample_calls @ [Fail ''s'' ''r'' ''late''])) empty_bus)"
proof (rule sqlite_answers_as_memory [OF sample_codec_ok])
  show "\<forall>(clk, fresh, op) \<in> set (map (\<lambda>op. (sample_time, ''uuid'', op))
      (sample_calls @ [Fail ''s'' ''r'' ''late''])). sql_op_ok fresh op"
    using sample_calls_ok by auto
qed

text \<open>What the SQLite bus holds reads as what the in-memory bus holds after the same calls:
  single tasks, the session in claim order and the children in sibling order, with no row that
  fails to decode.\<close>

theorem sqlite_reads_as_memory:
  assumes "codec_ok P" "\<forall>(clk, fresh, op) \<in> set calls. sql_op_ok fresh op"
    and "db = snd (answers (sql_exec P) calls [])" "b = snd (answers exec calls empty_bus)"
  shows "sql_get P db s i = Inr (get b s i)
    \<and> sql_list_for_session P db s = Inr (list_for_session b s)
    \<and> sql_list_children P db s p = list_children b s p"
proof -
  have "list_all (\<lambda>(clk, fresh, op). sql_op_ok fresh op) calls"
    using assms(2) by (simp add: list_all_iff)
  with sql_bus.answers_rel [OF sim_empty [OF assms(1)]] assms(3,4) have "sim P db b" by blast
  then show ?thesis by (simp add: sim_get sim_list_for_session sim_list_children)
qed

theorem sqlite_reads_as_memory_witness:
  "sql_list_for_session sample_codec (snd (answers (sql_exec sample_codec)
      (map (\<lambda>op. (sample_time, ''uuid'', op)) sample_calls) [])) ''s'' =
   Inr (list_for_session (snd (answers exec
      (map (\<lambda>op. (sample_time, ''uuid'', op)) sample_calls) empty_bus)) ''s'')"
proof (rule sqlite_reads_as_memory [OF sample_codec_ok _ refl refl, THEN conjunct2, THEN conjunct1])
  show "\<forall>(clk, fresh, op) \<in> set (map (\<lambda>op. (sample_time, ''uuid'', op)) sample_calls).
      sql_op_ok fresh op"
    using sample_calls_ok by auto
qed

text \<open>
  What Pydantic does with text that is not of an instance: reading it raises, and reading it
  again without the null field that has \<open>None\<close> as its default raises too.
\<close>

definition codec_strict :: "'j task_codec \<Rightarrow> bool" where
  "codec_strict P \<longleftrightarrow> (\<forall>t. \<not> TaskDomain_valid t \<longrightarrow>
     \<not> is_ok (model_validate_json P (model_dump_json P t))
     \<and> (\<forall>d n. json_loads P (model_dump_json P t) = Some (JObj d) \<longrightarrow>
          drop_legacy_null_task_fields d = Some n \<longrightarrow> \<not> is_ok (model_validate P n)))"

lemma codec_strict_row:
  "codec_strict P \<Longrightarrow> \<not> TaskDomain_valid t \<Longrightarrow> \<not> is_ok (task_from_row P (row_of P t))"
  by (auto simp: codec_strict_def task_from_row_def task_from_legacy_payload_def map_ok_def
      split: sum.splits option.splits json.splits)

lemma sample_codec_strict: "codec_strict sample_codec"
  by (simp add: codec_strict_def sample_codec_def TaskDomain_valid_def)

lemma tasks_from_rows_error:
  "r \<in> set rows \<Longrightarrow> \<not> is_ok (task_from_row P r) \<Longrightarrow> \<not> is_ok (tasks_from_rows P rows)"
  by (induction rows) (auto simp: map_ok_def split: sum.splits)

text \<open>An empty result reference is accepted and makes the session unreadable: completing a
  running task with \<open>result_ref=""\<close> returns normally on the SQLite bus, after which reading
  that task, and listing its session, raises.\<close>

theorem empty_result_ref_breaks_reads:
  assumes "sim P db b" "codec_strict P" "get b s i = Some t" "td_status t = Running"
  shows "\<exists>u db'. sql_complete P db s i (Some []) now = Inr (u, db')
    \<and> \<not> is_ok (sql_get P db' s i) \<and> \<not> is_ok (sql_list_for_session P db' s)"
proof -
  let ?u = "t\<lparr>td_status := Done, td_result_ref := Some [], td_error_ref := None,
    td_completed_at := Some now\<rparr>"
  let ?db' = "save_task P db ?u"
  have keyed: "keyed b" using assms(1) by (simp add: sim_def bus_inv_def)
  have call: "sql_complete P db s i (Some []) now = Inr (?u, ?db')"
    using assms(4) by (simp add: sql_complete_def sql_update_task_def sql_require_task_def
        sim_get [OF assms(1)] assms(3) transition_running_task_def)
  have id: "same_identity t ?u" "td_session_id ?u = s" "td_task_id ?u = i"
    using keyed assms(3) by (auto simp: same_identity_def keyed_def)
  let ?b' = "b\<lparr>bus_tasks := dict_set (bus_tasks b) (s, i) ?u\<rparr>"
  have db': "?db' = map (row_of P) (stored ?b')"
    using assms(1) save_task_image [OF keyed assms(3) id(1)] by (simp add: sim_def)
  have keyed': "keyed ?b'" using keyed id by (auto simp: keyed_def)
  have bad: "\<not> is_ok (task_from_row P (row_of P ?u))"
    using assms(2) by (rule codec_strict_row) (simp add: TaskDomain_valid_iff TaskDomain_fields_ok_def)
  have "find (\<lambda>r. row_session_id r = s \<and> row_task_id r = i) ?db' = Some (row_of P ?u)"
    using get_find [OF keyed', of s i, symmetric] by (simp add: db' find_map)
  then have "\<not> is_ok (sql_get P ?db' s i)"
    using bad by (auto simp: sql_get_def map_ok_def split: sum.splits)
  moreover have "?u \<in> set (stored ?b')" by (rule stored_get [of _ s i]) simp
  then have "\<not> is_ok (sql_list_for_session P ?db' s)"
    unfolding sql_list_for_session_def
    by (intro tasks_from_rows_error [OF _ bad]) (use id in \<open>auto simp: db'\<close>)
  ultimately show ?thesis using call by blast
qed

lemma sample_sim:
  "sim sample_codec (snd (answers (sql_exec sample_codec)
      (map (\<lambda>op. (sample_time, ''uuid'', op)) sample_calls) []))
    (snd (answers exec (map (\<lambda>op. (sample_time, ''uuid'', op)) sample_calls) empty_bus))"
proof -
  have "list_all (\<lambda>(clk, fresh, op). sql_op_ok fresh op)
      (map (\<lambda>op. (sample_time, ''uuid'', op)) sample_calls)"
    using sample_calls_ok by (auto simp: list_all_iff)
  with sql_bus.answers_rel [OF sim_empty [OF sample_codec_ok]] show ?thesis by blast
qed

theorem empty_result_ref_breaks_reads_witness:
  "\<exists>u db'. sql_complete sample_codec (snd (answers (sql_exec sample_codec)
        (map (\<lambda>op. (sample_time, ''uuid'', op)) sample_calls) [])) ''s'' ''c'' (Some []) (sample_time 9)
      = Inr (u, db')
    \<and> \<not> is_ok (sql_get sample_codec db' ''s'' ''c'')
    \<and> \<not> is_ok (sql_list_for_session sample_codec db' ''s'')"
proof (rule empty_result_ref_breaks_reads [OF sample_sim sample_codec_strict])
  let ?b = "snd (answers exec (map (\<lambda>op. (sample_time, ''uuid'', op)) sample_calls) empty_bus)"
  show "get ?b ''s'' ''c'' = Some (the (get ?b ''s'' ''c''))" by code_simp
  show "td_status (the (get ?b ''s'' ''c'')) = Running" by code_simp
qed

end
