(* ===== verification/Product_Errors.thy ===== *)
theory Product_Errors
  imports Prelude
begin

text \<open>
  \<^verbatim>\<open>product_errors.py\<close>: the mapping of API errors, language model failures and task
  failures to product categories and recovery actions. The details are \<open>dict[str, object]\<close>
  values; an argument that is None or an empty dictionary is falsy and adds nothing.
\<close>

section \<open>Dictionary update\<close>

text \<open>\<open>d.update(e)\<close> and \<open>{**d, **e}\<close>.\<close>

definition dict_update :: "('k, 'v) dict \<Rightarrow> ('k, 'v) dict \<Rightarrow> ('k, 'v) dict" where
  "dict_update d e = foldl (\<lambda>d (k, v). dict_set d k v) d e"

lemma dict_update_simps [simp]:
  "dict_update d [] = d" "dict_update d ((k, v) # e) = dict_update (dict_set d k v) e"
  by (simp_all add: dict_update_def)

lemma dict_get_update:
  "dict_ok e \<Longrightarrow> dict_get (dict_update d e) k = (case dict_get e k of None \<Rightarrow> dict_get d k | Some v \<Rightarrow> Some v)"
proof (induction e arbitrary: d)
  case Nil
  then show ?case by simp
next
  case (Cons p e)
  then have "dict_get e (fst p) = None" by (simp add: map_of_eq_None_iff)
  with Cons show ?case by (cases p) (auto split: option.splits)
qed

section \<open>Vocabulary\<close>

datatype ProductErrorCategory =
    Input_validation | Missing_context | Command_conflict | Backend_busy | Network_or_event_sync
  | Llm_auth_or_config | Llm_rate_or_retry_exhausted | Llm_context_or_capability
  | Tool_or_sandbox_failure | Task_execution_failed | Task_cancelled_or_interrupted
  | Audit_evidence_partial | Unexpected_internal

datatype ProductRecoveryAction =
    Edit_input | Answer_ask | Retry_command | Retry_task | Refresh_snapshot | Wait_for_events
  | Open_audit | Open_settings | Open_macos_privacy_accessibility | Open_macos_privacy_automation
  | Restart_helper | Rerun_readiness_check | Export_diagnostics | No_action

datatype ProductErrorSeverity = Recoverable | Action_required | Blocked_severity | Fatal | Unknown

fun category_str :: "ProductErrorCategory \<Rightarrow> string" where
  "category_str Input_validation = ''input_validation''"
| "category_str Missing_context = ''missing_context''"
| "category_str Command_conflict = ''command_conflict''"
| "category_str Backend_busy = ''backend_busy''"
| "category_str Network_or_event_sync = ''network_or_event_sync''"
| "category_str Llm_auth_or_config = ''llm_auth_or_config''"
| "category_str Llm_rate_or_retry_exhausted = ''llm_rate_or_retry_exhausted''"
| "category_str Llm_context_or_capability = ''llm_context_or_capability''"
| "category_str Tool_or_sandbox_failure = ''tool_or_sandbox_failure''"
| "category_str Task_execution_failed = ''task_execution_failed''"
| "category_str Task_cancelled_or_interrupted = ''task_cancelled_or_interrupted''"
| "category_str Audit_evidence_partial = ''audit_evidence_partial''"
| "category_str Unexpected_internal = ''unexpected_internal''"

fun action_str :: "ProductRecoveryAction \<Rightarrow> string" where
  "action_str Edit_input = ''edit_input''"
| "action_str Answer_ask = ''answer_ask''"
| "action_str Retry_command = ''retry_command''"
| "action_str Retry_task = ''retry_task''"
| "action_str Refresh_snapshot = ''refresh_snapshot''"
| "action_str Wait_for_events = ''wait_for_events''"
| "action_str Open_audit = ''open_audit''"
| "action_str Open_settings = ''open_settings''"
| "action_str Open_macos_privacy_accessibility = ''open_macos_privacy_accessibility''"
| "action_str Open_macos_privacy_automation = ''open_macos_privacy_automation''"
| "action_str Restart_helper = ''restart_helper''"
| "action_str Rerun_readiness_check = ''rerun_readiness_check''"
| "action_str Export_diagnostics = ''export_diagnostics''"
| "action_str No_action = ''none''"

fun severity_str :: "ProductErrorSeverity \<Rightarrow> string" where
  "severity_str Recoverable = ''recoverable''"
| "severity_str Action_required = ''action_required''"
| "severity_str Blocked_severity = ''blocked''"
| "severity_str Fatal = ''fatal''"
| "severity_str Unknown = ''unknown''"

section \<open>Builders\<close>

type_synonym details = "(string, json) dict"

definition product_error_audit_ref_for_task :: "string \<Rightarrow> string \<Rightarrow> string \<Rightarrow> details" where
  "product_error_audit_ref_for_task session_id task_id task_ref_kind =
     (let record_id = ''record-result-'' @ task_ref_kind @ ''-'' @ task_id
      in [(''scope'', JStr ''task''), (''sessionId'', JStr session_id), (''taskId'', JStr task_id),
          (''recordId'', JStr record_id), (''evidenceId'', JStr (''evidence-'' @ record_id)),
          (''filter'', JStr ''results'')])"

text \<open>The dictionary before \<open>extra\<close> is merged in.\<close>

definition base_details ::
  "ProductErrorCategory \<Rightarrow> ProductRecoveryAction list \<Rightarrow> ProductErrorSeverity \<Rightarrow> string option
     \<Rightarrow> details option \<Rightarrow> details option \<Rightarrow> details" where
  "base_details category recovery_actions severity user_message_key diagnostic_refs audit_ref =
     (let details = [(''productCategory'', JStr (category_str category)),
            (''recoveryActions'', JArr (map (\<lambda>a. JStr (action_str a)) recovery_actions)),
            (''severity'', JStr (severity_str severity))];
          details = (case user_message_key of None \<Rightarrow> details
                     | Some k \<Rightarrow> dict_set details ''userMessageKey'' (JStr k));
          details = (case diagnostic_refs of None \<Rightarrow> details
                     | Some d \<Rightarrow> if d = [] then details else dict_set details ''diagnosticRefs'' (JObj d))
      in case audit_ref of None \<Rightarrow> details
         | Some d \<Rightarrow> if d = [] then details else dict_set details ''auditRef'' (JObj d))"

definition product_error_details ::
  "ProductErrorCategory \<Rightarrow> ProductRecoveryAction list \<Rightarrow> ProductErrorSeverity \<Rightarrow> string option
     \<Rightarrow> details option \<Rightarrow> details option \<Rightarrow> details option \<Rightarrow> details" where
  "product_error_details category recovery_actions severity user_message_key diagnostic_refs audit_ref extra =
     (let details = base_details category recovery_actions severity user_message_key diagnostic_refs audit_ref
      in case extra of None \<Rightarrow> details | Some e \<Rightarrow> dict_update details e)"

definition product_error_details_for_api_error :: "string \<Rightarrow> details option \<Rightarrow> details" where
  "product_error_details_for_api_error code extra =
     (let build = (\<lambda>category actions severity key.
            product_error_details category actions severity (Some key) None None extra)
      in if code = ''bad_request''
         then build Input_validation [Edit_input] Action_required ''api.bad_request''
         else if code = ''not_found''
         then build Missing_context [Refresh_snapshot] Action_required ''api.not_found''
         else if code \<in> {''version_conflict'', ''idempotency_conflict''}
         then build Command_conflict [Refresh_snapshot, Retry_command] Recoverable (''api.'' @ code)
         else if code = ''command_rejected''
         then build Command_conflict [Refresh_snapshot] Action_required ''api.command_rejected''
         else if code = ''permission_denied''
         then build Missing_context [Open_audit] Blocked_severity ''api.permission_denied''
         else if code = ''backend_busy''
         then build Backend_busy [Wait_for_events, Retry_command] Recoverable ''api.backend_busy''
         else if code = ''resync_required''
         then build Network_or_event_sync [Refresh_snapshot, Wait_for_events] Recoverable
                ''api.resync_required''
         else build Unexpected_internal [Refresh_snapshot, Export_diagnostics] Unknown
                ''api.internal_error'')"

text \<open>The classification is given by its text, \<open>str(getattr(classification, "value", classification))\<close>.\<close>

definition product_error_details_for_llm_classification ::
  "string \<Rightarrow> int \<Rightarrow> details option \<Rightarrow> details option \<Rightarrow> details option \<Rightarrow> details" where
  "product_error_details_for_llm_classification classification_value retry_count diagnostic_refs
       audit_ref extra =
     (let details_extra = dict_update [(''llmClassification'', JStr classification_value)]
            (case extra of None \<Rightarrow> [] | Some e \<Rightarrow> e);
          details_extra = (if retry_count \<noteq> 0
                           then dict_set details_extra ''retryCount'' (JInt retry_count)
                           else details_extra);
          build = (\<lambda>category actions severity key. product_error_details category actions severity
            (Some key) diagnostic_refs audit_ref (Some details_extra))
      in if classification_value = ''fatal_auth''
         then build Llm_auth_or_config [Open_settings, Export_diagnostics] Action_required
                ''llm.auth_or_config''
         else if classification_value \<in> {''retryable'', ''rate_limit''}
         then build Llm_rate_or_retry_exhausted [Wait_for_events, Retry_task, Export_diagnostics]
                Recoverable ''llm.rate_or_retry_exhausted''
         else if classification_value \<in> {''context_limit'', ''fatal_capability''}
         then build Llm_context_or_capability [Edit_input, Open_settings, Export_diagnostics]
                Action_required ''llm.context_or_capability''
         else if classification_value = ''fatal_request''
         then build Llm_auth_or_config [Open_settings, Export_diagnostics] Action_required
                ''llm.request_or_config''
         else build Unexpected_internal [Open_audit, Export_diagnostics] Unknown
                ''llm.unknown_failure'')"

definition product_error_details_for_task_failure ::
  "string option \<Rightarrow> bool \<Rightarrow> bool \<Rightarrow> details option \<Rightarrow> details option \<Rightarrow> details option \<Rightarrow> details" where
  "product_error_details_for_task_failure error_type interrupted can_retry diagnostic_refs audit_ref extra =
     (let actions = (if can_retry then [Retry_task, Open_audit, Export_diagnostics]
                     else [Open_audit, Export_diagnostics]);
          details_extra = (case extra of None \<Rightarrow> [] | Some e \<Rightarrow> e);
          details_extra = (case error_type of None \<Rightarrow> details_extra | Some t \<Rightarrow>
            if t = [] then details_extra else dict_set details_extra ''errorType'' (JStr t))
      in if interrupted
         then product_error_details Task_cancelled_or_interrupted actions Recoverable
                (Some ''task.cancelled_or_interrupted'') diagnostic_refs audit_ref (Some details_extra)
         else product_error_details Task_execution_failed actions
                (if can_retry then Recoverable else Blocked_severity)
                (Some ''task.execution_failed'') diagnostic_refs audit_ref (Some details_extra))"

definition merge_product_error_details :: "string \<Rightarrow> details option \<Rightarrow> details" where
  "merge_product_error_details code details =
     (let existing = (case details of None \<Rightarrow> [] | Some d \<Rightarrow> d)
      in if dict_get existing ''productCategory'' \<noteq> None \<and> dict_get existing ''recoveryActions'' \<noteq> None
         then existing
         else product_error_details_for_api_error code (Some existing))"

section \<open>What every builder keeps\<close>

lemma base_details_get:
  "dict_get (base_details c as s k dr ar) ''productCategory'' = Some (JStr (category_str c))"
  "dict_get (base_details c as s k dr ar) ''recoveryActions'' = Some (JArr (map (\<lambda>a. JStr (action_str a)) as))"
  by (simp_all add: base_details_def Let_def split: option.split)

text \<open>What a builder returns: a category and some recovery action, overridden only by \<open>extra\<close>.\<close>

definition details_built :: "details \<Rightarrow> details \<Rightarrow> bool" where
  "details_built e d \<longleftrightarrow> (\<forall>key v. dict_get e key = Some v \<longrightarrow> dict_get d key = Some v)
     \<and> dict_get d ''productCategory'' \<noteq> None
     \<and> (\<exists>v. dict_get d ''recoveryActions'' = Some v \<and> (dict_get e ''recoveryActions'' = None \<longrightarrow> v \<noteq> JArr []))"

lemma built_product_error_details:
  assumes "dict_ok e" "as \<noteq> []"
  shows "details_built e (product_error_details c as s k dr ar (Some e))"
  using assms by (simp add: details_built_def product_error_details_def dict_get_update base_details_get split: option.split)

lemma built_api_error: "dict_ok e \<Longrightarrow> details_built e (product_error_details_for_api_error code (Some e))"
  by (simp add: product_error_details_for_api_error_def built_product_error_details)

section \<open>Properties\<close>

text \<open>Attaching product metadata preserves what the caller gave: after
  \<open>merge_product_error_details\<close> every explicit key has its explicit value, and a category and a list of
  recovery actions are always present, filled in from the error code where the caller gave none.\<close>

theorem merge_preserves_explicit_details:
  assumes "dict_ok d"
  shows "(\<forall>key v. dict_get d key = Some v \<longrightarrow>
      dict_get (merge_product_error_details code (Some d)) key = Some v)
    \<and> (\<exists>v. dict_get (merge_product_error_details code (Some d)) ''productCategory'' = Some v)
    \<and> (\<exists>v. dict_get (merge_product_error_details code (Some d)) ''recoveryActions'' = Some v
         \<and> (dict_get d ''recoveryActions'' = None \<longrightarrow> v \<noteq> JArr []))"
  using built_api_error [OF assms, of code]
  by (auto simp: merge_product_error_details_def details_built_def)

theorem merge_preserves_explicit_details_witness:
  "dict_get (merge_product_error_details ''not_found'' (Some [(''severity'', JStr ''fatal'')])) ''severity''
     = Some (JStr ''fatal'')
   \<and> (\<exists>v. dict_get (merge_product_error_details ''not_found'' (Some [(''severity'', JStr ''fatal'')]))
        ''recoveryActions'' = Some v \<and> v \<noteq> JArr [])"
  using merge_preserves_explicit_details [of "[(''severity'', JStr ''fatal'')]" "''not_found''"] by simp

end
