(* ===== verification/Result_Summary.thy ===== *)
theory Result_Summary
  imports Product_Errors Task_Models
begin

text \<open>
  \<^verbatim>\<open>task/result_summary.py\<close> and \<^verbatim>\<open>task/sqlite_result_summary.py\<close>: the readable
  result and error payloads that the references of the TaskBus address, the builders the executor
  uses, the in-memory store and the SQLite store.

  \<open>created_at\<close> and \<open>updated_at\<close> default to two readings of the clock, the arguments \<open>t0\<close> and
  \<open>t1\<close>. The constructor validates, so a builder returns a result. Of an exception the code looks at
  the class name and, for provider errors, at four attributes.
\<close>

section \<open>Summaries\<close>

datatype TaskExecutionSummaryKind = Result_kind | Error_kind
datatype TaskExecutionSummarySource = Agent_loop | Execution_bridge | External_agent

record TaskExecutionSummary =
  sm_summary_id :: string
  sm_session_id :: string
  sm_task_id :: string
  sm_kind :: TaskExecutionSummaryKind
  sm_source :: TaskExecutionSummarySource
  sm_title :: string
  sm_summary :: string
  sm_stop_reason :: "string option"
  sm_final_answer :: "string option"
  sm_error_type :: "string option"
  sm_error_message :: "string option"
  sm_metadata :: details
  sm_created_at :: datetime
  sm_updated_at :: datetime

definition summary_fields_ok :: "TaskExecutionSummary \<Rightarrow> bool" where
  "summary_fields_ok s \<longleftrightarrow> sm_summary_id s \<noteq> [] \<and> sm_session_id s \<noteq> [] \<and> sm_task_id s \<noteq> []
     \<and> sm_title s \<noteq> [] \<and> sm_summary s \<noteq> [] \<and> opt_nonempty (sm_stop_reason s)
     \<and> opt_nonempty (sm_final_answer s) \<and> opt_nonempty (sm_error_type s)
     \<and> opt_nonempty (sm_error_message s)"

text \<open>The constructor: field constraints, then \<open>_validate_kind_payload\<close>.\<close>

definition TaskExecutionSummary_new :: "TaskExecutionSummary \<Rightarrow> TaskExecutionSummary result" where
  "TaskExecutionSummary_new s =
     (if \<not> summary_fields_ok s then Inl (ValidationError (Msg ''TaskExecutionSummary'' []))
      else if sm_kind s = Result_kind \<and> sm_error_type s \<noteq> None
      then Inl (ValidationError (Msg ''result summary must not include error_type'' []))
      else if sm_kind s = Error_kind \<and> sm_error_type s = None
      then Inl (ValidationError (Msg ''error summary requires error_type'' []))
      else if sm_updated_at s < sm_created_at s
      then Inl (ValidationError (Msg ''updated_at must be >= created_at'' []))
      else Inr s)"

section \<open>Builders\<close>

record llm_failure =
  lf_classification :: string
  lf_provider_name :: "string option"
  lf_model :: "string option"
  lf_retry_records :: nat

record py_exception =
  exc_type_name :: string
  exc_llm :: "llm_failure option"

definition base_summary ::
  "string \<Rightarrow> TaskDomain \<Rightarrow> TaskExecutionSummaryKind \<Rightarrow> TaskExecutionSummarySource \<Rightarrow> string \<Rightarrow> string
     \<Rightarrow> details \<Rightarrow> datetime \<Rightarrow> datetime \<Rightarrow> TaskExecutionSummary" where
  "base_summary summary_id task kind source title summary metadata t0 t1 =
     \<lparr>sm_summary_id = summary_id, sm_session_id = td_session_id task, sm_task_id = td_task_id task,
      sm_kind = kind, sm_source = source, sm_title = title, sm_summary = summary,
      sm_stop_reason = None, sm_final_answer = None, sm_error_type = None, sm_error_message = None,
      sm_metadata = metadata, sm_created_at = t0, sm_updated_at = t1\<rparr>"

definition required_capability_entry :: "TaskDomain \<Rightarrow> details" where
  "required_capability_entry task = [(''requiredCapability'', JStr (td_required_capability task))]"

definition diagnostic_refs_of :: "string \<Rightarrow> TaskDomain \<Rightarrow> details" where
  "diagnostic_refs_of summary_id task = [(''errorRef'', JStr summary_id),
     (''taskId'', JStr (td_task_id task)), (''sessionId'', JStr (td_session_id task))]"

definition audit_ref_of :: "TaskDomain \<Rightarrow> details" where
  "audit_ref_of task = product_error_audit_ref_for_task (td_session_id task) (td_task_id task) ''published''"

definition build_agent_loop_result_summary ::
  "string \<Rightarrow> TaskDomain \<Rightarrow> string \<Rightarrow> string \<Rightarrow> datetime \<Rightarrow> datetime \<Rightarrow> TaskExecutionSummary result" where
  "build_agent_loop_result_summary summary_id task final_answer stop_reason t0 t1 =
     (let summary = (if strip final_answer = [] then ''Task completed.'' else strip final_answer)
      in TaskExecutionSummary_new ((base_summary summary_id task Result_kind Agent_loop
           ''Task completed'' summary (required_capability_entry task) t0 t1)
           \<lparr>sm_final_answer := Some summary, sm_stop_reason := Some stop_reason\<rparr>))"

definition startswith :: "string \<Rightarrow> string \<Rightarrow> bool" where
  "startswith s prefix \<longleftrightarrow> take (length prefix) s = prefix"

definition build_agent_loop_error_summary ::
  "string \<Rightarrow> TaskDomain \<Rightarrow> string \<Rightarrow> string \<Rightarrow> datetime \<Rightarrow> datetime \<Rightarrow> TaskExecutionSummary result" where
  "build_agent_loop_error_summary summary_id task stop_reason final_answer t0 t1 =
     (let reason = (if strip stop_reason = [] then ''unknown'' else strip stop_reason);
          message = ''AgentLoop stopped before finishing: '' @ reason @ ''.''
      in TaskExecutionSummary_new ((base_summary summary_id task Error_kind Agent_loop
           ''Task execution did not finish'' message
           (dict_update (required_capability_entry task) (product_error_details_for_task_failure
              (Some ''agent_loop_failed'') (reason = ''interrupted'' \<or> startswith reason ''cancelled'') True
              (Some (diagnostic_refs_of summary_id task)) (Some (audit_ref_of task)) None)) t0 t1)
           \<lparr>sm_final_answer := (if strip final_answer = [] then None else Some (strip final_answer)),
            sm_stop_reason := Some reason, sm_error_type := Some ''agent_loop_failed'',
            sm_error_message := Some message\<rparr>))"

text \<open>\<open>_product_error_details_for_exception\<close>.\<close>

definition truthy_entry :: "string \<Rightarrow> string option \<Rightarrow> details \<Rightarrow> details" where
  "truthy_entry key x d = (case x of None \<Rightarrow> d | Some s \<Rightarrow> if s = [] then d else dict_set d key (JStr s))"

definition product_error_details_for_exception ::
  "string \<Rightarrow> TaskDomain \<Rightarrow> py_exception \<Rightarrow> string \<Rightarrow> details" where
  "product_error_details_for_exception summary_id task exc error_type =
     (case exc_llm exc of
        Some f \<Rightarrow>
          product_error_details_for_llm_classification (lf_classification f) (int (lf_retry_records f))
            (Some (truthy_entry ''model'' (lf_model f)
              (truthy_entry ''providerName'' (lf_provider_name f) (diagnostic_refs_of summary_id task))))
            (Some (audit_ref_of task)) (Some [(''errorType'', JStr error_type)])
      | None \<Rightarrow>
          product_error_details_for_task_failure (Some error_type) False True
            (Some (diagnostic_refs_of summary_id task)) (Some (audit_ref_of task)) None)"

definition build_execution_exception_summary ::
  "string \<Rightarrow> TaskDomain \<Rightarrow> py_exception \<Rightarrow> datetime \<Rightarrow> datetime \<Rightarrow> TaskExecutionSummary result" where
  "build_execution_exception_summary summary_id task exc t0 t1 =
     (let error_type = exc_type_name exc;
          message = ''Task execution failed with '' @ error_type @ ''.''
      in TaskExecutionSummary_new ((base_summary summary_id task Error_kind Execution_bridge
           ''Task execution failed'' message
           (dict_update (required_capability_entry task)
              (product_error_details_for_exception summary_id task exc error_type)) t0 t1)
           \<lparr>sm_error_type := Some error_type, sm_error_message := Some message\<rparr>))"

definition build_execution_completed_summary ::
  "string \<Rightarrow> TaskDomain \<Rightarrow> datetime \<Rightarrow> datetime \<Rightarrow> TaskExecutionSummary result" where
  "build_execution_completed_summary summary_id task t0 t1 =
     TaskExecutionSummary_new (base_summary summary_id task Result_kind Execution_bridge
       ''Task completed'' ''Task completed.'' (required_capability_entry task) t0 t1)"

definition build_external_result_ref_summary ::
  "string \<Rightarrow> TaskDomain \<Rightarrow> datetime \<Rightarrow> datetime \<Rightarrow> TaskExecutionSummary result" where
  "build_external_result_ref_summary result_ref task t0 t1 =
     TaskExecutionSummary_new (base_summary result_ref task Result_kind External_agent
       ''Task completed'' (''Task completed. Result reference: '' @ result_ref @ ''.'')
       (required_capability_entry task) t0 t1)"

definition build_external_error_ref_summary ::
  "string \<Rightarrow> TaskDomain \<Rightarrow> datetime \<Rightarrow> datetime \<Rightarrow> TaskExecutionSummary result" where
  "build_external_error_ref_summary error_ref task t0 t1 =
     TaskExecutionSummary_new ((base_summary error_ref task Error_kind External_agent
       ''Task execution failed'' (''Task execution failed. Error reference: '' @ error_ref @ ''.'')
       (dict_update (required_capability_entry task) (product_error_details_for_task_failure
          (Some ''external_agent_error'') False True (Some (diagnostic_refs_of error_ref task))
          (Some (audit_ref_of task)) None)) t0 t1)
       \<lparr>sm_error_type := Some ''external_agent_error'', sm_error_message := Some error_ref\<rparr>)"

section \<open>The in-memory store\<close>

type_synonym summary_store = "(string, TaskExecutionSummary) dict"

definition summary_put :: "summary_store \<Rightarrow> TaskExecutionSummary \<Rightarrow> summary_store" where
  "summary_put st s = dict_set st (sm_summary_id s) s"

definition summary_get :: "summary_store \<Rightarrow> string \<Rightarrow> TaskExecutionSummary option" where
  "summary_get st summary_id = dict_get st summary_id"

text \<open>\<open>matches.sort(key=...)\<close> and \<open>matches[-1]\<close>.\<close>

definition summary_get_for_task ::
  "summary_store \<Rightarrow> string \<Rightarrow> string \<Rightarrow> TaskExecutionSummaryKind option \<Rightarrow> TaskExecutionSummary option" where
  "summary_get_for_task st session_id task_id kind =
     (let hits = filter (\<lambda>s. sm_session_id s = session_id \<and> sm_task_id s = task_id
            \<and> (case kind of None \<Rightarrow> True | Some k \<Rightarrow> sm_kind s = k)) (dict_values st)
      in if hits = [] then None else Some (last (sort_key sm_updated_at hits)))"

record TaskSummaryView =
  sv_task_ref :: TaskRef
  sv_summary :: string
  sv_failure_reason :: "string option"
  sv_follow_up_suggestions :: "string list"
  sv_artifact_refs :: "string list"
  sv_updated_at :: datetime

definition task_execution_summary_to_task_summary_view :: "TaskExecutionSummary \<Rightarrow> TaskSummaryView" where
  "task_execution_summary_to_task_summary_view s =
     \<lparr>sv_task_ref = \<lparr>ref_kind = Published_ref, ref_id = sm_task_id s\<rparr>, sv_summary = sm_summary s,
      sv_failure_reason = (if sm_kind s = Error_kind
        then Some (case sm_error_message s of None \<Rightarrow> sm_summary s
                   | Some m \<Rightarrow> if m = [] then sm_summary s else m) else None),
      sv_follow_up_suggestions = [], sv_artifact_refs = [], sv_updated_at = sm_updated_at s\<rparr>"

definition summary_view_get :: "summary_store \<Rightarrow> string \<Rightarrow> string \<Rightarrow> TaskSummaryView option" where
  "summary_view_get st session_id task_id =
     map_option task_execution_summary_to_task_summary_view
       (summary_get_for_task st session_id task_id None)"

section \<open>The SQLite store\<close>

record 'j summary_codec =
  dump_summary :: "TaskExecutionSummary \<Rightarrow> 'j"
  load_summary :: "'j \<Rightarrow> TaskExecutionSummary result"

record 'j summary_row =
  sr_summary_id :: string
  sr_session_id :: string
  sr_task_id :: string
  sr_kind :: TaskExecutionSummaryKind
  sr_source :: TaskExecutionSummarySource
  sr_created_at :: string
  sr_updated_at :: string
  sr_payload :: 'j

definition summary_row_of :: "'j summary_codec \<Rightarrow> TaskExecutionSummary \<Rightarrow> 'j summary_row" where
  "summary_row_of P s = \<lparr>sr_summary_id = sm_summary_id s, sr_session_id = sm_session_id s,
     sr_task_id = sm_task_id s, sr_kind = sm_kind s, sr_source = sm_source s,
     sr_created_at = isoformat (sm_created_at s), sr_updated_at = isoformat (sm_updated_at s),
     sr_payload = dump_summary P s\<rparr>"

text \<open>INSERT ... ON CONFLICT(summary_id) DO UPDATE, which leaves the column \<open>created_at\<close> alone.\<close>

definition sql_summary_put ::
  "'j summary_codec \<Rightarrow> 'j summary_row list \<Rightarrow> TaskExecutionSummary \<Rightarrow> 'j summary_row list" where
  "sql_summary_put P db s =
     (let new = summary_row_of P s
      in if sm_summary_id s \<in> set (map sr_summary_id db)
         then map (\<lambda>r. if sr_summary_id r = sm_summary_id s
                       then new\<lparr>sr_created_at := sr_created_at r\<rparr> else r) db
         else db @ [new])"

definition sql_summary_get ::
  "'j summary_codec \<Rightarrow> 'j summary_row list \<Rightarrow> string \<Rightarrow> TaskExecutionSummary option result" where
  "sql_summary_get P db summary_id =
     (case find (\<lambda>r. sr_summary_id r = summary_id) db of
        None \<Rightarrow> Inr None
      | Some r \<Rightarrow> map_ok Some (load_summary P (sr_payload r)))"

text \<open>\<open>ORDER BY updated_at DESC, id DESC LIMIT 1\<close>: the last row of the ascending order.\<close>

definition sql_summary_get_for_task ::
  "'j summary_codec \<Rightarrow> 'j summary_row list \<Rightarrow> string \<Rightarrow> string \<Rightarrow> TaskExecutionSummaryKind option
     \<Rightarrow> TaskExecutionSummary option result" where
  "sql_summary_get_for_task P db session_id task_id kind =
     (let hits = filter (\<lambda>r. sr_session_id r = session_id \<and> sr_task_id r = task_id
            \<and> (case kind of None \<Rightarrow> True | Some k \<Rightarrow> sr_kind r = k)) db
      in if hits = [] then Inr None
         else map_ok Some (load_summary P (sr_payload (last (sort_key sr_updated_at hits)))))"

section \<open>The contract of a summary store\<close>

text \<open>What the executor relies on of \<open>TaskExecutionSummaryStore\<close>: a stored summary is what its
  identifier reads back, and storing one leaves the others alone.\<close>

locale execution_summary_store =
  fixes put :: "'st \<Rightarrow> TaskExecutionSummary \<Rightarrow> 'st"
    and get :: "'st \<Rightarrow> string \<Rightarrow> TaskExecutionSummary option result"
    and inv :: "'st \<Rightarrow> bool"
    and storable :: "TaskExecutionSummary \<Rightarrow> bool"
  assumes inv_put: "inv st \<Longrightarrow> storable s \<Longrightarrow> inv (put st s)"
    and get_put: "inv st \<Longrightarrow> storable s \<Longrightarrow>
      get (put st s) i = (if i = sm_summary_id s then Inr (Some s) else get st i)"
begin

lemma inv_puts: "inv st \<Longrightarrow> \<forall>s \<in> set ss. storable s \<Longrightarrow> inv (foldl put st ss)"
  by (induction ss arbitrary: st) (auto intro: inv_put)

text \<open>After any sequence of writes the last summary with an identifier is the one that is read.\<close>

lemma last_write_wins:
  "inv st \<Longrightarrow> \<forall>s \<in> set ss. storable s \<Longrightarrow>
   get (foldl put st ss) i = (case find (\<lambda>s. sm_summary_id s = i) (rev ss) of
     None \<Rightarrow> get st i | Some s \<Rightarrow> Inr (Some s))"
proof (induction ss rule: rev_induct)
  case (snoc s ss)
  have "inv (foldl put st ss)" using snoc.prems by (intro inv_puts) auto
  with snoc show ?case by (simp add: get_put)
qed simp

end

interpretation mem_summaries: execution_summary_store
  summary_put "\<lambda>st i. Inr (summary_get st i)" "\<lambda>_. True" "\<lambda>_. True"
  by unfold_locales (auto simp: summary_put_def summary_get_def)

section \<open>The SQLite store holds the same summaries\<close>

definition summary_storable :: "'j summary_codec \<Rightarrow> TaskExecutionSummary \<Rightarrow> bool" where
  "summary_storable P s \<longleftrightarrow> load_summary P (dump_summary P s) = Inr s \<and> datetime_ok (sm_updated_at s)"

text \<open>The rows without the column that no query reads.\<close>

definition forget :: "'j summary_row \<Rightarrow> 'j summary_row" where
  "forget r = r\<lparr>sr_created_at := []\<rparr>"

definition summary_sim :: "'j summary_codec \<Rightarrow> 'j summary_row list \<Rightarrow> summary_store \<Rightarrow> bool" where
  "summary_sim P db st \<longleftrightarrow> map forget db = map (\<lambda>s. forget (summary_row_of P s)) (dict_values st)
     \<and> map fst st = map sm_summary_id (dict_values st) \<and> dict_ok st
     \<and> (\<forall>s \<in> set (dict_values st). summary_storable P s)"

lemma forget_simps [simp]:
  "sr_summary_id (forget r) = sr_summary_id r" "sr_session_id (forget r) = sr_session_id r"
  "sr_task_id (forget r) = sr_task_id r" "sr_kind (forget r) = sr_kind r"
  "sr_updated_at (forget r) = sr_updated_at r" "sr_payload (forget r) = sr_payload r"
  by (simp_all add: forget_def)

lemma summary_row_simps [simp]:
  "sr_summary_id (summary_row_of P s) = sm_summary_id s"
  "sr_session_id (summary_row_of P s) = sm_session_id s"
  "sr_task_id (summary_row_of P s) = sm_task_id s" "sr_kind (summary_row_of P s) = sm_kind s"
  "sr_updated_at (summary_row_of P s) = isoformat (sm_updated_at s)"
  "sr_payload (summary_row_of P s) = dump_summary P s"
  by (simp_all add: summary_row_of_def)

lemma sql_get_forget: "sql_summary_get P (map forget db) i = sql_summary_get P db i"
  by (simp add: sql_summary_get_def find_map option.case_eq_if option.map_sel)

lemma sql_get_for_task_forget:
  "sql_summary_get_for_task P (map forget db) s t k = sql_summary_get_for_task P db s t k"
  by (simp add: sql_summary_get_for_task_def Let_def filter_map comp_def sort_key_map last_map
      cong: option.case_cong)

lemma summary_ids:
  assumes "summary_sim P db st"
  shows "map sr_summary_id db = map fst st"
proof -
  have "map sr_summary_id db = map sr_summary_id (map forget db)" by simp
  also have "\<dots> = map sr_summary_id (map (\<lambda>s. forget (summary_row_of P s)) (dict_values st))"
    using assms by (simp only: summary_sim_def)
  also have "\<dots> = map sm_summary_id (dict_values st)" by simp
  also have "\<dots> = map fst st" using assms by (simp only: summary_sim_def)
  finally show ?thesis .
qed

lemma summary_sim_put:
  assumes sim: "summary_sim P db st" and s: "summary_storable P s"
  shows "summary_sim P (sql_summary_put P db s) (summary_put st s)"
proof (cases "dict_get st (sm_summary_id s)")
  case None
  then have "sm_summary_id s \<notin> set (map sr_summary_id db)"
    unfolding summary_ids [OF sim] by (simp add: map_of_eq_None_iff)
  moreover from None have "sm_summary_id s \<notin> fst ` set st" by (simp add: map_of_eq_None_iff)
  ultimately show ?thesis using sim s None
    by (simp add: summary_sim_def sql_summary_put_def summary_put_def dict_set_fresh)
next
  case (Some old)
  then have mem: "sm_summary_id s \<in> set (map sr_summary_id db)"
    unfolding summary_ids [OF sim] by (force dest: map_of_SomeD)
  let ?new = "\<lambda>r. if sr_summary_id r = sm_summary_id s then forget (summary_row_of P s) else r"
  have put: "summary_put st s = map (\<lambda>e. if fst e = sm_summary_id s then (sm_summary_id s, s) else e) st"
    using sim Some by (simp add: summary_put_def summary_sim_def dict_set_map)
  have keys: "\<forall>e \<in> set st. fst e = sm_summary_id (snd e)"
    using sim by (simp add: summary_sim_def)
  have "map forget (sql_summary_put P db s) = map ?new (map forget db)"
    using mem by (auto simp: sql_summary_put_def Let_def forget_def)
  also have "\<dots> = map (\<lambda>s. forget (summary_row_of P s)) (dict_values (summary_put st s))"
    using sim keys by (auto simp: summary_sim_def put)
  finally have rows: "map forget (sql_summary_put P db s)
    = map (\<lambda>s. forget (summary_row_of P s)) (dict_values (summary_put st s))" .
  moreover have "dict_ok (summary_put st s)" using sim by (simp add: summary_sim_def summary_put_def)
  moreover have "map fst (summary_put st s) = map sm_summary_id (dict_values (summary_put st s))"
    using keys by (auto simp: put)
  moreover have "\<forall>x \<in> set (dict_values (summary_put st s)). summary_storable P x"
    using sim s by (auto simp: put summary_sim_def)
  ultimately show ?thesis unfolding summary_sim_def by blast
qed

lemma summary_sim_get:
  assumes "summary_sim P db st"
  shows "sql_summary_get P db i = Inr (summary_get st i)"
proof -
  define ss where "ss = dict_values st"
  have keys: "\<forall>e \<in> set st. fst e = sm_summary_id (snd e)"
    and ok: "\<forall>s \<in> set ss. summary_storable P s" using assms by (auto simp: summary_sim_def ss_def)
  have find: "find (\<lambda>s. sm_summary_id s = i) ss = dict_get st i"
    using keys unfolding ss_def by (induction st) auto
  have "sql_summary_get P db i = sql_summary_get P (map (\<lambda>s. forget (summary_row_of P s)) ss) i"
    using assms sql_get_forget [of P db] unfolding ss_def summary_sim_def by metis
  also have "\<dots> = Inr (summary_get st i)"
  proof (cases "dict_get st i")
    case (Some s)
    then have "summary_storable P s" using ok dict_get_mem unfolding ss_def by metis
    with Some find show ?thesis
      by (simp add: sql_summary_get_def find_map summary_get_def summary_storable_def)
  qed (simp add: find sql_summary_get_def find_map summary_get_def)
  finally show ?thesis .
qed

lemma summary_sim_get_for_task:
  assumes "summary_sim P db st"
  shows "sql_summary_get_for_task P db s t k = Inr (summary_get_for_task st s t k)"
proof -
  define ss where "ss = dict_values st"
  let ?hits = "filter (\<lambda>x. sm_session_id x = s \<and> sm_task_id x = t
    \<and> (case k of None \<Rightarrow> True | Some k \<Rightarrow> sm_kind x = k)) ss"
  have ok: "\<forall>x \<in> set ?hits. summary_storable P x" using assms by (auto simp: summary_sim_def ss_def)
  have order: "sort_key (\<lambda>x. isoformat (sm_updated_at x)) ?hits = sort_key sm_updated_at ?hits"
    using ok by (intro sort_key_cong_le) (auto simp: summary_storable_def isoformat_le)
  let ?row = "\<lambda>s. forget (summary_row_of P s)"
  have rows: "filter (\<lambda>r. sr_session_id r = s \<and> sr_task_id r = t
      \<and> (case k of None \<Rightarrow> True | Some k \<Rightarrow> sr_kind r = k)) (map ?row ss) = map ?row ?hits"
    by (induction ss) (auto split: option.splits)
  have sorted: "sort_key sr_updated_at (map ?row ?hits) = map ?row (sort_key sm_updated_at ?hits)"
    unfolding sort_key_map order [symmetric] by simp
  have mem: "summary_get_for_task st s t k
      = (if ?hits = [] then None else Some (last (sort_key sm_updated_at ?hits)))"
    unfolding summary_get_for_task_def Let_def ss_def ..
  have "sql_summary_get_for_task P db s t k
      = sql_summary_get_for_task P (map (\<lambda>s. forget (summary_row_of P s)) ss) s t k"
    using assms sql_get_for_task_forget [of P db] unfolding ss_def summary_sim_def by metis
  also have "\<dots> = (if ?hits = [] then Inr None
      else map_ok Some (load_summary P (dump_summary P (last (sort_key sm_updated_at ?hits)))))"
    unfolding sql_summary_get_for_task_def Let_def rows sorted by (simp add: last_map)
  also have "\<dots> = Inr (summary_get_for_task st s t k)"
  proof (cases "?hits = []")
    case False
    then have "last (sort_key sm_updated_at ?hits) \<in> set ?hits"
      by (rule last_sort_key_mem)
    with ok have "summary_storable P (last (sort_key sm_updated_at ?hits))" by blast
    with False show ?thesis by (simp add: mem summary_storable_def)
  qed (simp add: mem)
  finally show ?thesis .
qed

interpretation sql_summaries: execution_summary_store
  "sql_summary_put P" "sql_summary_get P" "\<lambda>db. \<exists>st. summary_sim P db st" "summary_storable P" for P
proof unfold_locales
  fix db s
  assume "\<exists>st. summary_sim P db st" "summary_storable P s"
  then show "\<exists>st. summary_sim P (sql_summary_put P db s) st" using summary_sim_put by blast
next
  fix db s i
  assume "\<exists>st. summary_sim P db st" "summary_storable P s"
  then obtain st where st: "summary_sim P db st" "summary_sim P (sql_summary_put P db s) (summary_put st s)"
    using summary_sim_put by blast
  show "sql_summary_get P (sql_summary_put P db s) i
      = (if i = sm_summary_id s then Inr (Some s) else sql_summary_get P db i)"
    unfolding summary_sim_get [OF st(1)] summary_sim_get [OF st(2)] mem_summaries.get_put [OF TrueI TrueI] ..
qed

section \<open>Properties\<close>

text \<open>The SQLite summary store answers as the in-memory one: after any sequence of writes, reading
  by identifier and reading the latest summary of a task, of one kind or of both, give the same.\<close>

theorem sqlite_summaries_as_memory:
  assumes "\<forall>s \<in> set ss. summary_storable P s"
  shows "sql_summary_get P (foldl (sql_summary_put P) [] ss) i = Inr (summary_get (foldl summary_put [] ss) i)
    \<and> sql_summary_get_for_task P (foldl (sql_summary_put P) [] ss) s t k
      = Inr (summary_get_for_task (foldl summary_put [] ss) s t k)"
proof -
  have "summary_sim P db st \<Longrightarrow> summary_sim P (foldl (sql_summary_put P) db ss) (foldl summary_put st ss)" for db st
    using assms by (induction ss arbitrary: db st) (auto intro: summary_sim_put)
  from this [of "[]" "[]"] have "summary_sim P (foldl (sql_summary_put P) [] ss) (foldl summary_put [] ss)"
    by (simp add: summary_sim_def)
  then show ?thesis by (simp add: summary_sim_get summary_sim_get_for_task)
qed

definition sample_summary :: "string \<Rightarrow> nat \<Rightarrow> TaskExecutionSummary" where
  "sample_summary i sec = \<lparr>sm_summary_id = i, sm_session_id = ''s'', sm_task_id = ''t'',
     sm_kind = Result_kind, sm_source = Agent_loop, sm_title = ''T'', sm_summary = ''ok'',
     sm_stop_reason = None, sm_final_answer = None, sm_error_type = None, sm_error_message = None,
     sm_metadata = [], sm_created_at = Datetime 1 1 1 0 0 0 0, sm_updated_at = Datetime 1 1 1 0 0 sec 0\<rparr>"

definition sample_summary_codec :: "TaskExecutionSummary summary_codec" where
  "sample_summary_codec = \<lparr>dump_summary = (\<lambda>s. s), load_summary = TaskExecutionSummary_new\<rparr>"

theorem sqlite_summaries_as_memory_witness:
  "sql_summary_get_for_task sample_summary_codec (foldl (sql_summary_put sample_summary_codec) []
      [sample_summary ''a'' 3, sample_summary ''b'' 2, sample_summary ''a'' 1]) ''s'' ''t'' None
    = Inr (Some (sample_summary ''b'' 2))"
proof -
  have ok: "\<forall>s \<in> set [sample_summary ''a'' 3, sample_summary ''b'' 2, sample_summary ''a'' 1].
      summary_storable sample_summary_codec s"
    by (simp add: summary_storable_def sample_summary_codec_def sample_summary_def datetime_ok_def
        TaskExecutionSummary_new_def summary_fields_ok_def datetime_order)
  have "summary_get_for_task (foldl summary_put [] [sample_summary ''a'' 3, sample_summary ''b'' 2,
      sample_summary ''a'' 1]) ''s'' ''t'' None = Some (sample_summary ''b'' 2)" by code_simp
  then show ?thesis using sqlite_summaries_as_memory [OF ok] by metis
qed

definition addressed :: "string \<Rightarrow> TaskDomain \<Rightarrow> TaskExecutionSummaryKind \<Rightarrow> TaskExecutionSummary result \<Rightarrow> bool" where
  "addressed ref task kind r \<longleftrightarrow> (\<exists>s. r = Inr s \<and> TaskExecutionSummary_new s = Inr s \<and> sm_summary_id s = ref
     \<and> sm_session_id s = td_session_id task \<and> sm_task_id s = td_task_id task \<and> sm_kind s = kind)"

text \<open>The builders never fail on what the executor hands them: for a stored task, a non-empty
  reference and a clock that does not run backwards every builder returns a valid summary addressed by
  that reference, of the kind its name says; only the result builder for a finished loop also needs a
  non-empty stop reason.\<close>

theorem builders_total:
  assumes "td_session_id task \<noteq> []" "td_task_id task \<noteq> []" "ref \<noteq> []" "t0 \<le> t1" "exc_type_name exc \<noteq> []"
  shows "addressed ref task Error_kind (build_agent_loop_error_summary ref task stop answer t0 t1)
    \<and> addressed ref task Error_kind (build_execution_exception_summary ref task exc t0 t1)
    \<and> addressed ref task Result_kind (build_execution_completed_summary ref task t0 t1)
    \<and> addressed ref task Result_kind (build_external_result_ref_summary ref task t0 t1)
    \<and> addressed ref task Error_kind (build_external_error_ref_summary ref task t0 t1)
    \<and> (addressed ref task Result_kind (build_agent_loop_result_summary ref task answer stop t0 t1)
        \<longleftrightarrow> stop \<noteq> [])"
  using assms
  by (auto simp: addressed_def TaskExecutionSummary_new_def summary_fields_ok_def base_summary_def Let_def
      build_agent_loop_error_summary_def build_execution_exception_summary_def
      build_execution_completed_summary_def build_external_result_ref_summary_def
      build_external_error_ref_summary_def build_agent_loop_result_summary_def)

theorem builders_total_witness:
  "addressed ''ref'' (sample_task ''r'' None) Error_kind (build_execution_exception_summary ''ref''
      (sample_task ''r'' None) \<lparr>exc_type_name = ''ValueError'', exc_llm = None\<rparr> (sample_time 1) (sample_time 2))
   \<and> \<not> addressed ''ref'' (sample_task ''r'' None) Result_kind (build_agent_loop_result_summary ''ref''
      (sample_task ''r'' None) ''done'' [] (sample_time 1) (sample_time 2))"
proof -
  have "sample_time 1 \<le> sample_time 2" by (simp add: sample_time_def datetime_order)
  then show ?thesis
    using builders_total [of "sample_task ''r'' None" "''ref''" "sample_time 1" "sample_time 2"
        "\<lparr>exc_type_name = ''ValueError'', exc_llm = None\<rparr>" "[]" "''done''"]
    by (simp add: sample_task_def)
qed

end
