(* ===== verification/Autonomy.thy ===== *)
theory Autonomy
  imports Prelude
begin

text \<open>
  The "ask the user or not" decision: \<^verbatim>\<open>interaction/risk.py\<close> (assessments and the three
  assessors), \<^verbatim>\<open>interaction/autonomy.py\<close> (behaviours and presets) and
  \<^verbatim>\<open>interaction/gate.py\<close> (\<open>AutonomyGate.check\<close>).

  An action and an assessment context are opaque (\<open>'a\<close>, \<open>'c\<close>); the class attribute
  \<open>baseline_risk\<close> of an action is the argument \<open>baseline_risk\<close>. The language model is the
  argument \<open>chat\<close>, which receives the action, the context and the baseline and raises or returns
  the reply text; \<open>json.loads\<close>, \<open>float(...)\<close>, \<open>str(...)\<close> and \<open>repr(...)\<close> are
  the fields of \<open>reply_parser\<close>. The prompt text of \<open>_build_user_payload\<close> and the log
  records of \<open>_logged_decision\<close> are left out. The \<open>:.2f\<close> renderings of a decision's reason
  are kept as the numbers they render. The literal \<open>0.3\<close> is the double it denotes.
\<close>

section \<open>Risk assessments\<close>

record RiskAssessment =
  ra_baseline :: pyfloat
  ra_dynamic :: pyfloat
  ra_rationale :: "string list"
  ra_assessor :: string

definition validate_score :: "string \<Rightarrow> pyfloat \<Rightarrow> py_error option" where
  "validate_score name value =
     (if \<not> (fle (Fin 0) value \<and> fle value (Fin 1))
      then Some (ValueError (Msg ''{} out of range; must satisfy 0.0 <= {} <= 1.0'' [name, name]))
      else None)"

text \<open>\<open>RiskAssessment(...)\<close>: the constructor with its \<open>__post_init__\<close>.\<close>

definition RiskAssessment_new ::
  "pyfloat \<Rightarrow> pyfloat \<Rightarrow> string list \<Rightarrow> string \<Rightarrow> RiskAssessment result" where
  "RiskAssessment_new baseline dynamic rationale assessor =
     (case validate_score ''baseline'' baseline of
        Some e \<Rightarrow> Inl e
      | None \<Rightarrow>
          (case validate_score ''dynamic'' dynamic of
             Some e \<Rightarrow> Inl e
           | None \<Rightarrow>
               if flt dynamic baseline
               then Inl (ValueError (Msg
                 ''dynamic must be >= baseline; assessors can only raise risk, not lower it'' []))
               else Inr \<lparr>ra_baseline = baseline, ra_dynamic = dynamic,
                      ra_rationale = rationale, ra_assessor = assessor\<rparr>))"

definition ra_final :: "RiskAssessment \<Rightarrow> pyfloat" where
  "ra_final r = py_max (ra_baseline r) (ra_dynamic r)"

definition with_dynamic ::
  "RiskAssessment \<Rightarrow> pyfloat \<Rightarrow> string \<Rightarrow> string \<Rightarrow> RiskAssessment result" where
  "with_dynamic r dynamic rationale assessor =
     (if flt dynamic (ra_dynamic r)
      then Inl (ValueError (Msg
        ''composite update would lower dynamic; assessors can only raise risk'' []))
      else RiskAssessment_new (ra_baseline r) dynamic (ra_rationale r @ [rationale]) assessor)"

section \<open>Assessors\<close>

type_synonym ('a, 'c) assessor = "'a \<Rightarrow> 'c \<Rightarrow> RiskAssessment result"

text \<open>\<open>BaselineOnlyAssessor.assess\<close>.\<close>

definition baseline_only_assess ::
  "string \<Rightarrow> ('a \<Rightarrow> pyfloat) \<Rightarrow> ('a, 'c) assessor" where
  "baseline_only_assess name baseline_risk action context =
     RiskAssessment_new (baseline_risk action) (baseline_risk action)
       [''static baseline; no dynamic evaluation''] name"

text \<open>An exception by its class name and its text.\<close>

datatype exn = Exn string string

text \<open>\<open>_JSON_OBJECT_RE.search\<close>, the pattern \<^verbatim>\<open>\{.*\}\<close> with \<open>DOTALL\<close>: the leftmost
  opening brace and, since the star is greedy, the last closing brace after it.\<close>

definition json_object_search :: "string \<Rightarrow> string option" where
  "json_object_search content =
     (let tail = dropWhile (\<lambda>c. c \<noteq> CHR ''{'') content;
          m = rev (dropWhile (\<lambda>c. c \<noteq> CHR ''}'') (rev tail))
      in if m = [] then None else Some m)"

record reply_parser =
  json_loads :: "string \<Rightarrow> exn + json"
  float_of :: "json \<Rightarrow> exn + pyfloat"
  str_of :: "json \<Rightarrow> string"
  repr_str :: "string \<Rightarrow> string"
  repr_json :: "json \<Rightarrow> string"

text \<open>\<open>LLMRiskAssessor._parse\<close>.\<close>

definition parse_reply :: "reply_parser \<Rightarrow> string \<Rightarrow> exn + (pyfloat \<times> string)" where
  "parse_reply P content =
     (if content = [] \<or> blank content
      then Inl (Exn ''ValueError'' ''LLM returned empty content'')
      else case json_object_search content of
             None \<Rightarrow> Inl (Exn ''ValueError'' (''no JSON object in LLM reply: '' @ repr_str P content))
           | Some text \<Rightarrow>
               (case json_loads P text of
                  Inl e \<Rightarrow> Inl e
                | Inr (JObj payload) \<Rightarrow>
                    (case map_of payload ''score'' of
                       None \<Rightarrow> Inl (Exn ''ValueError''
                         (''LLM JSON missing 'score' field: '' @ repr_json P (JObj payload)))
                     | Some raw \<Rightarrow>
                         (case float_of P raw of
                            Inl e \<Rightarrow> Inl e
                          | Inr score \<Rightarrow>
                              let rationale = strip (case map_of payload ''rationale'' of
                                                       None \<Rightarrow> [] | Some v \<Rightarrow> str_of P v)
                              in Inr (score, if rationale = [] then ''(no rationale provided)''
                                             else rationale)))
                | Inr payload \<Rightarrow> Inl (Exn ''ValueError''
                    (''LLM JSON is not an object: '' @ repr_json P payload))))"

text \<open>\<open>LLMRiskAssessor.assess\<close>: whatever fails between the prompt and the parsed score gives the
  baseline, a score is clamped into \<open>[baseline, 1.0]\<close>.\<close>

definition llm_assess ::
  "reply_parser \<Rightarrow> string \<Rightarrow> ('a \<Rightarrow> pyfloat) \<Rightarrow> ('a \<Rightarrow> 'c \<Rightarrow> pyfloat \<Rightarrow> exn + string)
     \<Rightarrow> ('a, 'c) assessor" where
  "llm_assess P name baseline_risk chat action context =
     (let baseline = baseline_risk action
      in case (case chat action context baseline of
                 Inl e \<Rightarrow> Inl e
               | Inr content \<Rightarrow> parse_reply P content) of
           Inl (Exn ty text) \<Rightarrow>
             RiskAssessment_new baseline baseline
               [''llm assessor '' @ repr_str P name @ '' failed ('' @ ty @ '': '' @ text
                  @ ''); falling back to baseline''] name
         | Inr (score, rationale) \<Rightarrow>
             RiskAssessment_new baseline (py_max baseline (py_min score (Fin 1)))
               [rationale] name)"

text \<open>The loop of \<open>CompositeAssessor.assess\<close> over \<open>assessors[1:]\<close>.\<close>

fun composite_links ::
  "('a, 'c) assessor list \<Rightarrow> 'a \<Rightarrow> 'c \<Rightarrow> pyfloat \<times> pyfloat \<times> string list
     \<Rightarrow> (pyfloat \<times> pyfloat \<times> string list) result" where
  "composite_links [] action context acc = Inr acc"
| "composite_links (asr # asrs) action context (baseline, running_dynamic, rationales) =
     (case asr action context of
        Inl e \<Rightarrow> Inl e
      | Inr link \<Rightarrow>
          composite_links asrs action context
            (py_max baseline (ra_baseline link), py_max running_dynamic (ra_dynamic link),
             rationales @ ra_rationale link))"

definition composite_assess :: "string \<Rightarrow> ('a, 'c) assessor list \<Rightarrow> ('a, 'c) assessor" where
  "composite_assess name assessors action context =
     (case assessors of
        [] \<Rightarrow> Inl (ValueError (Msg
          ''CompositeAssessor requires at least one assessor; got empty tuple'' []))
      | first # rest \<Rightarrow>
          (case first action context of
             Inl e \<Rightarrow> Inl e
           | Inr result \<Rightarrow>
               (case composite_links rest action context
                       (ra_baseline result, ra_dynamic result, ra_rationale result) of
                  Inl e \<Rightarrow> Inl e
                | Inr (baseline, dynamic, rationales) \<Rightarrow>
                    RiskAssessment_new baseline dynamic rationales name)))"

section \<open>Behaviours and presets\<close>

datatype AutonomyTrigger = Never | On_risk | On_uncertainty | Always
datatype WaitStrategy = Sync | Async
datatype TimeoutAction = Wait | Proceed_default | Proceed_confident | Skip_action

record AutonomyBehavior =
  trigger :: AutonomyTrigger
  risk_threshold :: pyfloat
  confidence_threshold :: pyfloat
  wait_strategy :: WaitStrategy
  wait_timeout :: "pyfloat option"
  timeout_action :: TimeoutAction
  notify_on_proceed :: bool

definition default_behavior :: AutonomyBehavior where
  "default_behavior = \<lparr>trigger = On_risk, risk_threshold = Fin (1/2),
     confidence_threshold = Fin (1/2), wait_strategy = Sync, wait_timeout = Some (Fin 300),
     timeout_action = Proceed_default, notify_on_proceed = True\<rparr>"

definition validate_unit_interval :: "string \<Rightarrow> pyfloat \<Rightarrow> py_error option" where
  "validate_unit_interval name value =
     (if \<not> (fle (Fin 0) value \<and> fle value (Fin 1))
      then Some (ValueError (Msg ''{} must lie in [0.0, 1.0]'' [name])) else None)"

text \<open>\<open>AutonomyBehavior.__post_init__\<close>; the last branch of the source does nothing.\<close>

definition AutonomyBehavior_validate :: "AutonomyBehavior \<Rightarrow> AutonomyBehavior result" where
  "AutonomyBehavior_validate b =
     (case validate_unit_interval ''risk_threshold'' (risk_threshold b) of
        Some e \<Rightarrow> Inl e
      | None \<Rightarrow>
          (case validate_unit_interval ''confidence_threshold'' (confidence_threshold b) of
             Some e \<Rightarrow> Inl e
           | None \<Rightarrow>
               (case wait_timeout b of
                  None \<Rightarrow> Inr b
                | Some t \<Rightarrow>
                    if fle t (Fin 0)
                    then Inl (ValueError (Msg ''wait_timeout must be positive or None'' []))
                    else Inr b)))"

definition full_auto :: AutonomyBehavior where
  "full_auto = default_behavior\<lparr>trigger := Never, wait_strategy := Async, wait_timeout := None,
     timeout_action := Proceed_default, notify_on_proceed := False\<rparr>"

definition risk_gated :: AutonomyBehavior where
  "risk_gated = default_behavior\<lparr>trigger := On_risk, risk_threshold := Fin (1/2),
     wait_strategy := Sync, wait_timeout := Some (Fin 300),
     timeout_action := Proceed_default, notify_on_proceed := True\<rparr>"

definition careful :: AutonomyBehavior where
  "careful = default_behavior\<lparr>trigger := On_risk, risk_threshold := Fin (5404319552844595 / 18014398509481984),
     wait_strategy := Sync, wait_timeout := Some (Fin 600),
     timeout_action := Proceed_default, notify_on_proceed := True\<rparr>"

definition collaborative :: AutonomyBehavior where
  "collaborative = default_behavior\<lparr>trigger := On_uncertainty, confidence_threshold := Fin (1/2),
     wait_strategy := Sync, wait_timeout := None, timeout_action := Wait,
     notify_on_proceed := True\<rparr>"

definition manual :: AutonomyBehavior where
  "manual = default_behavior\<lparr>trigger := Always, wait_strategy := Sync, wait_timeout := None,
     timeout_action := Wait, notify_on_proceed := True\<rparr>"

definition AUTONOMY_PRESETS :: "(string, AutonomyBehavior) dict" where
  "AUTONOMY_PRESETS = [(''full_auto'', full_auto), (''risk_gated'', risk_gated),
     (''careful'', careful), (''collaborative'', collaborative), (''manual'', manual)]"

definition get_preset :: "string \<Rightarrow> AutonomyBehavior result" where
  "get_preset name =
     (case dict_get AUTONOMY_PRESETS name of
        Some b \<Rightarrow> Inr b
      | None \<Rightarrow> Inl (KeyError (Msg ''unknown autonomy preset {!r}; valid: {}''
          [name, ''careful, collaborative, full_auto, manual, risk_gated''])))"

section \<open>The gate\<close>

datatype GateVerdict = PROCEED | EMIT

datatype gate_reason =
    Trigger_never
  | Trigger_always
  | Risk_at_least pyfloat pyfloat
  | Risk_below pyfloat pyfloat
  | Confidence_below pyfloat pyfloat
  | Confidence_at_least pyfloat pyfloat

record GateDecision =
  verdict :: GateVerdict
  risk_assessment :: RiskAssessment
  inform_user :: bool
  reason :: gate_reason

definition inform_on_proceed :: "AutonomyBehavior \<Rightarrow> RiskAssessment \<Rightarrow> bool" where
  "inform_on_proceed behavior assessment \<longleftrightarrow>
     notify_on_proceed behavior \<and> flt (Fin 0) (ra_final assessment)"

definition confidence :: "('a \<Rightarrow> pyfloat) option \<Rightarrow> 'a \<Rightarrow> pyfloat result" where
  "confidence provider action =
     (case provider of
        None \<Rightarrow> Inr (Fin 1)
      | Some p \<Rightarrow>
          let value = p action
          in if \<not> (fle (Fin 0) value \<and> fle value (Fin 1))
             then Inl (ValueError (Msg ''confidence_provider must be in [0, 1]'' []))
             else Inr value)"

text \<open>\<open>AutonomyGate.check\<close>.\<close>

definition gate_check ::
  "AutonomyBehavior \<Rightarrow> ('a, 'c) assessor \<Rightarrow> ('a \<Rightarrow> pyfloat) option \<Rightarrow> 'a \<Rightarrow> 'c
     \<Rightarrow> GateDecision result" where
  "gate_check behavior assess provider action context =
     (case assess action context of
        Inl e \<Rightarrow> Inl e
      | Inr assessment \<Rightarrow>
          let proceed = (\<lambda>why. \<lparr>verdict = PROCEED, risk_assessment = assessment,
                inform_user = inform_on_proceed behavior assessment, reason = why\<rparr>);
              emit = (\<lambda>why. \<lparr>verdict = EMIT, risk_assessment = assessment,
                inform_user = False, reason = why\<rparr>)
          in case trigger behavior of
               Never \<Rightarrow> Inr (proceed Trigger_never)
             | Always \<Rightarrow> Inr (emit Trigger_always)
             | On_risk \<Rightarrow>
                 let threshold = risk_threshold behavior
                 in if fle threshold (ra_final assessment)
                    then Inr (emit (Risk_at_least (ra_final assessment) threshold))
                    else Inr (proceed (Risk_below (ra_final assessment) threshold))
             | On_uncertainty \<Rightarrow>
                 (case confidence provider action of
                    Inl e \<Rightarrow> Inl e
                  | Inr conf \<Rightarrow>
                      let threshold = confidence_threshold behavior
                      in if flt conf threshold
                         then Inr (emit (Confidence_below conf threshold))
                         else Inr (proceed (Confidence_at_least conf threshold))))"

section \<open>What the constructor guarantees\<close>

definition ra_valid :: "RiskAssessment \<Rightarrow> bool" where
  "ra_valid r \<longleftrightarrow> unit_interval (ra_baseline r) \<and> unit_interval (ra_dynamic r)
     \<and> fle (ra_baseline r) (ra_dynamic r)"

lemma unit_interval_refl: "unit_interval x \<Longrightarrow> fle x x"
  by (auto elim: unit_interval_cases)

lemma RiskAssessment_new_ok:
  assumes "unit_interval b" "unit_interval d" "fle b d"
  shows "RiskAssessment_new b d rs n
    = Inr \<lparr>ra_baseline = b, ra_dynamic = d, ra_rationale = rs, ra_assessor = n\<rparr>"
  using assms flt_asym [of d b]
  by (auto simp: RiskAssessment_new_def validate_score_def unit_interval_def)

lemma RiskAssessment_new_cases:
  assumes "RiskAssessment_new b d rs n = Inr r"
  shows "r = \<lparr>ra_baseline = b, ra_dynamic = d, ra_rationale = rs, ra_assessor = n\<rparr> \<and> ra_valid r"
proof -
  have "unit_interval b \<and> unit_interval d \<and> \<not> flt d b
    \<and> r = \<lparr>ra_baseline = b, ra_dynamic = d, ra_rationale = rs, ra_assessor = n\<rparr>"
    using assms by (auto simp: RiskAssessment_new_def validate_score_def unit_interval_def
        split: option.splits if_splits)
  moreover from this have "fle b d" by (auto elim!: unit_interval_cases)
  ultimately show ?thesis by (simp add: ra_valid_def)
qed

lemma ra_final_valid: "ra_valid r \<Longrightarrow> ra_final r = ra_dynamic r"
  by (simp add: ra_valid_def ra_final_def py_max_absorb)

section \<open>The contract of an assessor\<close>

text \<open>
  The protocol \<open>RiskAssessor\<close>: on an action whose class risk is a legal score the assessor
  returns, and what it returns keeps that score as its baseline.
\<close>

locale risk_assessor =
  fixes baseline_risk :: "'a \<Rightarrow> pyfloat"
    and assess :: "('a, 'c) assessor"
  assumes assess_total: "unit_interval (baseline_risk a) \<Longrightarrow> \<exists>r. assess a c = Inr r"
    and assess_valid: "assess a c = Inr r \<Longrightarrow> ra_valid r \<and> ra_baseline r = baseline_risk a"
begin

lemma assess_result:
  assumes "unit_interval (baseline_risk a)"
  shows "\<exists>r. assess a c = Inr r \<and> ra_valid r \<and> ra_baseline r = baseline_risk a"
  using assess_total [OF assms] assess_valid by blast

lemma assess_unit: "assess a c = Inr r \<Longrightarrow> unit_interval (baseline_risk a)"
  using assess_valid [of a c r] by (auto simp: ra_valid_def)

lemma final_bounds:
  assumes "assess a c = Inr r"
  shows "fle (baseline_risk a) (ra_final r)" "fle (ra_final r) (Fin 1)"
  using assess_valid [OF assms] by (auto simp: ra_final_valid) (auto simp: ra_valid_def unit_interval_def)

lemma gate_total:
  assumes "unit_interval (baseline_risk a)"
    and "\<And>p. provider = Some p \<Longrightarrow> unit_interval (p a)"
  shows "\<exists>d. gate_check b assess provider a c = Inr d"
proof -
  obtain r where "assess a c = Inr r" using assess_total [OF assms(1)] by blast
  moreover have "\<exists>conf. confidence provider a = Inr conf"
    using assms(2) by (cases provider) (auto simp: confidence_def unit_interval_def)
  ultimately show ?thesis
    by (cases "trigger b") (auto simp: gate_check_def Let_def)
qed

lemma gate_emits_at_baseline:
  assumes "unit_interval (baseline_risk a)" "trigger b = On_risk"
    and "fle (risk_threshold b) (baseline_risk a)"
  shows "\<exists>d. gate_check b assess provider a c = Inr d \<and> verdict d = EMIT \<and> \<not> inform_user d"
proof -
  obtain r where r: "assess a c = Inr r" using assess_total [OF assms(1)] by blast
  have "fle (risk_threshold b) (ra_final r)"
    using assms(3) final_bounds(1) [OF r] by (rule fle_trans)
  with r assms(2) show ?thesis by (simp add: gate_check_def Let_def)
qed

end

section \<open>The assessors keep the contract\<close>

interpretation baseline_only: risk_assessor br "baseline_only_assess name br" for name br
proof unfold_locales
  fix a c
  assume "unit_interval (br a)"
  then show "\<exists>r. baseline_only_assess name br a c = Inr r"
    by (simp add: baseline_only_assess_def RiskAssessment_new_ok unit_interval_refl)
next
  fix a c r
  assume "baseline_only_assess name br a c = Inr r"
  then show "ra_valid r \<and> ra_baseline r = br a"
    using RiskAssessment_new_cases by (fastforce simp: baseline_only_assess_def)
qed

lemma llm_assess_cases:
  obtains d rs where "llm_assess P name br chat a c = RiskAssessment_new (br a) d rs name"
    and "unit_interval (br a) \<Longrightarrow> unit_interval d \<and> fle (br a) d"
proof -
  have self: "unit_interval (br a) \<Longrightarrow> unit_interval (br a) \<and> fle (br a) (br a)"
    by (simp add: unit_interval_refl)
  consider e t where "(case chat a c (br a) of Inl e \<Rightarrow> Inl e | Inr x \<Rightarrow> parse_reply P x)
        = Inl (Exn e t)"
    | score why where "(case chat a c (br a) of Inl e \<Rightarrow> Inl e | Inr x \<Rightarrow> parse_reply P x)
        = Inr (score, why)"
    by (metis exn.exhaust prod.exhaust sum.exhaust)
  then show thesis
  proof cases
    case 1
    then show thesis using that [of "br a"] self by (simp add: llm_assess_def Let_def)
  next
    case 2
    then show thesis using that [of "py_max (br a) (py_min score (Fin 1))"] clamp_unit
      by (simp add: llm_assess_def Let_def)
  qed
qed

interpretation llm: risk_assessor br "llm_assess P name br chat" for P name br chat
proof unfold_locales
  fix a c
  assume "unit_interval (br a)"
  then show "\<exists>r. llm_assess P name br chat a c = Inr r"
    using llm_assess_cases [of P name br chat a c] RiskAssessment_new_ok by metis
next
  fix a c r
  assume "llm_assess P name br chat a c = Inr r"
  then show "ra_valid r \<and> ra_baseline r = br a"
    using llm_assess_cases [of P name br chat a c] RiskAssessment_new_cases
    by (metis RiskAssessment.select_convs(1))
qed

text \<open>
  The loop of the composite: with links that keep the contract the accumulated scores stay legal
  and ordered, the dynamic score is an upper bound of all links and the score of one of them.
\<close>

lemma composite_links_sound:
  assumes "\<forall>asr \<in> set asrs. \<exists>r. asr a c = Inr r \<and> ra_valid r \<and> ra_baseline r = b"
    and "unit_interval b" "unit_interval d" "fle b d"
  shows "\<exists>d' rs'. composite_links asrs a c (b, d, rs) = Inr (b, d', rs')
    \<and> unit_interval d' \<and> fle d d'
    \<and> (\<forall>asr \<in> set asrs. \<forall>r. asr a c = Inr r \<longrightarrow> fle (ra_dynamic r) d')
    \<and> (d' = d \<or> (\<exists>asr \<in> set asrs. \<exists>r. asr a c = Inr r \<and> ra_dynamic r = d'))"
  using assms
proof (induction asrs arbitrary: d rs)
  case Nil
  then show ?case by (simp add: unit_interval_refl)
next
  case (Cons asr asrs)
  from Cons.prems(1) obtain r where r: "asr a c = Inr r" "ra_valid r" "ra_baseline r = b" by auto
  let ?d = "py_max d (ra_dynamic r)"
  have ud: "unit_interval (ra_dynamic r)" using r(2) by (simp add: ra_valid_def)
  have b: "py_max b b = b" by (simp add: py_max_def)
  have up: "fle d ?d" "fle (ra_dynamic r) ?d"
    using py_max_upper [OF Cons.prems(3) ud] by auto
  have "\<exists>d' rs'. composite_links asrs a c (b, ?d, rs @ ra_rationale r) = Inr (b, d', rs')
    \<and> unit_interval d' \<and> fle ?d d'
    \<and> (\<forall>asr \<in> set asrs. \<forall>r. asr a c = Inr r \<longrightarrow> fle (ra_dynamic r) d')
    \<and> (d' = ?d \<or> (\<exists>asr \<in> set asrs. \<exists>r. asr a c = Inr r \<and> ra_dynamic r = d'))"
    using Cons.prems ud up by (intro Cons.IH) (auto intro: py_max_unit fle_trans)
  then obtain d' rs' where d': "composite_links asrs a c (b, ?d, rs @ ra_rationale r) = Inr (b, d', rs')"
    "unit_interval d'" "fle ?d d'"
    "\<forall>asr \<in> set asrs. \<forall>r. asr a c = Inr r \<longrightarrow> fle (ra_dynamic r) d'"
    "d' = ?d \<or> (\<exists>asr \<in> set asrs. \<exists>r. asr a c = Inr r \<and> ra_dynamic r = d')" by blast
  have "fle d d'" "fle (ra_dynamic r) d'" using up d'(3) by (auto intro: fle_trans)
  moreover have "?d = d \<or> ?d = ra_dynamic r" by (simp add: py_max_def)
  ultimately show ?case using d' r b by (intro exI [of _ d'] exI [of _ rs']) auto
qed

lemma composite_assess_sound:
  assumes "assessors \<noteq> []"
    and "\<forall>asr \<in> set assessors. \<exists>r. asr a c = Inr r \<and> ra_valid r \<and> ra_baseline r = b"
  shows "\<exists>r. composite_assess name assessors a c = Inr r \<and> ra_valid r \<and> ra_baseline r = b
    \<and> (\<forall>asr \<in> set assessors. \<forall>l. asr a c = Inr l \<longrightarrow> fle (ra_dynamic l) (ra_dynamic r))
    \<and> (\<exists>asr \<in> set assessors. \<exists>l. asr a c = Inr l \<and> ra_dynamic l = ra_dynamic r)"
proof -
  obtain first rest where as: "assessors = first # rest" using assms(1) by (cases assessors) auto
  with assms(2) obtain f where f: "first a c = Inr f" "ra_valid f" "ra_baseline f = b" by auto
  then have u: "unit_interval b" "unit_interval (ra_dynamic f)" "fle b (ra_dynamic f)"
    by (auto simp: ra_valid_def)
  obtain d rs where d: "composite_links rest a c (b, ra_dynamic f, ra_rationale f) = Inr (b, d, rs)"
      "unit_interval d" "fle (ra_dynamic f) d"
      "\<forall>asr \<in> set rest. \<forall>r. asr a c = Inr r \<longrightarrow> fle (ra_dynamic r) d"
      "d = ra_dynamic f \<or> (\<exists>asr \<in> set rest. \<exists>r. asr a c = Inr r \<and> ra_dynamic r = d)"
    using composite_links_sound [of rest a c b "ra_dynamic f" "ra_rationale f"] u assms(2) as by auto
  have "RiskAssessment_new b d rs name
      = Inr \<lparr>ra_baseline = b, ra_dynamic = d, ra_rationale = rs, ra_assessor = name\<rparr>"
    using u(1) d(2) fle_trans [OF u(3) d(3)] by (rule RiskAssessment_new_ok)
  moreover from this have "ra_valid \<lparr>ra_baseline = b, ra_dynamic = d, ra_rationale = rs, ra_assessor = name\<rparr>"
    using RiskAssessment_new_cases by blast
  ultimately show ?thesis using as f d by (auto simp: composite_assess_def)
qed

text \<open>A composite over assessors that keep the contract keeps it.\<close>

lemma composite_contract:
  assumes "assessors \<noteq> []" "\<forall>asr \<in> set assessors. risk_assessor br asr"
  shows "risk_assessor br (composite_assess name assessors)"
proof -
  have links: "\<forall>asr \<in> set assessors. \<exists>r. asr a c = Inr r \<and> ra_valid r \<and> ra_baseline r = br a"
    if "unit_interval (br a)" for a c
    using assms(2) risk_assessor.assess_result [of br _ a c] that by blast
  note sound = composite_assess_sound [OF assms(1) links]
  show ?thesis
  proof
    fix a c
    assume "unit_interval (br a)"
    from sound [OF this, of name c] show "\<exists>r. composite_assess name assessors a c = Inr r" by blast
  next
    fix a c r
    assume r: "composite_assess name assessors a c = Inr r"
    then obtain f where f: "f \<in> set assessors" "\<exists>l. f a c = Inr l"
      by (cases assessors) (auto simp: composite_assess_def split: sum.splits)
    then have "unit_interval (br a)" using assms(2) risk_assessor.assess_unit [of br f a c] by blast
    from sound [OF this, of name c] r show "ra_valid r \<and> ra_baseline r = br a" by auto
  qed
qed

text \<open>The assessors a gate can be configured with; \<open>CompositeAssessor.__post_init__\<close> rejects an
  empty tuple.\<close>

datatype ('a, 'c) assessor_config =
    Baseline_only string
  | Llm reply_parser string "'a \<Rightarrow> 'c \<Rightarrow> pyfloat \<Rightarrow> exn + string"
  | Composite string "('a, 'c) assessor_config list"

fun configured_assess :: "('a \<Rightarrow> pyfloat) \<Rightarrow> ('a, 'c) assessor_config \<Rightarrow> ('a, 'c) assessor" where
  "configured_assess br (Baseline_only name) = baseline_only_assess name br"
| "configured_assess br (Llm P name chat) = llm_assess P name br chat"
| "configured_assess br (Composite name asrs) = composite_assess name (map (configured_assess br) asrs)"

fun constructible :: "('a, 'c) assessor_config \<Rightarrow> bool" where
  "constructible (Composite name asrs) \<longleftrightarrow> asrs \<noteq> [] \<and> list_all constructible asrs"
| "constructible _ \<longleftrightarrow> True"

lemma configured_contract: "constructible s \<Longrightarrow> risk_assessor br (configured_assess br s)"
proof (induction s)
  case (Composite name asrs)
  then show ?case by (auto simp: list_all_iff intro!: composite_contract)
qed (simp_all add: baseline_only.risk_assessor_axioms llm.risk_assessor_axioms)

section \<open>Properties\<close>

text \<open>C36. A risky class is always put to the user: with the \<open>on_risk\<close> trigger and a class
  risk at or above the threshold, the gate returns EMIT, for every assessor that can be configured
  and whatever the language model answers or raises.\<close>

theorem gate_asks_at_class_risk:
  assumes "constructible s" "unit_interval (br a)" "trigger b = On_risk"
    and "fle (risk_threshold b) (br a)"
  shows "\<exists>d. gate_check b (configured_assess br s) provider a c = Inr d
    \<and> verdict d = EMIT \<and> \<not> inform_user d"
  using configured_contract [OF assms(1), of br] assms(2-4)
  by (rule risk_assessor.gate_emits_at_baseline)

text \<open>A parser for the witnesses, and a model that answers with a low score.\<close>

definition sample_parser :: reply_parser where
  "sample_parser = \<lparr>json_loads = (\<lambda>t. Inr (JObj [(''score'', JInt 0)])),
     float_of = (\<lambda>j. case j of JInt n \<Rightarrow> Inr (Fin (of_int n)) | _ \<Rightarrow> Inl (Exn ''TypeError'' [])),
     str_of = (\<lambda>_. []), repr_str = (\<lambda>t. t), repr_json = (\<lambda>_. [])\<rparr>"

definition sample_assessor :: "(nat, unit) assessor_config" where
  "sample_assessor = Composite ''composite'' [Baseline_only ''baseline-only'',
     Llm sample_parser ''llm'' (\<lambda>_ _ _. Inr ''{score: 0}''),
     Llm sample_parser ''llm'' (\<lambda>_ _ _. Inl (Exn ''TimeoutError'' []))]"

theorem gate_asks_at_class_risk_witness:
  "\<exists>d. gate_check risk_gated (configured_assess (\<lambda>n. Fin (of_nat n / 10)) sample_assessor) None 6 ()
      = Inr d \<and> verdict d = EMIT \<and> \<not> inform_user d"
  by (rule gate_asks_at_class_risk)
    (simp_all add: sample_assessor_def risk_gated_def default_behavior_def)

text \<open>C40. Assessors only raise risk: a composite over working assessors returns, keeps the class
  risk as its baseline, and its final score is the largest final score of its links.\<close>

theorem composite_is_maximum:
  assumes "asrs \<noteq> []" "list_all constructible asrs" "unit_interval (br a)"
  shows "\<exists>r. configured_assess br (Composite name asrs) a c = Inr r \<and> ra_baseline r = br a
    \<and> (\<forall>s \<in> set asrs. \<exists>l. configured_assess br s a c = Inr l \<and> fle (ra_final l) (ra_final r))
    \<and> (\<exists>s \<in> set asrs. \<exists>l. configured_assess br s a c = Inr l \<and> ra_final l = ra_final r)"
proof -
  have links: "\<exists>l. configured_assess br s a c = Inr l \<and> ra_valid l \<and> ra_baseline l = br a"
    if "s \<in> set asrs" for s
    using that assms(2,3) configured_contract [of s br]
      risk_assessor.assess_result [of br "configured_assess br s" a c]
    by (simp add: list_all_iff)
  let ?as = "map (configured_assess br) asrs"
  have "\<forall>asr \<in> set ?as. \<exists>r. asr a c = Inr r \<and> ra_valid r \<and> ra_baseline r = br a"
    using links by auto
  then obtain r where r: "composite_assess name ?as a c = Inr r" "ra_valid r" "ra_baseline r = br a"
      "\<forall>asr \<in> set ?as. \<forall>l. asr a c = Inr l \<longrightarrow> fle (ra_dynamic l) (ra_dynamic r)"
      "\<exists>asr \<in> set ?as. \<exists>l. asr a c = Inr l \<and> ra_dynamic l = ra_dynamic r"
    using composite_assess_sound [of ?as a c "br a" name] assms(1) by auto
  have "\<exists>l. configured_assess br s a c = Inr l \<and> fle (ra_final l) (ra_final r)" if "s \<in> set asrs" for s
    using links [OF that] r(2,4) that by (auto simp: ra_final_valid)
  moreover from r(5) obtain s l where s: "s \<in> set asrs" "configured_assess br s a c = Inr l"
    "ra_dynamic l = ra_dynamic r" by auto
  moreover have "ra_final l = ra_final r" using links [OF s(1)] s r(2) by (auto simp: ra_final_valid)
  ultimately show ?thesis using r(1,3) by auto
qed

theorem composite_is_maximum_witness:
  "\<exists>r. configured_assess (\<lambda>n. Fin (of_nat n / 10)) (Composite ''risk'' [Baseline_only ''b'', sample_assessor]) 6 ()
      = Inr r \<and> ra_baseline r = Fin (of_nat 6 / 10)
    \<and> (\<forall>s \<in> set [Baseline_only ''b'', sample_assessor]. \<exists>l.
         configured_assess (\<lambda>n. Fin (of_nat n / 10)) s 6 () = Inr l \<and> fle (ra_final l) (ra_final r))
    \<and> (\<exists>s \<in> set [Baseline_only ''b'', sample_assessor]. \<exists>l.
         configured_assess (\<lambda>n. Fin (of_nat n / 10)) s 6 () = Inr l \<and> ra_final l = ra_final r)"
  by (rule composite_is_maximum) (simp_all add: sample_assessor_def)

text \<open>What the reply parser cuts out of the model's reply: from the first opening brace to the
  last closing brace, across everything between them, and nothing exactly when no closing brace
  follows an opening one.\<close>

theorem json_object_search_spans:
  "(case json_object_search content of
      None \<Rightarrow> \<nexists>p m q. content = p @ CHR ''{'' # m @ CHR ''}'' # q
    | Some text \<Rightarrow> \<exists>p m q. content = p @ text @ q \<and> text = CHR ''{'' # m @ [CHR ''}'']
        \<and> CHR ''{'' \<notin> set p \<and> CHR ''}'' \<notin> set q)"
proof -
  let ?open = "\<lambda>c. c \<noteq> CHR ''{''" and ?close = "\<lambda>c. c \<noteq> CHR ''}''"
  let ?p = "takeWhile ?open content" and ?tail = "dropWhile ?open content"
  let ?m = "rev (dropWhile ?close (rev ?tail))" and ?q = "rev (takeWhile ?close (rev ?tail))"
  have p: "CHR ''{'' \<notin> set ?p" and q: "CHR ''}'' \<notin> set ?q" by (auto dest: set_takeWhileD)
  have tail: "?tail = ?m @ ?q" by (metis rev_append rev_rev_ident takeWhile_dropWhile_id)
  then have content: "content = ?p @ ?m @ ?q" by (metis takeWhile_dropWhile_id)
  show ?thesis
  proof (cases "?m = []")
    case True
    have "\<nexists>p' m' q'. content = p' @ CHR ''{'' # m' @ CHR ''}'' # q'"
    proof
      assume "\<exists>p' m' q'. content = p' @ CHR ''{'' # m' @ CHR ''}'' # q'"
      then obtain p' m' q' where c: "content = p' @ CHR ''{'' # m' @ CHR ''}'' # q'" by blast
      have "CHR ''}'' \<in> set ?tail"
        by (cases "CHR ''{'' \<in> set p'") (auto simp: c dropWhile_append2 dropWhile_append3 dropWhile_append1)
      with True tail q show False by (metis append_Nil)
    qed
    then show ?thesis using True by (simp add: json_object_search_def Let_def)
  next
    case False
    have "hd (dropWhile ?close (rev ?tail)) = CHR ''}''" using False hd_dropWhile [of ?close "rev ?tail"] by auto
    then have last: "last ?m = CHR ''}''" using False by (simp add: last_rev)
    have "?tail \<noteq> []" using False tail by (metis append_is_Nil_conv)
    then have "hd ?tail = CHR ''{''" using hd_dropWhile [of ?open content] by auto
    then have "hd ?m = CHR ''{''" using False tail by (metis hd_append2)
    then obtain m where "?m = CHR ''{'' # m" using False by (metis list.exhaust_sel)
    moreover from this last have "m \<noteq> [] \<and> last m = CHR ''}''" by (auto split: if_splits)
    then have "m = butlast m @ [CHR ''}'']" by (metis append_butlast_last_id)
    ultimately have "?m = CHR ''{'' # butlast m @ [CHR ''}'']" by simp
    with content p q have "\<exists>p m q. content = p @ ?m @ q \<and> ?m = CHR ''{'' # m @ [CHR ''}'']
        \<and> CHR ''{'' \<notin> set p \<and> CHR ''}'' \<notin> set q" by blast
    moreover have "json_object_search content = Some ?m"
      using False by (simp add: json_object_search_def Let_def)
    ultimately show ?thesis by (simp only: option.case)
  qed
qed

end
