(* ===== verification/Message_Stream.thy ===== *)
theory Message_Stream
  imports Autonomy Datetime
begin

text \<open>
  \<open>AgentMessage\<close> (\<^verbatim>\<open>interaction/message.py\<close>) and \<open>SqliteMessageStream\<close>
  (\<^verbatim>\<open>interaction/sqlite_message_stream.py\<close>): the message log of the users and agents.

  The table is the list of its rows in the order of the AUTOINCREMENT column \<open>id\<close>; rows are
  never updated or deleted, so a SELECT with \<open>ORDER BY created_at, id\<close> is a filter and a stable
  sort by the TEXT column \<open>created_at\<close>. \<open>json.dumps\<close>, \<open>json.loads\<close>,
  \<open>datetime.fromisoformat\<close> and \<open>float(...)\<close> are the fields of \<open>message_codec\<close>. Opening
  and closing the connection is left out.
\<close>

section \<open>Messages\<close>

datatype MessageType = Informational | Actionable | Response

datatype ResponseSource =
  Source_user | Timeout_default | Timeout_confident | Timeout_skip | Auto_proceed

record AgentMessage =
  am_message_id :: string
  am_session_id :: string
  am_task_id :: "string option"
  am_agent_id :: string
  am_parent_message_id :: "string option"
  am_message_type :: MessageType
  am_content :: string
  am_context :: "(string, json) dict"
  am_action_options :: "string list"
  am_requires_response :: bool
  am_timeout_seconds :: "pyfloat option"
  am_risk_assessment :: "RiskAssessment option"
  am_related_action_id :: "string option"
  am_response_source :: "ResponseSource option"
  am_response_value :: "string option"
  am_created_at :: datetime

text \<open>The values of the two \<open>Literal\<close> types.\<close>

fun message_type_str :: "MessageType \<Rightarrow> string" where
  "message_type_str Informational = ''informational''"
| "message_type_str Actionable = ''actionable''"
| "message_type_str Response = ''response''"

fun response_source_str :: "ResponseSource \<Rightarrow> string" where
  "response_source_str Source_user = ''user''"
| "response_source_str Timeout_default = ''timeout_default''"
| "response_source_str Timeout_confident = ''timeout_confident''"
| "response_source_str Timeout_skip = ''timeout_skip''"
| "response_source_str Auto_proceed = ''auto_proceed''"

text \<open>Reading a \<open>Literal\<close> field back: a value outside the list is a validation error.\<close>

definition literal_of :: "('a \<Rightarrow> string) \<Rightarrow> 'a list \<Rightarrow> string \<Rightarrow> 'a result" where
  "literal_of str vs s =
     (case find (\<lambda>v. str v = s) vs of
        None \<Rightarrow> Inl (ValidationError (Msg ''AgentMessage'' [s]))
      | Some v \<Rightarrow> Inr v)"

definition message_type_of :: "string \<Rightarrow> MessageType result" where
  "message_type_of = literal_of message_type_str [Informational, Actionable, Response]"

definition response_source_of :: "string \<Rightarrow> ResponseSource result" where
  "response_source_of = literal_of response_source_str
     [Source_user, Timeout_default, Timeout_confident, Timeout_skip, Auto_proceed]"

section \<open>Rows\<close>

record 'j message_codec =
  dumps_sorted :: "json \<Rightarrow> 'j"
  loads_text :: "'j \<Rightarrow> json result"
  fromisoformat :: "string \<Rightarrow> datetime result"
  to_float :: "json \<Rightarrow> pyfloat result"
  to_str :: "json \<Rightarrow> string"

record 'j message_row =
  mr_message_id :: string
  mr_session_id :: string
  mr_task_id :: "string option"
  mr_agent_id :: string
  mr_parent_message_id :: "string option"
  mr_message_type :: string
  mr_content :: string
  mr_context_json :: 'j
  mr_action_options_json :: 'j
  mr_requires_response :: int
  mr_timeout_seconds :: "pyfloat option"
  mr_risk_json :: "'j option"
  mr_related_action_id :: "string option"
  mr_response_source :: "string option"
  mr_response_value :: "string option"
  mr_created_at :: string

text \<open>\<open>RiskAssessment.to_dict\<close> and \<open>from_dict\<close>.\<close>

definition risk_to_dict :: "RiskAssessment \<Rightarrow> json" where
  "risk_to_dict r = JObj [(''baseline'', JFloat (ra_baseline r)), (''dynamic'', JFloat (ra_dynamic r)),
     (''rationale'', JArr (map JStr (ra_rationale r))), (''assessor'', JStr (ra_assessor r))]"

fun str_items :: "json list \<Rightarrow> string list result" where
  "str_items [] = Inr []"
| "str_items (JStr s # js) = map_ok (\<lambda>ss. s # ss) (str_items js)"
| "str_items (_ # js) = Inl (ValidationError (Msg ''str items'' []))"

definition risk_from_dict :: "'j message_codec \<Rightarrow> (string, json) dict \<Rightarrow> RiskAssessment result" where
  "risk_from_dict P data =
     (case (dict_get data ''baseline'', dict_get data ''dynamic'') of
        (Some b, Some d) \<Rightarrow>
          (case (to_float P b, to_float P d) of
             (Inr baseline, Inr dynamic) \<Rightarrow>
               (case (case dict_get data ''rationale'' of
                        None \<Rightarrow> Inr []
                      | Some (JArr js) \<Rightarrow> str_items js
                      | Some _ \<Rightarrow> Inl (ValidationError (Msg ''rationale'' []))) of
                  Inl e \<Rightarrow> Inl e
                | Inr rationale \<Rightarrow>
                    RiskAssessment_new baseline dynamic rationale
                      (case dict_get data ''assessor'' of
                         None \<Rightarrow> ''baseline'' | Some a \<Rightarrow> to_str P a))
           | (Inl e, _) \<Rightarrow> Inl e
           | (_, Inl e) \<Rightarrow> Inl e)
      | (None, _) \<Rightarrow> Inl (KeyError (Msg ''baseline'' []))
      | (_, None) \<Rightarrow> Inl (KeyError (Msg ''dynamic'' [])))"

text \<open>SQLite stores \<open>nan\<close> as NULL in a REAL column.\<close>

definition real_column :: "pyfloat option \<Rightarrow> pyfloat option" where
  "real_column x = (if x = Some NaN then None else x)"

definition to_row :: "'j message_codec \<Rightarrow> AgentMessage \<Rightarrow> 'j message_row" where
  "to_row P m = \<lparr>mr_message_id = am_message_id m, mr_session_id = am_session_id m,
     mr_task_id = am_task_id m, mr_agent_id = am_agent_id m,
     mr_parent_message_id = am_parent_message_id m,
     mr_message_type = message_type_str (am_message_type m), mr_content = am_content m,
     mr_context_json = dumps_sorted P (JObj (am_context m)),
     mr_action_options_json = dumps_sorted P (JArr (map JStr (am_action_options m))),
     mr_requires_response = (if am_requires_response m then 1 else 0),
     mr_timeout_seconds = real_column (am_timeout_seconds m),
     mr_risk_json = map_option (\<lambda>r. dumps_sorted P (risk_to_dict r)) (am_risk_assessment m),
     mr_related_action_id = am_related_action_id m,
     mr_response_source = map_option response_source_str (am_response_source m),
     mr_response_value = am_response_value m,
     mr_created_at = isoformat (am_created_at m)\<rparr>"

text \<open>The decoded columns of \<open>_from_row\<close>; \<open>_coerce_risk\<close> takes a dict or None.\<close>

definition decode_context :: "'j message_codec \<Rightarrow> 'j \<Rightarrow> (string, json) dict result" where
  "decode_context P t = (case loads_text P t of
      Inl e \<Rightarrow> Inl e | Inr (JObj d) \<Rightarrow> Inr d
    | Inr _ \<Rightarrow> Inl (ValidationError (Msg ''context'' [])))"

definition decode_options :: "'j message_codec \<Rightarrow> 'j \<Rightarrow> string list result" where
  "decode_options P t = (case loads_text P t of
      Inl e \<Rightarrow> Inl e | Inr (JArr js) \<Rightarrow> str_items js
    | Inr _ \<Rightarrow> Inl (ValidationError (Msg ''action_options'' [])))"

definition decode_risk :: "'j message_codec \<Rightarrow> 'j option \<Rightarrow> RiskAssessment option result" where
  "decode_risk P t = (case t of
      None \<Rightarrow> Inr None
    | Some text \<Rightarrow> (case loads_text P text of
          Inl e \<Rightarrow> Inl e
        | Inr JNull \<Rightarrow> Inr None
        | Inr (JObj d) \<Rightarrow> map_ok Some (risk_from_dict P d)
        | Inr _ \<Rightarrow> Inl (ValidationError (Msg ''risk_assessment must be RiskAssessment | dict | None'' []))))"

definition decode_source :: "string option \<Rightarrow> ResponseSource option result" where
  "decode_source t = (case t of None \<Rightarrow> Inr None | Some s \<Rightarrow> map_ok Some (response_source_of s))"

definition from_row :: "'j message_codec \<Rightarrow> 'j message_row \<Rightarrow> AgentMessage result" where
  "from_row P row =
     (case decode_context P (mr_context_json row) of Inl e \<Rightarrow> Inl e | Inr context \<Rightarrow>
      case decode_options P (mr_action_options_json row) of Inl e \<Rightarrow> Inl e | Inr options \<Rightarrow>
      case decode_risk P (mr_risk_json row) of Inl e \<Rightarrow> Inl e | Inr risk \<Rightarrow>
      case fromisoformat P (mr_created_at row) of Inl e \<Rightarrow> Inl e | Inr created \<Rightarrow>
      case message_type_of (mr_message_type row) of Inl e \<Rightarrow> Inl e | Inr mtype \<Rightarrow>
      case decode_source (mr_response_source row) of Inl e \<Rightarrow> Inl e | Inr source \<Rightarrow>
        Inr \<lparr>am_message_id = mr_message_id row, am_session_id = mr_session_id row,
          am_task_id = mr_task_id row, am_agent_id = mr_agent_id row,
          am_parent_message_id = mr_parent_message_id row, am_message_type = mtype,
          am_content = mr_content row, am_context = context, am_action_options = options,
          am_requires_response = (mr_requires_response row \<noteq> 0),
          am_timeout_seconds = mr_timeout_seconds row, am_risk_assessment = risk,
          am_related_action_id = mr_related_action_id row, am_response_source = source,
          am_response_value = mr_response_value row, am_created_at = created\<rparr>)"

section \<open>The stream\<close>

type_synonym 'j stream = "'j message_row list"

definition validate_for_insert :: "'j stream \<Rightarrow> AgentMessage \<Rightarrow> py_error option" where
  "validate_for_insert st m =
     (if am_message_type m \<noteq> Response then None
      else case am_parent_message_id m of
             None \<Rightarrow> Some (MessageStreamError (Msg ''response message must set parent_message_id'' []))
           | Some p \<Rightarrow>
               (case find (\<lambda>r. mr_message_id r = p) st of
                  None \<Rightarrow> Some (MessageStreamError (Msg ''parent_message_id {!r} not found'' [p]))
                | Some row \<Rightarrow>
                    if mr_message_type row \<noteq> ''actionable''
                    then Some (MessageStreamError (Msg
                      ''response parent must be 'actionable', got {!r} for {!r}''
                      [mr_message_type row, p]))
                    else None))"

definition stream_insert :: "'j message_codec \<Rightarrow> 'j stream \<Rightarrow> AgentMessage \<Rightarrow> 'j stream result" where
  "stream_insert P st m =
     (case validate_for_insert st m of
        Some e \<Rightarrow> Inl e
      | None \<Rightarrow>
          if am_message_id m \<in> set (map mr_message_id st)
          then Inl (MessageStreamError (Msg ''message_id {!r} already exists'' [am_message_id m]))
          else Inr (st @ [to_row P m]))"

fun from_rows :: "'j message_codec \<Rightarrow> 'j message_row list \<Rightarrow> AgentMessage list result" where
  "from_rows P [] = Inr []"
| "from_rows P (r # rs) =
     (case from_row P r of
        Inl e \<Rightarrow> Inl e
      | Inr m \<Rightarrow> map_ok (\<lambda>ms. m # ms) (from_rows P rs))"

definition stream_get :: "'j message_codec \<Rightarrow> 'j stream \<Rightarrow> string \<Rightarrow> AgentMessage option result" where
  "stream_get P st message_id =
     (case find (\<lambda>r. mr_message_id r = message_id) st of
        None \<Rightarrow> Inr None
      | Some row \<Rightarrow> map_ok Some (from_row P row))"

definition stream_len :: "'j stream \<Rightarrow> nat" where
  "stream_len st = length st"

text \<open>\<open>_list\<close>: an empty list of types is no filter; \<open>since\<close> compares the column's text.\<close>

definition stream_list ::
  "'j message_codec \<Rightarrow> 'j stream \<Rightarrow> ('j message_row \<Rightarrow> bool) \<Rightarrow> string list option
     \<Rightarrow> datetime option \<Rightarrow> int option \<Rightarrow> AgentMessage list result" where
  "stream_list P st base types since limit =
     (let rows = sort_key mr_created_at (filter (\<lambda>r. base r
            \<and> (case types of None \<Rightarrow> True | Some ts \<Rightarrow> ts = [] \<or> mr_message_type r \<in> set ts)
            \<and> (case since of None \<Rightarrow> True | Some t \<Rightarrow> isoformat t < mr_created_at r)) st)
      in case limit of
           None \<Rightarrow> from_rows P rows
         | Some n \<Rightarrow>
             if n < 0 then Inl (ValueError (Msg ''limit must be non-negative'' []))
             else from_rows P (take (nat n) rows))"

definition list_for_session_messages ::
  "'j message_codec \<Rightarrow> 'j stream \<Rightarrow> string \<Rightarrow> string list option \<Rightarrow> datetime option \<Rightarrow> int option
     \<Rightarrow> AgentMessage list result" where
  "list_for_session_messages P st session_id =
     stream_list P st (\<lambda>r. mr_session_id r = session_id)"

definition list_for_task_messages ::
  "'j message_codec \<Rightarrow> 'j stream \<Rightarrow> string \<Rightarrow> string list option \<Rightarrow> datetime option \<Rightarrow> int option
     \<Rightarrow> AgentMessage list result" where
  "list_for_task_messages P st task_id = stream_list P st (\<lambda>r. mr_task_id r = Some task_id)"

definition list_for_agent_messages ::
  "'j message_codec \<Rightarrow> 'j stream \<Rightarrow> string \<Rightarrow> string option \<Rightarrow> string list option \<Rightarrow> datetime option
     \<Rightarrow> int option \<Rightarrow> AgentMessage list result" where
  "list_for_agent_messages P st agent_id session_id =
     stream_list P st (\<lambda>r. mr_agent_id r = agent_id
       \<and> (case session_id of None \<Rightarrow> True | Some s \<Rightarrow> mr_session_id r = s))"

definition pending_actionable ::
  "'j message_codec \<Rightarrow> 'j stream \<Rightarrow> string \<Rightarrow> string option \<Rightarrow> AgentMessage list result" where
  "pending_actionable P st session_id task_id =
     from_rows P (sort_key mr_created_at (filter (\<lambda>m. mr_session_id m = session_id
       \<and> mr_message_type m = ''actionable''
       \<and> \<not> list_ex (\<lambda>r. mr_parent_message_id r = Some (mr_message_id m)
              \<and> mr_message_type r = ''response'') st
       \<and> (case task_id of None \<Rightarrow> True | Some t \<Rightarrow> mr_task_id m = Some t)) st))"

definition response_for ::
  "'j message_codec \<Rightarrow> 'j stream \<Rightarrow> string \<Rightarrow> AgentMessage option result" where
  "response_for P st message_id =
     (case sort_key mr_created_at (filter (\<lambda>r. mr_parent_message_id r = Some message_id
              \<and> mr_message_type r = ''response'') st) of
        [] \<Rightarrow> Inr None
      | row # _ \<Rightarrow> map_ok Some (from_row P row))"

definition thread :: "'j message_codec \<Rightarrow> 'j stream \<Rightarrow> string \<Rightarrow> AgentMessage list result" where
  "thread P st message_id =
     from_rows P (sort_key mr_created_at (filter (\<lambda>r. mr_message_id r = message_id
       \<or> mr_parent_message_id r = Some message_id) st))"

section \<open>Round trip of a row\<close>

text \<open>\<open>sort_keys=True\<close>: a value with the keys of all its objects sorted. A Python dict has no
  repeated key.\<close>

fun canon :: "json \<Rightarrow> json" where
  "canon (JArr js) = JArr (map canon js)"
| "canon (JObj kvs) = JObj (sort_key fst (map (\<lambda>(k, v). (k, canon v)) kvs))"
| "canon j = j"

fun json_ok :: "json \<Rightarrow> bool" where
  "json_ok (JArr js) = list_all json_ok js"
| "json_ok (JObj kvs) = (dict_ok kvs \<and> list_all (\<lambda>(k, v). json_ok v) kvs)"
| "json_ok j = True"

text \<open>What the code relies on of \<open>json\<close>, \<open>datetime\<close> and the number and text constructors.\<close>

definition message_codec_ok :: "'j message_codec \<Rightarrow> bool" where
  "message_codec_ok P \<longleftrightarrow>
     (\<forall>j. json_ok j \<longrightarrow> loads_text P (dumps_sorted P j) = Inr (canon j))
     \<and> (\<forall>d. datetime_ok d \<longrightarrow> fromisoformat P (isoformat d) = Inr d)
     \<and> (\<forall>x. to_float P (JFloat x) = Inr x) \<and> (\<forall>s. to_str P (JStr s) = s)"

definition canon_context :: "(string, json) dict \<Rightarrow> (string, json) dict" where
  "canon_context c = sort_key fst (map (\<lambda>(k, v). (k, canon v)) c)"

definition canon_message :: "AgentMessage \<Rightarrow> AgentMessage" where
  "canon_message m = m\<lparr>am_context := canon_context (am_context m)\<rparr>"

definition message_ok :: "AgentMessage \<Rightarrow> bool" where
  "message_ok m \<longleftrightarrow> datetime_ok (am_created_at m) \<and> json_ok (JObj (am_context m))
     \<and> am_timeout_seconds m \<noteq> Some NaN
     \<and> (case am_risk_assessment m of None \<Rightarrow> True | Some r \<Rightarrow> ra_valid r)"

lemma message_type_roundtrip [simp]: "message_type_of (message_type_str t) = Inr t"
  by (cases t) (simp_all add: message_type_of_def literal_of_def)

lemma message_type_str_iff [simp]:
  "message_type_str t = ''actionable'' \<longleftrightarrow> t = Actionable"
  "message_type_str t = ''response'' \<longleftrightarrow> t = Response"
  by (cases t; simp)+

lemma response_source_roundtrip [simp]: "response_source_of (response_source_str t) = Inr t"
  by (cases t) (simp_all add: response_source_of_def literal_of_def)

lemma str_items_JStr [simp]: "str_items (map JStr ss) = Inr ss"
  by (induction ss) auto

lemma map_canon_JStr [simp]: "map (canon \<circ> JStr) ss = map JStr ss"
  by simp

lemma json_ok_JStrs [simp]: "list_all json_ok (map JStr ss)"
  by (induction ss) auto

lemma risk_to_dict_ok [simp]: "json_ok (risk_to_dict r)"
  by (simp add: risk_to_dict_def)

lemma canon_risk: "canon (risk_to_dict r) =
  JObj [(''assessor'', JStr (ra_assessor r)), (''baseline'', JFloat (ra_baseline r)),
    (''dynamic'', JFloat (ra_dynamic r)), (''rationale'', JArr (map JStr (ra_rationale r)))]"
  by (simp add: risk_to_dict_def less_char_def)

lemma risk_roundtrip:
  assumes "message_codec_ok P" "ra_valid r"
  shows "decode_risk P (Some (dumps_sorted P (risk_to_dict r))) = Inr (Some r)"
proof -
  have "loads_text P (dumps_sorted P (risk_to_dict r)) = Inr (canon (risk_to_dict r))"
    using assms(1) by (simp add: message_codec_ok_def)
  moreover have "RiskAssessment_new (ra_baseline r) (ra_dynamic r) (ra_rationale r) (ra_assessor r) = Inr r"
    using assms(2) by (simp add: RiskAssessment_new_ok ra_valid_def)
  ultimately show ?thesis
    using assms(1) by (simp add: decode_risk_def canon_risk risk_from_dict_def message_codec_ok_def)
qed

lemma options_roundtrip:
  "message_codec_ok P \<Longrightarrow> decode_options P (dumps_sorted P (JArr (map JStr ss))) = Inr ss"
  by (simp add: decode_options_def message_codec_ok_def)

lemma context_roundtrip:
  "message_codec_ok P \<Longrightarrow> json_ok (JObj c) \<Longrightarrow>
   decode_context P (dumps_sorted P (JObj c)) = Inr (canon_context c)"
  by (simp add: decode_context_def message_codec_ok_def canon_context_def)

lemma from_row_to_row:
  assumes "message_codec_ok P" "message_ok m"
  shows "from_row P (to_row P m) = Inr (canon_message m)"
proof -
  have "decode_risk P (map_option (\<lambda>r. dumps_sorted P (risk_to_dict r)) (am_risk_assessment m))
      = Inr (am_risk_assessment m)"
    using assms risk_roundtrip by (cases "am_risk_assessment m") (auto simp: decode_risk_def message_ok_def)
  moreover have "decode_source (map_option response_source_str (am_response_source m))
      = Inr (am_response_source m)"
    by (cases "am_response_source m") (simp_all add: decode_source_def)
  moreover have "fromisoformat P (isoformat (am_created_at m)) = Inr (am_created_at m)"
    using assms by (simp add: message_codec_ok_def message_ok_def)
  moreover have "decode_context P (dumps_sorted P (JObj (am_context m))) = Inr (canon_context (am_context m))"
    using assms by (intro context_roundtrip) (simp_all add: message_ok_def)
  ultimately show ?thesis
    using assms options_roundtrip [OF assms(1), of "am_action_options m"]
    by (simp add: from_row_def to_row_def canon_message_def message_ok_def real_column_def)
qed

section \<open>The stream as a log of messages\<close>

text \<open>A sequence of inserts on the connection; the first error ends it.\<close>

fun insert_all :: "'j message_codec \<Rightarrow> 'j stream \<Rightarrow> AgentMessage list \<Rightarrow> 'j stream result" where
  "insert_all P st [] = Inr st"
| "insert_all P st (m # ms) =
     (case stream_insert P st m of Inl e \<Rightarrow> Inl e | Inr st' \<Rightarrow> insert_all P st' ms)"

text \<open>A well-formed log: no identifier twice, and every response answers an actionable message
  that was there before it.\<close>

definition answers_earlier :: "AgentMessage list \<Rightarrow> nat \<Rightarrow> bool" where
  "answers_earlier ms i \<longleftrightarrow> (am_message_type (ms ! i) = Response \<longrightarrow>
     (\<exists>j < i. am_parent_message_id (ms ! i) = Some (am_message_id (ms ! j))
        \<and> am_message_type (ms ! j) = Actionable))"

definition log_inv :: "AgentMessage list \<Rightarrow> bool" where
  "log_inv ms \<longleftrightarrow> distinct (map am_message_id ms) \<and> (\<forall>i < length ms. answers_earlier ms i)"

definition accepts :: "AgentMessage list \<Rightarrow> AgentMessage \<Rightarrow> bool" where
  "accepts ms m \<longleftrightarrow> am_message_id m \<notin> am_message_id ` set ms
     \<and> (am_message_type m = Response \<longrightarrow>
          (\<exists>p \<in> set ms. am_parent_message_id m = Some (am_message_id p)
             \<and> am_message_type p = Actionable))"

lemma to_row_simps [simp]:
  "mr_message_id (to_row P m) = am_message_id m"
  "mr_session_id (to_row P m) = am_session_id m"
  "mr_task_id (to_row P m) = am_task_id m"
  "mr_agent_id (to_row P m) = am_agent_id m"
  "mr_parent_message_id (to_row P m) = am_parent_message_id m"
  "mr_message_type (to_row P m) = message_type_str (am_message_type m)"
  "mr_created_at (to_row P m) = isoformat (am_created_at m)"
  by (simp_all add: to_row_def)

lemma find_unique_id:
  "distinct (map am_message_id ms) \<Longrightarrow> m \<in> set ms \<Longrightarrow>
   find (\<lambda>r. am_message_id r = am_message_id m) ms = Some m"
  by (induction ms) (auto simp: image_iff)

lemma stream_insert_log:
  assumes "distinct (map am_message_id ms)"
  shows "if accepts ms m then stream_insert P (map (to_row P) ms) m = Inr (map (to_row P) (ms @ [m]))
         else \<exists>e. stream_insert P (map (to_row P) ms) m = Inl (MessageStreamError e)"
proof (cases "am_message_type m = Response")
  case False
  then show ?thesis
    by (auto simp: stream_insert_def validate_for_insert_def accepts_def)
next
  case True
  show ?thesis
  proof (cases "\<exists>p \<in> set ms. am_parent_message_id m = Some (am_message_id p)")
    case False
    then have "find (\<lambda>r. am_message_id r = p) ms = None" if "am_parent_message_id m = Some p" for p
      using that by (auto simp: find_None_iff)
    with True False show ?thesis
      by (cases "am_parent_message_id m")
        (auto simp: stream_insert_def validate_for_insert_def accepts_def find_map comp_def)
  next
    case p: True
    then obtain p where p: "p \<in> set ms" "am_parent_message_id m = Some (am_message_id p)" by blast
    have uniq: "q = p" if "q \<in> set ms" "am_message_id q = am_message_id p" for q
      using assms p(1) that by (auto simp: distinct_map dest: inj_onD)
    have acc: "accepts ms m \<longleftrightarrow> am_message_id m \<notin> am_message_id ` set ms \<and> am_message_type p = Actionable"
      unfolding accepts_def using True p uniq by (metis option.inject)
    show ?thesis
      using True p(2) find_unique_id [OF assms p(1)] unfolding acc
      by (auto simp: stream_insert_def validate_for_insert_def find_map comp_def)
  qed
qed

lemma log_inv_snoc: "log_inv (ms @ [m]) \<longleftrightarrow> log_inv ms \<and> accepts ms m"
proof -
  have old: "answers_earlier (ms @ [m]) i \<longleftrightarrow> answers_earlier ms i" if "i < length ms" for i
    using that by (simp add: answers_earlier_def nth_append cong: conj_cong)
  have "(\<exists>j < length ms. am_parent_message_id m = Some (am_message_id (ms ! j))
             \<and> am_message_type (ms ! j) = Actionable)
      \<longleftrightarrow> (\<exists>p \<in> set ms. am_parent_message_id m = Some (am_message_id p)
             \<and> am_message_type p = Actionable)"
    by (metis in_set_conv_nth)
  moreover have "answers_earlier (ms @ [m]) (length ms) \<longleftrightarrow> (am_message_type m = Response \<longrightarrow>
      (\<exists>j < length ms. am_parent_message_id m = Some (am_message_id (ms ! j))
             \<and> am_message_type (ms ! j) = Actionable))"
    by (simp add: answers_earlier_def nth_append cong: conj_cong)
  ultimately have new: "answers_earlier (ms @ [m]) (length ms) \<longleftrightarrow> (am_message_type m = Response \<longrightarrow>
      (\<exists>p \<in> set ms. am_parent_message_id m = Some (am_message_id p) \<and> am_message_type p = Actionable))"
    by simp
  have "log_inv (ms @ [m]) \<longleftrightarrow> distinct (map am_message_id ms) \<and> am_message_id m \<notin> am_message_id ` set ms
      \<and> (\<forall>i < length ms. answers_earlier (ms @ [m]) i) \<and> answers_earlier (ms @ [m]) (length ms)"
    unfolding log_inv_def by (auto simp: less_Suc_eq)
  also have "\<dots> \<longleftrightarrow> log_inv ms \<and> accepts ms m"
    unfolding log_inv_def accepts_def using old new by blast
  finally show ?thesis .
qed

lemma insert_all_append:
  "insert_all P st (ms @ ms') =
     (case insert_all P st ms of Inl e \<Rightarrow> Inl e | Inr st' \<Rightarrow> insert_all P st' ms')"
  by (induction ms arbitrary: st) (auto split: sum.split)

lemma insert_all_log: "insert_all P [] ms = Inr st \<longleftrightarrow> log_inv ms \<and> st = map (to_row P) ms"
proof (induction ms arbitrary: st rule: rev_induct)
  case Nil
  then show ?case by (auto simp: log_inv_def)
next
  case (snoc m ms)
  show ?case
  proof (cases "log_inv ms")
    case True
    then have "insert_all P [] ms = Inr (map (to_row P) ms)" using snoc by simp
    moreover have "distinct (map am_message_id ms)" using True by (simp add: log_inv_def)
    ultimately show ?thesis
      using stream_insert_log [of ms m P] True
      by (auto simp: insert_all_append log_inv_snoc split: if_splits)
  next
    case False
    then have "\<nexists>st. insert_all P [] ms = Inr st" using snoc by simp
    then show ?thesis using False
      by (auto simp: insert_all_append log_inv_snoc split: sum.splits)
  qed
qed

text \<open>Reading rows of well-formed messages, and the order of the rows.\<close>

lemma from_rows_to_rows:
  "message_codec_ok P \<Longrightarrow> \<forall>m \<in> set ms. message_ok m \<Longrightarrow>
   from_rows P (map (to_row P) ms) = Inr (map canon_message ms)"
  by (induction ms) (simp_all add: from_row_to_row)

lemma row_order:
  "\<forall>m \<in> set ms. message_ok m \<Longrightarrow>
   sort_key mr_created_at (map (to_row P) ms) = map (to_row P) (sort_key am_created_at ms)"
  unfolding sort_key_map
  by (rule arg_cong [where f = "map (to_row P)"], rule sort_key_cong_le)
    (simp add: isoformat_le message_ok_def)

lemma filter_rows: "filter p (map (to_row P) ms) = map (to_row P) (filter (\<lambda>m. p (to_row P m)) ms)"
  by (simp add: filter_map comp_def)

text \<open>A SELECT over the rows is the sorted selection of the messages.\<close>

lemma select_rows:
  assumes "message_codec_ok P" "\<forall>m \<in> set ms. message_ok m"
  shows "from_rows P (sort_key mr_created_at (filter p (map (to_row P) ms)))
    = Inr (map canon_message (sort_key am_created_at (filter (\<lambda>m. p (to_row P m)) ms)))"
  using assms by (simp add: filter_rows row_order from_rows_to_rows)

lemma select_rows_take:
  assumes "message_codec_ok P" "\<forall>m \<in> set ms. message_ok m"
  shows "from_rows P (take n (sort_key mr_created_at (filter p (map (to_row P) ms))))
    = Inr (map canon_message (take n (sort_key am_created_at (filter (\<lambda>m. p (to_row P m)) ms))))"
proof -
  have "\<forall>m \<in> set (take n (sort_key am_created_at (filter (\<lambda>m. p (to_row P m)) ms))). message_ok m"
    using assms(2) by (auto dest!: in_set_takeD)
  with assms show ?thesis
    by (simp add: filter_rows row_order take_map from_rows_to_rows)
qed

section \<open>Properties\<close>

text \<open>A codec for the witnesses, and a short exchange: a notice, a question and two answers.\<close>

definition sample_message_codec :: "json message_codec" where
  "sample_message_codec = \<lparr>dumps_sorted = canon, loads_text = Inr,
     fromisoformat = (\<lambda>s. Inr (parse_isoformat s)),
     to_float = (\<lambda>j. case j of JFloat x \<Rightarrow> Inr x | _ \<Rightarrow> Inl (ValueError (Msg ''float'' []))),
     to_str = (\<lambda>j. case j of JStr s \<Rightarrow> s | _ \<Rightarrow> [])\<rparr>"

lemma sample_message_codec_ok: "message_codec_ok sample_message_codec"
  by (simp add: message_codec_ok_def sample_message_codec_def parse_isoformat)

definition sample_message :: "string \<Rightarrow> MessageType \<Rightarrow> string option \<Rightarrow> nat \<Rightarrow> AgentMessage" where
  "sample_message i ty parent sec = \<lparr>am_message_id = i, am_session_id = ''s'', am_task_id = None,
     am_agent_id = ''agent'', am_parent_message_id = parent, am_message_type = ty, am_content = ''hi'',
     am_context = [(''k'', JInt 1), (''a'', JNull)], am_action_options = [''yes'', ''no''],
     am_requires_response = (ty = Actionable), am_timeout_seconds = Some (Fin 5),
     am_risk_assessment = None, am_related_action_id = None, am_response_source = None,
     am_response_value = None, am_created_at = Datetime 1 1 1 0 0 sec 0\<rparr>"

definition sample_log :: "AgentMessage list" where
  "sample_log = [sample_message ''n'' Informational None 1, sample_message ''q'' Actionable None 2,
     sample_message ''o'' Actionable None 3, sample_message ''r'' Response (Some ''q'') 4]"

lemma sample_log_ok: "\<forall>m \<in> set sample_log. message_ok m"
  by (simp add: sample_log_def sample_message_def message_ok_def datetime_ok_def)

lemma sample_log_inv: "log_inv sample_log"
  by (simp add: sample_log_def sample_message_def log_inv_def answers_earlier_def All_less_Suc
      numeral_nat Ex_less_Suc)

lemma sample_insert: "insert_all sample_message_codec [] sample_log = Inr (map (to_row sample_message_codec) sample_log)"
  using sample_log_inv by (simp add: insert_all_log)

text \<open>C38. What the stream accepts: a sequence of messages can be published on an empty stream if and
  only if no identifier occurs twice and every response answers an actionable message published
  before it; anything else raises \<open>MessageStreamError\<close>.\<close>

theorem stream_accepts_exactly:
  "(case insert_all P [] ms of
      Inr st \<Rightarrow> log_inv ms \<and> stream_len st = length ms
    | Inl e \<Rightarrow> \<not> log_inv ms \<and> (\<exists>text. e = MessageStreamError text))"
proof (induction ms rule: rev_induct)
  case Nil
  then show ?case by (simp add: log_inv_def stream_len_def)
next
  case (snoc m ms)
  show ?case
  proof (cases "insert_all P [] ms")
    case (Inl e)
    with snoc show ?thesis by (simp add: insert_all_append log_inv_snoc)
  next
    case (Inr st)
    then have log: "log_inv ms" and st: "st = map (to_row P) ms" by (auto simp: insert_all_log)
    then have "distinct (map am_message_id ms)" by (simp add: log_inv_def)
    from stream_insert_log [OF this, of m P] Inr st log show ?thesis
      by (auto simp: insert_all_append log_inv_snoc stream_len_def split: if_splits)
  qed
qed

text \<open>C39. A row reads back as the message it was written from: every field is kept, the context up
  to the order of its keys. The timeout of the message is not \<open>nan\<close>, which SQLite stores as \<open>NULL\<close>.\<close>

theorem message_row_roundtrip:
  assumes "message_codec_ok P" "message_ok m"
  shows "from_row P (to_row P m) = Inr (m\<lparr>am_context := canon_context (am_context m)\<rparr>)"
  using from_row_to_row [OF assms] by (simp add: canon_message_def)

theorem message_row_roundtrip_witness:
  "from_row sample_message_codec (to_row sample_message_codec (sample_message ''q'' Actionable None 2))
    = Inr ((sample_message ''q'' Actionable None 2)\<lparr>am_context :=
        canon_context (am_context (sample_message ''q'' Actionable None 2))\<rparr>)"
  by (rule message_row_roundtrip [OF sample_message_codec_ok])
    (simp add: sample_message_def message_ok_def datetime_ok_def)

text \<open>The session timeline: listing a session returns exactly the published messages of that
  session, of the requested types and newer than \<open>since\<close>, by creation time and then by order of
  publication, cut at \<open>limit\<close>; no row fails to decode.\<close>

theorem session_timeline_exact:
  assumes "message_codec_ok P" "\<forall>m \<in> set ms. message_ok m" "insert_all P [] ms = Inr st"
    and "datetime_ok t"
  shows "list_for_session_messages P st s types (Some t) (Some (int n)) = Inr (map canon_message
    (take n (sort_key am_created_at (filter (\<lambda>m. am_session_id m = s
      \<and> (case types of None \<Rightarrow> True | Some ts \<Rightarrow> ts = [] \<or> message_type_str (am_message_type m) \<in> set ts)
      \<and> t < am_created_at m) ms))))"
proof -
  have st: "st = map (to_row P) ms" using assms(3) by (simp add: insert_all_log)
  have "filter (\<lambda>m. am_session_id m = s
      \<and> (case types of None \<Rightarrow> True | Some ts \<Rightarrow> ts = [] \<or> message_type_str (am_message_type m) \<in> set ts)
      \<and> isoformat t < isoformat (am_created_at m)) ms
    = filter (\<lambda>m. am_session_id m = s
      \<and> (case types of None \<Rightarrow> True | Some ts \<Rightarrow> ts = [] \<or> message_type_str (am_message_type m) \<in> set ts)
      \<and> t < am_created_at m) ms"
    using assms(2,4) by (intro filter_cong) (auto simp: isoformat_less message_ok_def)
  then show ?thesis
    by (simp add: list_for_session_messages_def stream_list_def st select_rows_take [OF assms(1,2)]
        cong: option.case_cong)
qed

theorem session_timeline_exact_witness:
  "list_for_session_messages sample_message_codec (map (to_row sample_message_codec) sample_log) ''s''
      (Some [''actionable'']) (Some (Datetime 1 1 1 0 0 2 0)) (Some (int 5))
    = Inr [canon_message (sample_message ''o'' Actionable None 3)]"
proof -
  have ok: "datetime_ok (Datetime 1 1 1 0 0 2 0)" by (simp add: datetime_ok_def)
  have sel: "filter (\<lambda>m. am_session_id m = ''s'' \<and> (case Some [''actionable''] of None \<Rightarrow> True
        | Some ts \<Rightarrow> ts = [] \<or> message_type_str (am_message_type m) \<in> set ts)
      \<and> Datetime 1 1 1 0 0 2 0 < am_created_at m) sample_log = [sample_message ''o'' Actionable None 3]"
    by (simp add: sample_log_def sample_message_def datetime_order)
  show ?thesis
    using session_timeline_exact [OF sample_message_codec_ok sample_log_ok sample_insert ok,
        of "''s''" "Some [''actionable'']" 5]
    unfolding sel by simp
qed

lemma response_for_log:
  assumes "message_codec_ok P" "\<forall>m \<in> set ms. message_ok m"
  shows "response_for P (map (to_row P) ms) i = Inr (case sort_key am_created_at (filter (\<lambda>r.
      am_parent_message_id r = Some i \<and> am_message_type r = Response) ms) of
        [] \<Rightarrow> None | r # _ \<Rightarrow> Some (canon_message r))"
proof (cases "sort_key am_created_at (filter (\<lambda>r.
      am_parent_message_id r = Some i \<and> am_message_type r = Response) ms)")
  case Nil
  then show ?thesis by (simp add: response_for_def filter_rows)
next
  case (Cons r rs)
  then have "message_ok r" using assms(2) hd_sort_key_mem [OF Cons] by auto
  with Cons assms show ?thesis by (simp add: response_for_def filter_rows row_order from_row_to_row)
qed

text \<open>Pending questions: \<open>pending_actionable\<close> returns exactly the actionable messages of the
  session for which \<open>response_for\<close> finds no answer, oldest first.\<close>

theorem pending_exactly_unanswered:
  assumes "message_codec_ok P" "\<forall>m \<in> set ms. message_ok m" "insert_all P [] ms = Inr st"
  shows "\<exists>pend. pending_actionable P st s None = Inr pend \<and> sorted (map am_created_at pend)
    \<and> (\<forall>m \<in> set ms. am_message_id m \<in> am_message_id ` set pend \<longleftrightarrow>
         am_session_id m = s \<and> am_message_type m = Actionable
         \<and> response_for P st (am_message_id m) = Inr None)"
proof -
  have st: "st = map (to_row P) ms" and log: "log_inv ms" using assms(3) by (auto simp: insert_all_log)
  let ?open = "\<lambda>m. am_session_id m = s \<and> am_message_type m = Actionable
    \<and> \<not> list_ex (\<lambda>r. am_parent_message_id r = Some (am_message_id m) \<and> am_message_type r = Response) ms"
  let ?pend = "map canon_message (sort_key am_created_at (filter ?open ms))"
  have pend: "pending_actionable P st s None = Inr ?pend"
    unfolding pending_actionable_def st select_rows [OF assms(1,2)]
    by (simp add: list_ex_iff)
  have ids: "am_message_id ` set ?pend = am_message_id ` set (filter ?open ms)"
    by (simp add: image_image canon_message_def)
  have inj: "inj_on am_message_id (set ms)" using log by (simp add: log_inv_def distinct_map)
  have none: "response_for P st i = Inr None \<longleftrightarrow>
      \<not> list_ex (\<lambda>r. am_parent_message_id r = Some i \<and> am_message_type r = Response) ms" for i
    unfolding st response_for_log [OF assms(1,2)]
    by (auto simp: list_ex_iff filter_empty_conv split: list.split)
       (metis (mono_tags, lifting) filter_empty_conv sort_key_Nil_iff list.discI)
  have "am_message_id m \<in> am_message_id ` set ?pend \<longleftrightarrow> ?open m" if "m \<in> set ms" for m
    unfolding ids using that inj by (auto dest: inj_onD)
  moreover have "sorted (map am_created_at ?pend)"
    by (simp add: comp_def canon_message_def)
  ultimately show ?thesis using pend none by auto
qed

theorem pending_exactly_unanswered_witness:
  "\<exists>pend. pending_actionable sample_message_codec (map (to_row sample_message_codec) sample_log) ''s'' None = Inr pend
    \<and> sorted (map am_created_at pend)
    \<and> (\<forall>m \<in> set sample_log. am_message_id m \<in> am_message_id ` set pend \<longleftrightarrow>
         am_session_id m = ''s'' \<and> am_message_type m = Actionable
         \<and> response_for sample_message_codec (map (to_row sample_message_codec) sample_log) (am_message_id m) = Inr None)"
  by (rule pending_exactly_unanswered [OF sample_message_codec_ok sample_log_ok sample_insert])

text \<open>The first answer stands: once a question has an answer, publishing any later message
  leaves it as the answer that \<open>response_for\<close> returns, another response to the same question
  included.\<close>

theorem first_answer_stands:
  assumes "message_codec_ok P" "\<forall>m \<in> set ms. message_ok m" "insert_all P [] ms = Inr st"
    and "response_for P st i = Inr (Some r)"
    and "message_ok m" "am_created_at r \<le> am_created_at m" "stream_insert P st m = Inr st'"
  shows "response_for P st' i = Inr (Some r)"
proof -
  have st: "st = map (to_row P) ms" and log: "log_inv ms" using assms(3) by (auto simp: insert_all_log)
  then have "distinct (map am_message_id ms)" by (simp add: log_inv_def)
  from stream_insert_log [OF this, of m P] assms(7) st
  have st': "st' = map (to_row P) (ms @ [m])" by (auto split: if_splits)
  let ?ans = "\<lambda>r. am_parent_message_id r = Some i \<and> am_message_type r = Response"
  have "Inr (case sort_key am_created_at (filter ?ans ms) of [] \<Rightarrow> None
      | r # _ \<Rightarrow> Some (canon_message r)) = (Inr (Some r) :: AgentMessage option result)"
    using assms(4) unfolding st response_for_log [OF assms(1,2)] .
  then obtain a as where a: "sort_key am_created_at (filter ?ans ms) = a # as" "r = canon_message a"
    by (auto split: list.splits)
  have "\<exists>zs. sort_key am_created_at (filter ?ans (ms @ [m])) = a # zs"
    using hd_sort_key_snoc [OF a(1), of m] assms(6) a by (auto simp: canon_message_def)
  moreover have "\<forall>m \<in> set (ms @ [m]). message_ok m" using assms(2,5) by simp
  ultimately show ?thesis
    unfolding st' response_for_log [OF assms(1) \<open>\<forall>m \<in> set (ms @ [m]). message_ok m\<close>]
    using a(2) by auto
qed

theorem first_answer_stands_witness:
  "response_for sample_message_codec (map (to_row sample_message_codec)
      (sample_log @ [sample_message ''r2'' Response (Some ''q'') 9])) ''q''
    = Inr (Some (canon_message (sample_message ''r'' Response (Some ''q'') 4)))"
proof (rule first_answer_stands [OF sample_message_codec_ok sample_log_ok sample_insert])
  show "response_for sample_message_codec (map (to_row sample_message_codec) sample_log) ''q''
      = Inr (Some (canon_message (sample_message ''r'' Response (Some ''q'') 4)))"
    unfolding response_for_log [OF sample_message_codec_ok sample_log_ok]
    by (simp add: sample_log_def sample_message_def)
  show "message_ok (sample_message ''r2'' Response (Some ''q'') 9)"
    by (simp add: sample_message_def message_ok_def datetime_ok_def)
  show "am_created_at (canon_message (sample_message ''r'' Response (Some ''q'') 4))
      \<le> am_created_at (sample_message ''r2'' Response (Some ''q'') 9)"
    by (simp add: sample_message_def canon_message_def datetime_order)
  show "stream_insert sample_message_codec (map (to_row sample_message_codec) sample_log)
      (sample_message ''r2'' Response (Some ''q'') 9)
    = Inr (map (to_row sample_message_codec) (sample_log @ [sample_message ''r2'' Response (Some ''q'') 9]))"
    by (simp add: stream_insert_def validate_for_insert_def sample_log_def sample_message_def)
qed

end
