(* ===== verification/Message_Bus.thy ===== *)
theory Message_Bus
  imports Message_Stream
begin

text \<open>
  \<open>InProcessMessageBus\<close> and its subscriptions (\<^verbatim>\<open>interaction/bus.py\<close>), and
  \<open>WaitCoordinator\<close> (\<^verbatim>\<open>interaction/wait.py\<close>).

  Every block under the bus's condition is one atomic operation. Subscription objects live in
  \<open>mb_objects\<close>, keyed by a number in the order of their creation; \<open>mb_subs\<close> is the registry
  \<open>_subs\<close> that \<open>publish\<close> walks. A blocked caller is a result of its own, and the loop of
  \<open>wait_for_response\<close> runs over the bus states and clock readings it finds each time it holds the
  condition. \<open>publish\<close>, \<open>subscribe\<close> and the coordinator only add log records otherwise; they are
  left out. A \<open>Condition.wait\<close> whose timeout the operating system cannot represent raises in
  CPython, which is left out too.
\<close>

section \<open>State\<close>

record subscription =
  sub_session_id :: string
  sub_types :: "string list option"
  sub_queue :: "AgentMessage list"
  sub_closed :: bool

record 'j InProcessMessageBus =
  mb_stream :: "'j stream"
  mb_objects :: "(nat, subscription) dict"
  mb_subs :: "nat list"
  mb_closed :: bool

definition empty_message_bus :: "'j InProcessMessageBus" where
  "empty_message_bus = \<lparr>mb_stream = [], mb_objects = [], mb_subs = [], mb_closed = False\<rparr>"

section \<open>Operations\<close>

definition sub_matches :: "subscription \<Rightarrow> AgentMessage \<Rightarrow> bool" where
  "sub_matches sub message \<longleftrightarrow> am_session_id message = sub_session_id sub
     \<and> (case sub_types sub of None \<Rightarrow> True
        | Some ts \<Rightarrow> message_type_str (am_message_type message) \<in> set ts)"

definition sub_enqueue :: "AgentMessage \<Rightarrow> subscription \<Rightarrow> subscription" where
  "sub_enqueue message sub = sub\<lparr>sub_queue := sub_queue sub @ [message]\<rparr>"

text \<open>\<open>for sub in self._subs: if sub._matches(message): sub._enqueue(message)\<close>.\<close>

fun fan_out :: "AgentMessage \<Rightarrow> nat list \<Rightarrow> (nat, subscription) dict \<Rightarrow> (nat, subscription) dict" where
  "fan_out message [] objects = objects"
| "fan_out message (k # ks) objects =
     fan_out message ks
       (case dict_get objects k of
          None \<Rightarrow> objects
        | Some sub \<Rightarrow> if sub_matches sub message
                      then dict_set objects k (sub_enqueue message sub) else objects)"

definition bus_publish ::
  "'j message_codec \<Rightarrow> 'j InProcessMessageBus \<Rightarrow> AgentMessage \<Rightarrow> 'j InProcessMessageBus result" where
  "bus_publish P b message =
     (if mb_closed b then Inl (MessageStreamError (Msg ''bus is closed'' []))
      else case stream_insert P (mb_stream b) message of
             Inl e \<Rightarrow> Inl e
           | Inr st \<Rightarrow> Inr (b\<lparr>mb_stream := st,
                          mb_objects := fan_out message (mb_subs b) (mb_objects b)\<rparr>))"

definition bus_subscribe ::
  "'j InProcessMessageBus \<Rightarrow> string \<Rightarrow> string list option \<Rightarrow> (nat \<times> 'j InProcessMessageBus) result" where
  "bus_subscribe b session_id types =
     (let k = length (mb_objects b);
          sub = \<lparr>sub_session_id = session_id, sub_types = types, sub_queue = [], sub_closed = False\<rparr>;
          objects = mb_objects b @ [(k, sub)]
      in if mb_closed b then Inl (MessageStreamError (Msg ''bus is closed'' []))
         else Inr (k, b\<lparr>mb_objects := objects, mb_subs := mb_subs b @ [k]\<rparr>))"

text \<open>\<open>InProcessMessageBus.close\<close>: closing twice changes nothing; the registry keeps its entries.\<close>

definition bus_close :: "'j InProcessMessageBus \<Rightarrow> 'j InProcessMessageBus" where
  "bus_close b =
     (if mb_closed b then b
      else b\<lparr>mb_closed := True, mb_objects := map (\<lambda>(k, sub).
             (k, if k \<in> set (mb_subs b) then sub\<lparr>sub_closed := True\<rparr> else sub)) (mb_objects b)\<rparr>)"

text \<open>\<open>_unregister\<close>, and the two halves of \<open>_InProcessSubscription.close\<close>, each under the condition:
  the first says whether the second follows.\<close>

definition unregister :: "'j InProcessMessageBus \<Rightarrow> nat \<Rightarrow> 'j InProcessMessageBus" where
  "unregister b k = b\<lparr>mb_subs := remove1 k (mb_subs b)\<rparr>"

definition sub_close :: "'j InProcessMessageBus \<Rightarrow> nat \<Rightarrow> bool \<times> 'j InProcessMessageBus" where
  "sub_close b k =
     (case dict_get (mb_objects b) k of
        None \<Rightarrow> (False, b)
      | Some sub \<Rightarrow>
          if sub_closed sub then (False, b)
          else (True, b\<lparr>mb_objects := dict_set (mb_objects b) k (sub\<lparr>sub_closed := True\<rparr>)\<rparr>))"

datatype next_result = Received AgentMessage | StopIteration | Blocked

text \<open>\<open>_InProcessSubscription.__next__\<close> at one moment it holds the condition.\<close>

definition sub_next :: "'j InProcessMessageBus \<Rightarrow> nat \<Rightarrow> next_result \<times> 'j InProcessMessageBus" where
  "sub_next b k =
     (case dict_get (mb_objects b) k of
        None \<Rightarrow> (Blocked, b)
      | Some sub \<Rightarrow>
          (case sub_queue sub of
             [] \<Rightarrow> (if sub_closed sub then StopIteration else Blocked, b)
           | message # rest \<Rightarrow>
               (Received message,
                b\<lparr>mb_objects := dict_set (mb_objects b) k (sub\<lparr>sub_queue := rest\<rparr>)\<rparr>)))"

section \<open>Waiting for a response\<close>

text \<open>The loop of \<open>wait_for_response\<close>: each entry of \<open>found\<close> is the bus and \<open>_monotonic()\<close> as the
  waiter finds them; \<open>Inr None\<close> means that it still waits after the last one.\<close>

fun wait_loop ::
  "'j message_codec \<Rightarrow> string \<Rightarrow> pyfloat option \<Rightarrow> ('j InProcessMessageBus \<times> pyfloat) list
     \<Rightarrow> AgentMessage option option result" where
  "wait_loop P message_id deadline [] = Inr None"
| "wait_loop P message_id deadline ((b, now) # found) =
     (case response_for P (mb_stream b) message_id of
        Inl e \<Rightarrow> Inl e
      | Inr (Some response) \<Rightarrow> Inr (Some (Some response))
      | Inr None \<Rightarrow>
          if mb_closed b then Inr (Some None)
          else case deadline of
                 None \<Rightarrow> wait_loop P message_id deadline found
               | Some d \<Rightarrow>
                   if fle (fsub d now) (Fin 0) then Inr (Some None)
                   else wait_loop P message_id deadline found)"

definition wait_for_response ::
  "'j message_codec \<Rightarrow> string \<Rightarrow> pyfloat option \<Rightarrow> pyfloat
     \<Rightarrow> ('j InProcessMessageBus \<times> pyfloat) list \<Rightarrow> AgentMessage option option result" where
  "wait_for_response P message_id timeout start found =
     (case timeout of
        Some t \<Rightarrow>
          if flt t (Fin 0) then Inl (ValueError (Msg ''timeout must be >= 0 or None'' []))
          else wait_loop P message_id (Some (fadd start t)) found
      | None \<Rightarrow> wait_loop P message_id None found)"

section \<open>The wait coordinator\<close>

datatype WaitOutcome = GOT_RESPONSE | TIMED_OUT_PROCEED | TIMED_OUT_SKIP | PENDING

record WaitResult =
  wr_outcome :: WaitOutcome
  wr_response_value :: "string option"
  wr_response_source :: "ResponseSource option"
  wr_response :: "AgentMessage option"
  wr_notice :: "AgentMessage option"

definition got_response :: "AgentMessage \<Rightarrow> WaitResult" where
  "got_response response = \<lparr>wr_outcome = GOT_RESPONSE, wr_response_value = am_response_value response,
     wr_response_source = am_response_source response, wr_response = Some response, wr_notice = None\<rparr>"

text \<open>The values \<open>AgentMessage(...)\<close> takes from \<open>uuid4().hex\<close> and \<open>_utcnow()\<close>, and \<open>repr\<close>.\<close>

record message_env =
  env_message_id :: string
  env_created_at :: datetime
  env_repr :: "string \<Rightarrow> string"

definition notice_message ::
  "message_env \<Rightarrow> AgentMessage \<Rightarrow> ResponseSource \<Rightarrow> string option \<Rightarrow> string \<Rightarrow> AgentMessage" where
  "notice_message env actionable source chosen summary =
     \<lparr>am_message_id = env_message_id env, am_session_id = am_session_id actionable,
      am_task_id = am_task_id actionable, am_agent_id = ''system'',
      am_parent_message_id = Some (am_message_id actionable), am_message_type = Informational,
      am_content = summary,
      am_context = [(''auto_decision'', JStr (response_source_str source)),
        (''selected_value'', case chosen of None \<Rightarrow> JNull | Some v \<Rightarrow> JStr v),
        (''original_message_id'', JStr (am_message_id actionable))],
      am_action_options = [], am_requires_response = False, am_timeout_seconds = None,
      am_risk_assessment = None, am_related_action_id = None, am_response_source = None,
      am_response_value = None, am_created_at = env_created_at env\<rparr>"

definition publish_notice ::
  "'j message_codec \<Rightarrow> message_env \<Rightarrow> AutonomyBehavior \<Rightarrow> 'j InProcessMessageBus \<Rightarrow> AgentMessage
     \<Rightarrow> ResponseSource \<Rightarrow> string option \<Rightarrow> string
     \<Rightarrow> (AgentMessage option \<times> 'j InProcessMessageBus) result" where
  "publish_notice P env behavior b actionable source chosen summary =
     (if \<not> notify_on_proceed behavior then Inr (None, b)
      else let notice = notice_message env actionable source chosen summary
           in map_ok (\<lambda>b'. (Some notice, b')) (bus_publish P b notice))"

text \<open>\<open>_on_timeout\<close> on the bus \<open>b\<close> as it is then; \<open>again\<close> is what the second wait of
  \<open>timeout_action="wait"\<close> finds. A \<open>None\<close> result is a caller that still waits.\<close>

definition on_timeout ::
  "'j message_codec \<Rightarrow> message_env \<Rightarrow> AutonomyBehavior \<Rightarrow> AgentMessage \<Rightarrow> 'j InProcessMessageBus
     \<Rightarrow> pyfloat \<Rightarrow> ('j InProcessMessageBus \<times> pyfloat) list
     \<Rightarrow> (WaitResult option \<times> 'j InProcessMessageBus) result" where
  "on_timeout P env behavior message b start again =
     (case timeout_action behavior of
        Wait \<Rightarrow>
          map_ok (\<lambda>r. (case r of
              None \<Rightarrow> None
            | Some (Some response) \<Rightarrow> Some (got_response response)
            | Some None \<Rightarrow> Some \<lparr>wr_outcome = TIMED_OUT_SKIP, wr_response_value = None,
                wr_response_source = Some Timeout_skip, wr_response = None, wr_notice = None\<rparr>, b))
            (wait_for_response P (am_message_id message) None start again)
      | Skip_action \<Rightarrow>
          map_ok (\<lambda>(notice, b'). (Some \<lparr>wr_outcome = TIMED_OUT_SKIP, wr_response_value = None,
                wr_response_source = Some Timeout_skip, wr_response = None, wr_notice = notice\<rparr>, b'))
            (publish_notice P env behavior b message Timeout_skip None ''timed out; skipping action'')
      | action \<Rightarrow>
          let source = (if action = Proceed_confident then Timeout_confident else Timeout_default);
              chosen = (case am_action_options message of [] \<Rightarrow> None | v # _ \<Rightarrow> Some v);
              label = (case chosen of None \<Rightarrow> ''no option'' | Some v \<Rightarrow> env_repr env v)
          in map_ok (\<lambda>(notice, b'). (Some \<lparr>wr_outcome = TIMED_OUT_PROCEED, wr_response_value = chosen,
                 wr_response_source = Some source, wr_response = None, wr_notice = notice\<rparr>, b'))
               (publish_notice P env behavior b message source chosen
                  (''timed out; proceeding with '' @ response_source_str source @ '' ('' @ label @ '')'')))"

text \<open>\<open>handle_actionable\<close>: \<open>found\<close> is what the first wait finds, \<open>b\<close> the bus when it returns.\<close>

definition handle_actionable ::
  "'j message_codec \<Rightarrow> message_env \<Rightarrow> AutonomyBehavior \<Rightarrow> AgentMessage \<Rightarrow> pyfloat
     \<Rightarrow> ('j InProcessMessageBus \<times> pyfloat) list \<Rightarrow> 'j InProcessMessageBus
     \<Rightarrow> ('j InProcessMessageBus \<times> pyfloat) list \<Rightarrow> (WaitResult option \<times> 'j InProcessMessageBus) result" where
  "handle_actionable P env behavior message start found b again =
     (if am_message_type message \<noteq> Actionable
      then Inl (ValueError (Msg ''WaitCoordinator only handles actionable messages; got {!r}''
        [message_type_str (am_message_type message)]))
      else if wait_strategy behavior = Async
      then Inr (Some \<lparr>wr_outcome = PENDING, wr_response_value = None, wr_response_source = None,
        wr_response = None, wr_notice = None\<rparr>, b)
      else let timeout = (if am_timeout_seconds message \<noteq> None then am_timeout_seconds message
                          else wait_timeout behavior)
           in case wait_for_response P (am_message_id message) timeout start found of
                Inl e \<Rightarrow> Inl e
              | Inr None \<Rightarrow> Inr (None, b)
              | Inr (Some (Some response)) \<Rightarrow> Inr (Some (got_response response), b)
              | Inr (Some None) \<Rightarrow> on_timeout P env behavior message b start again)"

section \<open>Interleaved operations\<close>

text \<open>The operations of publishers, subscribers and the owner of the bus, in the order in which they
  get the condition, and what each of them returns.\<close>

datatype mb_op =
    Publish AgentMessage
  | Subscribe string "string list option"
  | Next nat
  | Close_sub nat
  | Unregister nat
  | Close_bus

datatype mb_out =
    Published AgentMessage
  | Refused py_error
  | Subscribed nat
  | Next_gave nat next_result
  | Returned

fun mb_exec :: "'j message_codec \<Rightarrow> mb_op \<Rightarrow> 'j InProcessMessageBus \<Rightarrow> mb_out \<times> 'j InProcessMessageBus" where
  "mb_exec P (Publish m) b =
     (case bus_publish P b m of Inl e \<Rightarrow> (Refused e, b) | Inr b' \<Rightarrow> (Published m, b'))"
| "mb_exec P (Subscribe s types) b =
     (case bus_subscribe b s types of Inl e \<Rightarrow> (Refused e, b) | Inr (k, b') \<Rightarrow> (Subscribed k, b'))"
| "mb_exec P (Next k) b = (case sub_next b k of (r, b') \<Rightarrow> (Next_gave k r, b'))"
| "mb_exec P (Close_sub k) b = (Returned, snd (sub_close b k))"
| "mb_exec P (Unregister k) b = (Returned, unregister b k)"
| "mb_exec P Close_bus b = (Returned, bus_close b)"

fun mb_run ::
  "'j message_codec \<Rightarrow> mb_op list \<Rightarrow> 'j InProcessMessageBus \<Rightarrow> mb_out list \<times> 'j InProcessMessageBus" where
  "mb_run P [] b = ([], b)"
| "mb_run P (op # ops) b =
     (case mb_exec P op b of (out, b') \<Rightarrow>
        case mb_run P ops b' of (outs, b'') \<Rightarrow> (out # outs, b''))"

text \<open>The messages that were published, and those that one subscriber took.\<close>

fun published :: "mb_out list \<Rightarrow> AgentMessage list" where
  "published [] = []"
| "published (Published m # outs) = m # published outs"
| "published (_ # outs) = published outs"

fun received :: "nat \<Rightarrow> mb_out list \<Rightarrow> AgentMessage list" where
  "received k [] = []"
| "received k (Next_gave k' (Received m) # outs) =
     (if k' = k then m # received k outs else received k outs)"
| "received k (_ # outs) = received k outs"

lemma published_append: "published (xs @ ys) = published xs @ published ys"
  by (induction xs rule: published.induct) auto

lemma received_append: "received k (xs @ ys) = received k xs @ received k ys"
  by (induction k xs rule: received.induct) auto

section \<open>Registry invariant\<close>

definition mb_inv :: "'j InProcessMessageBus \<Rightarrow> bool" where
  "mb_inv b \<longleftrightarrow> map fst (mb_objects b) = [0..<length (mb_objects b)]
     \<and> distinct (mb_subs b) \<and> set (mb_subs b) \<subseteq> {..<length (mb_objects b)}"

lemma keys_update [simp]:
  "dict_get d k = Some w \<Longrightarrow> map fst (dict_set d k v) = map fst d"
  by (auto simp: update_keys dest!: map_of_SomeD) (metis fst_conv image_eqI)

lemma keys_length: "map fst d = map fst e \<Longrightarrow> length d = length e"
  by (metis length_map)

lemma fan_out_keys: "map fst (fan_out m ks objects) = map fst objects"
proof (induction m ks objects rule: fan_out.induct)
  case (2 m k ks objects)
  then show ?case by (auto split: option.splits)
qed simp

lemma fan_out_get:
  "distinct ks \<Longrightarrow> dict_get (fan_out m ks objects) k =
     (if k \<in> set ks then map_option (\<lambda>sub. if sub_matches sub m then sub_enqueue m sub else sub)
                            (dict_get objects k)
      else dict_get objects k)"
  by (induction m ks objects rule: fan_out.induct) (auto split: option.splits)

lemma mb_inv_keys:
  assumes "mb_inv b" "map fst objects = map fst (mb_objects b)"
  shows "mb_inv (b\<lparr>mb_objects := objects\<rparr>)"
  using assms keys_length [OF assms(2)] by (simp add: mb_inv_def)

lemma mb_exec_inv: "mb_inv b \<Longrightarrow> mb_exec P op b = (out, b') \<Longrightarrow> mb_inv b'"
proof (induction P op b rule: mb_exec.induct)
  case (1 P m b)
  have "mb_inv (b\<lparr>mb_stream := st, mb_objects := fan_out m (mb_subs b) (mb_objects b)\<rparr>)" for st
    using 1(1) keys_length [OF fan_out_keys, of m "mb_subs b" "mb_objects b"]
    by (simp add: mb_inv_def fan_out_keys)
  with 1 show ?case by (auto simp: bus_publish_def split: sum.splits if_splits)
next
  case (2 P s types b)
  then show ?case
    by (auto simp: bus_subscribe_def mb_inv_def Let_def split: if_splits)
next
  case (3 P k b)
  then show ?case
    by (auto simp: sub_next_def intro!: mb_inv_keys split: option.splits list.splits)
next
  case (4 P k b)
  then show ?case
    by (auto simp: sub_close_def intro!: mb_inv_keys split: option.splits)
next
  case (5 P k b)
  then show ?case by (auto simp: unregister_def mb_inv_def dest: notin_set_remove1)
next
  case (6 P b)
  then show ?case by (cases "mb_closed b") (auto simp: bus_close_def mb_inv_def comp_def split_beta)
qed

lemma mb_run_inv: "mb_inv b \<Longrightarrow> mb_run P ops b = (outs, b') \<Longrightarrow> mb_inv b'"
  by (induction ops arbitrary: b outs) (auto split: prod.splits dest: mb_exec_inv)

lemma empty_message_bus_inv: "mb_inv empty_message_bus"
  by (simp add: mb_inv_def empty_message_bus_def)

text \<open>The stored messages are the published ones.\<close>

lemma mb_exec_stream:
  "mb_exec P op b = (out, b') \<Longrightarrow> mb_stream b' = mb_stream b @ map (to_row P) (published [out])"
  by (induction P op b rule: mb_exec.induct)
    (auto simp: bus_publish_def stream_insert_def bus_subscribe_def sub_next_def sub_close_def
      unregister_def bus_close_def Let_def split: sum.splits option.splits list.splits if_splits)

lemma mb_run_stream:
  "mb_run P ops b = (outs, b') \<Longrightarrow> mb_stream b' = mb_stream b @ map (to_row P) (published outs)"
proof (induction ops arbitrary: b outs b')
  case (Cons op ops)
  obtain out b1 where 1: "mb_exec P op b = (out, b1)" by fastforce
  obtain outs1 b2 where 2: "mb_run P ops b1 = (outs1, b2)" by fastforce
  have "outs = [out] @ outs1" "b' = b2" using Cons.prems 1 2 by auto
  then show ?case using Cons.IH [OF 2] mb_exec_stream [OF 1] by (simp only: published_append) simp
qed simp

section \<open>Delivery\<close>

text \<open>One operation that does not unregister the subscription moves messages from the publishers to its
  queue and from its queue to its reader, in order.\<close>

lemma sub_matches_cong:
  "sub_session_id s' = sub_session_id s \<Longrightarrow> sub_types s' = sub_types s \<Longrightarrow> sub_matches s' = sub_matches s"
  by (simp add: sub_matches_def fun_eq_iff)

lemma map_of_map_keyed: "map_of (map (\<lambda>(k, v). (k, f k v)) d) k = map_option (f k) (map_of d k)"
  by (induction d) auto

lemma bus_close_get:
  "dict_get (mb_objects (bus_close b)) k = map_option (\<lambda>sub.
     if \<not> mb_closed b \<and> k \<in> set (mb_subs b) then sub\<lparr>sub_closed := True\<rparr> else sub) (dict_get (mb_objects b) k)"
  by (cases "dict_get (mb_objects b) k") (simp_all add: bus_close_def map_of_map_keyed)

definition delivers ::
  "nat \<Rightarrow> subscription \<Rightarrow> mb_out list \<Rightarrow> 'j InProcessMessageBus \<Rightarrow> bool" where
  "delivers k sub outs b' \<longleftrightarrow> k \<in> set (mb_subs b') \<and> (\<exists>sub'. dict_get (mb_objects b') k = Some sub'
     \<and> sub_session_id sub' = sub_session_id sub \<and> sub_types sub' = sub_types sub
     \<and> received k outs @ sub_queue sub' = sub_queue sub @ filter (sub_matches sub) (published outs))"

lemma mb_exec_delivers:
  assumes "mb_inv b" "k \<in> set (mb_subs b)" "dict_get (mb_objects b) k = Some sub"
    and "op \<noteq> Unregister k" "mb_exec P op b = (out, b')"
  shows "delivers k sub [out] b'"
proof (cases op)
  case (Publish m)
  have "distinct (mb_subs b)" using assms(1) by (simp add: mb_inv_def)
  with assms Publish show ?thesis
    by (auto simp: delivers_def bus_publish_def fan_out_get sub_enqueue_def split: sum.splits if_splits)
next
  case (Subscribe s types)
  have "dict_get (mb_objects b @ [(length (mb_objects b), x)]) k = Some sub" for x
    using assms(3) by (simp add: map_add_def)
  with assms Subscribe show ?thesis
    by (auto simp: delivers_def bus_subscribe_def Let_def split: if_splits)
next
  case (Next k')
  with assms show ?thesis
    by (cases "sub_queue sub")
      (auto simp: delivers_def sub_next_def split: option.splits list.splits if_splits)
next
  case (Close_sub k')
  with assms show ?thesis
    by (auto simp: delivers_def sub_close_def split: option.splits)
next
  case (Unregister k')
  with assms show ?thesis
    by (auto simp: delivers_def unregister_def in_set_remove1)
next
  case Close_bus
  have "mb_subs (bus_close b) = mb_subs b" by (simp add: bus_close_def)
  with Close_bus assms show ?thesis
    by (auto simp: delivers_def bus_close_get)
qed

lemma mb_run_delivers:
  "mb_inv b \<Longrightarrow> k \<in> set (mb_subs b) \<Longrightarrow> dict_get (mb_objects b) k = Some sub \<Longrightarrow>
   Unregister k \<notin> set ops \<Longrightarrow> mb_run P ops b = (outs, b') \<Longrightarrow> delivers k sub outs b'"
proof (induction ops arbitrary: b sub outs b')
  case Nil
  then show ?case by (simp add: delivers_def)
next
  case (Cons op ops)
  obtain out b1 where 1: "mb_exec P op b = (out, b1)" by fastforce
  obtain outs1 b2 where 2: "mb_run P ops b1 = (outs1, b2)" by fastforce
  have outs: "outs = [out] @ outs1" "b' = b2" using Cons.prems 1 2 by auto
  have "delivers k sub [out] b1" using Cons.prems 1 by (intro mb_exec_delivers) auto
  then obtain sub1 where sub1: "k \<in> set (mb_subs b1)" "dict_get (mb_objects b1) k = Some sub1"
      "sub_session_id sub1 = sub_session_id sub" "sub_types sub1 = sub_types sub"
      "received k [out] @ sub_queue sub1 = sub_queue sub @ filter (sub_matches sub) (published [out])"
    unfolding delivers_def by blast
  have "delivers k sub1 outs1 b2"
    using Cons.IH [OF mb_exec_inv [OF Cons.prems(1) 1] sub1(1,2) _ 2] Cons.prems(4) by simp
  with sub1 show ?case
    unfolding delivers_def outs received_append published_append filter_append
    using sub_matches_cong [OF sub1(3,4)] by (metis append.assoc)
qed

section \<open>Properties\<close>

text \<open>C37. A subscription delivers exactly: whatever publishers, readers and other subscribers do in
  between, and even after the bus is closed, what the reader took followed by what still waits in its queue is
  the sequence of the messages published since it subscribed that match its session and types, as
  long as it is not unregistered. Nothing is lost, doubled or reordered, and exactly the published
  messages are stored.\<close>

theorem subscription_delivers_exactly:
  assumes "b = snd (mb_run P before empty_message_bus)"
    and "mb_exec P (Subscribe s types) b = (Subscribed k, b0)"
    and "Unregister k \<notin> set ops" "mb_run P ops b0 = (outs, b1)"
  shows "(\<exists>sub. dict_get (mb_objects b1) k = Some sub
      \<and> received k outs @ sub_queue sub = filter (\<lambda>m. am_session_id m = s
          \<and> (case types of None \<Rightarrow> True | Some ts \<Rightarrow> message_type_str (am_message_type m) \<in> set ts))
        (published outs))
    \<and> mb_stream b1 = mb_stream b @ map (to_row P) (published outs)"
proof -
  have "mb_inv b" using mb_run_inv [OF empty_message_bus_inv] assms(1) by (metis prod.collapse)
  with assms(2) have inv: "mb_inv b0" by (rule mb_exec_inv [rotated])
  let ?sub = "\<lparr>sub_session_id = s, sub_types = types, sub_queue = [], sub_closed = False\<rparr>"
  have fresh: "dict_get (mb_objects b) (length (mb_objects b)) = None"
    using \<open>mb_inv b\<close> by (simp add: mb_inv_def map_of_eq_None_iff flip: set_map)
  have k: "k \<in> set (mb_subs b0)" "dict_get (mb_objects b0) k = Some ?sub" "mb_stream b0 = mb_stream b"
    using assms(2) fresh by (auto simp: bus_subscribe_def Let_def map_add_def split: if_splits)
  have "sub_matches ?sub = (\<lambda>m. am_session_id m = s
      \<and> (case types of None \<Rightarrow> True | Some ts \<Rightarrow> message_type_str (am_message_type m) \<in> set ts))"
    by (simp add: sub_matches_def fun_eq_iff)
  then show ?thesis
    using mb_run_delivers [OF inv k(1,2) assms(3,4)] mb_run_stream [OF assms(4)] k(3)
    by (auto simp: delivers_def)
qed

definition sample_traffic :: "mb_op list" where
  "sample_traffic = [Publish (sample_message ''n'' Informational None 1),
     Publish (sample_message ''q'' Actionable None 2), Next 1, Close_bus, Next 1]"

definition sample_subscribed :: "json InProcessMessageBus" where
  "sample_subscribed = snd (mb_run sample_message_codec [Subscribe ''s'' None] empty_message_bus)"

definition sample_run :: "mb_out list \<times> json InProcessMessageBus" where
  "sample_run = mb_run sample_message_codec sample_traffic
     (snd (mb_exec sample_message_codec (Subscribe ''s'' (Some [''actionable''])) sample_subscribed))"

theorem subscription_delivers_exactly_witness:
  "\<exists>sub. dict_get (mb_objects (snd sample_run)) 1 = Some sub
    \<and> received 1 (fst sample_run) @ sub_queue sub = [sample_message ''q'' Actionable None 2]"
proof -
  have sub: "mb_exec sample_message_codec (Subscribe ''s'' (Some [''actionable''])) sample_subscribed
      = (Subscribed 1, snd (mb_exec sample_message_codec (Subscribe ''s'' (Some [''actionable''])) sample_subscribed))"
    by (simp add: sample_subscribed_def bus_subscribe_def empty_message_bus_def)
  have un: "Unregister 1 \<notin> set sample_traffic" by (simp add: sample_traffic_def)
  have run: "mb_run sample_message_codec sample_traffic
      (snd (mb_exec sample_message_codec (Subscribe ''s'' (Some [''actionable''])) sample_subscribed))
      = (fst sample_run, snd sample_run)" by (simp add: sample_run_def)
  have "filter (\<lambda>m. am_session_id m = ''s'' \<and> (case Some [''actionable''] of None \<Rightarrow> True
      | Some ts \<Rightarrow> message_type_str (am_message_type m) \<in> set ts)) (published (fst sample_run))
    = [sample_message ''q'' Actionable None 2]" by code_simp
  with subscription_delivers_exactly [OF sample_subscribed_def sub un run] show ?thesis by simp
qed

text \<open>A moment at which the waiter returns.\<close>

definition settled ::
  "'j message_codec \<Rightarrow> string \<Rightarrow> pyfloat option \<Rightarrow> 'j InProcessMessageBus \<times> pyfloat \<Rightarrow> bool" where
  "settled P i deadline = (\<lambda>(b, now). response_for P (mb_stream b) i \<noteq> Inr None \<or> mb_closed b
     \<or> (case deadline of None \<Rightarrow> False | Some d \<Rightarrow> fle (fsub d now) (Fin 0)))"

text \<open>What a waiter returns: at the first moment at which an answer is stored, the bus is closed or
  the deadline has passed, it returns the answer that is stored then, even on a closed bus and after
  the deadline, and none if there is none; before such a moment it waits.\<close>

theorem wait_returns_stored_answer:
  "wait_loop P i deadline found =
     (case find (settled P i deadline) found of
        None \<Rightarrow> Inr None
      | Some (b, now) \<Rightarrow> map_ok Some (response_for P (mb_stream b) i))"
proof (induction found)
  case Nil
  then show ?case by simp
next
  case (Cons x found)
  obtain b now where x: "x = (b, now)" by fastforce
  show ?case
  proof (cases "response_for P (mb_stream b) i")
    case (Inl e)
    then show ?thesis by (simp add: x settled_def)
  next
    case (Inr r)
    then show ?thesis using Cons
      by (cases r) (auto simp: x settled_def split: option.splits)
  qed
qed

lemma publish_keeps_answers:
  assumes "bus_publish P b m = Inr b'" "am_message_type m \<noteq> Response"
  shows "response_for P (mb_stream b') i = response_for P (mb_stream b) i"
proof -
  have "mb_stream b' = mb_stream b @ [to_row P m]"
    using assms(1) by (auto simp: bus_publish_def stream_insert_def split: if_splits sum.splits option.splits)
  with assms(2) show ?thesis by (simp add: response_for_def)
qed

lemma publish_notice_keeps_answers:
  "publish_notice P env behavior b message src v text = Inr (n, b') \<Longrightarrow>
   response_for P (mb_stream b') i = response_for P (mb_stream b) i"
  by (auto simp: publish_notice_def Let_def map_ok_def notice_message_def publish_keeps_answers
      split: if_splits sum.splits)

lemma on_timeout_keeps_answers:
  "on_timeout P env behavior message b start again = Inr (r, b') \<Longrightarrow>
   response_for P (mb_stream b') i = response_for P (mb_stream b) i"
  by (auto simp: on_timeout_def Let_def map_ok_def publish_notice_keeps_answers
      split: TimeoutAction.splits sum.splits)

text \<open>An answer a waiter returns is one it found.\<close>

definition answer_seen ::
  "'j message_codec \<Rightarrow> string \<Rightarrow> AgentMessage \<Rightarrow> ('j InProcessMessageBus \<times> pyfloat) list \<Rightarrow> bool" where
  "answer_seen P i m found \<longleftrightarrow> list_ex (\<lambda>(b, now). response_for P (mb_stream b) i = Inr (Some m)) found"

lemma answer_seen_append:
  "answer_seen P i m (xs @ ys) \<longleftrightarrow> answer_seen P i m xs \<or> answer_seen P i m ys"
  by (simp add: answer_seen_def)

lemma wait_answer_found:
  assumes "wait_for_response P i timeout start found = Inr (Some (Some m))"
  shows "answer_seen P i m found"
proof -
  have loop: "answer_seen P i m found"
    if "wait_loop P i deadline found = Inr (Some (Some m))" for deadline
    using that by (induction found) (auto simp: answer_seen_def split: sum.splits option.splits if_splits)
  show ?thesis
    using assms by (cases timeout) (auto simp: wait_for_response_def split: if_splits intro: loop)
qed

text \<open>What a wait result means to the agent loop: a reported response was stored on the bus; PENDING
  comes only from the async strategy; an action proceeds without an answer only under one of the two proceed
  settings and then with the first option offered; and in every case the self-decision is not stored
  as an answer: each question keeps the answer, or the lack of one, that it had.\<close>

theorem wait_result_sound:
  assumes "handle_actionable P env behavior message start found b again = Inr (Some r, b')"
  shows "(case wr_outcome r of
      GOT_RESPONSE \<Rightarrow> (\<exists>m. wr_response r = Some m \<and> wr_response_value r = am_response_value m
        \<and> answer_seen P (am_message_id message) m (found @ again))
    | PENDING \<Rightarrow> wait_strategy behavior = Async
    | TIMED_OUT_PROCEED \<Rightarrow> timeout_action behavior \<in> {Proceed_default, Proceed_confident}
        \<and> wr_response_value r = (case am_action_options message of [] \<Rightarrow> None | v # _ \<Rightarrow> Some v)
    | TIMED_OUT_SKIP \<Rightarrow> timeout_action behavior \<in> {Wait, Skip_action})
    \<and> (\<forall>i. response_for P (mb_stream b') i = response_for P (mb_stream b) i)"
proof (cases "wait_strategy behavior = Async")
  case True
  with assms show ?thesis by (auto simp: handle_actionable_def split: if_splits)
next
  case False
  let ?timeout = "if am_timeout_seconds message \<noteq> None then am_timeout_seconds message
    else wait_timeout behavior"
  let ?w = "wait_for_response P (am_message_id message) ?timeout start found"
  have actionable: "am_message_type message = Actionable"
    using assms by (auto simp: handle_actionable_def split: if_splits)
  consider m where "?w = Inr (Some (Some m))" "r = got_response m" "b' = b"
    | "?w = Inr (Some None)" "on_timeout P env behavior message b start again = Inr (Some r, b')"
    using assms False actionable
    by (auto simp: handle_actionable_def Let_def split: sum.splits option.splits if_splits)
  then show ?thesis
  proof cases
    case 1
    then show ?thesis using wait_answer_found [OF 1(1)] by (simp add: got_response_def answer_seen_append)
  next
    case 2
    have "case wr_outcome r of
      GOT_RESPONSE \<Rightarrow> (\<exists>m. wr_response r = Some m \<and> wr_response_value r = am_response_value m
        \<and> answer_seen P (am_message_id message) m again)
    | PENDING \<Rightarrow> False
    | TIMED_OUT_PROCEED \<Rightarrow> timeout_action behavior \<in> {Proceed_default, Proceed_confident}
        \<and> wr_response_value r = (case am_action_options message of [] \<Rightarrow> None | v # _ \<Rightarrow> Some v)
    | TIMED_OUT_SKIP \<Rightarrow> timeout_action behavior \<in> {Wait, Skip_action}"
      using 2(2) by (auto simp: on_timeout_def map_ok_def Let_def got_response_def
          dest!: wait_answer_found split: TimeoutAction.splits sum.splits option.splits)
    with on_timeout_keeps_answers [OF 2(2)] show ?thesis
      by (cases "wr_outcome r") (auto simp: answer_seen_append)
  qed
qed

definition sample_env :: message_env where
  "sample_env = \<lparr>env_message_id = ''n1'', env_created_at = Datetime 1 1 1 0 0 8 0, env_repr = (\<lambda>s. s)\<rparr>"

definition sample_question :: AgentMessage where
  "sample_question = sample_message ''q'' Actionable None 2"

definition sample_asked :: "json InProcessMessageBus" where
  "sample_asked = snd (mb_exec sample_message_codec (Publish sample_question) empty_message_bus)"

definition sample_timeout :: "(WaitResult option \<times> json InProcessMessageBus) result" where
  "sample_timeout = handle_actionable sample_message_codec sample_env risk_gated sample_question
     (Fin 0) [(sample_asked, Fin 3), (sample_asked, Fin 6)] sample_asked []"

theorem wait_result_sound_witness:
  "wr_outcome (the (fst (projr sample_timeout))) = TIMED_OUT_PROCEED
   \<and> wr_response_value (the (fst (projr sample_timeout))) = Some ''yes''
   \<and> response_for sample_message_codec (mb_stream (snd (projr sample_timeout))) ''q''
     = response_for sample_message_codec (mb_stream sample_asked) ''q''"
proof -
  have out: "wr_outcome (the (fst (projr sample_timeout))) = TIMED_OUT_PROCEED" by code_simp
  have opts: "am_action_options sample_question = [''yes'', ''no'']"
    by (simp add: sample_question_def sample_message_def)
  have "is_ok sample_timeout" "fst (projr sample_timeout) \<noteq> None" by code_simp+
  then have "sample_timeout = Inr (Some (the (fst (projr sample_timeout))), snd (projr sample_timeout))"
    by (elim is_okE) (metis option.collapse prod.collapse sum.sel(2))
  from wait_result_sound [OF trans [OF sample_timeout_def [symmetric] this]] out opts show ?thesis
    by simp
qed

text \<open>A bus that is closed while an agent waits counts as a timeout, whatever time is left: under
  the proceed settings the wait either raises, when the notice is refused by the closed bus, or lets the
  action proceed without an answer, when notices are off.\<close>

theorem close_during_wait_is_timeout:
  assumes "am_message_type message = Actionable" "wait_strategy behavior = Sync"
    and "timeout_action behavior \<in> {Proceed_default, Proceed_confident}"
    and "am_timeout_seconds message = Some t" "\<not> flt t (Fin 0)"
    and "mb_closed b" "response_for P (mb_stream b) (am_message_id message) = Inr None"
  shows "(if notify_on_proceed behavior
     then handle_actionable P env behavior message start ((b, now) # found) b again
       = Inl (MessageStreamError (Msg ''bus is closed'' []))
     else \<exists>r. handle_actionable P env behavior message start ((b, now) # found) b again = Inr (Some r, b)
       \<and> wr_outcome r = TIMED_OUT_PROCEED)"
  using assms by (auto simp: handle_actionable_def wait_for_response_def on_timeout_def
      publish_notice_def bus_publish_def Let_def)

theorem close_during_wait_is_timeout_witness:
  "handle_actionable sample_message_codec sample_env risk_gated sample_question (Fin 0)
      [(bus_close sample_asked, Fin 0)] (bus_close sample_asked) []
    = Inl (MessageStreamError (Msg ''bus is closed'' []))"
proof -
  have "mb_closed (bus_close sample_asked)" by code_simp
  moreover have "response_for sample_message_codec (mb_stream (bus_close sample_asked)) ''q'' = Inr None"
    by code_simp
  ultimately show ?thesis
    using close_during_wait_is_timeout [of sample_question risk_gated "Fin 5" "bus_close sample_asked"
        sample_message_codec sample_env "Fin 0" "Fin 0" "[]" "[]"]
    by (simp add: sample_question_def sample_message_def risk_gated_def)
qed

end
