(* ===== verification/Executor.thy ===== *)
theory Executor
  imports Task_Lifecycle Result_Summary Message_Bus
begin

text \<open>
  \<open>FixedRouteTaskExecutor\<close> and \<open>AgentLoopResidentDefaultAgent\<close> of \<^verbatim>\<open>task/execution.py\<close>: one
  tick selects the next eligible pending task, claims it, runs the agent and reports the outcome to the
  TaskBus, the summary store and the message stream.

  The state of a tick is the bus, the optional summary store, the optional message bus and the tasks
  passed to the optional lifecycle callback (whose exceptions are suppressed). The agent is an argument:
  it receives the claimed task and the state, and returns or raises with a new state, since it may park its
  task, write messages and summaries, and since users act while it runs. What other threads do between
  the read of the session and the claim is the argument \<open>meanwhile\<close>. Clock readings and the message
  identifier of a tick are its \<open>tick_env\<close>. An exception that leaves \<open>tick\<close> is returned with the state
  at that moment. The trace calls are left out.
\<close>

section \<open>State and results\<close>

record 'j exec_state =
  xs_bus :: InMemoryTaskBus
  xs_summaries :: "summary_store option"
  xs_messages :: "'j InProcessMessageBus option"
  xs_notified :: "TaskDomain list option"

record tick_env =
  te_clock :: "nat \<Rightarrow> datetime"
  te_message_id :: string

record FixedRouteTaskExecutorConfig =
  cfg_session_id :: string
  cfg_default_agent_id :: string

record TaskRunResult =
  rr_result_ref :: "string option"
  rr_error_ref :: "string option"
  rr_waiting_for_user :: bool

definition rr_ok :: "TaskRunResult \<Rightarrow> bool" where
  "rr_ok r \<longleftrightarrow> rr_error_ref r = None \<and> \<not> rr_waiting_for_user r"

datatype TaskExecutionTickStatus =
  Tick_idle | Tick_completed | Tick_failed | Tick_waiting_for_user | Claim_not_available | Health_error

record TaskExecutionTickResult =
  tr_status :: TaskExecutionTickStatus
  tr_session_id :: string
  tr_claimed_task_id :: "string option"
  tr_completed_task_id :: "string option"
  tr_failed_task_id :: "string option"
  tr_skipped_reason :: "string option"
  tr_result_ref :: "string option"
  tr_error_ref :: "string option"

definition tick_result :: "TaskExecutionTickStatus \<Rightarrow> string \<Rightarrow> TaskExecutionTickResult" where
  "tick_result status session_id = \<lparr>tr_status = status, tr_session_id = session_id,
     tr_claimed_task_id = None, tr_completed_task_id = None, tr_failed_task_id = None,
     tr_skipped_reason = None, tr_result_ref = None, tr_error_ref = None\<rparr>"

type_synonym 'j agent =
  "TaskDomain \<Rightarrow> 'j exec_state \<Rightarrow> (py_exception + TaskRunResult) \<times> 'j exec_state"

section \<open>Selection\<close>

definition eligible :: "TaskDomain list \<Rightarrow> TaskDomain \<Rightarrow> bool" where
  "eligible tasks task \<longleftrightarrow> td_status task = Pending
     \<and> (case td_parent_id task of
          None \<Rightarrow> True
        | Some p \<Rightarrow> (case task_by_id tasks p of None \<Rightarrow> False | Some parent \<Rightarrow> td_status parent = Done))"

definition select_next_eligible_pending_task :: "InMemoryTaskBus \<Rightarrow> string \<Rightarrow> TaskDomain option" where
  "select_next_eligible_pending_task b session_id =
     (let tasks = list_for_session b session_id in find (eligible tasks) tasks)"

section \<open>References and messages\<close>

text \<open>\<open>store.put(build...(...))\<close> on an optional store: nothing is written if the builder raises.\<close>

definition put_built ::
  "summary_store \<Rightarrow> TaskExecutionSummary result \<Rightarrow> summary_store option result" where
  "put_built st r = map_ok (\<lambda>s. Some (summary_put st s)) r"

definition store_execution_exception_summary ::
  "tick_env \<Rightarrow> summary_store option \<Rightarrow> TaskDomain \<Rightarrow> py_exception \<Rightarrow> (string \<times> summary_store option) result" where
  "store_execution_exception_summary env store task exc =
     (case store of
        None \<Rightarrow> Inr (''agent_execution_failed: '' @ exc_type_name exc, None)
      | Some st \<Rightarrow>
          let error_ref = ''agent_execution_failed:'' @ td_session_id task @ '':'' @ td_task_id task
                @ '':'' @ exc_type_name exc
          in map_ok (\<lambda>st'. (error_ref, st')) (put_built st
               (build_execution_exception_summary error_ref task exc (te_clock env 1) (te_clock env 2))))"

definition store_context_build_exception_summary ::
  "tick_env \<Rightarrow> summary_store option \<Rightarrow> TaskDomain \<Rightarrow> py_exception \<Rightarrow> (string \<times> summary_store option) result" where
  "store_context_build_exception_summary env store task exc =
     (let error_ref = ''context_build_failed:'' @ td_session_id task @ '':'' @ td_task_id task
            @ '':'' @ exc_type_name exc
      in case store of
           None \<Rightarrow> Inr (error_ref, None)
         | Some st \<Rightarrow> map_ok (\<lambda>st'. (error_ref, st')) (put_built st
             (build_execution_exception_summary error_ref task exc (te_clock env 1) (te_clock env 2))))"

definition ensure_result_ref_readable ::
  "tick_env \<Rightarrow> summary_store option \<Rightarrow> TaskDomain \<Rightarrow> string option
     \<Rightarrow> (string option \<times> summary_store option) result" where
  "ensure_result_ref_readable env store task result_ref =
     (case store of
        None \<Rightarrow> Inr (result_ref, None)
      | Some st \<Rightarrow>
          (case result_ref of
             None \<Rightarrow>
               let ref = ''task_result:'' @ td_session_id task @ '':'' @ td_task_id task @ '':completed''
               in map_ok (\<lambda>st'. (Some ref, st')) (put_built st
                    (build_execution_completed_summary ref task (te_clock env 1) (te_clock env 2)))
           | Some ref \<Rightarrow>
               if summary_get st ref = None
               then map_ok (\<lambda>st'. (Some ref, st')) (put_built st
                      (build_external_result_ref_summary ref task (te_clock env 1) (te_clock env 2)))
               else Inr (Some ref, Some st)))"

definition ensure_error_ref_readable ::
  "tick_env \<Rightarrow> summary_store option \<Rightarrow> TaskDomain \<Rightarrow> string \<Rightarrow> (string \<times> summary_store option) result" where
  "ensure_error_ref_readable env store task error_ref =
     (case store of
        None \<Rightarrow> Inr (error_ref, None)
      | Some st \<Rightarrow>
          if summary_get st error_ref = None
          then map_ok (\<lambda>st'. (error_ref, st')) (put_built st
                 (build_external_error_ref_summary error_ref task (te_clock env 1) (te_clock env 2)))
          else Inr (error_ref, Some st))"

definition summary_for_ref :: "summary_store option \<Rightarrow> string option \<Rightarrow> TaskExecutionSummary option" where
  "summary_for_ref store summary_id =
     (case (store, summary_id) of (Some st, Some i) \<Rightarrow> summary_get st i | _ \<Rightarrow> None)"

fun summary_kind_str :: "TaskExecutionSummaryKind \<Rightarrow> string" where
  "summary_kind_str Result_kind = ''result''"
| "summary_kind_str Error_kind = ''error''"

fun summary_source_str :: "TaskExecutionSummarySource \<Rightarrow> string" where
  "summary_source_str Agent_loop = ''agent_loop''"
| "summary_source_str Execution_bridge = ''execution_bridge''"
| "summary_source_str External_agent = ''external_agent''"

definition execution_message ::
  "tick_env \<Rightarrow> TaskDomain \<Rightarrow> TaskExecutionSummary option \<Rightarrow> AgentMessage" where
  "execution_message env task summary =
     (let title = (if td_status task = Failed then ''Task failed'' else ''Task completed'');
          body = (case summary of Some s \<Rightarrow> sm_summary s | None \<Rightarrow> title @ ''.'');
          context = [(''task_ref_kind'', JStr ''published''), (''title'', JStr title),
            (''execution_status'', JStr (task_status_str (td_status task)))];
          context = (case td_result_ref task of None \<Rightarrow> context
            | Some r \<Rightarrow> dict_set context ''result_ref'' (JStr r));
          context = (case td_error_ref task of None \<Rightarrow> context
            | Some r \<Rightarrow> dict_set (dict_set context ''error_ref'' (JStr r)) ''ui_kind'' (JStr ''error''));
          context = (case summary of None \<Rightarrow> context
            | Some s \<Rightarrow> dict_set (dict_set (dict_set context
                ''summary_id'' (JStr (sm_summary_id s)))
                ''summary_kind'' (JStr (summary_kind_str (sm_kind s))))
                ''summary_source'' (JStr (summary_source_str (sm_source s))))
      in \<lparr>am_message_id = te_message_id env, am_session_id = td_session_id task,
          am_task_id = Some (td_task_id task), am_agent_id = ''agent'', am_parent_message_id = None,
          am_message_type = Informational, am_content = body, am_context = context,
          am_action_options = [], am_requires_response = False, am_timeout_seconds = None,
          am_risk_assessment = None, am_related_action_id = None, am_response_source = None,
          am_response_value = None, am_created_at = te_clock env 4\<rparr>)"

text \<open>\<open>_publish_execution_message\<close>: a \<open>MessageStreamError\<close> is suppressed.\<close>

definition publish_execution_message ::
  "'j message_codec \<Rightarrow> tick_env \<Rightarrow> TaskDomain \<Rightarrow> TaskExecutionSummary option \<Rightarrow> 'j exec_state \<Rightarrow> 'j exec_state" where
  "publish_execution_message P env task summary st =
     (case xs_messages st of
        None \<Rightarrow> st
      | Some mb \<Rightarrow>
          (case bus_publish P mb (execution_message env task summary) of
             Inl e \<Rightarrow> st
           | Inr mb' \<Rightarrow> st\<lparr>xs_messages := Some mb'\<rparr>))"

definition notify_task_lifecycle_committed :: "TaskDomain \<Rightarrow> 'j exec_state \<Rightarrow> 'j exec_state" where
  "notify_task_lifecycle_committed task st =
     (case xs_notified st of None \<Rightarrow> st | Some ts \<Rightarrow> st\<lparr>xs_notified := Some (ts @ [task])\<rparr>)"

section \<open>The tick\<close>

text \<open>The tail of the failing branches: report to the bus, publish the message, notify.\<close>

definition commit_failed ::
  "'j message_codec \<Rightarrow> tick_env \<Rightarrow> string \<Rightarrow> TaskDomain \<Rightarrow> string \<Rightarrow> 'j exec_state
     \<Rightarrow> TaskExecutionTickResult result \<times> 'j exec_state" where
  "commit_failed P env session_id claimed error_ref st =
     (case fail (xs_bus st) (td_session_id claimed) (td_task_id claimed) error_ref (te_clock env 3) of
        Inl e \<Rightarrow> (Inl e, st)
      | Inr (failed, b) \<Rightarrow>
          (Inr ((tick_result Tick_failed session_id)\<lparr>tr_claimed_task_id := Some (td_task_id claimed),
              tr_failed_task_id := Some (td_task_id failed), tr_error_ref := td_error_ref failed\<rparr>),
           notify_task_lifecycle_committed failed (publish_execution_message P env failed
             (summary_for_ref (xs_summaries st) (td_error_ref failed)) (st\<lparr>xs_bus := b\<rparr>))))"

definition commit_completed ::
  "'j message_codec \<Rightarrow> tick_env \<Rightarrow> string \<Rightarrow> TaskDomain \<Rightarrow> string option \<Rightarrow> 'j exec_state
     \<Rightarrow> TaskExecutionTickResult result \<times> 'j exec_state" where
  "commit_completed P env session_id claimed result_ref st =
     (case complete (xs_bus st) (td_session_id claimed) (td_task_id claimed) result_ref (te_clock env 3) of
        Inl e \<Rightarrow> (Inl e, st)
      | Inr (completed, b) \<Rightarrow>
          (Inr ((tick_result Tick_completed session_id)\<lparr>tr_claimed_task_id := Some (td_task_id claimed),
              tr_completed_task_id := Some (td_task_id completed), tr_result_ref := td_result_ref completed\<rparr>),
           notify_task_lifecycle_committed completed (publish_execution_message P env completed
             (summary_for_ref (xs_summaries st) (td_result_ref completed)) (st\<lparr>xs_bus := b\<rparr>))))"

text \<open>The branch of a run result that says it waits for the user.\<close>

definition finish_waiting ::
  "'j message_codec \<Rightarrow> tick_env \<Rightarrow> string \<Rightarrow> TaskDomain \<Rightarrow> 'j exec_state
     \<Rightarrow> TaskExecutionTickResult result \<times> 'j exec_state" where
  "finish_waiting P env session_id claimed st =
     (let waiting = get (xs_bus st) (td_session_id claimed) (td_task_id claimed)
      in case waiting of
           Some w \<Rightarrow>
             if td_status w = Waiting_for_user
             then (Inr ((tick_result Tick_waiting_for_user session_id)\<lparr>
                      tr_claimed_task_id := Some (td_task_id claimed),
                      tr_skipped_reason := (case td_waiting_for_ask_id w of
                         Some a \<Rightarrow> if a = [] then td_waiting_for_confirmation_id w else Some a
                       | None \<Rightarrow> td_waiting_for_confirmation_id w)\<rparr>),
                   notify_task_lifecycle_committed w st)
             else (case ensure_error_ref_readable env (xs_summaries st) claimed
                          ''agent_loop_waiting_without_task_state'' of
                     Inl e \<Rightarrow> (Inl e, st)
                   | Inr (error_ref, store) \<Rightarrow>
                       let st' = st\<lparr>xs_summaries := store\<rparr>
                       in if td_status w = Running
                          then commit_failed P env session_id claimed error_ref st'
                          else (Inr ((tick_result Tick_failed session_id)\<lparr>
                                  tr_claimed_task_id := Some (td_task_id claimed),
                                  tr_skipped_reason := Some ''waiting_without_task_state'',
                                  tr_error_ref := Some error_ref\<rparr>), st'))
         | None \<Rightarrow>
             (case ensure_error_ref_readable env (xs_summaries st) claimed
                     ''agent_loop_waiting_without_task_state'' of
                Inl e \<Rightarrow> (Inl e, st)
              | Inr (error_ref, store) \<Rightarrow>
                  (Inr ((tick_result Tick_failed session_id)\<lparr>
                     tr_claimed_task_id := Some (td_task_id claimed),
                     tr_skipped_reason := Some ''waiting_without_task_state'',
                     tr_error_ref := Some error_ref\<rparr>), st\<lparr>xs_summaries := store\<rparr>)))"

text \<open>What follows the agent's return or exception.\<close>

definition finish_run ::
  "'j message_codec \<Rightarrow> tick_env \<Rightarrow> string \<Rightarrow> TaskDomain \<Rightarrow> py_exception + TaskRunResult \<Rightarrow> 'j exec_state
     \<Rightarrow> TaskExecutionTickResult result \<times> 'j exec_state" where
  "finish_run P env session_id claimed outcome st =
     (case outcome of
        Inl exc \<Rightarrow>
          (case store_execution_exception_summary env (xs_summaries st) claimed exc of
             Inl e \<Rightarrow> (Inl e, st)
           | Inr (error_ref, store) \<Rightarrow>
               commit_failed P env session_id claimed error_ref (st\<lparr>xs_summaries := store\<rparr>))
      | Inr run_result \<Rightarrow>
          if rr_waiting_for_user run_result then finish_waiting P env session_id claimed st
          else if rr_ok run_result
          then (case ensure_result_ref_readable env (xs_summaries st) claimed (rr_result_ref run_result) of
                  Inl e \<Rightarrow> (Inl e, st)
                | Inr (result_ref, store) \<Rightarrow>
                    commit_completed P env session_id claimed result_ref (st\<lparr>xs_summaries := store\<rparr>))
          else let stripped = strip (case rr_error_ref run_result of None \<Rightarrow> [] | Some r \<Rightarrow> r);
                   error_ref = (if stripped = [] then ''agent_execution_failed'' else stripped)
               in case ensure_error_ref_readable env (xs_summaries st) claimed error_ref of
                    Inl e \<Rightarrow> (Inl e, st)
                  | Inr (error_ref, store) \<Rightarrow>
                      commit_failed P env session_id claimed error_ref (st\<lparr>xs_summaries := store\<rparr>))"

definition tick ::
  "'j message_codec \<Rightarrow> tick_env \<Rightarrow> 'j agent option \<Rightarrow> FixedRouteTaskExecutorConfig
     \<Rightarrow> ('j exec_state \<Rightarrow> 'j exec_state) \<Rightarrow> 'j exec_state
     \<Rightarrow> TaskExecutionTickResult result \<times> 'j exec_state" where
  "tick P env default_agent config meanwhile st =
     (let session_id = cfg_session_id config
      in case default_agent of
           None \<Rightarrow> (Inr ((tick_result Health_error session_id)\<lparr>
                      tr_skipped_reason := Some ''default_agent_unavailable'',
                      tr_error_ref := Some ''default_agent_unavailable''\<rparr>), st)
         | Some agent \<Rightarrow>
             (case select_next_eligible_pending_task (xs_bus st) session_id of
                None \<Rightarrow> (Inr ((tick_result Tick_idle session_id)\<lparr>
                           tr_skipped_reason := Some ''no_eligible_task''\<rparr>), st)
              | Some candidate \<Rightarrow>
                  let st = meanwhile st
                  in case claim_next (xs_bus st) session_id (td_required_capability candidate)
                            (cfg_default_agent_id config) (te_clock env 0) of
                       Inl e \<Rightarrow> (Inl e, st)
                     | Inr (None, b) \<Rightarrow> (Inr ((tick_result Claim_not_available session_id)\<lparr>
                                  tr_skipped_reason := Some ''claim_not_available''\<rparr>), st)
                     | Inr (Some claimed, b) \<Rightarrow>
                         (case agent claimed (st\<lparr>xs_bus := b\<rparr>) of
                            (outcome, st') \<Rightarrow> finish_run P env session_id claimed outcome st')))"

section \<open>The AgentLoop adapter\<close>

record LoopResult =
  lr_final_answer :: string
  lr_steps :: int
  lr_finished :: bool
  lr_stop_reason :: string

text \<open>\<open>str.split()\<close> and \<open>" ".join\<close>.\<close>

fun split_words :: "string \<Rightarrow> string \<Rightarrow> string list" where
  "split_words word [] = (if word = [] then [] else [word])"
| "split_words word (c # cs) =
     (if is_space c then (if word = [] then split_words [] cs else word # split_words [] cs)
      else split_words (word @ [c]) cs)"

definition split_ws :: "string \<Rightarrow> string list" where
  "split_ws s = split_words [] s"

fun join_space :: "string list \<Rightarrow> string" where
  "join_space [] = []"
| "join_space [w] = w"
| "join_space (w # v # ws) = w @ '' '' @ join_space (v # ws)"

definition cancelled_error_ref :: "string \<Rightarrow> string" where
  "cancelled_error_ref final_answer =
     (let normalized = join_space (split_ws (strip final_answer))
      in if startswith (map lower_char normalized) ''cancelled:'' then normalized
         else if normalized \<noteq> [] then ''cancelled: '' @ normalized
         else ''cancelled: interrupted at safe point'')"

record 'j AgentLoopResidentDefaultAgent =
  al_loop :: "TaskDomain \<Rightarrow> string \<Rightarrow> 'j exec_state \<Rightarrow> (py_exception + LoopResult) \<times> 'j exec_state"
  al_result_ref_prefix :: string
  al_error_ref_prefix :: string
  al_build_context :: "(TaskDomain \<Rightarrow> py_exception + string) option"

text \<open>A summary is stored when a store is configured; a builder that raises leaves \<open>run\<close> with its
  exception.\<close>

definition put_or_raise ::
  "TaskRunResult \<Rightarrow> (summary_store \<Rightarrow> summary_store option result) \<Rightarrow> 'j exec_state
     \<Rightarrow> (py_exception + TaskRunResult) \<times> 'j exec_state" where
  "put_or_raise r put st =
     (case xs_summaries st of
        None \<Rightarrow> (Inr r, st)
      | Some store \<Rightarrow>
          (case put store of
             Inl e \<Rightarrow> (Inl \<lparr>exc_type_name = ''ValidationError'', exc_llm = None\<rparr>, st)
           | Inr store' \<Rightarrow> (Inr r, st\<lparr>xs_summaries := store'\<rparr>)))"

text \<open>\<open>run\<close>, in two parts: the translation of the loop's result, and the whole.\<close>

definition agent_loop_outcome ::
  "tick_env \<Rightarrow> 'j AgentLoopResidentDefaultAgent \<Rightarrow> TaskDomain \<Rightarrow> LoopResult \<Rightarrow> 'j exec_state
     \<Rightarrow> (py_exception + TaskRunResult) \<times> 'j exec_state" where
  "agent_loop_outcome env A task result st =
     (let ref_of = (\<lambda>prefix. prefix @ '':'' @ td_session_id task @ '':'' @ td_task_id task @ '':''
            @ lr_stop_reason result);
          error = (\<lambda>error_ref. put_or_raise
            \<lparr>rr_result_ref = None, rr_error_ref = Some error_ref, rr_waiting_for_user = False\<rparr>
            (\<lambda>store. put_built store (build_agent_loop_error_summary error_ref task (lr_stop_reason result)
               (lr_final_answer result) (te_clock env 1) (te_clock env 2))) st)
      in if lr_finished result
         then put_or_raise
                \<lparr>rr_result_ref = Some (ref_of (al_result_ref_prefix A)), rr_error_ref = None,
                 rr_waiting_for_user = False\<rparr>
                (\<lambda>store. put_built store (build_agent_loop_result_summary (ref_of (al_result_ref_prefix A))
                   task (lr_final_answer result) (lr_stop_reason result) (te_clock env 1) (te_clock env 2))) st
         else if lr_stop_reason result = ''waiting_for_user''
         then (Inr \<lparr>rr_result_ref = None, rr_error_ref = None, rr_waiting_for_user = True\<rparr>, st)
         else if lr_stop_reason result = ''interrupted''
         then error (cancelled_error_ref (lr_final_answer result))
         else error (ref_of (al_error_ref_prefix A)))"

definition agent_loop_run :: "tick_env \<Rightarrow> 'j AgentLoopResidentDefaultAgent \<Rightarrow> 'j agent" where
  "agent_loop_run env A task st =
     (case (case al_build_context A of None \<Rightarrow> Inr (td_intent task) | Some build \<Rightarrow> build task) of
        Inl exc \<Rightarrow>
          (case store_context_build_exception_summary env (xs_summaries st) task exc of
             Inl e \<Rightarrow> (Inl \<lparr>exc_type_name = ''ValidationError'', exc_llm = None\<rparr>, st)
           | Inr (error_ref, store) \<Rightarrow>
               (Inr \<lparr>rr_result_ref = None, rr_error_ref = Some error_ref, rr_waiting_for_user = False\<rparr>,
                st\<lparr>xs_summaries := store\<rparr>))
      | Inr run_input \<Rightarrow>
          (case al_loop A task run_input st of
             (Inl exc, st') \<Rightarrow> (Inl exc, st')
           | (Inr result, st') \<Rightarrow> agent_loop_outcome env A task result st'))"

section \<open>The candidate is what the bus hands out\<close>

lemma find_filter: "find p xs = Some x \<Longrightarrow> \<exists>ys. filter p xs = x # ys"
  by (induction xs) (auto split: if_splits)

lemma eligible_claimable:
  assumes "keyed b" "td_session_id t = s"
  shows "eligible (list_for_session b s) t \<longleftrightarrow> td_status t = Pending \<and> parent_is_done b t"
  using assms by (simp add: eligible_def parent_is_done_def task_by_id_get split: option.split)

lemma select_then_claim:
  assumes "keyed b" "select_next_eligible_pending_task b s = Some t"
    and "\<not> blank (td_required_capability t)" "\<not> blank a"
  shows "claim_next b s (td_required_capability t) a now = Inr (Some (claim_task a now t),
      b\<lparr>bus_tasks := dict_set (bus_tasks b) (s, td_task_id t) (claim_task a now t)\<rparr>)"
proof -
  let ?in_s = "\<lambda>u. td_session_id u = s" and ?vals = "dict_values (bus_tasks b)"
  let ?c = "td_required_capability t" and ?tasks = "list_for_session b s"
  let ?open = "\<lambda>u. td_status u = Pending \<and> parent_is_done b u"
  have "find (eligible ?tasks) ?tasks = Some t"
    using assms(2) by (simp add: select_next_eligible_pending_task_def Let_def)
  from find_filter [OF this] obtain ts where "filter (eligible ?tasks) ?tasks = t # ts" by blast
  moreover have "filter (eligible ?tasks) ?tasks = filter ?open ?tasks"
    using eligible_claimable [OF assms(1)] by (intro filter_cong) (auto simp: list_for_session_def)
  ultimately have hd: "filter ?open ?tasks = t # ts" by simp
  have "sort_key claim_key (filter (claimable b s ?c) ?vals)
      = filter (\<lambda>u. td_required_capability u = ?c) (filter ?open (sort_key claim_key (filter ?in_s ?vals)))"
    unfolding sort_key_filter_commute filter_filter claimable_def
    by (rule arg_cong [where f = "\<lambda>p. filter p (sort_key claim_key ?vals)"]) (simp add: fun_eq_iff conj_ac)
  also have "\<dots> = t # filter (\<lambda>u. td_required_capability u = ?c) ts"
    using hd by (simp add: list_for_session_def)
  finally have claim: "sort_key claim_key (filter (claimable b s ?c) ?vals)
      = t # filter (\<lambda>u. td_required_capability u = ?c) ts" .
  then show ?thesis
    using assms(3,4) unfolding claim_next_def claim by (simp add: Let_def)
qed

section \<open>What the tail of a tick leaves alone\<close>

lemma publish_execution_message_state [simp]:
  "xs_bus (publish_execution_message P env t s st) = xs_bus st"
  "xs_summaries (publish_execution_message P env t s st) = xs_summaries st"
  by (simp_all add: publish_execution_message_def split: option.split sum.split)

lemma notify_state [simp]:
  "xs_bus (notify_task_lifecycle_committed t st) = xs_bus st"
  "xs_summaries (notify_task_lifecycle_committed t st) = xs_summaries st"
  by (simp_all add: notify_task_lifecycle_committed_def split: option.split)

lemma update_task_get:
  "update_task b s i f = Inr (u, b') \<Longrightarrow> \<exists>t. get b s i = Some t \<and> f t = Inr u \<and> get b' s i = Some u"
  by (auto simp: update_task_def require_task_def split: option.splits sum.splits)

lemma fail_result:
  assumes "fail b s i ref now = Inr (u, b')"
  shows "get b' s i = Some u \<and> td_status u = Failed \<and> td_error_ref u = Some ref"
  using assms update_task_get [of b s i "fail_task ref now" u b']
  by (auto simp: fail_def fail_task_def split: if_splits)

lemma complete_result:
  assumes "complete b s i ref now = Inr (u, b')"
  shows "get b' s i = Some u \<and> td_status u = Done \<and> td_result_ref u = ref"
  using assms update_task_get [of b s i "transition_running_task Done ref None now" u b']
  by (auto simp: complete_def transition_running_task_def split: if_splits)

text \<open>The report of a tick against the bus and the store it leaves behind.\<close>

definition report_true :: "string \<Rightarrow> string \<Rightarrow> TaskExecutionTickResult \<Rightarrow> 'j exec_state \<Rightarrow> bool" where
  "report_true s i r st \<longleftrightarrow> tr_claimed_task_id r = Some i \<and> (case tr_status r of
      Tick_completed \<Rightarrow> (\<exists>u. get (xs_bus st) s i = Some u \<and> td_status u = Done
        \<and> td_result_ref u = tr_result_ref r)
    | Tick_waiting_for_user \<Rightarrow> (\<exists>u. get (xs_bus st) s i = Some u \<and> td_status u = Waiting_for_user)
    | Tick_failed \<Rightarrow> tr_error_ref r \<noteq> None \<and> (\<exists>u. get (xs_bus st) s i = Some u \<and> td_status u = Failed
        \<and> td_error_ref u = tr_error_ref r \<and> tr_failed_task_id r = Some (td_task_id u))
    | _ \<Rightarrow> False)"

text \<open>The one report that is not about the task: a failed tick that names no failed task, because the agent said it was waiting
  and the task is neither running nor waiting (it was settled, put back or never stored).\<close>

definition unconfirmed_report :: "string \<Rightarrow> string \<Rightarrow> TaskExecutionTickResult \<Rightarrow> 'j exec_state \<Rightarrow> bool" where
  "unconfirmed_report s i r st \<longleftrightarrow> tr_claimed_task_id r = Some i \<and> tr_status r = Tick_failed \<and> tr_failed_task_id r = None
     \<and> tr_completed_task_id r = None \<and> tr_skipped_reason r = Some ''waiting_without_task_state''
     \<and> (\<forall>u. get (xs_bus st) s i = Some u \<longrightarrow> td_status u \<noteq> Running \<and> td_status u \<noteq> Waiting_for_user)"

text \<open>What a tick says: the truth, or that unconfirmed report.\<close>

definition report_sound :: "string \<Rightarrow> string \<Rightarrow> TaskExecutionTickResult \<Rightarrow> 'j exec_state \<Rightarrow> bool" where
  "report_sound s i r st \<longleftrightarrow>
     (if tr_status r = Tick_failed \<and> tr_failed_task_id r = None then unconfirmed_report s i r st else report_true s i r st)"

definition ref_readable :: "'j exec_state \<Rightarrow> string option \<Rightarrow> bool" where
  "ref_readable st ref \<longleftrightarrow> (case xs_summaries st of
      None \<Rightarrow> True
    | Some store \<Rightarrow> (\<exists>i s. ref = Some i \<and> summary_get store i = Some s))"

lemma summary_get_put [simp]:
  "summary_get (summary_put st s) i = (if i = sm_summary_id s then Some s else summary_get st i)"
  by (simp add: summary_get_def summary_put_def)

lemma TaskExecutionSummary_new_same: "TaskExecutionSummary_new s = Inr t \<Longrightarrow> t = s"
  by (auto simp: TaskExecutionSummary_new_def split: if_splits)

lemma builder_ids:
  "build_execution_exception_summary ref t exc t0 t1 = Inr s \<Longrightarrow> sm_summary_id s = ref"
  "build_execution_completed_summary ref t t0 t1 = Inr s \<Longrightarrow> sm_summary_id s = ref"
  "build_external_result_ref_summary ref t t0 t1 = Inr s \<Longrightarrow> sm_summary_id s = ref"
  "build_external_error_ref_summary ref t t0 t1 = Inr s \<Longrightarrow> sm_summary_id s = ref"
  "build_agent_loop_result_summary ref t a r t0 t1 = Inr s \<Longrightarrow> sm_summary_id s = ref"
  "build_agent_loop_error_summary ref t r a t0 t1 = Inr s \<Longrightarrow> sm_summary_id s = ref"
  by (auto simp: build_execution_exception_summary_def build_execution_completed_summary_def
      build_external_result_ref_summary_def build_external_error_ref_summary_def
      build_agent_loop_result_summary_def build_agent_loop_error_summary_def Let_def base_summary_def
      dest!: TaskExecutionSummary_new_same)

lemma ensured_refs_readable:
  "store_execution_exception_summary env store t exc = Inr (ref, store') \<Longrightarrow>
     ref_readable (st\<lparr>xs_summaries := store'\<rparr>) (Some ref)"
  "store_context_build_exception_summary env store t exc = Inr (ref, store') \<Longrightarrow>
     ref_readable (st\<lparr>xs_summaries := store'\<rparr>) (Some ref)"
  "ensure_error_ref_readable env store t r = Inr (ref, store') \<Longrightarrow>
     ref_readable (st\<lparr>xs_summaries := store'\<rparr>) (Some ref)"
  "ensure_result_ref_readable env store t rr = Inr (ref', store') \<Longrightarrow>
     ref_readable (st\<lparr>xs_summaries := store'\<rparr>) ref'"
  by (auto simp: store_execution_exception_summary_def store_context_build_exception_summary_def
      ensure_error_ref_readable_def ensure_result_ref_readable_def ref_readable_def put_built_def Let_def
      map_ok_def builder_ids split: option.splits sum.splits if_splits)

lemma report_trueI:
  "\<lbrakk>tr_status r = Tick_completed; tr_claimed_task_id r = Some i; get (xs_bus st) s i = Some u;
    td_status u = Done; td_result_ref u = tr_result_ref r\<rbrakk> \<Longrightarrow> report_true s i r st"
  "\<lbrakk>tr_status r = Tick_failed; tr_claimed_task_id r = Some i; get (xs_bus st) s i = Some u;
    td_status u = Failed; td_error_ref u = tr_error_ref r; tr_error_ref r = Some ref;
    tr_failed_task_id r = Some (td_task_id u)\<rbrakk> \<Longrightarrow> report_true s i r st"
  by (auto simp: report_true_def)

lemma report_soundI: "report_true s i r st \<Longrightarrow> report_sound s i r st"
  by (auto simp: report_sound_def report_true_def)

lemma commit_failed_report:
  assumes "commit_failed P env s claimed ref st = (Inr r, st')" "td_session_id claimed = s"
    and "ref_readable st (Some ref)"
  shows "report_sound s (td_task_id claimed) r st' \<and> tr_status r = Tick_failed \<and> ref_readable st' (tr_error_ref r)"
proof -
  from assms(1,2) obtain u b where u: "fail (xs_bus st) s (td_task_id claimed) ref (te_clock env 3) = Inr (u, b)"
    and r: "r = (tick_result Tick_failed s)\<lparr>tr_claimed_task_id := Some (td_task_id claimed),
              tr_failed_task_id := Some (td_task_id u), tr_error_ref := td_error_ref u\<rparr>"
    and st': "xs_bus st' = b" "xs_summaries st' = xs_summaries st"
    by (auto simp: commit_failed_def split: sum.splits prod.splits)
  show ?thesis
    using fail_result [OF u] assms(3) st'
    by (auto simp: r tick_result_def ref_readable_def intro!: report_soundI report_trueI(2))
qed

lemma commit_completed_report:
  assumes "commit_completed P env s claimed ref st = (Inr r, st')" "td_session_id claimed = s"
    and "ref_readable st ref"
  shows "report_sound s (td_task_id claimed) r st' \<and> tr_status r = Tick_completed \<and> ref_readable st' (tr_result_ref r)"
proof -
  from assms(1,2) obtain u b where u: "complete (xs_bus st) s (td_task_id claimed) ref (te_clock env 3) = Inr (u, b)"
    and r: "r = (tick_result Tick_completed s)\<lparr>tr_claimed_task_id := Some (td_task_id claimed),
              tr_completed_task_id := Some (td_task_id u), tr_result_ref := td_result_ref u\<rparr>"
    and st': "xs_bus st' = b" "xs_summaries st' = xs_summaries st"
    by (auto simp: commit_completed_def split: sum.splits prod.splits)
  show ?thesis
    using complete_result [OF u] assms(3) st'
    by (auto simp: r tick_result_def ref_readable_def intro!: report_soundI report_trueI(1))
qed

definition refs_readable :: "TaskExecutionTickResult \<Rightarrow> 'j exec_state \<Rightarrow> bool" where
  "refs_readable r st \<longleftrightarrow> (case tr_status r of
      Tick_completed \<Rightarrow> ref_readable st (tr_result_ref r)
    | Tick_failed \<Rightarrow> ref_readable st (tr_error_ref r)
    | _ \<Rightarrow> True)"

lemma finish_waiting_report:
  assumes "finish_waiting P env s claimed st = (Inr r, st')" "td_session_id claimed = s"
  shows "report_sound s (td_task_id claimed) r st' \<and> refs_readable r st'"
proof -
  let ?ens = "ensure_error_ref_readable env (xs_summaries st) claimed ''agent_loop_waiting_without_task_state''"
  consider (waiting) w where "get (xs_bus st) s (td_task_id claimed) = Some w" "td_status w = Waiting_for_user"
    | (running) w ref store where "get (xs_bus st) s (td_task_id claimed) = Some w" "td_status w = Running"
        "?ens = Inr (ref, store)"
        "commit_failed P env s claimed ref (st\<lparr>xs_summaries := store\<rparr>) = (Inr r, st')"
    | (other) ref store where "?ens = Inr (ref, store)" "st' = st\<lparr>xs_summaries := store\<rparr>"
        "r = (tick_result Tick_failed s)\<lparr>tr_claimed_task_id := Some (td_task_id claimed),
           tr_skipped_reason := Some ''waiting_without_task_state'', tr_error_ref := Some ref\<rparr>"
        "\<forall>u. get (xs_bus st) s (td_task_id claimed) = Some u \<longrightarrow>
           td_status u \<noteq> Running \<and> td_status u \<noteq> Waiting_for_user"
    using assms by (auto simp: finish_waiting_def Let_def split: option.splits if_splits sum.splits prod.splits)
  then show ?thesis
  proof cases
    case waiting
    with assms show ?thesis
      by (auto simp: finish_waiting_def Let_def report_sound_def report_true_def refs_readable_def tick_result_def)
  next
    case running
    show ?thesis
      using commit_failed_report [OF running(4) assms(2) ensured_refs_readable(3) [OF running(3)]]
      by (simp add: refs_readable_def)
  next
    case other
    show ?thesis using other(4) ensured_refs_readable(3) [OF other(1), of st]
      by (simp add: other(2,3) report_sound_def unconfirmed_report_def refs_readable_def tick_result_def)
  qed
qed

lemma finish_run_report:
  assumes "finish_run P env s claimed outcome st = (Inr r, st')" "td_session_id claimed = s"
  shows "report_sound s (td_task_id claimed) r st' \<and> refs_readable r st'"
proof (cases outcome)
  case (Inl exc)
  with assms(1) obtain ref store where
    "store_execution_exception_summary env (xs_summaries st) claimed exc = Inr (ref, store)"
    "commit_failed P env s claimed ref (st\<lparr>xs_summaries := store\<rparr>) = (Inr r, st')"
    by (auto simp: finish_run_def split: sum.splits prod.splits)
  then show ?thesis
    using commit_failed_report [OF _ assms(2) ensured_refs_readable(1)] by (fastforce simp: refs_readable_def)
next
  case (Inr rr)
  consider "finish_waiting P env s claimed st = (Inr r, st')"
    | ref store where "ensure_result_ref_readable env (xs_summaries st) claimed (rr_result_ref rr) = Inr (ref, store)"
        "commit_completed P env s claimed ref (st\<lparr>xs_summaries := store\<rparr>) = (Inr r, st')"
    | e ref store where "ensure_error_ref_readable env (xs_summaries st) claimed e = Inr (ref, store)"
        "commit_failed P env s claimed ref (st\<lparr>xs_summaries := store\<rparr>) = (Inr r, st')"
    using assms(1) Inr
    by (auto simp: finish_run_def Let_def split: if_splits sum.splits prod.splits)
  then show ?thesis
  proof cases
    case 1
    then show ?thesis using assms(2) by (rule finish_waiting_report)
  next
    case 2
    then show ?thesis
      using commit_completed_report [OF 2(2) assms(2) ensured_refs_readable(4) [OF 2(1)]]
      by (simp add: refs_readable_def)
  next
    case 3
    then show ?thesis
      using commit_failed_report [OF 3(2) assms(2) ensured_refs_readable(3) [OF 3(1)]]
      by (simp add: refs_readable_def)
  qed
qed

section \<open>Properties\<close>

text \<open>A configuration, clock and initial state for the witnesses, on the open sample session of the bus.\<close>

definition sample_config :: FixedRouteTaskExecutorConfig where
  "sample_config = \<lparr>cfg_session_id = ''s'', cfg_default_agent_id = ''default_agent''\<rparr>"

definition sample_tick_env :: tick_env where
  "sample_tick_env = \<lparr>te_clock = sample_time, te_message_id = ''m1''\<rparr>"

definition sample_state :: "json exec_state" where
  "sample_state = \<lparr>xs_bus = sample_open, xs_summaries = Some [], xs_messages = Some empty_message_bus,
     xs_notified = Some []\<rparr>"

definition sample_agent :: "json agent" where
  "sample_agent task st = (Inr \<lparr>rr_result_ref = None, rr_error_ref = None, rr_waiting_for_user = False\<rparr>, st)"

text \<open>An agent during whose run the user skips the task.\<close>

definition skipped_agent :: "json agent" where
  "skipped_agent task st = (Inr \<lparr>rr_result_ref = None, rr_error_ref = None, rr_waiting_for_user = False\<rparr>,
     st\<lparr>xs_bus := snd (projr (skip (xs_bus st) (td_session_id task) (td_task_id task) ''not needed''
       (sample_time 5)))\<rparr>)"

text \<open>C7. A tick runs the first eligible task: when nothing interferes between the read and the claim,
  the agent is run on the pending task with a finished parent that comes first in claim order, claimed for
  the default agent, on a bus in which only that task has changed.\<close>

theorem tick_runs_first_eligible:
  assumes "reachable strict (xs_bus st)" "\<not> blank (cfg_default_agent_id cfg)"
    and "select_next_eligible_pending_task (xs_bus st) (cfg_session_id cfg) = Some t"
    and "\<not> blank (td_required_capability t)"
  shows "\<exists>b'. tick P env (Some agent) cfg (\<lambda>st. st) st =
      (let claimed = claim_task (cfg_default_agent_id cfg) (te_clock env 0) t;
           (outcome, st') = agent claimed (st\<lparr>xs_bus := b'\<rparr>)
       in finish_run P env (cfg_session_id cfg) claimed outcome st')
    \<and> (\<forall>s i. get b' s i = (if s = cfg_session_id cfg \<and> i = td_task_id t
          then Some (claim_task (cfg_default_agent_id cfg) (te_clock env 0) t) else get (xs_bus st) s i))
    \<and> claimable (xs_bus st) (cfg_session_id cfg) (td_required_capability t) t
    \<and> (\<forall>c i u. get (xs_bus st) (cfg_session_id cfg) i = Some u \<longrightarrow>
          claimable (xs_bus st) (cfg_session_id cfg) c u \<longrightarrow> claim_key t \<le> claim_key u)"
proof -
  let ?b = "xs_bus st" and ?s = "cfg_session_id cfg" and ?tasks = "list_for_session (xs_bus st) (cfg_session_id cfg)"
  have keyed: "keyed ?b" using reachable_inv [OF assms(1)] by (simp add: bus_inv_def)
  note claim = select_then_claim [OF keyed assms(3,4,2), of "te_clock env 0"]
  have "find (eligible ?tasks) ?tasks = Some t"
    using assms(3) by (simp add: select_next_eligible_pending_task_def Let_def)
  from find_filter [OF this] obtain ts where hd: "filter (eligible ?tasks) ?tasks = t # ts" by blast
  then have t: "t \<in> set ?tasks" "eligible ?tasks t" by (auto simp: filter_eq_Cons_iff)
  then have "claimable ?b ?s (td_required_capability t) t"
    using eligible_claimable [OF keyed] list_for_session_session by (fastforce simp: claimable_def)
  moreover have "claim_key t \<le> claim_key u" if "get ?b ?s i = Some u" "claimable ?b ?s c u" for c i u
  proof -
    have u: "td_session_id u = ?s" "td_status u = Pending \<and> parent_is_done ?b u" "td_task_id u = i"
      using that keyed by (auto simp: claimable_def keyed_def)
    then have "u \<in> set (filter (eligible ?tasks) ?tasks)"
      using eligible_claimable [OF keyed u(1)] list_for_session_mem [OF keyed, of u ?s] that(1) by simp
    moreover have "sorted (map claim_key (filter (eligible ?tasks) ?tasks))"
      by (rule sorted_filter) (simp add: list_for_session_def)
    ultimately show ?thesis using hd by auto
  qed
  ultimately show ?thesis
    using claim assms(3) by (auto simp: tick_def Let_def)
qed

theorem tick_runs_first_eligible_witness:
  "\<exists>b'. tick sample_message_codec sample_tick_env (Some sample_agent) sample_config (\<lambda>st. st) sample_state =
      (let claimed = claim_task ''default_agent'' (sample_time 0) (sample_task ''r'' None);
           (outcome, st') = sample_agent claimed (sample_state\<lparr>xs_bus := b'\<rparr>)
       in finish_run sample_message_codec sample_tick_env ''s'' claimed outcome st')"
proof -
  have bus: "xs_bus sample_state = sample_open" by (simp add: sample_state_def)
  have sel: "select_next_eligible_pending_task (xs_bus sample_state) (cfg_session_id sample_config)
      = Some (sample_task ''r'' None)" by code_simp
  have "\<not> blank (cfg_default_agent_id sample_config)" "\<not> blank (td_required_capability (sample_task ''r'' None))"
    by code_simp+
  from tick_runs_first_eligible [OF sample_open_reachable [folded bus] this(1) sel this(2),
      of sample_message_codec sample_tick_env sample_agent]
  show ?thesis by (auto simp: sample_config_def sample_tick_env_def)
qed

lemma tick_report:
  assumes "tick P env (Some agent) cfg meanwhile st = (Inr r, st')"
    and "tr_status r \<noteq> Tick_idle" "tr_status r \<noteq> Claim_not_available"
  shows "\<exists>i. tr_claimed_task_id r = Some i \<and> report_sound (cfg_session_id cfg) i r st' \<and> refs_readable r st'"
proof -
  from assms obtain candidate where
    sel: "select_next_eligible_pending_task (xs_bus st) (cfg_session_id cfg) = Some candidate"
    by (cases "select_next_eligible_pending_task (xs_bus st) (cfg_session_id cfg)")
      (auto simp: tick_def Let_def tick_result_def)
  let ?claim = "claim_next (xs_bus (meanwhile st)) (cfg_session_id cfg) (td_required_capability candidate)
        (cfg_default_agent_id cfg) (te_clock env 0)"
  obtain x b where x: "?claim = Inr (x, b)"
    using assms(1) sel by (cases ?claim) (auto simp: tick_def Let_def)
  obtain claimed where claim: "?claim = Inr (Some claimed, b)"
    using assms sel x by (cases x) (auto simp: tick_def Let_def tick_result_def)
  obtain outcome st1 where "agent claimed ((meanwhile st)\<lparr>xs_bus := b\<rparr>) = (outcome, st1)" by fastforce
  with assms(1) sel claim have run: "finish_run P env (cfg_session_id cfg) claimed outcome st1 = (Inr r, st')"
    by (simp add: tick_def Let_def)
  have "td_session_id claimed = cfg_session_id cfg"
    using claim by (auto elim!: claim_next_Some simp: claimable_def claim_task_def)
  from finish_run_report [OF run this] show ?thesis by (auto simp: report_sound_def report_true_def unconfirmed_report_def split: if_splits)
qed

text \<open>C8. A tick does not misreport its task: whatever the agent did, a tick that returns with something claimed says completed only
  if that task is done with the reported result, waiting only if it waits for the user, and names a failed task only if the
  claimed task is failed with the reported error. The one report that claims a failure without one is marked: it
  names no failed task and carries \<open>waiting_without_task_state\<close>, and the task is neither running nor waiting then.\<close>

theorem tick_report_is_true:
  assumes "tick P env (Some agent) cfg meanwhile st = (Inr r, st')"
    and "tr_status r \<noteq> Tick_idle" "tr_status r \<noteq> Claim_not_available"
  shows "\<exists>i. tr_claimed_task_id r = Some i
    \<and> (if tr_status r = Tick_failed \<and> tr_failed_task_id r = None then unconfirmed_report (cfg_session_id cfg) i r st'
       else report_true (cfg_session_id cfg) i r st')"
  using tick_report [OF assms] by (auto simp: report_sound_def)

text \<open>Every reference a tick reports can be read: when a summary store is configured, the result
  reference of a completed tick and the error reference of a failed one have a summary in it.\<close>

theorem tick_refs_readable:
  assumes "tick P env (Some agent) cfg meanwhile st = (Inr r, st')" "xs_summaries st' = Some store"
    and "tr_status r = Tick_completed \<and> ref = tr_result_ref r \<or> tr_status r = Tick_failed \<and> ref = tr_error_ref r"
  shows "\<exists>i s. ref = Some i \<and> summary_get store i = Some s"
  using tick_report [OF assms(1)] assms(2,3) by (auto simp: refs_readable_def ref_readable_def)

definition sample_tick :: "TaskExecutionTickResult result \<times> json exec_state" where
  "sample_tick = tick sample_message_codec sample_tick_env (Some sample_agent) sample_config (\<lambda>st. st) sample_state"

lemma sample_tick_completed:
  "sample_tick = (Inr (projr (fst sample_tick)), snd sample_tick)"
  "tr_status (projr (fst sample_tick)) = Tick_completed"
proof -
  have "is_ok (fst sample_tick)" by code_simp
  then show "sample_tick = (Inr (projr (fst sample_tick)), snd sample_tick)"
    by (elim is_okE) (metis prod.collapse sum.sel(2))
  show "tr_status (projr (fst sample_tick)) = Tick_completed" by code_simp
qed

theorem tick_report_is_true_witness:
  "\<exists>i. tr_claimed_task_id (projr (fst sample_tick)) = Some i
    \<and> report_true ''s'' i (projr (fst sample_tick)) (snd sample_tick)"
proof -
  have "tick sample_message_codec sample_tick_env (Some sample_agent) sample_config (\<lambda>st. st) sample_state
      = (Inr (projr (fst sample_tick)), snd sample_tick)"
    using sample_tick_completed(1) by (simp add: sample_tick_def [symmetric])
  from tick_report_is_true [OF this] sample_tick_completed(2) show ?thesis by (simp add: sample_config_def)
qed

theorem tick_refs_readable_witness:
  "\<exists>i s. tr_result_ref (projr (fst sample_tick)) = Some i
    \<and> summary_get (the (xs_summaries (snd sample_tick))) i = Some s"
proof (rule tick_refs_readable)
  show "tick sample_message_codec sample_tick_env (Some sample_agent) sample_config (\<lambda>st. st) sample_state
      = (Inr (projr (fst sample_tick)), snd sample_tick)"
    using sample_tick_completed(1) by (simp add: sample_tick_def [symmetric])
  show "xs_summaries (snd sample_tick) = Some (the (xs_summaries (snd sample_tick)))" by code_simp
  show "tr_status (projr (fst sample_tick)) = Tick_completed
      \<and> tr_result_ref (projr (fst sample_tick)) = tr_result_ref (projr (fst sample_tick))
    \<or> tr_status (projr (fst sample_tick)) = Tick_failed
      \<and> tr_result_ref (projr (fst sample_tick)) = tr_error_ref (projr (fst sample_tick))"
    using sample_tick_completed(2) by simp
qed

text \<open>A tick raises when its task was settled while the agent ran: if the agent returns a result but the task
  is no longer running, because the user skipped it for example, \<open>complete\<close> refuses and the
  \<open>TaskStoreError\<close> leaves \<open>tick\<close>.\<close>

theorem tick_raises_when_settled_meanwhile:
  assumes "select_next_eligible_pending_task (xs_bus st) (cfg_session_id cfg) = Some t"
    and "claim_next (xs_bus st) (cfg_session_id cfg) (td_required_capability t) (cfg_default_agent_id cfg)
          (te_clock env 0) = Inr (Some claimed, b)"
    and "agent claimed (st\<lparr>xs_bus := b\<rparr>) = (Inr rr, st1)" "rr_ok rr" "xs_summaries st1 = None"
    and "get (xs_bus st1) (cfg_session_id cfg) (td_task_id claimed) = Some w" "td_status w \<noteq> Running"
  shows "tick P env (Some agent) cfg (\<lambda>st. st) st = (Inl (TaskStoreError
    (Msg ''only running tasks can transition to {}; got {}'' [''done'', task_status_str (td_status w)])), st1)"
proof -
  have "td_session_id claimed = cfg_session_id cfg"
    using assms(2) by (auto elim!: claim_next_Some simp: claimable_def claim_task_def)
  moreover have "st1\<lparr>xs_summaries := None\<rparr> = st1" using assms(5) by (cases st1) simp
  ultimately show ?thesis
    using assms by (simp add: tick_def Let_def finish_run_def rr_ok_def ensure_result_ref_readable_def
        commit_completed_def complete_def update_task_def require_task_def transition_running_task_def)
qed

definition sample_plain_state :: "json exec_state" where
  "sample_plain_state = \<lparr>xs_bus = sample_open, xs_summaries = None, xs_messages = None, xs_notified = None\<rparr>"

theorem tick_raises_when_settled_meanwhile_witness:
  "\<exists>st1. tick sample_message_codec sample_tick_env (Some skipped_agent) sample_config (\<lambda>st. st) sample_plain_state
    = (Inl (TaskStoreError (Msg ''only running tasks can transition to {}; got {}'' [''done'', ''failed''])), st1)"
proof -
  let ?claim = "claim_next (xs_bus sample_plain_state) (cfg_session_id sample_config)
    (td_required_capability (sample_task ''r'' None)) (cfg_default_agent_id sample_config) (te_clock sample_tick_env 0)"
  let ?c = "claim_task ''default_agent'' (sample_time 0) (sample_task ''r'' None)" and ?b = "snd (projr ?claim)"
  let ?st1 = "snd (skipped_agent ?c (sample_plain_state\<lparr>xs_bus := ?b\<rparr>))"
  let ?w = "the (get (xs_bus ?st1) ''s'' ''r'')"
  have sel: "select_next_eligible_pending_task (xs_bus sample_plain_state) (cfg_session_id sample_config)
      = Some (sample_task ''r'' None)" by code_simp
  have "is_ok ?claim" "fst (projr ?claim) = Some ?c" by code_simp+
  then have claim: "?claim = Inr (Some ?c, ?b)" by (elim is_okE) (metis prod.collapse sum.sel(2))
  have run: "skipped_agent ?c (sample_plain_state\<lparr>xs_bus := ?b\<rparr>)
      = (Inr \<lparr>rr_result_ref = None, rr_error_ref = None, rr_waiting_for_user = False\<rparr>, ?st1)"
    by (simp add: skipped_agent_def)
  have w: "get (xs_bus ?st1) (cfg_session_id sample_config) (td_task_id ?c) = Some ?w"
    "td_status ?w = Failed" "xs_summaries ?st1 = None" by code_simp+
  show ?thesis
    using tick_raises_when_settled_meanwhile [where agent = skipped_agent and P = sample_message_codec, OF sel claim run _ w(3) w(1)] w(2)
    by (auto simp: rr_ok_def)
qed

text \<open>A task whose capability is only white space blocks its session: it passes the field constraints of
  \<open>TaskDomain\<close>, and once it is the first eligible task every tick raises before any task is claimed, on an
  unchanged state.\<close>

theorem blank_capability_blocks_session:
  assumes "select_next_eligible_pending_task (xs_bus st) (cfg_session_id cfg) = Some t"
    and "blank (td_required_capability t)"
  shows "tick P env (Some agent) cfg (\<lambda>st. st) st
    = (Inl (TaskStoreError (Msg ''claim capability must not be empty'' [])), st)"
  using assms by (simp add: tick_def Let_def claim_next_def)

definition sample_blank_task :: TaskDomain where
  "sample_blank_task = (sample_task ''r'' None)\<lparr>td_required_capability := '' ''\<rparr>"

definition sample_blocked_bus :: InMemoryTaskBus where
  "sample_blocked_bus = snd (projr (publish empty_bus sample_blank_task))"

theorem blank_capability_blocks_session_witness:
  "TaskDomain_validate sample_blank_task = Inr sample_blank_task
   \<and> tick sample_message_codec sample_tick_env (Some sample_agent) sample_config (\<lambda>st. st)
        (sample_plain_state\<lparr>xs_bus := sample_blocked_bus\<rparr>)
      = (Inl (TaskStoreError (Msg ''claim capability must not be empty'' [])),
         sample_plain_state\<lparr>xs_bus := sample_blocked_bus\<rparr>)"
proof
  show "TaskDomain_validate sample_blank_task = Inr sample_blank_task" by code_simp
  have "select_next_eligible_pending_task sample_blocked_bus ''s'' = Some sample_blank_task"
    "blank (td_required_capability sample_blank_task)" by code_simp+
  then show "tick sample_message_codec sample_tick_env (Some sample_agent) sample_config (\<lambda>st. st)
        (sample_plain_state\<lparr>xs_bus := sample_blocked_bus\<rparr>)
      = (Inl (TaskStoreError (Msg ''claim capability must not be empty'' [])),
         sample_plain_state\<lparr>xs_bus := sample_blocked_bus\<rparr>)"
    by (intro blank_capability_blocks_session) (simp_all add: sample_config_def)
qed

lemma builder_kinds:
  "build_execution_exception_summary ref t exc t0 t1 = Inr s \<Longrightarrow> sm_kind s = Error_kind"
  "build_agent_loop_result_summary ref t a r t0 t1 = Inr s \<Longrightarrow> sm_kind s = Result_kind"
  "build_agent_loop_error_summary ref t r a t0 t1 = Inr s \<Longrightarrow> sm_kind s = Error_kind"
  by (auto simp: build_execution_exception_summary_def build_agent_loop_result_summary_def
      build_agent_loop_error_summary_def Let_def base_summary_def dest!: TaskExecutionSummary_new_same)

text \<open>A run result and its summary: exactly one reference, readable and of the right kind.\<close>

definition run_result_backed :: "TaskRunResult \<Rightarrow> summary_store \<Rightarrow> bool" where
  "run_result_backed rr store \<longleftrightarrow> (\<exists>i s. summary_get store i = Some s \<and>
     (rr_result_ref rr = Some i \<and> rr_error_ref rr = None \<and> sm_kind s = Result_kind
      \<or> rr_result_ref rr = None \<and> rr_error_ref rr = Some i \<and> sm_kind s = Error_kind))"

lemma run_result_backedI:
  "sm_summary_id s = ref \<Longrightarrow> sm_kind s = Result_kind \<Longrightarrow> run_result_backed
     \<lparr>rr_result_ref = Some ref, rr_error_ref = None, rr_waiting_for_user = w\<rparr> (summary_put old s)"
  "sm_summary_id s = ref \<Longrightarrow> sm_kind s = Error_kind \<Longrightarrow> run_result_backed
     \<lparr>rr_result_ref = None, rr_error_ref = Some ref, rr_waiting_for_user = w\<rparr> (summary_put old s)"
  by (auto simp: run_result_backed_def)

lemma put_or_raise_backed:
  assumes "put_or_raise r (\<lambda>store. put_built store built) st = (Inr rr, st')" "xs_summaries st' = Some store"
    and "\<And>s old. built = Inr s \<Longrightarrow> run_result_backed r (summary_put old s)"
  shows "run_result_backed rr store"
  using assms by (auto simp: put_or_raise_def put_built_def map_ok_def split: option.splits sum.splits)

text \<open>What the AgentLoop adapter reports it has stored: with a summary store, a run that does not wait for the
  user gives exactly one reference, and that reference reads a summary of the matching kind, also when the
  context could not be built or the loop was interrupted.\<close>

theorem agent_loop_run_backed:
  assumes "agent_loop_run env A task st = (Inr rr, st')" "xs_summaries st' = Some store"
    and "\<not> rr_waiting_for_user rr"
  shows "run_result_backed rr store"
proof (cases "case al_build_context A of None \<Rightarrow> Inr (td_intent task) | Some build \<Rightarrow> build task")
  case (Inl exc)
  with assms show ?thesis
    by (auto simp: agent_loop_run_def store_context_build_exception_summary_def put_built_def map_ok_def Let_def
        run_result_backed_def builder_ids builder_kinds split: sum.splits option.splits)
next
  case (Inr run_input)
  then obtain result st1 where "al_loop A task run_input st = (Inr result, st1)"
    and out: "agent_loop_outcome env A task result st1 = (Inr rr, st')"
    using assms(1) by (auto simp: agent_loop_run_def split: prod.splits sum.splits)
  show ?thesis
    using out assms(2,3)
    by (auto simp: agent_loop_outcome_def Let_def builder_ids builder_kinds
        intro: run_result_backedI elim!: put_or_raise_backed split: if_splits)
qed

definition sample_loop_agent :: "json AgentLoopResidentDefaultAgent" where
  "sample_loop_agent = \<lparr>al_loop = (\<lambda>task text st. (Inr \<lparr>lr_final_answer = [], lr_steps = 1,
     lr_finished = False, lr_stop_reason = ''max_steps''\<rparr>, st)), al_result_ref_prefix = ''agent_loop'',
     al_error_ref_prefix = ''agent_loop_failed'', al_build_context = None\<rparr>"

definition sample_loop_run :: "(py_exception + TaskRunResult) \<times> json exec_state" where
  "sample_loop_run = agent_loop_run sample_tick_env sample_loop_agent (sample_task ''r'' None) sample_state"

theorem agent_loop_run_backed_witness:
  "rr_error_ref (projr (fst sample_loop_run)) = Some ''agent_loop_failed:s:r:max_steps''
    \<and> run_result_backed (projr (fst sample_loop_run)) (the (xs_summaries (snd sample_loop_run)))"
proof
  show "rr_error_ref (projr (fst sample_loop_run)) = Some ''agent_loop_failed:s:r:max_steps''" by code_simp
  have "Sum_Type.isl (fst sample_loop_run) = False" by code_simp
  then have "agent_loop_run sample_tick_env sample_loop_agent (sample_task ''r'' None) sample_state
      = (Inr (projr (fst sample_loop_run)), snd sample_loop_run)"
    unfolding sample_loop_run_def [symmetric] by (simp add: prod_eq_iff)
  moreover have "xs_summaries (snd sample_loop_run) = Some (the (xs_summaries (snd sample_loop_run)))" by code_simp
  moreover have "\<not> rr_waiting_for_user (projr (fst sample_loop_run))" by code_simp
  ultimately show "run_result_backed (projr (fst sample_loop_run)) (the (xs_summaries (snd sample_loop_run)))"
    by (rule agent_loop_run_backed)
qed

end
