(* ===== verification/Dispatcher.thy ===== *)
theory Dispatcher
  imports Executor
begin

text \<open>
  \<open>FixedRouteExecutionDispatcher\<close> of \<^verbatim>\<open>task/execution.py\<close>: the background worker that runs the
  executor for the sessions that ask for it.

  Each block under \<open>_condition\<close> is one atomic step. The worker thread is a control point: it waits for
  the condition, drains a session with some ticks left, or is about to run the \<open>finally\<close> block, after a
  normal end of the drain or after an exception; after an exception it leaves the loop and, a moment later, is no
  longer alive. What a tick does to the TaskBus is
  \<open>drain_session\<close>, a loop over \<open>Executor.tick\<close>; the interleaving of requests, \<open>stop\<close> and the worker
  is the step relation \<open>dstep\<close>, in which a tick reports a status or raises. Waiting for the thread to end in
  \<open>stop\<close> changes no state.
\<close>

section \<open>Draining one session\<close>

text \<open>\<open>_drain_session\<close>: \<open>env\<close> and \<open>meanwhile\<close> give each tick its clock and its interference. Returned are
  the results of the ticks, the exception that ended the loop if there was one, and the state.\<close>

fun drain_session ::
  "'j message_codec \<Rightarrow> (nat \<Rightarrow> tick_env) \<Rightarrow> 'j agent option \<Rightarrow> FixedRouteTaskExecutorConfig
     \<Rightarrow> (nat \<Rightarrow> 'j exec_state \<Rightarrow> 'j exec_state) \<Rightarrow> nat \<Rightarrow> 'j exec_state
     \<Rightarrow> TaskExecutionTickResult list \<times> py_error option \<times> 'j exec_state" where
  "drain_session P env agent cfg meanwhile 0 st = ([], None, st)"
| "drain_session P env agent cfg meanwhile (Suc n) st =
     (case tick P (env n) agent cfg (meanwhile n) st of
        (Inl e, st') \<Rightarrow> ([], Some e, st')
      | (Inr r, st') \<Rightarrow>
          if tr_status r \<noteq> Tick_completed then ([r], None, st')
          else (case drain_session P env agent cfg meanwhile n st' of
                  (rs, e, st'') \<Rightarrow> (r # rs, e, st'')))"

section \<open>State\<close>

datatype worker =
    No_worker
  | Waiting_worker
  | Draining string nat
  | Finishing string bool
  | Dying_worker
  | Dead_worker

record dispatcher =
  dp_enabled :: bool
  dp_has_agent :: bool
  dp_max_ticks :: nat
  dp_pending_ids :: "string set"
  dp_pending :: "string list"
  dp_running :: "string set"
  dp_closed :: bool
  dp_worker :: worker

text \<open>\<open>__init__\<close>: \<open>max(1, max_ticks_per_trigger)\<close>.\<close>

definition new_dispatcher :: "bool \<Rightarrow> bool \<Rightarrow> int \<Rightarrow> dispatcher" where
  "new_dispatcher enabled has_agent max_ticks_per_trigger =
     \<lparr>dp_enabled = enabled, dp_has_agent = has_agent, dp_max_ticks = nat (max 1 max_ticks_per_trigger),
      dp_pending_ids = {}, dp_pending = [], dp_running = {}, dp_closed = False, dp_worker = No_worker\<rparr>"

datatype ExecutionDispatchRequestStatus =
  Queued | Already_pending | Already_running | Disabled | Dispatch_health_error | Closed_dispatcher

datatype ExecutionDispatchTriggerReason =
    Publish_start_immediately | Retry_start_immediately | Ask_answer_resume | Manual_control_route
  | Startup_recovery

record ExecutionDispatchRequestResult =
  dr_status :: ExecutionDispatchRequestStatus
  dr_session_id :: string
  dr_reason :: ExecutionDispatchTriggerReason
  dr_request_id :: "string option"
  dr_message :: string
  dr_error_ref :: "string option"

definition dr_accepted :: "ExecutionDispatchRequestResult \<Rightarrow> bool" where
  "dr_accepted r \<longleftrightarrow> dr_status r \<in> {Queued, Already_pending, Already_running}"

fun dispatch_message :: "ExecutionDispatchRequestStatus \<Rightarrow> string" where
  "dispatch_message Queued = ''execution dispatch queued''"
| "dispatch_message Already_pending = ''execution dispatch already pending''"
| "dispatch_message Already_running = ''execution dispatch already running''"
| "dispatch_message Disabled = ''execution dispatcher is disabled''"
| "dispatch_message Dispatch_health_error = ''execution dispatcher is unavailable''"
| "dispatch_message Closed_dispatcher = ''execution dispatcher is closed''"

definition dispatch_result ::
  "ExecutionDispatchRequestStatus \<Rightarrow> string \<Rightarrow> ExecutionDispatchTriggerReason \<Rightarrow> string option
     \<Rightarrow> string option \<Rightarrow> ExecutionDispatchRequestResult" where
  "dispatch_result status session_id why request_id error_ref =
     \<lparr>dr_status = status, dr_session_id = session_id, dr_reason = why, dr_request_id = request_id,
      dr_message = dispatch_message status, dr_error_ref = error_ref\<rparr>"

section \<open>Operations\<close>

text \<open>\<open>_worker.is_alive()\<close>.\<close>

fun worker_alive :: "worker \<Rightarrow> bool" where
  "worker_alive No_worker = False"
| "worker_alive Dead_worker = False"
| "worker_alive _ = True"

definition ensure_worker_locked :: "dispatcher \<Rightarrow> dispatcher" where
  "ensure_worker_locked d =
     (if worker_alive (dp_worker d) then d else d\<lparr>dp_worker := Waiting_worker\<rparr>)"

definition request_dispatch ::
  "dispatcher \<Rightarrow> string \<Rightarrow> ExecutionDispatchTriggerReason \<Rightarrow> string option
     \<Rightarrow> ExecutionDispatchRequestResult \<times> dispatcher" where
  "request_dispatch d session_id why request_id =
     (if dp_closed d
      then (dispatch_result Closed_dispatcher session_id why request_id
              (Some ''execution_dispatcher_closed''), d)
      else if \<not> dp_enabled d
      then (dispatch_result Disabled session_id why request_id
              (Some ''execution_dispatcher_disabled''), d)
      else if \<not> dp_has_agent d
      then (dispatch_result Dispatch_health_error session_id why request_id
              (Some ''default_agent_unavailable''), d)
      else if session_id \<in> dp_pending_ids d
      then (dispatch_result Already_pending session_id why request_id None, d)
      else if session_id \<in> dp_running d
      then (dispatch_result Already_running session_id why request_id None, d)
      else (dispatch_result Queued session_id why request_id None,
            ensure_worker_locked (d\<lparr>dp_pending_ids := insert session_id (dp_pending_ids d),
              dp_pending := dp_pending d @ [session_id]\<rparr>)))"

definition stop :: "dispatcher \<Rightarrow> dispatcher" where
  "stop d = d\<lparr>dp_closed := True, dp_pending_ids := {}, dp_pending := []\<rparr>"

text \<open>The head of the loop of \<open>_run\<close>: None while the worker waits for the condition.\<close>

definition worker_take :: "dispatcher \<Rightarrow> dispatcher option" where
  "worker_take d =
     (if dp_worker d \<noteq> Waiting_worker then None
      else if dp_closed d then Some (d\<lparr>dp_worker := Dying_worker\<rparr>)
      else case dp_pending d of
             [] \<Rightarrow> None
           | s # rest \<Rightarrow> Some (d\<lparr>dp_pending := rest, dp_pending_ids := dp_pending_ids d - {s},
                             dp_running := insert s (dp_running d),
                             dp_worker := Draining s (dp_max_ticks d)\<rparr>))"

text \<open>One tick of the drain: None stands for a tick that raised.\<close>

definition worker_tick :: "TaskExecutionTickStatus option \<Rightarrow> dispatcher \<Rightarrow> dispatcher option" where
  "worker_tick outcome d =
     (case dp_worker d of
        Draining s n \<Rightarrow>
          Some (d\<lparr>dp_worker :=
            (case outcome of
               None \<Rightarrow> Finishing s True
             | Some status \<Rightarrow>
                 if status \<noteq> Tick_completed \<or> n \<le> 1 then Finishing s False else Draining s (n - 1))\<rparr>)
      | _ \<Rightarrow> None)"

text \<open>The \<open>finally\<close> block; an exception then leaves the loop, and the thread dies.\<close>

definition worker_finish :: "dispatcher \<Rightarrow> dispatcher option" where
  "worker_finish d =
     (case dp_worker d of
        Finishing s raised \<Rightarrow>
          Some (d\<lparr>dp_running := dp_running d - {s},
                  dp_worker := (if raised then Dying_worker else Waiting_worker)\<rparr>)
      | _ \<Rightarrow> None)"

definition worker_die :: "dispatcher \<Rightarrow> dispatcher option" where
  "worker_die d = (if dp_worker d = Dying_worker then Some (d\<lparr>dp_worker := Dead_worker\<rparr>) else None)"

section \<open>Steps\<close>

datatype devent =
    Request string ExecutionDispatchRequestStatus
  | Stop_event
  | Take string
  | Exit_event
  | Tick_event string "TaskExecutionTickStatus option"
  | Finish string
  | Die

inductive dstep :: "dispatcher \<Rightarrow> devent \<Rightarrow> dispatcher \<Rightarrow> bool" where
  request: "request_dispatch d s why rid = (r, d') \<Longrightarrow> dstep d (Request s (dr_status r)) d'"
| stop: "dstep d Stop_event (stop d)"
| take: "worker_take d = Some d' \<Longrightarrow> dp_worker d' = Draining s n \<Longrightarrow> dstep d (Take s) d'"
| exit: "worker_take d = Some d' \<Longrightarrow> dp_worker d' = Dying_worker \<Longrightarrow> dstep d Exit_event d'"
| tick: "dp_worker d = Draining s n \<Longrightarrow> worker_tick outcome d = Some d' \<Longrightarrow>
    dstep d (Tick_event s outcome) d'"
| finish: "dp_worker d = Finishing s raised \<Longrightarrow> worker_finish d = Some d' \<Longrightarrow> dstep d (Finish s) d'"
| die: "worker_die d = Some d' \<Longrightarrow> dstep d Die d'"

inductive_cases request_stepE: "dstep d (Request s st) d'"
inductive_cases take_stepE: "dstep d (Take s) d'"
inductive_cases tick_stepE: "dstep d (Tick_event s out) d'"
inductive_cases finish_stepE: "dstep d (Finish s) d'"

inductive dsteps :: "dispatcher \<Rightarrow> devent list \<Rightarrow> dispatcher \<Rightarrow> bool" where
  none: "dsteps d [] d"
| more: "dsteps d es d' \<Longrightarrow> dstep d' e d'' \<Longrightarrow> dsteps d (es @ [e]) d''"

section \<open>Invariant\<close>

text \<open>The session the worker is busy with.\<close>

fun busy :: "worker \<Rightarrow> string set" where
  "busy (Draining s n) = {s}"
| "busy (Finishing s raised) = {s}"
| "busy _ = {}"

definition disp_inv :: "dispatcher \<Rightarrow> bool" where
  "disp_inv d \<longleftrightarrow> distinct (dp_pending d) \<and> dp_pending_ids d = set (dp_pending d)
     \<and> dp_running d = busy (dp_worker d) \<and> (dp_closed d \<longrightarrow> dp_pending d = [])
     \<and> dp_running d \<inter> set (dp_pending d) = {}
     \<and> (case dp_worker d of Draining s n \<Rightarrow> 1 \<le> n \<and> n \<le> dp_max_ticks d | _ \<Rightarrow> True)
     \<and> (dp_worker d = No_worker \<longrightarrow> dp_pending d = []) \<and> 1 \<le> dp_max_ticks d"

lemma new_dispatcher_inv: "disp_inv (new_dispatcher e a m)"
  by (auto simp: disp_inv_def new_dispatcher_def)

lemma dstep_inv: "dstep d e d' \<Longrightarrow> disp_inv d \<Longrightarrow> disp_inv d'"
proof (induction rule: dstep.induct)
  case (request d s why rid r d')
  then show ?case
    by (cases "dp_worker d") (auto simp: request_dispatch_def ensure_worker_locked_def disp_inv_def
        split: if_splits)
next
  case (stop d)
  then show ?case by (auto simp: stop_def disp_inv_def split: worker.splits)
next
  case (take d d' s n)
  then show ?case
    by (auto simp: worker_take_def disp_inv_def split: if_splits list.splits)
next
  case (exit d d')
  then show ?case
    by (auto simp: worker_take_def disp_inv_def split: if_splits list.splits)
next
  case (tick d s n outcome d')
  then show ?case
    by (auto simp: worker_tick_def disp_inv_def split: option.splits if_splits)
next
  case (finish d s raised d')
  then show ?case
    by (auto simp: worker_finish_def disp_inv_def split: if_splits)
next
  case (die d d')
  then show ?case by (auto simp: worker_die_def disp_inv_def split: if_splits)
qed

lemma dsteps_inv: "dsteps d es d' \<Longrightarrow> disp_inv d \<Longrightarrow> disp_inv d'"
  by (induction rule: dsteps.induct) (auto intro: dstep_inv)

section \<open>Traces\<close>

text \<open>The sessions a trace queued and took, in order, and the ticks since the last take.\<close>

fun queued_of :: "devent \<Rightarrow> string list" where
  "queued_of (Request s Queued) = [s]"
| "queued_of _ = []"

fun taken_of :: "devent \<Rightarrow> string list" where
  "taken_of (Take s) = [s]"
| "taken_of _ = []"

fun ticks_after :: "nat \<Rightarrow> devent \<Rightarrow> nat" where
  "ticks_after n (Take s) = 0"
| "ticks_after n (Tick_event s out) = Suc n"
| "ticks_after n e = n"

definition ticks_since_take :: "devent list \<Rightarrow> nat" where
  "ticks_since_take es = foldl ticks_after 0 es"

lemma ticks_since_take_simps [simp]:
  "ticks_since_take [] = 0"
  "ticks_since_take (es @ [e]) = ticks_after (ticks_since_take es) e"
  by (simp_all add: ticks_since_take_def)

lemma request_queued:
  assumes "request_dispatch d s why rid = (r, d')" and "disp_inv d"
  shows "dp_pending d' = dp_pending d @ queued_of (Request s (dr_status r))"
  using assms by (auto simp: request_dispatch_def dispatch_result_def ensure_worker_locked_def split: if_splits)

lemma request_worker:
  assumes "request_dispatch d s why rid = (r, d')"
  shows "dp_worker d' = dp_worker d \<or> (dp_worker d' = Waiting_worker \<and> busy (dp_worker d) = {})"
  using assms
  by (cases "dp_worker d") (auto simp: request_dispatch_def ensure_worker_locked_def split: if_splits)

lemma dstep_fifo:
  assumes "dstep d e d'" and "e \<noteq> Stop_event" and "disp_inv d"
  shows "taken_of e @ dp_pending d' = dp_pending d @ queued_of e"
  using assms
proof (cases rule: dstep.cases)
  case (request s why rid r)
  then show ?thesis using assms request_queued by simp
qed (auto simp: worker_take_def worker_tick_def worker_finish_def worker_die_def disp_inv_def
    split: if_splits list.splits)

lemma dstep_max_ticks: "dstep d e d' \<Longrightarrow> dp_max_ticks d' = dp_max_ticks d"
  by (erule dstep.cases) (auto simp: request_dispatch_def ensure_worker_locked_def stop_def worker_take_def
      worker_tick_def worker_finish_def worker_die_def split: if_splits list.splits)

lemma dsteps_max_ticks: "dsteps d es d' \<Longrightarrow> dp_max_ticks d' = dp_max_ticks d"
  by (induction rule: dsteps.induct) (auto dest: dstep_max_ticks)

text \<open>Ticks done and ticks left of a drain make up the budget.\<close>

definition ticks_inv :: "nat \<Rightarrow> dispatcher \<Rightarrow> bool" where
  "ticks_inv k d \<longleftrightarrow> k \<le> dp_max_ticks d
     \<and> (\<forall>s n. dp_worker d = Draining s n \<longrightarrow> k + n = dp_max_ticks d)"

lemma dstep_ticks:
  assumes "dstep d e d'" and "disp_inv d" and "ticks_inv k d"
  shows "ticks_inv (ticks_after k e) d'"
  using assms
proof (cases rule: dstep.cases)
  case (request s why rid r)
  then show ?thesis
    using request_worker [of d s why rid r d'] assms(3) dstep_max_ticks [OF assms(1)]
    by (auto simp: ticks_inv_def)
next
  case (tick s n outcome)
  then show ?thesis using assms
    by (auto simp: worker_tick_def ticks_inv_def disp_inv_def split: option.splits if_splits)
qed (auto simp: stop_def worker_take_def worker_finish_def worker_die_def ticks_inv_def
    split: if_splits list.splits)

lemma dsteps_ticks:
  "dsteps d es d' \<Longrightarrow> disp_inv d \<Longrightarrow> ticks_inv 0 d \<Longrightarrow> ticks_inv (ticks_since_take es) d'"
  by (induction rule: dsteps.induct) (auto intro: dstep_ticks dsteps_inv)

lemma dsteps_fifo:
  "dsteps d es d' \<Longrightarrow> disp_inv d \<Longrightarrow> Stop_event \<notin> set es \<Longrightarrow>
     concat (map taken_of es) @ dp_pending d' = dp_pending d @ concat (map queued_of es)"
proof (induction rule: dsteps.induct)
  case (none d)
  then show ?case by simp
next
  case (more d es d' e d'')
  have "taken_of e @ dp_pending d'' = dp_pending d' @ queued_of e"
    using more dstep_fifo dsteps_inv by auto
  then show ?case using more by auto
qed

section \<open>Progress of the worker\<close>

text \<open>The worker alone, driven by the statuses its ticks report: each status lets it do one step, and the step is
  a tick, which uses the status, or one of the blocks under the lock. The sessions taken are returned.\<close>

definition worker_step :: "TaskExecutionTickStatus \<Rightarrow> dispatcher \<Rightarrow> dispatcher option" where
  "worker_step status d =
     (case dp_worker d of
        Waiting_worker \<Rightarrow> worker_take d
      | Draining s n \<Rightarrow> worker_tick (Some status) d
      | Finishing s raised \<Rightarrow> worker_finish d
      | Dying_worker \<Rightarrow> worker_die d
      | _ \<Rightarrow> None)"

fun worker_run :: "TaskExecutionTickStatus list \<Rightarrow> dispatcher \<Rightarrow> string list \<times> dispatcher" where
  "worker_run [] d = ([], d)"
| "worker_run (status # statuses) d =
     (case worker_step status d of
        None \<Rightarrow> ([], d)
      | Some d' \<Rightarrow>
          (case worker_run statuses d' of
             (taken, d'') \<Rightarrow>
               ((if dp_worker d = Waiting_worker \<and> \<not> dp_closed d then [hd (dp_pending d)] else []) @ taken,
                d'')))"

text \<open>A worker that will come back to the condition: alive, and with no exception under way.\<close>

definition worker_serving :: "dispatcher \<Rightarrow> bool" where
  "worker_serving d \<longleftrightarrow> \<not> dp_closed d
     \<and> (case dp_worker d of Waiting_worker \<Rightarrow> True | Draining s n \<Rightarrow> True | Finishing s raised \<Rightarrow> \<not> raised
        | _ \<Rightarrow> False)"

text \<open>The steps it needs at most: one take, the ticks and one release for every pending session, after what is left
  of the session at hand.\<close>

definition worker_work :: "dispatcher \<Rightarrow> nat" where
  "worker_work d = length (dp_pending d) * (dp_max_ticks d + 2)
     + (case dp_worker d of Draining s n \<Rightarrow> n + 1 | Finishing s raised \<Rightarrow> 1 | _ \<Rightarrow> 0)"

lemma worker_step_cases:
  assumes "disp_inv d" and "worker_serving d"
  shows "(worker_step status d = None \<and> dp_worker d = Waiting_worker \<and> dp_pending d = [])
    \<or> (\<exists>d'. worker_step status d = Some d' \<and> disp_inv d' \<and> worker_serving d' \<and> worker_work d' < worker_work d
          \<and> dp_pending d = (if dp_worker d = Waiting_worker then [hd (dp_pending d)] else []) @ dp_pending d')"
proof (cases "dp_worker d")
  case Waiting_worker
  then show ?thesis using assms
    by (cases "dp_pending d")
      (auto simp: worker_step_def worker_take_def worker_serving_def worker_work_def disp_inv_def)
next
  case (Draining s n)
  then show ?thesis using assms
    by (auto simp: worker_step_def worker_tick_def worker_serving_def worker_work_def disp_inv_def)
next
  case (Finishing s raised)
  then show ?thesis using assms
    by (auto simp: worker_step_def worker_finish_def worker_serving_def worker_work_def disp_inv_def)
qed (use assms in \<open>auto simp: worker_serving_def\<close>)

lemma worker_work_0:
  "disp_inv d \<Longrightarrow> worker_serving d \<Longrightarrow> worker_work d = 0 \<Longrightarrow>
     dp_worker d = Waiting_worker \<and> dp_pending d = []"
  by (auto simp: worker_work_def worker_serving_def split: worker.splits)

lemma worker_run_drains:
  "disp_inv d \<Longrightarrow> worker_serving d \<Longrightarrow> worker_work d \<le> length statuses \<Longrightarrow>
     (\<exists>d'. worker_run statuses d = (dp_pending d, d') \<and> disp_inv d' \<and> worker_serving d'
        \<and> dp_worker d' = Waiting_worker \<and> dp_pending d' = [])"
proof (induction statuses arbitrary: d)
  case Nil
  then show ?case using worker_work_0 [of d] by auto
next
  case (Cons status statuses)
  note open_d = Cons.prems(2)
  from worker_step_cases [OF Cons.prems(1,2), of status] show ?case
  proof (elim disjE exE conjE)
    fix d' assume step: "worker_step status d = Some d'" and inv: "disp_inv d'" and srv: "worker_serving d'"
      and less: "worker_work d' < worker_work d"
      and pend: "dp_pending d = (if dp_worker d = Waiting_worker then [hd (dp_pending d)] else []) @ dp_pending d'"
    have "worker_work d' \<le> length statuses" using less Cons.prems(3) by simp
    from Cons.IH [OF inv srv this] obtain d'' where
      run: "worker_run statuses d' = (dp_pending d', d'')" and
      fin: "disp_inv d'' \<and> worker_serving d'' \<and> dp_worker d'' = Waiting_worker \<and> dp_pending d'' = []"
      by blast
    have "\<not> dp_closed d" using open_d by (simp add: worker_serving_def)
    then have "worker_run (status # statuses) d
        = ((if dp_worker d = Waiting_worker then [hd (dp_pending d)] else []) @ dp_pending d', d'')"
      using step run by simp
    then show ?thesis using fin pend by (metis (no_types, lifting))
  qed (use Cons.prems in auto)
qed

lemma worker_step_dstep:
  assumes "worker_step status d = Some d'"
  shows "\<exists>e. dstep d e d' \<and> e \<noteq> Stop_event \<and> queued_of e = []
    \<and> taken_of e = (if dp_worker d = Waiting_worker \<and> \<not> dp_closed d then [hd (dp_pending d)] else [])"
proof (cases "dp_worker d")
  case Waiting_worker
  show ?thesis
  proof (cases "dp_closed d")
    case True
    then have "dstep d Exit_event d'" using assms Waiting_worker
      by (auto simp: worker_step_def worker_take_def intro!: dstep.exit)
    then show ?thesis using True by (intro exI [of _ Exit_event]) simp
  next
    case False
    then have "dstep d (Take (hd (dp_pending d))) d'" using assms Waiting_worker
      by (auto simp: worker_step_def worker_take_def intro!: dstep.take split: list.splits)
    then show ?thesis using False Waiting_worker by (intro exI [of _ "Take (hd (dp_pending d))"]) simp
  qed
next
  case (Draining s n)
  then have "dstep d (Tick_event s (Some status)) d'" using assms by (auto simp: worker_step_def intro!: dstep.tick)
  then show ?thesis using Draining by (intro exI [of _ "Tick_event s (Some status)"]) simp
next
  case (Finishing s raised)
  then have "dstep d (Finish s) d'" using assms by (auto simp: worker_step_def intro!: dstep.finish)
  then show ?thesis using Finishing by (intro exI [of _ "Finish s"]) simp
next
  case Dying_worker
  then have "dstep d Die d'" using assms by (auto simp: worker_step_def intro!: dstep.die)
  then show ?thesis using Dying_worker by (intro exI [of _ Die]) simp
qed (use assms in \<open>auto simp: worker_step_def\<close>)

lemma dsteps_Cons:
  assumes "dsteps d' es d''" and "dstep d e d'"
  shows "dsteps d (e # es) d''"
  using assms
proof (induction rule: dsteps.induct)
  case (none d')
  then show ?case using dsteps.more [OF dsteps.none] by fastforce
next
  case (more d' es d'' e' d''')
  then show ?case using dsteps.more by fastforce
qed

lemma worker_run_dsteps:
  "worker_run statuses d = (taken, d') \<Longrightarrow>
     \<exists>es. dsteps d es d' \<and> concat (map taken_of es) = taken \<and> concat (map queued_of es) = []"
proof (induction statuses arbitrary: d taken)
  case Nil
  then show ?case using dsteps.none by fastforce
next
  case (Cons status statuses)
  show ?case
  proof (cases "worker_step status d")
    case None
    then show ?thesis using Cons.prems dsteps.none by fastforce
  next
    case (Some d1)
    obtain taken1 where rest: "worker_run statuses d1 = (taken1, d')" using Cons.prems Some
      by (auto split: prod.splits)
    from Cons.IH [OF rest] obtain es where
      es: "dsteps d1 es d'" "concat (map taken_of es) = taken1" "concat (map queued_of es) = []" by blast
    from worker_step_dstep [OF Some] obtain e where
      e: "dstep d e d1" "queued_of e = []"
         "taken_of e = (if dp_worker d = Waiting_worker \<and> \<not> dp_closed d then [hd (dp_pending d)] else [])"
      by blast
    have "dsteps d (e # es) d'" using dsteps_Cons es(1) e(1) by blast
    then show ?thesis using es e Cons.prems Some rest by (intro exI [of _ "e # es"]) auto
  qed
qed

section \<open>Properties\<close>

text \<open>The trace the examples use: session b asks for execution while a is drained, and the tick of a raises.\<close>

definition crash_trace :: "devent list" where
  "crash_trace = [Request ''a'' Queued, Take ''a'', Request ''b'' Queued, Tick_event ''a'' None, Finish ''a'', Die]"

definition crash_state :: dispatcher where
  "crash_state =
     \<lparr>dp_enabled = True, dp_has_agent = True, dp_max_ticks = 2, dp_pending_ids = {''b''}, dp_pending = [''b''],
      dp_running = {}, dp_closed = False, dp_worker = Dead_worker\<rparr>"

definition two_queued :: dispatcher where
  "two_queued =
     \<lparr>dp_enabled = True, dp_has_agent = True, dp_max_ticks = 2, dp_pending_ids = {''a'', ''b''},
      dp_pending = [''a'', ''b''], dp_running = {}, dp_closed = False, dp_worker = Waiting_worker\<rparr>"

lemma dstep_requestI:
  "snd (request_dispatch d s why rid) = d' \<Longrightarrow> dr_status (fst (request_dispatch d s why rid)) = st \<Longrightarrow>
     dstep d (Request s st) d'"
  using dstep.request [of d s why rid "fst (request_dispatch d s why rid)" "snd (request_dispatch d s why rid)"] by auto

lemma crash_trace_steps: "dsteps (new_dispatcher True True 2) crash_trace crash_state"
proof -
  let ?q = "\<lambda>ids ps run w. \<lparr>dp_enabled = True, dp_has_agent = True, dp_max_ticks = 2, dp_pending_ids = ids,
    dp_pending = ps, dp_running = run, dp_closed = False, dp_worker = w\<rparr>"
  note defs = request_dispatch_def dispatch_result_def ensure_worker_locked_def worker_take_def worker_tick_def
    worker_finish_def worker_die_def
  have "dstep (new_dispatcher True True 2) (Request ''a'' Queued) (?q {''a''} [''a''] {} Waiting_worker)"
    by (rule dstep_requestI [where why = Publish_start_immediately and rid = None])
      (simp_all add: defs new_dispatcher_def)
  moreover have "dstep (?q {''a''} [''a''] {} Waiting_worker) (Take ''a'') (?q {} [] {''a''} (Draining ''a'' 2))"
    by (rule dstep.take) (simp_all add: defs)
  moreover have "dstep (?q {} [] {''a''} (Draining ''a'' 2)) (Request ''b'' Queued)
      (?q {''b''} [''b''] {''a''} (Draining ''a'' 2))"
    by (rule dstep_requestI [where why = Publish_start_immediately and rid = None]) (simp_all add: defs)
  moreover have "dstep (?q {''b''} [''b''] {''a''} (Draining ''a'' 2)) (Tick_event ''a'' None)
      (?q {''b''} [''b''] {''a''} (Finishing ''a'' True))"
    by (rule dstep.tick) (simp_all add: defs)
  moreover have "dstep (?q {''b''} [''b''] {''a''} (Finishing ''a'' True)) (Finish ''a'')
      (?q {''b''} [''b''] {} Dying_worker)"
    by (rule dstep.finish) (simp_all add: defs)
  moreover have "dstep (?q {''b''} [''b''] {} Dying_worker) Die crash_state"
    by (rule dstep.die) (simp add: defs crash_state_def)
  ultimately show ?thesis unfolding crash_trace_def by (meson dsteps.none dsteps_Cons)
qed

lemma two_queued_steps:
  "dsteps (new_dispatcher True True 2) [Request ''a'' Queued, Request ''b'' Queued] two_queued"
proof -
  let ?d = "snd (request_dispatch (new_dispatcher True True 2) ''a'' Publish_start_immediately None)"
  note defs = request_dispatch_def dispatch_result_def ensure_worker_locked_def new_dispatcher_def two_queued_def
  have "dstep (new_dispatcher True True 2) (Request ''a'' Queued) ?d"
    by (rule dstep_requestI [where why = Publish_start_immediately and rid = None]) (simp_all add: defs)
  moreover have "dstep ?d (Request ''b'' Queued) two_queued"
    by (rule dstep_requestI [where why = Publish_start_immediately and rid = None])
      (simp_all add: defs insert_commute)
  ultimately show ?thesis by (meson dsteps.none dsteps_Cons)
qed

text \<open>C9. Safety of the dispatcher. However requests, the worker and \<open>stop\<close> interleave, starting from a new
  dispatcher: at most one session is being drained; no session is queued twice, or queued and drained at once; the
  id set mirrors the queue; a closed dispatcher has nothing queued; and one trigger runs at most
  \<open>max(1, max_ticks_per_trigger)\<close> ticks.\<close>

theorem dispatcher_safe:
  assumes "dsteps (new_dispatcher enabled has_agent max_ticks) es d"
  shows "card (dp_running d) \<le> 1 \<and> distinct (dp_pending d) \<and> dp_pending_ids d = set (dp_pending d)
    \<and> dp_running d \<inter> set (dp_pending d) = {} \<and> (dp_closed d \<longrightarrow> dp_pending d = [])
    \<and> int (ticks_since_take es) \<le> max 1 max_ticks"
proof -
  let ?d0 = "new_dispatcher enabled has_agent max_ticks"
  have inv: "disp_inv d" using dsteps_inv [OF assms new_dispatcher_inv] .
  have "ticks_inv 0 ?d0" by (simp add: ticks_inv_def new_dispatcher_def)
  then have "ticks_inv (ticks_since_take es) d" using dsteps_ticks [OF assms new_dispatcher_inv] by blast
  then have "ticks_since_take es \<le> nat (max 1 max_ticks)"
    using dsteps_max_ticks [OF assms] by (simp add: ticks_inv_def new_dispatcher_def)
  moreover have "card (dp_running d) \<le> 1" using inv by (cases "dp_worker d") (auto simp: disp_inv_def)
  ultimately show ?thesis using inv by (auto simp: disp_inv_def)
qed

theorem dispatcher_safe_witness: "int (ticks_since_take crash_trace) \<le> max 1 2"
  using dispatcher_safe [OF crash_trace_steps] by blast

text \<open>C10. Requests are served, in order. Take any state a new dispatcher reaches without \<open>stop\<close>. The sessions taken
  so far, followed by those still queued, are exactly the sessions whose request was answered \<open>queued\<close>, in that order.
  And when the worker is alive and no tick raises, whatever statuses the ticks report, the worker takes every queued
  session in that order and is then idle again, within \<open>worker_work\<close> steps.\<close>

theorem dispatcher_serves:
  assumes "dsteps (new_dispatcher enabled has_agent max_ticks) es d" and "Stop_event \<notin> set es"
  shows "concat (map taken_of es) @ dp_pending d = concat (map queued_of es)
    \<and> (worker_serving d \<longrightarrow> (\<forall>statuses. worker_work d \<le> length statuses \<longrightarrow>
         (\<exists>d' fs. worker_run statuses d = (dp_pending d, d') \<and> dsteps d fs d'
            \<and> concat (map taken_of fs) = dp_pending d
            \<and> dp_pending d' = [] \<and> dp_running d' = {} \<and> dp_worker d' = Waiting_worker)))"
proof -
  have inv: "disp_inv d" using dsteps_inv [OF assms(1) new_dispatcher_inv] .
  have "concat (map taken_of es) @ dp_pending d = concat (map queued_of es)"
    using dsteps_fifo [OF assms(1) new_dispatcher_inv assms(2)] by (simp add: new_dispatcher_def)
  moreover have "\<exists>d' fs. worker_run statuses d = (dp_pending d, d') \<and> dsteps d fs d'
      \<and> concat (map taken_of fs) = dp_pending d \<and> dp_pending d' = [] \<and> dp_running d' = {}
      \<and> dp_worker d' = Waiting_worker"
    if srv: "worker_serving d" and enough: "worker_work d \<le> length statuses" for statuses
  proof -
    from worker_run_drains [OF inv srv enough] obtain d' where
      run: "worker_run statuses d = (dp_pending d, d')" and
      fin: "disp_inv d'" "dp_worker d' = Waiting_worker" "dp_pending d' = []" by blast
    then have "dp_running d' = {}" by (simp add: disp_inv_def)
    then show ?thesis using run fin worker_run_dsteps [OF run] by blast
  qed
  ultimately show ?thesis by blast
qed

theorem dispatcher_serves_witness:
  "fst (worker_run (replicate 8 Tick_idle) two_queued) = [''a'', ''b'']"
proof -
  have "Stop_event \<notin> set [Request ''a'' Queued, Request ''b'' Queued]" by simp
  from dispatcher_serves [OF two_queued_steps this] have
    "worker_serving two_queued \<longrightarrow> (\<forall>statuses. worker_work two_queued \<le> length statuses \<longrightarrow>
       (\<exists>d' fs. worker_run statuses two_queued = (dp_pending two_queued, d') \<and> dsteps two_queued fs d'
          \<and> concat (map taken_of fs) = dp_pending two_queued
          \<and> dp_pending d' = [] \<and> dp_running d' = {} \<and> dp_worker d' = Waiting_worker))"
    by blast
  moreover have "worker_serving two_queued" by (simp add: two_queued_def worker_serving_def)
  moreover have "worker_work two_queued \<le> length (replicate 8 Tick_idle)"
    by (simp add: two_queued_def worker_work_def)
  ultimately obtain d' where "worker_run (replicate 8 Tick_idle) two_queued = (dp_pending two_queued, d')"
    by blast
  then show ?thesis by (simp add: two_queued_def)
qed

lemma dead_worker_steps:
  assumes "dsteps d es d'" "dp_worker d = Dead_worker" "\<not> dp_closed d" "dp_enabled d" "dp_has_agent d"
    and "Stop_event \<notin> set es" "\<forall>q st. Request q st \<in> set es \<longrightarrow> q \<in> dp_pending_ids d"
  shows "d' = d \<and> (\<forall>e \<in> set es. \<exists>q. e = Request q Already_pending)"
  using assms
proof (induction rule: dsteps.induct)
  case (more d es d' e d'')
  then have same: "d' = d" and old: "\<forall>e \<in> set es. \<exists>q. e = Request q Already_pending" by auto
  from more.hyps(2) [unfolded same] show ?case
  proof (cases rule: dstep.cases)
    case (request q why rid r)
    then have "q \<in> dp_pending_ids d" using more.prems by auto
    then show ?thesis using request more.prems old by (auto simp: request_dispatch_def dispatch_result_def)
  qed (use more.prems in \<open>auto simp: worker_take_def worker_tick_def worker_finish_def worker_die_def\<close>)
qed simp

text \<open>C11. A tick that raises strands the queue. From a state in which the worker drains a session, an exception of the tick
  leads to a dead worker with the queue as it was. From there, however often the queued sessions are asked for again, every
  request is answered \<open>already_pending\<close>, which counts as accepted, nothing is taken and no worker is started; only a
  request for a session that is not queued starts a worker, which then takes the head of the queue.\<close>

theorem dead_worker_strands_queue:
  assumes "disp_inv d" "dp_worker d = Draining s n" "\<not> dp_closed d" "dp_enabled d" "dp_has_agent d"
  shows "\<exists>dead. dsteps d [Tick_event s None, Finish s, Die] dead \<and> dp_pending dead = dp_pending d
    \<and> (\<forall>es d'. dsteps dead es d' \<and> Stop_event \<notin> set es \<and> (\<forall>q st. Request q st \<in> set es \<longrightarrow> q \<in> set (dp_pending d)) \<longrightarrow>
         d' = dead \<and> (\<forall>e \<in> set es. \<exists>q. e = Request q Already_pending))
    \<and> (\<forall>q. q \<notin> set (dp_pending d) \<longrightarrow> (\<exists>d'. dsteps dead [Request q Queued, Take (hd (dp_pending d @ [q]))] d'))"
proof -
  define dead where "dead = d\<lparr>dp_running := {}, dp_worker := Dead_worker\<rparr>"
  let ?d1 = "d\<lparr>dp_worker := Finishing s True\<rparr>" and ?d2 = "d\<lparr>dp_running := {}, dp_worker := Dying_worker\<rparr>"
  have inv: "dp_running d = {s}" "dp_pending_ids d = set (dp_pending d)" using assms(1,2) by (simp_all add: disp_inv_def)
  have "dstep d (Tick_event s None) ?d1" using assms(2) by (intro dstep.tick) (simp_all add: worker_tick_def)
  moreover have "dstep ?d1 (Finish s) ?d2" by (rule dstep.finish [where raised = True]) (simp_all add: worker_finish_def inv)
  moreover have "dstep ?d2 Die dead" by (rule dstep.die) (simp add: worker_die_def dead_def)
  ultimately have crash: "dsteps d [Tick_event s None, Finish s, Die] dead" by (meson dsteps.none dsteps_Cons)
  have stuck: "d' = dead \<and> (\<forall>e \<in> set es. \<exists>q. e = Request q Already_pending)"
    if "dsteps dead es d'" "Stop_event \<notin> set es" "\<forall>q st. Request q st \<in> set es \<longrightarrow> q \<in> set (dp_pending d)" for es d'
    using dead_worker_steps [OF that(1)] that(2,3) assms(3-5) inv by (simp add: dead_def)
  have "\<exists>d'. dsteps dead [Request q Queued, Take (hd (dp_pending d @ [q]))] d'" if "q \<notin> set (dp_pending d)" for q
  proof -
    let ?r = "request_dispatch dead q Manual_control_route None"
    have "dr_status (fst ?r) = Queued" and queued: "snd ?r = dead\<lparr>dp_pending_ids := insert q (dp_pending_ids d),
        dp_pending := dp_pending d @ [q], dp_worker := Waiting_worker\<rparr>"
      using that assms(3-5) inv
      by (simp_all add: request_dispatch_def dispatch_result_def ensure_worker_locked_def dead_def)
    then have step: "dstep dead (Request q Queued) (snd ?r)" by (intro dstep_requestI [OF refl])
    obtain d' where "worker_take (snd ?r) = Some d'" "dp_worker d' = Draining (hd (dp_pending d @ [q])) (dp_max_ticks d)"
      using assms(3) unfolding queued worker_take_def by (cases "dp_pending d") (simp_all add: dead_def)
    then have "dstep (snd ?r) (Take (hd (dp_pending d @ [q]))) d'" by (rule dstep.take)
    with step show ?thesis by (meson dsteps.none dsteps_Cons)
  qed
  with crash stuck show ?thesis by (intro exI [of _ dead]) (auto simp: dead_def)
qed

text \<open>A reached state in which one session is drained and another one queued.\<close>

definition draining_state :: dispatcher where
  "draining_state = (new_dispatcher True True 2)\<lparr>dp_pending_ids := {''b''}, dp_pending := [''b''], dp_running := {''a''},
     dp_worker := Draining ''a'' 2\<rparr>"

theorem dead_worker_strands_queue_witness:
  "\<exists>dead. dsteps draining_state [Tick_event ''a'' None, Finish ''a'', Die] dead \<and> dp_pending dead = [''b'']"
proof -
  have "disp_inv draining_state" by (simp add: disp_inv_def draining_state_def new_dispatcher_def)
  from dead_worker_strands_queue [OF this, of "''a''" 2] show ?thesis
    by (auto simp: draining_state_def new_dispatcher_def)
qed

text \<open>A request that arrives after the last tick of its session and before the \<open>finally\<close> block is answered
  \<open>already_running\<close>, counts as accepted, and is dropped: the session is neither queued nor drained again.\<close>

lemma late_request_dropped:
  assumes "dp_worker d = Finishing s False" and "disp_inv d" and "\<not> dp_closed d" and "dp_enabled d"
    and "dp_has_agent d"
  shows "case request_dispatch d s why rid of
    (r, d') \<Rightarrow> dr_status r = Already_running \<and> dr_accepted r \<and> d' = d
      \<and> (\<exists>d''. worker_finish d' = Some d'' \<and> s \<notin> set (dp_pending d'') \<and> s \<notin> dp_running d'')"
  using assms
  by (auto simp: request_dispatch_def dispatch_result_def dr_accepted_def disp_inv_def worker_finish_def)

section \<open>A drain is a run of ticks\<close>

text \<open>The tick steps a drain makes: one for each result, and one for the exception.\<close>

definition drain_events :: "string \<Rightarrow> TaskExecutionTickResult list \<Rightarrow> py_error option \<Rightarrow> devent list" where
  "drain_events s rs e =
     map (\<lambda>r. Tick_event s (Some (tr_status r))) rs @ (if e = None then [] else [Tick_event s None])"

lemma drain_session_steps:
  "drain_session P env agent cfg meanwhile n st = (rs, e, st') \<Longrightarrow> dp_worker d = Draining s n \<Longrightarrow> 0 < n \<Longrightarrow>
     dsteps d (drain_events s rs e) (d\<lparr>dp_worker := Finishing s (e \<noteq> None)\<rparr>)"
proof (induction P env agent cfg meanwhile n st arbitrary: rs d rule: drain_session.induct)
  case (2 P env agent cfg meanwhile n st)
  obtain out st1 where t: "tick P (env n) agent cfg (meanwhile n) st = (out, st1)" by fastforce
  have step: "dstep d (Tick_event s res) d1" if "worker_tick res d = Some d1" for res d1
    using that 2(3) by (auto intro: dstep.tick)
  show ?case
  proof (cases out)
    case (Inl err)
    then show ?thesis using 2(2,3) t step [of None]
      by (auto simp: drain_events_def worker_tick_def intro!: dsteps_Cons [OF dsteps.none])
  next
    case (Inr r)
    show ?thesis
    proof (cases "tr_status r = Tick_completed \<and> n \<noteq> 0")
      case True
      let ?d1 = "d\<lparr>dp_worker := Draining s n\<rparr>"
      obtain rs1 where rest: "drain_session P env agent cfg meanwhile n st1 = (rs1, e, st')" and rs: "rs = r # rs1"
        using 2(2) t Inr True by (auto split: prod.splits)
      have "dsteps ?d1 (drain_events s rs1 e) (d\<lparr>dp_worker := Finishing s (e \<noteq> None)\<rparr>)"
        using 2(1) [OF t [symmetric] Inr, of rs1 ?d1] True rest by simp
      moreover have "dstep d (Tick_event s (Some (tr_status r))) ?d1"
        using 2(3) True by (intro step) (simp add: worker_tick_def)
      ultimately show ?thesis using rs dsteps_Cons by (simp add: drain_events_def)
    next
      case False
      then have "rs = [r] \<and> e = None" using 2(2) t Inr by (cases n) (auto split: if_splits)
      then show ?thesis using 2(3) False step [of "Some (tr_status r)"]
        by (auto simp: drain_events_def worker_tick_def intro!: dsteps_Cons [OF dsteps.none])
    qed
  qed
qed simp

text \<open>So a drain reports at most \<open>max_ticks\<close> results, and it goes on only after a completed one.\<close>

lemma drain_session_results:
  "drain_session P env agent cfg meanwhile n st = (rs, e, st') \<Longrightarrow>
     length rs \<le> n \<and> (\<forall>r \<in> set (butlast rs). tr_status r = Tick_completed)"
proof (induction P env agent cfg meanwhile n st arbitrary: rs rule: drain_session.induct)
  case (2 P env agent cfg meanwhile n st)
  then show ?case by (fastforce split: prod.splits sum.splits if_splits)
qed simp

end
