(* ===== verification/Json_Text.thy ===== *)
theory Json_Text
  imports Prelude
begin

text \<open>
  The text \<^verbatim>\<open>json.dumps\<close> makes of a dictionary of strings with \<open>sort_keys=True\<close> and
  \<open>separators=(",", ":")\<close>, as the publisher uses it to name a task. Non-ASCII and control characters are
  escaped (\<open>ensure_ascii\<close>), so the text determines the dictionary: that is the lemma the identifiers rest on.
\<close>

section \<open>Escaping\<close>

definition quote_char :: char where
  "quote_char = CHR 0x22"

definition backslash :: char where
  "backslash = CHR 0x5C"

text \<open>A digit of \<open>'{0:04x}'\<close>, and its value.\<close>

definition hex_digit :: "nat \<Rightarrow> char" where
  "hex_digit k = char_of (if k < 10 then 48 + k else 87 + k)"

definition hex_value :: "char \<Rightarrow> nat" where
  "hex_value c = (let n = of_char c in if n < 58 then n - 48 else n - 87)"

lemma hex_value_digit [simp]: "k < 16 \<Longrightarrow> hex_value (hex_digit k) = k"
  by (auto simp: hex_value_def hex_digit_def Let_def)

definition short_escapes :: "(char \<times> char) list" where
  "short_escapes = [(quote_char, quote_char), (backslash, backslash), (CHR 0x08, CHR ''b''), (CHR 0x0C, CHR ''f''),
     (CHR 0x0A, CHR ''n''), (CHR 0x0D, CHR ''r''), (CHR 0x09, CHR ''t'')]"

definition escape_char :: "char \<Rightarrow> string" where
  "escape_char c =
     (case map_of short_escapes c of
        Some e \<Rightarrow> [backslash, e]
      | None \<Rightarrow>
          (let n = (of_char c :: nat)
           in if 32 \<le> n \<and> n \<le> 126 then [c]
              else [backslash, CHR ''u'', CHR ''0'', CHR ''0'', hex_digit (n div 16), hex_digit (n mod 16)]))"

definition escape :: "string \<Rightarrow> string" where
  "escape s = concat (map escape_char s)"

definition json_string :: "string \<Rightarrow> string" where
  "json_string s = quote_char # escape s @ [quote_char]"

text \<open>The members of a dictionary, separated by commas.\<close>

fun json_members :: "(string \<times> string) list \<Rightarrow> string" where
  "json_members [] = []"
| "json_members [(k, v)] = json_string k @ '':'' @ json_string v"
| "json_members ((k, v) # d) = json_string k @ '':'' @ json_string v @ '','' @ json_members d"

definition json_dumps :: "(string \<times> string) list \<Rightarrow> string" where
  "json_dumps d = ''{'' @ json_members (sort_key fst d) @ ''}''"

section \<open>Reading one character back\<close>

definition unescape_char :: "string \<Rightarrow> char \<times> string" where
  "unescape_char s =
     (if hd s \<noteq> backslash then (hd s, tl s)
      else if s ! 1 = CHR ''u'' then (char_of (hex_value (s ! 4) * 16 + hex_value (s ! 5)), drop 6 s)
      else (the (map_of (map (\<lambda>(a, b). (b, a)) short_escapes) (s ! 1)), drop 2 s))"

lemma unescape_escape_char: "unescape_char (escape_char c @ s) = (c, s)"
proof (cases "map_of short_escapes c")
  case None
  then have c: "c \<noteq> backslash" by (auto simp: short_escapes_def quote_char_def backslash_def)
  have "(of_char c :: nat) < 256" by (rule nat_of_char_less_256)
  then have "(of_char c :: nat) div 16 < 16" by (rule less_mult_imp_div_less [of _ 16 16, simplified])
  then show ?thesis using None c by (auto simp: escape_char_def unescape_char_def Let_def)
next
  case (Some e)
  then show ?thesis
    by (auto simp: escape_char_def unescape_char_def short_escapes_def quote_char_def backslash_def
        split: if_splits)
qed

lemma escape_char_not_quote: "escape_char c \<noteq> [] \<and> hd (escape_char c) \<noteq> quote_char"
  by (auto simp: escape_char_def short_escapes_def quote_char_def backslash_def Let_def split: option.splits if_splits)

lemma escape_char_inject: "escape_char c @ x = escape_char d @ y \<Longrightarrow> c = d \<and> x = y"
  by (metis prod.inject unescape_escape_char)

text \<open>An escaped text ends at the first quote that follows it.\<close>

lemma escape_inject: "escape s @ quote_char # x = escape t @ quote_char # y \<Longrightarrow> s = t \<and> x = y"
proof (induction s arbitrary: t)
  case Nil
  show ?case
  proof (cases t)
    case (Cons d t')
    then show ?thesis using Nil escape_char_not_quote [of d]
      by (cases "escape_char d") (auto simp: escape_def)
  qed (use Nil in \<open>simp add: escape_def\<close>)
next
  case (Cons c s)
  show ?case
  proof (cases t)
    case Nil
    then show ?thesis using Cons.prems escape_char_not_quote [of c]
      by (cases "escape_char c") (auto simp: escape_def)
  next
    case (Cons d t')
    have "escape_char c @ escape s @ quote_char # x = escape_char d @ escape t' @ quote_char # y"
      using Cons.prems Cons by (simp add: escape_def)
    then have "c = d \<and> escape s @ quote_char # x = escape t' @ quote_char # y"
      by (rule escape_char_inject)
    then show ?thesis using Cons.IH [of t'] Cons by blast
  qed
qed

lemma json_string_inject [simp]: "json_string s @ x = json_string t @ y \<longleftrightarrow> s = t \<and> x = y"
  using escape_inject [of s x t y] by (auto simp: json_string_def)

lemma json_string_inject_end [simp]: "json_string s = json_string t \<longleftrightarrow> s = t"
  using json_string_inject [of s "[]" t "[]"] by simp

text \<open>Two dictionaries with the same keys in the same order and the same text have the same values.\<close>

lemma json_members_inject:
  "map fst d = map fst d' \<Longrightarrow> json_members d @ x = json_members d' @ x \<Longrightarrow> d = d'"
proof (induction d arbitrary: d' rule: json_members.induct)
  case 1
  then show ?case by simp
next
  case (2 k v)
  then show ?case by (cases d' rule: json_members.cases) (auto)
next
  case (3 k v p d)
  obtain v' q d2 where d': "d' = (k, v') # q # d2" using "3.prems"(1)
    by (cases d' rule: json_members.cases) auto
  have "v = v'" and rest: "json_members (p # d) = json_members (q # d2)"
    using "3.prems"(2) unfolding d' by simp_all
  have "p # d = q # d2" by (rule "3.IH") (use "3.prems"(1) d' rest in simp_all)
  then show ?case using d' \<open>v = v'\<close> by simp
qed

section \<open>Equality of parsed values\<close>

text \<open>\<open>==\<close> on the values of a payload: numbers compare by value whatever their type, \<open>nan\<close> equals nothing, and a
  dictionary ignores the order of its keys.\<close>

fun number_of :: "json \<Rightarrow> pyfloat option" where
  "number_of (JBool b) = Some (Fin (of_bool b))"
| "number_of (JInt n) = Some (Fin (of_int n))"
| "number_of (JFloat x) = Some x"
| "number_of _ = None"

definition number_eq :: "json \<Rightarrow> json \<Rightarrow> bool" where
  "number_eq v w \<longleftrightarrow>
     (case (number_of v, number_of w) of (Some x, Some y) \<Rightarrow> fle x y \<and> fle y x | _ \<Rightarrow> False)"

fun json_eq :: "json \<Rightarrow> json \<Rightarrow> bool"
  and jsons_eq :: "json list \<Rightarrow> json list \<Rightarrow> bool"
  and members_eq :: "(string \<times> json) list \<Rightarrow> (string \<times> json) list \<Rightarrow> bool" where
  "json_eq JNull w = (w = JNull)"
| "json_eq (JStr s) w = (w = JStr s)"
| "json_eq (JArr xs) w = (case w of JArr ys \<Rightarrow> jsons_eq xs ys | _ \<Rightarrow> False)"
| "json_eq (JObj d) w =
     (case w of JObj e \<Rightarrow> length d = length e \<and> members_eq d e | _ \<Rightarrow> False)"
| "json_eq v w = number_eq v w"
| "jsons_eq [] ys = (ys = [])"
| "jsons_eq (x # xs) ys = (case ys of [] \<Rightarrow> False | y # ys' \<Rightarrow> json_eq x y \<and> jsons_eq xs ys')"
| "members_eq [] e = True"
| "members_eq ((k, v) # d) e =
     ((case map_of e k of None \<Rightarrow> False | Some w \<Rightarrow> json_eq v w) \<and> members_eq d e)"

text \<open>A value that equals itself: no \<open>nan\<close> inside, and the keys of a dictionary are distinct.\<close>

fun json_ok :: "json \<Rightarrow> bool"
  and jsons_ok :: "json list \<Rightarrow> bool"
  and members_ok :: "(string \<times> json) list \<Rightarrow> bool" where
  "json_ok (JFloat x) = (x \<noteq> NaN)"
| "json_ok (JArr xs) = jsons_ok xs"
| "json_ok (JObj d) = (distinct (map fst d) \<and> members_ok d)"
| "json_ok _ = True"
| "jsons_ok [] = True"
| "jsons_ok (x # xs) = (json_ok x \<and> jsons_ok xs)"
| "members_ok [] = True"
| "members_ok ((k, v) # d) = (json_ok v \<and> members_ok d)"

lemma members_ok_iff: "members_ok d \<longleftrightarrow> (\<forall>(k, v) \<in> set d. json_ok v)"
  by (induction d) auto

lemma members_eq_mono:
  "(\<forall>(k, v) \<in> set d. \<exists>w. map_of e k = Some w \<and> json_eq v w) \<Longrightarrow> members_eq d e"
  by (induction d) auto

lemma json_eq_refl: "json_ok v \<Longrightarrow> json_eq v v"
proof (induction v)
  case (JArr xs)
  then have "\<And>x. x \<in> set xs \<Longrightarrow> json_ok x \<Longrightarrow> json_eq x x" "jsons_ok xs" by auto
  then have "jsons_eq xs xs" by (induction xs) auto
  then show ?case by simp
next
  case (JObj d)
  have "members_eq d d"
  proof (rule members_eq_mono, clarify)
    fix k v assume "(k, v) \<in> set d"
    moreover from this have "json_eq v v"
      using JObj.IH [of "(k, v)" v] JObj.prems by (auto simp: members_ok_iff)
    ultimately show "\<exists>w. map_of d k = Some w \<and> json_eq v w" using JObj.prems by auto
  qed
  then show ?case by simp
qed (auto simp: number_eq_def fle_refl_iff)

end
