(* ===== verification/Publisher.thy ===== *)
theory Publisher
  imports Bus_Protocol Json_Text
begin

text \<open>
  \<open>DefaultTaskPublisher\<close> of \<^verbatim>\<open>task/publisher.py\<close>: a normalized tree of task nodes becomes published tasks of
  the TaskBus, once for every idempotency key.

  \<open>uuid4\<close> and the clock are arguments: \<open>fresh k\<close> is the \<open>k\<close>-th identifier drawn, \<open>clock k\<close> the \<open>k\<close>-th
  reading. \<open>uuid5(NAMESPACE_URL, name).hex\<close> is the argument \<open>uuid5\<close>, a function of the name. The messages of a
  preview keep template and values apart; a reason is the list of the messages that \<open>"; ".join\<close> puts together.
\<close>

section \<open>Data\<close>

datatype PublisherKind =
  Pub_user | Pub_collaborator | Pub_pipeline | Pub_scheduler | Pub_api | Pub_custom_tree | Pub_agent

fun publisher_kind_str :: "PublisherKind \<Rightarrow> string" where
  "publisher_kind_str Pub_user = ''user''"
| "publisher_kind_str Pub_collaborator = ''collaborator''"
| "publisher_kind_str Pub_pipeline = ''pipeline''"
| "publisher_kind_str Pub_scheduler = ''scheduler''"
| "publisher_kind_str Pub_api = ''api''"
| "publisher_kind_str Pub_custom_tree = ''custom_tree''"
| "publisher_kind_str Pub_agent = ''agent''"

datatype PublishSourceKind =
    Src_plan | Src_draft_tree | Src_custom_tree | Src_pipeline | Src_schedule | Src_api | Src_retry
  | Src_natural_language | Src_unknown

fun source_kind_str :: "PublishSourceKind \<Rightarrow> string" where
  "source_kind_str Src_plan = ''plan''"
| "source_kind_str Src_draft_tree = ''draft_tree''"
| "source_kind_str Src_custom_tree = ''custom_tree''"
| "source_kind_str Src_pipeline = ''pipeline''"
| "source_kind_str Src_schedule = ''schedule''"
| "source_kind_str Src_api = ''api''"
| "source_kind_str Src_retry = ''retry''"
| "source_kind_str Src_natural_language = ''natural_language''"
| "source_kind_str Src_unknown = ''unknown''"

datatype FailurePolicy = Fail_all | Publish_valid

record PublisherRef =
  pr_kind :: PublisherKind
  pr_actor_id :: "string option"
  pr_name :: "string option"

definition label :: "PublisherRef \<Rightarrow> string" where
  "label p = or_else (pr_actor_id p) (or_else (pr_name p) (publisher_kind_str (pr_kind p)))"

record PublishSource =
  ps_source_type :: PublishSourceKind
  ps_source_id :: "string option"
  ps_metadata :: "(string \<times> json) list"

record TaskPublishOptions =
  po_dry_run :: bool
  po_require_confirmation :: bool
  po_allow_pipeline :: bool
  po_source_label :: "string option"
  po_failure_policy :: FailurePolicy

text \<open>The fields of one node, and the node with its children.\<close>

record node_fields =
  nf_node_id :: string
  nf_parent_id :: "string option"
  nf_title :: string
  nf_intent :: string
  nf_summary :: "string option"
  nf_instructions :: "string option"
  nf_acceptance_criteria :: "string list"
  nf_required_capability :: string
  nf_agent_ref :: "string option"
  nf_metadata :: "(string \<times> json) list"

datatype NormalizedTaskNode =
  NormalizedTaskNode (node_fields_of: node_fields) (node_children: "NormalizedTaskNode list")

abbreviation node_id :: "NormalizedTaskNode \<Rightarrow> string" where
  "node_id n \<equiv> nf_node_id (node_fields_of n)"

abbreviation parent_id :: "NormalizedTaskNode \<Rightarrow> string option" where
  "parent_id n \<equiv> nf_parent_id (node_fields_of n)"

text \<open>The \<open>Field(...)\<close> constraints of one node.\<close>

definition node_fields_ok :: "NormalizedTaskNode \<Rightarrow> bool" where
  "node_fields_ok n \<longleftrightarrow>
     (let f = node_fields_of n
      in nf_node_id f \<noteq> [] \<and> opt_nonempty (nf_parent_id f) \<and> nf_title f \<noteq> [] \<and> nf_intent f \<noteq> []
         \<and> opt_nonempty (nf_summary f) \<and> opt_nonempty (nf_instructions f) \<and> nf_required_capability f \<noteq> []
         \<and> opt_nonempty (nf_agent_ref f))"

record NormalizedTaskTree =
  tt_root_nodes :: "NormalizedTaskNode list"
  tt_source :: PublisherRef
  tt_source_ref :: "string option"
  tt_metadata :: "(string \<times> json) list"

text \<open>\<open>_collect_nodes\<close> appends the node and then its children to the list it is given.\<close>

fun collect_nodes :: "NormalizedTaskNode \<Rightarrow> NormalizedTaskNode list \<Rightarrow> NormalizedTaskNode list"
  and collect_children :: "NormalizedTaskNode list \<Rightarrow> NormalizedTaskNode list \<Rightarrow> NormalizedTaskNode list" where
  "collect_nodes (NormalizedTaskNode f cs) nodes = collect_children cs (nodes @ [NormalizedTaskNode f cs])"
| "collect_children [] nodes = nodes"
| "collect_children (c # cs) nodes = collect_children cs (collect_nodes c nodes)"

definition iter_nodes :: "NormalizedTaskTree \<Rightarrow> NormalizedTaskNode list" where
  "iter_nodes tree = collect_children (tt_root_nodes tree) []"

definition task_count :: "NormalizedTaskTree \<Rightarrow> nat" where
  "task_count tree = length (iter_nodes tree)"

text \<open>\<open>_validate_node\<close>; the identifiers seen are returned.\<close>

fun validate_node :: "NormalizedTaskNode \<Rightarrow> string option \<Rightarrow> string list \<Rightarrow> string list result"
  and validate_children :: "NormalizedTaskNode list \<Rightarrow> string \<Rightarrow> string list \<Rightarrow> string list result" where
  "validate_node (NormalizedTaskNode f cs) expected_parent_id seen =
     (if nf_node_id f \<in> set seen
      then Inl (ValueError (Msg ''duplicate normalized task node id {}'' [nf_node_id f]))
      else if nf_parent_id f \<noteq> expected_parent_id
      then Inl (ValueError (Msg ''normalized task node {} has parent_id {}, expected {}''
             [nf_node_id f, or_else (nf_parent_id f) ''None'', or_else expected_parent_id ''None'']))
      else validate_children cs (nf_node_id f) (nf_node_id f # seen))"
| "validate_children [] pid seen = Inr seen"
| "validate_children (c # cs) pid seen =
     bind_ok (validate_node c (Some pid) seen) (validate_children cs pid)"

fun validate_roots_from :: "NormalizedTaskNode list \<Rightarrow> string list \<Rightarrow> string list result" where
  "validate_roots_from [] seen = Inr seen"
| "validate_roots_from (n # roots) seen =
     (if parent_id n \<noteq> None
      then Inl (ValueError (Msg ''root normalized task nodes must not have parent_id'' []))
      else bind_ok (validate_node n None seen) (validate_roots_from roots))"

text \<open>Constructing a tree: fields first, then \<open>_validate_tree\<close>.\<close>

definition NormalizedTaskTree_validate :: "NormalizedTaskTree \<Rightarrow> NormalizedTaskTree result" where
  "NormalizedTaskTree_validate tree =
     (if tt_root_nodes tree = [] \<or> \<not> opt_nonempty (tt_source_ref tree)
         \<or> \<not> list_all node_fields_ok (iter_nodes tree)
      then Inl (ValidationError (Msg ''NormalizedTaskTree'' []))
      else case validate_roots_from (tt_root_nodes tree) [] of
             Inl e \<Rightarrow> Inl (ValidationError (Msg ''NormalizedTaskTree'' []))
           | Inr _ \<Rightarrow> Inr tree)"

record PublishRequest =
  rq_request_id :: string
  rq_session_id :: string
  rq_publisher :: PublisherRef
  rq_source :: PublishSource
  rq_task_tree :: "NormalizedTaskTree option"
  rq_natural_language_input :: "string option"
  rq_options :: TaskPublishOptions
  rq_idempotency_key :: "string option"

definition publisher_fields_ok :: "PublisherRef \<Rightarrow> bool" where
  "publisher_fields_ok p \<longleftrightarrow> opt_nonempty (pr_actor_id p) \<and> opt_nonempty (pr_name p)"

definition PublishRequest_validate :: "PublishRequest \<Rightarrow> PublishRequest result" where
  "PublishRequest_validate r =
     (if rq_request_id r = [] \<or> rq_session_id r = [] \<or> \<not> publisher_fields_ok (rq_publisher r)
         \<or> \<not> opt_nonempty (ps_source_id (rq_source r)) \<or> \<not> opt_nonempty (rq_natural_language_input r)
         \<or> \<not> opt_nonempty (rq_idempotency_key r)
      then Inl (ValidationError (Msg ''PublishRequest'' []))
      else case rq_task_tree r of
             None \<Rightarrow>
               if rq_natural_language_input r = None then Inl (ValidationError (Msg ''PublishRequest'' []))
               else Inr r
           | Some tree \<Rightarrow>
               bind_ok (NormalizedTaskTree_validate tree)
                 (\<lambda>_. if tt_source tree \<noteq> rq_publisher r
                      then Inl (ValidationError (Msg ''PublishRequest'' [])) else Inr r))"

record PublishPreview =
  pv_request_id :: string
  pv_session_id :: string
  pv_publisher :: PublisherRef
  pv_normalized_tree :: "NormalizedTaskTree option"
  pv_valid :: bool
  pv_errors :: "msg list"
  pv_warnings :: "msg list"
  pv_root_count :: nat
  pv_task_count :: nat

definition pv_ok :: "PublishPreview \<Rightarrow> bool" where
  "pv_ok p \<longleftrightarrow> pv_valid p \<and> pv_errors p = []"

record PublishResult =
  pb_request_id :: string
  pb_session_id :: string
  pb_publisher :: PublisherRef
  pb_published_task_ids :: "string list"
  pb_root_task_ids :: "string list"
  pb_skipped :: bool
  pb_reason :: "msg list option"
  pb_idempotency_key :: "string option"
  pb_metadata :: "(string \<times> json) list"

section \<open>From the request to the tasks\<close>

text \<open>\<open>_validate_request_tree\<close> for a request with a tree.\<close>

definition node_errors :: "NormalizedTaskNode \<Rightarrow> msg list" where
  "node_errors n =
     (if blank (nf_intent (node_fields_of n)) then [Msg ''node {} has empty intent'' [node_id n]] else [])
     @ (if blank (nf_required_capability (node_fields_of n))
        then [Msg ''node {} has empty required_capability'' [node_id n]] else [])"

definition validate_request_tree :: "PublishRequest \<Rightarrow> msg list" where
  "validate_request_tree r =
     (case rq_task_tree r of
        None \<Rightarrow> [Msg ''publish request has no normalized task tree'' []]
      | Some tree \<Rightarrow>
          (if tt_source tree \<noteq> rq_publisher r
           then [Msg ''normalized tree source must match request publisher'' []] else [])
          @ concat (map node_errors (iter_nodes tree)))"

definition preview :: "PublishRequest \<Rightarrow> PublishPreview" where
  "preview r =
     (case rq_task_tree r of
        None \<Rightarrow> \<lparr>pv_request_id = rq_request_id r, pv_session_id = rq_session_id r, pv_publisher = rq_publisher r,
          pv_normalized_tree = None, pv_valid = False,
          pv_errors = [Msg ''natural-language publish requires authoring before TaskBus publish'' []],
          pv_warnings = [], pv_root_count = 0, pv_task_count = 0\<rparr>
      | Some tree \<Rightarrow>
          (let errors = validate_request_tree r
           in \<lparr>pv_request_id = rq_request_id r, pv_session_id = rq_session_id r, pv_publisher = rq_publisher r,
                pv_normalized_tree = Some tree, pv_valid = (errors = []), pv_errors = errors, pv_warnings = [],
                pv_root_count = length (tt_root_nodes tree), pv_task_count = task_count tree\<rparr>))"

text \<open>\<open>_idempotent_task_id\<close> names a task by session, publisher kind, idempotency key and node.\<close>

definition idempotent_name :: "PublishRequest \<Rightarrow> string \<Rightarrow> string \<Rightarrow> string" where
  "idempotent_name r key nid =
     ''taskweavn.publish:''
     @ json_dumps [(''session_id'', rq_session_id r),
                   (''publisher_kind'', publisher_kind_str (pr_kind (rq_publisher r))),
                   (''idempotency_key'', key), (''source_node_id'', nid)]"

definition idempotent_task_id :: "(string \<Rightarrow> string) \<Rightarrow> PublishRequest \<Rightarrow> string \<Rightarrow> string \<Rightarrow> string" where
  "idempotent_task_id uuid5 r key nid = uuid5 (idempotent_name r key nid)"

text \<open>A dictionary comprehension over the nodes, with the \<open>k\<close>-th draw of \<open>uuid4\<close> for the \<open>k\<close>-th node.\<close>

definition task_ids_for_request ::
  "(string \<Rightarrow> string) \<Rightarrow> (nat \<Rightarrow> string) \<Rightarrow> PublishRequest \<Rightarrow> NormalizedTaskTree \<Rightarrow> (string, string) dict" where
  "task_ids_for_request uuid5 fresh r tree =
     dict_merge [] (case rq_idempotency_key r of
       None \<Rightarrow> map (\<lambda>(k, n). (node_id n, fresh k)) (enumerate 0 (iter_nodes tree))
     | Some key \<Rightarrow> map (\<lambda>n. (node_id n, idempotent_task_id uuid5 r key (node_id n))) (iter_nodes tree))"

fun assign_root :: "NormalizedTaskNode \<Rightarrow> string \<Rightarrow> (string, string) dict \<Rightarrow> (string, string) dict"
  and assign_roots :: "NormalizedTaskNode list \<Rightarrow> string \<Rightarrow> (string, string) dict \<Rightarrow> (string, string) dict" where
  "assign_root (NormalizedTaskNode f cs) root_id m = assign_roots cs root_id (dict_set m (nf_node_id f) root_id)"
| "assign_roots [] root_id m = m"
| "assign_roots (c # cs) root_id m = assign_roots cs root_id (assign_root c root_id m)"

definition root_by_node :: "NormalizedTaskTree \<Rightarrow> (string, string) dict" where
  "root_by_node tree = foldl (\<lambda>m n. assign_root n (node_id n) m) [] (tt_root_nodes tree)"

text \<open>\<open>_order_index\<close>: the position among the siblings; \<open>next\<close> raises when the parent is not in the tree.\<close>

fun position :: "string \<Rightarrow> NormalizedTaskNode list \<Rightarrow> nat \<Rightarrow> int" where
  "position nid [] k = 0"
| "position nid (n # ns) k = (if node_id n = nid then int k else position nid ns (Suc k))"

definition order_index :: "NormalizedTaskTree \<Rightarrow> NormalizedTaskNode \<Rightarrow> int result" where
  "order_index tree n =
     (case parent_id n of
        None \<Rightarrow> Inr (position (node_id n) (tt_root_nodes tree) 0)
      | Some p \<Rightarrow>
          (case find (\<lambda>q. node_id q = p) (iter_nodes tree) of
             None \<Rightarrow> Inl (StopIteration (Msg [] []))
           | Some parent \<Rightarrow> Inr (position (node_id n) (node_children parent) 0)))"

definition opt_json :: "string option \<Rightarrow> json" where
  "opt_json x = (case x of None \<Rightarrow> JNull | Some s \<Rightarrow> JStr s)"

definition dispatch_constraints :: "PublishRequest \<Rightarrow> NormalizedTaskTree \<Rightarrow> NormalizedTaskNode
    \<Rightarrow> TaskDispatchConstraints" where
  "dispatch_constraints r tree n =
     \<lparr>dc_required_agent_id = None, dc_preferred_agent_id = nf_agent_ref (node_fields_of n),
      dc_required_capabilities = [nf_required_capability (node_fields_of n)],
      dc_metadata = dict_merge (dict_merge
        [(''publish_request_id'', JStr (rq_request_id r)),
         (''publish_idempotency_key'', opt_json (rq_idempotency_key r)),
         (''publisher_kind'', JStr (publisher_kind_str (pr_kind (rq_publisher r)))),
         (''publisher_actor_id'', opt_json (pr_actor_id (rq_publisher r))),
         (''publisher_name'', opt_json (pr_name (rq_publisher r))),
         (''source_type'', JStr (source_kind_str (ps_source_type (rq_source r)))),
         (''source_id'', opt_json (ps_source_id (rq_source r))),
         (''source_metadata'', JObj (ps_metadata (rq_source r))),
         (''source_ref'', opt_json (tt_source_ref tree)),
         (''source_node_id'', JStr (node_id n)),
         (''title'', JStr (nf_title (node_fields_of n)))]
        (tt_metadata tree)) (nf_metadata (node_fields_of n))\<rparr>"

text \<open>The arguments of \<open>TaskDomain(...)\<close> in \<open>_tasks_for_request\<close>, with the defaults of the class.\<close>

definition published_task ::
  "PublishRequest \<Rightarrow> NormalizedTaskTree \<Rightarrow> NormalizedTaskNode \<Rightarrow> string \<Rightarrow> string option \<Rightarrow> string \<Rightarrow> int \<Rightarrow> datetime
     \<Rightarrow> TaskDomain" where
  "published_task r tree n task_id parent_task_id root_task_id index now =
     \<lparr>td_task_id = task_id, td_session_id = rq_session_id r, td_parent_id = parent_task_id,
      td_root_id = root_task_id, td_order_index = index,
      td_intent = nf_intent (node_fields_of n), td_summary = nf_summary (node_fields_of n),
      td_instructions = nf_instructions (node_fields_of n),
      td_acceptance_criteria = nf_acceptance_criteria (node_fields_of n),
      td_required_capability = nf_required_capability (node_fields_of n),
      td_dispatch_constraints = Some (dispatch_constraints r tree n), td_status = Pending,
      td_result_ref = None, td_error_ref = None, td_claimed_by = None, td_waiting_for_ask_id = None,
      td_waiting_for_confirmation_id = None, td_waiting_for_user_since = None,
      td_interrupt_requested = False, td_interrupt_request_id = None, td_interrupt_reason = None,
      td_interrupt_requested_by = None, td_interrupt_requested_at = None,
      td_created_by = label (rq_publisher r), td_created_at = now, td_started_at = None,
      td_completed_at = None\<rparr>"

text \<open>One round of \<open>_tasks_for_request\<close>.\<close>

definition task_for_node ::
  "PublishRequest \<Rightarrow> NormalizedTaskTree \<Rightarrow> (string, string) dict \<Rightarrow> (string, string) dict \<Rightarrow> datetime
     \<Rightarrow> NormalizedTaskNode \<Rightarrow> TaskDomain result" where
  "task_for_node r tree node_task_ids root_of now n =
     bind_ok (dict_item node_task_ids (node_id n)) (\<lambda>task_id.
     bind_ok (case parent_id n of None \<Rightarrow> Inr None | Some p \<Rightarrow> map_ok Some (dict_item node_task_ids p)) (\<lambda>parent_task_id.
     bind_ok (bind_ok (dict_item root_of (node_id n)) (dict_item node_task_ids)) (\<lambda>root_task_id.
     bind_ok (order_index tree n) (\<lambda>index.
     TaskDomain_validate (published_task r tree n task_id parent_task_id root_task_id index now)))))"

fun tasks_for_nodes ::
  "PublishRequest \<Rightarrow> NormalizedTaskTree \<Rightarrow> (string, string) dict \<Rightarrow> (string, string) dict \<Rightarrow> (nat \<Rightarrow> datetime)
     \<Rightarrow> NormalizedTaskNode list \<Rightarrow> TaskDomain list result" where
  "tasks_for_nodes r tree ids root_of clock [] = Inr []"
| "tasks_for_nodes r tree ids root_of clock (n # ns) =
     bind_ok (task_for_node r tree ids root_of (clock 0) n) (\<lambda>t.
       map_ok (\<lambda>ts. t # ts) (tasks_for_nodes r tree ids root_of (\<lambda>k. clock (Suc k)) ns))"

section \<open>Comparing with stored tasks\<close>

definition stable_metadata :: "(string \<times> json) list \<Rightarrow> (string \<times> json) list" where
  "stable_metadata m = filter (\<lambda>(k, v). k \<noteq> ''publish_request_id'') m"

definition dispatch_constraints_match ::
  "TaskDispatchConstraints option \<Rightarrow> TaskDispatchConstraints option \<Rightarrow> bool" where
  "dispatch_constraints_match existing expected =
     (case (existing, expected) of
        (Some c, Some d) \<Rightarrow>
          dc_required_agent_id c = dc_required_agent_id d \<and> dc_preferred_agent_id c = dc_preferred_agent_id d
          \<and> dc_required_capabilities c = dc_required_capabilities d
          \<and> json_eq (JObj (stable_metadata (dc_metadata c))) (JObj (stable_metadata (dc_metadata d)))
      | _ \<Rightarrow> existing = None \<and> expected = None)"

definition task_matches_expected :: "TaskDomain \<Rightarrow> TaskDomain \<Rightarrow> bool" where
  "task_matches_expected existing expected \<longleftrightarrow>
     td_session_id existing = td_session_id expected \<and> td_parent_id existing = td_parent_id expected
     \<and> td_root_id existing = td_root_id expected \<and> td_order_index existing = td_order_index expected
     \<and> td_intent existing = td_intent expected \<and> td_summary existing = td_summary expected
     \<and> td_instructions existing = td_instructions expected
     \<and> td_acceptance_criteria existing = td_acceptance_criteria expected
     \<and> td_required_capability existing = td_required_capability expected
     \<and> td_created_by existing = td_created_by expected
     \<and> dispatch_constraints_match (td_dispatch_constraints existing) (td_dispatch_constraints expected)"

section \<open>Publishing\<close>

definition skipped_result :: "PublishRequest \<Rightarrow> msg list \<Rightarrow> (string \<times> json) list \<Rightarrow> PublishResult" where
  "skipped_result r why metadata =
     \<lparr>pb_request_id = rq_request_id r, pb_session_id = rq_session_id r, pb_publisher = rq_publisher r,
      pb_published_task_ids = [], pb_root_task_ids = [], pb_skipped = True, pb_reason = Some why,
      pb_idempotency_key = rq_idempotency_key r, pb_metadata = metadata\<rparr>"

definition published_result ::
  "PublishRequest \<Rightarrow> string list \<Rightarrow> string list \<Rightarrow> (string \<times> json) list \<Rightarrow> PublishResult" where
  "published_result r ids roots metadata =
     \<lparr>pb_request_id = rq_request_id r, pb_session_id = rq_session_id r, pb_publisher = rq_publisher r,
      pb_published_task_ids = ids, pb_root_task_ids = roots, pb_skipped = False, pb_reason = None,
      pb_idempotency_key = rq_idempotency_key r, pb_metadata = metadata\<rparr>"

text \<open>The metadata every result starts with.\<close>

definition base_metadata :: "PublishRequest \<Rightarrow> (string, string) dict \<Rightarrow> (string \<times> json) list" where
  "base_metadata r ids =
     [(''node_task_ids'', JObj (map (\<lambda>(k, v). (k, JStr v)) ids)),
      (''source_type'', JStr (source_kind_str (ps_source_type (rq_source r))))]"

text \<open>\<open>_result_from_existing_idempotent_tasks\<close>.\<close>

definition result_from_existing_idempotent_tasks ::
  "InMemoryTaskBus \<Rightarrow> PublishRequest \<Rightarrow> TaskDomain list \<Rightarrow> (string, string) dict \<Rightarrow> string list \<Rightarrow> datetime
     \<Rightarrow> PublishResult option" where
  "result_from_existing_idempotent_tasks b r tasks ids roots now =
     (let existing = filter (\<lambda>(i, x). x \<noteq> None)
            (dict_merge [] (map (\<lambda>t. (td_task_id t, get b (rq_session_id r) (td_task_id t))) tasks));
          strs = (\<lambda>xs. JArr (map JStr xs))
      in if existing = [] then None
         else if length existing \<noteq> length tasks
         then Some (skipped_result r [Msg ''incomplete idempotent publish'' []]
                (base_metadata r ids @
                 [(''existing_task_ids'', strs (map fst existing)),
                  (''missing_task_ids'',
                     strs (filter (\<lambda>i. i \<notin> set (map fst existing)) (map td_task_id tasks))),
                  (''skip_idempotency_record'', JBool True)]))
         else let mismatched = map td_task_id (filter (\<lambda>t.
                    \<not> task_matches_expected (the (the (dict_get existing (td_task_id t)))) t) tasks)
              in if mismatched \<noteq> []
                 then Some (skipped_result r
                        [Msg ''idempotent publish target already exists with different task payload'' []]
                        (base_metadata r ids @
                         [(''mismatched_task_ids'', strs mismatched), (''skip_idempotency_record'', JBool True)]))
                 else Some (published_result r (map td_task_id tasks) roots
                        (base_metadata r ids @
                         [(''idempotent_existing_tasks'', JBool True), (''replayed_at'', JStr (isoformat now))])))"

text \<open>\<open>[self._task_bus.publish(task) for task in tasks]\<close>: a call that raises leaves the tasks before it published.\<close>

fun publish_each :: "InMemoryTaskBus \<Rightarrow> TaskDomain list \<Rightarrow> TaskDomain list result \<times> InMemoryTaskBus" where
  "publish_each b [] = (Inr [], b)"
| "publish_each b (t # ts) =
     (case Task_Bus.publish b t of
        Inl e \<Rightarrow> (Inl e, b)
      | Inr (u, b') \<Rightarrow> map_prod (map_ok (\<lambda>us. u # us)) id (publish_each b' ts))"

text \<open>The three lists \<open>publish\<close> computes before it looks at the bus.\<close>

definition publish_plan ::
  "(string \<Rightarrow> string) \<Rightarrow> (nat \<Rightarrow> string) \<Rightarrow> (nat \<Rightarrow> datetime) \<Rightarrow> PublishRequest \<Rightarrow> NormalizedTaskTree
     \<Rightarrow> ((string, string) dict \<times> string list \<times> TaskDomain list) result" where
  "publish_plan uuid5 fresh clock r tree =
     (let ids = task_ids_for_request uuid5 fresh r tree
      in bind_ok (those_ok (map (\<lambda>n. dict_item ids (node_id n)) (tt_root_nodes tree))) (\<lambda>roots.
         map_ok (\<lambda>tasks. (ids, roots, tasks))
           (tasks_for_nodes r tree ids (root_by_node tree) clock (iter_nodes tree))))"

definition publish_request ::
  "(string \<Rightarrow> string) \<Rightarrow> (nat \<Rightarrow> string) \<Rightarrow> (nat \<Rightarrow> datetime) \<Rightarrow> datetime \<Rightarrow> InMemoryTaskBus \<Rightarrow> PublishRequest
     \<Rightarrow> PublishResult result \<times> InMemoryTaskBus" where
  "publish_request uuid5 fresh clock now b r =
     (if \<not> pv_ok (preview r)
      then (Inr (skipped_result r (if pv_errors (preview r) = [] then [Msg ''publish preview failed'' []]
              else pv_errors (preview r)) []), b)
      else if po_dry_run (rq_options r) then (Inr (skipped_result r [Msg ''dry run'' []] []), b)
      else case rq_task_tree r of
             None \<Rightarrow> (Inl (ValueError (Msg ''publish request requires normalized task tree'' [])), b)
           | Some tree \<Rightarrow>
               (case publish_plan uuid5 fresh clock r tree of
                  Inl e \<Rightarrow> (Inl e, b)
                | Inr (ids, roots, tasks) \<Rightarrow>
                    (case (if rq_idempotency_key r = None then None
                           else result_from_existing_idempotent_tasks b r tasks ids roots now) of
                       Some res \<Rightarrow> (Inr res, b)
                     | None \<Rightarrow>
                         (case publish_each b tasks of
                            (Inl e, b') \<Rightarrow> (Inl e, b')
                          | (Inr us, b') \<Rightarrow>
                              (Inr (published_result r (map td_task_id us) roots
                                 (base_metadata r ids @ [(''published_at'', JStr (isoformat now))])), b')))))"

text \<open>\<open>retry_task\<close> of the publisher.\<close>

record TaskPublishResult =
  tp_root_task_ids :: "string list"
  tp_mappings :: "DraftToPublishedMapping list"
  tp_rejected_task_ids :: "string list"

definition publisher_retry_task ::
  "InMemoryTaskBus \<Rightarrow> string \<Rightarrow> string \<Rightarrow> string option \<Rightarrow> TaskPublishResult result \<times> InMemoryTaskBus" where
  "publisher_retry_task b session_id task_id instruction =
     (case retry b session_id task_id instruction of
        Inr (updated, b') \<Rightarrow>
          (Inr \<lparr>tp_root_task_ids = [td_task_id updated], tp_mappings = [], tp_rejected_task_ids = []\<rparr>, b')
      | Inl (TaskStoreError m) \<Rightarrow>
          (Inr \<lparr>tp_root_task_ids = [], tp_mappings = [], tp_rejected_task_ids = [task_id]\<rparr>, b)
      | Inl (VersionConflictError m) \<Rightarrow>
          (Inr \<lparr>tp_root_task_ids = [], tp_mappings = [], tp_rejected_task_ids = [task_id]\<rparr>, b)
      | Inl e \<Rightarrow> (Inl e, b))"

end
