(* ===== verification/Publish_Tree.thy ===== *)
theory Publish_Tree
  imports Publisher
begin

text \<open>
  What publishing a tree does (\<^verbatim>\<open>task/publisher.py\<close>). The nodes of a tree the class accepts, in the order in which
  they are collected, have distinct identifiers and parents before children; so every lookup of \<open>publish\<close> succeeds, the
  tasks it builds are valid, and the bus accepts them one after the other.
\<close>

section \<open>The tree\<close>

text \<open>The nodes below a node, each before its children.\<close>

fun preorder :: "NormalizedTaskNode \<Rightarrow> NormalizedTaskNode list" where
  "preorder (NormalizedTaskNode f cs) = NormalizedTaskNode f cs # concat (map preorder cs)"

lemma collect_nodes_preorder [simp]:
  "collect_nodes n acc = acc @ preorder n"
  "collect_children ns acc = acc @ concat (map preorder ns)"
  by (induction n acc and ns acc rule: collect_nodes_collect_children.induct) auto

lemma iter_nodes_preorder: "iter_nodes tree = concat (map preorder (tt_root_nodes tree))"
  by (simp add: iter_nodes_def)

lemma preorder_self [simp]: "n \<in> set (preorder n)"
  by (cases n) simp

lemma hd_preorder: "preorder n = n # concat (map preorder (node_children n))"
  by (cases n) simp

text \<open>Every node names the node it is a child of.\<close>

definition well_parented :: "NormalizedTaskNode \<Rightarrow> bool" where
  "well_parented n \<longleftrightarrow> (\<forall>m \<in> set (preorder n). \<forall>c \<in> set (node_children m). parent_id c = Some (node_id m))"

lemma well_parented_node:
  "well_parented (NormalizedTaskNode f cs) \<longleftrightarrow>
     (\<forall>c \<in> set cs. parent_id c = Some (nf_node_id f) \<and> well_parented c)"
  by (auto simp: well_parented_def)

abbreviation ids_of :: "NormalizedTaskNode list \<Rightarrow> string list" where
  "ids_of ns \<equiv> map node_id (concat (map preorder ns))"

lemma is_ok_bind [simp]: "is_ok (bind_ok r f) \<longleftrightarrow> (\<exists>x. r = Inr x \<and> is_ok (f x))"
  by (cases r) auto

text \<open>What \<open>_validate_node\<close> accepts, and the identifiers it has then seen.\<close>

lemma validate_node_iff:
  "validate_node n p seen =  Inr seen' \<longleftrightarrow>
     parent_id n = p \<and> well_parented n \<and> distinct (ids_of [n]) \<and> set (ids_of [n]) \<inter> set seen = {}
     \<and> seen' = rev (ids_of [n]) @ seen"
  "validate_children ns pid seen = Inr seen' \<longleftrightarrow>
     (\<forall>c \<in> set ns. parent_id c = Some pid \<and> well_parented c) \<and> distinct (ids_of ns)
     \<and> set (ids_of ns) \<inter> set seen = {} \<and> seen' = rev (ids_of ns) @ seen"
proof (induction n p seen and ns pid seen arbitrary: seen' and seen' rule: validate_node_validate_children.induct)
  case (1 f cs p seen)
  then show ?case by (auto simp: well_parented_node)
next
  case (2 pid seen)
  then show ?case by auto
next
  case (3 c cs pid seen)
  have only: "s1 = rev (ids_of [c]) @ seen" if "validate_node c (Some pid) seen = Inr s1" for s1
    using that unfolding 3(1) by (elim conjE)
  have "validate_children (c # cs) pid seen = Inr seen' \<longleftrightarrow>
      (\<exists>s1. validate_node c (Some pid) seen = Inr s1 \<and> validate_children cs pid s1 = Inr seen')"
    by (cases "validate_node c (Some pid) seen") auto
  also have "\<dots> \<longleftrightarrow> validate_node c (Some pid) seen = Inr (rev (ids_of [c]) @ seen)
      \<and> validate_children cs pid (rev (ids_of [c]) @ seen) = Inr seen'"
    by (rule iffI, elim exE conjE, frule only, simp, rule exI)
  also have "\<dots> \<longleftrightarrow> parent_id c = Some pid \<and> well_parented c \<and> distinct (ids_of [c])
      \<and> set (ids_of [c]) \<inter> set seen = {} \<and> (\<forall>d \<in> set cs. parent_id d = Some pid \<and> well_parented d)
      \<and> distinct (ids_of cs) \<and> set (ids_of cs) \<inter> set (rev (ids_of [c]) @ seen) = {}
      \<and> seen' = rev (ids_of cs) @ rev (ids_of [c]) @ seen"
    unfolding 3(1) 3(2) by blast
  also have "\<dots> \<longleftrightarrow> (\<forall>d \<in> set (c # cs). parent_id d = Some pid \<and> well_parented d)
      \<and> distinct (ids_of [c] @ ids_of cs) \<and> set (ids_of [c] @ ids_of cs) \<inter> set seen = {}
      \<and> seen' = rev (ids_of [c] @ ids_of cs) @ seen"
    by (simp only: set_append set_rev rev_append distinct_append append_assoc list.set ball_simps) blast
  also have "ids_of [c] @ ids_of cs = ids_of (c # cs)" by simp
  finally show ?case .
qed

lemma is_ok_iff: "is_ok r \<longleftrightarrow> (\<exists>x. r = Inr x)"
  by (cases r) auto

lemma validate_roots_from_iff:
  "validate_roots_from ns seen = Inr seen' \<longleftrightarrow>
     (\<forall>n \<in> set ns. parent_id n = None \<and> well_parented n) \<and> distinct (ids_of ns)
     \<and> set (ids_of ns) \<inter> set seen = {} \<and> seen' = rev (ids_of ns) @ seen"
proof (induction ns arbitrary: seen)
  case (Cons n ns)
  have only: "s1 = rev (ids_of [n]) @ seen" if "validate_node n None seen = Inr s1" for s1
    using that unfolding validate_node_iff by (elim conjE)
  have "validate_roots_from (n # ns) seen = Inr seen' \<longleftrightarrow>
      parent_id n = None \<and> (\<exists>s1. validate_node n None seen = Inr s1 \<and> validate_roots_from ns s1 = Inr seen')"
    by (cases "validate_node n None seen") auto
  also have "\<dots> \<longleftrightarrow> parent_id n = None \<and> validate_node n None seen = Inr (rev (ids_of [n]) @ seen)
      \<and> validate_roots_from ns (rev (ids_of [n]) @ seen) = Inr seen'"
    by (rule iffI, elim exE conjE, frule only, simp, elim conjE, intro conjI exI)
  also have "\<dots> \<longleftrightarrow> parent_id n = None \<and> well_parented n \<and> distinct (ids_of [n])
      \<and> set (ids_of [n]) \<inter> set seen = {} \<and> (\<forall>d \<in> set ns. parent_id d = None \<and> well_parented d)
      \<and> distinct (ids_of ns) \<and> set (ids_of ns) \<inter> set (rev (ids_of [n]) @ seen) = {}
      \<and> seen' = rev (ids_of ns) @ rev (ids_of [n]) @ seen"
    unfolding validate_node_iff Cons.IH by blast
  also have "\<dots> \<longleftrightarrow> (\<forall>d \<in> set (n # ns). parent_id d = None \<and> well_parented d)
      \<and> distinct (ids_of [n] @ ids_of ns) \<and> set (ids_of [n] @ ids_of ns) \<inter> set seen = {}
      \<and> seen' = rev (ids_of [n] @ ids_of ns) @ seen"
    by (simp only: set_append set_rev rev_append distinct_append append_assoc list.set ball_simps) blast
  also have "ids_of [n] @ ids_of ns = ids_of (n # ns)" by simp
  finally show ?case .
qed auto

text \<open>The trees the class accepts: distinct identifiers, roots without a parent, and every other node naming the
  node it is a child of.\<close>

definition tree_ok :: "NormalizedTaskTree \<Rightarrow> bool" where
  "tree_ok tree \<longleftrightarrow> tt_root_nodes tree \<noteq> [] \<and> opt_nonempty (tt_source_ref tree)
     \<and> (\<forall>n \<in> set (iter_nodes tree). node_fields_ok n) \<and> distinct (map node_id (iter_nodes tree))
     \<and> (\<forall>n \<in> set (tt_root_nodes tree). parent_id n = None \<and> well_parented n)"

lemma NormalizedTaskTree_validate_iff: "NormalizedTaskTree_validate tree = Inr tree \<longleftrightarrow> tree_ok tree"
proof -
  have "is_ok (validate_roots_from (tt_root_nodes tree) []) \<longleftrightarrow>
      (\<forall>n \<in> set (tt_root_nodes tree). parent_id n = None \<and> well_parented n)
      \<and> distinct (map node_id (iter_nodes tree))"
    unfolding is_ok_iff validate_roots_from_iff by (simp add: iter_nodes_preorder)
  then show ?thesis
    by (auto simp: NormalizedTaskTree_validate_def tree_ok_def list_all_iff split: sum.splits)
qed

lemma child_of_preorder:
  "m \<in> set (preorder n) \<Longrightarrow> m = n \<or> (\<exists>q \<in> set (preorder n). m \<in> set (node_children q))"
proof (induction n)
  case (NormalizedTaskNode f cs)
  show ?case
  proof (cases "m = NormalizedTaskNode f cs")
    case False
    then obtain c where c: "c \<in> set cs" "m \<in> set (preorder c)" using NormalizedTaskNode.prems by auto
    from NormalizedTaskNode.IH [OF c] show ?thesis using c by auto
  qed simp
qed

lemma tree_parent:
  assumes "tree_ok tree" "n \<in> set (iter_nodes tree)" "parent_id n = Some p"
  shows "\<exists>m \<in> set (iter_nodes tree). node_id m = p \<and> n \<in> set (node_children m)"
proof -
  obtain r where r: "r \<in> set (tt_root_nodes tree)" "n \<in> set (preorder r)"
    using assms(2) by (auto simp: iter_nodes_preorder)
  have "n \<noteq> r" using r(1) assms(1,3) by (auto simp: tree_ok_def)
  then obtain m where m: "m \<in> set (preorder r)" "n \<in> set (node_children m)"
    using child_of_preorder [OF r(2)] by blast
  then have "parent_id n = Some (node_id m)" using r(1) assms(1) by (auto simp: tree_ok_def well_parented_def)
  then show ?thesis using m r(1) assms(3) by (auto simp: iter_nodes_preorder)
qed

lemma find_by_id:
  "distinct (map node_id ns) \<Longrightarrow> m \<in> set ns \<Longrightarrow> find (\<lambda>q. node_id q = node_id m) ns = Some m"
  by (induction ns) auto

text \<open>Siblings have distinct identifiers, so a child is found at its own position.\<close>

lemma position_at: "i < length ns \<Longrightarrow> distinct (map node_id ns) \<Longrightarrow> position (node_id (ns ! i)) ns k = int (k + i)"
proof (induction ns arbitrary: i k)
  case (Cons n ns)
  then show ?case by (cases i) (auto dest: nth_mem)
qed simp

lemma position_nonneg: "0 \<le> position nid ns k"
  by (induction ns arbitrary: k) auto

definition siblings :: "NormalizedTaskTree \<Rightarrow> NormalizedTaskNode \<Rightarrow> NormalizedTaskNode list" where
  "siblings tree n =
     (case parent_id n of None \<Rightarrow> tt_root_nodes tree
      | Some p \<Rightarrow> node_children (the (find (\<lambda>q. node_id q = p) (iter_nodes tree))))"

lemma order_index_ok:
  assumes "tree_ok tree" "n \<in> set (iter_nodes tree)"
  shows "order_index tree n = Inr (position (node_id n) (siblings tree n) 0)"
proof (cases "parent_id n")
  case None
  then show ?thesis by (simp add: order_index_def siblings_def)
next
  case (Some p)
  obtain m where m: "m \<in> set (iter_nodes tree)" "node_id m = p" using tree_parent [OF assms Some] by blast
  then have "find (\<lambda>q. node_id q = p) (iter_nodes tree) = Some m"
    using find_by_id assms(1) by (auto simp: tree_ok_def)
  then show ?thesis using Some by (simp add: order_index_def siblings_def)
qed

section \<open>The dictionaries\<close>

lemma dict_merge_distinct: "distinct (map fst (d @ e)) \<Longrightarrow> dict_merge d e = d @ e"
proof (induction e arbitrary: d)
  case (Cons x e)
  obtain k v where x: "x = (k, v)" by (cases x)
  have "k \<notin> set (map fst d)" using Cons.prems x by auto
  then have "dict_get d k = None" by (simp add: map_of_eq_None_iff)
  then have "dict_set d k v = d @ [(k, v)]" by (rule dict_set_fresh)
  then show ?case using Cons.IH [of "d @ [(k, v)]"] Cons.prems x by (simp add: dict_merge_def)
qed (simp add: dict_merge_def)

lemma dict_merge_Nil: "distinct (map fst e) \<Longrightarrow> dict_merge [] e = e"
  using dict_merge_distinct [of "[]" e] by simp

lemma task_ids_list:
  assumes "tree_ok tree"
  shows "task_ids_for_request uuid5 fresh r tree =
    (case rq_idempotency_key r of
       None \<Rightarrow> map (\<lambda>(k, n). (node_id n, fresh k)) (enumerate 0 (iter_nodes tree))
     | Some key \<Rightarrow> map (\<lambda>n. (node_id n, idempotent_task_id uuid5 r key (node_id n))) (iter_nodes tree))"
    and "map fst (task_ids_for_request uuid5 fresh r tree) = map node_id (iter_nodes tree)"
proof -
  have *: "map (\<lambda>x. fst (case x of (k, n) \<Rightarrow> (node_id n, fresh k))) (enumerate 0 ns) = map node_id ns" for ns
    by (rule nth_equalityI) (auto simp: nth_enumerate_eq)
  have d: "distinct (map node_id (iter_nodes tree))" using assms by (simp add: tree_ok_def)
  show "task_ids_for_request uuid5 fresh r tree =
    (case rq_idempotency_key r of
       None \<Rightarrow> map (\<lambda>(k, n). (node_id n, fresh k)) (enumerate 0 (iter_nodes tree))
     | Some key \<Rightarrow> map (\<lambda>n. (node_id n, idempotent_task_id uuid5 r key (node_id n))) (iter_nodes tree))"
    unfolding task_ids_for_request_def
    by (rule dict_merge_Nil) (use d in \<open>simp add: comp_def * split: option.splits\<close>)
  then show "map fst (task_ids_for_request uuid5 fresh r tree) = map node_id (iter_nodes tree)"
    by (auto simp: comp_def * split: option.splits)
qed

lemma assign_root_get:
  "dict_get (assign_root n \<rho> m) k = (if k \<in> set (ids_of [n]) then Some \<rho> else dict_get m k)"
  "dict_get (assign_roots ns \<rho> m) k = (if k \<in> set (ids_of ns) then Some \<rho> else dict_get m k)"
  by (induction n \<rho> m and ns \<rho> m rule: assign_root_assign_roots.induct) auto

lemma root_by_node_from:
  assumes "distinct (ids_of ns)" "root_node \<in> set ns" "n \<in> set (preorder root_node)"
  shows "dict_get (foldl (\<lambda>m n. assign_root n (node_id n) m) m0 ns) (node_id n) = Some (node_id root_node)"
  using assms
proof (induction ns arbitrary: m0)
  case (Cons q ns)
  have keep: "dict_get (foldl (\<lambda>m n. assign_root n (node_id n) m) m1 ns) k = dict_get m1 k"
    if "k \<notin> set (ids_of ns)" for m1 k
    using that by (induction ns arbitrary: m1) (auto simp: assign_root_get)
  show ?case
  proof (cases "root_node \<in> set ns")
    case True
    then show ?thesis using Cons by simp
  next
    case False
    then have q: "root_node = q" using Cons.prems(2) by simp
    then have "node_id n \<notin> set (ids_of ns)" using Cons.prems(1,3) by auto
    then have "dict_get (foldl (\<lambda>m n. assign_root n (node_id n) m) (assign_root q (node_id q) m0) ns) (node_id n)
        = dict_get (assign_root q (node_id q) m0) (node_id n)" by (rule keep)
    then show ?thesis using q Cons.prems(3) by (simp add: assign_root_get)
  qed
qed simp

lemma root_by_node_get:
  assumes "tree_ok tree" "root_node \<in> set (tt_root_nodes tree)" "n \<in> set (preorder root_node)"
  shows "dict_get (root_by_node tree) (node_id n) = Some (node_id root_node)"
  using assms by (auto simp: root_by_node_def tree_ok_def iter_nodes_preorder intro!: root_by_node_from)

section \<open>The tasks of an accepted request\<close>

text \<open>What \<open>_tasks_for_request\<close> builds when no lookup fails.\<close>

definition id_of_node :: "(string, string) dict \<Rightarrow> string \<Rightarrow> string" where
  "id_of_node ids nid = the (dict_get ids nid)"

definition root_id_of :: "NormalizedTaskTree \<Rightarrow> NormalizedTaskNode \<Rightarrow> string" where
  "root_id_of tree n = the (dict_get (root_by_node tree) (node_id n))"

definition task_of ::
  "PublishRequest \<Rightarrow> NormalizedTaskTree \<Rightarrow> (string, string) dict \<Rightarrow> datetime \<Rightarrow> NormalizedTaskNode \<Rightarrow> TaskDomain" where
  "task_of r tree ids now n =
     published_task r tree n (id_of_node ids (node_id n)) (map_option (id_of_node ids) (parent_id n))
       (id_of_node ids (root_id_of tree n)) (position (node_id n) (siblings tree n) 0) now"

definition tasks_of ::
  "PublishRequest \<Rightarrow> NormalizedTaskTree \<Rightarrow> (string, string) dict \<Rightarrow> (nat \<Rightarrow> datetime) \<Rightarrow> NormalizedTaskNode list
     \<Rightarrow> TaskDomain list" where
  "tasks_of r tree ids clock ns = map (\<lambda>(k, n). task_of r tree ids (clock k) n) (enumerate 0 ns)"

lemma task_of_simps [simp]:
  "td_task_id (task_of r tree ids now n) = id_of_node ids (node_id n)"
  "td_session_id (task_of r tree ids now n) = rq_session_id r"
  "td_parent_id (task_of r tree ids now n) = map_option (id_of_node ids) (parent_id n)"
  "td_root_id (task_of r tree ids now n) = id_of_node ids (root_id_of tree n)"
  "td_order_index (task_of r tree ids now n) = position (node_id n) (siblings tree n) 0"
  "td_intent (task_of r tree ids now n) = nf_intent (node_fields_of n)"
  "td_summary (task_of r tree ids now n) = nf_summary (node_fields_of n)"
  "td_instructions (task_of r tree ids now n) = nf_instructions (node_fields_of n)"
  "td_acceptance_criteria (task_of r tree ids now n) = nf_acceptance_criteria (node_fields_of n)"
  "td_required_capability (task_of r tree ids now n) = nf_required_capability (node_fields_of n)"
  "td_dispatch_constraints (task_of r tree ids now n) = Some (dispatch_constraints r tree n)"
  "td_created_by (task_of r tree ids now n) = label (rq_publisher r)"
  "td_status (task_of r tree ids now n) = Pending"
  by (simp_all add: task_of_def published_task_def)

lemma tasks_of_simps [simp]:
  "tasks_of r tree ids clock [] = []"
  "tasks_of r tree ids clock (n # ns) =
     task_of r tree ids (clock 0) n # tasks_of r tree ids (\<lambda>k. clock (Suc k)) ns"
  by (auto simp: tasks_of_def enumerate_Suc_eq comp_def split_beta)

lemma map_tasks_of:
  "(\<And>now n. f (task_of r tree ids now n) = g n) \<Longrightarrow> map f (tasks_of r tree ids clock ns) = map g ns"
  by (induction ns arbitrary: clock) auto

lemma tasks_of_mem: "t \<in> set (tasks_of r tree ids clock ns) \<Longrightarrow> \<exists>now. \<exists>n \<in> set ns. t = task_of r tree ids now n"
proof (induction ns arbitrary: clock)
  case (Cons n ns)
  then show ?case by fastforce
qed simp

lemma label_nonempty: "publisher_fields_ok p \<Longrightarrow> label p \<noteq> []"
  by (cases "pr_kind p") (auto simp: label_def or_else_def split: option.splits)

text \<open>The identifiers assigned to the nodes.\<close>

definition ids_ok :: "NormalizedTaskTree \<Rightarrow> (string, string) dict \<Rightarrow> bool" where
  "ids_ok tree ids \<longleftrightarrow> map fst ids = map node_id (iter_nodes tree) \<and> (\<forall>i \<in> set (map snd ids). i \<noteq> [])"

lemma ids_ok_get:
  assumes "ids_ok tree ids" "m \<in> set (iter_nodes tree)"
  shows "dict_get ids (node_id m) = Some (id_of_node ids (node_id m)) \<and> id_of_node ids (node_id m) \<noteq> []
    \<and> id_of_node ids (node_id m) \<in> set (map snd ids)"
proof -
  have "node_id m \<in> set (map node_id (iter_nodes tree))" using assms(2) by simp
  then have "node_id m \<in> set (map fst ids)" using assms(1) by (simp only: ids_ok_def)
  then obtain v where v: "dict_get ids (node_id m) = Some v"
    by (metis map_of_eq_None_iff not_None_eq set_map)
  then have "v \<in> set (map snd ids)" by (rule dict_get_mem)
  then show ?thesis using v assms(1) by (auto simp: ids_ok_def id_of_node_def)
qed

lemma tree_root_node:
  assumes "tree_ok tree" "n \<in> set (iter_nodes tree)"
  obtains q where "q \<in> set (tt_root_nodes tree)" "n \<in> set (preorder q)" "root_id_of tree n = node_id q"
    "parent_id n = None \<longrightarrow> q = n"
proof -
  obtain q where q: "q \<in> set (tt_root_nodes tree)" "n \<in> set (preorder q)"
    using assms(2) by (auto simp: iter_nodes_preorder)
  have "root_id_of tree n = node_id q" using root_by_node_get [OF assms(1) q] by (simp add: root_id_of_def)
  moreover have "q = n" if "parent_id n = None"
  proof -
    have "well_parented q" using q(1) assms(1) by (simp add: tree_ok_def)
    then have "n \<notin> set (node_children m)" if "m \<in> set (preorder q)" for m
      using \<open>parent_id n = None\<close> that by (auto simp: well_parented_def)
    then show ?thesis using child_of_preorder [OF q(2)] by blast
  qed
  ultimately show ?thesis using q that by simp
qed

lemma root_in_iter: "q \<in> set (tt_root_nodes tree) \<Longrightarrow> q \<in> set (iter_nodes tree)"
  by (auto simp: iter_nodes_preorder intro!: bexI [of _ q])

lemma task_for_node_ok:
  assumes "tree_ok tree" "ids_ok tree ids" "n \<in> set (iter_nodes tree)"
    and "rq_session_id r \<noteq> []" "publisher_fields_ok (rq_publisher r)"
  shows "task_for_node r tree ids (root_by_node tree) now n = Inr (task_of r tree ids now n)"
proof -
  obtain q where q: "q \<in> set (tt_root_nodes tree)" "n \<in> set (preorder q)" "root_id_of tree n = node_id q"
      "parent_id n = None \<longrightarrow> q = n"
    by (rule tree_root_node [OF assms(1,3)])
  note n_id = ids_ok_get [OF assms(2,3)] and q_id = ids_ok_get [OF assms(2) root_in_iter [OF q(1)]]
  have root: "dict_get (root_by_node tree) (node_id n) = Some (node_id q)" by (rule root_by_node_get [OF assms(1) q(1,2)])
  have parent: "(case parent_id n of None \<Rightarrow> Inr None | Some p \<Rightarrow> map_ok Some (dict_item ids p))
      = Inr (map_option (id_of_node ids) (parent_id n))
      \<and> opt_nonempty (map_option (id_of_node ids) (parent_id n))"
  proof (cases "parent_id n")
    case (Some p)
    then obtain m where "m \<in> set (iter_nodes tree)" "node_id m = p" using tree_parent [OF assms(1,3)] by blast
    then show ?thesis using Some ids_ok_get [OF assms(2)] by auto
  qed simp
  have fields: "node_fields_ok n" using assms(1,3) by (simp add: tree_ok_def)
  have lab: "label (rq_publisher r) \<noteq> []" using assms(5) by (rule label_nonempty)
  have "TaskDomain_fields_ok (task_of r tree ids now n)"
    using fields lab assms(4) n_id q_id q(3) parent position_nonneg [of "node_id n" "siblings tree n" 0]
    by (simp add: TaskDomain_fields_ok_def task_of_def published_task_def
        dispatch_fields_ok_def dispatch_constraints_def node_fields_ok_def Let_def)
  moreover have "parent_id n = None \<longrightarrow> root_id_of tree n = node_id n" using q(3,4) by auto
  ultimately have "TaskDomain_valid (task_of r tree ids now n)"
    by (simp add: TaskDomain_valid_iff task_of_def published_task_def)
  then have "TaskDomain_validate (task_of r tree ids now n) = Inr (task_of r tree ids now n)"
    by (rule TaskDomain_validate_valid)
  then show ?thesis
    using n_id q_id root q(3) parent order_index_ok [OF assms(1,3)]
    by (simp add: task_for_node_def task_of_def)
qed

lemma tasks_for_nodes_ok:
  assumes "tree_ok tree" "ids_ok tree ids" "rq_session_id r \<noteq> []" "publisher_fields_ok (rq_publisher r)"
    and "set ns \<subseteq> set (iter_nodes tree)"
  shows "tasks_for_nodes r tree ids (root_by_node tree) clock ns = Inr (tasks_of r tree ids clock ns)"
  using assms(5)
  by (induction ns arbitrary: clock) (use assms(1-4) in \<open>simp_all add: task_for_node_ok\<close>)

section \<open>Publishing a list of tasks\<close>

text \<open>The place of a task: identifier, parent, root. A list can be published in order when every parent, with the same
  root, is known before its children.\<close>

definition place :: "TaskDomain \<Rightarrow> string \<times> string option \<times> string" where
  "place t = (td_task_id t, td_parent_id t, td_root_id t)"

fun parents_first :: "(string \<times> string) set \<Rightarrow> (string \<times> string option \<times> string) list \<Rightarrow> bool" where
  "parents_first known [] = True"
| "parents_first known ((i, p, \<rho>) # ps) =
     ((case p of None \<Rightarrow> True | Some q \<Rightarrow> (q, \<rho>) \<in> known) \<and> parents_first (insert (i, \<rho>) known) ps)"

lemma parents_first_mono: "parents_first known ps \<Longrightarrow> known \<subseteq> known' \<Longrightarrow> parents_first known' ps"
proof (induction ps arbitrary: known known')
  case (Cons x ps)
  obtain i p \<rho> where x: "x = (i, p, \<rho>)" by (cases x)
  have "parents_first (insert (i, \<rho>) known') ps"
    using Cons.IH [of "insert (i, \<rho>) known"] Cons.prems x by auto
  then show ?case using Cons.prems x by (auto split: option.splits)
qed simp

lemma parents_first_append:
  "parents_first known (xs @ ys) \<longleftrightarrow>
     parents_first known xs \<and> parents_first (known \<union> (\<lambda>(i, p, \<rho>). (i, \<rho>)) ` set xs) ys"
  by (induction known xs rule: parents_first.induct) auto

lemma load_fresh:
  assumes "get b (td_session_id t) (td_task_id t) = None"
    and "\<And>p. td_parent_id t = Some p \<Longrightarrow> \<exists>pt. get b (td_session_id t) p = Some pt \<and> td_root_id pt = td_root_id t"
  shows "\<exists>b'. load b t = Inr (t, b')"
  using assms by (fastforce simp: load_def Let_def split: option.splits)

text \<open>Such a list is published as a whole, and nothing else changes.\<close>

lemma publish_each_ok:
  assumes "parents_first known (map place ts)"
    and "\<And>q \<rho>. (q, \<rho>) \<in> known \<Longrightarrow> \<exists>pt. get b s q = Some pt \<and> td_root_id pt = \<rho>"
    and "\<And>t. t \<in> set ts \<Longrightarrow> td_session_id t = s \<and> td_status t = Pending \<and> TaskDomain_valid t
           \<and> get b s (td_task_id t) = None"
    and "distinct (map td_task_id ts)"
  shows "\<exists>b'. publish_each b ts = (Inr ts, b') \<and> (bus_write strict)\<^sup>*\<^sup>* b b'
    \<and> (\<forall>s' i. get b' s' i = (if s' = s \<and> i \<in> set (map td_task_id ts) then find (\<lambda>t. td_task_id t = i) ts
                            else get b s' i))"
  using assms
proof (induction ts arbitrary: b known)
  case (Cons t ts)
  have t: "td_session_id t = s" "td_status t = Pending" "TaskDomain_valid t" "get b s (td_task_id t) = None"
    using Cons.prems(3) by auto
  have "\<exists>pt. get b s p = Some pt \<and> td_root_id pt = td_root_id t" if "td_parent_id t = Some p" for p
    using Cons.prems(1) that by (intro Cons.prems(2)) (simp add: place_def)
  then obtain b1 where load: "load b t = Inr (t, b1)" using load_fresh t by blast
  note got = load_get [OF load]
  have pub: "Task_Bus.publish b t = Inr (t, b1)" using load t(2) by (simp add: Task_Bus.publish_def)
  have wr: "bus_write strict b b1" using write_new [OF load t(2)] t(3) by blast
  have "\<exists>b'. publish_each b1 ts = (Inr ts, b') \<and> (bus_write strict)\<^sup>*\<^sup>* b1 b'
    \<and> (\<forall>s' i. get b' s' i = (if s' = s \<and> i \<in> set (map td_task_id ts) then find (\<lambda>t. td_task_id t = i) ts
                            else get b1 s' i))"
  proof (rule Cons.IH)
    show "parents_first (insert (td_task_id t, td_root_id t) known) (map place ts)"
      using Cons.prems(1) by (simp add: place_def [of t])
    show "\<exists>pt. get b1 s q = Some pt \<and> td_root_id pt = \<rho>" if "(q, \<rho>) \<in> insert (td_task_id t, td_root_id t) known" for q \<rho>
      using that Cons.prems(2) [of q \<rho>] t by (auto simp: got)
    show "td_session_id u = s \<and> td_status u = Pending \<and> TaskDomain_valid u \<and> get b1 s (td_task_id u) = None"
      if "u \<in> set ts" for u
    proof -
      have "td_task_id u \<noteq> td_task_id t" using that Cons.prems(4) by (metis distinct.simps(2) image_eqI list.simps(9) set_map)
      then show ?thesis using Cons.prems(3) [of u] that by (simp add: got)
    qed
    show "distinct (map td_task_id ts)" using Cons.prems(4) by simp
  qed
  then obtain b' where b': "publish_each b1 ts = (Inr ts, b')" "(bus_write strict)\<^sup>*\<^sup>* b1 b'"
    "\<And>s' i. get b' s' i = (if s' = s \<and> i \<in> set (map td_task_id ts) then find (\<lambda>t. td_task_id t = i) ts
        else get b1 s' i)" by blast
  have "publish_each b (t # ts) = (Inr (t # ts), b')" using pub b'(1) by simp
  moreover have "(bus_write strict)\<^sup>*\<^sup>* b b'" using wr b'(2) by (rule converse_rtranclp_into_rtranclp)
  moreover have "get b' s' i = (if s' = s \<and> i \<in> set (map td_task_id (t # ts))
      then find (\<lambda>t. td_task_id t = i) (t # ts) else get b s' i)" for s' i
    using Cons.prems(4) t(1) by (auto simp: b'(3) got)
  ultimately show ?case by blast
qed simp

section \<open>A tree in preorder has parents first\<close>

lemma parents_first_concat:
  assumes "\<And>c K. c \<in> set cs \<Longrightarrow> known \<subseteq> K \<Longrightarrow> parents_first K (map G (preorder c))"
  shows "parents_first known (map G (concat (map preorder cs)))"
  using assms
proof (induction cs arbitrary: known)
  case (Cons c cs)
  let ?K = "known \<union> (\<lambda>(i, p, \<rho>). (i, \<rho>)) ` set (map G (preorder c))"
  have "parents_first ?K (map G (concat (map preorder cs)))"
  proof (rule Cons.IH)
    fix c' K assume "c' \<in> set cs" "?K \<subseteq> K"
    then show "parents_first K (map G (preorder c'))" using Cons.prems [of c' K] by simp
  qed
  moreover have "parents_first known (map G (preorder c))" using Cons.prems [of c known] by simp
  ultimately show ?case by (simp add: parents_first_append)
qed simp

lemma parents_first_preorder:
  assumes "\<And>m. m \<in> set (preorder n) \<Longrightarrow> G m = (J (node_id m), map_option J (parent_id m), \<rho>)"
    and "well_parented n" and "case parent_id n of None \<Rightarrow> True | Some p \<Rightarrow> (J p, \<rho>) \<in> known"
  shows "parents_first known (map G (preorder n))"
  using assms
proof (induction n arbitrary: known)
  case (NormalizedTaskNode f cs)
  let ?n = "NormalizedTaskNode f cs"
  have self: "G ?n = (J (nf_node_id f), map_option J (nf_parent_id f), \<rho>)"
    using NormalizedTaskNode.prems(1) [of ?n] by simp
  have "parents_first (insert (J (nf_node_id f), \<rho>) known) (map G (concat (map preorder cs)))"
  proof (rule parents_first_concat)
    fix c K assume c: "c \<in> set cs" and K: "insert (J (nf_node_id f), \<rho>) known \<subseteq> K"
    have "well_parented c" "parent_id c = Some (nf_node_id f)"
      using NormalizedTaskNode.prems(2) c by (auto simp: well_parented_node)
    then show "parents_first K (map G (preorder c))"
      using K c NormalizedTaskNode.prems(1) by (intro NormalizedTaskNode.IH) auto
  qed
  then show ?case using self NormalizedTaskNode.prems(3) by (auto split: option.splits)
qed

lemma tasks_of_parents_first:
  assumes "tree_ok tree"
  shows "parents_first {} (map place (tasks_of r tree ids clock (iter_nodes tree)))"
proof -
  let ?J = "id_of_node ids"
  let ?G = "\<lambda>n. (?J (node_id n), map_option ?J (parent_id n), ?J (root_id_of tree n))"
  have "map place (tasks_of r tree ids clock (iter_nodes tree)) = map ?G (iter_nodes tree)"
    by (rule map_tasks_of) (simp add: place_def)
  moreover have "parents_first {} (map ?G (concat (map preorder (tt_root_nodes tree))))"
  proof (rule parents_first_concat)
    fix q K assume q: "q \<in> set (tt_root_nodes tree)"
    show "parents_first K (map ?G (preorder q))"
    proof (rule parents_first_preorder [where J = ?J and \<rho> = "?J (node_id q)"])
      show "?G m = (?J (node_id m), map_option ?J (parent_id m), ?J (node_id q))" if "m \<in> set (preorder q)" for m
        using root_by_node_get [OF assms q that] by (simp add: root_id_of_def)
    qed (use q assms in \<open>auto simp: tree_ok_def\<close>)
  qed
  ultimately show ?thesis by (simp add: iter_nodes_preorder)
qed

section \<open>Identifiers\<close>

lemma sort_name_keys:
  "sort_key fst [(''session_id'', a), (''publisher_kind'', b), (''idempotency_key'', c), (''source_node_id'', d :: string)]
   = [(''idempotency_key'', c), (''publisher_kind'', b), (''session_id'', a), (''source_node_id'', d)]"
  by (simp add: less_char_def)

text \<open>The name of a task determines what it is made of.\<close>

lemma idempotent_name_inject:
  "idempotent_name r key n = idempotent_name r' key' n' \<longleftrightarrow>
     rq_session_id r = rq_session_id r'
     \<and> publisher_kind_str (pr_kind (rq_publisher r)) = publisher_kind_str (pr_kind (rq_publisher r'))
     \<and> key = key' \<and> n = n'"
  by (auto simp: idempotent_name_def json_dumps_def sort_name_keys dest!: json_members_inject [rotated])

lemma publisher_kind_str_inject: "publisher_kind_str k = publisher_kind_str k' \<longleftrightarrow> k = k'"
  by (cases k; cases k') auto

lemma task_ids_distinct:
  assumes "tree_ok tree" "inj uuid5" "inj fresh"
  shows "distinct (map snd (task_ids_for_request uuid5 fresh r tree))"
proof (cases "rq_idempotency_key r")
  case None
  have "map snd (task_ids_for_request uuid5 fresh r tree) = map fresh [0..<length (iter_nodes tree)]"
    unfolding task_ids_list(1) [OF assms(1)] None
    by (rule nth_equalityI) (auto simp: nth_enumerate_eq)
  then show ?thesis by (simp add: distinct_map inj_on_subset [OF assms(3) subset_UNIV])
next
  case (Some key)
  have "map snd (task_ids_for_request uuid5 fresh r tree)
      = map (\<lambda>i. idempotent_task_id uuid5 r key i) (map node_id (iter_nodes tree))"
    unfolding task_ids_list(1) [OF assms(1)] Some by (simp add: comp_def)
  moreover have "inj (idempotent_task_id uuid5 r key)"
    using assms(2) by (auto simp: inj_def idempotent_task_id_def) (metis idempotent_name_inject)
  ultimately show ?thesis using assms(1)
    by (simp add: tree_ok_def distinct_map [of "idempotent_task_id uuid5 r key"] inj_on_subset [OF _ subset_UNIV]
        del: map_map)
qed

section \<open>Publishing a request\<close>

text \<open>A request that passed its class, has a tree without blank texts and is not a dry run.\<close>

definition publishable :: "PublishRequest \<Rightarrow> NormalizedTaskTree \<Rightarrow> bool" where
  "publishable r tree \<longleftrightarrow> PublishRequest_validate r = Inr r \<and> rq_task_tree r = Some tree \<and> pv_ok (preview r)
     \<and> \<not> po_dry_run (rq_options r)"

lemma publishableD:
  assumes "publishable r tree"
  shows "tree_ok tree \<and> rq_session_id r \<noteq> [] \<and> publisher_fields_ok (rq_publisher r)"
proof -
  have "PublishRequest_validate r = Inr r" "rq_task_tree r = Some tree" using assms by (auto simp: publishable_def)
  then have "NormalizedTaskTree_validate tree = Inr tree \<and> rq_session_id r \<noteq> [] \<and> publisher_fields_ok (rq_publisher r)"
    by (auto simp: PublishRequest_validate_def NormalizedTaskTree_validate_def bind_ok_def split: if_splits sum.splits)
  then show ?thesis by (simp add: NormalizedTaskTree_validate_iff)
qed

lemma publishable_request_id:
  "publishable r tree \<Longrightarrow> q \<noteq> [] \<Longrightarrow> publishable (r\<lparr>rq_request_id := q\<rparr>) tree"
  by (auto simp: publishable_def PublishRequest_validate_def preview_def validate_request_tree_def pv_ok_def
      bind_ok_def Let_def split: if_splits sum.splits)

lemma publish_plan_ok:
  assumes "publishable r tree" "\<forall>i \<in> set (map snd (task_ids_for_request uuid5 fresh r tree)). i \<noteq> []"
  shows "publish_plan uuid5 fresh clock r tree =
    (let ids = task_ids_for_request uuid5 fresh r tree
     in Inr (ids, map (\<lambda>n. id_of_node ids (node_id n)) (tt_root_nodes tree), tasks_of r tree ids clock (iter_nodes tree)))"
proof -
  let ?ids = "task_ids_for_request uuid5 fresh r tree"
  note ok = publishableD [OF assms(1)]
  have ids: "ids_ok tree ?ids" using task_ids_list(2) ok assms(2) by (simp add: ids_ok_def)
  have "map (\<lambda>n. dict_item ?ids (node_id n)) (tt_root_nodes tree)
      = map (\<lambda>n. Inr (id_of_node ?ids (node_id n))) (tt_root_nodes tree)"
    using ids_ok_get [OF ids root_in_iter] by simp
  then have "those_ok (map (\<lambda>n. dict_item ?ids (node_id n)) (tt_root_nodes tree))
      = Inr (map (\<lambda>n. id_of_node ?ids (node_id n)) (tt_root_nodes tree))"
    by (simp only: those_ok_Inr)
  then show ?thesis using ok ids by (simp add: publish_plan_def Let_def tasks_for_nodes_ok)
qed

lemma tasks_of_ids: "map td_task_id (tasks_of r tree ids clock ns) = map (\<lambda>n. id_of_node ids (node_id n)) ns"
  by (rule map_tasks_of) simp

lemma ids_in_order:
  assumes "tree_ok tree" "ids_ok tree ids"
  shows "map (\<lambda>n. id_of_node ids (node_id n)) (iter_nodes tree) = map snd ids"
proof -
  have d: "distinct (map fst ids)" using assms by (simp add: ids_ok_def tree_ok_def)
  have "map (id_of_node ids) (map fst ids) = map snd ids"
    by (rule nth_equalityI) (use d in \<open>auto simp: id_of_node_def\<close>, metis d map_of_is_SomeI nth_mem option.sel prod.collapse)
  then have "map (id_of_node ids) (map node_id (iter_nodes tree)) = map snd ids"
    using assms(2) by (simp only: ids_ok_def)
  then show ?thesis by (simp add: comp_def)
qed

lemma task_of_valid:
  assumes "publishable r tree" "ids_ok tree ids" "n \<in> set (iter_nodes tree)"
  shows "TaskDomain_valid (task_of r tree ids now n)"
proof -
  note ok = publishableD [OF assms(1)]
  have "task_for_node r tree ids (root_by_node tree) now n = Inr (task_of r tree ids now n)"
    using ok assms(2,3) by (simp add: task_for_node_ok)
  then have "\<exists>t. TaskDomain_validate t = Inr (task_of r tree ids now n)"
    by (auto simp: task_for_node_def elim!: bind_ok_InrE)
  then obtain t where t: "TaskDomain_validate t = Inr (task_of r tree ids now n)" by blast
  then have "TaskDomain_valid t" by (simp add: TaskDomain_valid_def)
  moreover from this t have "task_of r tree ids now n = t" using TaskDomain_validate_valid by simp
  ultimately show ?thesis by simp
qed

text \<open>The tasks of a request whose identifiers are free are all published.\<close>

lemma publish_fresh:
  assumes "publishable r tree" "inj uuid5" "inj fresh"
    and "ids = task_ids_for_request uuid5 fresh r tree"
    and "\<forall>i \<in> set (map snd ids). i \<noteq> [] \<and> get b (rq_session_id r) i = None"
  shows "\<exists>b' res. publish_request uuid5 fresh clock now b r = (Inr res, b') \<and> \<not> pb_skipped res
    \<and> pb_published_task_ids res = map snd ids
    \<and> pb_root_task_ids res = map (\<lambda>n. id_of_node ids (node_id n)) (tt_root_nodes tree)
    \<and> (bus_write strict)\<^sup>*\<^sup>* b b'
    \<and> (\<forall>s i. get b' s i = (if s = rq_session_id r \<and> i \<in> set (map snd ids)
         then find (\<lambda>t. td_task_id t = i) (tasks_of r tree ids clock (iter_nodes tree)) else get b s i))"
proof -
  let ?ts = "tasks_of r tree ids clock (iter_nodes tree)"
  note ok = publishableD [OF assms(1)]
  have ids: "ids_ok tree ids" using task_ids_list(2) ok assms(4,5) by (simp add: ids_ok_def)
  have tids: "map td_task_id ?ts = map snd ids" using ids_in_order ok ids by (simp add: tasks_of_ids)
  have plan: "publish_plan uuid5 fresh clock r tree =
      Inr (ids, map (\<lambda>n. id_of_node ids (node_id n)) (tt_root_nodes tree), ?ts)"
    using publish_plan_ok [OF assms(1)] assms(4,5) by (simp add: Let_def)
  have free: "td_session_id t = rq_session_id r \<and> td_status t = Pending \<and> TaskDomain_valid t
      \<and> get b (rq_session_id r) (td_task_id t) = None" if mem: "t \<in> set ?ts" for t
  proof -
    obtain nw n where t: "n \<in> set (iter_nodes tree)" "t = task_of r tree ids nw n"
      using tasks_of_mem [OF mem] by blast
    have "td_task_id t \<in> set (map snd ids)" using mem tids by (metis image_eqI set_map)
    then have "get b (rq_session_id r) (td_task_id t) = None" using assms(5) by blast
    then show ?thesis using t task_of_valid [OF assms(1) ids t(1)] by simp
  qed
  have dist: "distinct (map td_task_id ?ts)" using tids task_ids_distinct ok assms(2-4) by simp
  obtain b' where b': "publish_each b ?ts = (Inr ?ts, b')" "(bus_write strict)\<^sup>*\<^sup>* b b'"
    "\<forall>s i. get b' s i = (if s = rq_session_id r \<and> i \<in> set (map td_task_id ?ts)
       then find (\<lambda>t. td_task_id t = i) ?ts else get b s i)"
    using publish_each_ok [where known = "{}" and s = "rq_session_id r" and b = b and strict = strict,
        OF tasks_of_parents_first _ free dist] ok by blast
  have "result_from_existing_idempotent_tasks b r ?ts ids roots now = None" for roots
  proof -
    have "dict_merge [] (map (\<lambda>t. (td_task_id t, get b (rq_session_id r) (td_task_id t))) ?ts)
        = map (\<lambda>t. (td_task_id t, get b (rq_session_id r) (td_task_id t))) ?ts"
      by (rule dict_merge_Nil) (use dist in \<open>simp add: comp_def\<close>)
    then show ?thesis using free by (simp add: result_from_existing_idempotent_tasks_def filter_empty_conv)
  qed
  then show ?thesis using assms(1) plan b' tids
    by (simp add: publish_request_def publishable_def published_result_def)
qed

lemma find_task_of:
  assumes "distinct (map td_task_id (tasks_of r tree ids clock ns))" "n \<in> set ns"
  shows "\<exists>now. find (\<lambda>t. td_task_id t = id_of_node ids (node_id n)) (tasks_of r tree ids clock ns)
    = Some (task_of r tree ids now n)"
  using assms
proof (induction ns arbitrary: clock)
  case (Cons m ns)
  show ?case
  proof (cases "n = m")
    case False
    then have n: "n \<in> set ns" using Cons.prems(2) by simp
    then have "id_of_node ids (node_id n) \<in> set (map td_task_id (tasks_of r tree ids (\<lambda>k. clock (Suc k)) ns))"
      unfolding tasks_of_ids by simp
    then have "id_of_node ids (node_id m) \<noteq> id_of_node ids (node_id n)" using Cons.prems(1) by auto
    then show ?thesis using Cons.IH [OF _ n] Cons.prems(1) by simp
  qed auto
qed simp

section \<open>Properties of publishing\<close>

text \<open>The sample: a root and its child, published under an idempotency key; the identifiers are the node names.\<close>

definition sample_node :: "string \<Rightarrow> string option \<Rightarrow> NormalizedTaskNode list \<Rightarrow> NormalizedTaskNode" where
  "sample_node i p cs = NormalizedTaskNode \<lparr>nf_node_id = i, nf_parent_id = p, nf_title = ''t'', nf_intent = ''do'',
     nf_summary = None, nf_instructions = None, nf_acceptance_criteria = [], nf_required_capability = ''c'',
     nf_agent_ref = None, nf_metadata = []\<rparr> cs"

definition sample_publisher :: PublisherRef where
  "sample_publisher = \<lparr>pr_kind = Pub_api, pr_actor_id = None, pr_name = None\<rparr>"

definition sample_tree :: NormalizedTaskTree where
  "sample_tree = \<lparr>tt_root_nodes = [sample_node ''r'' None [sample_node ''c'' (Some ''r'') []]],
     tt_source = sample_publisher, tt_source_ref = None, tt_metadata = []\<rparr>"

definition sample_request :: "string option \<Rightarrow> PublishRequest" where
  "sample_request key = \<lparr>rq_request_id = ''q'', rq_session_id = ''s'', rq_publisher = sample_publisher,
     rq_source = \<lparr>ps_source_type = Src_api, ps_source_id = None, ps_metadata = []\<rparr>, rq_task_tree = Some sample_tree,
     rq_natural_language_input = None,
     rq_options = \<lparr>po_dry_run = False, po_require_confirmation = True, po_allow_pipeline = True,
       po_source_label = None, po_failure_policy = Fail_all\<rparr>,
     rq_idempotency_key = key\<rparr>"

definition sample_uuid4 :: "nat \<Rightarrow> string" where
  "sample_uuid4 k = replicate (Suc k) CHR ''u''"

lemma sample_publishable: "publishable (sample_request None) sample_tree" "publishable (sample_request (Some ''k'')) sample_tree"
  by (simp_all add: publishable_def) (code_simp, code_simp)

lemma sample_uuid4_inj: "inj sample_uuid4"
  by (auto simp: inj_def sample_uuid4_def)

text \<open>What publishing a tree with free identifiers does to the bus.\<close>

lemma published_tree:
  assumes "publishable r tree" "inj uuid5" "inj fresh" "bus_inv b"
    and "ids = task_ids_for_request uuid5 fresh r tree"
    and "\<forall>i \<in> set (map snd ids). i \<noteq> [] \<and> get b (rq_session_id r) i = None"
  shows "\<exists>res b'. publish_request uuid5 fresh clock now b r = (Inr res, b') \<and> \<not> pb_skipped res \<and> bus_inv b'
    \<and> pb_published_task_ids res = map (\<lambda>n. id_of_node ids (node_id n)) (iter_nodes tree)
    \<and> pb_root_task_ids res = map (\<lambda>n. id_of_node ids (node_id n)) (tt_root_nodes tree)
    \<and> distinct (pb_published_task_ids res)
    \<and> (\<forall>q \<in> set (tt_root_nodes tree). \<forall>n \<in> set (preorder q). \<exists>t.
         get b' (rq_session_id r) (id_of_node ids (node_id n)) = Some t \<and> TaskDomain_valid t \<and> td_status t = Pending
         \<and> td_intent t = nf_intent (node_fields_of n)
         \<and> td_required_capability t = nf_required_capability (node_fields_of n)
         \<and> td_parent_id t = map_option (id_of_node ids) (parent_id n) \<and> td_root_id t = id_of_node ids (node_id q)
         \<and> Inr (td_order_index t) = order_index tree n)
    \<and> (\<forall>s i. s \<noteq> rq_session_id r \<or> i \<notin> set (pb_published_task_ids res) \<longrightarrow> get b' s i = get b s i)"
proof -
  note ok = publishableD [OF assms(1)]
  have ids: "ids_ok tree ids" using task_ids_list(2) ok assms(5,6) by (simp add: ids_ok_def)
  have snds: "map (\<lambda>n. id_of_node ids (node_id n)) (iter_nodes tree) = map snd ids"
    using ids_in_order ok ids by blast
  have dist: "distinct (map snd ids)" using task_ids_distinct ok assms(2,3,5) by simp
  obtain b' res where pub: "publish_request uuid5 fresh clock now b r = (Inr res, b')" "\<not> pb_skipped res"
      "pb_published_task_ids res = map snd ids"
      "pb_root_task_ids res = map (\<lambda>n. id_of_node ids (node_id n)) (tt_root_nodes tree)"
      "(bus_write True)\<^sup>*\<^sup>* b b'"
      "\<forall>s i. get b' s i = (if s = rq_session_id r \<and> i \<in> set (map snd ids)
         then find (\<lambda>t. td_task_id t = i) (tasks_of r tree ids clock (iter_nodes tree)) else get b s i)"
    using publish_fresh [OF assms(1-3,5,6)] by blast
  have stored: "\<exists>t. get b' (rq_session_id r) (id_of_node ids (node_id n)) = Some t \<and> TaskDomain_valid t
      \<and> td_status t = Pending \<and> td_intent t = nf_intent (node_fields_of n)
      \<and> td_required_capability t = nf_required_capability (node_fields_of n)
      \<and> td_parent_id t = map_option (id_of_node ids) (parent_id n) \<and> td_root_id t = id_of_node ids (node_id q)
      \<and> Inr (td_order_index t) = order_index tree n"
    if q: "q \<in> set (tt_root_nodes tree)" and n: "n \<in> set (preorder q)" for q n
  proof -
    have it: "n \<in> set (iter_nodes tree)" using q n by (auto simp: iter_nodes_preorder)
    have mem: "id_of_node ids (node_id n) \<in> set (map snd ids)" using ids_ok_get [OF ids it] by blast
    have "distinct (map td_task_id (tasks_of r tree ids clock (iter_nodes tree)))"
      unfolding tasks_of_ids using dist snds by simp
    from find_task_of [OF this it] obtain nw where
      "get b' (rq_session_id r) (id_of_node ids (node_id n)) = Some (task_of r tree ids nw n)"
      using pub(6) mem by auto
    moreover have "root_id_of tree n = node_id q" using root_by_node_get [OF _ q n] ok by (simp add: root_id_of_def)
    ultimately show ?thesis using task_of_valid [OF assms(1) ids it] order_index_ok [OF _ it] ok by simp
  qed
  have "bus_inv b'" using pub(5) assms(4) by (rule writes_inv)
  moreover have "\<forall>s i. s \<noteq> rq_session_id r \<or> i \<notin> set (pb_published_task_ids res) \<longrightarrow> get b' s i = get b s i"
    unfolding pub(3) pub(6) [rule_format] by auto
  ultimately show ?thesis using pub(1-4) snds dist stored by (intro exI [of _ res] exI [of _ b']) simp
qed

text \<open>C23. Publishing a tree. A valid request that is not a dry run and whose identifiers are unused in the session is
  published as a whole: the result names one task per node, parents before children, and the roots; the bus then
  holds for every node a valid pending task with the node's content, whose parent and root are the tasks of the
  node's parent and root, and whose order index is the node's position among its siblings; every other task is as
  before, and the bus keeps its invariant.\<close>

theorem publish_tree_stored:
  assumes "publishable r tree" "inj uuid5" "inj fresh" "bus_inv b"
    and "ids = task_ids_for_request uuid5 fresh r tree"
    and "\<forall>i \<in> set (map snd ids). i \<noteq> [] \<and> get b (rq_session_id r) i = None"
  shows "\<exists>res b'. publish_request uuid5 fresh clock now b r = (Inr res, b') \<and> \<not> pb_skipped res \<and> bus_inv b'
    \<and> pb_published_task_ids res = map (\<lambda>n. id_of_node ids (node_id n)) (iter_nodes tree)
    \<and> pb_root_task_ids res = map (\<lambda>n. id_of_node ids (node_id n)) (tt_root_nodes tree)
    \<and> distinct (pb_published_task_ids res)
    \<and> (\<forall>q \<in> set (tt_root_nodes tree). \<forall>n \<in> set (preorder q). \<exists>t.
         get b' (rq_session_id r) (id_of_node ids (node_id n)) = Some t \<and> TaskDomain_valid t \<and> td_status t = Pending
         \<and> td_intent t = nf_intent (node_fields_of n)
         \<and> td_required_capability t = nf_required_capability (node_fields_of n)
         \<and> td_parent_id t = map_option (id_of_node ids) (parent_id n) \<and> td_root_id t = id_of_node ids (node_id q)
         \<and> Inr (td_order_index t) = order_index tree n)
    \<and> (\<forall>s i. s \<noteq> rq_session_id r \<or> i \<notin> set (pb_published_task_ids res) \<longrightarrow> get b' s i = get b s i)"
  using assms by (rule published_tree)

theorem publish_tree_stored_witness:
  "\<exists>res b'. publish_request id sample_uuid4 sample_time (sample_time 1) empty_bus (sample_request None) = (Inr res, b')
    \<and> pb_published_task_ids res = [''u'', ''uu''] \<and> pb_root_task_ids res = [''u'']"
proof -
  let ?ids = "task_ids_for_request id sample_uuid4 (sample_request None) sample_tree"
  have ids: "?ids = [(''r'', ''u''), (''c'', ''uu'')]" by code_simp
  have "\<forall>i \<in> set (map snd ?ids). i \<noteq> [] \<and> get empty_bus (rq_session_id (sample_request None)) i = None"
    by (simp add: ids empty_bus_def get_def)
  from publish_tree_stored [OF sample_publishable(1) inj_on_id sample_uuid4_inj empty_bus_inv(1) refl this]
  show ?thesis unfolding ids
    by (simp add: id_of_node_def sample_tree_def iter_nodes_def sample_node_def) blast
qed

end
