(* ===== verification/Publish_Replay.thy ===== *)
theory Publish_Replay
  imports Publish_Tree
begin

text \<open>
  Publishing the same request again under its idempotency key (\<^verbatim>\<open>task/publisher.py\<close>): what later bus calls keep of
  the published tasks, why the comparison with the stored tasks succeeds, and that the replay changes nothing.
\<close>

section \<open>Publishing again\<close>

text \<open>What no bus call changes of a stored task, apart from the intent, which a retry with an instruction extends.\<close>

definition content_kept :: "TaskDomain \<Rightarrow> TaskDomain \<Rightarrow> bool" where
  "content_kept t u \<longleftrightarrow> same_identity t u \<and> td_summary u = td_summary t \<and> td_instructions u = td_instructions t
     \<and> td_acceptance_criteria u = td_acceptance_criteria t"

lemma content_kept_refl [simp]: "content_kept t t"
  by (simp add: content_kept_def)

lemma content_kept_trans: "content_kept t u \<Longrightarrow> content_kept u v \<Longrightarrow> content_kept t v"
  by (auto simp: content_kept_def intro: same_identity_trans)

lemma task_move_content: "task_move strict pd t u \<Longrightarrow> content_kept t u"
  by (frule task_move_identity, erule task_move.cases)
    (auto simp: content_kept_def task_update_defs Let_def split: if_splits option.splits)

text \<open>Any further calls on the bus.\<close>

definition later :: "InMemoryTaskBus \<Rightarrow> InMemoryTaskBus \<Rightarrow> bool" where
  "later b b' \<longleftrightarrow> (\<lambda>b b'. \<exists>clk fresh op r. exec clk fresh op b = Inr (r, b'))\<^sup>*\<^sup>* b b'"

lemma later_keeps:
  assumes "later b b'" "bus_inv b" "get b s i = Some t"
  shows "bus_inv b' \<and> (\<exists>u. get b' s i = Some u \<and> content_kept t u)"
  using assms(1) unfolding later_def
proof (induction rule: rtranclp_induct)
  case base
  then show ?case using assms(2,3) by auto
next
  case (step y z)
  then obtain clk fresh op r where ex: "exec clk fresh op y = Inr (r, z)" by blast
  from step.IH obtain u where u: "bus_inv y" "get y s i = Some u" "content_kept t u" by blast
  have "keyed y" using u(1) by (simp add: bus_inv_def)
  from exec_get [OF ex this u(2)] obtain v where
    "get z s i = Some v" "v = u \<or> task_move False (parent_is_done y u) u v" by blast
  then show ?case using u exec_inv [OF ex] content_kept_trans task_move_content by blast
qed

subsection \<open>Comparing metadata\<close>

lemma stable_metadata_set:
  "stable_metadata (dict_set d k v) =
     (if k = ''publish_request_id'' then stable_metadata d else dict_set (stable_metadata d) k v)"
  by (induction d) (auto simp: stable_metadata_def)

lemma stable_metadata_merge:
  "stable_metadata (dict_merge d e) = dict_merge (stable_metadata d) (stable_metadata e)"
proof (induction e arbitrary: d)
  case (Cons x e)
  obtain k v where x: "x = (k, v)" by (cases x)
  have "stable_metadata (dict_merge d (x # e)) = stable_metadata (dict_merge (dict_set d k v) e)"
    by (simp add: dict_merge_def x)
  also have "\<dots> = dict_merge (stable_metadata (dict_set d k v)) (stable_metadata e)" by (rule Cons.IH)
  also have "\<dots> = dict_merge (stable_metadata d) (stable_metadata (x # e))"
    unfolding stable_metadata_set by (simp add: dict_merge_def x stable_metadata_def)
  finally show ?case .
qed (simp add: dict_merge_def stable_metadata_def)

text \<open>The request identifier is the only part of the metadata that differs between two requests for the same tree.\<close>

lemma stable_metadata_request_id:
  "stable_metadata (dc_metadata (dispatch_constraints (r\<lparr>rq_request_id := q\<rparr>) tree n))
   = stable_metadata (dc_metadata (dispatch_constraints r tree n))"
  by (simp add: dispatch_constraints_def stable_metadata_merge) (simp add: stable_metadata_def)

lemma json_ok_obj: "json_ok (JObj d) \<longleftrightarrow> dict_ok d \<and> (\<forall>k v. dict_get d k = Some v \<longrightarrow> json_ok v)"
  by (auto simp: members_ok_iff dest: map_of_SomeD)

lemma json_ok_merge: "json_ok (JObj d) \<Longrightarrow> json_ok (JObj e) \<Longrightarrow> json_ok (JObj (dict_merge d e))"
proof (induction e arbitrary: d)
  case (Cons x e)
  obtain k v where x: "x = (k, v)" by (cases x)
  have "json_ok (JObj (dict_set d k v))"
    using Cons.prems x unfolding json_ok_obj by (auto split: if_splits)
  moreover have "json_ok (JObj e)" using Cons.prems(2) x by simp
  ultimately have "json_ok (JObj (dict_merge (dict_set d k v) e))" by (rule Cons.IH)
  then show ?case by (simp add: dict_merge_def x)
qed (simp add: dict_merge_def)

lemma json_ok_stable: "json_ok (JObj d) \<Longrightarrow> json_ok (JObj (stable_metadata d))"
  by (auto simp: stable_metadata_def members_ok_iff distinct_map_filter)

text \<open>Metadata that equals itself: JSON values without \<open>nan\<close>.\<close>

definition metadata_ok :: "PublishRequest \<Rightarrow> NormalizedTaskTree \<Rightarrow> bool" where
  "metadata_ok r tree \<longleftrightarrow> json_ok (JObj (ps_metadata (rq_source r))) \<and> json_ok (JObj (tt_metadata tree))
     \<and> (\<forall>n \<in> set (iter_nodes tree). json_ok (JObj (nf_metadata (node_fields_of n))))"

lemma dispatch_metadata_ok:
  assumes "metadata_ok r tree" "n \<in> set (iter_nodes tree)"
  shows "json_ok (JObj (dc_metadata (dispatch_constraints r tree n)))"
  unfolding dispatch_constraints_def TaskDispatchConstraints.select_convs
  by (intro json_ok_merge) (use assms in \<open>auto simp: metadata_ok_def opt_json_def split: option.splits\<close>)

lemma task_matches_request_id:
  "task_matches_expected u (task_of (r\<lparr>rq_request_id := q\<rparr>) tree ids now' n)
   \<longleftrightarrow> task_matches_expected u (task_of r tree ids now n)"
proof -
  have "dc_required_agent_id (dispatch_constraints (r\<lparr>rq_request_id := q\<rparr>) tree n) = dc_required_agent_id (dispatch_constraints r tree n)"
    "dc_preferred_agent_id (dispatch_constraints (r\<lparr>rq_request_id := q\<rparr>) tree n) = dc_preferred_agent_id (dispatch_constraints r tree n)"
    "dc_required_capabilities (dispatch_constraints (r\<lparr>rq_request_id := q\<rparr>) tree n) = dc_required_capabilities (dispatch_constraints r tree n)"
    by (simp_all add: dispatch_constraints_def)
  then show ?thesis
    by (simp add: task_matches_expected_def dispatch_constraints_match_def stable_metadata_request_id
        split: option.splits)
qed

lemma task_matches_self:
  assumes "metadata_ok r tree" "n \<in> set (iter_nodes tree)"
  shows "task_matches_expected (task_of r tree ids now n) (task_of r tree ids now' n)"
  using json_eq_refl [OF json_ok_stable [OF dispatch_metadata_ok [OF assms]]]
  by (simp add: task_matches_expected_def dispatch_constraints_match_def)

lemma task_matches_kept:
  "content_kept t u \<Longrightarrow> td_intent u = td_intent t \<Longrightarrow> task_matches_expected t e \<Longrightarrow> task_matches_expected u e"
  by (auto simp: content_kept_def same_identity_def task_matches_expected_def)

subsection \<open>The stored tasks of a replay\<close>

lemma length_filter_all: "length (filter P xs) = length xs \<longleftrightarrow> (\<forall>x \<in> set xs. P x)"
proof (induction xs)
  case (Cons x xs)
  have "length (filter P xs) \<noteq> Suc (length xs)" using length_filter_le [of P xs] by linarith
  then show ?case using Cons by auto
qed simp

lemma existing_tasks:
  assumes "distinct (map td_task_id ts)"
  shows "filter (\<lambda>(i, x). x \<noteq> None) (dict_merge [] (map (\<lambda>t. (td_task_id t, get b s (td_task_id t))) ts))
    = map (\<lambda>t. (td_task_id t, get b s (td_task_id t))) (filter (\<lambda>t. get b s (td_task_id t) \<noteq> None) ts)"
proof -
  have "dict_merge [] (map (\<lambda>t. (td_task_id t, get b s (td_task_id t))) ts)
      = map (\<lambda>t. (td_task_id t, get b s (td_task_id t))) ts"
    by (rule dict_merge_Nil) (use assms in \<open>simp add: comp_def\<close>)
  then show ?thesis by (simp add: filter_map comp_def)
qed

text \<open>All tasks are stored and match: the replay is answered from the bus.\<close>

definition all_match :: "InMemoryTaskBus \<Rightarrow> string \<Rightarrow> TaskDomain list \<Rightarrow> bool" where
  "all_match b s ts \<longleftrightarrow> (\<forall>t \<in> set ts. \<exists>u. get b s (td_task_id t) = Some u \<and> task_matches_expected u t)"

lemma map_of_by_id:
  "t \<in> set ts \<Longrightarrow> map_of (map (\<lambda>t. (td_task_id t, f (td_task_id t))) ts) (td_task_id t) = Some (f (td_task_id t))"
  by (induction ts) auto

lemma existing_result_iff:
  assumes "distinct (map td_task_id ts)" "ts \<noteq> []"
  shows "(\<exists>res. result_from_existing_idempotent_tasks b r ts ids roots now = Some res \<and> \<not> pb_skipped res)
    \<longleftrightarrow> all_match b (rq_session_id r) ts"
    and "result_from_existing_idempotent_tasks b r ts ids roots now = Some res \<Longrightarrow> \<not> pb_skipped res \<Longrightarrow>
      pb_published_task_ids res = map td_task_id ts \<and> pb_root_task_ids res = roots"
    and "result_from_existing_idempotent_tasks b r ts ids roots now = None \<Longrightarrow>
      \<forall>t \<in> set ts. get b (rq_session_id r) (td_task_id t) = None"
proof -
  let ?g = "\<lambda>t. get b (rq_session_id r) (td_task_id t)"
  let ?all = "\<forall>t \<in> set ts. ?g t \<noteq> None"
  let ?dict = "map (\<lambda>t. (td_task_id t, ?g t)) ts"
  have all: "filter (\<lambda>t. ?g t \<noteq> None) ts = ts" if ?all using that by simp
  have len: "length (filter (\<lambda>t. ?g t \<noteq> None) ts) = length ts \<longleftrightarrow> ?all" by (rule length_filter_all)
  note unf = result_from_existing_idempotent_tasks_def existing_tasks [OF assms(1)] Let_def
  have cmp: "filter (\<lambda>t. \<not> task_matches_expected (the (the (map_of ?dict (td_task_id t)))) t) ts = [] \<longleftrightarrow>
      (\<forall>t \<in> set ts. task_matches_expected (the (?g t)) t)"
    using map_of_by_id [of _ ts "get b (rq_session_id r)"] by (auto simp: filter_empty_conv)
  have match: "all_match b (rq_session_id r) ts \<longleftrightarrow> ?all \<and> (\<forall>t \<in> set ts. task_matches_expected (the (?g t)) t)"
    by (fastforce simp: all_match_def)
  show "(\<exists>res. result_from_existing_idempotent_tasks b r ts ids roots now = Some res \<and> \<not> pb_skipped res)
    \<longleftrightarrow> all_match b (rq_session_id r) ts"
  proof (cases ?all)
    case True
    then show ?thesis
      unfolding unf match all [OF True] using cmp assms(2) by (simp add: skipped_result_def published_result_def)
  next
    case False
    then show ?thesis unfolding unf match using len by (auto simp: skipped_result_def)
  qed
  show "pb_published_task_ids res = map td_task_id ts \<and> pb_root_task_ids res = roots"
    if "result_from_existing_idempotent_tasks b r ts ids roots now = Some res" "\<not> pb_skipped res"
    using that unfolding unf by (auto simp: skipped_result_def published_result_def split: if_splits)
  show "\<forall>t \<in> set ts. ?g t = None" if "result_from_existing_idempotent_tasks b r ts ids roots now = None"
    using that unfolding unf by (auto simp: filter_empty_conv split: if_splits)
qed

lemma task_matches_any_time:
  "task_matches_expected u (task_of r tree ids now n) \<longleftrightarrow> task_matches_expected u (task_of r tree ids now' n)"
  using task_matches_request_id [where r = r and q = "rq_request_id r"] by simp

definition node_matches ::
  "InMemoryTaskBus \<Rightarrow> PublishRequest \<Rightarrow> NormalizedTaskTree \<Rightarrow> (string, string) dict \<Rightarrow> NormalizedTaskNode \<Rightarrow> bool" where
  "node_matches b r tree ids n \<longleftrightarrow>
     (\<exists>u. get b (rq_session_id r) (id_of_node ids (node_id n)) = Some u
        \<and> (\<forall>now. task_matches_expected u (task_of r tree ids now n)))"

lemma all_match_nodes:
  "all_match b (rq_session_id r) (tasks_of r tree ids clock ns) \<longleftrightarrow> (\<forall>n \<in> set ns. node_matches b r tree ids n)"
proof (induction ns arbitrary: clock)
  case (Cons n ns)
  have "(\<exists>u. get b (rq_session_id r) (id_of_node ids (node_id n)) = Some u
      \<and> task_matches_expected u (task_of r tree ids (clock 0) n)) \<longleftrightarrow> node_matches b r tree ids n"
    unfolding node_matches_def using task_matches_any_time by blast
  then show ?case using Cons.IH by (simp add: all_match_def)
qed (simp add: all_match_def)

lemma node_matches_request_id:
  "node_matches b (r\<lparr>rq_request_id := q\<rparr>) tree ids n \<longleftrightarrow> node_matches b r tree ids n"
proof -
  have "task_matches_expected u (task_of (r\<lparr>rq_request_id := q\<rparr>) tree ids now n)
      = task_matches_expected u (task_of r tree ids now n)" for u now
    by (rule task_matches_request_id)
  then show ?thesis by (simp add: node_matches_def)
qed

lemma tasks_of_nonempty:
  assumes "tree_ok tree"
  shows "tasks_of r tree ids clock (iter_nodes tree) \<noteq> []"
proof -
  obtain q where "q \<in> set (tt_root_nodes tree)" using assms by (cases "tt_root_nodes tree") (auto simp: tree_ok_def)
  then have "iter_nodes tree \<noteq> []" using root_in_iter by fastforce
  then show ?thesis by (cases "iter_nodes tree") simp_all
qed

text \<open>After a publish that was not skipped, every node has its task.\<close>

lemma publish_keyed_matches:
  assumes "publishable r tree" "rq_idempotency_key r = Some key" "inj uuid5" "inj fresh" "bus_inv b"
    and "metadata_ok r tree" and "ids = task_ids_for_request uuid5 fresh r tree" and "\<forall>i \<in> set (map snd ids). i \<noteq> []"
    and "publish_request uuid5 fresh clock now b r = (Inr res, b1)" "\<not> pb_skipped res"
  shows "bus_inv b1 \<and> (\<forall>n \<in> set (iter_nodes tree). node_matches b1 r tree ids n)
    \<and> pb_published_task_ids res = map snd ids
    \<and> pb_root_task_ids res = map (\<lambda>n. id_of_node ids (node_id n)) (tt_root_nodes tree)"
proof -
  let ?ts = "tasks_of r tree ids clock (iter_nodes tree)"
  let ?roots = "map (\<lambda>n. id_of_node ids (node_id n)) (tt_root_nodes tree)"
  note ok = publishableD [OF assms(1)]
  have ids: "ids_ok tree ids" using task_ids_list(2) ok assms(7,8) by (simp add: ids_ok_def)
  have tids: "map td_task_id ?ts = map snd ids" using ids_in_order ok ids by (simp add: tasks_of_ids)
  have dist: "distinct (map td_task_id ?ts)" using tids task_ids_distinct ok assms(3,4,7) by simp
  have ne: "?ts \<noteq> []" using tasks_of_nonempty ok by blast
  have plan: "publish_plan uuid5 fresh clock r tree = Inr (ids, ?roots, ?ts)"
    using publish_plan_ok [OF assms(1)] assms(7,8) by (simp add: Let_def)
  note iff = existing_result_iff [OF dist ne, of b r ids ?roots now]
  show ?thesis
  proof (cases "result_from_existing_idempotent_tasks b r ?ts ids ?roots now")
    case (Some res0)
    then have "res0 = res \<and> b1 = b"
      using assms(1,2,9) plan by (simp add: publish_request_def publishable_def)
    then show ?thesis using Some assms(5,10) iff(1) iff(2) [of res] tids all_match_nodes by simp
  next
    case None
    have free: "\<forall>i \<in> set (map snd ids). i \<noteq> [] \<and> get b (rq_session_id r) i = None"
      using iff(3) [OF None] assms(8) unfolding tids [symmetric] by auto
    obtain b' res' where pub: "publish_request uuid5 fresh clock now b r = (Inr res', b')"
      "pb_published_task_ids res' = map snd ids" "pb_root_task_ids res' = ?roots" "(bus_write True)\<^sup>*\<^sup>* b b'"
      "\<forall>s i. get b' s i = (if s = rq_session_id r \<and> i \<in> set (map snd ids)
         then find (\<lambda>t. td_task_id t = i) ?ts else get b s i)"
      using publish_fresh [OF assms(1,3,4,7) free] by blast
    have same: "res' = res" "b' = b1" using pub(1) assms(9) by simp_all
    have "node_matches b1 r tree ids n" if n: "n \<in> set (iter_nodes tree)" for n
    proof -
      obtain nw where "find (\<lambda>t. td_task_id t = id_of_node ids (node_id n)) ?ts = Some (task_of r tree ids nw n)"
        using find_task_of [OF dist n] by blast
      then have "get b1 (rq_session_id r) (id_of_node ids (node_id n)) = Some (task_of r tree ids nw n)"
        using pub(5) same(2) ids_ok_get [OF ids n] by simp
      then show ?thesis using task_matches_self [OF assms(6) n] by (simp add: node_matches_def)
    qed
    moreover have "bus_inv b1" using writes_inv [OF pub(4) assms(5)] same(2) by simp
    ultimately show ?thesis using pub(2,3) same(1) by simp
  qed
qed

lemma task_ids_request_id:
  "rq_idempotency_key r = Some key \<Longrightarrow>
     task_ids_for_request uuid5 fresh' (r\<lparr>rq_request_id := q\<rparr>) tree = task_ids_for_request uuid5 fresh r tree"
  by (simp add: task_ids_for_request_def idempotent_task_id_def idempotent_name_def)

text \<open>C24. Idempotent publishing. A request with an idempotency key that was published, then any further bus calls
  (claims, completions, failures, waits, retries without an instruction), then the same request again under a new request
  identifier: the answer names the same tasks and roots, is not a skip, and the bus is left as it is.\<close>

theorem replay_publish_changes_nothing:
  assumes "publishable r tree" "rq_idempotency_key r = Some key" "inj uuid5" "inj fresh" "bus_inv b"
    and "metadata_ok r tree" and "\<forall>i \<in> set (map snd (task_ids_for_request uuid5 fresh r tree)). i \<noteq> []"
    and "publish_request uuid5 fresh clock now b r = (Inr res, b1)" "\<not> pb_skipped res"
    and "later b1 b2"
    and "\<forall>i \<in> set (pb_published_task_ids res).
           map_option td_intent (get b2 (rq_session_id r) i) = map_option td_intent (get b1 (rq_session_id r) i)"
    and "q \<noteq> []"
  shows "\<exists>res'. publish_request uuid5 fresh' clock' now' b2 (r\<lparr>rq_request_id := q\<rparr>) = (Inr res', b2)
    \<and> \<not> pb_skipped res' \<and> pb_published_task_ids res' = pb_published_task_ids res
    \<and> pb_root_task_ids res' = pb_root_task_ids res"
proof -
  let ?ids = "task_ids_for_request uuid5 fresh r tree" and ?r = "r\<lparr>rq_request_id := q\<rparr>"
  let ?ts = "tasks_of ?r tree ?ids clock' (iter_nodes tree)"
  let ?roots = "map (\<lambda>n. id_of_node ?ids (node_id n)) (tt_root_nodes tree)"
  note ok = publishableD [OF assms(1)]
  have ids: "ids_ok tree ?ids" using task_ids_list(2) ok assms(7) by (simp add: ids_ok_def)
  from publish_keyed_matches [OF assms(1-6) refl assms(7-9)] have
    first: "bus_inv b1" "\<And>n. n \<in> set (iter_nodes tree) \<Longrightarrow> node_matches b1 r tree ?ids n"
      "pb_published_task_ids res = map snd ?ids" "pb_root_task_ids res = ?roots" by blast+
  have "node_matches b2 ?r tree ?ids n" if n: "n \<in> set (iter_nodes tree)" for n
  proof -
    obtain u where u: "get b1 (rq_session_id r) (id_of_node ?ids (node_id n)) = Some u"
      "\<And>nw. task_matches_expected u (task_of r tree ?ids nw n)" using first(2) [OF n] by (auto simp: node_matches_def)
    obtain v where v: "get b2 (rq_session_id r) (id_of_node ?ids (node_id n)) = Some v" "content_kept u v"
      using later_keeps [OF assms(10) first(1) u(1)] by blast
    have "td_intent v = td_intent u"
      using assms(11) u(1) v(1) ids_ok_get [OF ids n] unfolding first(3) by fastforce
    then have "node_matches b2 r tree ?ids n" using v u(2) task_matches_kept by (auto simp: node_matches_def)
    then show ?thesis by (simp add: node_matches_request_id)
  qed
  then have match: "all_match b2 (rq_session_id ?r) ?ts" by (simp only: all_match_nodes ball_simps) blast
  have pub: "publishable ?r tree" using assms(1,12) by (rule publishable_request_id)
  have ids': "task_ids_for_request uuid5 fresh' ?r tree = ?ids" using assms(2) by (rule task_ids_request_id)
  have plan: "publish_plan uuid5 fresh' clock' ?r tree = Inr (?ids, ?roots, ?ts)"
    using publish_plan_ok [OF pub, of uuid5 fresh' clock'] assms(7) unfolding ids' by (simp add: Let_def)
  have tids: "map td_task_id ?ts = map snd ?ids" using ids_in_order ok ids by (simp add: tasks_of_ids)
  have dist: "distinct (map td_task_id ?ts)" using tids task_ids_distinct ok assms(3,4) by simp
  have ne: "?ts \<noteq> []" using tasks_of_nonempty ok by blast
  from existing_result_iff(1) [OF dist ne, of b2 ?r ?ids ?roots now'] match obtain res' where
    res': "result_from_existing_idempotent_tasks b2 ?r ?ts ?ids ?roots now' = Some res'" "\<not> pb_skipped res'" by blast
  then have "publish_request uuid5 fresh' clock' now' b2 ?r = (Inr res', b2)"
    using pub plan assms(2) by (simp add: publish_request_def publishable_def)
  then show ?thesis using res'(2) existing_result_iff(2) [OF dist ne res'] tids first(3,4) by simp
qed

definition sample_publish :: "PublishResult result \<times> InMemoryTaskBus" where
  "sample_publish = publish_request id sample_uuid4 sample_time (sample_time 1) empty_bus (sample_request (Some ''k''))"

definition sample_claimed :: InMemoryTaskBus where
  "sample_claimed = projr (run [Claim_next ''s'' ''c'' ''a''] (snd sample_publish))"

lemma run_later: "run ops b = Inr b' \<Longrightarrow> later b b'"
proof (induction ops arbitrary: b)
  case (Cons op ops)
  then obtain r b1 where "exec sample_time ''uuid'' op b = Inr (r, b1)" "run ops b1 = Inr b'"
    by (auto split: sum.splits prod.splits)
  then show ?case using Cons.IH unfolding later_def by (blast intro: converse_rtranclp_into_rtranclp)
qed (simp add: later_def)

theorem replay_publish_changes_nothing_witness:
  "\<exists>res'. publish_request id sample_uuid4 sample_time (sample_time 9) sample_claimed
      ((sample_request (Some ''k''))\<lparr>rq_request_id := ''q2''\<rparr>) = (Inr res', sample_claimed) \<and> \<not> pb_skipped res'"
proof -
  let ?r = "sample_request (Some ''k'')"
  have pub: "publish_request id sample_uuid4 sample_time (sample_time 1) empty_bus ?r
      = (Inr (projr (fst sample_publish)), snd sample_publish)"
    unfolding sample_publish_def [symmetric] by (simp add: prod_eq_iff) code_simp
  have ne: "\<forall>i \<in> set (map snd (task_ids_for_request id sample_uuid4 ?r sample_tree)). i \<noteq> []" by code_simp
  have meta: "metadata_ok ?r sample_tree" by code_simp
  have key: "rq_idempotency_key ?r = Some ''k''" by (simp add: sample_request_def)
  have "run [Claim_next ''s'' ''c'' ''a''] (snd sample_publish) = Inr sample_claimed" by code_simp
  then have lat: "later (snd sample_publish) sample_claimed" by (rule run_later)
  have kept: "\<forall>i \<in> set (pb_published_task_ids (projr (fst sample_publish))).
      map_option td_intent (get sample_claimed (rq_session_id ?r) i)
      = map_option td_intent (get (snd sample_publish) (rq_session_id ?r) i)" by code_simp
  have "\<not> pb_skipped (projr (fst sample_publish))" by code_simp
  from replay_publish_changes_nothing [OF sample_publishable(2) key inj_on_id sample_uuid4_inj empty_bus_inv(1) meta ne pub this
      lat kept, of "''q2''"]
  show ?thesis by blast
qed

text \<open>A retry with an instruction rewrites the intent of the task, so a later replay of the request that published it is
  answered as a skip.\<close>

lemma retry_instruction_blocks_replay:
  "case run [Skip ''s'' (hd (pb_published_task_ids (projr (fst sample_publish)))) ''no'',
             Retry ''s'' (hd (pb_published_task_ids (projr (fst sample_publish)))) (Some ''x'')] (snd sample_publish) of
     Inl e \<Rightarrow> False
   | Inr b \<Rightarrow>
       (case publish_request id sample_uuid4 sample_time (sample_time 9) b (sample_request (Some ''k'')) of
          (Inr res, b') \<Rightarrow> pb_skipped res \<and> pb_reason res =
            Some [Msg ''idempotent publish target already exists with different task payload'' []]
        | _ \<Rightarrow> False)"
  by code_simp

end
