(* ===== verification/Plan_Proposal.thy ===== *)
theory Plan_Proposal
  imports Prelude
begin

text \<open>
  The plan a language model proposes (\<open>PlanProposal\<close> of \<^verbatim>\<open>task/authoring.py\<close>): a flat list of tasks that
  refer to one another by client identifier or by index, with the validator that rejects unknown references and
  cycles.

  The dependency sets are lists in the order of insertion. Python iterates over them in an order of its own; the
  theorem on the cycle check says that its answer does not depend on the order.
\<close>

section \<open>Data\<close>

record PlanTaskNodeProposal =
  pt_client_task_id :: "string option"
  pt_task_index :: "int option"
  pt_title :: string
  pt_intent :: string
  pt_summary :: "string option"
  pt_instructions :: "string option"
  pt_required_capability :: string
  pt_depends_on :: "string list"
  pt_constraints :: "string list"
  pt_acceptance_criteria :: "string list"
  pt_rationale :: "string option"

record PlanProposal =
  pp_title :: string
  pp_objective :: "string option"
  pp_summary :: "string option"
  pp_tasks :: "PlanTaskNodeProposal list"
  pp_assistant_message :: string

definition PlanTaskNodeProposal_fields_ok :: "PlanTaskNodeProposal \<Rightarrow> bool" where
  "PlanTaskNodeProposal_fields_ok t \<longleftrightarrow>
     opt_nonempty (pt_client_task_id t) \<and> (case pt_task_index t of None \<Rightarrow> True | Some k \<Rightarrow> 1 \<le> k)
     \<and> pt_title t \<noteq> [] \<and> pt_intent t \<noteq> [] \<and> opt_nonempty (pt_summary t) \<and> opt_nonempty (pt_instructions t)
     \<and> pt_required_capability t \<noteq> []"

section \<open>References\<close>

text \<open>The set \<open>refs\<close> of one task.\<close>

definition task_refs :: "PlanTaskNodeProposal \<Rightarrow> string list" where
  "task_refs t =
     (case pt_client_task_id t of None \<Rightarrow> [] | Some c \<Rightarrow> [c])
     @ (case pt_task_index t of None \<Rightarrow> [] | Some k \<Rightarrow> [str_int k])"

text \<open>The first loop of \<open>_validate_plan_dependencies\<close>: \<open>ref_to_index\<close>, where a later task replaces an earlier one.\<close>

definition ref_to_index :: "PlanTaskNodeProposal list \<Rightarrow> (string, nat) dict" where
  "ref_to_index tasks =
     foldl (\<lambda>d (index, task). foldl (\<lambda>d r. dict_set d r index) d (task_refs task)) [] (enumerate 0 tasks)"

text \<open>\<open>edges[index].add(...)\<close> for one task.\<close>

fun task_edges :: "(string, nat) dict \<Rightarrow> string list \<Rightarrow> string list \<Rightarrow> nat list \<Rightarrow> nat list result" where
  "task_edges refs own [] edges = Inr edges"
| "task_edges refs own (r # rs) edges =
     (case dict_get refs r of
        None \<Rightarrow> Inl (ValueError (Msg ''PlanProposal depends_on references unknown task {}'' [r]))
      | Some j \<Rightarrow>
          if r \<in> set own
          then Inl (ValueError (Msg ''PlanProposal task must not depend on itself: {}'' [r]))
          else task_edges refs own rs (if j \<in> set edges then edges else edges @ [j]))"

definition plan_edges :: "PlanTaskNodeProposal list \<Rightarrow> (nat, nat list) dict result" where
  "plan_edges tasks =
     map_ok (enumerate 0)
       (those_ok (map (\<lambda>t. task_edges (ref_to_index tasks) (task_refs t) (pt_depends_on t) []) tasks))"

section \<open>The cycle check\<close>

text \<open>\<open>visit\<close> on a list of nodes. The state is \<open>visiting\<close> and \<open>visited\<close>; a node that is neither is entered, its
  dependencies are visited, and it moves from \<open>visiting\<close> to \<open>visited\<close>. \<open>edges[index]\<close> raises for a node that is no
  key.\<close>

function (sequential, domintros) visit ::
  "(nat, nat list) dict \<Rightarrow> nat list \<Rightarrow> nat set \<times> nat set \<Rightarrow> (nat set \<times> nat set) result" where
  "visit edges [] (visiting, visited) = Inr (visiting, visited)"
| "visit edges (i # is) (visiting, visited) =
     (if i \<in> visited then visit edges is (visiting, visited)
      else if i \<in> visiting then Inl (ValueError (Msg ''PlanProposal depends_on must not contain cycles'' []))
      else case dict_get edges i of
             None \<Rightarrow> Inl (KeyError (Msg ''index'' []))
           | Some ds \<Rightarrow>
               (case visit edges ds (insert i visiting, visited) of
                  Inl e \<Rightarrow> Inl e
                | Inr (visiting', visited') \<Rightarrow> visit edges is (visiting' - {i}, insert i visited')))"
  by pat_completeness auto

text \<open>The nodes under visit are the same before and after a call.\<close>

lemma visit_restores:
  "visit_dom (edges, is, (visiting, visited)) \<Longrightarrow> visit edges is (visiting, visited) = Inr (v, w) \<Longrightarrow> v = visiting"
proof (induction edges "is" "(visiting, visited)" arbitrary: visiting visited v w rule: visit.pinduct)
  case (1 edges visiting visited)
  then show ?case by (simp add: visit.psimps)
next
  case (2 edges i "is" visiting visited)
  show ?case
  proof (cases "i \<in> visited")
    case True
    then show ?thesis using 2 by (simp add: visit.psimps)
  next
    case False
    then obtain ds v' w' where ds: "i \<notin> visiting" "dict_get edges i = Some ds"
      "visit edges ds (insert i visiting, visited) = Inr (v', w')"
      "visit edges is (v' - {i}, insert i w') = Inr (v, w)"
      using "2.prems" "2.hyps"(1) by (auto simp: visit.psimps split: if_splits option.splits sum.splits prod.splits)
    have "v' = insert i visiting" using 2(3) [OF False ds(1,2) ds(3)] .
    moreover have "v = v' - {i}" using 2(4) [OF False ds(1,2) ds(3) _ ds(4)] by simp
    ultimately show ?thesis using ds(1) by auto
  qed
qed

termination visit
proof (relation "inv_image (less_than <*lex*> less_than)
    (\<lambda>(edges, is, visiting, visited). (card (fst ` set edges - visiting), length is))")
  fix edges :: "(nat, nat list) dict" and i :: nat and "is" visiting visited
  fix ds assume i: "i \<notin> visiting" "dict_get edges i = Some ds"
  have "i \<in> fst ` set edges" using i(2) by (metis map_of_eq_None_iff option.distinct(1))
  then have "card (fst ` set edges - insert i visiting) < card (fst ` set edges - visiting)"
    using i(1) by (intro psubset_card_mono) auto
  then show "((edges, ds, insert i visiting, visited), edges, i # is, visiting, visited)
      \<in> inv_image (less_than <*lex*> less_than)
          (\<lambda>(edges, is, visiting, visited). (card (fst ` set edges - visiting), length is))" by simp
next
  fix edges :: "(nat, nat list) dict" and i :: nat and "is" visiting visited
  fix ds vw v w assume i: "i \<notin> visiting" "dict_get edges i = Some ds"
    "visit edges ds (insert i visiting, visited) = Inr vw" "(v, w) = vw"
    "visit_dom (edges, ds, insert i visiting, visited)"
  then have "v = insert i visiting" using visit_restores by blast
  then have "v - {i} = visiting" using i(1) by auto
  then show "((edges, is, v - {i}, insert i w), edges, i # is, visiting, visited)
      \<in> inv_image (less_than <*lex*> less_than)
          (\<lambda>(edges, is, visiting, visited). (card (fst ` set edges - visiting), length is))" by simp
qed auto

lemma visit_total: "visit_dom (edges, is, vs)"
proof (induction edges "is" vs rule: visit.induct)
  case (1 edges visiting visited)
  show ?case by (rule visit.domintros)
next
  case (2 edges i "is" visiting visited)
  show ?case by (rule visit.domintros) (use 2 in auto)
qed

lemmas visit_restored = visit_restores [OF visit_total]

definition reject_plan_dependency_cycles :: "(nat, nat list) dict \<Rightarrow> unit result" where
  "reject_plan_dependency_cycles edges = map_ok (\<lambda>_. ()) (visit edges (map fst edges) ({}, {}))"

definition validate_plan_dependencies :: "PlanTaskNodeProposal list \<Rightarrow> unit result" where
  "validate_plan_dependencies tasks = bind_ok (plan_edges tasks) reject_plan_dependency_cycles"

definition validate_task_identity :: "PlanProposal \<Rightarrow> PlanProposal result" where
  "validate_task_identity p =
     (if \<not> distinct (List.map_filter pt_task_index (pp_tasks p))
      then Inl (ValueError (Msg ''PlanProposal task_index values must be unique'' []))
      else if \<not> distinct (List.map_filter pt_client_task_id (pp_tasks p))
      then Inl (ValueError (Msg ''PlanProposal client_task_id values must be unique'' []))
      else map_ok (\<lambda>_. p) (validate_plan_dependencies (pp_tasks p)))"

text \<open>Constructing a proposal: fields first, then the validator.\<close>

definition PlanProposal_validate :: "PlanProposal \<Rightarrow> PlanProposal result" where
  "PlanProposal_validate p =
     (if pp_title p = [] \<or> \<not> opt_nonempty (pp_objective p) \<or> \<not> opt_nonempty (pp_summary p) \<or> pp_tasks p = []
         \<or> pp_assistant_message p = [] \<or> \<not> list_all PlanTaskNodeProposal_fields_ok (pp_tasks p)
         \<or> \<not> is_ok (validate_task_identity p)
      then Inl (ValidationError (Msg ''PlanProposal'' [])) else Inr p)"

text \<open>\<open>ordered_tasks\<close>: by index, or by position where there is none, and then by position.\<close>

definition plan_sort_key :: "nat \<times> PlanTaskNodeProposal \<Rightarrow> int \<times> nat" where
  "plan_sort_key it =
     ((case pt_task_index (snd it) of None \<Rightarrow> int (fst it) | Some k \<Rightarrow> k), fst it)"

definition ordered_tasks :: "PlanProposal \<Rightarrow> PlanTaskNodeProposal list" where
  "ordered_tasks p = map snd (sort_key plan_sort_key (enumerate 1 (pp_tasks p)))"

section \<open>The cycle check is right\<close>

definition edge_rel :: "(nat, nat list) dict \<Rightarrow> (nat \<times> nat) set" where
  "edge_rel edges = {(i, j). \<exists>ds. dict_get edges i = Some ds \<and> j \<in> set ds}"

definition edges_closed :: "(nat, nat list) dict \<Rightarrow> bool" where
  "edges_closed edges \<longleftrightarrow> (\<forall>i j. (i, j) \<in> edge_rel edges \<longrightarrow> j \<in> fst ` set edges)"

text \<open>What \<open>visited\<close> holds: a set of nodes that no edge leaves and no cycle meets.\<close>

definition cleared :: "(nat \<times> nat) set \<Rightarrow> nat set \<Rightarrow> bool" where
  "cleared R w \<longleftrightarrow> R `` w \<subseteq> w \<and> (\<forall>x \<in> w. (x, x) \<notin> R\<^sup>+)"

lemma closed_rtrancl: "(x, y) \<in> R\<^sup>* \<Longrightarrow> R `` w \<subseteq> w \<Longrightarrow> x \<in> w \<Longrightarrow> y \<in> w"
  by (induction rule: rtrancl_induct) auto

lemma cleared_insert:
  assumes "cleared R w" "i \<notin> w" "R `` {i} \<subseteq> w"
  shows "cleared R (insert i w)"
proof -
  have "(i, i) \<notin> R\<^sup>+"
  proof
    assume "(i, i) \<in> R\<^sup>+"
    then obtain j where "(i, j) \<in> R" "(j, i) \<in> R\<^sup>*" by (metis tranclD)
    then have "i \<in> w" using closed_rtrancl [of j i R w] assms(1,3) by (auto simp: cleared_def)
    then show False using assms(2) by contradiction
  qed
  then show ?thesis using assms(1,3) by (auto simp: cleared_def)
qed

lemma visit_sound:
  assumes "visit edges is (visiting, visited) = Inr (v, w)" "cleared (edge_rel edges) visited" "visited \<inter> visiting = {}"
  shows "cleared (edge_rel edges) w \<and> set is \<union> visited \<subseteq> w \<and> w \<inter> visiting = {}"
  using assms
proof (induction edges "is" "(visiting, visited)" arbitrary: visiting visited v w rule: visit.induct)
  case (1 edges visiting visited)
  then show ?case by simp
next
  case (2 edges i "is" visiting visited)
  show ?case
  proof (cases "i \<in> visited")
    case True
    then show ?thesis using 2(1) [OF True _ 2(5,6)] 2(4) by auto
  next
    case False
    then obtain ds v' w' where ds: "i \<notin> visiting" "dict_get edges i = Some ds"
      "visit edges ds (insert i visiting, visited) = Inr (v', w')"
      "visit edges is (v' - {i}, insert i w') = Inr (v, w)"
      using 2(4) by (auto split: if_splits option.splits sum.splits prod.splits)
    have "v' = insert i visiting" using ds(3) by (rule visit_restored)
    then have v': "v' - {i} = visiting" using ds(1) by auto
    have "cleared (edge_rel edges) w' \<and> set ds \<union> visited \<subseteq> w' \<and> w' \<inter> insert i visiting = {}"
      using 2(2) [OF False ds(1,2,3)] 2(5,6) False by auto
    moreover have "edge_rel edges `` {i} = set ds" using ds(2) by (auto simp: edge_rel_def)
    ultimately have w': "cleared (edge_rel edges) (insert i w')" "visited \<subseteq> w'" "insert i w' \<inter> visiting = {}"
      using cleared_insert [of "edge_rel edges" w' i] ds(1) by auto
    have "cleared (edge_rel edges) w \<and> set is \<union> insert i w' \<subseteq> w \<and> w \<inter> visiting = {}"
      using 2(3) [OF False ds(1,2,3) refl ds(4) w'(1)] w'(3) unfolding v' by blast
    then show ?thesis using w'(2) by auto
  qed
qed

text \<open>When the check raises there is a cycle: the node it meets again is one whose visit has not ended, and every such
  node reaches the nodes at hand.\<close>

lemma visit_complete:
  assumes "visit edges is (visiting, visited) = Inl e" "edges_closed edges" "set is \<subseteq> fst ` set edges"
    and "\<And>x i. x \<in> visiting \<Longrightarrow> i \<in> set is \<Longrightarrow> (x, i) \<in> (edge_rel edges)\<^sup>+"
  shows "e = ValueError (Msg ''PlanProposal depends_on must not contain cycles'' []) \<and> \<not> acyclic (edge_rel edges)"
  using assms
proof (induction edges "is" "(visiting, visited)" arbitrary: visiting visited rule: visit.induct)
  case (1 edges visiting visited)
  then show ?case by simp
next
  case (2 edges i "is" visiting visited)
  have reach: "\<And>x. x \<in> visiting \<Longrightarrow> (x, i) \<in> (edge_rel edges)\<^sup>+"
    "\<And>x j. x \<in> visiting \<Longrightarrow> j \<in> set is \<Longrightarrow> (x, j) \<in> (edge_rel edges)\<^sup>+" using 2(7) by auto
  consider (old) "i \<in> visited" | (again) "i \<notin> visited" "i \<in> visiting" | (enter) "i \<notin> visited" "i \<notin> visiting"
    by blast
  then show ?case
  proof cases
    case old
    then show ?thesis using 2(1) [OF old _ 2(5) _ reach(2)] 2(4,6) by simp
  next
    case again
    then show ?thesis using 2(4) reach(1) unfolding acyclic_def by auto
  next
    case enter
    have "i \<in> fst ` set edges" using 2(6) by simp
    then obtain ds where ds: "dict_get edges i = Some ds" by (metis map_of_eq_None_iff not_None_eq)
    have edge: "(i, d) \<in> edge_rel edges" if "d \<in> set ds" for d using that ds by (simp add: edge_rel_def)
    have sub: "set ds \<subseteq> fst ` set edges" using 2(5) edge unfolding edges_closed_def by blast
    have reach': "(x, d) \<in> (edge_rel edges)\<^sup>+" if "x \<in> insert i visiting" "d \<in> set ds" for x d
      using that edge [of d] reach(1) [of x] by (cases "x = i") (auto intro: trancl_into_trancl)
    show ?thesis
    proof (cases "visit edges ds (insert i visiting, visited)")
      case (Inl e')
      then have "e' = e" using 2(4) enter ds by simp
      then show ?thesis using 2(2) [OF enter ds _ 2(5) sub reach'] Inl by simp
    next
      case (Inr vw)
      obtain v w where vw: "vw = (v, w)" by (cases vw)
      have "v = insert i visiting" using Inr unfolding vw by (rule visit_restored)
      then have v': "v - {i} = visiting" using enter(2) by auto
      have rest: "visit edges is (v - {i}, insert i w) = Inl e" using 2(4) enter ds Inr vw by simp
      have "set is \<subseteq> fst ` set edges" using 2(6) by simp
      then show ?thesis using 2(3) [OF enter ds Inr vw [symmetric] rest 2(5)] reach(2) unfolding v' by simp
    qed
  qed
qed

lemma reject_cycles_iff:
  assumes "edges_closed edges"
  shows "reject_plan_dependency_cycles edges =
    (if acyclic (edge_rel edges) then Inr ()
     else Inl (ValueError (Msg ''PlanProposal depends_on must not contain cycles'' [])))"
proof (cases "visit edges (map fst edges) ({}, {})")
  case (Inl e)
  have "e = ValueError (Msg ''PlanProposal depends_on must not contain cycles'' []) \<and> \<not> acyclic (edge_rel edges)"
    by (rule visit_complete [OF Inl assms]) auto
  then show ?thesis using Inl by (simp add: reject_plan_dependency_cycles_def)
next
  case (Inr vw)
  obtain v w where vw: "vw = (v, w)" by (cases vw)
  have "cleared (edge_rel edges) w \<and> set (map fst edges) \<union> {} \<subseteq> w \<and> w \<inter> {} = {}"
    by (rule visit_sound [of _ _ _ _ v]) (use Inr vw in \<open>auto simp: cleared_def\<close>)
  moreover have "x \<in> fst ` set edges" if "(x, x) \<in> (edge_rel edges)\<^sup>+" for x
    using that tranclD [OF that] by (auto simp: edge_rel_def dest: map_of_SomeD simp: image_iff) (metis map_of_SomeD fst_conv)
  ultimately have "acyclic (edge_rel edges)" unfolding acyclic_def cleared_def by (metis Un_empty_right set_map subsetD)
  then show ?thesis using Inr by (simp add: reject_plan_dependency_cycles_def)
qed

section \<open>What the references mean\<close>

text \<open>A reference stands for the last task that carries it.\<close>

definition resolves :: "PlanTaskNodeProposal list \<Rightarrow> string \<Rightarrow> nat \<Rightarrow> bool" where
  "resolves tasks r j \<longleftrightarrow> j < length tasks \<and> r \<in> set (task_refs (tasks ! j))
     \<and> (\<forall>k. j < k \<and> k < length tasks \<longrightarrow> r \<notin> set (task_refs (tasks ! k)))"

lemma set_refs_get:
  "dict_get (foldl (\<lambda>d r. dict_set d r index) d rs) k = (if k \<in> set rs then Some index else dict_get d k)"
  by (induction rs arbitrary: d) auto

lemma ref_to_index_snoc:
  "ref_to_index (ts @ [t]) = foldl (\<lambda>d r. dict_set d r (length ts)) (ref_to_index ts) (task_refs t)"
  by (simp add: ref_to_index_def enumerate_append_eq)

lemma resolves_snoc:
  "resolves (ts @ [t]) r j \<longleftrightarrow> (if r \<in> set (task_refs t) then j = length ts else resolves ts r j)"
proof (cases "r \<in> set (task_refs t)")
  case True
  have "j = length ts" if "resolves (ts @ [t]) r j"
  proof (rule ccontr)
    assume "j \<noteq> length ts"
    then have "j < length ts" using that by (simp add: resolves_def)
    then have "r \<notin> set (task_refs ((ts @ [t]) ! length ts))"
      using that unfolding resolves_def by (metis length_append_singleton lessI)
    then show False using True by simp
  qed
  then show ?thesis using True by (auto simp: resolves_def)
next
  case False
  have old: "r \<in> set (task_refs ((ts @ [t]) ! k)) \<longleftrightarrow> k < length ts \<and> r \<in> set (task_refs (ts ! k))"
    if "k < Suc (length ts)" for k
    using that False by (cases "k = length ts") (auto simp: nth_append)
  have "resolves (ts @ [t]) r j \<longleftrightarrow> resolves ts r j"
  proof
    assume l: "resolves (ts @ [t]) r j"
    then have j: "j < length ts" "r \<in> set (task_refs (ts ! j))" using old [of j] by (auto simp: resolves_def)
    have "r \<notin> set (task_refs (ts ! k))" if "j < k" "k < length ts" for k
      using l old [of k] that by (auto simp: resolves_def)
    then show "resolves ts r j" using j by (simp add: resolves_def)
  next
    assume l: "resolves ts r j"
    have "r \<notin> set (task_refs ((ts @ [t]) ! k))" if "j < k" "k < Suc (length ts)" for k
      using l old [OF that(2)] that(1) by (auto simp: resolves_def)
    then show "resolves (ts @ [t]) r j" using l old [of j] by (auto simp: resolves_def)
  qed
  then show ?thesis using False by simp
qed

lemma ref_to_index_get: "dict_get (ref_to_index tasks) r = Some j \<longleftrightarrow> resolves tasks r j"
proof (induction tasks rule: rev_induct)
  case Nil
  then show ?case by (simp add: ref_to_index_def resolves_def)
next
  case (snoc t ts)
  then show ?case by (auto simp: ref_to_index_snoc set_refs_get resolves_snoc)
qed

lemma task_edges_iff:
  "task_edges refs own rs acc = Inr es \<Longrightarrow>
     (\<forall>r \<in> set rs. \<exists>j. dict_get refs r = Some j \<and> r \<notin> set own)
     \<and> set es = set acc \<union> {j. \<exists>r \<in> set rs. dict_get refs r = Some j}"
proof (induction rs arbitrary: acc)
  case (Cons r rs)
  then obtain j where j: "dict_get refs r = Some j" "r \<notin> set own"
    "task_edges refs own rs (if j \<in> set acc then acc else acc @ [j]) = Inr es"
    by (auto split: option.splits if_splits)
  have "set (if j \<in> set acc then acc else acc @ [j]) = insert j (set acc)" by auto
  then show ?case using Cons.IH [OF j(3)] j(1,2) by auto
qed simp

lemma task_edges_ok:
  "(\<forall>r \<in> set rs. \<exists>j. dict_get refs r = Some j \<and> r \<notin> set own) \<Longrightarrow> is_ok (task_edges refs own rs acc)"
  by (induction rs arbitrary: acc) auto

lemma those_ok_iff: "those_ok rs = Inr xs \<longleftrightarrow> rs = map Inr xs"
proof (induction rs arbitrary: xs)
  case (Cons r rs)
  have "those_ok (r # rs) = Inr xs \<longleftrightarrow> (\<exists>y ys. r = Inr y \<and> those_ok rs = Inr ys \<and> xs = y # ys)"
    by (cases r; cases "those_ok rs") auto
  also have "\<dots> \<longleftrightarrow> (\<exists>y ys. r = Inr y \<and> rs = map Inr ys \<and> xs = y # ys)" by (simp only: Cons.IH)
  also have "\<dots> \<longleftrightarrow> r # rs = map Inr xs" by (cases xs) auto
  finally show ?case .
qed auto

text \<open>The graph the validator looks at.\<close>

definition depends_rel :: "PlanTaskNodeProposal list \<Rightarrow> (nat \<times> nat) set" where
  "depends_rel tasks =
     {(i, j). i < length tasks \<and> (\<exists>r \<in> set (pt_depends_on (tasks ! i)). resolves tasks r j)}"

definition references_ok :: "PlanTaskNodeProposal list \<Rightarrow> bool" where
  "references_ok tasks \<longleftrightarrow>
     (\<forall>t \<in> set tasks. \<forall>r \<in> set (pt_depends_on t). (\<exists>j. resolves tasks r j) \<and> r \<notin> set (task_refs t))"

lemma enumerate_get: "dict_get (enumerate 0 xs) i = (if i < length xs then Some (xs ! i) else None)"
proof -
  have "dict_get (zip [0..<length xs] xs) i = (if i < length xs then Some (xs ! i) else None)"
    using map_of_zip_nth [of "[0..<length xs]" xs i] map_of_zip_is_None [of "[0..<length xs]" xs i] by auto
  then show ?thesis by (simp add: enumerate_eq_zip)
qed

lemma plan_edges_ok:
  assumes "plan_edges tasks = Inr edges"
  shows "references_ok tasks \<and> edge_rel edges = depends_rel tasks \<and> edges_closed edges"
proof -
  let ?E = "\<lambda>t. task_edges (ref_to_index tasks) (task_refs t) (pt_depends_on t) []"
  obtain es where es: "map ?E tasks = map Inr es" "edges = enumerate 0 es"
    using assms by (auto simp: plan_edges_def those_ok_iff elim!: map_ok_InrE)
  have len: "length es = length tasks" using es(1) by (metis length_map)
  have each: "?E (tasks ! i) = Inr (es ! i)" if "i < length tasks" for i
  proof -
    have "map ?E tasks ! i = map Inr es ! i" using es(1) by simp
    then show ?thesis using that len by simp
  qed
  have "references_ok tasks"
    unfolding references_ok_def
  proof
    fix t assume "t \<in> set tasks"
    then obtain i where "i < length tasks" "t = tasks ! i" by (auto simp: in_set_conv_nth)
    then show "\<forall>r \<in> set (pt_depends_on t). (\<exists>j. resolves tasks r j) \<and> r \<notin> set (task_refs t)"
      using task_edges_iff [OF each, of i] by (auto simp: ref_to_index_get)
  qed
  moreover have rel: "edge_rel edges = depends_rel tasks"
    unfolding edge_rel_def depends_rel_def es(2) enumerate_get
    using task_edges_iff [OF each] len by (auto simp: ref_to_index_get split: if_splits)
  moreover have "edges_closed edges"
    unfolding edges_closed_def rel using len by (auto simp: depends_rel_def resolves_def es(2) simp flip: set_map)
  ultimately show ?thesis by blast
qed

lemma plan_edges_total: "references_ok tasks \<Longrightarrow> is_ok (plan_edges tasks)"
proof -
  let ?E = "\<lambda>t. task_edges (ref_to_index tasks) (task_refs t) (pt_depends_on t) []"
  assume refs: "references_ok tasks"
  have "\<forall>t \<in> set tasks. \<exists>x. ?E t = Inr x"
  proof
    fix t assume "t \<in> set tasks"
    then have "is_ok (?E t)" using refs by (intro task_edges_ok) (auto simp: references_ok_def ref_to_index_get)
    then show "\<exists>x. ?E t = Inr x" by (auto elim: is_okE)
  qed
  then obtain f where "\<forall>t \<in> set tasks. ?E t = Inr (f t)" by metis
  then have "map ?E tasks = map Inr (map f tasks)" by simp
  then have "those_ok (map ?E tasks) = Inr (map f tasks)" by (simp only: those_ok_iff)
  then show ?thesis by (simp add: plan_edges_def)
qed

section \<open>Properties\<close>

definition sample_plan_task :: "string \<Rightarrow> string list \<Rightarrow> PlanTaskNodeProposal" where
  "sample_plan_task i ds = \<lparr>pt_client_task_id = Some i, pt_task_index = None, pt_title = ''t'', pt_intent = ''i'',
     pt_summary = None, pt_instructions = None, pt_required_capability = ''c'', pt_depends_on = ds,
     pt_constraints = [], pt_acceptance_criteria = [], pt_rationale = None\<rparr>"

definition sample_plan :: "string list \<Rightarrow> PlanProposal" where
  "sample_plan ds = \<lparr>pp_title = ''p'', pp_objective = None, pp_summary = None,
     pp_tasks = [sample_plan_task ''a'' [''b''], sample_plan_task ''b'' ds, sample_plan_task ''c'' [''a'', ''b'']],
     pp_assistant_message = ''m''\<rparr>"

text \<open>C32. The plan validator is exact. It accepts a proposal if and only if the indexes and the client identifiers are
  unique, every dependency names a task of the plan and not the task itself, and the graph of the dependencies has no
  cycle, in whatever order the dependency sets are listed. When only the last condition fails, the error is the one
  that names the cycle.\<close>

theorem plan_accepted_iff_acyclic:
  "(validate_task_identity p = Inr p \<longleftrightarrow>
      distinct (List.map_filter pt_task_index (pp_tasks p))
      \<and> distinct (List.map_filter pt_client_task_id (pp_tasks p))
      \<and> (\<forall>t \<in> set (pp_tasks p). \<forall>r \<in> set (pt_depends_on t). (\<exists>j. resolves (pp_tasks p) r j) \<and> r \<notin> set (task_refs t))
      \<and> acyclic (depends_rel (pp_tasks p)))
   \<and> (\<forall>edges. edges_closed edges \<longrightarrow> reject_plan_dependency_cycles edges =
        (if acyclic (edge_rel edges) then Inr ()
         else Inl (ValueError (Msg ''PlanProposal depends_on must not contain cycles'' []))))"
proof -
  have "is_ok (validate_plan_dependencies (pp_tasks p)) \<longleftrightarrow>
      references_ok (pp_tasks p) \<and> acyclic (depends_rel (pp_tasks p))"
  proof (cases "plan_edges (pp_tasks p)")
    case (Inl e)
    then show ?thesis using plan_edges_total [of "pp_tasks p"] by (auto simp: validate_plan_dependencies_def)
  next
    case (Inr edges)
    then show ?thesis using plan_edges_ok [OF Inr] reject_cycles_iff [of edges]
      by (simp add: validate_plan_dependencies_def)
  qed
  moreover have "validate_task_identity p = Inr p \<longleftrightarrow> distinct (List.map_filter pt_task_index (pp_tasks p))
      \<and> distinct (List.map_filter pt_client_task_id (pp_tasks p)) \<and> is_ok (validate_plan_dependencies (pp_tasks p))"
    by (cases "validate_plan_dependencies (pp_tasks p)") (auto simp: validate_task_identity_def)
  ultimately show ?thesis using reject_cycles_iff unfolding references_ok_def by blast
qed

theorem plan_accepted_iff_acyclic_witness:
  "acyclic (depends_rel (pp_tasks (sample_plan []))) \<and> \<not> is_ok (validate_task_identity (sample_plan [''c'']))
    \<and> is_ok (validate_task_identity (sample_plan []))"
proof -
  have "validate_task_identity (sample_plan []) = Inr (sample_plan [])" by code_simp
  then have "acyclic (depends_rel (pp_tasks (sample_plan [])))"
    using plan_accepted_iff_acyclic [of "sample_plan []"] by blast
  moreover have "\<not> is_ok (validate_task_identity (sample_plan [''c'']))" "is_ok (validate_task_identity (sample_plan []))"
    by code_simp+
  ultimately show ?thesis by blast
qed

text \<open>\<open>ordered_tasks\<close> rearranges the tasks; where every task has an index, the indexes come out in increasing order.\<close>

lemma ordered_tasks_set: "set (ordered_tasks p) = set (pp_tasks p) \<and> length (ordered_tasks p) = length (pp_tasks p)"
proof -
  have "snd ` set (enumerate 1 (pp_tasks p)) = set (pp_tasks p)" by (simp flip: set_map)
  then show ?thesis by (simp add: ordered_tasks_def)
qed

lemma ordered_tasks_sorted:
  assumes "\<forall>t \<in> set (pp_tasks p). pt_task_index t \<noteq> None"
  shows "sorted (map (\<lambda>t. the (pt_task_index t)) (ordered_tasks p))"
proof -
  let ?xs = "sort_key plan_sort_key (enumerate 1 (pp_tasks p))"
  have key: "fst (plan_sort_key x) = the (pt_task_index (snd x))" if "x \<in> set ?xs" for x
  proof -
    have "snd x \<in> set (map snd (enumerate 1 (pp_tasks p)))" using that by (simp only: set_sort set_map image_eqI)
    then show ?thesis using assms by (auto simp: plan_sort_key_def split: option.splits)
  qed
  have "sorted (map plan_sort_key ?xs)" by (rule sorted_sort_key)
  then have "sorted (map fst (map plan_sort_key ?xs))"
    unfolding sorted_wrt_map by (rule sorted_wrt_mono_rel [rotated]) (auto simp: less_eq_prod_def)
  moreover have "map fst (map plan_sort_key ?xs) = map (\<lambda>t. the (pt_task_index t)) (ordered_tasks p)"
    using key by (simp add: ordered_tasks_def)
  ultimately show ?thesis by simp
qed

end
