(* ===== verification/Llm_Retry.thy ===== *)
theory Llm_Retry
  imports Prelude
begin

text \<open>
  The retry loop every provider shares: \<open>BaseLLMProvider\<close> of \<^verbatim>\<open>llm/retry.py\<close> with the policy and the records of
  \<^verbatim>\<open>llm/contracts.py\<close> and the errors of \<^verbatim>\<open>llm/errors.py\<close>.

  The transport is a parameter: \<open>operation k\<close> is what the \<open>k\<close>-th call of \<open>_chat_once\<close> does, a response or an
  exception. \<open>random_source\<close> is the parameter \<open>rand\<close>, where \<open>rand k\<close> is the draw for the delay after attempt \<open>k\<close>. The
  result of the loop is what it returns or raises, the number of calls it made and the delays it slept. Sums and products of
  floats are rounded as doubles are. The power of two floats is that of the C library, whose rounding is not specified: it is
  the parameter \<open>cpow\<close>, with a result or \<open>ERANGE\<close>.
\<close>

section \<open>Floats\<close>

definition fsign :: "pyfloat \<Rightarrow> rat" where
  "fsign x = (case x of Fin q \<Rightarrow> sgn q | PosInf \<Rightarrow> 1 | NegInf \<Rightarrow> - 1 | NaN \<Rightarrow> 0)"

fun fmul :: "pyfloat \<Rightarrow> pyfloat \<Rightarrow> pyfloat" where
  "fmul (Fin a) (Fin b) = float_of (a * b)"
| "fmul a b =
     (if a = NaN \<or> b = NaN \<or> fsign a = 0 \<or> fsign b = 0 then NaN
      else if 0 < fsign a * fsign b then PosInf else NegInf)"

text \<open>\<open>x ** n\<close> for an integer \<open>n \<ge> 0\<close>; None is the \<open>OverflowError\<close> that Python raises for \<open>ERANGE\<close>. Python treats special values
  itself and calls the library with a positive base.\<close>

type_synonym c_power = "rat \<Rightarrow> nat \<Rightarrow> rat option"

definition fpow :: "c_power \<Rightarrow> pyfloat \<Rightarrow> nat \<Rightarrow> pyfloat option" where
  "fpow cpow x n =
     (if n = 0 then Some (Fin 1)
      else case x of
             NaN \<Rightarrow> Some NaN
           | PosInf \<Rightarrow> Some PosInf
           | NegInf \<Rightarrow> Some (if even n then PosInf else NegInf)
           | Fin q \<Rightarrow>
               let sign = (if q < 0 \<and> odd n then - 1 else 1)
               in if q = 0 then Some (Fin 0) else if \<bar>q\<bar> = 1 then Some (Fin sign)
                  else map_option (\<lambda>p. Fin (sign * p)) (cpow \<bar>q\<bar> n))"

text \<open>What the loop relies on: a power well inside the range of a double is computed, and is not negative.\<close>

definition cpow_ok :: "c_power \<Rightarrow> bool" where
  "cpow_ok cpow \<longleftrightarrow> (\<forall>q n. 1 < q \<and> q ^ n \<le> 2 ^ 1023 \<longrightarrow> (\<exists>p. cpow q n = Some p \<and> 0 \<le> p))"

section \<open>Policy, records, errors\<close>

datatype ErrorClassification =
    RETRYABLE | FATAL_AUTH | FATAL_REQUEST | FATAL_CAPABILITY | RATE_LIMIT | CONTEXT_LIMIT | UNKNOWN

fun classification_value :: "ErrorClassification \<Rightarrow> string" where
  "classification_value RETRYABLE = ''retryable''"
| "classification_value FATAL_AUTH = ''fatal_auth''"
| "classification_value FATAL_REQUEST = ''fatal_request''"
| "classification_value FATAL_CAPABILITY = ''fatal_capability''"
| "classification_value RATE_LIMIT = ''rate_limit''"
| "classification_value CONTEXT_LIMIT = ''context_limit''"
| "classification_value UNKNOWN = ''unknown''"

record RetryPolicy =
  rp_max_attempts :: int
  rp_initial_delay_seconds :: pyfloat
  rp_max_delay_seconds :: pyfloat
  rp_backoff_multiplier :: pyfloat
  rp_jitter :: bool
  rp_retry_on_status :: "int list"

definition RetryPolicy_validate :: "RetryPolicy \<Rightarrow> RetryPolicy result" where
  "RetryPolicy_validate p =
     (if rp_max_attempts p < 1 then Inl (ValueError (Msg ''max_attempts must be >= 1'' []))
      else if flt (rp_initial_delay_seconds p) (Fin 0)
      then Inl (ValueError (Msg ''initial_delay_seconds must be non-negative'' []))
      else if flt (rp_max_delay_seconds p) (Fin 0)
      then Inl (ValueError (Msg ''max_delay_seconds must be non-negative'' []))
      else if flt (rp_max_delay_seconds p) (rp_initial_delay_seconds p)
      then Inl (ValueError (Msg ''max_delay_seconds must be >= initial_delay_seconds'' []))
      else if flt (rp_backoff_multiplier p) (Fin 1)
      then Inl (ValueError (Msg ''backoff_multiplier must be >= 1'' []))
      else Inr p)"

record RetryRecord =
  rr_attempt :: int
  rr_max_attempts :: int
  rr_classification :: ErrorClassification
  rr_provider_name :: string
  rr_model :: string
  rr_delay_seconds :: pyfloat
  rr_error_type :: string
  rr_error_summary :: string

text \<open>The part of a request the loop reads.\<close>

record ChatRequest =
  cq_model :: string
  cq_timeout_seconds :: "pyfloat option"

text \<open>A response; the fields the loop does not touch beyond these (reasoning, usage, provider metadata) are carried along.\<close>

record ChatResponse =
  cp_content :: string
  cp_tool_calls :: "(string \<times> string \<times> string) list"
  cp_raw_assistant_message :: "(string \<times> json) list"
  cp_retry_count :: nat
  cp_retry_records :: "RetryRecord list"

text \<open>The classes of \<^verbatim>\<open>llm/errors.py\<close>, and an exception: one of theirs, or any other with its type name, its text and
  its \<open>status_code\<close> attribute when that is an integer.\<close>

datatype error_class =
    LLMProviderError | LLMRetryExhaustedError | LLMAuthError | LLMRequestError | LLMCapabilityError
  | LLMContextLimitError | UnsupportedCapabilityError

datatype llm_exn =
    Provider_exn (ex_class: error_class) (ex_message: string) (ex_provider_name: string) (ex_model: string)
      (ex_classification: ErrorClassification) (ex_original: "llm_exn option") (ex_retry_records: "RetryRecord list")
      (ex_metadata: "(string \<times> json) list")
  | Other_exn (ex_type_name: string) (ex_text: string) (ex_status_code: "int option")

fun class_name :: "error_class \<Rightarrow> string" where
  "class_name LLMProviderError = ''LLMProviderError''"
| "class_name LLMRetryExhaustedError = ''LLMRetryExhaustedError''"
| "class_name LLMAuthError = ''LLMAuthError''"
| "class_name LLMRequestError = ''LLMRequestError''"
| "class_name LLMCapabilityError = ''LLMCapabilityError''"
| "class_name LLMContextLimitError = ''LLMContextLimitError''"
| "class_name UnsupportedCapabilityError = ''UnsupportedCapabilityError''"

text \<open>\<open>type(exc).__name__\<close> and \<open>str(exc)\<close>.\<close>

fun type_name :: "llm_exn \<Rightarrow> string" where
  "type_name (Provider_exn c m p mo cl orig recs meta) = class_name c"
| "type_name (Other_exn n t s) = n"

fun exn_str :: "llm_exn \<Rightarrow> string" where
  "exn_str (Provider_exn c m p mo cl orig recs meta) = m"
| "exn_str (Other_exn n t s) = t"

section \<open>Classification\<close>

definition lower :: "string \<Rightarrow> string" where
  "lower s = map lower_char s"

definition classify_by_text :: "llm_exn \<Rightarrow> ErrorClassification" where
  "classify_by_text exc =
     (let name = lower (type_name exc); message = lower (exn_str exc)
      in if contains ''timeout'' name \<or> contains ''timeout'' message then RETRYABLE
         else if contains ''rate'' message \<and> contains ''limit'' message then RATE_LIMIT
         else if contains ''context'' message \<and> (contains ''too long'' message \<or> contains ''length'' message)
         then CONTEXT_LIMIT
         else if contains ''auth'' name \<or> contains ''permission'' message \<or> contains ''api key'' message
         then FATAL_AUTH
         else if contains ''badrequest'' name \<or> contains ''invalid'' message then FATAL_REQUEST
         else UNKNOWN)"

definition classify_error :: "RetryPolicy \<Rightarrow> llm_exn \<Rightarrow> ErrorClassification" where
  "classify_error policy exc =
     (case exc of
        Provider_exn c m p mo cl orig recs meta \<Rightarrow> cl
      | Other_exn n t status \<Rightarrow>
          (case status of
             None \<Rightarrow> classify_by_text exc
           | Some s \<Rightarrow>
               if s = 401 \<or> s = 403 then FATAL_AUTH
               else if s = 429 then RATE_LIMIT
               else if s \<in> set (rp_retry_on_status policy) then RETRYABLE
               else if s = 400 then FATAL_REQUEST
               else if s = 413 then CONTEXT_LIMIT
               else classify_by_text exc))"

definition is_timeout_error :: "llm_exn \<Rightarrow> bool" where
  "is_timeout_error exc \<longleftrightarrow>
     (let name = lower (type_name exc); message = lower (exn_str exc)
      in contains ''timeout'' name \<or> contains ''timeout'' message \<or> contains ''timed out'' message)"

definition retryable :: "ErrorClassification \<Rightarrow> bool" where
  "retryable c \<longleftrightarrow> c = RETRYABLE \<or> c = RATE_LIMIT"

section \<open>The loop\<close>

text \<open>\<open>_delay_seconds\<close>; None is the \<open>OverflowError\<close> of the power.\<close>

definition delay_seconds :: "c_power \<Rightarrow> RetryPolicy \<Rightarrow> (nat \<Rightarrow> pyfloat) \<Rightarrow> nat \<Rightarrow> pyfloat option" where
  "delay_seconds cpow policy rand attempt =
     map_option (\<lambda>power.
       let delay = py_min (fmul (rp_initial_delay_seconds policy) power) (rp_max_delay_seconds policy)
       in if rp_jitter policy \<and> flt (Fin 0) delay then fmul delay (fround (fadd (Fin (1 / 2)) (rand attempt))) else delay)
       (fpow cpow (rp_backoff_multiplier policy) (attempt - 1))"

definition retry_record ::
  "RetryPolicy \<Rightarrow> string \<Rightarrow> ChatRequest \<Rightarrow> nat \<Rightarrow> ErrorClassification \<Rightarrow> pyfloat \<Rightarrow> llm_exn \<Rightarrow> RetryRecord" where
  "retry_record policy name request attempt classification delay exc =
     \<lparr>rr_attempt = int attempt, rr_max_attempts = rp_max_attempts policy, rr_classification = classification,
      rr_provider_name = name, rr_model = cq_model request, rr_delay_seconds = delay,
      rr_error_type = type_name exc, rr_error_summary = take 500 (exn_str exc)\<rparr>"

text \<open>\<open>_raise_final\<close>: the exception raised.\<close>

definition final_class :: "ErrorClassification \<Rightarrow> error_class" where
  "final_class c =
     (if retryable c then LLMRetryExhaustedError
      else if c = FATAL_AUTH then LLMAuthError
      else if c = FATAL_CAPABILITY then LLMCapabilityError
      else if c = CONTEXT_LIMIT then LLMContextLimitError
      else if c = FATAL_REQUEST then LLMRequestError
      else LLMProviderError)"

definition raise_final :: "string \<Rightarrow> ChatRequest \<Rightarrow> llm_exn \<Rightarrow> ErrorClassification \<Rightarrow> RetryRecord list \<Rightarrow> llm_exn" where
  "raise_final name request exc classification records =
     (case exc of
        Provider_exn c m p mo cl orig recs meta \<Rightarrow>
          if records \<noteq> [] \<and> recs = [] then Provider_exn LLMProviderError m p mo cl orig records meta else exc
      | Other_exn n t s \<Rightarrow>
          Provider_exn (final_class classification)
            (name @ '' '' @ classification_value classification @ '': '' @ t)
            name (cq_model request) classification (Some exc) records [])"

datatype loop_end =
    Returned ChatResponse
  | Raised llm_exn
  | Raised_overflow
  | Failed_assertion

text \<open>The rounds from \<open>attempt\<close> on, \<open>left\<close> of them. Returned with the end of the loop are the calls made and the delays
  slept.\<close>

fun retry_rounds ::
  "c_power \<Rightarrow> RetryPolicy \<Rightarrow> string \<Rightarrow> ChatRequest \<Rightarrow> (nat \<Rightarrow> llm_exn + ChatResponse) \<Rightarrow> (nat \<Rightarrow> pyfloat) \<Rightarrow> nat \<Rightarrow> nat
     \<Rightarrow> RetryRecord list \<Rightarrow> (llm_exn \<times> ErrorClassification) option \<Rightarrow> loop_end \<times> nat \<times> pyfloat list" where
  "retry_rounds cpow policy name request operation rand attempt 0 records last_error =
     ((case last_error of
         None \<Rightarrow> Failed_assertion
       | Some (exc, classification) \<Rightarrow>
           Raised (Provider_exn LLMRetryExhaustedError
             (name @ '' exhausted '' @ str_int (rp_max_attempts policy) @ '' attempts for '' @ cq_model request)
             name (cq_model request) classification (Some exc) records [])), 0, [])"
| "retry_rounds cpow policy name request operation rand attempt (Suc left) records last_error =
     (case operation attempt of
        Inr response \<Rightarrow>
          (Returned (if records = [] then response
             else response\<lparr>cp_retry_count := length records, cp_retry_records := records\<rparr>), 1, [])
      | Inl exc \<Rightarrow>
          (let classification = classify_error policy exc
           in if cq_timeout_seconds request \<noteq> None \<and> is_timeout_error exc
              then (Raised (raise_final name request exc classification records), 1, [])
              else if retryable classification \<and> int attempt < rp_max_attempts policy
              then (case delay_seconds cpow policy rand attempt of
                      None \<Rightarrow> (Raised_overflow, 1, [])
                    | Some delay \<Rightarrow>
                        (case retry_rounds cpow policy name request operation rand (Suc attempt) left
                                (records @ [retry_record policy name request attempt classification delay exc])
                                (Some (exc, classification)) of
                           (end_of, calls, delays) \<Rightarrow> (end_of, Suc calls, delay # delays)))
              else (Raised (raise_final name request exc classification records), 1, [])))"

definition with_retry ::
  "c_power \<Rightarrow> RetryPolicy \<Rightarrow> string \<Rightarrow> ChatRequest \<Rightarrow> (nat \<Rightarrow> llm_exn + ChatResponse) \<Rightarrow> (nat \<Rightarrow> pyfloat)
     \<Rightarrow> loop_end \<times> nat \<times> pyfloat list" where
  "with_retry cpow policy name request operation rand =
     retry_rounds cpow policy name request operation rand 1 (nat (rp_max_attempts policy)) [] None"

section \<open>Which attempt settles a request\<close>

text \<open>An outcome after which the loop does not try again, whatever the number of attempts.\<close>

definition settled :: "RetryPolicy \<Rightarrow> ChatRequest \<Rightarrow> llm_exn + ChatResponse \<Rightarrow> bool" where
  "settled policy request outcome =
     (case outcome of
        Inr _ \<Rightarrow> True
      | Inl exc \<Rightarrow> \<not> retryable (classify_error policy exc)
          \<or> (cq_timeout_seconds request \<noteq> None \<and> is_timeout_error exc))"

text \<open>The record of each attempt that was retried, and the end the last attempt leads to.\<close>

definition records_of ::
  "c_power \<Rightarrow> RetryPolicy \<Rightarrow> string \<Rightarrow> ChatRequest \<Rightarrow> (nat \<Rightarrow> llm_exn + ChatResponse) \<Rightarrow> (nat \<Rightarrow> pyfloat) \<Rightarrow> nat list \<Rightarrow> RetryRecord list" where
  "records_of cpow policy name request operation rand js =
     map (\<lambda>j. retry_record policy name request j (classify_error policy (projl (operation j)))
       (the (delay_seconds cpow policy rand j)) (projl (operation j))) js"

definition end_of_attempt ::
  "RetryPolicy \<Rightarrow> string \<Rightarrow> ChatRequest \<Rightarrow> llm_exn + ChatResponse \<Rightarrow> RetryRecord list \<Rightarrow> loop_end" where
  "end_of_attempt policy name request outcome records =
     (case outcome of
        Inr response \<Rightarrow> Returned (if records = [] then response
          else response\<lparr>cp_retry_count := length records, cp_retry_records := records\<rparr>)
      | Inl exc \<Rightarrow> Raised (raise_final name request exc (classify_error policy exc) records))"

lemma retry_rounds_result:
  assumes "attempt \<le> k" "int k \<le> rp_max_attempts policy"
    and "\<And>j. attempt \<le> j \<Longrightarrow> j < k \<Longrightarrow> \<not> settled policy request (operation j)"
    and "settled policy request (operation k) \<or> int k = rp_max_attempts policy"
    and "\<And>j. attempt \<le> j \<Longrightarrow> j < k \<Longrightarrow> delay_seconds cpow policy rand j \<noteq> None"
    and "int attempt + int left = rp_max_attempts policy + 1"
  shows "retry_rounds cpow policy name request operation rand attempt left records last_error =
    (end_of_attempt policy name request (operation k)
       (records @ records_of cpow policy name request operation rand [attempt..<k]),
     Suc k - attempt, map (\<lambda>j. the (delay_seconds cpow policy rand j)) [attempt..<k])"
  using assms
proof (induction left arbitrary: attempt records last_error)
  case 0
  then show ?case by simp
next
  case (Suc left)
  show ?case
  proof (cases "attempt = k")
    case True
    then show ?thesis using Suc.prems(4)
      by (auto simp: settled_def end_of_attempt_def records_of_def Let_def split: sum.splits)
  next
    case False
    then have lt: "attempt < k" using Suc.prems(1) by simp
    then obtain exc where exc: "operation attempt = Inl exc" "retryable (classify_error policy exc)"
      "\<not> (cq_timeout_seconds request \<noteq> None \<and> is_timeout_error exc)"
      using Suc.prems(3) [of attempt] by (auto simp: settled_def split: sum.splits)
    obtain d where d: "delay_seconds cpow policy rand attempt = Some d" using Suc.prems(5) [of attempt] lt by auto
    have more: "int attempt < rp_max_attempts policy" using lt Suc.prems(2) by simp
    have split: "[attempt..<k] = attempt # [Suc attempt..<k]" using lt by (rule upt_conv_Cons)
    let ?r = "retry_record policy name request attempt (classify_error policy exc) d exc"
    have "retry_rounds cpow policy name request operation rand (Suc attempt) left (records @ [?r])
        (Some (exc, classify_error policy exc)) =
      (end_of_attempt policy name request (operation k)
         ((records @ [?r]) @ records_of cpow policy name request operation rand [Suc attempt..<k]),
       Suc k - Suc attempt, map (\<lambda>j. the (delay_seconds cpow policy rand j)) [Suc attempt..<k])"
      by (rule Suc.IH) (use Suc.prems lt in auto)
    then show ?thesis using exc d more lt by (simp add: split records_of_def Let_def Suc_diff_le)
  qed
qed

lemma settles:
  assumes "1 \<le> rp_max_attempts policy"
  shows "\<exists>k. 1 \<le> k \<and> int k \<le> rp_max_attempts policy
    \<and> (\<forall>j. 1 \<le> j \<and> j < k \<longrightarrow> \<not> settled policy request (operation j))
    \<and> (settled policy request (operation k) \<or> int k = rp_max_attempts policy)"
proof -
  let ?P = "\<lambda>k. 1 \<le> k \<and> (settled policy request (operation k) \<or> int k = rp_max_attempts policy)"
  define k where "k = (LEAST k. ?P k)"
  have top: "?P (nat (rp_max_attempts policy))" using assms by simp
  have "?P k" unfolding k_def by (rule LeastI [of ?P, OF top])
  moreover have "k \<le> nat (rp_max_attempts policy)" unfolding k_def by (rule Least_le [of ?P, OF top])
  moreover have "\<not> ?P j" if "j < k" for j using that unfolding k_def by (rule not_less_Least)
  ultimately show ?thesis by (intro exI [of _ k]) auto
qed

section \<open>Delays\<close>

text \<open>A valid policy with finite delays whose largest power and delay stay in the range of a double, a library that computes such
  powers, and draws from \<open>[0.0, 1.0)\<close>.\<close>

definition sane :: "c_power \<Rightarrow> RetryPolicy \<Rightarrow> (nat \<Rightarrow> pyfloat) \<Rightarrow> rat \<Rightarrow> bool" where
  "sane cpow policy rand m \<longleftrightarrow> cpow_ok cpow \<and> RetryPolicy_validate policy = Inr policy \<and> rp_max_delay_seconds policy = Fin m
     \<and> round_double (3 / 2 * m) < 2 ^ 1024
     \<and> (\<exists>a. rp_initial_delay_seconds policy = Fin a)
     \<and> (\<exists>q. rp_backoff_multiplier policy = Fin q \<and> q ^ nat (rp_max_attempts policy) \<le> 2 ^ 1023)
     \<and> (\<forall>k. \<exists>u. rand k = Fin u \<and> 0 \<le> u \<and> u < 1)"

lemma fpow_finite:
  assumes "cpow_ok cpow" "1 \<le> q" "q ^ n \<le> 2 ^ 1023"
  obtains p where "fpow cpow (Fin q) n = Some (Fin p)" "0 \<le> p"
proof (cases "n = 0 \<or> q = 1")
  case True
  then show ?thesis by (intro that [of 1]) (auto simp: fpow_def)
next
  case False
  then have "1 < q" using assms(2) by simp
  then obtain p where "cpow q n = Some p" "0 \<le> p" using assms(1,3) unfolding cpow_ok_def by blast
  then show ?thesis using False \<open>1 < q\<close> by (intro that [of p]) (auto simp: fpow_def Let_def)
qed

text \<open>The factor of the jitter, \<open>0.5 + random()\<close>, is at most \<open>1.5\<close>, which is a double.\<close>

lemma jitter_factor:
  assumes "0 \<le> u" "u < 1"
  shows "fround (fadd (Fin (1 / 2)) (Fin u)) = Fin (round_double (1 / 2 + u))"
    "0 \<le> round_double (1 / 2 + u)" "round_double (1 / 2 + u) \<le> 3 / 2"
proof -
  have top: "round_double (3 / 2) = 3 / 2" by (rule round_double_exact [of 3 _ 1073]) simp_all
  then have "round_double (3 / 2) < 2 ^ 1024" by simp
  then show "fround (fadd (Fin (1 / 2)) (Fin u)) = Fin (round_double (1 / 2 + u))"
    using assms by (simp add: fround_def float_of_bounded [where r = "3 / 2"])
  show "0 \<le> round_double (1 / 2 + u)" using assms by (intro round_double_nonneg) simp
  have "round_double (1 / 2 + u) \<le> round_double (3 / 2)" using assms by (intro round_double_mono) simp_all
  then show "round_double (1 / 2 + u) \<le> 3 / 2" unfolding top .
qed

lemma capped_delay:
  assumes "0 \<le> q" "0 \<le> m" obtains d where "py_min (float_of q) (Fin m) = Fin d" "0 \<le> d" "d \<le> m"
proof (cases "2 ^ 1024 \<le> round_double q")
  case True
  then show ?thesis using assms(2) by (intro that [of m]) (simp_all add: float_of_def py_min_def)
next
  case False
  then have "float_of q = Fin (round_double q)" using assms(1) by (intro float_of_bounded [of q q]) simp_all
  then show ?thesis
    using assms(2) round_double_nonneg [OF assms(1)] by (intro that [of "min (round_double q) m"]) (auto simp: py_min_def)
qed

lemma delay_bounded:
  assumes "sane cpow policy rand m" "int j \<le> rp_max_attempts policy"
  shows "\<exists>d. delay_seconds cpow policy rand j = Some (Fin d) \<and> 0 \<le> d
    \<and> d \<le> (if rp_jitter policy then round_double (3 / 2 * m) else m)"
proof -
  obtain a q u where f: "rp_initial_delay_seconds policy = Fin a" "rp_backoff_multiplier policy = Fin q"
      "rp_max_delay_seconds policy = Fin m" "q ^ nat (rp_max_attempts policy) \<le> 2 ^ 1023"
      "rand j = Fin u" "0 \<le> u" "u < 1" "round_double (3 / 2 * m) < 2 ^ 1024" "cpow_ok cpow"
    using assms(1) unfolding sane_def by metis
  have "RetryPolicy_validate policy = Inr policy" using assms(1) by (simp add: sane_def)
  then have b: "0 \<le> a" "0 \<le> m" "1 \<le> q" using f by (auto simp: RetryPolicy_validate_def split: if_splits)
  have "q ^ (j - 1) \<le> q ^ nat (rp_max_attempts policy)" using b(3) assms(2) by (intro power_increasing) auto
  then obtain p where p: "fpow cpow (Fin q) (j - 1) = Some (Fin p)" "0 \<le> p"
    using fpow_finite [OF f(9) b(3), of "j - 1"] f(4) by auto
  obtain d where d: "py_min (float_of (a * p)) (Fin m) = Fin d" "0 \<le> d" "d \<le> m"
    using capped_delay [of "a * p" m] b(1,2) p(2) by auto
  let ?r = "round_double (1 / 2 + u)"
  note factor = jitter_factor [OF f(6,7)]
  have prod: "0 \<le> d * ?r" "d * ?r \<le> 3 / 2 * m"
    using d(2,3) factor(2,3) mult_mono [of d m ?r "3 / 2"] b(2) by (simp_all add: mult.commute)
  have delay: "delay_seconds cpow policy rand j =
      Some (if rp_jitter policy \<and> 0 < d then Fin (round_double (d * ?r)) else Fin d)"
    using f p d(1) factor(1) float_of_bounded [OF prod f(8)] by (simp add: delay_seconds_def Let_def del: fadd.simps)
  have "0 \<le> round_double (d * ?r)" "round_double (d * ?r) \<le> round_double (3 / 2 * m)" "0 \<le> round_double (3 / 2 * m)"
    using round_double_nonneg [OF prod(1)] round_double_mono [OF prod] round_double_nonneg [of "3 / 2 * m"] b(2) by simp_all
  then show ?thesis using d(2,3) unfolding delay by auto
qed

section \<open>Properties\<close>

definition sample_policy :: RetryPolicy where
  "sample_policy = \<lparr>rp_max_attempts = 3, rp_initial_delay_seconds = Fin 8, rp_max_delay_seconds = Fin 8,
     rp_backoff_multiplier = Fin 2, rp_jitter = True, rp_retry_on_status = [500]\<rparr>"

definition sample_chat :: ChatRequest where
  "sample_chat = \<lparr>cq_model = ''m'', cq_timeout_seconds = None\<rparr>"

definition sample_answer :: ChatResponse where
  "sample_answer = \<lparr>cp_content = ''hi'', cp_tool_calls = [], cp_raw_assistant_message = [], cp_retry_count = 0,
     cp_retry_records = []\<rparr>"

text \<open>A transport that fails with status 500 once and then does \<open>after\<close>.\<close>

definition fails_once :: "llm_exn + ChatResponse \<Rightarrow> nat \<Rightarrow> llm_exn + ChatResponse" where
  "fails_once after k = (if k = 1 then Inl (Other_exn ''E'' ''x'' (Some 500)) else after)"

text \<open>The power rounded as the other operations are.\<close>

definition rounded_power :: c_power where
  "rounded_power q n = (if 2 ^ 1024 \<le> round_double (q ^ n) then None else Some (round_double (q ^ n)))"

lemma rounded_power_ok: "cpow_ok rounded_power"
proof -
  have "round_double (2 ^ 1023) = 2 ^ 1023" by (rule round_double_exact [of 1 _ 2097]) simp_all
  then have top: "round_double (2 ^ 1023) < 2 ^ 1024" by simp
  have "\<exists>p. rounded_power q n = Some p \<and> 0 \<le> p" if q: "1 < q" "q ^ n \<le> 2 ^ 1023" for q n
  proof -
    have pos: "0 \<le> q ^ n" using q(1) by simp
    have "\<not> 2 ^ 1024 \<le> round_double (q ^ n)" using round_double_mono [OF pos q(2)] top by linarith
    then show ?thesis using round_double_nonneg [OF pos] unfolding rounded_power_def by (simp del: power_numeral)
  qed
  then show ?thesis unfolding cpow_ok_def by blast
qed

lemma sample_sane: "sane rounded_power sample_policy (\<lambda>_. Fin (7 / 8)) 8"
proof -
  have "round_double 12 = 12" by (rule round_double_exact [of 12 _ 1074]) simp_all
  then have "round_double (3 / 2 * 8) < 2 ^ 1024" by simp
  moreover have "\<exists>u. Fin (7 / 8) = Fin u \<and> 0 \<le> u \<and> u < 1" by (intro exI [of _ "7 / 8"]) simp
  ultimately show ?thesis unfolding sane_def using rounded_power_ok by (simp add: sample_policy_def RetryPolicy_validate_def)
qed

text \<open>C35. The retry loop ends, and the attempt it ends with decides. With a valid policy whose delays are finite and whose
  powers stay in the range of a double, the loop calls the transport up to the first attempt \<open>k\<close> whose outcome is a response,
  an error that is not retryable, or a timeout of a request with a deadline, and at most \<open>max_attempts\<close> times. It sleeps once
  between two calls, without jitter for at most \<open>max_delay_seconds\<close>, and with jitter for at most the double nearest to one and a
  half times \<open>max_delay_seconds\<close>. A response is returned with the retries it took; otherwise the exception raised is a provider
  error with the classification of the last failure.\<close>

theorem retry_ends_with_first_settled_attempt:
  assumes "sane cpow policy rand m"
  shows "\<exists>k out delays. 1 \<le> k \<and> int k \<le> rp_max_attempts policy
    \<and> (\<forall>j. 1 \<le> j \<and> j < k \<longrightarrow> \<not> settled policy request (operation j))
    \<and> (settled policy request (operation k) \<or> int k = rp_max_attempts policy)
    \<and> with_retry cpow policy name request operation rand = (out, k, delays)
    \<and> Suc (length delays) = k
    \<and> (\<forall>x \<in> set delays. \<exists>d. x = Fin d \<and> 0 \<le> d \<and> d \<le> (if rp_jitter policy then round_double (3 / 2 * m) else m))
    \<and> (case operation k of
         Inr response \<Rightarrow> (\<exists>records. length records = k - 1
           \<and> out = Returned (if k = 1 then response
               else response\<lparr>cp_retry_count := k - 1, cp_retry_records := records\<rparr>))
       | Inl exc \<Rightarrow> (\<exists>c t p mo orig records meta.
           out = Raised (Provider_exn c t p mo (classify_error policy exc) orig records meta)))"
proof -
  have valid: "1 \<le> rp_max_attempts policy"
    using assms by (auto simp: sane_def RetryPolicy_validate_def split: if_splits)
  obtain k where k: "1 \<le> k" "int k \<le> rp_max_attempts policy"
      "\<And>j. 1 \<le> j \<Longrightarrow> j < k \<Longrightarrow> \<not> settled policy request (operation j)"
      "settled policy request (operation k) \<or> int k = rp_max_attempts policy"
    using settles [OF valid, of request operation] by blast
  have delay: "\<exists>d. delay_seconds cpow policy rand j = Some (Fin d) \<and> 0 \<le> d
      \<and> d \<le> (if rp_jitter policy then round_double (3 / 2 * m) else m)" if "j < k" for j
    using delay_bounded [OF assms, of j] that k(2) by simp
  let ?records = "records_of cpow policy name request operation rand [1..<k]"
  let ?delays = "map (\<lambda>j. the (delay_seconds cpow policy rand j)) [1..<k]"
  have "with_retry cpow policy name request operation rand =
      (end_of_attempt policy name request (operation k) ([] @ ?records), Suc k - 1, ?delays)"
    unfolding with_retry_def
  proof (rule retry_rounds_result [where operation = operation, OF k])
    show "delay_seconds cpow policy rand j \<noteq> None" if "1 \<le> j" "j < k" for j using delay [OF that(2)] by auto
    show "int 1 + int (nat (rp_max_attempts policy)) = rp_max_attempts policy + 1" using valid by simp
  qed
  moreover have "\<forall>x \<in> set ?delays. \<exists>d. x = Fin d \<and> 0 \<le> d \<and> d \<le> (if rp_jitter policy then round_double (3 / 2 * m) else m)"
    using delay by fastforce
  moreover have "case operation k of
      Inr response \<Rightarrow> (\<exists>records. length records = k - 1
        \<and> end_of_attempt policy name request (operation k) ?records
          = Returned (if k = 1 then response else response\<lparr>cp_retry_count := k - 1, cp_retry_records := records\<rparr>))
    | Inl exc \<Rightarrow> (\<exists>c t p mo orig records meta. end_of_attempt policy name request (operation k) ?records
          = Raised (Provider_exn c t p mo (classify_error policy exc) orig records meta))"
  proof (cases "operation k")
    case (Inl exc)
    then show ?thesis
      by (cases exc) (auto simp: end_of_attempt_def raise_final_def classify_error_def)
  next
    case (Inr response)
    have len: "length ?records = k - 1" by (simp add: records_of_def)
    then have "?records = [] \<longleftrightarrow> k = 1" using k(1) by auto
    then have "end_of_attempt policy name request (operation k) ?records
        = Returned (if k = 1 then response else response\<lparr>cp_retry_count := k - 1, cp_retry_records := ?records\<rparr>)"
      using Inr len by (simp add: end_of_attempt_def)
    then show ?thesis using Inr len by auto
  qed
  ultimately show ?thesis using k by (intro exI [of _ k] exI conjI) auto
qed

theorem retry_ends_with_first_settled_attempt_witness:
  "\<exists>delays. with_retry rounded_power sample_policy ''p'' sample_chat (fails_once (Inr sample_answer)) (\<lambda>_. Fin (7 / 8))
     = (Returned (sample_answer\<lparr>cp_retry_count := 1, cp_retry_records :=
          cp_retry_records (case fst (with_retry rounded_power sample_policy ''p'' sample_chat (fails_once (Inr sample_answer))
            (\<lambda>_. Fin (7 / 8))) of Returned r \<Rightarrow> r)\<rparr>), 2, delays) \<and> length delays = 1"
proof -
  let ?op = "fails_once (Inr sample_answer)"
  have one: "\<not> settled sample_policy sample_chat (?op 1)"
    by (simp add: settled_def fails_once_def classify_error_def retryable_def sample_policy_def sample_chat_def)
  have two: "settled sample_policy sample_chat (?op k)" if "k \<noteq> 1" for k
    using that by (simp add: settled_def fails_once_def)
  obtain k out delays where r: "1 \<le> k" "int k \<le> rp_max_attempts sample_policy"
      "\<forall>j. 1 \<le> j \<and> j < k \<longrightarrow> \<not> settled sample_policy sample_chat (?op j)"
      "settled sample_policy sample_chat (?op k) \<or> int k = rp_max_attempts sample_policy"
      "with_retry rounded_power sample_policy ''p'' sample_chat ?op (\<lambda>_. Fin (7 / 8)) = (out, k, delays)"
      "Suc (length delays) = k"
      "case ?op k of
         Inr response \<Rightarrow> (\<exists>records. length records = k - 1
           \<and> out = Returned (if k = 1 then response
               else response\<lparr>cp_retry_count := k - 1, cp_retry_records := records\<rparr>))
       | Inl exc \<Rightarrow> (\<exists>c t p mo orig records meta.
           out = Raised (Provider_exn c t p mo (classify_error sample_policy exc) orig records meta))"
    using retry_ends_with_first_settled_attempt [OF sample_sane, of sample_chat ?op "''p''"] by blast
  have "k = 2"
  proof -
    have "k \<noteq> 1" using r(4) one by (auto simp: sample_policy_def)
    moreover have "\<not> 2 < k" using r(3) two [of 2] by auto
    ultimately show ?thesis using r(1) by simp
  qed
  then show ?thesis using r(5-7) by (auto simp: fails_once_def)
qed

text \<open>After a retry, a provider error without records of its own is raised again as the base class, whatever its class was.\<close>

lemma retried_error_loses_class:
  assumes "records \<noteq> []"
  shows "ex_class (raise_final name request (Provider_exn LLMAuthError t p mo FATAL_AUTH orig [] meta) FATAL_AUTH records)
    = LLMProviderError"
  using assms by (simp add: raise_final_def)

text \<open>With jitter the delay can exceed \<open>max_delay_seconds\<close>.\<close>

lemma jitter_exceeds_max_delay:
  "\<exists>d. delay_seconds rounded_power sample_policy (\<lambda>_. Fin (7 / 8)) 1 = Some d \<and> flt (rp_max_delay_seconds sample_policy) d"
proof -
  have eight: "round_double 8 = 8" by (rule round_double_exact [of 8 _ 1074]) simp_all
  have factor: "round_double (11 / 8) = 11 / 8" by (rule round_double_exact [of 11 _ 1071]) simp_all
  have eleven: "round_double 11 = 11" by (rule round_double_exact [of 11 _ 1074]) simp_all
  have "float_of 8 = Fin 8" "float_of (11 / 8) = Fin (11 / 8)" "float_of 11 = Fin 11"
    unfolding float_of_def eight factor eleven Let_def by simp_all
  then show ?thesis
    by (simp add: delay_seconds_def sample_policy_def fpow_def Let_def fround_def py_min_def)
qed

text \<open>A valid policy whose powers leave the range of a double: the retry fails with \<open>OverflowError\<close> instead of a provider error.\<close>

lemma large_power_overflows:
  assumes "cpow 2 1024 = None"
  shows "delay_seconds cpow (sample_policy\<lparr>rp_max_attempts := 2000\<rparr>) rand 1025 = None"
    "RetryPolicy_validate (sample_policy\<lparr>rp_max_attempts := 2000\<rparr>) = Inr (sample_policy\<lparr>rp_max_attempts := 2000\<rparr>)"
  using assms by (simp_all add: delay_seconds_def sample_policy_def fpow_def Let_def RetryPolicy_validate_def)

end
