(* ===== verification/Versioned.thy ===== *)
theory Versioned
  imports Prelude
begin

text \<open>
  The contract of a store that guards its updates with version numbers, and what a client gets from it.
\<close>

text \<open>
  The versions that accepted updates of one object were made against, in the order of a sequence of calls: \<open>expects op\<close> is the
  expected version of a call that updates the object.
\<close>

fun accepted_versions ::
  "('op \<Rightarrow> 'st \<Rightarrow> 'r result \<times> 'st) \<Rightarrow> ('op \<Rightarrow> int option) \<Rightarrow> 'st \<Rightarrow> 'op list \<Rightarrow> int list" where
  "accepted_versions run expects st [] = []"
| "accepted_versions run expects st (op # ops) =
     (let rest = accepted_versions run expects (snd (run op st)) ops
      in case expects op of
           None \<Rightarrow> rest
         | Some e \<Rightarrow> if is_ok (fst (run op st)) then e # rest else rest)"

text \<open>
  What a store with optimistic locking promises of one object: an accepted update was made against the current version and
  moves it by one, and no call, accepted or refused, takes the version back or the object away.
\<close>

locale versioned_object =
  fixes inv :: "'st \<Rightarrow> bool"
    and run :: "'op \<Rightarrow> 'st \<Rightarrow> 'r result \<times> 'st"
    and expects :: "'op \<Rightarrow> int option"
    and ver :: "'st \<Rightarrow> int option"
  assumes run_inv: "inv st \<Longrightarrow> inv (snd (run op st))"
    and accepted_current: "\<lbrakk>inv st; is_ok (fst (run op st)); expects op = Some e\<rbrakk> \<Longrightarrow> ver st = Some e"
    and accepted_moves: "\<lbrakk>inv st; is_ok (fst (run op st)); expects op = Some e\<rbrakk> \<Longrightarrow>
           ver (snd (run op st)) = Some (e + 1)"
    and monotone: "\<lbrakk>inv st; ver st = Some v\<rbrakk> \<Longrightarrow> \<exists>w. ver (snd (run op st)) = Some w \<and> v \<le> w"
begin

lemma accepted_from: "\<lbrakk>inv st; ver st = Some v; e \<in> set (accepted_versions run expects st ops)\<rbrakk> \<Longrightarrow> v \<le> e"
proof (induction ops arbitrary: st v)
  case (Cons op ops)
  obtain w where w: "ver (snd (run op st)) = Some w" "v \<le> w" using monotone Cons.prems by blast
  have rest: "v \<le> e" if "e \<in> set (accepted_versions run expects (snd (run op st)) ops)"
    using Cons.IH [OF run_inv w(1) that] Cons.prems w(2) by simp
  show ?case
  proof (cases "e \<in> set (accepted_versions run expects (snd (run op st)) ops)")
    case True
    then show ?thesis by (rule rest)
  next
    case False
    then have "expects op = Some e" "is_ok (fst (run op st))"
      using Cons.prems by (auto simp: Let_def split: option.splits if_splits)
    then show ?thesis using accepted_current Cons.prems by fastforce
  qed
qed simp

text \<open>No two accepted updates were made against the same version: none is lost.\<close>

lemma accepted_increase: "inv st \<Longrightarrow> sorted_wrt (<) (accepted_versions run expects st ops)"
proof (induction ops arbitrary: st)
  case (Cons op ops)
  have rest: "sorted_wrt (<) (accepted_versions run expects (snd (run op st)) ops)"
    using Cons run_inv by blast
  show ?case
  proof (cases "is_ok (fst (run op st)) \<and> expects op \<noteq> None")
    case True
    then obtain e where e: "expects op = Some e" "is_ok (fst (run op st))" by blast
    then have "ver (snd (run op st)) = Some (e + 1)" using accepted_moves Cons.prems by blast
    then have "\<forall>f \<in> set (accepted_versions run expects (snd (run op st)) ops). e + 1 \<le> f"
      using accepted_from run_inv Cons.prems by blast
    with rest e show ?thesis by (simp add: Let_def add1_zle_eq)
  next
    case False
    with rest show ?thesis by (auto simp: Let_def split: option.splits)
  qed
qed simp

end

end
