(* ===== verification/Raw_Task.thy ===== *)
theory Raw_Task
  imports Datetime
begin

text \<open>
  \<open>RawTask\<close> of \<^verbatim>\<open>task/authoring.py\<close>, the durable object behind a user's wish, with its asks, answers and feasibility
  report and the validators of the four classes. As for the task classes, constructing a value is a function that returns
  it or raises \<open>ValidationError\<close>.
\<close>

section \<open>Asks and answers\<close>

record RawTaskAnswerOption =
  ao_option_id :: string
  ao_label :: string
  ao_value :: string
  ao_description :: "string option"

definition RawTaskAnswerOption_fields_ok :: "RawTaskAnswerOption \<Rightarrow> bool" where
  "RawTaskAnswerOption_fields_ok a \<longleftrightarrow> ao_option_id a \<noteq> [] \<and> ao_label a \<noteq> [] \<and> ao_value a \<noteq> []"

record RawTaskAsk =
  ask_ask_id :: string
  ask_raw_task_id :: string
  ask_question :: string
  ask_options :: "RawTaskAnswerOption list"
  ask_required :: bool
  ask_reason :: string
  ask_created_by :: string
  ask_created_at :: datetime

definition RawTaskAsk_fields_ok :: "RawTaskAsk \<Rightarrow> bool" where
  "RawTaskAsk_fields_ok a \<longleftrightarrow>
     ask_ask_id a \<noteq> [] \<and> ask_raw_task_id a \<noteq> [] \<and> ask_question a \<noteq> [] \<and> ask_reason a \<noteq> []
     \<and> ask_created_by a \<noteq> [] \<and> list_all RawTaskAnswerOption_fields_ok (ask_options a)"

record RawTaskAnswer =
  ans_answer_id :: string
  ans_raw_task_id :: string
  ans_ask_id :: string
  ans_value :: string
  ans_source_message_id :: string
  ans_created_at :: datetime

definition RawTaskAnswer_fields_ok :: "RawTaskAnswer \<Rightarrow> bool" where
  "RawTaskAnswer_fields_ok a \<longleftrightarrow>
     ans_answer_id a \<noteq> [] \<and> ans_raw_task_id a \<noteq> [] \<and> ans_ask_id a \<noteq> [] \<and> ans_value a \<noteq> []
     \<and> ans_source_message_id a \<noteq> []"

section \<open>Feasibility\<close>

datatype FeasibilityNextAction = Generate_task_tree | Ask_user | Offer_alternatives | Decline

datatype FeasibilityStatus =
  Ready | Needs_clarification | Needs_user_permission | Partially_feasible | Not_supported | Unsafe

record FeasibilityReport =
  fr_status :: FeasibilityStatus
  fr_confidence :: pyfloat
  fr_reasons :: "string list"
  fr_missing_inputs :: "string list"
  fr_required_capabilities :: "string list"
  fr_required_permissions :: "string list"
  fr_suggested_next_action :: FeasibilityNextAction

text \<open>The table of \<open>_default_next_action\<close>, used when the caller gives no action.\<close>

fun default_next_action :: "FeasibilityStatus \<Rightarrow> FeasibilityNextAction" where
  "default_next_action Ready = Generate_task_tree"
| "default_next_action Partially_feasible = Offer_alternatives"
| "default_next_action Needs_clarification = Ask_user"
| "default_next_action Needs_user_permission = Ask_user"
| "default_next_action Not_supported = Offer_alternatives"
| "default_next_action Unsafe = Decline"

definition FeasibilityReport_validate :: "FeasibilityReport \<Rightarrow> FeasibilityReport result" where
  "FeasibilityReport_validate f =
     (if \<not> unit_interval (fr_confidence f) then Inl (ValidationError (Msg ''FeasibilityReport'' []))
      else if fr_status f \<in> {Needs_clarification, Needs_user_permission} \<and> fr_missing_inputs f = []
         \<and> fr_required_permissions f = []
      then Inl (ValidationError (Msg
        ''clarification or permission status requires missing inputs or permissions'' []))
      else if fr_status f = Ready \<and> fr_suggested_next_action f \<noteq> Generate_task_tree
      then Inl (ValidationError (Msg ''ready feasibility must suggest generate_task_tree'' []))
      else if fr_status f = Unsafe \<and> fr_suggested_next_action f \<noteq> Decline
      then Inl (ValidationError (Msg ''unsafe feasibility must suggest decline'' []))
      else Inr f)"

text \<open>A report without an action gets the one of the table, which satisfies the last two rules.\<close>

lemma default_action_valid:
  assumes "unit_interval (fr_confidence f)"
    and "fr_status f \<in> {Needs_clarification, Needs_user_permission} \<Longrightarrow>
           fr_missing_inputs f \<noteq> [] \<or> fr_required_permissions f \<noteq> []"
  shows "is_ok (FeasibilityReport_validate (f\<lparr>fr_suggested_next_action := default_next_action (fr_status f)\<rparr>))"
  using assms by (auto simp: FeasibilityReport_validate_def)

section \<open>Raw tasks\<close>

datatype RawTaskStatus =
  Raw_created | Raw_assessing | Raw_awaiting_user | Raw_ready_to_plan | Raw_converted | Raw_rejected | Raw_cancelled

record RawTask =
  rt_raw_task_id :: string
  rt_session_id :: string
  rt_source_message_id :: string
  rt_user_input :: string
  rt_status :: RawTaskStatus
  rt_intent_summary :: "string option"
  rt_feasibility :: "FeasibilityReport option"
  rt_asks :: "RawTaskAsk list"
  rt_answers :: "RawTaskAnswer list"
  rt_constraints :: "string list"
  rt_assumptions :: "string list"
  rt_version :: int
  rt_created_by :: string
  rt_created_at :: datetime
  rt_updated_at :: datetime

definition RawTask_fields_ok :: "RawTask \<Rightarrow> bool" where
  "RawTask_fields_ok r \<longleftrightarrow>
     rt_raw_task_id r \<noteq> [] \<and> rt_session_id r \<noteq> [] \<and> rt_source_message_id r \<noteq> [] \<and> rt_user_input r \<noteq> []
     \<and> opt_nonempty (rt_intent_summary r)
     \<and> (case rt_feasibility r of None \<Rightarrow> True | Some f \<Rightarrow> is_ok (FeasibilityReport_validate f))
     \<and> list_all RawTaskAsk_fields_ok (rt_asks r) \<and> list_all RawTaskAnswer_fields_ok (rt_answers r)
     \<and> 1 \<le> rt_version r \<and> rt_created_by r \<noteq> []"

definition unanswered_ask_ids :: "RawTask \<Rightarrow> string list" where
  "unanswered_ask_ids r =
     (let answered = map ans_ask_id (rt_answers r)
      in map ask_ask_id (filter (\<lambda>a. ask_required a \<and> ask_ask_id a \<notin> set answered) (rt_asks r)))"

definition ready_for_planning :: "RawTask \<Rightarrow> bool" where
  "ready_for_planning r \<longleftrightarrow> rt_status r = Raw_ready_to_plan"

text \<open>The two loops of \<open>_validate_raw_task\<close>.\<close>

fun validate_asks :: "string \<Rightarrow> string list \<Rightarrow> RawTaskAsk list \<Rightarrow> string list result" where
  "validate_asks rid seen [] = Inr seen"
| "validate_asks rid seen (a # as) =
     (if ask_raw_task_id a \<noteq> rid
      then Inl (ValueError (Msg ''RawTaskAsk raw_task_id must match RawTask'' []))
      else if ask_ask_id a \<in> set seen
      then Inl (ValueError (Msg ''RawTaskAsk ask_id values must be unique'' []))
      else validate_asks rid (ask_ask_id a # seen) as)"

fun validate_answers :: "string \<Rightarrow> string list \<Rightarrow> RawTaskAnswer list \<Rightarrow> unit result" where
  "validate_answers rid ask_ids [] = Inr ()"
| "validate_answers rid ask_ids (a # as) =
     (if ans_raw_task_id a \<noteq> rid
      then Inl (ValueError (Msg ''RawTaskAnswer raw_task_id must match RawTask'' []))
      else if ans_ask_id a \<notin> set ask_ids
      then Inl (ValueError (Msg ''RawTaskAnswer must reference an existing RawTaskAsk'' []))
      else validate_answers rid ask_ids as)"

definition validate_raw_status :: "RawTask \<Rightarrow> unit result" where
  "validate_raw_status r =
     (if rt_status r = Raw_awaiting_user \<and> unanswered_ask_ids r = []
      then Inl (ValueError (Msg ''awaiting_user RawTask requires at least one unanswered ask'' []))
      else if rt_status r = Raw_ready_to_plan \<and> rt_feasibility r = None
      then Inl (ValueError (Msg ''ready_to_plan RawTask requires feasibility'' []))
      else if rt_status r = Raw_ready_to_plan \<and> fr_status (the (rt_feasibility r)) \<notin> {Ready, Partially_feasible}
      then Inl (ValueError (Msg ''ready_to_plan RawTask requires ready feasibility'' []))
      else if rt_status r = Raw_rejected \<and> rt_feasibility r \<noteq> None
         \<and> fr_status (the (rt_feasibility r)) \<notin> {Not_supported, Unsafe}
      then Inl (ValueError (Msg ''rejected RawTask requires unsupported or unsafe feasibility'' []))
      else Inr ())"

definition validate_raw_task :: "RawTask \<Rightarrow> unit result" where
  "validate_raw_task r =
     (if rt_updated_at r < rt_created_at r then Inl (ValueError (Msg ''updated_at must be >= created_at'' []))
      else bind_ok (validate_asks (rt_raw_task_id r) [] (rt_asks r)) (\<lambda>ask_ids.
           bind_ok (validate_answers (rt_raw_task_id r) ask_ids (rt_answers r)) (\<lambda>_.
           validate_raw_status r)))"

definition RawTask_validate :: "RawTask \<Rightarrow> RawTask result" where
  "RawTask_validate r =
     (if RawTask_fields_ok r \<and> is_ok (validate_raw_task r) then Inr r
      else Inl (ValidationError (Msg ''RawTask'' [])))"

text \<open>What a \<open>RawTask\<close> value satisfies.\<close>

lemma validate_asks_ok:
  "validate_asks rid seen as = Inr ids \<longleftrightarrow>
     (\<forall>a \<in> set as. ask_raw_task_id a = rid) \<and> distinct (map ask_ask_id as)
     \<and> set (map ask_ask_id as) \<inter> set seen = {} \<and> ids = rev (map ask_ask_id as) @ seen"
  by (induction rid seen as rule: validate_asks.induct) auto

lemma validate_answers_ok:
  "is_ok (validate_answers rid ids as) \<longleftrightarrow> (\<forall>a \<in> set as. ans_raw_task_id a = rid \<and> ans_ask_id a \<in> set ids)"
  by (induction as) auto

lemma RawTask_valid_answers:
  assumes "RawTask_validate r = Inr r'"
  shows "r' = r \<and> distinct (map ask_ask_id (rt_asks r))
    \<and> (\<forall>a \<in> set (rt_answers r). \<exists>q \<in> set (rt_asks r). ask_ask_id q = ans_ask_id a)
    \<and> rt_created_at r \<le> rt_updated_at r"
proof -
  have ok: "r' = r" "is_ok (validate_raw_task r)" using assms by (auto simp: RawTask_validate_def split: if_splits)
  then obtain ids where ids: "validate_asks (rt_raw_task_id r) [] (rt_asks r) = Inr ids"
    "is_ok (validate_answers (rt_raw_task_id r) ids (rt_answers r))" "rt_created_at r \<le> rt_updated_at r"
    by (auto simp: validate_raw_task_def is_ok_def bind_ok_def split: if_splits sum.splits)
  have set_ids: "set ids = ask_ask_id ` set (rt_asks r)" and distinct: "distinct (map ask_ask_id (rt_asks r))"
    using ids(1) by (simp_all add: validate_asks_ok)
  have "\<exists>q \<in> set (rt_asks r). ask_ask_id q = ans_ask_id a" if "a \<in> set (rt_answers r)" for a
  proof -
    have "ans_ask_id a \<in> ask_ask_id ` set (rt_asks r)"
      using ids(2) that unfolding validate_answers_ok set_ids by blast
    then show ?thesis by (auto elim!: imageE)
  qed
  with ok(1) distinct ids(3) show ?thesis by blast
qed

end
