(* ===== verification/Draft_Store.thy ===== *)
theory Draft_Store
  imports Raw_Task Task_Models
begin

text \<open>
  The authoring stores of \<^verbatim>\<open>task/stores.py\<close>: \<open>InMemoryRawTaskStore\<close> and
  \<open>InMemoryDraftTaskStore\<close>. An operation takes the store and returns its result or exception together with the store it
  leaves behind, so that what an operation wrote before it raised is visible. \<open>clock k\<close> is the \<open>k\<close>-th reading of
  \<open>_utcnow()\<close> by the call, and the identifier drawn by \<open>_new_id\<close> is an argument. The lock makes each call atomic.
\<close>

section \<open>Versions\<close>

definition check_version :: "int \<Rightarrow> int \<Rightarrow> string \<Rightarrow> unit result" where
  "check_version current expected object_id =
     (if current \<noteq> expected
      then Inl (VersionConflictError (Msg ''stale version for {}: expected {}, current {}''
             [object_id, str_int expected, str_int current]))
      else Inr ())"

lemma check_version_simps [simp]:
  "check_version v v i = Inr ()"
  "check_version v w i = Inr u \<longleftrightarrow> v = w"
  by (auto simp: check_version_def)

section \<open>Raw tasks\<close>

type_synonym InMemoryRawTaskStore = "(string \<times> string, RawTask) dict"

definition raw_create :: "InMemoryRawTaskStore \<Rightarrow> RawTask \<Rightarrow> RawTask result \<times> InMemoryRawTaskStore" where
  "raw_create st raw_task =
     (let key = (rt_session_id raw_task, rt_raw_task_id raw_task)
      in if dict_get st key \<noteq> None
         then (Inl (TaskStoreError (Msg ''RawTask {} already exists'' [rt_raw_task_id raw_task])), st)
         else (Inr raw_task, dict_set st key raw_task))"

fun raw_store_init :: "InMemoryRawTaskStore \<Rightarrow> RawTask list \<Rightarrow> InMemoryRawTaskStore result" where
  "raw_store_init st [] = Inr st"
| "raw_store_init st (r # rs) =
     (case raw_create st r of (Inl e, _) \<Rightarrow> Inl e | (Inr _, st') \<Rightarrow> raw_store_init st' rs)"

definition raw_get :: "InMemoryRawTaskStore \<Rightarrow> string \<Rightarrow> string \<Rightarrow> RawTask option" where
  "raw_get st session_id raw_task_id = dict_get st (session_id, raw_task_id)"

definition raw_list_for_session :: "InMemoryRawTaskStore \<Rightarrow> string \<Rightarrow> RawTask list" where
  "raw_list_for_session st session_id =
     sort_key (\<lambda>r. (rt_created_at r, rt_updated_at r, rt_raw_task_id r))
       (filter (\<lambda>r. rt_session_id r = session_id) (dict_values st))"

definition raw_save ::
  "InMemoryRawTaskStore \<Rightarrow> RawTask \<Rightarrow> int \<Rightarrow> datetime \<Rightarrow> RawTask result \<times> InMemoryRawTaskStore" where
  "raw_save st raw_task expected_version now =
     (let key = (rt_session_id raw_task, rt_raw_task_id raw_task)
      in case dict_get st key of
           None \<Rightarrow> (Inl (LookupError (Msg ''RawTask {} not found'' [rt_raw_task_id raw_task])), st)
         | Some current \<Rightarrow>
             (case check_version (rt_version current) expected_version (rt_raw_task_id raw_task) of
                Inl e \<Rightarrow> (Inl e, st)
              | Inr _ \<Rightarrow>
                  (case RawTask_validate (raw_task\<lparr>rt_version := rt_version current + 1,
                          rt_created_at := rt_created_at current, rt_updated_at := now\<rparr>) of
                     Inl e \<Rightarrow> (Inl e, st)
                   | Inr updated \<Rightarrow> (Inr updated, dict_set st key updated))))"

section \<open>Draft trees\<close>

record InMemoryDraftTaskStore =
  ds_trees :: "(string \<times> string, DraftTaskTree) dict"
  ds_nodes :: "(string \<times> string, DraftTaskNode) dict"
  ds_node_tree :: "(string \<times> string, string) dict"
  ds_mappings_by_draft :: "(string \<times> string, DraftToPublishedMapping list) dict"
  ds_mappings_by_task :: "(string \<times> string, DraftToPublishedMapping list) dict"

definition empty_store :: InMemoryDraftTaskStore where
  "empty_store = \<lparr>ds_trees = [], ds_nodes = [], ds_node_tree = [], ds_mappings_by_draft = [],
     ds_mappings_by_task = []\<rparr>"

text \<open>The two index updates every stored node gets.\<close>

definition put_node :: "InMemoryDraftTaskStore \<Rightarrow> string \<times> string \<Rightarrow> DraftTaskNode \<Rightarrow> InMemoryDraftTaskStore" where
  "put_node st key n = st\<lparr>ds_nodes := dict_set (ds_nodes st) key n\<rparr>"

definition put_node_tree :: "InMemoryDraftTaskStore \<Rightarrow> string \<times> string \<Rightarrow> string \<Rightarrow> InMemoryDraftTaskStore" where
  "put_node_tree st key tree_id = st\<lparr>ds_node_tree := dict_set (ds_node_tree st) key tree_id\<rparr>"

fun load_nodes ::
  "string \<Rightarrow> DraftTaskNode list \<Rightarrow> InMemoryDraftTaskStore \<Rightarrow> unit result \<times> InMemoryDraftTaskStore" where
  "load_nodes tree_id [] st = (Inr (), st)"
| "load_nodes tree_id (n # ns) st =
     (let node_key = (dn_session_id n, dn_draft_task_id n)
      in if dict_get (ds_nodes st) node_key \<noteq> None
         then (Inl (TaskStoreError (Msg ''DraftTaskNode {} already exists'' [dn_draft_task_id n])), st)
         else load_nodes tree_id ns (put_node_tree (put_node st node_key n) node_key tree_id))"

definition load_tree :: "InMemoryDraftTaskStore \<Rightarrow> DraftTaskTree \<Rightarrow> unit result \<times> InMemoryDraftTaskStore" where
  "load_tree st tree =
     (let key = (dt_session_id tree, dt_draft_tree_id tree)
      in if dict_get (ds_trees st) key \<noteq> None
         then (Inl (TaskStoreError (Msg ''DraftTaskTree {} already exists'' [dt_draft_tree_id tree])), st)
         else load_nodes (dt_draft_tree_id tree) (dt_root_nodes tree)
                (st\<lparr>ds_trees := dict_set (ds_trees st) key tree\<rparr>))"

fun draft_store_init :: "InMemoryDraftTaskStore \<Rightarrow> DraftTaskTree list \<Rightarrow> InMemoryDraftTaskStore result" where
  "draft_store_init st [] = Inr st"
| "draft_store_init st (t # ts) =
     (case load_tree st t of (Inl e, _) \<Rightarrow> Inl e | (Inr _, st') \<Rightarrow> draft_store_init st' ts)"

definition sort_nodes :: "DraftTaskNode list \<Rightarrow> DraftTaskNode list" where
  "sort_nodes = sort_key (\<lambda>n. (or_else (dn_parent_draft_task_id n) [], dn_order_index n,
     dn_created_at n, dn_draft_task_id n))"

definition create_tree ::
  "InMemoryDraftTaskStore \<Rightarrow> string \<Rightarrow> DraftTaskNode list \<Rightarrow> string option \<Rightarrow> string option \<Rightarrow> string
     \<Rightarrow> (nat \<Rightarrow> datetime) \<Rightarrow> DraftTaskTree result \<times> InMemoryDraftTaskStore" where
  "create_tree st session_id roots title summary draft_tree_id clock =
     (if roots = [] then (Inl (ValueError (Msg ''draft tree requires at least one root'' [])), st)
      else case bind_ok (those_ok (map (\<lambda>r. DraftTaskNode_validate (r\<lparr>dn_session_id := session_id,
                  dn_draft_tree_id := draft_tree_id, dn_parent_draft_task_id := None\<rparr>)) roots))
                (\<lambda>normalized_roots. DraftTaskTree_validate
                   \<lparr>dt_draft_tree_id = draft_tree_id, dt_session_id = session_id, dt_title = title,
                    dt_summary = summary, dt_root_nodes = sort_nodes normalized_roots,
                    dt_created_by = dn_created_by (hd normalized_roots), dt_version = 1,
                    dt_created_at = clock 0, dt_updated_at = clock 1\<rparr>) of
             Inl e \<Rightarrow> (Inl e, st)
           | Inr tree \<Rightarrow>
               (case load_tree st tree of
                  (Inl e, st') \<Rightarrow> (Inl e, st')
                | (Inr _, st') \<Rightarrow> (Inr tree, st')))"

definition get_tree :: "InMemoryDraftTaskStore \<Rightarrow> string \<Rightarrow> string \<Rightarrow> DraftTaskTree result" where
  "get_tree st session_id draft_tree_id =
     (case dict_get (ds_trees st) (session_id, draft_tree_id) of
        None \<Rightarrow> Inl (LookupError (Msg ''DraftTaskTree {} not found'' [draft_tree_id]))
      | Some tree \<Rightarrow> Inr tree)"

definition list_trees :: "InMemoryDraftTaskStore \<Rightarrow> string \<Rightarrow> DraftTaskTree list" where
  "list_trees st session_id =
     sort_key (\<lambda>t. (dt_created_at t, dt_draft_tree_id t))
       (filter (\<lambda>t. dt_session_id t = session_id) (dict_values (ds_trees st)))"

definition in_tree :: "string \<Rightarrow> string \<Rightarrow> DraftTaskNode \<Rightarrow> bool" where
  "in_tree session_id draft_tree_id n \<longleftrightarrow> dn_session_id n = session_id \<and> dn_draft_tree_id n = draft_tree_id"

definition list_nodes :: "InMemoryDraftTaskStore \<Rightarrow> string \<Rightarrow> string \<Rightarrow> DraftTaskNode list result" where
  "list_nodes st session_id draft_tree_id =
     map_ok (\<lambda>_. sort_nodes (filter (in_tree session_id draft_tree_id) (dict_values (ds_nodes st))))
       (get_tree st session_id draft_tree_id)"

definition get_node :: "InMemoryDraftTaskStore \<Rightarrow> string \<Rightarrow> string \<Rightarrow> DraftTaskNode option" where
  "get_node st session_id draft_task_id =
     (case dict_get (ds_nodes st) (session_id, draft_task_id) of
        None \<Rightarrow> None
      | Some n \<Rightarrow> if dn_session_id n \<noteq> session_id then None else Some n)"

text \<open>The parent check of \<open>list_children\<close> and \<open>add_node\<close>, which differ in the message.\<close>

definition check_parent ::
  "InMemoryDraftTaskStore \<Rightarrow> string \<Rightarrow> string \<Rightarrow> string option \<Rightarrow> string \<Rightarrow> unit result" where
  "check_parent st session_id draft_tree_id parent text =
     (case parent of
        None \<Rightarrow> Inr ()
      | Some p \<Rightarrow>
          (case get_node st session_id p of
             None \<Rightarrow> Inl (LookupError (Msg text [p]))
           | Some n \<Rightarrow> if dn_draft_tree_id n \<noteq> draft_tree_id then Inl (LookupError (Msg text [p])) else Inr ()))"

definition draft_list_children ::
  "InMemoryDraftTaskStore \<Rightarrow> string \<Rightarrow> string \<Rightarrow> string option \<Rightarrow> DraftTaskNode list result" where
  "draft_list_children st session_id draft_tree_id parent =
     bind_ok (get_tree st session_id draft_tree_id) (\<lambda>_.
     bind_ok (check_parent st session_id draft_tree_id parent ''DraftTaskNode {} not found'') (\<lambda>_.
     Inr (sort_nodes (filter (\<lambda>n. in_tree session_id draft_tree_id n \<and> dn_parent_draft_task_id n = parent)
            (dict_values (ds_nodes st))))))"

definition bump_tree ::
  "InMemoryDraftTaskStore \<Rightarrow> string \<Rightarrow> string \<Rightarrow> datetime \<Rightarrow> DraftTaskTree result \<times> InMemoryDraftTaskStore" where
  "bump_tree st session_id draft_tree_id now =
     (case dict_get (ds_trees st) (session_id, draft_tree_id) of
        None \<Rightarrow> (Inl (KeyError (Msg ''({}, {})'' [session_id, draft_tree_id])), st)
      | Some current \<Rightarrow>
          (let roots = sort_nodes (filter (\<lambda>n. in_tree session_id draft_tree_id n
                          \<and> dn_parent_draft_task_id n = None) (dict_values (ds_nodes st)))
           in case DraftTaskTree_validate (current\<lparr>dt_root_nodes := roots,
                     dt_version := dt_version current + 1, dt_updated_at := now\<rparr>) of
                Inl e \<Rightarrow> (Inl e, st)
              | Inr updated \<Rightarrow>
                  (Inr updated, st\<lparr>ds_trees := dict_set (ds_trees st) (session_id, draft_tree_id) updated\<rparr>)))"

text \<open>An operation that ends with \<open>_bump_tree\<close> and returns something else.\<close>

definition bump_and_return ::
  "InMemoryDraftTaskStore \<Rightarrow> string \<Rightarrow> string \<Rightarrow> datetime \<Rightarrow> 'a \<Rightarrow> 'a result \<times> InMemoryDraftTaskStore" where
  "bump_and_return st session_id draft_tree_id now x =
     (case bump_tree st session_id draft_tree_id now of
        (Inl e, st') \<Rightarrow> (Inl e, st') | (Inr _, st') \<Rightarrow> (Inr x, st'))"

definition add_node ::
  "InMemoryDraftTaskStore \<Rightarrow> string \<Rightarrow> string \<Rightarrow> DraftTaskNode \<Rightarrow> int \<Rightarrow> (nat \<Rightarrow> datetime)
     \<Rightarrow> DraftTaskNode result \<times> InMemoryDraftTaskStore" where
  "add_node st session_id draft_tree_id node expected_tree_version clock =
     (let key = (session_id, dn_draft_task_id node)
      in case bind_ok (get_tree st session_id draft_tree_id) (\<lambda>tree.
              bind_ok (check_version (dt_version tree) expected_tree_version draft_tree_id) (\<lambda>_.
              bind_ok (if dict_get (ds_nodes st) key \<noteq> None
                       then Inl (TaskStoreError (Msg ''DraftTaskNode {} already exists'' [dn_draft_task_id node]))
                       else Inr ()) (\<lambda>_.
              bind_ok (check_parent st session_id draft_tree_id (dn_parent_draft_task_id node)
                         ''parent DraftTaskNode {} not found'') (\<lambda>_.
              DraftTaskNode_validate (node\<lparr>dn_session_id := session_id, dn_draft_tree_id := draft_tree_id,
                dn_created_at := clock 0, dn_updated_at := clock 1\<rparr>))))) of
           Inl e \<Rightarrow> (Inl e, st)
         | Inr normalized \<Rightarrow>
             bump_and_return (put_node_tree (put_node st key normalized) key draft_tree_id)
               session_id draft_tree_id (clock 2) normalized)"

fun append_missing :: "string list \<Rightarrow> string list \<Rightarrow> string list" where
  "append_missing constraints [] = constraints"
| "append_missing constraints (c # cs) =
     append_missing (if c \<in> set constraints then constraints else constraints @ [c]) cs"

definition patched_constraints :: "DraftTaskNode \<Rightarrow> TaskNodePatch \<Rightarrow> string list" where
  "patched_constraints n patch =
     append_missing (filter (\<lambda>c. c \<notin> set (patch_constraints_remove patch)) (dn_constraints n))
       (patch_constraints_add patch)"

text \<open>\<open>status=patch.status or node.status\<close>, turned into a \<open>DraftTaskStatus\<close> by validation.\<close>

definition patched_status :: "DraftTaskNode \<Rightarrow> TaskNodePatch \<Rightarrow> DraftTaskStatus result" where
  "patched_status n patch =
     (case draft_status_of (or_else (patch_status patch) (draft_status_str (dn_status n))) of
        None \<Rightarrow> Inl (ValidationError (Msg ''DraftTaskNode'' []))
      | Some s \<Rightarrow> Inr s)"

definition patched_node :: "DraftTaskNode \<Rightarrow> TaskNodePatch \<Rightarrow> datetime \<Rightarrow> DraftTaskNode result" where
  "patched_node n patch now =
     bind_ok (patched_status n patch) (\<lambda>status.
     DraftTaskNode_validate (n\<lparr>
       dn_title := or_else (patch_title patch) (dn_title n),
       dn_intent := or_else (patch_intent patch) (dn_intent n),
       dn_summary := (case patch_summary patch of None \<Rightarrow> dn_summary n | Some s \<Rightarrow> Some s),
       dn_instructions := (case patch_instructions patch of None \<Rightarrow> dn_instructions n | Some s \<Rightarrow> Some s),
       dn_acceptance_criteria :=
         (case patch_acceptance_criteria patch of None \<Rightarrow> dn_acceptance_criteria n | Some s \<Rightarrow> s),
       dn_required_capability := or_else (patch_required_capability patch) (dn_required_capability n),
       dn_constraints := patched_constraints n patch,
       dn_status := status, dn_version := dn_version n + 1, dn_updated_at := now\<rparr>))"

definition update_node ::
  "InMemoryDraftTaskStore \<Rightarrow> string \<Rightarrow> string \<Rightarrow> TaskNodePatch \<Rightarrow> int \<Rightarrow> (nat \<Rightarrow> datetime)
     \<Rightarrow> DraftTaskNode result \<times> InMemoryDraftTaskStore" where
  "update_node st session_id draft_task_id patch expected_version clock =
     (case get_node st session_id draft_task_id of
        None \<Rightarrow> (Inl (LookupError (Msg ''DraftTaskNode {} not found'' [draft_task_id])), st)
      | Some node \<Rightarrow>
          (if dn_status node \<noteq> Draft
           then (Inl (TaskStoreError (Msg ''draft task cannot be edited while status is {}''
                   [draft_status_str (dn_status node)])), st)
           else if patch_children_ops patch \<noteq> []
           then (Inl (TaskStoreError (Msg ''children_ops are handled by explicit tree operations'' [])), st)
           else if patch_status patch = Some ''published''
           then (Inl (TaskStoreError (Msg ''published status must be set through mark_published'' [])), st)
           else case bind_ok (check_version (dn_version node) expected_version draft_task_id)
                       (\<lambda>_. patched_node node patch (clock 0)) of
                  Inl e \<Rightarrow> (Inl e, st)
                | Inr updated \<Rightarrow>
                    bump_and_return (put_node st (session_id, draft_task_id) updated)
                      session_id (dn_draft_tree_id node) (clock 1) updated))"

text \<open>The loop that moves nodes to a status, writing each copy before the next is made.\<close>

fun set_statuses ::
  "DraftTaskStatus \<Rightarrow> string \<Rightarrow> (nat \<Rightarrow> datetime) \<Rightarrow> DraftTaskNode list \<Rightarrow> InMemoryDraftTaskStore
     \<Rightarrow> (nat \<Rightarrow> datetime) result \<times> InMemoryDraftTaskStore" where
  "set_statuses status session_id clock [] st = (Inr clock, st)"
| "set_statuses status session_id clock (n # ns) st =
     (case DraftTaskNode_validate (n\<lparr>dn_status := status, dn_version := dn_version n + 1,
             dn_updated_at := clock 0\<rparr>) of
        Inl e \<Rightarrow> (Inl e, st)
      | Inr updated \<Rightarrow> set_statuses status session_id (\<lambda>k. clock (Suc k)) ns
          (put_node st (session_id, dn_draft_task_id n) updated))"

fun refuse_status ::
  "(DraftTaskNode \<Rightarrow> bool) \<Rightarrow> (DraftTaskNode \<Rightarrow> msg) \<Rightarrow> DraftTaskNode list \<Rightarrow> unit result" where
  "refuse_status bad message [] = Inr ()"
| "refuse_status bad message (n # ns) =
     (if bad n then Inl (TaskStoreError (message n)) else refuse_status bad message ns)"

definition mark_accepted ::
  "InMemoryDraftTaskStore \<Rightarrow> string \<Rightarrow> string \<Rightarrow> int \<Rightarrow> (nat \<Rightarrow> datetime)
     \<Rightarrow> DraftTaskTree result \<times> InMemoryDraftTaskStore" where
  "mark_accepted st session_id draft_tree_id expected_version clock =
     (case bind_ok (get_tree st session_id draft_tree_id) (\<lambda>tree.
           bind_ok (check_version (dt_version tree) expected_version draft_tree_id) (\<lambda>_.
           bind_ok (list_nodes st session_id draft_tree_id) (\<lambda>nodes.
           map_ok (\<lambda>_. nodes) (refuse_status (\<lambda>n. dn_status n \<notin> {Draft, Accepted})
             (\<lambda>n. Msg ''cannot accept draft tree with {} node {}''
                    [draft_status_str (dn_status n), dn_draft_task_id n]) nodes)))) of
        Inl e \<Rightarrow> (Inl e, st)
      | Inr nodes \<Rightarrow>
          (case set_statuses Accepted session_id clock (filter (\<lambda>n. dn_status n = Draft) nodes) st of
             (Inl e, st') \<Rightarrow> (Inl e, st')
           | (Inr clock', st') \<Rightarrow> bump_tree st' session_id draft_tree_id (clock' 0)))"

fun check_mappings ::
  "InMemoryDraftTaskStore \<Rightarrow> string \<Rightarrow> string \<Rightarrow> DraftToPublishedMapping list \<Rightarrow> unit result" where
  "check_mappings st session_id draft_tree_id [] = Inr ()"
| "check_mappings st session_id draft_tree_id (m # ms) =
     (if dm_session_id m \<noteq> session_id \<or> dm_draft_tree_id m \<noteq> draft_tree_id
      then Inl (ValueError (Msg ''mapping session_id and draft_tree_id must match tree'' []))
      else if get_node st session_id (dm_draft_task_id m) = None
      then Inl (LookupError (Msg ''mapped DraftTaskNode {} not found'' [dm_draft_task_id m]))
      else check_mappings st session_id draft_tree_id ms)"

text \<open>\<open>d[k].append(x)\<close> on a \<open>defaultdict(list)\<close>, and \<open>list(d.get(k, []))\<close>.\<close>

definition entries :: "('k, 'v list) dict \<Rightarrow> 'k \<Rightarrow> 'v list" where
  "entries d k = (case dict_get d k of None \<Rightarrow> [] | Some vs \<Rightarrow> vs)"

definition append_entry :: "('k, 'v list) dict \<Rightarrow> 'k \<Rightarrow> 'v \<Rightarrow> ('k, 'v list) dict" where
  "append_entry d k v = dict_set d k (entries d k @ [v])"

fun record_mappings ::
  "string \<Rightarrow> DraftToPublishedMapping list \<Rightarrow> InMemoryDraftTaskStore \<Rightarrow> InMemoryDraftTaskStore" where
  "record_mappings session_id [] st = st"
| "record_mappings session_id (m # ms) st =
     record_mappings session_id ms (st\<lparr>
       ds_mappings_by_draft := append_entry (ds_mappings_by_draft st) (session_id, dm_draft_task_id m) m,
       ds_mappings_by_task := append_entry (ds_mappings_by_task st) (session_id, dm_task_id m) m\<rparr>)"

definition mark_published ::
  "InMemoryDraftTaskStore \<Rightarrow> string \<Rightarrow> string \<Rightarrow> DraftToPublishedMapping list \<Rightarrow> int option \<Rightarrow> (nat \<Rightarrow> datetime)
     \<Rightarrow> DraftTaskTree result \<times> InMemoryDraftTaskStore" where
  "mark_published st session_id draft_tree_id mappings expected_version clock =
     (case bind_ok (get_tree st session_id draft_tree_id) (\<lambda>tree.
           bind_ok (case expected_version of None \<Rightarrow> Inr ()
                    | Some v \<Rightarrow> check_version (dt_version tree) v draft_tree_id) (\<lambda>_.
           bind_ok (list_nodes st session_id draft_tree_id) (\<lambda>nodes.
           bind_ok (refuse_status (\<lambda>n. dn_status n = Cancelled)
             (\<lambda>n. Msg ''cannot publish cancelled node {}'' [dn_draft_task_id n]) nodes) (\<lambda>_.
           map_ok (\<lambda>_. nodes) (check_mappings st session_id draft_tree_id mappings))))) of
        Inl e \<Rightarrow> (Inl e, st)
      | Inr nodes \<Rightarrow>
          (case set_statuses Published session_id clock (filter (\<lambda>n. dn_status n \<noteq> Published) nodes) st of
             (Inl e, st') \<Rightarrow> (Inl e, st')
           | (Inr clock', st') \<Rightarrow>
               bump_tree (record_mappings session_id mappings st') session_id draft_tree_id (clock' 0)))"

definition list_for_draft :: "InMemoryDraftTaskStore \<Rightarrow> string \<Rightarrow> string \<Rightarrow> DraftToPublishedMapping list" where
  "list_for_draft st session_id draft_task_id = entries (ds_mappings_by_draft st) (session_id, draft_task_id)"

definition list_for_task :: "InMemoryDraftTaskStore \<Rightarrow> string \<Rightarrow> string \<Rightarrow> DraftToPublishedMapping list" where
  "list_for_task st session_id task_id = entries (ds_mappings_by_task st) (session_id, task_id)"

end
