(* ===== verification/Draft_Evolution.thy ===== *)
theory Draft_Evolution
  imports Versioned Draft_Store
begin

text \<open>
  How the authoring stores change: what a stored node or tree may become, that the versions of trees, nodes and raw tasks
  satisfy the contract of \<^verbatim>\<open>Versioned\<close>, and what an invalid root leaves behind.
\<close>

section \<open>How stored nodes and trees evolve\<close>

text \<open>
  Every node is stored under its own session and identifier.
\<close>

definition store_inv :: "InMemoryDraftTaskStore \<Rightarrow> bool" where
  "store_inv st \<longleftrightarrow> dict_ok (ds_nodes st)
     \<and> (\<forall>k n. dict_get (ds_nodes st) k = Some n \<longrightarrow> k = (dn_session_id n, dn_draft_task_id n))"

text \<open>The fields no operation changes.\<close>

definition same_identity :: "DraftTaskNode \<Rightarrow> DraftTaskNode \<Rightarrow> bool" where
  "same_identity n n' \<longleftrightarrow> dn_draft_task_id n' = dn_draft_task_id n \<and> dn_session_id n' = dn_session_id n
     \<and> dn_draft_tree_id n' = dn_draft_tree_id n \<and> dn_parent_draft_task_id n' = dn_parent_draft_task_id n
     \<and> dn_order_index n' = dn_order_index n \<and> dn_rationale n' = dn_rationale n
     \<and> dn_created_by n' = dn_created_by n \<and> dn_created_at n' = dn_created_at n"

text \<open>
  A node changes only with its version; once it is no longer a draft the one change left is the publication of an accepted
  node, which leaves its content.
\<close>

definition node_evolves :: "DraftTaskNode \<Rightarrow> DraftTaskNode \<Rightarrow> bool" where
  "node_evolves n n' \<longleftrightarrow> n' = n \<or>
     same_identity n n' \<and> dn_version n < dn_version n'
     \<and> (dn_status n = Draft
        \<or> dn_status n = Accepted
          \<and> n' = n\<lparr>dn_status := Published, dn_version := dn_version n', dn_updated_at := dn_updated_at n'\<rparr>)"

lemma node_evolves_refl [simp]: "node_evolves n n"
  by (simp add: node_evolves_def)

lemma node_evolves_published:
  "node_evolves n n' \<Longrightarrow> dn_status n \<in> {Published, Cancelled} \<Longrightarrow> n' = n"
  by (auto simp: node_evolves_def)

lemma node_evolves_identity: "node_evolves n n' \<Longrightarrow> same_identity n n' \<and> dn_version n \<le> dn_version n'"
  by (auto simp: node_evolves_def same_identity_def)

lemma node_evolves_trans: assumes "node_evolves n m" "node_evolves m l" shows "node_evolves n l"
proof (cases "m = n \<or> l = m")
  case True
  then show ?thesis using assms by auto
next
  case False
  then have strict: "same_identity n l" "dn_version n < dn_version l"
    using assms by (auto simp: node_evolves_def same_identity_def)
  have "dn_status n = Draft"
  proof (rule ccontr)
    assume "dn_status n \<noteq> Draft"
    then have "m = n\<lparr>dn_status := Published, dn_version := dn_version m, dn_updated_at := dn_updated_at m\<rparr>"
      using assms(1) False by (auto simp: node_evolves_def)
    then have "dn_status m = Published" by (metis DraftTaskNode.select_convs(14) DraftTaskNode.surjective DraftTaskNode.update_convs(14,15,18))
    then show False using node_evolves_published [OF assms(2)] False by simp
  qed
  with strict show ?thesis by (simp add: node_evolves_def)
qed

definition tree_evolves :: "DraftTaskTree \<Rightarrow> DraftTaskTree \<Rightarrow> bool" where
  "tree_evolves t t' \<longleftrightarrow> dt_session_id t' = dt_session_id t \<and> dt_draft_tree_id t' = dt_draft_tree_id t
     \<and> dt_version t \<le> dt_version t'"

definition store_evolves :: "InMemoryDraftTaskStore \<Rightarrow> InMemoryDraftTaskStore \<Rightarrow> bool" where
  "store_evolves st st' \<longleftrightarrow> store_inv st'
     \<and> (\<forall>k n. dict_get (ds_nodes st) k = Some n \<longrightarrow>
          (\<exists>n'. dict_get (ds_nodes st') k = Some n' \<and> node_evolves n n'))
     \<and> (\<forall>k t. dict_get (ds_trees st) k = Some t \<longrightarrow>
          (\<exists>t'. dict_get (ds_trees st') k = Some t' \<and> tree_evolves t t'))"

lemma store_evolves_refl [simp]: "store_inv st \<Longrightarrow> store_evolves st st"
  by (simp add: store_evolves_def tree_evolves_def)

lemma store_inv_ok: "store_inv st \<Longrightarrow> dict_ok (ds_nodes st)"
  by (simp add: store_inv_def)

lemma store_inv_key:
  "store_inv st \<Longrightarrow> dict_get (ds_nodes st) k = Some n \<Longrightarrow> k = (dn_session_id n, dn_draft_task_id n)"
  unfolding store_inv_def by blast

lemma store_evolves_nodeE:
  assumes "store_evolves st st'" "dict_get (ds_nodes st) k = Some n"
  obtains n' where "dict_get (ds_nodes st') k = Some n'" "node_evolves n n'"
  using assms unfolding store_evolves_def by blast

lemma store_evolves_treeE:
  assumes "store_evolves st st'" "dict_get (ds_trees st) k = Some t"
  obtains t' where "dict_get (ds_trees st') k = Some t'" "tree_evolves t t'"
  using assms unfolding store_evolves_def by blast

lemma store_evolves_trans [trans]:
  assumes ab: "store_evolves a b" and bc: "store_evolves b c"
  shows "store_evolves a c"
  unfolding store_evolves_def
proof (intro conjI allI impI)
  show "store_inv c" using bc by (simp add: store_evolves_def)
  show "\<exists>n'. dict_get (ds_nodes c) k = Some n' \<and> node_evolves n n'" if n: "dict_get (ds_nodes a) k = Some n" for k n
  proof -
    obtain m where m: "dict_get (ds_nodes b) k = Some m" "node_evolves n m" using store_evolves_nodeE [OF ab n] .
    obtain l where "dict_get (ds_nodes c) k = Some l" "node_evolves m l" using store_evolves_nodeE [OF bc m(1)] .
    with m(2) node_evolves_trans show ?thesis by blast
  qed
  show "\<exists>t'. dict_get (ds_trees c) k = Some t' \<and> tree_evolves t t'" if t: "dict_get (ds_trees a) k = Some t" for k t
  proof -
    obtain u where u: "dict_get (ds_trees b) k = Some u" "tree_evolves t u" using store_evolves_treeE [OF ab t] .
    obtain w where "dict_get (ds_trees c) k = Some w" "tree_evolves u w" using store_evolves_treeE [OF bc u(1)] .
    with u(2) show ?thesis by (auto simp: tree_evolves_def)
  qed
qed

lemma store_evolves_inv: "store_evolves st st' \<Longrightarrow> store_inv st'"
  by (simp add: store_evolves_def)

subsection \<open>The writes\<close>

lemma put_node_fields [simp]:
  "ds_nodes (put_node st k n) = dict_set (ds_nodes st) k n" "ds_trees (put_node st k n) = ds_trees st"
  "ds_nodes (put_node_tree st k i) = ds_nodes st" "ds_trees (put_node_tree st k i) = ds_trees st"
  "ds_mappings_by_draft (put_node st k n) = ds_mappings_by_draft st"
  "ds_mappings_by_task (put_node st k n) = ds_mappings_by_task st"
  by (simp_all add: put_node_def put_node_tree_def)

lemma put_node_evolves:
  assumes "store_inv st" "k = (dn_session_id n', dn_draft_task_id n')"
    and "\<And>n. dict_get (ds_nodes st) k = Some n \<Longrightarrow> node_evolves n n'"
  shows "store_evolves st (put_node st k n')"
  using assms by (auto simp: store_evolves_def store_inv_def tree_evolves_def)

text \<open>What does not touch nodes and trees.\<close>

lemma store_evolves_same:
  assumes "store_evolves st st'" "ds_nodes st'' = ds_nodes st'" "ds_trees st'' = ds_trees st'"
  shows "store_evolves st st''"
  using assms(1) unfolding store_evolves_def store_inv_def assms(2,3) .

lemma record_mappings_fields [simp]:
  "ds_nodes (record_mappings sid ms st) = ds_nodes st" "ds_trees (record_mappings sid ms st) = ds_trees st"
  by (induction ms arbitrary: st) auto

lemma bump_tree_nodes [simp]: "ds_nodes (snd (bump_tree st sid tid now)) = ds_nodes st"
  by (simp add: bump_tree_def Let_def split: option.splits sum.splits)

lemma bump_tree_evolves:
  assumes "store_inv st"
  shows "store_evolves st (snd (bump_tree st sid tid now))"
  using assms
  by (auto simp: bump_tree_def Let_def store_evolves_def store_inv_def tree_evolves_def
      dest!: DraftTaskTree_validate_cases split: option.splits sum.splits)

lemma bump_and_return_snd [simp]:
  "snd (bump_and_return st sid tid now x) = snd (bump_tree st sid tid now)"
  by (simp add: bump_and_return_def split: prod.splits sum.splits)

lemma bump_and_return_ok [simp]:
  "is_ok (fst (bump_and_return st sid tid now x)) \<longleftrightarrow> is_ok (fst (bump_tree st sid tid now))"
  by (simp add: bump_and_return_def split: prod.splits sum.splits)

lemma load_nodes_trees [simp]: "ds_trees (snd (load_nodes tid ns st)) = ds_trees st"
  by (induction tid ns st rule: load_nodes.induct) (auto simp: Let_def)

lemma load_nodes_evolves: "store_inv st \<Longrightarrow> store_evolves st (snd (load_nodes tid ns st))"
proof (induction tid ns st rule: load_nodes.induct)
  case (2 tid n ns st)
  let ?k = "(dn_session_id n, dn_draft_task_id n)"
  show ?case
  proof (cases "dict_get (ds_nodes st) ?k")
    case None
    let ?st = "put_node_tree (put_node st ?k n) ?k tid"
    have put: "store_evolves st ?st"
      by (rule store_evolves_same [OF put_node_evolves]) (use 2 None in auto)
    then have "store_evolves ?st (snd (load_nodes tid ns ?st))"
      using 2 None store_evolves_inv by blast
    with put have "store_evolves st (snd (load_nodes tid ns ?st))" by (rule store_evolves_trans)
    with None show ?thesis by (simp add: Let_def)
  qed (use 2 in simp)
qed simp

lemma load_tree_evolves: "store_inv st \<Longrightarrow> store_evolves st (snd (load_tree st tree))"
proof -
  assume inv: "store_inv st"
  let ?k = "(dt_session_id tree, dt_draft_tree_id tree)"
  let ?st = "st\<lparr>ds_trees := dict_set (ds_trees st) ?k tree\<rparr>"
  have "store_evolves st (snd (load_nodes (dt_draft_tree_id tree) (dt_root_nodes tree) ?st))"
    if "dict_get (ds_trees st) ?k = None"
  proof -
    have "store_evolves st ?st"
      using inv that by (auto simp: store_evolves_def store_inv_def tree_evolves_def)
    also have "store_evolves ?st (snd (load_nodes (dt_draft_tree_id tree) (dt_root_nodes tree) ?st))"
      by (rule load_nodes_evolves) (use inv in \<open>simp add: store_inv_def\<close>)
    finally show ?thesis .
  qed
  then show ?thesis using inv by (auto simp: load_tree_def Let_def)
qed

subsection \<open>The operations\<close>

lemma get_node_inv:
  "store_inv st \<Longrightarrow> get_node st sid nid = Some n \<longleftrightarrow> dict_get (ds_nodes st) (sid, nid) = Some n"
  using store_inv_key [of st "(sid, nid)"]
  by (cases "dict_get (ds_nodes st) (sid, nid)") (auto simp: get_node_def)

lemma sort_nodes_set [simp]: "set (sort_nodes ns) = set ns" "distinct (map f (sort_nodes ns)) = distinct (map f ns)"
  by (simp_all add: sort_nodes_def distinct_map)

text \<open>The nodes of a tree, with their places in the store.\<close>

lemma list_nodes_stored:
  assumes "store_inv st" "list_nodes st sid tid = Inr ns"
  shows "distinct (map dn_draft_task_id ns)"
    and "n \<in> set ns \<longleftrightarrow> in_tree sid tid n \<and> dict_get (ds_nodes st) (sid, dn_draft_task_id n) = Some n"
proof -
  note ok = store_inv_ok [OF assms(1)] and key = store_inv_key [OF assms(1)]
  have ns: "ns = sort_nodes (filter (in_tree sid tid) (dict_values (ds_nodes st)))"
    using assms(2) by (auto simp: list_nodes_def elim: map_ok_InrE)
  define vs where "vs = dict_values (ds_nodes st)"
  have entry: "k = (dn_session_id m, dn_draft_task_id m)" if "(k, m) \<in> set (ds_nodes st)" for k m
    using ok key that by simp
  have "map fst (ds_nodes st) = map (\<lambda>n. (dn_session_id n, dn_draft_task_id n)) (dict_values (ds_nodes st))"
    using entry by auto
  then have "distinct (map (\<lambda>n. (dn_session_id n, dn_draft_task_id n)) (dict_values (ds_nodes st)))"
    using ok by (simp only:)
  then have "distinct (map (\<lambda>n. (dn_session_id n, dn_draft_task_id n)) (filter (in_tree sid tid) vs))"
    unfolding vs_def [symmetric] by (rule distinct_map_filter)
  then have "distinct (map dn_draft_task_id (filter (in_tree sid tid) vs))"
    by (auto simp: distinct_map inj_on_def in_tree_def)
  then show "distinct (map dn_draft_task_id ns)" by (simp add: ns vs_def)
  have "m \<in> set (dict_values (ds_nodes st)) \<longleftrightarrow> dict_get (ds_nodes st) (dn_session_id m, dn_draft_task_id m) = Some m" for m
  proof
    assume "m \<in> set (dict_values (ds_nodes st))"
    then obtain k where k: "dict_get (ds_nodes st) k = Some m" unfolding dict_values_mem [OF ok] by (rule exE)
    from key [OF k] k show "dict_get (ds_nodes st) (dn_session_id m, dn_draft_task_id m) = Some m" by simp
  qed (rule dict_get_mem)
  then show "n \<in> set ns \<longleftrightarrow> in_tree sid tid n \<and> dict_get (ds_nodes st) (sid, dn_draft_task_id n) = Some n"
    by (auto simp: ns in_tree_def)
qed

text \<open>The loop over nodes evolves each of them once.\<close>

lemma set_statuses_evolves:
  assumes "store_inv st" "distinct (map dn_draft_task_id ns)"
    and "\<And>n. n \<in> set ns \<Longrightarrow> dict_get (ds_nodes st) (sid, dn_draft_task_id n) = Some n"
    and "\<And>n. n \<in> set ns \<Longrightarrow> dn_status n = Draft \<or> dn_status n = Accepted \<and> s = Published"
  shows "store_evolves st (snd (set_statuses s sid clock ns st))"
  using assms
proof (induction s sid clock ns st rule: set_statuses.induct)
  case (2 s sid clock n ns st)
  let ?n = "n\<lparr>dn_status := s, dn_version := dn_version n + 1, dn_updated_at := clock 0\<rparr>"
  let ?st = "put_node st (sid, dn_draft_task_id n) ?n"
  show ?case
  proof (cases "DraftTaskNode_validate ?n")
    case (Inr m)
    then have m: "m = ?n" using DraftTaskNode_validate_cases by blast
    have stored: "dict_get (ds_nodes st) (sid, dn_draft_task_id n) = Some n" using 2 by simp
    then have sid: "sid = dn_session_id n" using store_inv_key [OF "2.prems"(1) stored] by simp
    have "node_evolves n ?n"
      using "2.prems"(4) [of n] by (auto simp: node_evolves_def same_identity_def)
    then have put: "store_evolves st ?st"
      by (intro put_node_evolves) (use "2.prems"(1) stored in \<open>auto simp: sid\<close>)
    have "store_evolves ?st (snd (set_statuses s sid (\<lambda>k. clock (Suc k)) ns ?st))"
    proof (rule "2.IH" [OF Inr, unfolded m])
      show "store_inv ?st" using put by (rule store_evolves_inv)
      show "dict_get (ds_nodes ?st) (sid, dn_draft_task_id l) = Some l" if "l \<in> set ns" for l
        using "2.prems"(2,3) that by (auto simp: image_iff)
    qed (use "2.prems" in auto)
    with put have "store_evolves st (snd (set_statuses s sid (\<lambda>k. clock (Suc k)) ns ?st))"
      by (rule store_evolves_trans)
    then show ?thesis by (simp add: Inr m)
  qed (use 2 in simp)
qed simp

lemma set_statuses_trees [simp]: "ds_trees (snd (set_statuses s sid clock ns st)) = ds_trees st"
  by (induction s sid clock ns st rule: set_statuses.induct) (auto split: sum.splits)

lemma set_statuses_listed:
  assumes "store_inv st" "list_nodes st sid tid = Inr nodes"
    and "\<And>n. n \<in> set nodes \<Longrightarrow> P n \<Longrightarrow> dn_status n = Draft \<or> dn_status n = Accepted \<and> s = Published"
  shows "store_evolves st (snd (set_statuses s sid clock (filter P nodes) st))"
proof (rule set_statuses_evolves [OF assms(1)])
  show "distinct (map dn_draft_task_id (filter P nodes))"
    using list_nodes_stored(1) [OF assms(1,2)] by (rule distinct_map_filter)
  show "dict_get (ds_nodes st) (sid, dn_draft_task_id n) = Some n" if "n \<in> set (filter P nodes)" for n
    using that list_nodes_stored(2) [OF assms(1,2)] by auto
qed (use assms(3) in simp)

lemma create_tree_evolves: "store_inv st \<Longrightarrow> store_evolves st (snd (create_tree st sid roots title summary tid clock))"
  using load_tree_evolves by (auto simp: create_tree_def split: sum.splits prod.splits) (metis snd_conv)+

lemma add_node_evolves:
  assumes "store_inv st"
  shows "store_evolves st (snd (add_node st sid tid node e clock))"
proof -
  let ?k = "(sid, dn_draft_task_id node)"
  let ?n = "node\<lparr>dn_session_id := sid, dn_draft_tree_id := tid, dn_created_at := clock 0, dn_updated_at := clock 1\<rparr>"
  let ?st = "put_node_tree (put_node st ?k ?n) ?k tid"
  have "store_evolves st (snd (bump_tree ?st sid tid (clock 2)))" if "dict_get (ds_nodes st) ?k = None"
  proof -
    have "store_evolves st ?st"
      by (rule store_evolves_same [OF put_node_evolves]) (use assms that in auto)
    also have "store_evolves ?st (snd (bump_tree ?st sid tid (clock 2)))"
      by (rule bump_tree_evolves) (rule store_evolves_inv [OF calculation])
    finally show ?thesis .
  qed
  with assms show ?thesis
    by (auto simp: add_node_def Let_def elim!: bind_ok_InrE dest!: DraftTaskNode_validate_cases
        split: sum.splits if_splits)
qed

lemma patched_node_evolves:
  assumes "patched_node n patch now = Inr m" "dn_status n = Draft"
  shows "node_evolves n m" "dn_version m = dn_version n + 1"
  using assms by (auto simp: patched_node_def node_evolves_def same_identity_def
      elim!: bind_ok_InrE dest!: DraftTaskNode_validate_cases)

lemma update_node_evolves:
  assumes "store_inv st"
  shows "store_evolves st (snd (update_node st sid nid patch e clock))"
proof -
  have "store_evolves st (snd (bump_tree (put_node st (sid, nid) m) sid (dn_draft_tree_id n) (clock 1)))"
    if n: "get_node st sid nid = Some n" and m: "patched_node n patch (clock 0) = Inr m" and "dn_status n = Draft" for n m
  proof -
    have stored: "dict_get (ds_nodes st) (sid, nid) = Some n" using n get_node_inv [OF assms] by blast
    have ev: "node_evolves n m" using patched_node_evolves m \<open>dn_status n = Draft\<close> by blast
    have key: "(sid, nid) = (dn_session_id m, dn_draft_task_id m)"
      using store_inv_key [OF assms stored] node_evolves_identity [OF ev] by (simp add: same_identity_def)
    have "store_evolves st (put_node st (sid, nid) m)"
      by (rule put_node_evolves [OF assms key]) (use stored ev in simp)
    also have "store_evolves (put_node st (sid, nid) m)
        (snd (bump_tree (put_node st (sid, nid) m) sid (dn_draft_tree_id n) (clock 1)))"
      by (rule bump_tree_evolves) (rule store_evolves_inv [OF calculation])
    finally show ?thesis .
  qed
  with assms show ?thesis
    by (auto simp: update_node_def elim!: bind_ok_InrE split: option.splits sum.splits if_splits)
qed

lemma refuse_status_ok: "refuse_status bad message ns = Inr u \<longleftrightarrow> (\<forall>n \<in> set ns. \<not> bad n)"
  by (induction ns) auto

text \<open>The common end of \<open>mark_accepted\<close> and \<open>mark_published\<close>.\<close>

lemma statuses_then_bump:
  assumes "store_evolves st (snd (set_statuses s sid clock ns st))"
    and "set_statuses s sid clock ns st = (r, st')" "ds_nodes st'' = ds_nodes st'" "ds_trees st'' = ds_trees st'"
  shows "store_evolves st (snd (bump_tree st'' sid tid now))"
proof -
  have "store_evolves st st'" using assms(1) by (simp add: assms(2))
  then have "store_evolves st st''" using assms(3,4) by (rule store_evolves_same)
  moreover from this have "store_evolves st'' (snd (bump_tree st'' sid tid now))"
    by (intro bump_tree_evolves store_evolves_inv)
  ultimately show ?thesis by (rule store_evolves_trans)
qed

lemma mark_accepted_evolves:
  assumes "store_inv st"
  shows "store_evolves st (snd (mark_accepted st sid tid e clock))"
proof -
  let ?set = "\<lambda>nodes. set_statuses Accepted sid clock (filter (\<lambda>n. dn_status n = Draft) nodes) st"
  have ev: "store_evolves st (snd (?set nodes))" if "list_nodes st sid tid = Inr nodes" for nodes
    by (rule set_statuses_listed [OF assms that]) simp
  show ?thesis
    using assms ev statuses_then_bump [OF ev]
    by (auto simp: mark_accepted_def elim!: bind_ok_InrE map_ok_InrE split: sum.splits prod.splits)
qed

lemma mark_published_evolves:
  assumes "store_inv st"
  shows "store_evolves st (snd (mark_published st sid tid ms e clock))"
proof -
  let ?set = "\<lambda>nodes. set_statuses Published sid clock (filter (\<lambda>n. dn_status n \<noteq> Published) nodes) st"
  have ev: "store_evolves st (snd (?set nodes))"
    if "list_nodes st sid tid = Inr nodes" "\<forall>n \<in> set nodes. dn_status n \<noteq> Cancelled" for nodes
  proof (rule set_statuses_listed [OF assms that(1)])
    show "dn_status n = Draft \<or> dn_status n = Accepted \<and> Published = Published"
      if "n \<in> set nodes" "dn_status n \<noteq> Published" for n
      using that \<open>\<forall>n \<in> set nodes. dn_status n \<noteq> Cancelled\<close> by (cases "dn_status n") auto
  qed
  show ?thesis
    using assms ev statuses_then_bump [OF ev]
    by (auto simp: mark_published_def refuse_status_ok elim!: bind_ok_InrE map_ok_InrE split: sum.splits prod.splits)
qed

section \<open>Calls of the draft store\<close>

datatype draft_op =
    Create_tree string "DraftTaskNode list" "string option" "string option" string "nat \<Rightarrow> datetime"
  | Add_node string string DraftTaskNode int "nat \<Rightarrow> datetime"
  | Update_node string string TaskNodePatch int "nat \<Rightarrow> datetime"
  | Mark_accepted string string int "nat \<Rightarrow> datetime"
  | Mark_published string string "DraftToPublishedMapping list" "int option" "nat \<Rightarrow> datetime"

text \<open>A call with the value it returns left out.\<close>

definition answered :: "'a result \<times> 'st \<Rightarrow> unit result \<times> 'st" where
  "answered p = (map_ok (\<lambda>_. ()) (fst p), snd p)"

lemma answered_simps [simp]: "snd (answered p) = snd p" "is_ok (fst (answered p)) = is_ok (fst p)"
  by (simp_all add: answered_def map_ok_def is_ok_def split: sum.splits)

fun draft_run :: "draft_op \<Rightarrow> InMemoryDraftTaskStore \<Rightarrow> unit result \<times> InMemoryDraftTaskStore" where
  "draft_run (Create_tree sid roots title summary tid clock) st =
     answered (create_tree st sid roots title summary tid clock)"
| "draft_run (Add_node sid tid node e clock) st = answered (add_node st sid tid node e clock)"
| "draft_run (Update_node sid nid patch e clock) st = answered (update_node st sid nid patch e clock)"
| "draft_run (Mark_accepted sid tid e clock) st = answered (mark_accepted st sid tid e clock)"
| "draft_run (Mark_published sid tid ms e clock) st = answered (mark_published st sid tid ms e clock)"

lemma draft_run_evolves: "store_inv st \<Longrightarrow> store_evolves st (snd (draft_run op st))"
  by (cases op) (simp_all add: create_tree_evolves add_node_evolves update_node_evolves mark_accepted_evolves
      mark_published_evolves)

lemma draft_runs_evolve: "store_inv st \<Longrightarrow> store_evolves st (fold (\<lambda>op s. snd (draft_run op s)) ops st)"
proof (induction ops arbitrary: st)
  case (Cons op ops)
  have "store_evolves st (snd (draft_run op st))" using Cons.prems by (rule draft_run_evolves)
  also from this have "store_evolves (snd (draft_run op st)) (fold (\<lambda>op s. snd (draft_run op s)) ops (snd (draft_run op st)))"
    by (intro Cons.IH store_evolves_inv)
  finally show ?case by simp
qed simp

section \<open>The versions of trees and nodes\<close>

fun expects_tree :: "string \<times> string \<Rightarrow> draft_op \<Rightarrow> int option" where
  "expects_tree k (Add_node sid tid node e clock) = (if (sid, tid) = k then Some e else None)"
| "expects_tree k (Mark_accepted sid tid e clock) = (if (sid, tid) = k then Some e else None)"
| "expects_tree k (Mark_published sid tid ms e clock) = (if (sid, tid) = k then e else None)"
| "expects_tree k _ = None"

fun expects_node :: "string \<times> string \<Rightarrow> draft_op \<Rightarrow> int option" where
  "expects_node k (Update_node sid nid patch e clock) = (if (sid, nid) = k then Some e else None)"
| "expects_node k _ = None"

definition tree_version :: "string \<times> string \<Rightarrow> InMemoryDraftTaskStore \<Rightarrow> int option" where
  "tree_version k st = map_option dt_version (dict_get (ds_trees st) k)"

definition node_version :: "string \<times> string \<Rightarrow> InMemoryDraftTaskStore \<Rightarrow> int option" where
  "node_version k st = map_option dn_version (dict_get (ds_nodes st) k)"

text \<open>A bump that is accepted moves the tree by one version.\<close>

lemma bump_tree_ok:
  assumes "is_ok (fst (bump_tree st sid tid now))" "tree_version (sid, tid) st = Some v"
  shows "tree_version (sid, tid) (snd (bump_tree st sid tid now)) = Some (v + 1)"
  using assms by (auto simp: bump_tree_def Let_def tree_version_def dest!: DraftTaskTree_validate_cases
      split: option.splits sum.splits)

lemma get_tree_version: "get_tree st sid tid = Inr t \<longleftrightarrow> dict_get (ds_trees st) (sid, tid) = Some t"
  by (auto simp: get_tree_def split: option.splits)

lemma tree_version_cong: "ds_trees st' = ds_trees st \<Longrightarrow> tree_version k st' = tree_version k st"
  by (simp add: tree_version_def)

lemma add_node_moves_tree:
  assumes "is_ok (fst (add_node st sid tid node e clock))"
  shows "tree_version (sid, tid) st = Some e"
    and "tree_version (sid, tid) (snd (add_node st sid tid node e clock)) = Some (e + 1)"
proof -
  let ?k = "(sid, dn_draft_task_id node)"
  obtain t n where t: "get_tree st sid tid = Inr t" "dt_version t = e"
    and run: "add_node st sid tid node e clock = bump_and_return (put_node_tree (put_node st ?k n) ?k tid) sid tid (clock 2) n"
    using assms by (auto simp: add_node_def Let_def elim!: bind_ok_InrE split: sum.splits)
  show v: "tree_version (sid, tid) st = Some e" using t by (simp add: get_tree_version tree_version_def)
  show "tree_version (sid, tid) (snd (add_node st sid tid node e clock)) = Some (e + 1)"
    using assms v bump_tree_ok [of "put_node_tree (put_node st ?k n) ?k tid" sid tid "clock 2" e]
    by (simp add: run tree_version_def)
qed

lemma mark_accepted_moves_tree:
  assumes "is_ok (fst (mark_accepted st sid tid e clock))"
  shows "tree_version (sid, tid) st = Some e"
    and "tree_version (sid, tid) (snd (mark_accepted st sid tid e clock)) = Some (e + 1)"
proof -
  obtain t ns c st' where t: "get_tree st sid tid = Inr t" "dt_version t = e"
    and s: "set_statuses Accepted sid clock ns st = (Inr c, st')"
    and run: "mark_accepted st sid tid e clock = bump_tree st' sid tid (c 0)"
    using assms by (auto simp: mark_accepted_def elim!: bind_ok_InrE map_ok_InrE split: sum.splits prod.splits)
  show v: "tree_version (sid, tid) st = Some e" using t by (simp add: get_tree_version tree_version_def)
  have "ds_trees st' = ds_trees st" using set_statuses_trees [of Accepted sid clock ns st] s by simp
  then show "tree_version (sid, tid) (snd (mark_accepted st sid tid e clock)) = Some (e + 1)"
    using assms v bump_tree_ok [of st' sid tid "c 0" e] by (simp add: run tree_version_def)
qed

lemma mark_published_moves_tree:
  assumes "is_ok (fst (mark_published st sid tid ms (Some e) clock))"
  shows "tree_version (sid, tid) st = Some e"
    and "tree_version (sid, tid) (snd (mark_published st sid tid ms (Some e) clock)) = Some (e + 1)"
proof -
  obtain t ns c st' where t: "get_tree st sid tid = Inr t" "dt_version t = e"
    and s: "set_statuses Published sid clock ns st = (Inr c, st')"
    and run: "mark_published st sid tid ms (Some e) clock = bump_tree (record_mappings sid ms st') sid tid (c 0)"
    using assms by (auto simp: mark_published_def elim!: bind_ok_InrE map_ok_InrE split: sum.splits prod.splits)
  show v: "tree_version (sid, tid) st = Some e" using t by (simp add: get_tree_version tree_version_def)
  have "ds_trees st' = ds_trees st" using set_statuses_trees [of Published sid clock ns st] s by simp
  then show "tree_version (sid, tid) (snd (mark_published st sid tid ms (Some e) clock)) = Some (e + 1)"
    using assms v bump_tree_ok [of "record_mappings sid ms st'" sid tid "c 0" e] by (simp add: run tree_version_def)
qed

lemma update_node_moves_node:
  assumes "store_inv st" "is_ok (fst (update_node st sid nid patch e clock))"
  shows "node_version (sid, nid) st = Some e"
    and "node_version (sid, nid) (snd (update_node st sid nid patch e clock)) = Some (e + 1)"
proof -
  obtain n m where n: "get_node st sid nid = Some n" "dn_version n = e" "dn_status n = Draft"
    and m: "patched_node n patch (clock 0) = Inr m"
    and run: "update_node st sid nid patch e clock =
       bump_and_return (put_node st (sid, nid) m) sid (dn_draft_tree_id n) (clock 1) m"
    using assms(2) by (auto simp: update_node_def elim!: bind_ok_InrE split: option.splits sum.splits if_splits)
  show "node_version (sid, nid) st = Some e"
    using n get_node_inv [OF assms(1)] by (simp add: node_version_def)
  show "node_version (sid, nid) (snd (update_node st sid nid patch e clock)) = Some (e + 1)"
    using n patched_node_evolves(2) [OF m] by (simp add: run node_version_def)
qed

lemma evolves_tree_version:
  "store_evolves st st' \<Longrightarrow> tree_version k st = Some v \<Longrightarrow> \<exists>w. tree_version k st' = Some w \<and> v \<le> w"
  by (auto simp: tree_version_def tree_evolves_def elim!: store_evolves_treeE)

lemma evolves_node_version:
  "store_evolves st st' \<Longrightarrow> node_version k st = Some v \<Longrightarrow> \<exists>w. node_version k st' = Some w \<and> v \<le> w"
  by (auto simp: node_version_def elim!: store_evolves_nodeE dest!: node_evolves_identity)

interpretation draft_tree: versioned_object store_inv draft_run "expects_tree k" "tree_version k" for k
proof
  fix st op e v
  assume inv: "store_inv st"
  show "store_inv (snd (draft_run op st))" using draft_run_evolves [OF inv] by (rule store_evolves_inv)
  show "\<exists>w. tree_version k (snd (draft_run op st)) = Some w \<and> v \<le> w" if "tree_version k st = Some v"
    using draft_run_evolves [OF inv] that by (rule evolves_tree_version)
  assume ok: "is_ok (fst (draft_run op st))" "expects_tree k op = Some e"
  show "tree_version k st = Some e"
    using ok add_node_moves_tree(1) mark_accepted_moves_tree(1) mark_published_moves_tree(1)
    by (cases op) (auto split: if_splits)
  show "tree_version k (snd (draft_run op st)) = Some (e + 1)"
    using ok add_node_moves_tree(2) mark_accepted_moves_tree(2) mark_published_moves_tree(2)
    by (cases op) (auto split: if_splits)
qed

interpretation draft_node: versioned_object store_inv draft_run "expects_node k" "node_version k" for k
proof
  fix st op e v
  assume inv: "store_inv st"
  show "store_inv (snd (draft_run op st))" using draft_run_evolves [OF inv] by (rule store_evolves_inv)
  show "\<exists>w. node_version k (snd (draft_run op st)) = Some w \<and> v \<le> w" if "node_version k st = Some v"
    using draft_run_evolves [OF inv] that by (rule evolves_node_version)
  assume ok: "is_ok (fst (draft_run op st))" "expects_node k op = Some e"
  show "node_version k st = Some e"
    using ok update_node_moves_node(1) [OF inv] by (cases op) (auto split: if_splits)
  show "node_version k (snd (draft_run op st)) = Some (e + 1)"
    using ok update_node_moves_node(2) [OF inv] by (cases op) (auto split: if_splits)
qed

section \<open>Raw task versions\<close>

datatype raw_op = Raw_create RawTask | Raw_save RawTask int datetime

fun raw_run :: "raw_op \<Rightarrow> InMemoryRawTaskStore \<Rightarrow> unit result \<times> InMemoryRawTaskStore" where
  "raw_run (Raw_create r) st = answered (raw_create st r)"
| "raw_run (Raw_save r e now) st = answered (raw_save st r e now)"

fun expects_raw :: "string \<times> string \<Rightarrow> raw_op \<Rightarrow> int option" where
  "expects_raw k (Raw_save r e now) = (if (rt_session_id r, rt_raw_task_id r) = k then Some e else None)"
| "expects_raw k (Raw_create r) = None"

definition raw_version :: "string \<times> string \<Rightarrow> InMemoryRawTaskStore \<Rightarrow> int option" where
  "raw_version k st = map_option rt_version (dict_get st k)"

lemma RawTask_validate_cases: "RawTask_validate r = Inr r' \<Longrightarrow> r' = r"
  by (auto simp: RawTask_validate_def split: if_splits)

interpretation raw_task: versioned_object "\<lambda>_. True" raw_run "expects_raw k" "raw_version k" for k
proof
  fix st :: InMemoryRawTaskStore and op e v
  show "\<exists>w. raw_version k (snd (raw_run op st)) = Some w \<and> v \<le> w" if "raw_version k st = Some v"
    using that by (cases op) (auto simp: raw_version_def raw_create_def raw_save_def Let_def
        dest!: RawTask_validate_cases split: option.splits sum.splits)
  assume ok: "is_ok (fst (raw_run op st))" "expects_raw k op = Some e"
  then obtain r now where op: "op = Raw_save r e now" "k = (rt_session_id r, rt_raw_task_id r)"
    by (cases op) (auto split: if_splits)
  then show "raw_version k st = Some e" "raw_version k (snd (raw_run op st)) = Some (e + 1)"
    using ok(1) by (auto simp: raw_version_def raw_save_def Let_def dest!: RawTask_validate_cases
        split: option.splits sum.splits)
qed simp

section \<open>A tree whose roots clash\<close>

definition tree_stuck :: "InMemoryDraftTaskStore \<Rightarrow> string \<times> string \<Rightarrow> bool" where
  "tree_stuck st k \<longleftrightarrow> (\<exists>i j n m. i \<noteq> j \<and> dict_get (ds_nodes st) i = Some n \<and> dict_get (ds_nodes st) j = Some m
     \<and> in_tree (fst k) (snd k) n \<and> in_tree (fst k) (snd k) m \<and> dn_parent_draft_task_id n = None
     \<and> dn_parent_draft_task_id m = None \<and> dn_order_index n = dn_order_index m)"

lemma tree_stuck_evolves:
  assumes "store_evolves st st'" "tree_stuck st k"
  shows "tree_stuck st' k"
proof -
  obtain i j n m where stuck: "i \<noteq> j" "dict_get (ds_nodes st) i = Some n" "dict_get (ds_nodes st) j = Some m"
    "in_tree (fst k) (snd k) n" "in_tree (fst k) (snd k) m" "dn_parent_draft_task_id n = None"
    "dn_parent_draft_task_id m = None" "dn_order_index n = dn_order_index m"
    using assms(2) unfolding tree_stuck_def by blast
  obtain n' where n': "dict_get (ds_nodes st') i = Some n'" "node_evolves n n'"
    using store_evolves_nodeE [OF assms(1) stuck(2)] .
  obtain m' where m': "dict_get (ds_nodes st') j = Some m'" "node_evolves m m'"
    using store_evolves_nodeE [OF assms(1) stuck(3)] .
  show ?thesis
    unfolding tree_stuck_def
    by (rule exI [of _ i], rule exI [of _ j], rule exI [of _ n'], rule exI [of _ m'])
       (use stuck n' m' in \<open>auto simp: in_tree_def same_identity_def dest!: node_evolves_identity\<close>)
qed

lemma bump_tree_not_stuck:
  assumes "store_inv st" "is_ok (fst (bump_tree st sid tid now))"
  shows "\<not> tree_stuck (snd (bump_tree st sid tid now)) (sid, tid)"
proof
  let ?roots = "filter (\<lambda>n. in_tree sid tid n \<and> dn_parent_draft_task_id n = None) (dict_values (ds_nodes st))"
  assume "tree_stuck (snd (bump_tree st sid tid now)) (sid, tid)"
  then obtain i j n m where stuck: "i \<noteq> j" "dict_get (ds_nodes st) i = Some n" "dict_get (ds_nodes st) j = Some m"
    "in_tree sid tid n" "in_tree sid tid m" "dn_parent_draft_task_id n = None"
    "dn_parent_draft_task_id m = None" "dn_order_index n = dn_order_index m"
    unfolding tree_stuck_def fst_conv snd_conv bump_tree_nodes by blast
  have "distinct (map dn_order_index (sort_nodes ?roots))"
    using assms(2) by (auto simp: bump_tree_def Let_def DraftTaskTree_valid_iff
        dest!: DraftTaskTree_validate_cases split: option.splits sum.splits)
  then have inj: "inj_on dn_order_index (set ?roots)" unfolding sort_nodes_set distinct_map by blast
  have "n \<in> set ?roots" "m \<in> set ?roots"
    using stuck dict_get_mem [OF stuck(2)] dict_get_mem [OF stuck(3)] by simp_all
  with inj stuck(8) have "n = m" by (meson inj_onD)
  with stuck(1-3) store_inv_key [OF assms(1)] show False by metis
qed

text \<open>The calls that end by bumping a tree.\<close>

fun touches_tree :: "InMemoryDraftTaskStore \<Rightarrow> string \<times> string \<Rightarrow> draft_op \<Rightarrow> bool" where
  "touches_tree st k (Add_node sid tid node e clock) = ((sid, tid) = k)"
| "touches_tree st k (Mark_accepted sid tid e clock) = ((sid, tid) = k)"
| "touches_tree st k (Mark_published sid tid ms e clock) = ((sid, tid) = k)"
| "touches_tree st k (Update_node sid nid patch e clock) =
     (case get_node st sid nid of None \<Rightarrow> False | Some n \<Rightarrow> (sid, dn_draft_tree_id n) = k)"
| "touches_tree st k (Create_tree sid roots title summary tid clock) = False"

text \<open>An accepted call of this kind ran its bump last.\<close>

lemma touches_tree_bumps:
  assumes "is_ok (fst (draft_run op st))" "touches_tree st k op"
  obtains st' now where "snd (draft_run op st) = snd (bump_tree st' (fst k) (snd k) now)"
    "is_ok (fst (bump_tree st' (fst k) (snd k) now))"
  using assms
  by (cases op)
     (auto simp: add_node_def update_node_def mark_accepted_def mark_published_def Let_def
      split: sum.splits option.splits if_splits prod.splits)

lemma stuck_tree_refuses:
  assumes "store_inv st" "tree_stuck st k" "touches_tree st k op"
  shows "\<not> is_ok (fst (draft_run op st))"
proof
  assume "is_ok (fst (draft_run op st))"
  then obtain st' now where bump: "snd (draft_run op st) = snd (bump_tree st' (fst k) (snd k) now)"
    "is_ok (fst (bump_tree st' (fst k) (snd k) now))"
    using touches_tree_bumps assms(3) by blast
  have ev: "store_evolves st (snd (draft_run op st))" using assms(1) by (rule draft_run_evolves)
  have "ds_nodes st' = ds_nodes (snd (draft_run op st))" by (simp add: bump(1))
  then have "store_inv st'" using store_evolves_inv [OF ev] by (simp add: store_inv_def)
  then have "\<not> tree_stuck (snd (draft_run op st)) k" using bump bump_tree_not_stuck by (metis prod.collapse)
  then show False using tree_stuck_evolves [OF ev assms(2)] by contradiction
qed

text \<open>Adding a root whose \<open>order_index\<close> is taken: the node is stored before the bump raises.\<close>

lemma add_clashing_root:
  assumes "store_inv st" "get_tree st sid tid = Inr t" "dt_version t = e"
    and "get_node st sid i = Some m" "dn_draft_tree_id m = tid" "dn_parent_draft_task_id m = None"
    and "dict_get (ds_nodes st) (sid, dn_draft_task_id node) = None" "dn_parent_draft_task_id node = None"
    and "dn_order_index node = dn_order_index m"
    and "n = node\<lparr>dn_session_id := sid, dn_draft_tree_id := tid, dn_created_at := clock 0, dn_updated_at := clock 1\<rparr>"
    and "DraftTaskNode_valid n"
  shows "get_node (snd (add_node st sid tid node e clock)) sid (dn_draft_task_id node) = Some n"
    and "tree_stuck (snd (add_node st sid tid node e clock)) (sid, tid)"
    and "fst (add_node st sid tid node e clock) = Inl (ValidationError (Msg ''DraftTaskTree'' []))"
proof -
  let ?k = "(sid, dn_draft_task_id node)"
  let ?st = "put_node_tree (put_node st ?k n) ?k tid"
  have m: "dict_get (ds_nodes st) (sid, i) = Some m" using assms(1,4) get_node_inv by blast
  have run: "add_node st sid tid node e clock = bump_and_return ?st sid tid (clock 2) n"
    using assms by (simp add: add_node_def check_parent_def DraftTaskNode_validate_valid Let_def)
  show "get_node (snd (add_node st sid tid node e clock)) sid (dn_draft_task_id node) = Some n"
    by (simp add: run get_node_def assms(10))
  have other: "i \<noteq> dn_draft_task_id node" using m assms(7) by auto
  have nodes: "ds_nodes (snd (add_node st sid tid node e clock)) = dict_set (ds_nodes st) ?k n" by (simp add: run)
  show stuck: "tree_stuck (snd (add_node st sid tid node e clock)) (sid, tid)"
    unfolding tree_stuck_def nodes
    by (rule exI [of _ "(sid, i)"], rule exI [of _ ?k], rule exI [of _ m], rule exI [of _ n])
       (use other assms m store_inv_key [OF assms(1) m] in \<open>auto simp: in_tree_def\<close>)
  have "store_inv (snd (add_node st sid tid node e clock))"
    using store_evolves_inv [OF add_node_evolves [OF assms(1)]] .
  then have "store_inv ?st" unfolding store_inv_def nodes put_node_fields .
  then have "\<not> is_ok (fst (bump_tree ?st sid tid (clock 2)))"
    using bump_tree_not_stuck stuck by (auto simp: run)
  moreover have "dict_get (ds_trees ?st) (sid, tid) = Some t" using assms(2) by (simp add: get_tree_version)
  ultimately show "fst (add_node st sid tid node e clock) = Inl (ValidationError (Msg ''DraftTaskTree'' []))"
    by (auto simp: run bump_and_return_def bump_tree_def Let_def DraftTaskTree_validate_def split: if_splits)
qed

section \<open>Properties\<close>

definition draft_store_after :: "draft_op list \<Rightarrow> InMemoryDraftTaskStore \<Rightarrow> InMemoryDraftTaskStore" where
  "draft_store_after ops st = fold (\<lambda>op s. snd (draft_run op s)) ops st"

lemma store_inv_empty [simp]: "store_inv empty_store"
  by (simp add: store_inv_def empty_store_def)

lemma draft_store_after_evolves: "store_inv st \<Longrightarrow> store_evolves st (draft_store_after ops st)"
  unfolding draft_store_after_def by (rule draft_runs_evolve)

lemma draft_store_after_inv: "store_inv st \<Longrightarrow> store_inv (draft_store_after ops st)"
  using draft_store_after_evolves store_evolves_inv by blast

text \<open>C33. Optimistic locking loses no update: in any sequence of calls on the authoring stores the expected versions of the
  accepted updates of one tree, of one node and of one raw task strictly increase, so no two of them were made against the
  same version.
\<close>

theorem accepted_updates_never_share_version:
  "sorted_wrt (<) (accepted_versions draft_run (expects_tree tree) empty_store ops)
   \<and> sorted_wrt (<) (accepted_versions draft_run (expects_node node) empty_store ops)
   \<and> sorted_wrt (<) (accepted_versions raw_run (expects_raw raw) [] raw_ops)"
  by (simp add: draft_tree.accepted_increase draft_node.accepted_increase raw_task.accepted_increase)

text \<open>A one-node tree, accepted, for the examples.\<close>

definition sample_draft :: "string \<Rightarrow> DraftTaskNode" where
  "sample_draft i = \<lparr>dn_draft_task_id = i, dn_session_id = ''s'', dn_draft_tree_id = ''t'', dn_parent_draft_task_id = None,
     dn_order_index = 0, dn_title = ''T'', dn_intent = ''do'', dn_summary = None, dn_instructions = None,
     dn_acceptance_criteria = [], dn_required_capability = ''c'', dn_constraints = [], dn_rationale = None,
     dn_status = Draft, dn_version = 1, dn_created_by = ''u'', dn_created_at = sample_time 0,
     dn_updated_at = sample_time 0\<rparr>"

definition sample_draft_ops :: "draft_op list" where
  "sample_draft_ops =
     [Create_tree ''s'' [sample_draft ''a''] None None ''t'' (\<lambda>_. sample_time 0), Mark_accepted ''s'' ''t'' 1 (\<lambda>_. sample_time 1)]"

definition sample_accepted :: DraftTaskNode where
  "sample_accepted = (sample_draft ''a'')\<lparr>dn_status := Accepted, dn_version := 2, dn_updated_at := sample_time 1\<rparr>"

lemma sample_store:
  "get_node (draft_store_after sample_draft_ops empty_store) ''s'' ''a'' = Some sample_accepted"
  "get_node (draft_store_after sample_draft_ops empty_store) ''s'' ''b'' = None"
  "map_ok dt_version (get_tree (draft_store_after sample_draft_ops empty_store) ''s'' ''t'') = Inr 2"
  by code_simp+

text \<open>C34. A draft task that is no longer a draft is settled: whatever calls follow, it stays stored with its content, and the one
  change left is the publication of an accepted node.
\<close>

theorem settled_node_keeps_content:
  assumes "get_node (draft_store_after ops empty_store) sid nid = Some n" "dn_status n \<noteq> Draft"
  shows "\<exists>n'. get_node (draft_store_after later (draft_store_after ops empty_store)) sid nid = Some n'
    \<and> (n' = n \<or> dn_status n = Accepted \<and> dn_version n < dn_version n'
         \<and> n' = n\<lparr>dn_status := Published, dn_version := dn_version n', dn_updated_at := dn_updated_at n'\<rparr>)"
proof -
  let ?st = "draft_store_after ops empty_store"
  have inv: "store_inv ?st" by (simp add: draft_store_after_inv)
  then have "dict_get (ds_nodes ?st) (sid, nid) = Some n" using assms(1) get_node_inv by blast
  then obtain n' where n': "dict_get (ds_nodes (draft_store_after later ?st)) (sid, nid) = Some n'" "node_evolves n n'"
    by (rule store_evolves_nodeE [OF draft_store_after_evolves [OF inv]])
  then have "get_node (draft_store_after later ?st) sid nid = Some n'"
    using get_node_inv draft_store_after_inv inv by blast
  with n'(2) assms(2) show ?thesis by (auto simp: node_evolves_def)
qed

theorem settled_node_keeps_content_witness:
  "\<exists>n'. get_node (draft_store_after [Mark_published ''s'' ''t'' [] None (\<lambda>_. sample_time 2)]
           (draft_store_after sample_draft_ops empty_store)) ''s'' ''a'' = Some n'
     \<and> (n' = sample_accepted \<or> dn_status sample_accepted = Accepted \<and> dn_version sample_accepted < dn_version n'
         \<and> n' = sample_accepted\<lparr>dn_status := Published, dn_version := dn_version n', dn_updated_at := dn_updated_at n'\<rparr>)"
  by (rule settled_node_keeps_content [OF sample_store(1)]) (simp add: sample_accepted_def)

text \<open>Adding a root whose order index another root of the tree has raises \<open>ValidationError\<close>, but only after the node was
  stored. From then on every call that changes the tree (adding or editing a node, accepting, publishing) raises, whatever
  happens in between: the tree can never be published.
\<close>

theorem clashing_root_blocks_tree:
  assumes "get_tree (draft_store_after ops empty_store) sid tid = Inr t"
    and "get_node (draft_store_after ops empty_store) sid i = Some m"
    and "dn_draft_tree_id m = tid" "dn_parent_draft_task_id m = None"
    and "get_node (draft_store_after ops empty_store) sid (dn_draft_task_id node) = None"
    and "dn_parent_draft_task_id node = None" "dn_order_index node = dn_order_index m"
    and "DraftTaskNode_valid (node\<lparr>dn_session_id := sid, dn_draft_tree_id := tid,
           dn_created_at := clock 0, dn_updated_at := clock 1\<rparr>)"
  shows "case add_node (draft_store_after ops empty_store) sid tid node (dt_version t) clock of
    (r, st') \<Rightarrow> r = Inl (ValidationError (Msg ''DraftTaskTree'' []))
      \<and> get_node st' sid (dn_draft_task_id node) \<noteq> None
      \<and> (\<forall>later op. touches_tree (draft_store_after later st') (sid, tid) op \<longrightarrow>
           \<not> is_ok (fst (draft_run op (draft_store_after later st'))))"
proof -
  let ?st = "draft_store_after ops empty_store"
  let ?st' = "snd (add_node ?st sid tid node (dt_version t) clock)"
  have inv: "store_inv ?st" by (simp add: draft_store_after_inv)
  have fresh: "dict_get (ds_nodes ?st) (sid, dn_draft_task_id node) = None"
    using assms(5) get_node_inv [OF inv, of sid "dn_draft_task_id node"]
    by (cases "dict_get (ds_nodes ?st) (sid, dn_draft_task_id node)") auto
  note clash = add_clashing_root [OF inv assms(1) refl assms(2-4) fresh assms(6,7) refl assms(8)]
  have inv': "store_inv ?st'" using add_node_evolves [OF inv] by (rule store_evolves_inv)
  have "\<not> is_ok (fst (draft_run op (draft_store_after later ?st')))"
    if "touches_tree (draft_store_after later ?st') (sid, tid) op" for later op
    using draft_store_after_inv [OF inv'] tree_stuck_evolves [OF draft_store_after_evolves [OF inv'] clash(2)] that
    by (rule stuck_tree_refuses)
  with clash(1,3) show ?thesis by (auto simp: split_beta)
qed

theorem clashing_root_blocks_tree_witness:
  "case add_node (draft_store_after sample_draft_ops empty_store) ''s'' ''t'' (sample_draft ''b'') 2 (\<lambda>_. sample_time 2) of
    (r, st') \<Rightarrow> r = Inl (ValidationError (Msg ''DraftTaskTree'' []))
      \<and> get_node st' ''s'' (dn_draft_task_id (sample_draft ''b'')) \<noteq> None
      \<and> (\<forall>later op. touches_tree (draft_store_after later st') (''s'', ''t'') op \<longrightarrow>
           \<not> is_ok (fst (draft_run op (draft_store_after later st'))))"
proof -
  obtain t where t: "get_tree (draft_store_after sample_draft_ops empty_store) ''s'' ''t'' = Inr t" "2 = dt_version t"
    using sample_store(3) by (rule map_ok_InrE)
  have valid: "DraftTaskNode_valid (sample_draft ''b''\<lparr>dn_session_id := ''s'', dn_draft_tree_id := ''t'',
      dn_created_at := sample_time 2, dn_updated_at := sample_time 2\<rparr>)"
    by (simp add: DraftTaskNode_valid_iff DraftTaskNode_fields_ok_def sample_draft_def)
  show ?thesis
    unfolding t(2)
    by (rule clashing_root_blocks_tree [OF t(1) sample_store(1) _ _ _ _ _ valid])
       (simp_all add: sample_accepted_def sample_draft_def sample_store(2))
qed

end
