(* ===== verification/Draft_Publish.thy ===== *)
theory Draft_Publish
  imports Draft_Evolution Publish_Tree
begin

text \<open>
  \<open>publish_draft_tree\<close> of \<^verbatim>\<open>task/publisher.py\<close>: from the nodes of a stored draft tree to a normalized tree, and from the
  published tasks to the mappings. The recursion over the parent pointers is studied under the locale \<open>draft_forest\<close>.
\<close>

section \<open>From draft nodes to a normalized tree\<close>

text \<open>
  \<open>children.get(p, ())\<close> of the dictionary \<open>_normalized_roots_from_draft\<close> groups the nodes in by parent, in list order.
\<close>

definition children_of :: "DraftTaskNode list \<Rightarrow> string option \<Rightarrow> DraftTaskNode list" where
  "children_of nodes p = filter (\<lambda>n. dn_parent_draft_task_id n = p) nodes"

definition sorted_children :: "DraftTaskNode list \<Rightarrow> DraftTaskNode \<Rightarrow> DraftTaskNode list" where
  "sorted_children nodes n =
     sort_key (\<lambda>c. (dn_order_index c, dn_created_at c, dn_draft_task_id c))
       (children_of nodes (Some (dn_draft_task_id n)))"

definition draft_fields :: "DraftTaskNode \<Rightarrow> node_fields" where
  "draft_fields n = \<lparr>nf_node_id = dn_draft_task_id n, nf_parent_id = dn_parent_draft_task_id n,
     nf_title = dn_title n, nf_intent = dn_intent n, nf_summary = dn_summary n, nf_instructions = dn_instructions n,
     nf_acceptance_criteria = dn_acceptance_criteria n, nf_required_capability = dn_required_capability n,
     nf_agent_ref = None,
     nf_metadata = [(''draft_task_id'', JStr (dn_draft_task_id n)), (''draft_tree_id'', JStr (dn_draft_tree_id n))]\<rparr>"

text \<open>Constructing a \<open>NormalizedTaskNode\<close>.\<close>

definition NormalizedTaskNode_validate :: "NormalizedTaskNode \<Rightarrow> NormalizedTaskNode result" where
  "NormalizedTaskNode_validate n =
     (if node_fields_ok n then Inr n else Inl (ValidationError (Msg ''NormalizedTaskNode'' [])))"

text \<open>
  The recursion \<open>_normalized_from_draft\<close>. The first argument bounds the depth; beyond it Python's own limit would raise. The
  bound used below is the number of nodes, which no branch of a tree exceeds.
\<close>

fun normalized_from_draft :: "nat \<Rightarrow> DraftTaskNode list \<Rightarrow> DraftTaskNode \<Rightarrow> NormalizedTaskNode result" where
  "normalized_from_draft 0 nodes n = Inl (RecursionError (Msg ''maximum recursion depth exceeded'' []))"
| "normalized_from_draft (Suc d) nodes n =
     bind_ok (those_ok (map (normalized_from_draft d nodes) (sorted_children nodes n))) (\<lambda>children.
       NormalizedTaskNode_validate (NormalizedTaskNode (draft_fields n) children))"

definition normalized_roots_from_draft :: "DraftTaskNode list \<Rightarrow> NormalizedTaskNode list result" where
  "normalized_roots_from_draft nodes =
     those_ok (map (normalized_from_draft (length nodes) nodes) (children_of nodes None))"

section \<open>Publishing a draft tree\<close>

definition node_task_ids :: "(json \<Rightarrow> string) \<Rightarrow> PublishResult \<Rightarrow> (string, string) dict result" where
  "node_task_ids py_repr res =
     (case map_of (pb_metadata res) ''node_task_ids'' of
        None \<Rightarrow> Inr []
      | Some (JObj kvs) \<Rightarrow> Inr (map (\<lambda>(k, v). (k, py_str py_repr v)) kvs)
      | Some _ \<Rightarrow> Inl (ValueError (Msg ''publish result metadata missing node_task_ids'' [])))"

definition collaborator_publisher :: PublisherRef where
  "collaborator_publisher = \<lparr>pr_kind = Pub_collaborator, pr_actor_id = Some ''collaborator'', pr_name = None\<rparr>"

definition draft_request :: "string \<Rightarrow> string \<Rightarrow> string \<Rightarrow> NormalizedTaskTree \<Rightarrow> PublishRequest" where
  "draft_request request_id session_id draft_tree_id tree =
     \<lparr>rq_request_id = request_id, rq_session_id = session_id, rq_publisher = collaborator_publisher,
      rq_source = \<lparr>ps_source_type = Src_draft_tree, ps_source_id = Some draft_tree_id, ps_metadata = []\<rparr>,
      rq_task_tree = Some tree, rq_natural_language_input = None,
      rq_options = \<lparr>po_dry_run = False, po_require_confirmation = True, po_allow_pipeline = True,
        po_source_label = None, po_failure_policy = Fail_all\<rparr>,
      rq_idempotency_key = None\<rparr>"

definition draft_tree_source :: "string \<Rightarrow> NormalizedTaskNode list \<Rightarrow> NormalizedTaskTree" where
  "draft_tree_source draft_tree_id roots =
     \<lparr>tt_root_nodes = roots, tt_source = collaborator_publisher, tt_source_ref = Some draft_tree_id,
      tt_metadata = [(''draft_tree_id'', JStr draft_tree_id)]\<rparr>"

definition draft_mapping ::
  "string \<Rightarrow> string \<Rightarrow> (string, string) dict \<Rightarrow> string \<Rightarrow> datetime \<Rightarrow> DraftTaskNode \<Rightarrow> DraftToPublishedMapping result" where
  "draft_mapping session_id draft_tree_id ids command_id now n =
     bind_ok (dict_item ids (dn_draft_task_id n)) (\<lambda>task_id.
       DraftToPublishedMapping_validate \<lparr>dm_session_id = session_id, dm_draft_tree_id = draft_tree_id,
         dm_draft_task_id = dn_draft_task_id n, dm_task_id = task_id, dm_published_at = now,
         dm_publish_command_id = command_id\<rparr>)"

text \<open>
  What the publisher draws from outside: \<open>uuid5\<close>, the task and request identifiers of \<open>uuid4\<close>, the readings of the clock for
  the tasks, the result and the mappings, and \<open>repr\<close>.
\<close>

record publish_env =
  pe_uuid5 :: "string \<Rightarrow> string"
  pe_fresh :: "nat \<Rightarrow> string"
  pe_request_id :: string
  pe_clock :: "nat \<Rightarrow> datetime"
  pe_now :: datetime
  pe_mapping_clock :: "nat \<Rightarrow> datetime"
  pe_repr :: "json \<Rightarrow> string"

definition rejected_result :: "string list \<Rightarrow> TaskPublishResult" where
  "rejected_result ids = \<lparr>tp_root_task_ids = [], tp_mappings = [], tp_rejected_task_ids = ids\<rparr>"

definition publish_draft_nodes ::
  "publish_env \<Rightarrow> InMemoryTaskBus \<Rightarrow> string \<Rightarrow> string \<Rightarrow> DraftTaskNode list
     \<Rightarrow> TaskPublishResult result \<times> InMemoryTaskBus" where
  "publish_draft_nodes env b session_id draft_tree_id nodes =
     (case bind_ok (normalized_roots_from_draft nodes) (\<lambda>roots.
           bind_ok (NormalizedTaskTree_validate (draft_tree_source draft_tree_id roots)) (\<lambda>tree.
           PublishRequest_validate (draft_request (pe_request_id env) session_id draft_tree_id tree))) of
        Inl e \<Rightarrow> (Inl e, b)
      | Inr request \<Rightarrow>
          (case publish_request (pe_uuid5 env) (pe_fresh env) (pe_clock env) (pe_now env) b request of
             (Inl e, b') \<Rightarrow> (Inl e, b')
           | (Inr res, b') \<Rightarrow>
               if pb_skipped res then (Inr (rejected_result (map dn_draft_task_id nodes)), b')
               else (bind_ok (node_task_ids (pe_repr env) res) (\<lambda>ids.
                     map_ok (\<lambda>ms. \<lparr>tp_root_task_ids = pb_root_task_ids res, tp_mappings = ms, tp_rejected_task_ids = []\<rparr>)
                       (those_ok (map (\<lambda>(k, n). draft_mapping session_id draft_tree_id ids (pb_request_id res)
                          (pe_mapping_clock env k) n) (enumerate 0 nodes)))), b')))"

definition publish_draft_tree ::
  "publish_env \<Rightarrow> InMemoryTaskBus \<Rightarrow> InMemoryDraftTaskStore option \<Rightarrow> string \<Rightarrow> string
     \<Rightarrow> TaskPublishResult result \<times> InMemoryTaskBus" where
  "publish_draft_tree env b draft_store session_id draft_tree_id =
     (case draft_store of
        None \<Rightarrow> (Inl (ValueError (Msg ''draft store is not configured'' [])), b)
      | Some st \<Rightarrow>
          (case list_nodes st session_id draft_tree_id of
             Inl e \<Rightarrow> (Inl e, b)
           | Inr nodes \<Rightarrow>
               if nodes = [] then (Inr (rejected_result [draft_tree_id]), b)
               else publish_draft_nodes env b session_id draft_tree_id nodes))"

section \<open>The tree under the parent pointers\<close>

text \<open>The nodes under a node in the order the recursion meets them.\<close>

fun below :: "nat \<Rightarrow> DraftTaskNode list \<Rightarrow> DraftTaskNode \<Rightarrow> DraftTaskNode list" where
  "below 0 nodes n = []"
| "below (Suc d) nodes n = n # concat (map (below d nodes) (sorted_children nodes n))"

lemma sorted_children_mem [simp]:
  "c \<in> set (sorted_children nodes n) \<longleftrightarrow> c \<in> set nodes \<and> dn_parent_draft_task_id c = Some (dn_draft_task_id n)"
  by (auto simp: sorted_children_def children_of_def)

lemma sorted_children_distinct: "distinct nodes \<Longrightarrow> distinct (sorted_children nodes n)"
  by (simp add: sorted_children_def children_of_def)

text \<open>
  What the recursion needs of the nodes of a tree: distinct identifiers, and parents that are among the nodes and come earlier
  in some order of them.
\<close>

locale draft_forest =
  fixes nodes :: "DraftTaskNode list" and rank :: "DraftTaskNode \<Rightarrow> nat"
  assumes distinct_ids: "distinct (map dn_draft_task_id nodes)"
    and rank_bound: "n \<in> set nodes \<Longrightarrow> rank n < length nodes"
    and parent_earlier: "\<lbrakk>n \<in> set nodes; dn_parent_draft_task_id n = Some p\<rbrakk> \<Longrightarrow>
          \<exists>q \<in> set nodes. dn_draft_task_id q = p \<and> rank q < rank n"
begin

definition up :: "(DraftTaskNode \<times> DraftTaskNode) set" where
  "up = {(m, n). m \<in> set nodes \<and> n \<in> set nodes \<and> dn_parent_draft_task_id m = Some (dn_draft_task_id n)}"

lemma same_id: "\<lbrakk>m \<in> set nodes; n \<in> set nodes; dn_draft_task_id m = dn_draft_task_id n\<rbrakk> \<Longrightarrow> m = n"
  using distinct_ids by (meson distinct_map inj_onD)

lemma up_single_valued: "single_valued up"
  unfolding up_def single_valued_def using same_id by fastforce

lemma up_rank: "(m, n) \<in> up \<Longrightarrow> rank n < rank m"
proof -
  assume up: "(m, n) \<in> up"
  then obtain q where q: "q \<in> set nodes" "dn_draft_task_id q = dn_draft_task_id n" "rank q < rank m"
    using parent_earlier by (auto simp: up_def)
  with up same_id have "q = n" by (auto simp: up_def)
  with q show ?thesis by simp
qed

lemma up_rank_le: "(m, n) \<in> up\<^sup>* \<Longrightarrow> rank n \<le> rank m"
  by (induction rule: rtrancl_induct) (auto dest: up_rank)

text \<open>Two nodes with the same parent, or without one, share no node below them.\<close>

lemma up_sibling:
  assumes "(c, e) \<in> up\<^sup>*" "c \<in> set nodes" "e \<in> set nodes" "dn_parent_draft_task_id c = dn_parent_draft_task_id e"
  shows "c = e"
proof (rule ccontr)
  assume "c \<noteq> e"
  then obtain x where x: "(c, x) \<in> up" "(x, e) \<in> up\<^sup>*" using assms(1) by (meson converse_rtranclE)
  then have "(e, x) \<in> up" using assms by (auto simp: up_def)
  then show False using up_rank up_rank_le [OF x(2)] by fastforce
qed

lemma siblings_disjoint:
  assumes "(m, c) \<in> up\<^sup>*" "(m, e) \<in> up\<^sup>*" "c \<in> set nodes" "e \<in> set nodes"
    and "dn_parent_draft_task_id c = dn_parent_draft_task_id e"
  shows "c = e"
  using single_valued_confluent [OF up_single_valued assms(1,2)] up_sibling assms by metis

lemma below_up: "n \<in> set nodes \<Longrightarrow> m \<in> set (below d nodes n) \<Longrightarrow> m \<in> set nodes \<and> (m, n) \<in> up\<^sup>*"
proof (induction d arbitrary: n)
  case (Suc d)
  show ?case
  proof (cases "m = n")
    case False
    then obtain c where c: "c \<in> set nodes" "dn_parent_draft_task_id c = Some (dn_draft_task_id n)"
      "m \<in> set (below d nodes c)" using Suc.prems(2) by auto
    with Suc.prems(1) have "(c, n) \<in> up" by (simp add: up_def)
    with Suc.IH [OF c(1,3)] show ?thesis by (meson rtrancl.rtrancl_into_rtrancl)
  qed (use Suc in simp)
qed simp

lemma concat_below_distinct:
  assumes "distinct cs" "\<And>c. c \<in> set cs \<Longrightarrow> c \<in> set nodes \<and> distinct (below d nodes c)"
    and "\<And>c. c \<in> set cs \<Longrightarrow> dn_parent_draft_task_id c = p"
  shows "distinct (concat (map (below d nodes) cs))"
  using assms
proof (induction cs)
  case (Cons c cs)
  have disj: "set (below d nodes c) \<inter> set (below d nodes e) = {}" if "e \<in> set cs" for e
  proof (rule ccontr)
    assume "set (below d nodes c) \<inter> set (below d nodes e) \<noteq> {}"
    then obtain m where m: "m \<in> set (below d nodes c)" "m \<in> set (below d nodes e)" by blast
    have mem: "c \<in> set nodes" "e \<in> set nodes"
      using Cons.prems(2) [of c] Cons.prems(2) [of e] that by simp_all
    have parents: "dn_parent_draft_task_id c = dn_parent_draft_task_id e"
      using Cons.prems(3) that by simp
    have "c = e"
      using below_up [OF mem(1) m(1)] below_up [OF mem(2) m(2)] by (intro siblings_disjoint [OF _ _ mem parents]) auto
    with that Cons.prems(1) show False by simp
  qed
  have rest: "distinct (concat (map (below d nodes) cs))"
    by (rule Cons.IH) (use Cons.prems in simp_all)
  moreover have "distinct (below d nodes c)" using Cons.prems(2) [of c] by simp
  moreover have "set (below d nodes c) \<inter> set (concat (map (below d nodes) cs)) = {}" using disj by auto
  ultimately show ?case by simp
qed simp

lemma nodes_distinct: "distinct nodes"
  using distinct_ids by (simp add: distinct_map)

lemma below_distinct: "n \<in> set nodes \<Longrightarrow> distinct (below d nodes n)"
proof (induction d arbitrary: n)
  case (Suc d)
  have "n \<notin> set (below d nodes c)" if c: "c \<in> set (sorted_children nodes n)" for c
  proof
    assume "n \<in> set (below d nodes c)"
    then have "rank c \<le> rank n" using below_up up_rank_le c by auto
    moreover have "rank n < rank c" using c Suc.prems by (intro up_rank) (simp add: up_def)
    ultimately show False by simp
  qed
  moreover have "distinct (concat (map (below d nodes) (sorted_children nodes n)))"
    by (rule concat_below_distinct) (use Suc nodes_distinct sorted_children_distinct in auto)
  ultimately show ?case by auto
qed simp

text \<open>With a bound that covers the ranks left, everything below a node is met.\<close>

lemma below_complete:
  "\<lbrakk>(m, n) \<in> up\<^sup>*; n \<in> set nodes; m \<in> set nodes; length nodes \<le> d + rank n\<rbrakk> \<Longrightarrow> m \<in> set (below d nodes n)"
proof (induction d arbitrary: n)
  case 0
  then show ?case using rank_bound [of n] by simp
next
  case (Suc d)
  show ?case
  proof (cases "m = n")
    case False
    then obtain c where c: "(m, c) \<in> up\<^sup>*" "(c, n) \<in> up" using Suc.prems(1) by (meson rtranclE)
    then have "m \<in> set (below d nodes c)"
      using Suc.IH [OF c(1)] Suc.prems(3,4) up_rank [OF c(2)] by (auto simp: up_def)
    with c(2) show ?thesis by (auto simp: up_def)
  qed simp
qed

lemma reaches_root: "n \<in> set nodes \<Longrightarrow> \<exists>r \<in> set (children_of nodes None). (n, r) \<in> up\<^sup>*"
proof (induction "rank n" arbitrary: n rule: less_induct)
  case less
  show ?case
  proof (cases "dn_parent_draft_task_id n")
    case None
    with less.prems show ?thesis by (auto simp: children_of_def)
  next
    case (Some p)
    then obtain q where q: "q \<in> set nodes" "dn_draft_task_id q = p" "rank q < rank n"
      using parent_earlier less.prems by blast
    with Some less.prems have "(n, q) \<in> up" by (simp add: up_def)
    with less.hyps [OF q(3,1)] show ?thesis by (meson converse_rtrancl_into_rtrancl)
  qed
qed

definition walk :: "DraftTaskNode list" where
  "walk = concat (map (below (length nodes) nodes) (children_of nodes None))"

lemma walk_distinct: "distinct walk"
  unfolding walk_def
  by (rule concat_below_distinct) (use nodes_distinct below_distinct in \<open>auto simp: children_of_def\<close>)

lemma walk_set: "set walk = set nodes"
proof
  show "set walk \<subseteq> set nodes" unfolding walk_def using below_up by (auto simp: children_of_def)
  show "set nodes \<subseteq> set walk"
  proof
    fix n assume n: "n \<in> set nodes"
    then obtain r where r: "r \<in> set (children_of nodes None)" "(n, r) \<in> up\<^sup>*" using reaches_root by blast
    then have "n \<in> set (below (length nodes) nodes r)"
      using below_complete n by (auto simp: children_of_def)
    with r(1) show "n \<in> set walk" by (auto simp: walk_def)
  qed
qed

end

section \<open>The normalized tree\<close>

lemma those_ok_all2:
  "\<forall>c \<in> set cs. \<exists>t. f c = Inr t \<and> P c t \<Longrightarrow> \<exists>ts. those_ok (map f cs) = Inr ts \<and> list_all2 P cs ts"
proof (induction cs)
  case (Cons c cs)
  obtain t where t: "f c = Inr t" "P c t" using Cons.prems by auto
  obtain ts where "those_ok (map f cs) = Inr ts" "list_all2 P cs ts" using Cons.IH Cons.prems by auto
  with t show ?case by auto
qed simp

lemma concat_all2:
  "list_all2 (\<lambda>c t. map g (h t) = map e (k c)) cs ts \<Longrightarrow> map g (concat (map h ts)) = map e (concat (map k cs))"
  by (induction rule: list_all2_induct) auto

lemma list_all2_right: "list_all2 (\<lambda>c t. P t) cs ts \<Longrightarrow> \<forall>t \<in> set ts. P t"
  by (induction rule: list_all2_induct) auto

text \<open>What the recursion makes of a node: itself and everything below it, with the children linked to their parent.\<close>

definition normal_form :: "nat \<Rightarrow> DraftTaskNode list \<Rightarrow> DraftTaskNode \<Rightarrow> NormalizedTaskNode \<Rightarrow> bool" where
  "normal_form d nodes n t \<longleftrightarrow> node_fields_of t = draft_fields n
     \<and> map node_fields_of (preorder t) = map draft_fields (below d nodes n)
     \<and> well_parented t \<and> (\<forall>m \<in> set (preorder t). node_fields_ok m)"

lemma draft_fields_ok: "DraftTaskNode_fields_ok n \<Longrightarrow> node_fields_ok (NormalizedTaskNode (draft_fields n) cs)"
  by (simp add: node_fields_ok_def draft_fields_def DraftTaskNode_fields_ok_def)

lemma draft_fields_simps [simp]:
  "nf_node_id (draft_fields n) = dn_draft_task_id n" "nf_parent_id (draft_fields n) = dn_parent_draft_task_id n"
  "nf_intent (draft_fields n) = dn_intent n" "nf_required_capability (draft_fields n) = dn_required_capability n"
  by (simp_all add: draft_fields_def)

locale valid_draft_forest = draft_forest +
  assumes fields_ok: "n \<in> set nodes \<Longrightarrow> DraftTaskNode_fields_ok n"
begin

lemma normalized_node:
  "\<lbrakk>n \<in> set nodes; length nodes \<le> d + rank n\<rbrakk> \<Longrightarrow>
     \<exists>t. normalized_from_draft d nodes n = Inr t \<and> normal_form d nodes n t"
proof (induction d arbitrary: n)
  case 0
  then show ?case using rank_bound [of n] by simp
next
  case (Suc d)
  have "\<exists>t. normalized_from_draft d nodes c = Inr t
      \<and> (normal_form d nodes c t \<and> parent_id t = Some (dn_draft_task_id n))"
    if c: "c \<in> set (sorted_children nodes n)" for c
  proof -
    have "(c, n) \<in> up" using c Suc.prems(1) by (simp add: up_def)
    then have "length nodes \<le> d + rank c" using up_rank Suc.prems(2) by fastforce
    then obtain t where "normalized_from_draft d nodes c = Inr t" "normal_form d nodes c t" using Suc.IH c by auto
    with c show ?thesis by (auto simp: normal_form_def)
  qed
  then have "\<forall>c \<in> set (sorted_children nodes n). \<exists>t. normalized_from_draft d nodes c = Inr t
      \<and> (normal_form d nodes c t \<and> parent_id t = Some (dn_draft_task_id n))" by blast
  from those_ok_all2 [OF this] obtain ts where
    ts: "those_ok (map (normalized_from_draft d nodes) (sorted_children nodes n)) = Inr ts"
    and nf: "list_all2 (\<lambda>c t. normal_form d nodes c t \<and> parent_id t = Some (dn_draft_task_id n)) (sorted_children nodes n) ts"
    by blast
  let ?t = "NormalizedTaskNode (draft_fields n) ts"
  have ok: "node_fields_ok ?t" using fields_ok Suc.prems(1) by (simp add: draft_fields_ok)
  have "map node_fields_of (concat (map preorder ts)) = map draft_fields (concat (map (below d nodes) (sorted_children nodes n)))"
    by (rule concat_all2, rule list_all2_mono [OF nf]) (simp add: normal_form_def)
  moreover have "\<forall>t \<in> set ts. parent_id t = Some (dn_draft_task_id n) \<and> well_parented t \<and> (\<forall>m \<in> set (preorder t). node_fields_ok m)"
    by (rule list_all2_right [where cs = "sorted_children nodes n"], rule list_all2_mono [OF nf])
       (unfold normal_form_def, blast)
  ultimately have "normal_form (Suc d) nodes n ?t" using ok by (auto simp: normal_form_def well_parented_node)
  moreover have "normalized_from_draft (Suc d) nodes n = Inr ?t"
    using ts ok by (simp add: NormalizedTaskNode_validate_def)
  ultimately show ?case by blast
qed

text \<open>The forest is normalized as a whole, into a tree whose nodes are the given ones.\<close>

lemma normalized_roots:
  obtains roots where "normalized_roots_from_draft nodes = Inr roots"
    and "map node_fields_of (concat (map preorder roots)) = map draft_fields walk"
    and "list_all2 (\<lambda>n t. node_fields_of t = draft_fields n) (children_of nodes None) roots"
    and "\<forall>t \<in> set roots. parent_id t = None \<and> well_parented t \<and> (\<forall>m \<in> set (preorder t). node_fields_ok m)"
proof -
  have "\<exists>t. normalized_from_draft (length nodes) nodes c = Inr t \<and> (normal_form (length nodes) nodes c t \<and> parent_id t = None)"
    if c: "c \<in> set (children_of nodes None)" for c
  proof -
    obtain t where "normalized_from_draft (length nodes) nodes c = Inr t" "normal_form (length nodes) nodes c t"
      using normalized_node [of c "length nodes"] c by (auto simp: children_of_def)
    with c show ?thesis by (auto simp: normal_form_def children_of_def)
  qed
  then have "\<forall>c \<in> set (children_of nodes None). \<exists>t. normalized_from_draft (length nodes) nodes c = Inr t
      \<and> (normal_form (length nodes) nodes c t \<and> parent_id t = None)" by blast
  from those_ok_all2 [OF this] obtain roots where
    roots: "normalized_roots_from_draft nodes = Inr roots"
    and nf: "list_all2 (\<lambda>c t. normal_form (length nodes) nodes c t \<and> parent_id t = None) (children_of nodes None) roots"
    unfolding normalized_roots_from_draft_def by blast
  show thesis
  proof (rule that [OF roots])
    show "map node_fields_of (concat (map preorder roots)) = map draft_fields walk"
      unfolding walk_def by (rule concat_all2, rule list_all2_mono [OF nf]) (simp add: normal_form_def)
    show "list_all2 (\<lambda>n t. node_fields_of t = draft_fields n) (children_of nodes None) roots"
      by (rule list_all2_mono [OF nf]) (simp add: normal_form_def)
    show "\<forall>t \<in> set roots. parent_id t = None \<and> well_parented t \<and> (\<forall>m \<in> set (preorder t). node_fields_ok m)"
      by (rule list_all2_right [where cs = "children_of nodes None"], rule list_all2_mono [OF nf])
         (unfold normal_form_def, blast)
  qed
qed

end

end
