(* ===== verification/Draft_Complete.thy ===== *)
theory Draft_Complete
  imports Draft_Publish
begin

text \<open>
  The trees of the draft store are forests, whatever calls built them, and publishing one of them is complete.
\<close>

section \<open>Stored trees are forests\<close>

text \<open>In the order of insertion a node comes after its parent, which is stored in the same tree.\<close>

definition parent_in :: "DraftTaskNode list \<Rightarrow> DraftTaskNode \<Rightarrow> bool" where
  "parent_in ns n \<longleftrightarrow> (\<forall>p. dn_parent_draft_task_id n = Some p \<longrightarrow>
     (\<exists>q \<in> set ns. dn_draft_task_id q = p \<and> in_tree (dn_session_id n) (dn_draft_tree_id n) q))"

definition parents_precede :: "DraftTaskNode list \<Rightarrow> bool" where
  "parents_precede ns \<longleftrightarrow> (\<forall>i < length ns. parent_in (take i ns) (ns ! i))"

lemma parents_precede_Nil [simp]: "parents_precede []"
  by (simp add: parents_precede_def)

lemma parents_precede_snoc [simp]: "parents_precede (ns @ [n]) \<longleftrightarrow> parents_precede ns \<and> parent_in ns n"
  by (auto simp: parents_precede_def less_Suc_eq nth_append)

lemma parent_in_filter: "parent_in ns n \<Longrightarrow> in_tree s t n \<Longrightarrow> parent_in (filter (in_tree s t) ns) n"
  by (auto simp: parent_in_def in_tree_def)

lemma parents_precede_filter: "parents_precede ns \<Longrightarrow> parents_precede (filter (in_tree s t) ns)"
  by (induction ns rule: rev_induct) (auto intro: parent_in_filter)

lemma parents_precede_map:
  assumes "\<And>n. n \<in> set ns \<Longrightarrow> Draft_Evolution.same_identity n (f n)" "parents_precede ns"
  shows "parents_precede (map f ns)"
  using assms
proof (induction ns rule: rev_induct)
  case (snoc n ns)
  have "parent_in (map f ns) (f n)"
    unfolding parent_in_def
  proof (intro allI impI)
    fix p assume "dn_parent_draft_task_id (f n) = Some p"
    moreover have n: "Draft_Evolution.same_identity n (f n)" using snoc.prems(1) by simp
    ultimately have "dn_parent_draft_task_id n = Some p" by (simp add: Draft_Evolution.same_identity_def)
    then obtain q where q: "q \<in> set ns" "dn_draft_task_id q = p" "in_tree (dn_session_id n) (dn_draft_tree_id n) q"
      using snoc.prems(2) by (auto simp: parent_in_def)
    then have "Draft_Evolution.same_identity q (f q)" using snoc.prems(1) by simp
    with q n show "\<exists>q \<in> set (map f ns). dn_draft_task_id q = p \<and> in_tree (dn_session_id (f n)) (dn_draft_tree_id (f n)) q"
      by (auto simp: Draft_Evolution.same_identity_def in_tree_def)
  qed
  with snoc show ?case by simp
qed simp

definition forest_inv :: "InMemoryDraftTaskStore \<Rightarrow> bool" where
  "forest_inv st \<longleftrightarrow> store_inv st \<and> parents_precede (dict_values (ds_nodes st))
     \<and> (\<forall>n \<in> set (dict_values (ds_nodes st)). DraftTaskNode_valid n)"

text \<open>The two ways a node is written.\<close>

lemma forest_put_fresh:
  assumes "forest_inv st" "dict_get (ds_nodes st) k = None" "k = (dn_session_id n, dn_draft_task_id n)"
    and "DraftTaskNode_valid n" "parent_in (dict_values (ds_nodes st)) n"
  shows "forest_inv (put_node st k n)"
proof -
  have "store_inv (put_node st k n)"
    using put_node_evolves [of st k n] assms store_evolves_inv by (simp add: forest_inv_def)
  with assms show ?thesis by (simp add: forest_inv_def dict_set_fresh)
qed

lemma forest_put_same:
  assumes "forest_inv st" "dict_get (ds_nodes st) k = Some m" "node_evolves m n" "DraftTaskNode_valid n"
  shows "forest_inv (put_node st k n)"
proof -
  have inv: "store_inv st" using assms(1) by (simp add: forest_inv_def)
  note ok = store_inv_ok [OF inv] and key = store_inv_key [OF inv assms(2)]
  note ident = node_evolves_identity [OF assms(3)]
  have "store_inv (put_node st k n)"
    using put_node_evolves [OF inv, of k n] assms(2,3) key ident store_evolves_inv by (auto simp: Draft_Evolution.same_identity_def)
  moreover have vals: "dict_values (dict_set (ds_nodes st) k n)
      = map (\<lambda>v. if (dn_session_id v, dn_draft_task_id v) = k then n else v) (dict_values (ds_nodes st))"
  proof -
    have "fst e = (dn_session_id (snd e), dn_draft_task_id (snd e))" if "e \<in> set (ds_nodes st)" for e
      using store_inv_key [OF inv] map_of_is_SomeI [OF ok] that by (cases e) auto
    then show ?thesis using dict_set_map [OF ok] assms(2) by (auto simp: comp_def)
  qed
  moreover have "parents_precede (dict_values (dict_set (ds_nodes st) k n))"
    unfolding vals
  proof (rule parents_precede_map)
    fix v assume v: "v \<in> set (dict_values (ds_nodes st))"
    then obtain k' where "dict_get (ds_nodes st) k' = Some v" unfolding dict_values_mem [OF ok] by (rule exE)
    with store_inv_key [OF inv] have "dict_get (ds_nodes st) (dn_session_id v, dn_draft_task_id v) = Some v" by simp
    then show "Draft_Evolution.same_identity v (if (dn_session_id v, dn_draft_task_id v) = k then n else v)"
      using assms(2) ident by (auto simp: Draft_Evolution.same_identity_def)
  qed (use assms(1) in \<open>simp add: forest_inv_def\<close>)
  ultimately show ?thesis using assms(1,4) by (auto simp: forest_inv_def)
qed

lemma forest_inv_cong: "ds_nodes st' = ds_nodes st \<Longrightarrow> forest_inv st' = forest_inv st"
  by (simp add: forest_inv_def store_inv_def)

lemma forest_bump [simp]: "forest_inv (snd (bump_tree st sid tid now)) = forest_inv st"
  by (rule forest_inv_cong) simp

lemma forest_store_inv: "forest_inv st \<Longrightarrow> store_inv st"
  by (simp add: forest_inv_def)

lemma forest_same_nodes [simp]:
  "forest_inv (put_node_tree st k i) = forest_inv st" "forest_inv (record_mappings sid ms st) = forest_inv st"
  by (rule forest_inv_cong, simp)+

lemma forest_load_nodes:
  "\<lbrakk>forest_inv st; \<forall>n \<in> set ns. DraftTaskNode_valid n \<and> dn_parent_draft_task_id n = None\<rbrakk> \<Longrightarrow>
     forest_inv (snd (load_nodes tid ns st))"
proof (induction tid ns st rule: load_nodes.induct)
  case (2 tid n ns st)
  let ?k = "(dn_session_id n, dn_draft_task_id n)"
  show ?case
  proof (cases "dict_get (ds_nodes st) ?k")
    case None
    have "forest_inv (put_node st ?k n)"
      using "2.prems" None by (intro forest_put_fresh) (auto simp: parent_in_def)
    then show ?thesis using 2 None by (simp add: Let_def)
  qed (use 2 in simp)
qed simp

lemma forest_load_tree: "\<lbrakk>forest_inv st; DraftTaskTree_valid t\<rbrakk> \<Longrightarrow> forest_inv (snd (load_tree st t))"
  unfolding load_tree_def Let_def DraftTaskTree_valid_iff
  by (auto intro!: forest_load_nodes simp: forest_inv_cong [of "st\<lparr>ds_trees := x\<rparr>" st for x])

lemma forest_create_tree:
  assumes "forest_inv st"
  shows "forest_inv (snd (create_tree st sid roots title summary tid clock))"
proof -
  have "forest_inv st'" if "DraftTaskTree_validate t = Inr tree" "load_tree st tree = (r, st')" for t tree r st'
    using forest_load_tree [OF assms, of tree] DraftTaskTree_validate_cases [OF that(1)] that(2) by simp
  with assms show ?thesis by (auto simp: create_tree_def elim!: bind_ok_InrE split: sum.splits prod.splits)
qed

lemma check_parent_in:
  assumes "store_inv st" "check_parent st sid tid (dn_parent_draft_task_id n) message = Inr u"
    and "dn_session_id n = sid" "dn_draft_tree_id n = tid"
  shows "parent_in (dict_values (ds_nodes st)) n"
  unfolding parent_in_def
proof (intro allI impI)
  fix p assume p: "dn_parent_draft_task_id n = Some p"
  then obtain q where q: "get_node st sid p = Some q" "dn_draft_tree_id q = tid"
    using assms(2) by (auto simp: check_parent_def split: option.splits if_splits)
  then have stored: "dict_get (ds_nodes st) (sid, p) = Some q" using get_node_inv [OF assms(1)] by simp
  from dict_get_mem [OF this] store_inv_key [OF assms(1) this] q(2) assms(3,4)
  show "\<exists>q \<in> set (dict_values (ds_nodes st)). dn_draft_task_id q = p \<and> in_tree (dn_session_id n) (dn_draft_tree_id n) q"
    by (intro bexI [of _ q]) (auto simp: in_tree_def)
qed

lemma forest_add_node:
  assumes "forest_inv st"
  shows "forest_inv (snd (add_node st sid tid node e clock))"
proof -
  let ?k = "(sid, dn_draft_task_id node)"
  let ?n = "node\<lparr>dn_session_id := sid, dn_draft_tree_id := tid, dn_created_at := clock 0, dn_updated_at := clock 1\<rparr>"
  have "forest_inv (put_node_tree (put_node st ?k ?n) ?k tid)"
    if "dict_get (ds_nodes st) ?k = None" "DraftTaskNode_valid ?n"
      "check_parent st sid tid (dn_parent_draft_task_id node) message = Inr u" for message u
  proof -
    have "forest_inv (put_node st ?k ?n)"
      using assms that check_parent_in [OF forest_store_inv [OF assms], of sid tid ?n message u]
      by (intro forest_put_fresh) simp_all
    then show ?thesis by simp
  qed
  with assms show ?thesis
    by (auto simp: add_node_def Let_def elim!: bind_ok_InrE dest!: DraftTaskNode_validate_cases
        split: sum.splits if_splits)
qed

lemma forest_update_node:
  assumes "forest_inv st"
  shows "forest_inv (snd (update_node st sid nid patch e clock))"
proof -
  have "forest_inv (put_node st (sid, nid) m)"
    if "get_node st sid nid = Some n" "patched_node n patch (clock 0) = Inr m" "dn_status n = Draft" for n m
  proof (rule forest_put_same [OF assms])
    show "dict_get (ds_nodes st) (sid, nid) = Some n" using that(1) get_node_inv [OF forest_store_inv [OF assms]] by blast
    show "node_evolves n m" using patched_node_evolves that by blast
    show "DraftTaskNode_valid m" using that(2)
      by (auto simp: patched_node_def elim!: bind_ok_InrE dest: DraftTaskNode_validate_cases)
  qed
  with assms show ?thesis
    by (auto simp: update_node_def elim!: bind_ok_InrE split: option.splits sum.splits if_splits)
qed

lemma forest_set_statuses:
  assumes "forest_inv st" "distinct (map dn_draft_task_id ns)"
    and "\<And>n. n \<in> set ns \<Longrightarrow> dict_get (ds_nodes st) (sid, dn_draft_task_id n) = Some n"
    and "\<And>n. n \<in> set ns \<Longrightarrow> dn_status n = Draft \<or> dn_status n = Accepted \<and> s = Published"
  shows "forest_inv (snd (set_statuses s sid clock ns st))"
  using assms
proof (induction s sid clock ns st rule: set_statuses.induct)
  case (2 s sid clock n ns st)
  let ?n = "n\<lparr>dn_status := s, dn_version := dn_version n + 1, dn_updated_at := clock 0\<rparr>"
  let ?st = "put_node st (sid, dn_draft_task_id n) ?n"
  show ?case
  proof (cases "DraftTaskNode_validate ?n")
    case (Inr m)
    then have m: "m = ?n" "DraftTaskNode_valid ?n" using DraftTaskNode_validate_cases by blast+
    have "node_evolves n ?n"
      using "2.prems"(4) [of n] by (auto simp: node_evolves_def Draft_Evolution.same_identity_def)
    then have put: "forest_inv ?st" using "2.prems"(1,3) m(2) by (intro forest_put_same) auto
    have "forest_inv (snd (set_statuses s sid (\<lambda>k. clock (Suc k)) ns ?st))"
    proof (rule "2.IH" [OF Inr, unfolded m(1)])
      show "forest_inv ?st" by (rule put)
      show "dict_get (ds_nodes ?st) (sid, dn_draft_task_id l) = Some l" if "l \<in> set ns" for l
        using "2.prems"(2,3) that by (auto simp: image_iff)
    qed (use "2.prems" in auto)
    then show ?thesis by (simp add: Inr m(1))
  qed (use 2 in simp)
qed simp

lemma forest_listed:
  assumes "forest_inv st" "list_nodes st sid tid = Inr nodes"
    and "\<And>n. n \<in> set nodes \<Longrightarrow> P n \<Longrightarrow> dn_status n = Draft \<or> dn_status n = Accepted \<and> s = Published"
    and "set_statuses s sid clock (filter P nodes) st = (r, st')"
  shows "forest_inv st'"
proof -
  note stored = list_nodes_stored [OF forest_store_inv [OF assms(1)] assms(2)]
  have "forest_inv (snd (set_statuses s sid clock (filter P nodes) st))"
  proof (rule forest_set_statuses [OF assms(1)])
    show "distinct (map dn_draft_task_id (filter P nodes))" using stored(1) by (rule distinct_map_filter)
    show "dict_get (ds_nodes st) (sid, dn_draft_task_id n) = Some n" if "n \<in> set (filter P nodes)" for n
      using that stored(2) by auto
  qed (use assms(3) in simp)
  then show ?thesis by (simp add: assms(4))
qed

lemma forest_mark_accepted:
  assumes "forest_inv st"
  shows "forest_inv (snd (mark_accepted st sid tid e clock))"
proof -
  have "forest_inv st'"
    if "list_nodes st sid tid = Inr nodes"
      "set_statuses Accepted sid clock (filter (\<lambda>n. dn_status n = Draft) nodes) st = (r, st')" for nodes r st'
    using assms that(1) _ that(2) by (rule forest_listed) simp
  with assms show ?thesis
    by (auto simp: mark_accepted_def elim!: bind_ok_InrE map_ok_InrE split: sum.splits prod.splits)
qed

lemma forest_mark_published:
  assumes "forest_inv st"
  shows "forest_inv (snd (mark_published st sid tid ms e clock))"
proof -
  have "forest_inv st'"
    if "list_nodes st sid tid = Inr nodes" "\<forall>n \<in> set nodes. dn_status n \<noteq> Cancelled"
      "set_statuses Published sid clock (filter (\<lambda>n. dn_status n \<noteq> Published) nodes) st = (r, st')" for nodes r st'
    using assms that(1) _ that(3)
  proof (rule forest_listed)
    show "dn_status n = Draft \<or> dn_status n = Accepted \<and> Published = Published"
      if "n \<in> set nodes" "dn_status n \<noteq> Published" for n
      using that \<open>\<forall>n \<in> set nodes. dn_status n \<noteq> Cancelled\<close> by (cases "dn_status n") auto
  qed
  with assms show ?thesis
    by (auto simp: mark_published_def refuse_status_ok
        elim!: bind_ok_InrE map_ok_InrE split: sum.splits prod.splits)
qed

lemma forest_run: "forest_inv st \<Longrightarrow> forest_inv (snd (draft_run op st))"
  by (cases op) (simp_all add: forest_create_tree forest_add_node forest_update_node forest_mark_accepted
      forest_mark_published)

lemma forest_after: "forest_inv st \<Longrightarrow> forest_inv (draft_store_after ops st)"
  by (induction ops arbitrary: st) (simp_all add: draft_store_after_def forest_run)

lemma forest_empty [simp]: "forest_inv empty_store"
  by (simp add: forest_inv_def empty_store_def store_inv_def)

text \<open>The nodes of a tree of a reachable store, and their place in the order of insertion.\<close>

definition stored_nodes :: "draft_op list \<Rightarrow> string \<Rightarrow> string \<Rightarrow> DraftTaskNode list" where
  "stored_nodes ops sid tid =
     (case list_nodes (draft_store_after ops empty_store) sid tid of Inl _ \<Rightarrow> [] | Inr nodes \<Rightarrow> nodes)"

fun index_of :: "'a \<Rightarrow> 'a list \<Rightarrow> nat" where
  "index_of x [] = 0"
| "index_of x (y # ys) = (if x = y then 0 else Suc (index_of x ys))"

lemma index_of_less: "x \<in> set xs \<Longrightarrow> index_of x xs < length xs"
  by (induction xs) auto

lemma index_of_nth: "x \<in> set xs \<Longrightarrow> xs ! index_of x xs = x"
  by (induction xs) auto

lemma index_of_take: "x \<in> set (take i xs) \<Longrightarrow> index_of x xs < i"
  by (induction xs arbitrary: i) (auto simp: take_Cons split: nat.splits)

lemma parents_precedeD:
  assumes "parents_precede ns" "n \<in> set ns" "dn_parent_draft_task_id n = Some p"
  shows "\<exists>q \<in> set (take (index_of n ns) ns). dn_draft_task_id q = p"
proof -
  have "parent_in (take (index_of n ns) ns) (ns ! index_of n ns)"
    using assms(1) index_of_less [OF assms(2)] by (simp add: parents_precede_def)
  then show ?thesis using assms(3) by (auto simp: index_of_nth [OF assms(2)] parent_in_def)
qed

definition insertion_rank :: "draft_op list \<Rightarrow> string \<Rightarrow> string \<Rightarrow> DraftTaskNode \<Rightarrow> nat" where
  "insertion_rank ops sid tid n =
     index_of n (filter (in_tree sid tid) (dict_values (ds_nodes (draft_store_after ops empty_store))))"

interpretation stored: valid_draft_forest "stored_nodes ops sid tid" "insertion_rank ops sid tid" for ops sid tid
proof (unfold_locales)
  let ?st = "draft_store_after ops empty_store"
  let ?ns = "filter (in_tree sid tid) (dict_values (ds_nodes ?st))"
  have forest: "forest_inv ?st" by (simp add: forest_after)
  have nodes: "stored_nodes ops sid tid = [] \<or> list_nodes ?st sid tid = Inr (stored_nodes ops sid tid)"
    by (simp add: stored_nodes_def split: sum.splits)
  then have perm: "stored_nodes ops sid tid = [] \<or> stored_nodes ops sid tid = sort_nodes ?ns"
    by (auto simp: list_nodes_def map_ok_def split: sum.splits)
  show "distinct (map dn_draft_task_id (stored_nodes ops sid tid))"
    using nodes list_nodes_stored(1) [OF forest_store_inv [OF forest]] by auto
  fix n assume n: "n \<in> set (stored_nodes ops sid tid)"
  then have all: "stored_nodes ops sid tid = sort_nodes ?ns" using perm by auto
  then have set_eq: "set (stored_nodes ops sid tid) = set ?ns" and len: "length (stored_nodes ops sid tid) = length ?ns"
    by (simp_all add: sort_nodes_def)
  have mem: "n \<in> set ?ns" using n set_eq by simp
  show "insertion_rank ops sid tid n < length (stored_nodes ops sid tid)"
    unfolding insertion_rank_def len using mem by (rule index_of_less)
  show "DraftTaskNode_fields_ok n"
    using mem forest by (auto simp: forest_inv_def DraftTaskNode_valid_iff)
  fix p assume p: "dn_parent_draft_task_id n = Some p"
  have "parents_precede ?ns" using forest parents_precede_filter by (simp add: forest_inv_def)
  from parents_precedeD [OF this mem p] obtain q where
    q: "q \<in> set (take (index_of n ?ns) ?ns)" "dn_draft_task_id q = p" by (rule bexE)
  have "q \<in> set (stored_nodes ops sid tid)" using set_eq in_set_takeD [OF q(1)] by simp
  moreover have "insertion_rank ops sid tid q < insertion_rank ops sid tid n"
    unfolding insertion_rank_def using q(1) by (rule index_of_take)
  ultimately show "\<exists>q \<in> set (stored_nodes ops sid tid). dn_draft_task_id q = p
      \<and> insertion_rank ops sid tid q < insertion_rank ops sid tid n"
    using q(2) by (intro bexI [of _ q] conjI)
qed

section \<open>Publishing a stored tree\<close>

text \<open>No node has a blank intent or capability.\<close>

definition texts_ok :: "DraftTaskNode list \<Rightarrow> bool" where
  "texts_ok nodes \<longleftrightarrow> list_all (\<lambda>n. \<not> blank (dn_intent n) \<and> \<not> blank (dn_required_capability n)) nodes"

context valid_draft_forest
begin

lemma normalized_tree:
  assumes "nodes \<noteq> []" "tid \<noteq> []"
  obtains roots where "normalized_roots_from_draft nodes = Inr roots" "tree_ok (draft_tree_source tid roots)"
    and "map node_fields_of (iter_nodes (draft_tree_source tid roots)) = map draft_fields walk"
    and "map node_id roots = map dn_draft_task_id (children_of nodes None)"
proof -
  obtain roots where roots: "normalized_roots_from_draft nodes = Inr roots"
    and fields: "map node_fields_of (concat (map preorder roots)) = map draft_fields walk"
    and heads: "list_all2 (\<lambda>n t. node_fields_of t = draft_fields n) (children_of nodes None) roots"
    and ok: "\<forall>t \<in> set roots. parent_id t = None \<and> well_parented t \<and> (\<forall>m \<in> set (preorder t). node_fields_ok m)"
    by (rule normalized_roots)
  let ?tree = "draft_tree_source tid roots"
  have iter: "iter_nodes ?tree = concat (map preorder roots)" by (simp add: iter_nodes_preorder draft_tree_source_def)
  have "map nf_node_id (map node_fields_of (iter_nodes ?tree)) = map nf_node_id (map draft_fields walk)"
    by (simp only: iter fields)
  then have ids: "map node_id (iter_nodes ?tree) = map dn_draft_task_id walk" by (simp add: comp_def)
  have "distinct (map dn_draft_task_id walk)"
    using walk_distinct walk_set distinct_ids by (simp add: distinct_map)
  moreover have "roots \<noteq> []" using fields walk_set assms(1) by auto
  ultimately have "tree_ok ?tree"
    using ok ids assms(2) iter by (auto simp: tree_ok_def draft_tree_source_def)
  moreover have "map node_id roots = map dn_draft_task_id (children_of nodes None)"
    using heads by (induction rule: list_all2_induct) auto
  ultimately show thesis using that roots fields iter by simp
qed

end

lemma node_errors_draft:
  assumes "map node_fields_of ts = map draft_fields ns" "texts_ok ns"
  shows "concat (map node_errors ts) = []"
proof -
  have "node_errors t = []" if "t \<in> set ts" for t
  proof -
    have "node_fields_of t \<in> set (map node_fields_of ts)" using that by simp
    then obtain n where n: "n \<in> set ns" "node_fields_of t = draft_fields n" unfolding assms(1) by auto
    with assms(2) show ?thesis by (simp add: node_errors_def texts_ok_def list_all_iff)
  qed
  then show ?thesis by simp
qed

lemma draft_request_publishable:
  assumes "tree_ok (draft_tree_source tid roots)" "rid \<noteq> []" "sid \<noteq> []" "tid \<noteq> []"
    and "map node_fields_of (iter_nodes (draft_tree_source tid roots)) = map draft_fields ns" "texts_ok ns"
  shows "NormalizedTaskTree_validate (draft_tree_source tid roots) = Inr (draft_tree_source tid roots)"
    and "publishable (draft_request rid sid tid (draft_tree_source tid roots)) (draft_tree_source tid roots)"
proof -
  show valid: "NormalizedTaskTree_validate (draft_tree_source tid roots) = Inr (draft_tree_source tid roots)"
    using assms(1) by (simp only: NormalizedTaskTree_validate_iff)
  have "tt_source (draft_tree_source tid roots) = collaborator_publisher" by (simp add: draft_tree_source_def)
  with valid node_errors_draft [OF assms(5,6)] assms(2-4)
  show "publishable (draft_request rid sid tid (draft_tree_source tid roots)) (draft_tree_source tid roots)"
    by (simp add: publishable_def PublishRequest_validate_def draft_request_def publisher_fields_ok_def
        collaborator_publisher_def preview_def pv_ok_def validate_request_tree_def Let_def)
qed

text \<open>Without an idempotency key \<open>uuid5\<close> is not used.\<close>

lemma publish_request_uuid5:
  "rq_idempotency_key r = None \<Longrightarrow> publish_request uuid5 fresh clock now b r = publish_request id fresh clock now b r"
  by (cases "rq_task_tree r") (simp_all add: publish_request_def publish_plan_def task_ids_for_request_def)

lemma publish_request_metadata:
  assumes "publish_request uuid5 fresh clock now b r = (Inr res, b')" "\<not> pb_skipped res"
    and "rq_task_tree r = Some tree" "rq_idempotency_key r = None"
  shows "map_of (pb_metadata res) ''node_task_ids''
      = Some (JObj (map (\<lambda>(k, v). (k, JStr v)) (task_ids_for_request uuid5 fresh r tree)))"
    and "pb_request_id res = rq_request_id r"
  using assms
  by (auto simp: publish_request_def publish_plan_def Let_def skipped_result_def published_result_def base_metadata_def
      elim!: bind_ok_InrE map_ok_InrE split: if_splits sum.splits prod.splits)

text \<open>The task a draft node was published as.\<close>

definition published_as :: "TaskPublishResult \<Rightarrow> string \<Rightarrow> string" where
  "published_as res i = the (map_of (map (\<lambda>m. (dm_draft_task_id m, dm_task_id m)) (tp_mappings res)) i)"

text \<open>The loop over the mappings, when every node has an identifier.\<close>

lemma draft_mappings_ok:
  assumes "\<And>n. n \<in> set nodes \<Longrightarrow> dict_get ids (dn_draft_task_id n) \<noteq> None
      \<and> the (dict_get ids (dn_draft_task_id n)) \<noteq> [] \<and> dn_draft_task_id n \<noteq> []"
    and "sid \<noteq> []" "tid \<noteq> []" "rid \<noteq> []"
  shows "\<exists>ms. those_ok (map (\<lambda>(k, n). draft_mapping sid tid ids rid (clock k) n) (enumerate i nodes)) = Inr ms
    \<and> map dm_draft_task_id ms = map dn_draft_task_id nodes
    \<and> map dm_task_id ms = map (\<lambda>n. the (dict_get ids (dn_draft_task_id n))) nodes
    \<and> (\<forall>m \<in> set ms. dm_session_id m = sid \<and> dm_draft_tree_id m = tid)"
  using assms(1)
proof (induction nodes arbitrary: i)
  case (Cons n nodes)
  obtain t where t: "dict_get ids (dn_draft_task_id n) = Some t" "t \<noteq> []" "dn_draft_task_id n \<noteq> []"
    using Cons.prems [of n] by auto
  obtain ms where "those_ok (map (\<lambda>(k, n). draft_mapping sid tid ids rid (clock k) n) (enumerate (Suc i) nodes)) = Inr ms"
    "map dm_draft_task_id ms = map dn_draft_task_id nodes"
    "map dm_task_id ms = map (\<lambda>n. the (dict_get ids (dn_draft_task_id n))) nodes"
    "\<forall>m \<in> set ms. dm_session_id m = sid \<and> dm_draft_tree_id m = tid"
    using Cons.IH [of "Suc i"] Cons.prems by auto
  with t assms(2-4) show ?case
    by (simp add: draft_mapping_def DraftToPublishedMapping_validate_def dict_item_def)
qed simp

lemma map_of_mapped: "distinct (map f xs) \<Longrightarrow> x \<in> set xs \<Longrightarrow> map_of (map (\<lambda>x. (f x, g x)) xs) (f x) = Some (g x)"
  by (rule map_of_is_SomeI) (auto simp: comp_def)

lemma map_pairs:
  "\<lbrakk>map f xs = map g ys; map f' xs = map g' ys\<rbrakk> \<Longrightarrow> map (\<lambda>x. (f x, f' x)) xs = map (\<lambda>y. (g y, g' y)) ys"
proof (induction xs arbitrary: ys)
  case (Cons x xs)
  then show ?case by (cases ys) auto
qed simp

lemma walk_node:
  assumes "map node_fields_of ts = map draft_fields ns" "n \<in> set ns"
  obtains t where "t \<in> set ts" "node_fields_of t = draft_fields n"
proof -
  have "draft_fields n \<in> set (map node_fields_of ts)" unfolding assms(1) using assms(2) by simp
  then show thesis using that by auto
qed

text \<open>Publishing the nodes of a tree whose normal form is known.\<close>

lemma publish_draft_nodes_effect:
  assumes "normalized_roots_from_draft nodes = Inr roots" "tree_ok (draft_tree_source tid roots)"
    and "map node_fields_of (iter_nodes (draft_tree_source tid roots)) = map draft_fields walk" "set walk = set nodes"
    and "map node_id roots = map dn_draft_task_id (children_of nodes None)"
    and "texts_ok nodes" "distinct (map dn_draft_task_id nodes)" "\<And>n. n \<in> set nodes \<Longrightarrow> DraftTaskNode_fields_ok n"
    and "\<And>n p. n \<in> set nodes \<Longrightarrow> dn_parent_draft_task_id n = Some p \<Longrightarrow> \<exists>q \<in> set nodes. dn_draft_task_id q = p"
    and "sid \<noteq> []" "tid \<noteq> []" "pe_request_id env \<noteq> []" "inj (pe_fresh env)" "bus_inv b"
    and "\<forall>k. pe_fresh env k \<noteq> [] \<and> get b sid (pe_fresh env k) = None"
  shows "\<exists>res b'. publish_draft_nodes env b sid tid nodes = (Inr res, b')
    \<and> tp_rejected_task_ids res = [] \<and> bus_inv b'
    \<and> map dm_draft_task_id (tp_mappings res) = map dn_draft_task_id nodes
    \<and> distinct (map dm_task_id (tp_mappings res))
    \<and> (\<forall>m \<in> set (tp_mappings res). dm_session_id m = sid \<and> dm_draft_tree_id m = tid)
    \<and> tp_root_task_ids res = map (\<lambda>n. published_as res (dn_draft_task_id n)) (children_of nodes None)
    \<and> (\<forall>n \<in> set nodes. \<exists>t. get b' sid (published_as res (dn_draft_task_id n)) = Some t \<and> td_status t = Pending
         \<and> td_intent t = dn_intent n \<and> td_required_capability t = dn_required_capability n
         \<and> td_parent_id t = map_option (published_as res) (dn_parent_draft_task_id n))
    \<and> (\<forall>s i. s \<noteq> sid \<or> i \<notin> set (map dm_task_id (tp_mappings res)) \<longrightarrow> get b' s i = get b s i)"
proof -
  define tree where "tree = draft_tree_source tid roots"
  define r where "r = draft_request (pe_request_id env) sid tid tree"
  define ids where "ids = task_ids_for_request id (pe_fresh env) r tree"
  have texts: "texts_ok walk" using assms(4,6) by (simp add: texts_ok_def list_all_iff)
  have valid: "NormalizedTaskTree_validate tree = Inr tree" and pub: "publishable r tree"
    unfolding r_def tree_def
    using draft_request_publishable [OF assms(2,12,10,11,3) texts] by blast+
  have r: "rq_session_id r = sid" "rq_idempotency_key r = None" "rq_task_tree r = Some tree"
    "rq_request_id r = pe_request_id env" by (simp_all add: r_def draft_request_def)
  have ok: "tree_ok tree" using assms(2) by (simp add: tree_def)
  have snds: "set (map snd ids) \<subseteq> range (pe_fresh env)"
    unfolding ids_def task_ids_list(1) [OF ok] by (auto simp: r(2))
  have free: "\<forall>i \<in> set (map snd ids). i \<noteq> [] \<and> get b (rq_session_id r) i = None"
  proof
    fix i assume "i \<in> set (map snd ids)"
    then obtain k where "i = pe_fresh env k" using subsetD [OF snds] by blast
    then show "i \<noteq> [] \<and> get b (rq_session_id r) i = None" using assms(15) r(1) by simp
  qed
  obtain res0 b' where res0: "publish_request id (pe_fresh env) (pe_clock env) (pe_now env) b r = (Inr res0, b')"
      "\<not> pb_skipped res0" "bus_inv b'"
      "pb_published_task_ids res0 = map (\<lambda>n. id_of_node ids (node_id n)) (iter_nodes tree)"
      "pb_root_task_ids res0 = map (\<lambda>n. id_of_node ids (node_id n)) (tt_root_nodes tree)"
      "distinct (pb_published_task_ids res0)"
    and stored: "\<forall>q \<in> set (tt_root_nodes tree). \<forall>n \<in> set (preorder q). \<exists>t.
         get b' (rq_session_id r) (id_of_node ids (node_id n)) = Some t \<and> TaskDomain_valid t \<and> td_status t = Pending
         \<and> td_intent t = nf_intent (node_fields_of n)
         \<and> td_required_capability t = nf_required_capability (node_fields_of n)
         \<and> td_parent_id t = map_option (id_of_node ids) (parent_id n) \<and> td_root_id t = id_of_node ids (node_id q)
         \<and> Inr (td_order_index t) = order_index tree n"
    and same: "\<forall>s i. s \<noteq> rq_session_id r \<or> i \<notin> set (pb_published_task_ids res0) \<longrightarrow> get b' s i = get b s i"
    using published_tree [OF pub inj_on_id assms(13,14) ids_def free] by blast
  have run: "publish_request (pe_uuid5 env) (pe_fresh env) (pe_clock env) (pe_now env) b r = (Inr res0, b')"
    by (rule trans [OF publish_request_uuid5 [OF r(2)] res0(1)])
  have meta: "node_task_ids (pe_repr env) res0 = Inr ids" "pb_request_id res0 = pe_request_id env"
    using publish_request_metadata [OF res0(1,2) r(3,2)] r(4) ids_def
    by (simp_all add: node_task_ids_def comp_def split_beta)
  have ids_ok: "ids_ok tree ids" using free task_ids_list(2) [OF ok] by (simp add: ids_ok_def ids_def)
  have got: "dict_get ids (dn_draft_task_id n) = Some (id_of_node ids (dn_draft_task_id n))
      \<and> id_of_node ids (dn_draft_task_id n) \<noteq> []" if "n \<in> set nodes" for n
  proof -
    have "n \<in> set walk" using that assms(4) by simp
    then obtain t where "t \<in> set (iter_nodes tree)" "node_fields_of t = draft_fields n"
      using walk_node [OF assms(3) [folded tree_def]] by blast
    then show ?thesis using ids_ok_get [OF ids_ok] by fastforce
  qed
  have nonempty: "dn_draft_task_id n \<noteq> []" if "n \<in> set nodes" for n
    using assms(8) [OF that] by (simp add: DraftTaskNode_fields_ok_def)
  obtain ms where ms: "those_ok (map (\<lambda>(k, n). draft_mapping sid tid ids (pe_request_id env) (pe_mapping_clock env k) n)
        (enumerate 0 nodes)) = Inr ms"
    "map dm_draft_task_id ms = map dn_draft_task_id nodes"
    "map dm_task_id ms = map (\<lambda>n. the (dict_get ids (dn_draft_task_id n))) nodes"
    "\<forall>m \<in> set ms. dm_session_id m = sid \<and> dm_draft_tree_id m = tid"
    using draft_mappings_ok [of nodes ids sid tid "pe_request_id env" "pe_mapping_clock env" 0] got nonempty assms(10-12)
    by (metis option.distinct(1) option.sel)
  define res where "res = \<lparr>tp_root_task_ids = pb_root_task_ids res0, tp_mappings = ms, tp_rejected_task_ids = []\<rparr>"
  have as: "published_as res (dn_draft_task_id n) = id_of_node ids (dn_draft_task_id n)" if "n \<in> set nodes" for n
  proof -
    have "map (\<lambda>m. (dm_draft_task_id m, dm_task_id m)) ms
        = map (\<lambda>n. (dn_draft_task_id n, the (dict_get ids (dn_draft_task_id n)))) nodes"
      using ms(2,3) by (rule map_pairs)
    then show ?thesis using map_of_mapped [OF assms(7) that, of "\<lambda>n. the (dict_get ids (dn_draft_task_id n))"]
      by (simp add: published_as_def res_def id_of_node_def)
  qed
  have "map nf_node_id (map node_fields_of (iter_nodes tree)) = map nf_node_id (map draft_fields walk)"
    using assms(3) by (simp only: tree_def)
  then have iter_ids: "map node_id (iter_nodes tree) = map dn_draft_task_id walk" by (simp add: comp_def)
  have published: "pb_published_task_ids res0 = map (id_of_node ids) (map dn_draft_task_id walk)"
    unfolding res0(4) iter_ids [symmetric] by simp
  have tasks: "map dm_task_id ms = map (id_of_node ids) (map dn_draft_task_id nodes)"
    using ms(3) by (simp add: id_of_node_def)
  have "inj_on (id_of_node ids) (set (map dn_draft_task_id nodes))"
    using res0(6) assms(4) unfolding published distinct_map by simp
  then have distinct_tasks: "distinct (map dm_task_id ms)" unfolding tasks using assms(7) by (simp only: distinct_map)
  have same_set: "set (pb_published_task_ids res0) = set (map dm_task_id ms)"
    unfolding published tasks using assms(4) by simp
  have roots_eq: "pb_root_task_ids res0 = map (\<lambda>n. published_as res (dn_draft_task_id n)) (children_of nodes None)"
  proof -
    have "pb_root_task_ids res0 = map (id_of_node ids) (map node_id roots)"
      unfolding res0(5) by (simp add: tree_def draft_tree_source_def)
    then show ?thesis unfolding assms(5) using as by (simp add: children_of_def)
  qed
  have each: "\<exists>t. get b' sid (published_as res (dn_draft_task_id n)) = Some t \<and> td_status t = Pending
         \<and> td_intent t = dn_intent n \<and> td_required_capability t = dn_required_capability n
         \<and> td_parent_id t = map_option (published_as res) (dn_parent_draft_task_id n)" if n: "n \<in> set nodes" for n
  proof -
    have "n \<in> set walk" using n assms(4) by simp
    then obtain m where m: "m \<in> set (iter_nodes tree)" "node_fields_of m = draft_fields n"
      using walk_node [OF assms(3) [folded tree_def]] by blast
    then obtain q where "q \<in> set (tt_root_nodes tree)" "m \<in> set (preorder q)" by (auto simp: iter_nodes_preorder)
    with stored obtain t where t: "get b' sid (id_of_node ids (node_id m)) = Some t" "td_status t = Pending"
        "td_intent t = nf_intent (node_fields_of m)"
        "td_required_capability t = nf_required_capability (node_fields_of m)"
        "td_parent_id t = map_option (id_of_node ids) (parent_id m)"
      unfolding r(1) by blast
    have parent: "map_option (id_of_node ids) (dn_parent_draft_task_id n) = map_option (published_as res) (dn_parent_draft_task_id n)"
    proof (cases "dn_parent_draft_task_id n")
      case (Some p)
      then obtain q where "q \<in> set nodes" "dn_draft_task_id q = p" using assms(9) [OF n] by blast
      with Some as [of q] show ?thesis by simp
    qed simp
    show ?thesis using t m(2) by (intro exI [of _ t]) (simp add: as [OF n] parent)
  qed
  have "publish_draft_nodes env b sid tid nodes = (Inr res, b')"
    unfolding publish_draft_nodes_def
    using assms(1) valid pub run res0(2) meta ms(1)
    by (simp add: tree_def r_def publishable_def res_def)
  moreover have "tp_mappings res = ms" "tp_root_task_ids res = pb_root_task_ids res0" "tp_rejected_task_ids res = []"
    by (simp_all add: res_def)
  ultimately show ?thesis
    using ms(2,4) distinct_tasks roots_eq ballI [OF each] res0(3) same [unfolded same_set r(1)]
    by (intro exI [of _ res] exI [of _ b'] conjI) (simp_all only:)
qed

lemma draft_tree_published:
  assumes "list_nodes (draft_store_after ops empty_store) sid tid = Inr nodes" "nodes \<noteq> []" "texts_ok nodes"
    and "pe_request_id env \<noteq> []" "inj (pe_fresh env)" "bus_inv b"
    and "\<forall>k. pe_fresh env k \<noteq> [] \<and> get b sid (pe_fresh env k) = None"
  shows "\<exists>res b'. publish_draft_tree env b (Some (draft_store_after ops empty_store)) sid tid = (Inr res, b')
    \<and> tp_rejected_task_ids res = [] \<and> bus_inv b'
    \<and> map dm_draft_task_id (tp_mappings res) = map dn_draft_task_id nodes
    \<and> distinct (map dm_task_id (tp_mappings res))
    \<and> (\<forall>m \<in> set (tp_mappings res). dm_session_id m = sid \<and> dm_draft_tree_id m = tid)
    \<and> tp_root_task_ids res = map (\<lambda>n. published_as res (dn_draft_task_id n)) (children_of nodes None)
    \<and> (\<forall>n \<in> set nodes. \<exists>t. get b' sid (published_as res (dn_draft_task_id n)) = Some t \<and> td_status t = Pending
         \<and> td_intent t = dn_intent n \<and> td_required_capability t = dn_required_capability n
         \<and> td_parent_id t = map_option (published_as res) (dn_parent_draft_task_id n))
    \<and> (\<forall>s i. s \<noteq> sid \<or> i \<notin> set (map dm_task_id (tp_mappings res)) \<longrightarrow> get b' s i = get b s i)"
proof -
  let ?st = "draft_store_after ops empty_store"
  have nodes: "stored_nodes ops sid tid = nodes" using assms(1) by (simp add: stored_nodes_def)
  note forest = stored.walk_set [of ops sid tid, unfolded nodes]
    stored.distinct_ids [of ops sid tid, unfolded nodes] stored.fields_ok [of _ ops sid tid, unfolded nodes]
    stored.parent_earlier [of _ ops sid tid, unfolded nodes]
  obtain n0 where "n0 \<in> set nodes" using assms(2) by (cases nodes) auto
  then have "in_tree sid tid n0" "DraftTaskNode_fields_ok n0"
    using list_nodes_stored(2) [OF draft_store_after_inv [OF store_inv_empty] assms(1)] forest(3) by blast+
  then have ne: "sid \<noteq> []" "tid \<noteq> []" by (auto simp: in_tree_def DraftTaskNode_fields_ok_def)
  have run: "publish_draft_tree env b (Some ?st) sid tid = publish_draft_nodes env b sid tid nodes"
    using assms(1,2) by (simp add: publish_draft_tree_def)
  have parents: "\<exists>q \<in> set nodes. dn_draft_task_id q = p" if "n \<in> set nodes" "dn_parent_draft_task_id n = Some p" for n p
    using forest(4) [OF that] by blast
  show ?thesis
    unfolding run
    by (rule stored.normalized_tree [of ops sid tid tid, unfolded nodes, OF assms(2) ne(2)])
       (rule publish_draft_nodes_effect [OF _ _ _ forest(1) _ assms(3) forest(2,3) parents ne assms(4-7)])
qed

text \<open>C25. Publishing a stored draft tree is complete: for every tree of a reachable store without blank texts, and with fresh
  task identifiers, \<open>publish_draft_tree\<close> rejects nothing, maps every draft node to exactly one new pending task with the
  node's intent and capability, links the tasks as the draft nodes are linked, and leaves every other task of the bus as it
  was. In particular the recursion over the parent pointers meets every node of the tree.\<close>

theorem publish_draft_tree_complete:
  assumes "list_nodes (draft_store_after ops empty_store) sid tid = Inr nodes" "nodes \<noteq> []" "texts_ok nodes"
    and "pe_request_id env \<noteq> []" "inj (pe_fresh env)" "bus_inv b"
    and "\<forall>k. pe_fresh env k \<noteq> [] \<and> get b sid (pe_fresh env k) = None"
  shows "\<exists>res b'. publish_draft_tree env b (Some (draft_store_after ops empty_store)) sid tid = (Inr res, b')
    \<and> tp_rejected_task_ids res = [] \<and> bus_inv b'
    \<and> map dm_draft_task_id (tp_mappings res) = map dn_draft_task_id nodes
    \<and> distinct (map dm_task_id (tp_mappings res))
    \<and> (\<forall>m \<in> set (tp_mappings res). dm_session_id m = sid \<and> dm_draft_tree_id m = tid)
    \<and> tp_root_task_ids res = map (\<lambda>n. published_as res (dn_draft_task_id n)) (children_of nodes None)
    \<and> (\<forall>n \<in> set nodes. \<exists>t. get b' sid (published_as res (dn_draft_task_id n)) = Some t \<and> td_status t = Pending
         \<and> td_intent t = dn_intent n \<and> td_required_capability t = dn_required_capability n
         \<and> td_parent_id t = map_option (published_as res) (dn_parent_draft_task_id n))
    \<and> (\<forall>s i. s \<noteq> sid \<or> i \<notin> set (map dm_task_id (tp_mappings res)) \<longrightarrow> get b' s i = get b s i)"
  using assms by (rule draft_tree_published)

text \<open>A root with a child.\<close>

definition sample_tree_ops :: "draft_op list" where
  "sample_tree_ops =
     [Create_tree ''s'' [sample_draft ''a''] None None ''t'' (\<lambda>_. sample_time 0),
      Add_node ''s'' ''t'' (sample_draft ''b''\<lparr>dn_parent_draft_task_id := Some ''a''\<rparr>) 1 (\<lambda>_. sample_time 1)]"

definition sample_env :: publish_env where
  "sample_env = \<lparr>pe_uuid5 = id, pe_fresh = sample_uuid4, pe_request_id = ''q'', pe_clock = sample_time,
     pe_now = sample_time 1, pe_mapping_clock = sample_time, pe_repr = (\<lambda>_. [])\<rparr>"

lemma sample_tree_nodes:
  "map_ok (map dn_draft_task_id) (list_nodes (draft_store_after sample_tree_ops empty_store) ''s'' ''t'') = Inr [''a'', ''b'']"
  "map_ok texts_ok (list_nodes (draft_store_after sample_tree_ops empty_store) ''s'' ''t'') = Inr True"
  by code_simp+

theorem publish_draft_tree_complete_witness:
  "\<exists>res b'. publish_draft_tree sample_env empty_bus (Some (draft_store_after sample_tree_ops empty_store)) ''s'' ''t'' = (Inr res, b')
    \<and> tp_rejected_task_ids res = [] \<and> map dm_draft_task_id (tp_mappings res) = [''a'', ''b'']"
proof -
  obtain nodes where nodes: "list_nodes (draft_store_after sample_tree_ops empty_store) ''s'' ''t'' = Inr nodes"
    "[''a'', ''b''] = map dn_draft_task_id nodes" using sample_tree_nodes(1) by (rule map_ok_InrE)
  have texts: "texts_ok nodes" using sample_tree_nodes(2) nodes(1) by simp
  have free: "\<forall>k. pe_fresh sample_env k \<noteq> [] \<and> get empty_bus ''s'' (pe_fresh sample_env k) = None"
    by (simp add: sample_env_def sample_uuid4_def empty_bus_def get_def)
  have fresh: "inj (pe_fresh sample_env)" using sample_uuid4_inj by (simp add: sample_env_def)
  have "nodes \<noteq> []" "pe_request_id sample_env \<noteq> []" using nodes(2) by (auto simp: sample_env_def)
  from publish_draft_tree_complete [OF nodes(1) this(1) texts this(2) fresh empty_bus_inv(1) free]
  show ?thesis unfolding nodes(2) by blast
qed

end
