(* ===== verification/Draft_Validator.thy ===== *)
theory Draft_Validator
  imports Task_Models
begin

text \<open>
  The capability catalog and the validator of draft trees and proposals of \<^verbatim>\<open>task/authoring.py\<close>.
\<close>

section \<open>The catalog\<close>

datatype CapabilityLevel = Level_low | Level_medium | Level_high | Level_unknown

record CapabilityDescriptor =
  cp_capability_id :: string
  cp_display_name :: string
  cp_summary :: string
  cp_input_schema :: "(string \<times> json) list"
  cp_output_schema :: "(string \<times> json) list"
  cp_preconditions :: "string list"
  cp_cost_level :: CapabilityLevel
  cp_latency_level :: CapabilityLevel
  cp_risk_level :: CapabilityLevel
  cp_reliability_score :: "pyfloat option"
  cp_applicable_domains :: "string list"
  cp_anti_patterns :: "string list"

definition CapabilityDescriptor_validate :: "CapabilityDescriptor \<Rightarrow> CapabilityDescriptor result" where
  "CapabilityDescriptor_validate c =
     (if cp_capability_id c = [] \<or> cp_display_name c = [] \<or> cp_summary c = []
         \<or> (case cp_reliability_score c of None \<Rightarrow> False | Some x \<Rightarrow> \<not> (fle (Fin 0) x \<and> fle x (Fin 1)))
         \<or> blank (cp_capability_id c)
      then Inl (ValidationError (Msg ''CapabilityDescriptor'' []))
      else Inr c)"

text \<open>A catalog is built from names and descriptors; \<open>str.title\<close> makes the display name of a name.\<close>

datatype capability_entry = Capability_name string | Capability_descriptor CapabilityDescriptor

definition replace_char :: "char \<Rightarrow> char \<Rightarrow> string \<Rightarrow> string" where
  "replace_char a b s = map (\<lambda>c. if c = a then b else c) s"

definition coerce_capability_descriptor ::
  "(string \<Rightarrow> string) \<Rightarrow> capability_entry \<Rightarrow> CapabilityDescriptor option result" where
  "coerce_capability_descriptor title c =
     (case c of
        Capability_descriptor d \<Rightarrow> Inr (Some d)
      | Capability_name s \<Rightarrow>
          (let normalized = strip s; display = title (replace_char CHR ''_'' CHR '' '' normalized)
           in if normalized = [] then Inr None
              else map_ok Some (CapabilityDescriptor_validate
                     \<lparr>cp_capability_id = normalized, cp_display_name = display, cp_summary = display @ '' capability'',
                      cp_input_schema = [], cp_output_schema = [], cp_preconditions = [],
                      cp_cost_level = Level_unknown, cp_latency_level = Level_unknown, cp_risk_level = Level_unknown,
                      cp_reliability_score = None, cp_applicable_domains = [], cp_anti_patterns = []\<rparr>)))"

fun catalog_from ::
  "(string \<Rightarrow> string) \<Rightarrow> string list \<Rightarrow> capability_entry list \<Rightarrow> CapabilityDescriptor list result" where
  "catalog_from title seen [] = Inr []"
| "catalog_from title seen (c # cs) =
     bind_ok (coerce_capability_descriptor title c) (\<lambda>d.
       case d of
         None \<Rightarrow> catalog_from title seen cs
       | Some descriptor \<Rightarrow>
           if cp_capability_id descriptor \<in> set seen then catalog_from title seen cs
           else map_ok (\<lambda>ds. descriptor # ds) (catalog_from title (cp_capability_id descriptor # seen) cs))"

type_synonym StaticCapabilityCatalog = "CapabilityDescriptor list"

definition catalog_get :: "StaticCapabilityCatalog \<Rightarrow> string \<Rightarrow> CapabilityDescriptor option" where
  "catalog_get cat i = find (\<lambda>c. cp_capability_id c = strip i) cat"

definition catalog_contains :: "StaticCapabilityCatalog \<Rightarrow> string \<Rightarrow> bool" where
  "catalog_contains cat i \<longleftrightarrow> strip i \<in> set (map cp_capability_id cat)"

text \<open>\<open>str.split()\<close> without arguments.\<close>

fun words_from :: "string \<Rightarrow> string \<Rightarrow> string list" where
  "words_from w [] = (if w = [] then [] else [w])"
| "words_from w (c # cs) =
     (if is_space c then (if w = [] then words_from [] cs else w # words_from [] cs) else words_from (w @ [c]) cs)"

definition query_tokens :: "string \<Rightarrow> string list" where
  "query_tokens intent =
     remdups (words_from [] (replace_char CHR ''-'' CHR '' '' (replace_char CHR ''_'' CHR '' '' (map lower_char intent))))"

fun join_words :: "string list \<Rightarrow> string" where
  "join_words [] = []"
| "join_words [w] = w"
| "join_words (w # ws) = w @ '' '' @ join_words ws"

definition capability_score :: "CapabilityDescriptor \<Rightarrow> string list \<Rightarrow> nat" where
  "capability_score c tokens =
     (let haystack = map lower_char (join_words [cp_capability_id c, cp_display_name c, cp_summary c,
            join_words (cp_applicable_domains c)])
      in length (filter (\<lambda>t. contains t haystack) tokens))"

definition catalog_query :: "StaticCapabilityCatalog \<Rightarrow> string \<Rightarrow> string list \<Rightarrow> int \<Rightarrow> CapabilityDescriptor list" where
  "catalog_query cat intent domains limit =
     (if limit < 1 then []
      else let domain_set = map (\<lambda>d. map lower_char (strip d)) (filter (\<lambda>d. \<not> blank d) domains);
               candidates = filter (\<lambda>c. domain_set = []
                 \<or> list_ex (\<lambda>d. map lower_char d \<in> set domain_set) (cp_applicable_domains c)) cat;
               tokens = query_tokens intent
           in if tokens = [] then take (nat limit) candidates
              else let scored = sort_key (\<lambda>(score, c). (- int score, cp_capability_id c))
                         (map (\<lambda>c. (capability_score c tokens, c)) candidates);
                       positive = map snd (filter (\<lambda>(score, c). 0 < score) scored)
                   in take (nat limit) (if positive = [] then candidates else positive))"

lemma find_None_iff_ids: "find (\<lambda>c. cp_capability_id c = i) cat = None \<longleftrightarrow> i \<notin> set (map cp_capability_id cat)"
  by (induction cat) auto

text \<open>\<open>contains\<close> is the domain of \<open>get\<close>, and identifiers of a catalog are distinct.\<close>

lemma catalog_contains_get: "catalog_contains cat i \<longleftrightarrow> catalog_get cat i \<noteq> None"
  by (simp add: catalog_contains_def catalog_get_def find_None_iff_ids)

lemma catalog_from_distinct:
  "catalog_from title seen cs = Inr cat \<Longrightarrow>
     distinct (map cp_capability_id cat) \<and> set (map cp_capability_id cat) \<inter> set seen = {}"
proof (induction title seen cs arbitrary: cat rule: catalog_from.induct)
  case (2 title seen c cs)
  from "2.prems" obtain d where d: "coerce_capability_descriptor title c = Inr d" by (auto elim: bind_ok_InrE)
  show ?case
  proof (cases d)
    case None
    then show ?thesis using 2(1) d "2.prems" by simp
  next
    case (Some descriptor)
    show ?thesis
    proof (cases "cp_capability_id descriptor \<in> set seen")
      case True
      then show ?thesis using 2(2) Some d "2.prems" by simp
    next
      case False
      then obtain ds where ds: "catalog_from title (cp_capability_id descriptor # seen) cs = Inr ds" "cat = descriptor # ds"
        using Some d "2.prems" by (auto elim: map_ok_InrE)
      then show ?thesis using 2(3) [OF False ds(1)] False by auto
    qed
  qed
qed simp

section \<open>Validation\<close>

record DraftTaskValidationIssue =
  vi_code :: string
  vi_message :: msg
  vi_draft_task_id :: "string option"
  vi_path :: "string list"

record DraftTaskTreeValidation =
  vt_draft_tree_id :: string
  vt_valid :: bool
  vt_errors :: "DraftTaskValidationIssue list"
  vt_warnings :: "DraftTaskValidationIssue list"

record DraftTaskTreeValidator =
  dv_catalog :: StaticCapabilityCatalog
  dv_max_depth :: int
  dv_max_nodes :: int
  dv_publishable_statuses :: "string list"

definition DraftTaskTreeValidator_init ::
  "StaticCapabilityCatalog \<Rightarrow> int \<Rightarrow> int \<Rightarrow> string list \<Rightarrow> DraftTaskTreeValidator result" where
  "DraftTaskTreeValidator_init cat max_depth max_nodes statuses =
     (if max_depth < 1 then Inl (ValueError (Msg ''max_depth must be >= 1'' []))
      else if max_nodes < 1 then Inl (ValueError (Msg ''max_nodes must be >= 1'' []))
      else Inr \<lparr>dv_catalog = cat, dv_max_depth = max_depth, dv_max_nodes = max_nodes,
                dv_publishable_statuses = statuses\<rparr>)"

definition issue :: "string \<Rightarrow> msg \<Rightarrow> DraftTaskNode option \<Rightarrow> DraftTaskValidationIssue" where
  "issue code message n =
     \<lparr>vi_code = code, vi_message = message, vi_draft_task_id = map_option dn_draft_task_id n, vi_path = []\<rparr>"

definition validate_node_content :: "DraftTaskTreeValidator \<Rightarrow> DraftTaskNode \<Rightarrow> DraftTaskValidationIssue list" where
  "validate_node_content v n =
     (if blank (dn_title n) then [issue ''empty_title'' (Msg ''title must not be blank'' []) (Some n)] else [])
     @ (if blank (dn_intent n) then [issue ''empty_intent'' (Msg ''intent must not be blank'' []) (Some n)] else [])
     @ (if blank (dn_required_capability n)
        then [issue ''empty_capability'' (Msg ''required_capability must not be blank'' []) (Some n)]
        else if \<not> catalog_contains (dv_catalog v) (dn_required_capability n)
        then [issue ''unknown_capability'' (Msg ''unknown capability {}'' [dn_required_capability n]) (Some n)] else [])
     @ (if draft_status_str (dn_status n) \<notin> set (dv_publishable_statuses v)
        then [issue ''status_not_publishable''
                (Msg ''draft task status {} is not publishable'' [draft_status_str (dn_status n)]) (Some n)] else [])"

text \<open>The loop of \<open>validate_tree\<close>, with the identifiers and the order indexes met so far.\<close>

fun validate_tree_nodes ::
  "DraftTaskTreeValidator \<Rightarrow> DraftTaskTree \<Rightarrow> string list \<Rightarrow> int list \<Rightarrow> DraftTaskNode list
     \<Rightarrow> DraftTaskValidationIssue list" where
  "validate_tree_nodes v t ids orders [] = []"
| "validate_tree_nodes v t ids orders (n # ns) =
     (if dn_draft_task_id n \<in> set ids
      then [issue ''duplicate_node_id'' (Msg ''duplicate draft task id {}'' [dn_draft_task_id n]) (Some n)] else [])
     @ (if dn_session_id n \<noteq> dt_session_id t
        then [issue ''session_mismatch'' (Msg ''draft task session_id must match tree session_id'' []) (Some n)] else [])
     @ (if dn_draft_tree_id n \<noteq> dt_draft_tree_id t
        then [issue ''tree_mismatch'' (Msg ''draft task draft_tree_id must match tree draft_tree_id'' []) (Some n)] else [])
     @ (if dn_parent_draft_task_id n \<noteq> None
        then [issue ''root_parent'' (Msg ''root draft task must not have parent_draft_task_id'' []) (Some n)] else [])
     @ (if dn_order_index n \<in> set orders
        then [issue ''duplicate_sibling_order'' (Msg ''duplicate root order_index {}'' [str_int (dn_order_index n)]) (Some n)]
        else [])
     @ validate_node_content v n
     @ validate_tree_nodes v t (dn_draft_task_id n # ids) (dn_order_index n # orders) ns"

definition validate_tree :: "DraftTaskTreeValidator \<Rightarrow> DraftTaskTree \<Rightarrow> DraftTaskTreeValidation" where
  "validate_tree v t =
     (let nodes = dt_root_nodes t;
          count = int (length nodes);
          errors = (if dv_max_nodes v < count
                    then [issue ''max_nodes_exceeded''
                            (Msg ''draft tree has {} nodes, max is {}'' [str_int count, str_int (dv_max_nodes v)]) None]
                    else [])
                   @ validate_tree_nodes v t [] [] nodes;
          warnings = (if dv_max_nodes v \<le> count
                      then [issue ''node_count_near_limit''
                              (Msg ''draft tree is at or near the configured node limit'' []) None]
                      else [])
      in \<lparr>vt_draft_tree_id = dt_draft_tree_id t, vt_valid = (errors = []), vt_errors = errors, vt_warnings = warnings\<rparr>)"

section \<open>Proposals\<close>

record proposal_fields =
  pf_title :: string
  pf_intent :: string
  pf_summary :: "string option"
  pf_instructions :: "string option"
  pf_acceptance_criteria :: "string list"
  pf_required_capability :: string
  pf_constraints :: "string list"
  pf_rationale :: "string option"

datatype DraftTaskNodeProposal =
  DraftTaskNodeProposal (proposal_fields_of: proposal_fields) (proposal_children: "DraftTaskNodeProposal list")

definition proposal_issue :: "string \<Rightarrow> msg \<Rightarrow> string list \<Rightarrow> DraftTaskValidationIssue" where
  "proposal_issue code message path = \<lparr>vi_code = code, vi_message = message, vi_draft_task_id = None, vi_path = path\<rparr>"

definition proposal_node_issues ::
  "DraftTaskTreeValidator \<Rightarrow> proposal_fields \<Rightarrow> string list \<Rightarrow> DraftTaskValidationIssue list" where
  "proposal_node_issues v f path =
     (if dv_max_depth v < int (length path)
      then [proposal_issue ''max_depth_exceeded''
              (Msg ''proposal depth {} exceeds max {}'' [str_int (int (length path)), str_int (dv_max_depth v)]) path]
      else [])
     @ (if blank (pf_title f) then [proposal_issue ''empty_title'' (Msg ''title must not be blank'' []) path] else [])
     @ (if blank (pf_intent f) then [proposal_issue ''empty_intent'' (Msg ''intent must not be blank'' []) path] else [])
     @ (if \<not> catalog_contains (dv_catalog v) (pf_required_capability f)
        then [proposal_issue ''unknown_capability'' (Msg ''unknown capability {}'' [pf_required_capability f]) path] else [])"

text \<open>\<open>visit\<close> returns what it appends to the errors and adds to the count.\<close>

definition add_visit :: "'e list \<times> nat \<Rightarrow> 'e list \<times> nat \<Rightarrow> 'e list \<times> nat" where
  "add_visit p q = (fst p @ fst q, snd p + snd q)"

fun visit_proposal ::
    "DraftTaskTreeValidator \<Rightarrow> string list \<Rightarrow> DraftTaskNodeProposal \<Rightarrow> DraftTaskValidationIssue list \<times> nat"
  and visit_children ::
    "DraftTaskTreeValidator \<Rightarrow> string list \<Rightarrow> nat \<Rightarrow> DraftTaskNodeProposal list \<Rightarrow> DraftTaskValidationIssue list \<times> nat"
where
  "visit_proposal v path (DraftTaskNodeProposal f cs) =
     add_visit (proposal_node_issues v f path, 1) (visit_children v path 0 cs)"
| "visit_children v path i [] = ([], 0)"
| "visit_children v path i (c # cs) =
     add_visit (visit_proposal v (path @ [str_int (int i)]) c) (visit_children v path (Suc i) cs)"

definition validate_proposal ::
  "DraftTaskTreeValidator \<Rightarrow> DraftTaskNodeProposal list \<Rightarrow> string \<Rightarrow> DraftTaskTreeValidation" where
  "validate_proposal v roots draft_tree_id =
     (let (es, count) = visit_children v [] 0 roots;
          errors = es @ (if dv_max_nodes v < int count
             then [proposal_issue ''max_nodes_exceeded''
                     (Msg ''proposal has {} nodes, max is {}'' [str_int (int count), str_int (dv_max_nodes v)]) []]
             else [])
      in \<lparr>vt_draft_tree_id = draft_tree_id, vt_valid = (errors = []), vt_errors = errors, vt_warnings = []\<rparr>)"

section \<open>What the validators accept\<close>

definition node_content_ok :: "DraftTaskTreeValidator \<Rightarrow> DraftTaskNode \<Rightarrow> bool" where
  "node_content_ok v n \<longleftrightarrow> \<not> blank (dn_title n) \<and> \<not> blank (dn_intent n) \<and> \<not> blank (dn_required_capability n)
     \<and> catalog_contains (dv_catalog v) (dn_required_capability n)
     \<and> draft_status_str (dn_status n) \<in> set (dv_publishable_statuses v)"

lemma validate_node_content_Nil: "validate_node_content v n = [] \<longleftrightarrow> node_content_ok v n"
  by (simp add: validate_node_content_def node_content_ok_def)

lemma validate_tree_nodes_Nil:
  "validate_tree_nodes v t ids orders ns = [] \<longleftrightarrow>
     (\<forall>n \<in> set ns. dn_session_id n = dt_session_id t \<and> dn_draft_tree_id n = dt_draft_tree_id t
        \<and> dn_parent_draft_task_id n = None \<and> node_content_ok v n)
     \<and> distinct (map dn_draft_task_id ns) \<and> dn_draft_task_id ` set ns \<inter> set ids = {}
     \<and> distinct (map dn_order_index ns) \<and> dn_order_index ` set ns \<inter> set orders = {}"
  by (induction v t ids orders ns rule: validate_tree_nodes.induct) (auto simp: validate_node_content_Nil)

text \<open>On a tree that is a value of its class, only the number and the content of the roots are left to check.\<close>

lemma validate_tree_valid:
  assumes "DraftTaskTree_valid t"
  shows "vt_valid (validate_tree v t) \<longleftrightarrow> int (length (dt_root_nodes t)) \<le> dv_max_nodes v
    \<and> distinct (map dn_draft_task_id (dt_root_nodes t)) \<and> (\<forall>n \<in> set (dt_root_nodes t). node_content_ok v n)"
  using assms by (auto simp: validate_tree_def Let_def validate_tree_nodes_Nil DraftTaskTree_valid_iff)

text \<open>A proposal is checked at every depth.\<close>

fun proposal_nodes :: "nat \<Rightarrow> DraftTaskNodeProposal \<Rightarrow> (nat \<times> proposal_fields) list" where
  "proposal_nodes d (DraftTaskNodeProposal f cs) = (d, f) # concat (map (proposal_nodes (Suc d)) cs)"

definition proposal_node_ok :: "DraftTaskTreeValidator \<Rightarrow> nat \<Rightarrow> proposal_fields \<Rightarrow> bool" where
  "proposal_node_ok v d f \<longleftrightarrow> int d \<le> dv_max_depth v \<and> \<not> blank (pf_title f) \<and> \<not> blank (pf_intent f)
     \<and> catalog_contains (dv_catalog v) (pf_required_capability f)"

lemma visit_proposal_spec:
  "(fst (visit_proposal v path p) = [] \<longleftrightarrow> (\<forall>(d, f) \<in> set (proposal_nodes (length path) p). proposal_node_ok v d f))
     \<and> snd (visit_proposal v path p) = length (proposal_nodes (length path) p)"
  "(fst (visit_children v path i cs) = [] \<longleftrightarrow>
       (\<forall>c \<in> set cs. \<forall>(d, f) \<in> set (proposal_nodes (Suc (length path)) c). proposal_node_ok v d f))
     \<and> snd (visit_children v path i cs) = length (concat (map (proposal_nodes (Suc (length path))) cs))"
  by (induction v path p and v path i cs rule: visit_proposal_visit_children.induct)
     (auto simp: proposal_node_issues_def proposal_node_ok_def add_visit_def split_beta)

lemma validate_proposal_valid:
  "vt_valid (validate_proposal v roots i) \<longleftrightarrow>
     (\<forall>p \<in> set roots. \<forall>(d, f) \<in> set (proposal_nodes 1 p). proposal_node_ok v d f)
     \<and> int (length (concat (map (proposal_nodes 1) roots))) \<le> dv_max_nodes v"
  using visit_proposal_spec(2) [of v "[]" 0 roots]
  by (auto simp: validate_proposal_def Let_def split_beta)

end
