(* ===== verification/Payload.thy ===== *)
theory Payload
  imports Prelude
begin

text \<open>
  The values of a command payload, a \<open>dict[str, Any]\<close> decoded from JSON, and the helpers of
  \<^verbatim>\<open>task/authoring_service.py\<close> that read them. Truth values, iteration and \<open>int(...)\<close> are Python's.
\<close>

section \<open>Reading values\<close>

type_synonym payload = "(string, json) dict"

text \<open>\<open>payload.get(key)\<close>, where a missing key and \<open>None\<close> are the same.\<close>

definition payload_get :: "payload \<Rightarrow> string \<Rightarrow> json" where
  "payload_get p key = (case dict_get p key of None \<Rightarrow> JNull | Some v \<Rightarrow> v)"

fun truthy :: "json \<Rightarrow> bool" where
  "truthy JNull = False"
| "truthy (JBool b) = b"
| "truthy (JInt k) = (k \<noteq> 0)"
| "truthy (JFloat x) = (x \<noteq> Fin 0)"
| "truthy (JStr s) = (s \<noteq> [])"
| "truthy (JArr vs) = (vs \<noteq> [])"
| "truthy (JObj d) = (d \<noteq> [])"

text \<open>\<open>a or b\<close>.\<close>

definition json_or :: "json \<Rightarrow> json \<Rightarrow> json" where
  "json_or a b = (if truthy a then a else b)"

text \<open>A value given for a field of type \<open>str\<close> or \<open>str | None\<close> of the class \<open>c\<close>.\<close>

definition str_field :: "string \<Rightarrow> json \<Rightarrow> string result" where
  "str_field c v = (case v of JStr s \<Rightarrow> Inr s | _ \<Rightarrow> Inl (ValidationError (Msg c [])))"

definition opt_str_field :: "string \<Rightarrow> json \<Rightarrow> string option result" where
  "opt_str_field c v = (case v of JNull \<Rightarrow> Inr None | _ \<Rightarrow> map_ok Some (str_field c v))"

text \<open>Iterating a value: a list, the characters of a string, the keys of an object.\<close>

fun iter_json :: "json \<Rightarrow> json list result" where
  "iter_json (JArr vs) = Inr vs"
| "iter_json (JStr s) = Inr (map (\<lambda>c. JStr [c]) s)"
| "iter_json (JObj d) = Inr (map (\<lambda>(k, v). JStr k) d)"
| "iter_json _ = Inl (TypeError (Msg ''object is not iterable'' []))"

text \<open>What is iterated is smaller than an object that holds it.\<close>

lemma size_dict_get: "dict_get d k = Some v \<Longrightarrow> size v < size (JObj d)"
  by (induction d) (auto split: if_splits)

lemma size_iter_json:
  assumes "iter_json v = Inr vs" "x \<in> set vs" "dict_get d k = Some v"
  shows "size x < size (JObj d)"
proof -
  have "size x \<le> size v"
    using assms(1,2) by (cases v) (auto intro: le_SucI size_list_estimation' [where f = size])
  also have "\<dots> < size (JObj d)" using assms(3) by (rule size_dict_get)
  finally show ?thesis .
qed

section \<open>The helpers\<close>

definition require_str :: "payload \<Rightarrow> string \<Rightarrow> string result" where
  "require_str p key =
     (case payload_get p key of
        JNull \<Rightarrow> Inl (ValueError (Msg ''{} is required'' [key]))
      | JStr s \<Rightarrow> if blank s then Inl (ValueError (Msg ''{} must not be blank'' [key])) else Inr s
      | _ \<Rightarrow> Inl (TypeError (Msg ''{} must be a string'' [key])))"

text \<open>\<open>_require_str(payload, key, required=False)\<close>.\<close>

definition optional_str :: "payload \<Rightarrow> string \<Rightarrow> string result" where
  "optional_str p key =
     (case payload_get p key of
        JNull \<Rightarrow> Inr []
      | JStr s \<Rightarrow> if blank s then Inr [] else Inr s
      | _ \<Rightarrow> Inl (TypeError (Msg ''{} must be a string'' [key])))"

definition tuple_payload :: "(json \<Rightarrow> string) \<Rightarrow> payload \<Rightarrow> string \<Rightarrow> string list result" where
  "tuple_payload py_repr p key =
     (case payload_get p key of
        JNull \<Rightarrow> Inr []
      | JStr s \<Rightarrow> Inr [s]
      | v \<Rightarrow> (case iter_json v of
                Inl _ \<Rightarrow> Inl (TypeError (Msg ''{} must be a string or iterable of strings'' [key]))
              | Inr vs \<Rightarrow> Inr (filter (\<lambda>s. \<not> blank s) (map (py_str py_repr) vs))))"

definition required_sequence :: "payload \<Rightarrow> string \<Rightarrow> json list result" where
  "required_sequence p key =
     (case payload_get p key of
        JArr (v # vs) \<Rightarrow> Inr (v # vs)
      | _ \<Rightarrow> Inl (ValueError (Msg ''{} must be a non-empty sequence'' [key])))"

section \<open>\<open>int(...)\<close>\<close>

definition is_digit :: "char \<Rightarrow> bool" where
  "is_digit c \<longleftrightarrow> 48 \<le> (of_char c :: nat) \<and> (of_char c :: nat) \<le> 57"

text \<open>Decimal digits, with single underscores between them.\<close>

fun digits_value :: "nat \<Rightarrow> string \<Rightarrow> nat option" where
  "digits_value acc [] = Some acc"
| "digits_value acc (c # cs) =
     (if is_digit c then digits_value (10 * acc + (of_char c - 48)) cs
      else if c = CHR ''_'' then (case cs of
             [] \<Rightarrow> None
           | d # ds \<Rightarrow> if is_digit d then digits_value (10 * acc + (of_char d - 48)) ds else None)
      else None)"

definition unsigned_value :: "string \<Rightarrow> nat option" where
  "unsigned_value s = (case s of [] \<Rightarrow> None | c # cs \<Rightarrow> if is_digit c then digits_value 0 s else None)"

text \<open>\<open>int\<close> of a text refuses more than 4300 digits.\<close>

definition int_of_str :: "string \<Rightarrow> int result" where
  "int_of_str s =
     (let t = strip s;
          (sgn, body) = (case t of [] \<Rightarrow> (1, []) | c # cs \<Rightarrow>
             if c = CHR ''-'' then (- 1, cs) else if c = CHR ''+'' then (1, cs) else (1, t))
      in case unsigned_value body of
           None \<Rightarrow> Inl (ValueError (Msg ''invalid literal for int() with base 10: {}'' [s]))
         | Some n \<Rightarrow> if 4300 < length (filter is_digit body)
                    then Inl (ValueError (Msg ''Exceeds the limit for integer string conversion'' []))
                    else Inr (sgn * int n))"

definition truncate :: "rat \<Rightarrow> int" where
  "truncate r = (if 0 \<le> r then \<lfloor>r\<rfloor> else \<lceil>r\<rceil>)"

fun int_of_json :: "json \<Rightarrow> int result" where
  "int_of_json (JInt k) = Inr k"
| "int_of_json (JBool b) = Inr (if b then 1 else 0)"
| "int_of_json (JFloat (Fin r)) = Inr (truncate r)"
| "int_of_json (JFloat NaN) = Inl (ValueError (Msg ''cannot convert float NaN to integer'' []))"
| "int_of_json (JFloat _) = Inl (OverflowError (Msg ''cannot convert float infinity to integer'' []))"
| "int_of_json (JStr s) = int_of_str s"
| "int_of_json _ = Inl (TypeError (Msg ''int() argument must be a string or a real number'' []))"

text \<open>\<open>int\<close> reads back what \<open>str\<close> writes.\<close>

lemma is_digit_char_of [simp]: "(d :: nat) < 10 \<Longrightarrow> is_digit (char_of (48 + d))"
  by (simp add: is_digit_def)

lemma digits_value_append:
  "\<lbrakk>list_all is_digit s; digits_value acc s = Some n\<rbrakk> \<Longrightarrow> digits_value acc (s @ t) = digits_value n t"
  by (induction s arbitrary: acc) auto

lemma digits_all: "list_all is_digit (digits n)"
  by (induction n rule: digits.induct) (subst digits.simps, auto)

lemma digits_value_digits: "digits_value 0 (digits n) = Some n"
proof (induction n rule: digits.induct)
  case (1 n)
  show ?case
  proof (cases "n < 10")
    case True
    then show ?thesis by (subst digits.simps) simp
  next
    case False
    then have "digits n = digits (n div 10) @ [char_of (48 + n mod 10)]" by (subst digits.simps) simp
    then have "digits_value 0 (digits n) = digits_value (n div 10) [char_of (48 + n mod 10)]"
      using digits_value_append [OF digits_all 1(1) [OF False]] by simp
    then show ?thesis by simp
  qed
qed

lemma digit_not_space: "is_digit c \<Longrightarrow> \<not> is_space c"
  by (auto simp: is_digit_def is_space_def Let_def)

lemma strip_no_space:
  assumes "\<And>c. c \<in> set s \<Longrightarrow> \<not> is_space c"
  shows "strip s = s"
proof -
  have id: "dropWhile is_space t = t" if "\<And>c. c \<in> set t \<Longrightarrow> \<not> is_space c" for t
    using that by (cases t) auto
  have "dropWhile is_space s = s" "dropWhile is_space (rev s) = rev s" by (rule id, simp add: assms)+
  then show ?thesis by (simp add: strip_def lstrip_def rstrip_def)
qed

lemma digits_nonempty: "digits n \<noteq> []"
  by (subst digits.simps) simp

lemma unsigned_value_digits: "unsigned_value (digits n) = Some n"
  using digits_all [of n] digits_value_digits [of n] digits_nonempty [of n]
  by (cases "digits n") (simp_all add: unsigned_value_def)

lemma int_of_str_int:
  assumes "length (digits (nat \<bar>k\<bar>)) \<le> 4300"
  shows "int_of_str (str_int k) = Inr k"
proof -
  let ?ds = "digits (nat \<bar>k\<bar>)"
  have all: "list_all is_digit ?ds" by (rule digits_all)
  have filt: "filter is_digit ?ds = ?ds" using all by (simp add: list_all_iff)
  obtain c cs where c: "?ds = c # cs" "is_digit c" using all digits_nonempty by (cases ?ds) auto
  have sign: "c \<noteq> CHR ''-''" "c \<noteq> CHR ''+''" using c(2) by (auto simp: is_digit_def)
  have spaces: "\<not> is_space x" if "x \<in> set (str_int k)" for x
  proof (cases "x \<in> set ?ds")
    case True
    then show ?thesis using all digit_not_space by (auto simp: list_all_iff)
  next
    case False
    with that have "x = CHR ''-''" by (auto simp: str_int_def split: if_splits)
    then show ?thesis by (simp add: is_space_def Let_def)
  qed
  have "strip (str_int k) = str_int k" using spaces by (rule strip_no_space)
  then show ?thesis
    using unsigned_value_digits [of "nat \<bar>k\<bar>"] assms filt c(1) sign
    by (auto simp: int_of_str_def str_int_def Let_def)
qed

end
