(* ===== verification/Authoring_Commands.thy ===== *)
theory Authoring_Commands
  imports Raw_Task Task_Models Payload
begin

text \<open>
  The commands of the authoring domain and their results, from \<^verbatim>\<open>task/authoring.py\<close>, and the cache of results by
  idempotency key, \<^verbatim>\<open>task/authoring_idempotency.py\<close>.
\<close>

section \<open>Commands\<close>

datatype ActorKind = Actor_user | Actor_collaborator | Actor_agent | Actor_system | Actor_api

record ActorRef =
  ac_actor_id :: string
  ac_kind :: ActorKind
  ac_display_name :: "string option"

datatype RawTaskOperationKind =
    Raw_op_create | Set_intent_summary | Record_feasibility | Add_clarification_ask | Apply_answer
  | Update_constraints | Update_assumptions | Set_status

record RawTaskOperation =
  ro_op :: RawTaskOperationKind
  ro_payload :: payload

datatype DraftTaskTreeOperationKind =
    Op_create_tree | Op_patch_node | Op_add_node | Op_remove_node | Op_reorder_siblings | Op_attach_options
  | Op_mark_ready | Op_mark_accepted

record DraftTaskTreeOperation =
  do_op :: DraftTaskTreeOperationKind
  do_payload :: payload

record PublishOptions =
  po_root_draft_task_ids :: "string list"
  po_start_immediately :: bool
  po_metadata :: payload

record MutateRawTaskCommand =
  mr_command_id :: string
  mr_command_session_id :: string
  mr_raw_task_id :: "string option"
  mr_actor :: ActorRef
  mr_causation_message_id :: "string option"
  mr_expected_version :: "int option"
  mr_idempotency_key :: "string option"
  mr_operations :: "RawTaskOperation list"

record MutateDraftTaskTreeCommand =
  md_command_id :: string
  md_session_id :: string
  md_draft_tree_id :: "string option"
  md_raw_task_id :: "string option"
  md_actor :: ActorRef
  md_causation_message_id :: "string option"
  md_expected_version :: "int option"
  md_idempotency_key :: "string option"
  md_operations :: "DraftTaskTreeOperation list"

record PublishDraftTaskTreeCommand =
  pd_command_id :: string
  pd_session_id :: string
  pd_draft_tree_id :: string
  pd_actor :: ActorRef
  pd_expected_version :: "int option"
  pd_idempotency_key :: string
  pd_publish_options :: PublishOptions

datatype AuthoringCommand =
    MutateRawTask MutateRawTaskCommand
  | MutateDraftTaskTree MutateDraftTaskTreeCommand
  | PublishDraftTaskTree PublishDraftTaskTreeCommand

fun command_id :: "AuthoringCommand \<Rightarrow> string" where
  "command_id (MutateRawTask c) = mr_command_id c"
| "command_id (MutateDraftTaskTree c) = md_command_id c"
| "command_id (PublishDraftTaskTree c) = pd_command_id c"

fun command_session_id :: "AuthoringCommand \<Rightarrow> string" where
  "command_session_id (MutateRawTask c) = mr_command_session_id c"
| "command_session_id (MutateDraftTaskTree c) = md_session_id c"
| "command_session_id (PublishDraftTaskTree c) = pd_session_id c"

fun command_actor :: "AuthoringCommand \<Rightarrow> ActorRef" where
  "command_actor (MutateRawTask c) = mr_actor c"
| "command_actor (MutateDraftTaskTree c) = md_actor c"
| "command_actor (PublishDraftTaskTree c) = pd_actor c"

fun command_idempotency_key :: "AuthoringCommand \<Rightarrow> string option" where
  "command_idempotency_key (MutateRawTask c) = mr_idempotency_key c"
| "command_idempotency_key (MutateDraftTaskTree c) = md_idempotency_key c"
| "command_idempotency_key (PublishDraftTaskTree c) = Some (pd_idempotency_key c)"

text \<open>\<open>expected_version: int | None = Field(default=None, ge=1)\<close>.\<close>

definition opt_positive :: "int option \<Rightarrow> bool" where
  "opt_positive v \<longleftrightarrow> (case v of None \<Rightarrow> True | Some k \<Rightarrow> 1 \<le> k)"

definition ActorRef_fields_ok :: "ActorRef \<Rightarrow> bool" where
  "ActorRef_fields_ok a \<longleftrightarrow> ac_actor_id a \<noteq> [] \<and> opt_nonempty (ac_display_name a)"

text \<open>The field constraints of the three classes, with \<open>_validate_target\<close>.\<close>

fun command_ok :: "AuthoringCommand \<Rightarrow> bool" where
  "command_ok (MutateRawTask c) =
     (mr_command_id c \<noteq> [] \<and> mr_command_session_id c \<noteq> [] \<and> opt_nonempty (mr_raw_task_id c)
      \<and> ActorRef_fields_ok (mr_actor c) \<and> opt_nonempty (mr_causation_message_id c)
      \<and> opt_positive (mr_expected_version c) \<and> opt_nonempty (mr_idempotency_key c) \<and> mr_operations c \<noteq> []
      \<and> (list_ex (\<lambda>q. ro_op q = Raw_op_create) (mr_operations c) \<or> mr_raw_task_id c \<noteq> None))"
| "command_ok (MutateDraftTaskTree c) =
     (md_command_id c \<noteq> [] \<and> md_session_id c \<noteq> [] \<and> opt_nonempty (md_draft_tree_id c)
      \<and> opt_nonempty (md_raw_task_id c) \<and> ActorRef_fields_ok (md_actor c)
      \<and> opt_nonempty (md_causation_message_id c) \<and> opt_positive (md_expected_version c)
      \<and> opt_nonempty (md_idempotency_key c) \<and> md_operations c \<noteq> []
      \<and> (list_ex (\<lambda>q. do_op q = Op_create_tree) (md_operations c) \<or> md_draft_tree_id c \<noteq> None))"
| "command_ok (PublishDraftTaskTree c) =
     (pd_command_id c \<noteq> [] \<and> pd_session_id c \<noteq> [] \<and> pd_draft_tree_id c \<noteq> [] \<and> ActorRef_fields_ok (pd_actor c)
      \<and> opt_positive (pd_expected_version c) \<and> pd_idempotency_key c \<noteq> [])"

datatype AuthoringCommandMode = All_or_nothing | Best_effort

record AuthoringCommandBatch =
  ab_batch_id :: string
  ab_session_id :: string
  ab_actor :: ActorRef
  ab_causation_message_id :: "string option"
  ab_idempotency_key :: "string option"
  ab_mode :: AuthoringCommandMode
  ab_commands :: "AuthoringCommand list"

fun is_publish :: "AuthoringCommand \<Rightarrow> bool" where
  "is_publish (PublishDraftTaskTree c) = True"
| "is_publish _ = False"

definition AuthoringCommandBatch_validate :: "AuthoringCommandBatch \<Rightarrow> AuthoringCommandBatch result" where
  "AuthoringCommandBatch_validate b =
     (if ab_batch_id b = [] \<or> ab_session_id b = [] \<or> \<not> ActorRef_fields_ok (ab_actor b)
         \<or> \<not> opt_nonempty (ab_causation_message_id b) \<or> \<not> opt_nonempty (ab_idempotency_key b)
         \<or> ab_commands b = [] \<or> \<not> list_all command_ok (ab_commands b)
         \<or> list_ex (\<lambda>c. command_session_id c \<noteq> ab_session_id b) (ab_commands b)
         \<or> list_ex (\<lambda>c. command_actor c \<noteq> ab_actor b) (ab_commands b)
         \<or> (ab_mode b = Best_effort \<and> list_ex is_publish (ab_commands b))
      then Inl (ValidationError (Msg ''AuthoringCommandBatch'' []))
      else Inr b)"

section \<open>Results\<close>

datatype AuthoringMessageEffectType = Effect_informational | Effect_actionable

record AuthoringMessageEffect =
  me_message_type :: AuthoringMessageEffectType
  me_content :: string
  me_task_id :: "string option"
  me_context :: payload
  me_action_options :: "string list"
  me_requires_response :: bool

definition AuthoringMessageEffect_validate :: "AuthoringMessageEffect \<Rightarrow> AuthoringMessageEffect result" where
  "AuthoringMessageEffect_validate e =
     (if me_content e = [] \<or> \<not> opt_nonempty (me_task_id e)
         \<or> (me_requires_response e \<and> me_message_type e \<noteq> Effect_actionable)
         \<or> (me_message_type e = Effect_actionable \<and> me_requires_response e \<and> me_action_options e = [])
      then Inl (ValidationError (Msg ''AuthoringMessageEffect'' []))
      else Inr e)"

text \<open>Errors and warnings have the same fields; the message is \<open>str(exc)\<close>.\<close>

record AuthoringCommandError =
  ce_code :: string
  ce_message :: msg
  ce_command_id :: "string option"

text \<open>A text is empty exactly if its template is: every interpolated value stands in a \<open>{}\<close> of it.\<close>

definition AuthoringCommandError_validate :: "AuthoringCommandError \<Rightarrow> AuthoringCommandError result" where
  "AuthoringCommandError_validate e =
     (case ce_message e of Msg text vs \<Rightarrow>
        if ce_code e = [] \<or> text = [] \<or> \<not> opt_nonempty (ce_command_id e)
        then Inl (ValidationError (Msg ''AuthoringCommandError'' []))
        else Inr e)"

record AuthoringCommandResult =
  ar_ok :: bool
  ar_batch_id :: "string option"
  ar_applied_command_ids :: "string list"
  ar_object_refs :: "TaskRef list"
  ar_message_effects :: "AuthoringMessageEffect list"
  ar_emitted_message_ids :: "string list"
  ar_errors :: "AuthoringCommandError list"
  ar_warnings :: "AuthoringCommandError list"

definition AuthoringCommandResult_validate :: "AuthoringCommandResult \<Rightarrow> AuthoringCommandResult result" where
  "AuthoringCommandResult_validate r =
     (if \<not> opt_nonempty (ar_batch_id r) \<or> (ar_ok r \<and> ar_errors r \<noteq> []) \<or> (\<not> ar_ok r \<and> ar_errors r = [])
      then Inl (ValidationError (Msg ''AuthoringCommandResult'' []))
      else Inr r)"

section \<open>Idempotency records\<close>

record AuthoringCommandIdempotencyRecord =
  ir_session_id :: string
  ir_idempotency_key :: string
  ir_request_hash :: string
  ir_result :: AuthoringCommandResult
  ir_created_at :: datetime

type_synonym InMemoryAuthoringCommandIdempotencyStore = "(string \<times> string, AuthoringCommandIdempotencyRecord) dict"

definition record_key :: "AuthoringCommandIdempotencyRecord \<Rightarrow> string \<times> string" where
  "record_key r = (ir_session_id r, ir_idempotency_key r)"

definition records_get ::
  "InMemoryAuthoringCommandIdempotencyStore \<Rightarrow> string \<Rightarrow> string \<Rightarrow> AuthoringCommandIdempotencyRecord option" where
  "records_get st session_id key = dict_get st (session_id, key)"

definition records_put ::
  "InMemoryAuthoringCommandIdempotencyStore \<Rightarrow> AuthoringCommandIdempotencyRecord
     \<Rightarrow> AuthoringCommandIdempotencyRecord \<times> InMemoryAuthoringCommandIdempotencyStore" where
  "records_put st r =
     (case dict_get st (record_key r) of
        Some current \<Rightarrow> (current, st)
      | None \<Rightarrow> (r, dict_set st (record_key r) r))"

text \<open>The first record of a key stays.\<close>

lemma records_put_keeps:
  "records_get st s k = Some r \<Longrightarrow> records_get (snd (records_put st r')) s k = Some r"
  by (auto simp: records_put_def records_get_def split: option.splits)

lemma records_put_get: "records_get (snd (records_put st r)) (ir_session_id r) (ir_idempotency_key r) \<noteq> None"
  by (auto simp: records_put_def records_get_def record_key_def split: option.splits)

end
