(* ===== verification/Authoring_Service.thy ===== *)
theory Authoring_Service
  imports Draft_Complete Draft_Validator Authoring_Commands Message_Bus
begin

text \<open>
  \<open>DefaultAuthoringCommandService\<close> of \<^verbatim>\<open>task/authoring_service.py\<close> over the in-memory stores: raw task commands, draft
  tree commands, the publish command and \<open>submit\<close>, which applies a batch, rolls it back, publishes its message effects and
  remembers its result. The optional \<open>authoring_state_store\<close> and \<open>plan_store\<close> are absent, as they are by default, so
  \<open>_create_plan_from_draft_tree\<close> returns \<open>None\<close>. Calls are serial, as under the service's lock. The in-memory stores always
  have \<open>_snapshot\<close> and the in-memory cache never raises, so the answers \<open>transaction_unavailable\<close> and
  \<open>idempotency_unavailable\<close> do not occur.
\<close>

section \<open>State and surroundings\<close>

text \<open>
  The service with the stores it was given. The publisher is \<open>DefaultTaskPublisher\<close> over the task bus and the same draft
  store, or absent.
\<close>

record 'j authoring_service =
  sv_raw :: InMemoryRawTaskStore
  sv_draft :: InMemoryDraftTaskStore
  sv_bus :: InMemoryTaskBus
  sv_has_publisher :: bool
  sv_messages :: "'j InProcessMessageBus option"
  sv_records :: InMemoryAuthoringCommandIdempotencyStore
  sv_validator :: "DraftTaskTreeValidator option"

text \<open>
  Pydantic's decoding of a payload into the fields of a class (with its generated defaults), the rendering of values as text
  and the hash of a request are arguments. So are the identifiers, clock readings and publisher draws, indexed by the place in
  the batch at which they are drawn.
\<close>

record 'j service_env =
  ev_feasibility :: "json \<Rightarrow> FeasibilityReport result"
  ev_option :: "string \<Rightarrow> json \<Rightarrow> RawTaskAnswerOption result"
  ev_patch :: "json \<Rightarrow> TaskNodePatch result"
  ev_repr :: "json \<Rightarrow> string"
  ev_hash :: "AuthoringCommandBatch \<Rightarrow> string"
  ev_codec :: "'j message_codec"
  ev_id :: "nat list \<Rightarrow> string"
  ev_clock :: "nat list \<Rightarrow> nat \<Rightarrow> datetime"
  ev_publish :: "nat list \<Rightarrow> publish_env"

text \<open>The surroundings of the \<open>i\<close>-th part of a call.\<close>

definition part :: "nat \<Rightarrow> 'j service_env \<Rightarrow> 'j service_env" where
  "part i env = env\<lparr>ev_id := \<lambda>p. ev_id env (i # p), ev_clock := \<lambda>p. ev_clock env (i # p),
     ev_publish := \<lambda>p. ev_publish env (i # p)\<rparr>"

record command_output =
  co_command_id :: string
  co_object_refs :: "TaskRef list"
  co_message_effects :: "AuthoringMessageEffect list"
  co_warnings :: "AuthoringCommandError list"

definition plain_output :: "string \<Rightarrow> TaskRef list \<Rightarrow> command_output" where
  "plain_output i refs = \<lparr>co_command_id = i, co_object_refs = refs, co_message_effects = [], co_warnings = []\<rparr>"

definition draft_ref :: "string \<Rightarrow> TaskRef" where
  "draft_ref i = \<lparr>ref_kind = Draft_ref, ref_id = i\<rparr>"

definition published_ref :: "string \<Rightarrow> TaskRef" where
  "published_ref i = \<lparr>ref_kind = Published_ref, ref_id = i\<rparr>"

section \<open>Raw task operations\<close>

fun raw_status_str :: "RawTaskStatus \<Rightarrow> string" where
  "raw_status_str Raw_created = ''created''"
| "raw_status_str Raw_assessing = ''assessing''"
| "raw_status_str Raw_awaiting_user = ''awaiting_user''"
| "raw_status_str Raw_ready_to_plan = ''ready_to_plan''"
| "raw_status_str Raw_converted = ''converted''"
| "raw_status_str Raw_rejected = ''rejected''"
| "raw_status_str Raw_cancelled = ''cancelled''"

text \<open>A value given for the field \<open>status\<close> of a \<open>RawTask\<close>.\<close>

definition raw_status_field :: "json \<Rightarrow> RawTaskStatus result" where
  "raw_status_field v =
     bind_ok (str_field ''RawTask'' v) (\<lambda>s.
       case find (\<lambda>st. raw_status_str st = s) [Raw_created, Raw_assessing, Raw_awaiting_user, Raw_ready_to_plan,
              Raw_converted, Raw_rejected, Raw_cancelled] of
         None \<Rightarrow> Inl (ValidationError (Msg ''RawTask'' []))
       | Some st \<Rightarrow> Inr st)"

fun feasibility_status_str :: "FeasibilityStatus \<Rightarrow> string" where
  "feasibility_status_str Ready = ''ready''"
| "feasibility_status_str Needs_clarification = ''needs_clarification''"
| "feasibility_status_str Needs_user_permission = ''needs_user_permission''"
| "feasibility_status_str Partially_feasible = ''partially_feasible''"
| "feasibility_status_str Not_supported = ''not_supported''"
| "feasibility_status_str Unsafe = ''unsafe''"

fun next_action_str :: "FeasibilityNextAction \<Rightarrow> string" where
  "next_action_str Generate_task_tree = ''generate_task_tree''"
| "next_action_str Ask_user = ''ask_user''"
| "next_action_str Offer_alternatives = ''offer_alternatives''"
| "next_action_str Decline = ''decline''"

text \<open>\<open>defaults.get(status, "ask_user")\<close> of \<open>_default_next_action\<close>; a list or an object is not hashable.\<close>

definition default_action_value :: "json \<Rightarrow> string result" where
  "default_action_value v =
     (case v of
        JStr s \<Rightarrow> Inr (case find (\<lambda>st. feasibility_status_str st = s) [Ready, Partially_feasible, Needs_clarification,
                          Needs_user_permission, Not_supported, Unsafe] of
                        None \<Rightarrow> ''ask_user''
                      | Some st \<Rightarrow> next_action_str (default_next_action st))
      | JArr _ \<Rightarrow> Inl (TypeError (Msg ''unhashable type'' []))
      | JObj _ \<Rightarrow> Inl (TypeError (Msg ''unhashable type'' []))
      | _ \<Rightarrow> Inr ''ask_user'')"

definition with_next_action :: "json \<Rightarrow> json result" where
  "with_next_action data =
     (case data of
        JObj d \<Rightarrow>
          if dict_get d ''suggested_next_action'' \<noteq> None then Inr data
          else map_ok (\<lambda>a. JObj (dict_set d ''suggested_next_action'' (JStr a))) (default_action_value (payload_get d ''status''))
      | _ \<Rightarrow> Inr data)"

definition feasibility_from_payload :: "'j service_env \<Rightarrow> payload \<Rightarrow> FeasibilityReport result" where
  "feasibility_from_payload env p =
     (let data = (case dict_get p ''feasibility'' of None \<Rightarrow> JObj p | Some v \<Rightarrow> v)
      in bind_ok (with_next_action data) (\<lambda>v. bind_ok (ev_feasibility env v) FeasibilityReport_validate))"

definition status_for_feasibility :: "FeasibilityReport \<Rightarrow> payload \<Rightarrow> RawTaskStatus \<Rightarrow> RawTaskStatus result" where
  "status_for_feasibility report p current =
     (if dict_get p ''status'' \<noteq> None
      then bind_ok (require_str p ''status'') (\<lambda>s. raw_status_field (JStr s))
      else if fr_status report \<in> {Ready, Partially_feasible} then Inr Raw_ready_to_plan
      else if fr_status report \<in> {Not_supported, Unsafe} then Inr Raw_rejected
      else Inr current)"

definition raw_task_from_payload :: "'j service_env \<Rightarrow> MutateRawTaskCommand \<Rightarrow> payload \<Rightarrow> RawTask result" where
  "raw_task_from_payload env command p =
     bind_ok (require_str p ''source_message_id'') (\<lambda>source.
     bind_ok (require_str p ''user_input'') (\<lambda>user_input.
     bind_ok (tuple_payload (ev_repr env) p ''constraints'') (\<lambda>constraints.
     bind_ok (tuple_payload (ev_repr env) p ''assumptions'') (\<lambda>assumptions.
     bind_ok (str_field ''RawTask'' (json_or (payload_get p ''raw_task_id'')
                (JStr (or_else (mr_raw_task_id command) (ev_id env []))))) (\<lambda>raw_task_id.
     bind_ok (str_field ''RawTask'' (json_or (payload_get p ''created_by'') (JStr (ac_actor_id (mr_actor command)))))
       (\<lambda>created_by.
     bind_ok (opt_str_field ''RawTask'' (payload_get p ''intent_summary'')) (\<lambda>intent_summary.
     RawTask_validate
       \<lparr>rt_raw_task_id = raw_task_id, rt_session_id = mr_command_session_id command, rt_source_message_id = source,
        rt_user_input = user_input, rt_status = Raw_created, rt_intent_summary = intent_summary,
        rt_feasibility = None, rt_asks = [], rt_answers = [], rt_constraints = constraints,
        rt_assumptions = assumptions, rt_version = 1, rt_created_by = created_by,
        rt_created_at = ev_clock env [] 0, rt_updated_at = ev_clock env [] 1\<rparr>)))))))"

definition ask_from_payload :: "'j service_env \<Rightarrow> string \<Rightarrow> payload \<Rightarrow> RawTaskAsk result" where
  "ask_from_payload env raw_task_id p =
     bind_ok (case dict_get p ''options'' of None \<Rightarrow> Inr [] | Some v \<Rightarrow> iter_json v) (\<lambda>vs.
     bind_ok (those_ok (map (\<lambda>(i, v). bind_ok (ev_option env (ev_id env [Suc i]) v) (\<lambda>opt.
                if RawTaskAnswerOption_fields_ok opt then Inr opt
                else Inl (ValidationError (Msg ''RawTaskAnswerOption'' [])))) (enumerate 0 vs))) (\<lambda>options.
     bind_ok (require_str p ''question'') (\<lambda>question.
     bind_ok (require_str p ''reason'') (\<lambda>why.
     bind_ok (str_field ''RawTaskAsk'' (json_or (payload_get p ''ask_id'') (JStr (ev_id env [0])))) (\<lambda>ask_id.
     bind_ok (str_field ''RawTaskAsk'' (json_or (payload_get p ''created_by'') (JStr ''collaborator_agent'')))
       (\<lambda>created_by.
     let ask = \<lparr>ask_ask_id = ask_id, ask_raw_task_id = raw_task_id, ask_question = question, ask_options = options,
                ask_required = (case dict_get p ''required'' of None \<Rightarrow> True | Some v \<Rightarrow> truthy v), ask_reason = why,
                ask_created_by = created_by, ask_created_at = ev_clock env [] 0\<rparr>
     in if RawTaskAsk_fields_ok ask then Inr ask else Inl (ValidationError (Msg ''RawTaskAsk'' []))))))))"

definition answer_from_payload :: "'j service_env \<Rightarrow> RawTask \<Rightarrow> payload \<Rightarrow> RawTaskAnswer result" where
  "answer_from_payload env raw_task p =
     bind_ok (require_str p ''ask_id'') (\<lambda>ask_id.
     if ask_id \<notin> set (map ask_ask_id (rt_asks raw_task)) then Inl (ValueError (Msg ''RawTaskAsk {} not found'' [ask_id]))
     else if ask_id \<in> set (map ans_ask_id (rt_answers raw_task))
     then Inl (ValueError (Msg ''RawTaskAsk {} is already answered'' [ask_id]))
     else bind_ok (require_str p ''value'') (\<lambda>answer.
     bind_ok (require_str p ''source_message_id'') (\<lambda>source.
     bind_ok (str_field ''RawTaskAnswer'' (json_or (payload_get p ''answer_id'') (JStr (ev_id env [0])))) (\<lambda>answer_id.
     let a = \<lparr>ans_answer_id = answer_id, ans_raw_task_id = rt_raw_task_id raw_task, ans_ask_id = ask_id,
              ans_value = answer, ans_source_message_id = source, ans_created_at = ev_clock env [] 0\<rparr>
     in if RawTaskAnswer_fields_ok a then Inr a else Inl (ValidationError (Msg ''RawTaskAnswer'' []))))))"

definition status_after_answers :: "RawTask \<Rightarrow> RawTaskAnswer list \<Rightarrow> RawTaskStatus" where
  "status_after_answers raw_task given =
     (if list_ex (\<lambda>a. ask_required a \<and> ask_ask_id a \<notin> set (map ans_ask_id given)) (rt_asks raw_task)
      then Raw_awaiting_user else Raw_assessing)"

definition patched_values :: "string list \<Rightarrow> string list \<Rightarrow> string list \<Rightarrow> string list" where
  "patched_values current add remove = append_missing (filter (\<lambda>v. v \<notin> set remove) current) add"

text \<open>\<open>add\<close> and \<open>remove\<close> of an update operation, in the order the keyword arguments are evaluated.\<close>

definition patched_payload :: "'j service_env \<Rightarrow> string list \<Rightarrow> payload \<Rightarrow> string list result" where
  "patched_payload env current p =
     bind_ok (tuple_payload (ev_repr env) p ''add'') (\<lambda>add.
     map_ok (patched_values current add) (tuple_payload (ev_repr env) p ''remove''))"

fun raw_op_str :: "RawTaskOperationKind \<Rightarrow> string" where
  "raw_op_str Raw_op_create = ''create''"
| "raw_op_str Set_intent_summary = ''set_intent_summary''"
| "raw_op_str Record_feasibility = ''record_feasibility''"
| "raw_op_str Add_clarification_ask = ''add_clarification_ask''"
| "raw_op_str Apply_answer = ''apply_answer''"
| "raw_op_str Update_constraints = ''update_constraints''"
| "raw_op_str Update_assumptions = ''update_assumptions''"
| "raw_op_str Set_status = ''set_status''"

definition apply_raw_operation ::
  "'j service_env \<Rightarrow> MutateRawTaskCommand \<Rightarrow> RawTaskOperation \<Rightarrow> RawTask option \<Rightarrow> RawTask result" where
  "apply_raw_operation env command operation current =
     (let p = ro_payload operation
      in if ro_op operation = Raw_op_create
         then (if current \<noteq> None then Inl (ValueError (Msg ''RawTask create operation must be first'' []))
               else raw_task_from_payload env command p)
         else case current of
           None \<Rightarrow> Inl (ValueError (Msg ''{} requires an existing RawTask'' [raw_op_str (ro_op operation)]))
         | Some raw_task \<Rightarrow>
             (case ro_op operation of
                Set_intent_summary \<Rightarrow>
                  bind_ok (require_str p ''intent_summary'') (\<lambda>s. RawTask_validate (raw_task\<lparr>rt_intent_summary := Some s\<rparr>))
              | Record_feasibility \<Rightarrow>
                  bind_ok (feasibility_from_payload env p) (\<lambda>report.
                  bind_ok (status_for_feasibility report p (rt_status raw_task)) (\<lambda>status.
                  RawTask_validate (raw_task\<lparr>rt_feasibility := Some report, rt_status := status\<rparr>)))
              | Add_clarification_ask \<Rightarrow>
                  bind_ok (ask_from_payload env (rt_raw_task_id raw_task) p) (\<lambda>ask.
                  RawTask_validate (raw_task\<lparr>rt_asks := rt_asks raw_task @ [ask], rt_status := Raw_awaiting_user\<rparr>))
              | Apply_answer \<Rightarrow>
                  bind_ok (answer_from_payload env raw_task p) (\<lambda>answer.
                  let given = rt_answers raw_task @ [answer]
                  in bind_ok (if truthy (payload_get p ''status'') then raw_status_field (payload_get p ''status'')
                              else Inr (status_after_answers raw_task given)) (\<lambda>status.
                     RawTask_validate (raw_task\<lparr>rt_answers := given, rt_status := status\<rparr>)))
              | Update_constraints \<Rightarrow>
                  bind_ok (patched_payload env (rt_constraints raw_task) p) (\<lambda>vs.
                  RawTask_validate (raw_task\<lparr>rt_constraints := vs\<rparr>))
              | Update_assumptions \<Rightarrow>
                  bind_ok (patched_payload env (rt_assumptions raw_task) p) (\<lambda>vs.
                  RawTask_validate (raw_task\<lparr>rt_assumptions := vs\<rparr>))
              | Set_status \<Rightarrow>
                  bind_ok (require_str p ''status'') (\<lambda>s. bind_ok (raw_status_field (JStr s)) (\<lambda>status.
                  RawTask_validate (raw_task\<lparr>rt_status := status\<rparr>)))
              | Raw_op_create \<Rightarrow> Inl (ValueError (Msg ''unsupported RawTask operation {}'' [''create'']))))"

fun apply_raw_operations ::
  "'j service_env \<Rightarrow> MutateRawTaskCommand \<Rightarrow> nat \<Rightarrow> RawTaskOperation list \<Rightarrow> RawTask option \<Rightarrow> RawTask option result" where
  "apply_raw_operations env command i [] current = Inr current"
| "apply_raw_operations env command i (q # qs) current =
     bind_ok (apply_raw_operation (part i env) command q current)
       (\<lambda>r. apply_raw_operations env command (Suc i) qs (Some r))"

definition require_raw_task :: "InMemoryRawTaskStore \<Rightarrow> string \<Rightarrow> string option \<Rightarrow> RawTask result" where
  "require_raw_task st session_id raw_task_id =
     (case raw_task_id of
        None \<Rightarrow> Inl (ValueError (Msg ''raw_task_id is required'' []))
      | Some i \<Rightarrow> (case raw_get st session_id i of
                    None \<Rightarrow> Inl (LookupError (Msg ''RawTask {} not found'' [i]))
                  | Some r \<Rightarrow> Inr r))"

text \<open>What \<open>_mutate_raw_task\<close> computes before it writes.\<close>

definition mutated_raw_task :: "'j service_env \<Rightarrow> InMemoryRawTaskStore \<Rightarrow> MutateRawTaskCommand \<Rightarrow> RawTask result" where
  "mutated_raw_task env st command =
     bind_ok (if list_ex (\<lambda>q. ro_op q = Raw_op_create) (mr_operations command) then Inr None
              else map_ok Some (require_raw_task st (mr_command_session_id command) (mr_raw_task_id command))) (\<lambda>current.
     bind_ok (apply_raw_operations env command 0 (mr_operations command) current) (\<lambda>r.
       case r of
         None \<Rightarrow> Inl (ValueError (Msg ''RawTask command did not produce a RawTask'' []))
       | Some raw_task \<Rightarrow> Inr raw_task))"

definition require_raw_version :: "InMemoryRawTaskStore \<Rightarrow> RawTask \<Rightarrow> int result" where
  "require_raw_version st r =
     (case raw_get st (rt_session_id r) (rt_raw_task_id r) of
        None \<Rightarrow> Inl (LookupError (Msg ''RawTask {} not found'' [rt_raw_task_id r]))
      | Some current \<Rightarrow> Inr (rt_version current))"

definition mutate_raw_task ::
  "'j service_env \<Rightarrow> 'j authoring_service \<Rightarrow> MutateRawTaskCommand \<Rightarrow> command_output result \<times> 'j authoring_service" where
  "mutate_raw_task env sv command =
     (case mutated_raw_task env (sv_raw sv) command of
        Inl e \<Rightarrow> (Inl e, sv)
      | Inr raw_task \<Rightarrow>
          (if list_ex (\<lambda>q. ro_op q = Raw_op_create) (mr_operations command)
           then (case raw_create (sv_raw sv) raw_task of
                   (Inl e, st) \<Rightarrow> (Inl e, sv\<lparr>sv_raw := st\<rparr>)
                 | (Inr _, st) \<Rightarrow> (Inr (plain_output (mr_command_id command) []), sv\<lparr>sv_raw := st\<rparr>))
           else (case (if mr_expected_version command \<in> {None, Some 0} then require_raw_version (sv_raw sv) raw_task
                       else Inr (the (mr_expected_version command))) of
                   Inl e \<Rightarrow> (Inl e, sv)
                 | Inr expected \<Rightarrow>
                     (case raw_save (sv_raw sv) raw_task expected (ev_clock env [] 0) of
                        (Inl e, st) \<Rightarrow> (Inl e, sv\<lparr>sv_raw := st\<rparr>)
                      | (Inr _, st) \<Rightarrow> (Inr (plain_output (mr_command_id command) []), sv\<lparr>sv_raw := st\<rparr>)))))"

section \<open>Draft tree operations\<close>

definition draft_node_from_payload ::
  "'j service_env \<Rightarrow> string \<Rightarrow> string \<Rightarrow> json \<Rightarrow> int option \<Rightarrow> string option \<Rightarrow> DraftTaskNode result" where
  "draft_node_from_payload env session_id draft_tree_id data given_index parent =
     (case data of
        JObj p \<Rightarrow>
          bind_ok (case given_index of
                     Some k \<Rightarrow> Inr k
                   | None \<Rightarrow> int_of_json (case dict_get p ''order_index'' of None \<Rightarrow> JInt 0 | Some v \<Rightarrow> v)) (\<lambda>index.
          bind_ok (require_str p ''title'') (\<lambda>title.
          bind_ok (require_str p ''intent'') (\<lambda>intent.
          bind_ok (tuple_payload (ev_repr env) p ''acceptance_criteria'') (\<lambda>criteria.
          bind_ok (require_str p ''required_capability'') (\<lambda>capability.
          bind_ok (tuple_payload (ev_repr env) p ''constraints'') (\<lambda>constraints.
          bind_ok (str_field ''DraftTaskNode'' (json_or (payload_get p ''draft_task_id'') (JStr (ev_id env [])))) (\<lambda>draft_task_id.
          bind_ok (opt_str_field ''DraftTaskNode'' (if or_else parent [] \<noteq> [] then JStr (the parent)
                     else payload_get p ''parent_draft_task_id'')) (\<lambda>parent_id.
          bind_ok (opt_str_field ''DraftTaskNode'' (payload_get p ''summary'')) (\<lambda>summary.
          bind_ok (opt_str_field ''DraftTaskNode'' (payload_get p ''instructions'')) (\<lambda>instructions.
          bind_ok (opt_str_field ''DraftTaskNode'' (payload_get p ''rationale'')) (\<lambda>rationale.
          bind_ok (str_field ''DraftTaskNode'' (json_or (payload_get p ''created_by'') (JStr ''collaborator_agent'')))
            (\<lambda>created_by.
          DraftTaskNode_validate
            \<lparr>dn_draft_task_id = draft_task_id, dn_session_id = session_id, dn_draft_tree_id = draft_tree_id,
             dn_parent_draft_task_id = parent_id, dn_order_index = index, dn_title = title, dn_intent = intent,
             dn_summary = summary, dn_instructions = instructions, dn_acceptance_criteria = criteria,
             dn_required_capability = capability, dn_constraints = constraints, dn_rationale = rationale,
             dn_status = Draft, dn_version = 1, dn_created_by = created_by,
             dn_created_at = ev_clock env [] 0, dn_updated_at = ev_clock env [] 1\<rparr>))))))))))))
      | _ \<Rightarrow> Inl (TypeError (Msg ''draft node payload must be an object'' [])))"

text \<open>The readings of the clock after the first \<open>n\<close>.\<close>

definition later :: "nat \<Rightarrow> (nat \<Rightarrow> datetime) \<Rightarrow> nat \<Rightarrow> datetime" where
  "later n clock k = clock (n + k)"

text \<open>The largest of some values, for the termination of the recursion into children.\<close>

fun max_size :: "json list \<Rightarrow> nat" where
  "max_size [] = 0"
| "max_size (v # vs) = max (size v) (max_size vs)"

lemma max_size_less: "(\<And>v. v \<in> set vs \<Longrightarrow> size v < n) \<Longrightarrow> 0 < n \<Longrightarrow> max_size vs < n"
  by (induction vs) auto

lemma children_size:
  assumes "(case dict_get p k of None \<Rightarrow> Inr [] | Some v \<Rightarrow> iter_json v) = Inr vs"
  shows "Suc (2 * max_size vs) < 2 * size (JObj p)"
proof -
  have "max_size vs < size (JObj p)"
    by (rule max_size_less) (use assms size_iter_json in \<open>auto split: option.splits\<close>)
  then show ?thesis by simp
qed

text \<open>\<open>_add_descendants\<close>, which recurses into the children of each node it adds.\<close>

function (sequential) add_descendants ::
    "'j service_env \<Rightarrow> string \<Rightarrow> string \<Rightarrow> string \<Rightarrow> json \<Rightarrow> InMemoryDraftTaskStore
       \<Rightarrow> TaskRef list result \<times> InMemoryDraftTaskStore"
  and add_children ::
    "'j service_env \<Rightarrow> string \<Rightarrow> string \<Rightarrow> string \<Rightarrow> nat \<Rightarrow> json list \<Rightarrow> InMemoryDraftTaskStore
       \<Rightarrow> TaskRef list result \<times> InMemoryDraftTaskStore"
where
  "add_descendants env sid tid parent (JObj p) st =
     (case (case dict_get p ''children'' of None \<Rightarrow> Inr [] | Some v \<Rightarrow> iter_json v) of
        Inl e \<Rightarrow> (Inl e, st)
      | Inr vs \<Rightarrow> add_children env sid tid parent 0 vs st)"
| "add_descendants env sid tid parent _ st = (Inr [], st)"
| "add_children env sid tid parent i [] st = (Inr [], st)"
| "add_children env sid tid parent i (c # cs) st =
     (case bind_ok (get_tree st sid tid) (\<lambda>tree. map_ok (\<lambda>n. (tree, n))
             (draft_node_from_payload (part i env) sid tid c (Some (int i)) (Some parent))) of
        Inl e \<Rightarrow> (Inl e, st)
      | Inr (tree, child) \<Rightarrow>
          (case add_node st sid tid child (dt_version tree) (later 2 (ev_clock (part i env) [])) of
             (Inl e, st1) \<Rightarrow> (Inl e, st1)
           | (Inr created, st1) \<Rightarrow>
               (case add_descendants (part i env) sid tid (dn_draft_task_id created) c st1 of
                  (Inl e, st2) \<Rightarrow> (Inl e, st2)
                | (Inr refs, st2) \<Rightarrow>
                    (case add_children env sid tid parent (Suc i) cs st2 of
                       (Inl e, st3) \<Rightarrow> (Inl e, st3)
                     | (Inr rest, st3) \<Rightarrow> (Inr (draft_ref (dn_draft_task_id created) # refs @ rest), st3)))))"
  by pat_completeness auto

termination
  by (relation "inv_image (less_than <*lex*> less_than)
        (case_sum (\<lambda>(env, sid, tid, parent, v, st). (2 * size v, 0)) (\<lambda>(env, sid, tid, parent, i, vs, st). (Suc (2 * max_size vs), length vs)))")
     (auto dest: children_size simp: less_Suc_eq_le)

definition root_nodes_from_payload :: "'j service_env \<Rightarrow> string \<Rightarrow> json list \<Rightarrow> DraftTaskNode list result" where
  "root_nodes_from_payload env session_id roots =
     those_ok (map (\<lambda>(i, v). draft_node_from_payload (part i env) session_id ''placeholder'' v (Some (int i)) None)
       (enumerate 0 roots))"

fun add_root_descendants ::
  "'j service_env \<Rightarrow> string \<Rightarrow> string \<Rightarrow> nat \<Rightarrow> (json \<times> DraftTaskNode) list \<Rightarrow> InMemoryDraftTaskStore
     \<Rightarrow> TaskRef list result \<times> InMemoryDraftTaskStore" where
  "add_root_descendants env sid tid i [] st = (Inr [], st)"
| "add_root_descendants env sid tid i ((v, n) # vs) st =
     (case add_descendants (part i env) sid tid (dn_draft_task_id n) v st of
        (Inl e, st1) \<Rightarrow> (Inl e, st1)
      | (Inr refs, st1) \<Rightarrow>
          (case add_root_descendants env sid tid (Suc i) vs st1 of
             (Inl e, st2) \<Rightarrow> (Inl e, st2)
           | (Inr rest, st2) \<Rightarrow> (Inr (refs @ rest), st2)))"

definition nonempty_or_none :: "string \<Rightarrow> string option" where
  "nonempty_or_none s = (if s = [] then None else Some s)"

text \<open>The branch \<open>create_tree\<close> of \<open>_apply_draft_operation\<close>.\<close>

definition op_create_tree ::
  "'j service_env \<Rightarrow> InMemoryDraftTaskStore \<Rightarrow> MutateDraftTaskTreeCommand \<Rightarrow> payload
     \<Rightarrow> command_output result \<times> InMemoryDraftTaskStore" where
  "op_create_tree env st command p =
     (case bind_ok (required_sequence p ''roots'') (\<lambda>payloads.
           bind_ok (root_nodes_from_payload (part 0 env) (md_session_id command) payloads) (\<lambda>roots.
           bind_ok (optional_str p ''title'') (\<lambda>title.
           map_ok (\<lambda>summary. (payloads, roots, title, summary)) (optional_str p ''summary'')))) of
        Inl e \<Rightarrow> (Inl e, st)
      | Inr (payloads, roots, title, summary) \<Rightarrow>
          (case create_tree st (md_session_id command) roots (nonempty_or_none title) (nonempty_or_none summary)
                  (ev_id env []) (ev_clock env []) of
             (Inl e, st1) \<Rightarrow> (Inl e, st1)
           | (Inr tree, st1) \<Rightarrow>
               (case add_root_descendants (part 1 env) (md_session_id command) (dt_draft_tree_id tree) 0
                       (zip payloads (dt_root_nodes tree)) st1 of
                  (Inl e, st2) \<Rightarrow> (Inl e, st2)
                | (Inr refs, st2) \<Rightarrow>
                    (Inr (plain_output (md_command_id command)
                       (map (\<lambda>n. draft_ref (dn_draft_task_id n)) (dt_root_nodes tree) @ refs)), st2))))"

definition require_draft_tree_id :: "MutateDraftTaskTreeCommand \<Rightarrow> string result" where
  "require_draft_tree_id command =
     (case md_draft_tree_id command of
        None \<Rightarrow> Inl (ValueError (Msg ''draft_tree_id is required'' [])) | Some i \<Rightarrow> Inr i)"

definition require_draft_node :: "InMemoryDraftTaskStore \<Rightarrow> string \<Rightarrow> string \<Rightarrow> DraftTaskNode result" where
  "require_draft_node st session_id draft_task_id =
     (case get_node st session_id draft_task_id of
        None \<Rightarrow> Inl (LookupError (Msg ''DraftTaskNode {} not found'' [draft_task_id])) | Some n \<Rightarrow> Inr n)"

text \<open>\<open>command.expected_version or current\<close>.\<close>

definition expected_or :: "int option \<Rightarrow> int \<Rightarrow> int" where
  "expected_or v current = (case v of None \<Rightarrow> current | Some k \<Rightarrow> if k = 0 then current else k)"

definition op_patch_node ::
  "'j service_env \<Rightarrow> InMemoryDraftTaskStore \<Rightarrow> MutateDraftTaskTreeCommand \<Rightarrow> payload
     \<Rightarrow> command_output result \<times> InMemoryDraftTaskStore" where
  "op_patch_node env st command p =
     (case bind_ok (require_str p ''draft_task_id'') (\<lambda>i.
           bind_ok (require_draft_node st (md_session_id command) i) (\<lambda>n.
           bind_ok (ev_patch env (case dict_get p ''patch'' of None \<Rightarrow> JObj [] | Some v \<Rightarrow> v)) (\<lambda>patch.
           if TaskNodePatch_fields_ok patch then Inr (i, n, patch)
           else Inl (ValidationError (Msg ''TaskNodePatch'' []))))) of
        Inl e \<Rightarrow> (Inl e, st)
      | Inr (i, n, patch) \<Rightarrow>
          (case update_node st (md_session_id command) i patch
                  (expected_or (md_expected_version command) (dn_version n)) (ev_clock env []) of
             (Inl e, st1) \<Rightarrow> (Inl e, st1)
           | (Inr updated, st1) \<Rightarrow>
               (Inr (plain_output (md_command_id command) [draft_ref (dn_draft_task_id updated)]), st1)))"

definition op_add_node ::
  "'j service_env \<Rightarrow> InMemoryDraftTaskStore \<Rightarrow> MutateDraftTaskTreeCommand \<Rightarrow> string \<Rightarrow> payload
     \<Rightarrow> command_output result \<times> InMemoryDraftTaskStore" where
  "op_add_node env st command tid p =
     (case bind_ok (get_tree st (md_session_id command) tid) (\<lambda>tree. map_ok (\<lambda>n. (tree, n))
             (draft_node_from_payload env (md_session_id command) tid
                (case dict_get p ''node'' of None \<Rightarrow> JObj p | Some v \<Rightarrow> v) None None)) of
        Inl e \<Rightarrow> (Inl e, st)
      | Inr (tree, n) \<Rightarrow>
          (case add_node st (md_session_id command) tid n
                  (expected_or (md_expected_version command) (dt_version tree)) (later 2 (ev_clock env [])) of
             (Inl e, st1) \<Rightarrow> (Inl e, st1)
           | (Inr created, st1) \<Rightarrow>
               (Inr (plain_output (md_command_id command) [draft_ref (dn_draft_task_id created)]), st1)))"

definition message_effect_from_options :: "'j service_env \<Rightarrow> string \<Rightarrow> payload \<Rightarrow> AuthoringMessageEffect result" where
  "message_effect_from_options env tid p =
     bind_ok (require_str p ''draft_task_id'') (\<lambda>i.
     bind_ok (tuple_payload (ev_repr env) p ''options'') (\<lambda>options.
     if options = [] then Inl (ValueError (Msg ''attach_options operation requires options'' []))
     else bind_ok (case dict_get p ''context'' of
                     None \<Rightarrow> Inr [] | Some (JObj d) \<Rightarrow> Inr d
                   | Some _ \<Rightarrow> Inl (TypeError (Msg ''object is not a mapping'' []))) (\<lambda>context.
     bind_ok (str_field ''AuthoringMessageEffect'' (json_or (payload_get p ''content'')
                (json_or (payload_get p ''prompt'') (JStr ''Please choose an option.'')))) (\<lambda>content.
     AuthoringMessageEffect_validate
       \<lparr>me_message_type = Effect_actionable, me_content = content, me_task_id = Some i,
        me_context = dict_merge [(''draft_tree_id'', JStr tid)] context, me_action_options = options,
        me_requires_response = True\<rparr>))))"

definition op_mark_accepted ::
  "'j service_env \<Rightarrow> InMemoryDraftTaskStore \<Rightarrow> MutateDraftTaskTreeCommand \<Rightarrow> string
     \<Rightarrow> command_output result \<times> InMemoryDraftTaskStore" where
  "op_mark_accepted env st command tid =
     (case get_tree st (md_session_id command) tid of
        Inl e \<Rightarrow> (Inl e, st)
      | Inr tree \<Rightarrow>
          (case mark_accepted st (md_session_id command) tid
                  (expected_or (md_expected_version command) (dt_version tree)) (ev_clock env []) of
             (Inl e, st1) \<Rightarrow> (Inl e, st1)
           | (Inr accepted, st1) \<Rightarrow>
               (Inr (plain_output (md_command_id command)
                  (map (\<lambda>n. draft_ref (dn_draft_task_id n)) (dt_root_nodes accepted))), st1)))"

fun draft_op_str :: "DraftTaskTreeOperationKind \<Rightarrow> string" where
  "draft_op_str Op_create_tree = ''create_tree''"
| "draft_op_str Op_patch_node = ''patch_node''"
| "draft_op_str Op_add_node = ''add_node''"
| "draft_op_str Op_remove_node = ''remove_node''"
| "draft_op_str Op_reorder_siblings = ''reorder_siblings''"
| "draft_op_str Op_attach_options = ''attach_options''"
| "draft_op_str Op_mark_ready = ''mark_ready''"
| "draft_op_str Op_mark_accepted = ''mark_accepted''"

definition apply_draft_operation ::
  "'j service_env \<Rightarrow> InMemoryDraftTaskStore \<Rightarrow> MutateDraftTaskTreeCommand \<Rightarrow> DraftTaskTreeOperation
     \<Rightarrow> command_output result \<times> InMemoryDraftTaskStore" where
  "apply_draft_operation env st command operation =
     (let p = do_payload operation; cid = md_command_id command
      in if do_op operation = Op_create_tree then op_create_tree env st command p
         else case require_draft_tree_id command of
           Inl e \<Rightarrow> (Inl e, st)
         | Inr tid \<Rightarrow>
             (case do_op operation of
                Op_patch_node \<Rightarrow> op_patch_node env st command p
              | Op_add_node \<Rightarrow> op_add_node env st command tid p
              | Op_attach_options \<Rightarrow>
                  (map_ok (\<lambda>effect. (plain_output cid [])\<lparr>co_message_effects := [effect]\<rparr>)
                     (message_effect_from_options env tid p), st)
              | Op_mark_accepted \<Rightarrow> op_mark_accepted env st command tid
              | Op_mark_ready \<Rightarrow>
                  (Inr ((plain_output cid [])\<lparr>co_warnings := [\<lparr>ce_code = ''mark_ready_noop'',
                     ce_message = Msg ''mark_ready is recorded as a no-op until readiness is modeled'' [],
                     ce_command_id = Some cid\<rparr>]\<rparr>), st)
              | q \<Rightarrow> (Inl (ValueError (Msg ''unsupported DraftTaskTree operation {}'' [draft_op_str q])), st)))"

fun apply_draft_operations ::
  "'j service_env \<Rightarrow> InMemoryDraftTaskStore \<Rightarrow> MutateDraftTaskTreeCommand \<Rightarrow> nat \<Rightarrow> DraftTaskTreeOperation list
     \<Rightarrow> command_output list result \<times> InMemoryDraftTaskStore" where
  "apply_draft_operations env st command i [] = (Inr [], st)"
| "apply_draft_operations env st command i (q # qs) =
     (case apply_draft_operation (part i env) st command q of
        (Inl e, st1) \<Rightarrow> (Inl e, st1)
      | (Inr out, st1) \<Rightarrow>
          (case apply_draft_operations env st1 command (Suc i) qs of
             (Inl e, st2) \<Rightarrow> (Inl e, st2)
           | (Inr outs, st2) \<Rightarrow> (Inr (out # outs), st2)))"

definition mutate_draft_tree ::
  "'j service_env \<Rightarrow> 'j authoring_service \<Rightarrow> MutateDraftTaskTreeCommand \<Rightarrow> command_output result \<times> 'j authoring_service" where
  "mutate_draft_tree env sv command =
     (case apply_draft_operations env (sv_draft sv) command 0 (md_operations command) of
        (Inl e, st) \<Rightarrow> (Inl e, sv\<lparr>sv_draft := st\<rparr>)
      | (Inr outs, st) \<Rightarrow>
          (Inr \<lparr>co_command_id = md_command_id command, co_object_refs = concat (map co_object_refs outs),
                co_message_effects = concat (map co_message_effects outs),
                co_warnings = concat (map co_warnings outs)\<rparr>, sv\<lparr>sv_draft := st\<rparr>))"

section \<open>Publishing a draft tree\<close>

definition root_ids :: "DraftTaskNode list \<Rightarrow> string list" where
  "root_ids nodes = map dn_draft_task_id (children_of nodes None)"

fun check_publishable :: "DraftTaskNode list \<Rightarrow> unit result" where
  "check_publishable [] = Inr ()"
| "check_publishable (n # ns) =
     (if dn_status n = DraftTaskStatus.Published then Inl (ValueError (Msg ''draft task tree is already published'' []))
      else if dn_status n = DraftTaskStatus.Cancelled
      then Inl (ValueError (Msg ''cannot publish cancelled draft task {}'' [dn_draft_task_id n]))
      else if dn_status n \<noteq> DraftTaskStatus.Accepted
      then Inl (ValueError (Msg ''draft task tree must be accepted before publish'' []))
      else check_publishable ns)"

definition validate_publish_request :: "PublishDraftTaskTreeCommand \<Rightarrow> DraftTaskNode list \<Rightarrow> unit result" where
  "validate_publish_request command nodes =
     (if nodes = [] then Inl (ValueError (Msg ''draft task tree has no nodes to publish'' []))
      else let requested = set (po_root_draft_task_ids (pd_publish_options command))
           in if requested \<noteq> {} \<and> requested \<noteq> set (root_ids nodes)
              then Inl (ValueError (Msg ''partial root publish is not supported by this boundary'' []))
              else check_publishable nodes)"

text \<open>The loop of \<open>_validate_publish_result\<close> over the mappings: the draft identifiers seen and the tasks of the roots.\<close>

fun scan_mappings ::
  "PublishDraftTaskTreeCommand \<Rightarrow> string list \<Rightarrow> DraftToPublishedMapping list \<Rightarrow> string list \<Rightarrow> string list
     \<Rightarrow> (string list \<times> string list) result" where
  "scan_mappings command roots [] seen mapped = Inr (seen, mapped)"
| "scan_mappings command roots (m # ms) seen mapped =
     (if dm_session_id m \<noteq> pd_session_id command
      then Inl (ValueError (Msg ''publisher mapping session_id does not match command'' []))
      else if dm_draft_tree_id m \<noteq> pd_draft_tree_id command
      then Inl (ValueError (Msg ''publisher mapping draft_tree_id does not match command'' []))
      else if dm_draft_task_id m \<in> set seen
      then Inl (ValueError (Msg ''duplicate mapping for draft task {}'' [dm_draft_task_id m]))
      else scan_mappings command roots ms (dm_draft_task_id m # seen)
             (if dm_draft_task_id m \<in> set roots then dm_task_id m # mapped else mapped))"

definition validate_publish_result ::
  "PublishDraftTaskTreeCommand \<Rightarrow> DraftTaskNode list \<Rightarrow> TaskPublishResult \<Rightarrow> unit result" where
  "validate_publish_result command nodes res =
     (if tp_rejected_task_ids res \<noteq> []
      then Inl (ValueError (Msg ''task publisher rejected draft tasks: {}'' (tp_rejected_task_ids res)))
      else if tp_root_task_ids res = [] then Inl (ValueError (Msg ''task publisher returned no root task ids'' []))
      else if tp_mappings res = []
      then Inl (ValueError (Msg ''task publisher returned no draft-to-published mappings'' []))
      else bind_ok (scan_mappings command (root_ids nodes) (tp_mappings res) [] []) (\<lambda>(seen, mapped).
        let expected = map dn_draft_task_id nodes;
            missing = filter (\<lambda>i. i \<notin> set seen) expected;
            extra = filter (\<lambda>i. i \<notin> set expected) seen
        in if missing \<noteq> []
           then Inl (ValueError (Msg ''publisher mapping missing draft tasks: {}'' (sort (remdups missing))))
           else if extra \<noteq> []
           then Inl (ValueError (Msg ''publisher mapping has unknown draft tasks: {}'' (sort (remdups extra))))
           else if set mapped \<noteq> set (tp_root_task_ids res)
           then Inl (ValueError (Msg ''publisher root_task_ids must match mapped root draft tasks'' []))
           else Inr ()))"

definition published_effect :: "PublishDraftTaskTreeCommand \<Rightarrow> TaskPublishResult \<Rightarrow> AuthoringMessageEffect" where
  "published_effect command res =
     \<lparr>me_message_type = Effect_informational, me_content = ''Draft task tree published.'', me_task_id = None,
      me_context = [(''draft_tree_id'', JStr (pd_draft_tree_id command)),
        (''root_task_ids'', JArr (map JStr (tp_root_task_ids res))),
        (''mapping_count'', JInt (int (length (tp_mappings res)))),
        (''start_immediately'', JBool (po_start_immediately (pd_publish_options command)))],
      me_action_options = [], me_requires_response = False\<rparr>"

text \<open>The checks before the publisher is called.\<close>

definition check_publish_command ::
  "'j authoring_service \<Rightarrow> PublishDraftTaskTreeCommand \<Rightarrow> (DraftTaskTree \<times> DraftTaskNode list) result" where
  "check_publish_command sv command =
     (if \<not> sv_has_publisher sv then Inl (ValueError (Msg ''task publisher is not configured'' []))
      else bind_ok (get_tree (sv_draft sv) (pd_session_id command) (pd_draft_tree_id command)) (\<lambda>tree.
           bind_ok (list_nodes (sv_draft sv) (pd_session_id command) (pd_draft_tree_id command)) (\<lambda>nodes.
           bind_ok (validate_publish_request command nodes) (\<lambda>_.
           if pd_expected_version command \<noteq> None \<and> pd_expected_version command \<noteq> Some (dt_version tree)
           then Inl (ValueError (Msg ''stale version for {}: expected {}, current {}''
                  [pd_draft_tree_id command, str_int (the (pd_expected_version command)), str_int (dt_version tree)]))
           else case sv_validator sv of
                  None \<Rightarrow> Inr (tree, nodes)
                | Some v \<Rightarrow>
                    if \<not> vt_valid (validate_tree v tree)
                    then Inl (ValueError (Msg ''draft task tree validation failed: {}''
                           (map (\<lambda>i. case vi_message i of Msg text vs \<Rightarrow> text) (vt_errors (validate_tree v tree)))))
                    else Inr (tree, nodes)))))"

definition publish_draft_command ::
  "'j service_env \<Rightarrow> 'j authoring_service \<Rightarrow> PublishDraftTaskTreeCommand \<Rightarrow> command_output result \<times> 'j authoring_service" where
  "publish_draft_command env sv command =
     (case check_publish_command sv command of
        Inl e \<Rightarrow> (Inl e, sv)
      | Inr (tree, nodes) \<Rightarrow>
          (case publish_draft_tree (ev_publish env []) (sv_bus sv) (Some (sv_draft sv)) (pd_session_id command)
                  (pd_draft_tree_id command) of
             (Inl e, b) \<Rightarrow> (Inl e, sv\<lparr>sv_bus := b\<rparr>)
           | (Inr res, b) \<Rightarrow>
               (case validate_publish_result command nodes res of
                  Inl e \<Rightarrow> (Inl e, sv\<lparr>sv_bus := b\<rparr>)
                | Inr _ \<Rightarrow>
                    (case mark_published (sv_draft sv) (pd_session_id command) (pd_draft_tree_id command) (tp_mappings res)
                            (Some (expected_or (pd_expected_version command) (dt_version tree))) (ev_clock env []) of
                       (Inl e, st) \<Rightarrow> (Inl e, sv\<lparr>sv_bus := b, sv_draft := st\<rparr>)
                     | (Inr _, st) \<Rightarrow>
                         (Inr \<lparr>co_command_id = pd_command_id command,
                               co_object_refs = map published_ref (tp_root_task_ids res),
                               co_message_effects = [published_effect command res], co_warnings = []\<rparr>,
                          sv\<lparr>sv_bus := b, sv_draft := st\<rparr>)))))"

section \<open>Batches\<close>

fun apply_command ::
  "'j service_env \<Rightarrow> 'j authoring_service \<Rightarrow> AuthoringCommand \<Rightarrow> command_output result \<times> 'j authoring_service" where
  "apply_command env sv (MutateRawTask c) = mutate_raw_task env sv c"
| "apply_command env sv (MutateDraftTaskTree c) = mutate_draft_tree env sv c"
| "apply_command env sv (PublishDraftTaskTree c) = publish_draft_command env sv c"

text \<open>The class of an exception and its text.\<close>

fun error_code :: "py_error \<Rightarrow> string" where
  "error_code (LookupError m) = ''not_found''"
| "error_code (KeyError m) = ''not_found''"
| "error_code (ValidationError m) = ''invalid_command''"
| "error_code (ValueError m) = ''invalid_command''"
| "error_code (TypeError m) = ''invalid_command''"
| "error_code (TaskStoreError m) = ''store_error''"
| "error_code (VersionConflictError m) = ''store_error''"
| "error_code _ = ''authoring_error''"

fun error_text :: "py_error \<Rightarrow> msg" where
  "error_text (TaskStoreError m) = m"
| "error_text (VersionConflictError m) = m"
| "error_text (LookupError m) = m"
| "error_text (KeyError m) = m"
| "error_text (ValueError m) = m"
| "error_text (ValidationError m) = m"
| "error_text (RuntimeError m) = m"
| "error_text (OverflowError m) = m"
| "error_text (AskStoreError m) = m"
| "error_text (MessageStreamError m) = m"
| "error_text (py_error.StopIteration m) = m"
| "error_text (RecursionError m) = m"
| "error_text (TypeError m) = m"

definition command_error :: "AuthoringCommand \<Rightarrow> py_error \<Rightarrow> AuthoringCommandError result" where
  "command_error c e = AuthoringCommandError_validate
     \<lparr>ce_code = error_code e, ce_message = error_text e, ce_command_id = Some (command_id c)\<rparr>"

text \<open>
  The loop over the commands. It ends early when a command of an \<open>all_or_nothing\<close> batch fails: the last component is that
  error. An exception that leaves the loop is on the left.
\<close>

fun run_commands ::
  "'j service_env \<Rightarrow> AuthoringCommandMode \<Rightarrow> nat \<Rightarrow> AuthoringCommand list \<Rightarrow> 'j authoring_service
     \<Rightarrow> (command_output list \<times> AuthoringCommandError list \<times> AuthoringCommandError option) result \<times> 'j authoring_service" where
  "run_commands env mode i [] sv = (Inr ([], [], None), sv)"
| "run_commands env mode i (c # cs) sv =
     (case apply_command (part i env) sv c of
        (Inr out, sv1) \<Rightarrow>
          (case run_commands env mode (Suc i) cs sv1 of
             (Inl e, sv2) \<Rightarrow> (Inl e, sv2)
           | (Inr (outs, errors, stop), sv2) \<Rightarrow> (Inr (out # outs, errors, stop), sv2))
      | (Inl exc, sv1) \<Rightarrow>
          (case command_error c exc of
             Inl e \<Rightarrow> (Inl e, sv1)
           | Inr err \<Rightarrow>
               if mode = All_or_nothing then (Inr ([], [err], Some err), sv1)
               else (case run_commands env mode (Suc i) cs sv1 of
                       (Inl e, sv2) \<Rightarrow> (Inl e, sv2)
                     | (Inr (outs, errors, stop), sv2) \<Rightarrow> (Inr (outs, err # errors, stop), sv2))))"

definition effect_message ::
  "'j service_env \<Rightarrow> nat \<Rightarrow> AuthoringCommandBatch \<Rightarrow> AuthoringMessageEffect \<Rightarrow> AgentMessage" where
  "effect_message env i batch e =
     \<lparr>am_message_id = ev_id env [i], am_session_id = ab_session_id batch, am_task_id = me_task_id e,
      am_agent_id = ac_actor_id (ab_actor batch), am_parent_message_id = None,
      am_message_type = (case me_message_type e of Effect_informational \<Rightarrow> Informational | Effect_actionable \<Rightarrow> Actionable),
      am_content = me_content e, am_context = me_context e, am_action_options = me_action_options e,
      am_requires_response = me_requires_response e, am_timeout_seconds = None, am_risk_assessment = None,
      am_related_action_id = None, am_response_source = None, am_response_value = None,
      am_created_at = ev_clock env [i] 0\<rparr>"

fun publish_effects ::
  "'j service_env \<Rightarrow> AuthoringCommandBatch \<Rightarrow> nat \<Rightarrow> AuthoringMessageEffect list \<Rightarrow> 'j InProcessMessageBus
     \<Rightarrow> string list result \<times> 'j InProcessMessageBus" where
  "publish_effects env batch i [] mb = (Inr [], mb)"
| "publish_effects env batch i (e # es) mb =
     (case bus_publish (ev_codec env) mb (effect_message env i batch e) of
        Inl err \<Rightarrow> (Inl err, mb)
      | Inr mb1 \<Rightarrow>
          (case publish_effects env batch (Suc i) es mb1 of
             (Inl err, mb2) \<Rightarrow> (Inl err, mb2)
           | (Inr emitted, mb2) \<Rightarrow> (Inr (am_message_id (effect_message env i batch e) # emitted), mb2)))"

definition batch_idempotency_key :: "AuthoringCommandBatch \<Rightarrow> string option" where
  "batch_idempotency_key batch =
     (case ab_idempotency_key batch of
        Some k \<Rightarrow> Some k
      | None \<Rightarrow> (case ab_commands batch of [c] \<Rightarrow> command_idempotency_key c | _ \<Rightarrow> None))"

text \<open>\<open>_snapshot\<close> and \<open>_restore\<close>: the two stores, and nothing for \<open>best_effort\<close>.\<close>

definition take_snapshot :: "'j authoring_service \<Rightarrow> AuthoringCommandMode \<Rightarrow> (InMemoryRawTaskStore \<times> InMemoryDraftTaskStore) option" where
  "take_snapshot sv mode = (if mode \<noteq> All_or_nothing then None else Some (sv_raw sv, sv_draft sv))"

definition restore_snapshot ::
  "(InMemoryRawTaskStore \<times> InMemoryDraftTaskStore) option \<Rightarrow> 'j authoring_service \<Rightarrow> 'j authoring_service" where
  "restore_snapshot snapshot sv =
     (case snapshot of None \<Rightarrow> sv | Some (raw, draft) \<Rightarrow> sv\<lparr>sv_raw := raw, sv_draft := draft\<rparr>)"

definition remember ::
  "'j service_env \<Rightarrow> AuthoringCommandBatch \<Rightarrow> AuthoringCommandResult \<Rightarrow> 'j authoring_service \<Rightarrow> 'j authoring_service" where
  "remember env batch res sv =
     (case batch_idempotency_key batch of
        None \<Rightarrow> sv
      | Some key \<Rightarrow> sv\<lparr>sv_records := snd (records_put (sv_records sv)
          \<lparr>ir_session_id = ab_session_id batch, ir_idempotency_key = key, ir_request_hash = ev_hash env batch,
           ir_result = res, ir_created_at = ev_clock env [] 0\<rparr>)\<rparr>)"

definition rejected :: "AuthoringCommandBatch \<Rightarrow> AuthoringCommandError \<Rightarrow> AuthoringCommandResult" where
  "rejected batch err =
     \<lparr>ar_ok = False, ar_batch_id = Some (ab_batch_id batch), ar_applied_command_ids = [], ar_object_refs = [],
      ar_message_effects = [], ar_emitted_message_ids = [], ar_errors = [err], ar_warnings = []\<rparr>"

definition completed ::
  "AuthoringCommandBatch \<Rightarrow> command_output list \<Rightarrow> AuthoringCommandError list \<Rightarrow> string list \<Rightarrow> AuthoringCommandResult" where
  "completed batch outs errors emitted =
     \<lparr>ar_ok = (errors = []), ar_batch_id = Some (ab_batch_id batch), ar_applied_command_ids = map co_command_id outs,
      ar_object_refs = concat (map co_object_refs outs), ar_message_effects = concat (map co_message_effects outs),
      ar_emitted_message_ids = emitted, ar_errors = errors, ar_warnings = concat (map co_warnings outs)\<rparr>"

definition emit_effects ::
  "'j service_env \<Rightarrow> AuthoringCommandBatch \<Rightarrow> AuthoringMessageEffect list \<Rightarrow> 'j authoring_service
     \<Rightarrow> string list result \<times> 'j authoring_service" where
  "emit_effects env batch effects sv =
     (case sv_messages sv of
        None \<Rightarrow> (Inr [], sv)
      | Some mb \<Rightarrow> map_prod id (\<lambda>mb'. sv\<lparr>sv_messages := Some mb'\<rparr>) (publish_effects env batch 0 effects mb))"

text \<open>The part of \<open>submit\<close> after the look at the cache.\<close>

definition submit_fresh ::
  "'j service_env \<Rightarrow> 'j authoring_service \<Rightarrow> AuthoringCommandBatch \<Rightarrow> AuthoringCommandResult result \<times> 'j authoring_service" where
  "submit_fresh env sv batch =
     (let snapshot = take_snapshot sv (ab_mode batch)
      in case run_commands (part 0 env) (ab_mode batch) 0 (ab_commands batch) sv of
           (Inl e, sv1) \<Rightarrow> (Inl e, sv1)
         | (Inr (outs, errors, Some err), sv1) \<Rightarrow>
             (Inr (rejected batch err), remember env batch (rejected batch err) (restore_snapshot snapshot sv1))
         | (Inr (outs, errors, None), sv1) \<Rightarrow>
             (case emit_effects (part 1 env) batch (concat (map co_message_effects outs)) sv1 of
                (Inl e, sv2) \<Rightarrow> (Inl e, sv2)
              | (Inr emitted, sv2) \<Rightarrow>
                  (Inr (completed batch outs errors emitted), remember env batch (completed batch outs errors emitted) sv2)))"

text \<open>The record \<open>submit\<close> looks up first.\<close>

definition cached_record :: "'j authoring_service \<Rightarrow> AuthoringCommandBatch \<Rightarrow> AuthoringCommandIdempotencyRecord option" where
  "cached_record sv batch =
     (case batch_idempotency_key batch of
        None \<Rightarrow> None | Some key \<Rightarrow> records_get (sv_records sv) (ab_session_id batch) key)"

definition submit ::
  "'j service_env \<Rightarrow> 'j authoring_service \<Rightarrow> AuthoringCommandBatch \<Rightarrow> AuthoringCommandResult result \<times> 'j authoring_service" where
  "submit env sv batch =
     (case cached_record sv batch of
        Some r \<Rightarrow> (Inr (ir_result r), sv)
      | None \<Rightarrow> submit_fresh env sv batch)"

end
