(* ===== verification/Authoring_Atomic.thy ===== *)
theory Authoring_Atomic
  imports Authoring_Service
begin

text \<open>
  What \<open>submit\<close> promises: a batch is applied as a whole or not at all, a key is answered once, and the stores keep their
  invariants whatever the payloads. The locale \<open>service_part\<close> carries what holds of every command over to batches; it is
  interpreted for the draft trees, the raw tasks and the task bus. The last section shows what a rollback does not undo.
\<close>

section \<open>The stores a batch is applied to\<close>

text \<open>What the calls of a store can reach.\<close>

definition draft_reaches :: "InMemoryDraftTaskStore \<Rightarrow> InMemoryDraftTaskStore \<Rightarrow> bool" where
  "draft_reaches st st' \<longleftrightarrow> (\<exists>ops. st' = draft_store_after ops st)"

lemma draft_reaches_refl [simp]: "draft_reaches st st"
  unfolding draft_reaches_def by (rule exI [of _ "[]"]) (simp add: draft_store_after_def)

lemma draft_reaches_trans: "\<lbrakk>draft_reaches a b; draft_reaches b c\<rbrakk> \<Longrightarrow> draft_reaches a c"
  unfolding draft_reaches_def by (metis draft_store_after_def fold_append comp_apply)

lemma draft_reaches_run: "draft_reaches st (snd (draft_run op st))"
  unfolding draft_reaches_def by (rule exI [of _ "[op]"]) (simp add: draft_store_after_def)

lemma draft_reaches_step:
  "draft_reaches st (snd (create_tree st sid roots title summary tid clock))"
  "draft_reaches st (snd (add_node st sid tid node e clock))"
  "draft_reaches st (snd (update_node st sid nid patch e clock))"
  "draft_reaches st (snd (mark_accepted st sid tid e clock))"
  "draft_reaches st (snd (mark_published st sid tid ms v clock))"
  using draft_reaches_run [of st "Create_tree sid roots title summary tid clock"]
    draft_reaches_run [of st "Add_node sid tid node e clock"]
    draft_reaches_run [of st "Update_node sid nid patch e clock"]
    draft_reaches_run [of st "Mark_accepted sid tid e clock"]
    draft_reaches_run [of st "Mark_published sid tid ms v clock"]
  by simp_all

lemmas draft_reaches_steps = draft_reaches_step [THEN draft_reaches_trans]

lemma draft_reaches_stepE:
  "create_tree st sid roots title summary tid clock = (r1, st') \<Longrightarrow> draft_reaches st st'"
  "add_node st sid tid node e clock = (r2, st') \<Longrightarrow> draft_reaches st st'"
  "update_node st sid nid patch e clock = (r3, st') \<Longrightarrow> draft_reaches st st'"
  "mark_accepted st sid tid e clock = (r4, st') \<Longrightarrow> draft_reaches st st'"
  "mark_published st sid tid ms v clock = (r5, st') \<Longrightarrow> draft_reaches st st'"
  using draft_reaches_step by (metis snd_conv)+

lemma add_descendants_reaches:
  "draft_reaches st (snd (add_descendants env sid tid parent v st))"
  "draft_reaches st (snd (add_children env sid tid parent i vs st))"
proof (induction env sid tid parent v st and env sid tid parent i vs st rule: add_descendants_add_children.induct)
  case (4 env sid tid parent i c cs st)
  show ?case
  proof (cases "bind_ok (get_tree st sid tid) (\<lambda>tree. map_ok (\<lambda>n. (tree, n))
      (draft_node_from_payload (part i env) sid tid c (Some (int i)) (Some parent)))")
    case (Inr q)
    obtain tree child where q: "q = (tree, child)" by (cases q)
    note found = Inr [unfolded q]
    obtain r st1 where run: "add_node st sid tid child (dt_version tree) (later 2 (ev_clock (part i env) [])) = (r, st1)"
      by (cases "add_node st sid tid child (dt_version tree) (later 2 (ev_clock (part i env) []))")
    have s1: "draft_reaches st st1" using run by (rule draft_reaches_stepE)
    show ?thesis
    proof (cases r)
      case (Inr created)
      note run = run [unfolded Inr]
      obtain r2 st2 where sub: "add_descendants (part i env) sid tid (dn_draft_task_id created) c st1 = (r2, st2)"
        by (cases "add_descendants (part i env) sid tid (dn_draft_task_id created) c st1")
      have s2: "draft_reaches st st2"
        using 4(1) [OF found refl run [symmetric] refl] sub s1 by (auto intro: draft_reaches_trans)
      show ?thesis
      proof (cases r2)
        case (Inr refs)
        note sub = sub [unfolded Inr]
        have "draft_reaches st2 (snd (add_children env sid tid parent (Suc i) cs st2))"
          using 4(2) [OF found refl run [symmetric] refl sub [symmetric] refl] .
        then show ?thesis using found run sub s2 by (auto split: prod.split sum.split intro: draft_reaches_trans)
      qed (use found run sub s2 in simp)
    qed (use found run s1 in simp)
  qed simp
qed (simp_all split: sum.split option.split)

lemma add_root_descendants_reaches: "draft_reaches st (snd (add_root_descendants env sid tid i vs st))"
proof (induction env sid tid i vs st rule: add_root_descendants.induct)
  case (2 env sid tid i v n vs st)
  obtain r st1 where sub: "add_descendants (part i env) sid tid (dn_draft_task_id n) v st = (r, st1)"
    by (cases "add_descendants (part i env) sid tid (dn_draft_task_id n) v st")
  have s1: "draft_reaches st st1" using add_descendants_reaches(1) sub by (metis snd_conv)
  show ?case
  proof (cases r)
    case (Inr refs)
    have "draft_reaches st1 (snd (add_root_descendants env sid tid (Suc i) vs st1))" using 2 [OF sub [symmetric] Inr] .
    with s1 show ?thesis by (auto simp: sub Inr split: prod.split sum.split intro: draft_reaches_trans)
  qed (use sub s1 in simp)
qed simp

lemma op_create_tree_reaches: "draft_reaches st (snd (op_create_tree env st command p))"
proof -
  have "draft_reaches st (snd (add_root_descendants e s t i vs st1))" if "draft_reaches st st1" for e :: "'a service_env" and s t i vs st1
    using that add_root_descendants_reaches by (rule draft_reaches_trans)
  then show ?thesis
    unfolding op_create_tree_def
    by (auto split: sum.splits prod.splits dest!: draft_reaches_stepE) (metis snd_conv)+
qed

lemma apply_draft_operation_reaches: "draft_reaches st (snd (apply_draft_operation env st command q))"
  unfolding apply_draft_operation_def op_patch_node_def op_add_node_def op_mark_accepted_def
  by (auto simp: Let_def op_create_tree_reaches split: sum.splits prod.splits DraftTaskTreeOperationKind.splits
      dest!: draft_reaches_stepE)

lemma apply_draft_operations_reaches: "draft_reaches st (snd (apply_draft_operations env st command i qs))"
proof (induction env st command i qs rule: apply_draft_operations.induct)
  case (2 env st command i q qs)
  have "draft_reaches st (snd (apply_draft_operation (part i env) st command q))" by (rule apply_draft_operation_reaches)
  then show ?case
    using 2 by (auto split: sum.split prod.split intro: draft_reaches_trans)
qed simp

text \<open>
  The raw task store holds values of its class under their own keys, and no ask of them is answered twice. The class alone
  does not say the latter: the service refuses the second answer.
\<close>

definition raw_ok :: "RawTask \<Rightarrow> bool" where
  "raw_ok r \<longleftrightarrow> RawTask_validate r = Inr r \<and> distinct (map ans_ask_id (rt_answers r))"

definition raw_inv :: "InMemoryRawTaskStore \<Rightarrow> bool" where
  "raw_inv st \<longleftrightarrow> (\<forall>k r. dict_get st k = Some r \<longrightarrow> k = (rt_session_id r, rt_raw_task_id r) \<and> raw_ok r)"

lemma raw_inv_Nil [simp]: "raw_inv []"
  by (simp add: raw_inv_def)

lemma raw_inv_create: "\<lbrakk>raw_inv st; raw_ok r\<rbrakk> \<Longrightarrow> raw_inv (snd (raw_create st r))"
  by (auto simp: raw_inv_def raw_create_def Let_def)

lemma raw_inv_save: "\<lbrakk>raw_inv st; raw_ok r\<rbrakk> \<Longrightarrow> raw_inv (snd (raw_save st r v now))"
  by (auto simp: raw_inv_def raw_save_def raw_ok_def Let_def RawTask_validate_def split: option.splits sum.splits if_splits)

lemma raw_ok_validated:
  "\<lbrakk>RawTask_validate r = Inr r'; distinct (map ans_ask_id (rt_answers r))\<rbrakk> \<Longrightarrow> raw_ok r'"
  using RawTask_validate_cases [of r r'] by (auto simp: raw_ok_def)

lemma raw_ok_distinct: "raw_ok r \<Longrightarrow> distinct (map ans_ask_id (rt_answers r))"
  by (simp add: raw_ok_def)

lemma raw_task_from_payload_ok: "raw_task_from_payload env command p = Inr r \<Longrightarrow> raw_ok r"
  unfolding raw_task_from_payload_def by (elim bind_ok_InrE) (erule raw_ok_validated, simp)

lemma answer_from_payload_new:
  "answer_from_payload env raw_task p = Inr a \<Longrightarrow> ans_ask_id a \<notin> ans_ask_id ` set (rt_answers raw_task)"
  by (auto simp: answer_from_payload_def Let_def elim!: bind_ok_InrE split: if_splits)

lemma apply_raw_operation_ok:
  "\<lbrakk>apply_raw_operation env command q current = Inr r; \<And>c. current = Some c \<Longrightarrow> raw_ok c\<rbrakk> \<Longrightarrow> raw_ok r"
  unfolding apply_raw_operation_def Let_def
  by (auto split: if_splits option.splits RawTaskOperationKind.splits elim!: bind_ok_InrE raw_ok_validated
      dest: raw_task_from_payload_ok dest!: answer_from_payload_new raw_ok_distinct)

lemma apply_raw_operations_ok:
  "\<lbrakk>apply_raw_operations env command i qs current = Inr (Some r); \<And>c. current = Some c \<Longrightarrow> raw_ok c\<rbrakk> \<Longrightarrow> raw_ok r"
proof (induction env command i qs current arbitrary: r rule: apply_raw_operations.induct)
  case (2 env command i q qs current)
  obtain c where c: "apply_raw_operation (part i env) command q current = Inr c"
    "apply_raw_operations env command (Suc i) qs (Some c) = Inr (Some r)"
    using "2.prems"(1) by (auto elim: bind_ok_InrE)
  show ?case using "2.IH" [OF c(2)] apply_raw_operation_ok [OF c(1) "2.prems"(2)] by simp
qed simp

lemma mutated_raw_task_ok:
  assumes "raw_inv st" "mutated_raw_task env st command = Inr r"
  shows "raw_ok r"
proof -
  obtain current where current: "(if list_ex (\<lambda>q. ro_op q = Raw_op_create) (mr_operations command) then Inr None
      else map_ok Some (require_raw_task st (mr_command_session_id command) (mr_raw_task_id command))) = Inr current"
    and run: "apply_raw_operations env command 0 (mr_operations command) current = Inr (Some r)"
    using assms(2) by (auto simp: mutated_raw_task_def elim!: bind_ok_InrE split: option.splits)
  have "raw_ok c" if "current = Some c" for c
    using current that assms(1)
    by (auto simp: require_raw_task_def raw_get_def raw_inv_def elim!: map_ok_InrE split: if_splits option.splits)
  with run show ?thesis by (rule apply_raw_operations_ok)
qed

lemma mutate_raw_task_inv:
  assumes "raw_inv (sv_raw sv)"
  shows "raw_inv (sv_raw (snd (mutate_raw_task env sv command)))"
proof -
  have create: "raw_inv st" if "mutated_raw_task env (sv_raw sv) command = Inr r" "raw_create (sv_raw sv) r = (a, st)" for r a st
    using raw_inv_create [OF assms mutated_raw_task_ok [OF assms that(1)]] that(2) by simp
  have save: "raw_inv st" if "mutated_raw_task env (sv_raw sv) command = Inr r" "raw_save (sv_raw sv) r v now = (a, st)"
    for r v now a st
    using raw_inv_save [OF assms mutated_raw_task_ok [OF assms that(1)], of v now] that(2) by simp
  show ?thesis
    using assms by (auto simp: mutate_raw_task_def split: sum.split prod.split intro: create save)
qed

section \<open>What a batch may do to a part of the state\<close>

text \<open>The tasks that publishing adds to the bus.\<close>

lemma publish_each_writes: "(bus_write False)\<^sup>*\<^sup>* b (snd (publish_each b ts))"
proof (induction b ts rule: publish_each.induct)
  case (2 b t ts)
  show ?case
  proof (cases "Task_Bus.publish b t")
    case (Inr p)
    obtain u b' where p: "p = (u, b')" by (cases p)
    have "bus_write False b b'" using Inr p by (auto intro: publish_write)
    moreover have "(bus_write False)\<^sup>*\<^sup>* b' (snd (publish_each b' ts))" using 2 Inr p by simp
    ultimately show ?thesis using Inr p by (simp add: converse_rtranclp_into_rtranclp)
  qed simp
qed simp

lemma publish_request_writes: "(bus_write False)\<^sup>*\<^sup>* b (snd (publish_request uuid5 fresh clock now b r))"
  using publish_each_writes by (auto simp: publish_request_def split: option.split sum.split prod.split) (metis snd_conv)+

lemma publish_draft_tree_writes: "(bus_write False)\<^sup>*\<^sup>* b (snd (publish_draft_tree env b st sid tid))"
proof -
  have "(bus_write False)\<^sup>*\<^sup>* b b'" if "publish_request u f c w b r = (a, b')" for u f c w r a b'
    using publish_request_writes [of b u f c w r] that by simp
  then have "(bus_write False)\<^sup>*\<^sup>* b (snd (publish_draft_nodes env b sid tid nodes))" for nodes
    by (auto simp: publish_draft_nodes_def split: sum.split prod.split)
  then show ?thesis by (auto simp: publish_draft_tree_def split: sum.split prod.split option.split)
qed

text \<open>
  A part of the state and how commands may change it: what holds of every command, and of a rollback, holds of a batch and of
  a sequence of batches.
\<close>

definition service_after ::
  "('j service_env \<times> AuthoringCommandBatch) list \<Rightarrow> 'j authoring_service \<Rightarrow> 'j authoring_service" where
  "service_after calls sv = fold (\<lambda>(env, batch) s. snd (submit env s batch)) calls sv"

locale service_part =
  fixes view :: "'j authoring_service \<Rightarrow> 'v"
    and may_become :: "'v \<Rightarrow> 'v \<Rightarrow> bool"
  assumes stays: "may_become v v"
    and chains: "\<lbrakk>may_become u v; may_become v w\<rbrakk> \<Longrightarrow> may_become u w"
    and command: "may_become (view sv) (view (snd (apply_command env sv c)))"
    and rollback: "may_become (view sv) (view sv') \<Longrightarrow> may_become (view sv) (view (restore_snapshot (take_snapshot sv mode) sv'))"
    and aside: "view (sv\<lparr>sv_messages := m\<rparr>) = view sv" "view (sv\<lparr>sv_records := q\<rparr>) = view sv"
begin

lemma run_commands: "may_become (view sv) (view (snd (run_commands env mode i cs sv)))"
proof (induction env mode i cs sv rule: run_commands.induct)
  case (2 env mode i c cs sv)
  obtain r sv1 where r: "apply_command (part i env) sv c = (r, sv1)" by (cases "apply_command (part i env) sv c")
  have s1: "may_become (view sv) (view sv1)" using command [of sv "part i env" c] r by simp
  have rest: "may_become (view sv) (view sv2)"
    if "may_become (view sv1) (view (snd (run_commands env mode (Suc i) cs sv1)))" "run_commands env mode (Suc i) cs sv1 = (a, sv2)" for a sv2
    using chains [OF s1] that by simp
  show ?case
    using 2 s1 by (auto simp: r split: sum.split prod.split intro: rest)
qed (simp add: stays)

lemma remember_aside: "view (remember env batch res sv) = view sv"
  by (simp add: remember_def aside split: option.split)

lemma emit_aside: "view (snd (emit_effects env batch es sv)) = view sv"
  by (simp add: emit_effects_def aside split: option.split)

lemma submit: "may_become (view sv) (view (snd (submit env sv batch)))"
proof (cases "cached_record sv batch")
  case None
  obtain r sv1 where r: "run_commands (part 0 env) (ab_mode batch) 0 (ab_commands batch) sv = (r, sv1)"
    by (cases "run_commands (part 0 env) (ab_mode batch) 0 (ab_commands batch) sv")
  have s1: "may_become (view sv) (view sv1)" using run_commands r by (metis snd_conv)
  have emit: "may_become (view sv) (view sv2)" if "emit_effects e batch es sv1 = (a, sv2)" for e es a sv2
    using s1 that emit_aside by (metis snd_conv)
  show ?thesis
    using s1 by (auto simp: submit_def None submit_fresh_def Let_def r remember_aside rollback
        split: sum.split prod.split option.split intro: emit)
qed (simp add: submit_def stays)

lemma after: "may_become (view sv) (view (service_after calls sv))"
proof (induction calls arbitrary: sv)
  case (Cons call calls)
  show ?case
    using chains [OF submit [of sv "fst call" "snd call"] Cons.IH] by (simp add: service_after_def split_beta)
qed (simp add: service_after_def stays)

end

lemma mutate_raw_task_frame:
  "sv_draft (snd (mutate_raw_task env sv c)) = sv_draft sv" "sv_bus (snd (mutate_raw_task env sv c)) = sv_bus sv"
  by (auto simp: mutate_raw_task_def split: sum.split prod.split)

lemma mutate_draft_tree_frame:
  "sv_raw (snd (mutate_draft_tree env sv c)) = sv_raw sv" "sv_bus (snd (mutate_draft_tree env sv c)) = sv_bus sv"
  "draft_reaches (sv_draft sv) (sv_draft (snd (mutate_draft_tree env sv c)))"
  using apply_draft_operations_reaches [of "sv_draft sv" env c 0 "md_operations c"]
  by (auto simp: mutate_draft_tree_def split: sum.split prod.split)

lemma publish_draft_command_frame:
  "sv_raw (snd (publish_draft_command env sv c)) = sv_raw sv"
  "draft_reaches (sv_draft sv) (sv_draft (snd (publish_draft_command env sv c)))"
  "(bus_write False)\<^sup>*\<^sup>* (sv_bus sv) (sv_bus (snd (publish_draft_command env sv c)))"
proof -
  have bus: "(bus_write False)\<^sup>*\<^sup>* (sv_bus sv) b" if "publish_draft_tree e (sv_bus sv) st sid tid = (a, b)" for e st sid tid a b
    using publish_draft_tree_writes [of "sv_bus sv" e st sid tid] that by simp
  show "sv_raw (snd (publish_draft_command env sv c)) = sv_raw sv"
    "draft_reaches (sv_draft sv) (sv_draft (snd (publish_draft_command env sv c)))"
    "(bus_write False)\<^sup>*\<^sup>* (sv_bus sv) (sv_bus (snd (publish_draft_command env sv c)))"
    by (auto simp: publish_draft_command_def split: sum.split prod.split dest: draft_reaches_stepE(5) bus)
qed

lemma restore_fields:
  "sv_draft (restore_snapshot (take_snapshot sv mode) sv') = (if mode = All_or_nothing then sv_draft sv else sv_draft sv')"
  "sv_raw (restore_snapshot (take_snapshot sv mode) sv') = (if mode = All_or_nothing then sv_raw sv else sv_raw sv')"
  "sv_bus (restore_snapshot (take_snapshot sv mode) sv') = sv_bus sv'"
  "sv_messages (restore_snapshot (take_snapshot sv mode) sv') = sv_messages sv'"
  "sv_records (restore_snapshot (take_snapshot sv mode) sv') = sv_records sv'"
  by (auto simp: restore_snapshot_def take_snapshot_def)

interpretation drafts: service_part sv_draft draft_reaches
proof
  show "draft_reaches (sv_draft sv) (sv_draft (snd (apply_command env sv c)))" for env and sv :: "'j authoring_service" and c
    by (cases c) (simp_all add: mutate_raw_task_frame mutate_draft_tree_frame publish_draft_command_frame)
qed (auto simp: restore_fields intro: draft_reaches_trans)

interpretation raws: service_part sv_raw "\<lambda>st st'. raw_inv st \<longrightarrow> raw_inv st'"
proof
  show "raw_inv (sv_raw sv) \<longrightarrow> raw_inv (sv_raw (snd (apply_command env sv c)))" for env and sv :: "'j authoring_service" and c
    by (cases c) (simp_all add: mutate_raw_task_inv mutate_draft_tree_frame publish_draft_command_frame)
qed (auto simp: restore_fields)

interpretation tasks: service_part sv_bus "(bus_write False)\<^sup>*\<^sup>*"
proof
  show "(bus_write False)\<^sup>*\<^sup>* (sv_bus sv) (sv_bus (snd (apply_command env sv c)))" for env and sv :: "'j authoring_service" and c
    by (cases c) (simp_all add: mutate_raw_task_frame mutate_draft_tree_frame publish_draft_command_frame)
qed (auto simp: restore_fields)

section \<open>All or nothing\<close>

lemma apply_command_id: "apply_command env sv c = (Inr out, sv') \<Longrightarrow> co_command_id out = command_id c"
  by (cases c) (auto simp: mutate_raw_task_def mutate_draft_tree_def publish_draft_command_def plain_output_def
      split: sum.splits prod.splits if_splits)

lemma apply_command_aside:
  "sv_messages (snd (apply_command env sv c)) = sv_messages sv" "sv_records (snd (apply_command env sv c)) = sv_records sv"
  by (cases c; auto simp: mutate_raw_task_def mutate_draft_tree_def publish_draft_command_def split: sum.split prod.split)+

lemma run_commands_aside:
  "sv_messages (snd (run_commands env mode i cs sv)) = sv_messages sv
     \<and> sv_records (snd (run_commands env mode i cs sv)) = sv_records sv"
proof (induction env mode i cs sv rule: run_commands.induct)
  case (2 env mode i c cs sv)
  obtain r sv1 where r: "apply_command (part i env) sv c = (r, sv1)" by (cases "apply_command (part i env) sv c")
  have "sv_messages sv1 = sv_messages sv" "sv_records sv1 = sv_records sv"
    using apply_command_aside [of "part i env" sv c] r by simp_all
  then show ?case using 2 by (auto simp: r split: sum.split prod.split)
qed simp

lemma run_commands_all:
  assumes "run_commands env All_or_nothing i cs sv = (Inr (outs, errors, None), sv')"
  shows "map co_command_id outs = map command_id cs \<and> errors = []"
  using assms
proof (induction cs arbitrary: i sv outs errors)
  case (Cons c cs)
  obtain r sv1 where r: "apply_command (part i env) sv c = (r, sv1)" by (cases "apply_command (part i env) sv c")
  show ?case
  proof (cases r)
    case (Inl e)
    then show ?thesis using Cons.prems r by (auto split: sum.splits)
  next
    case (Inr out)
    with Cons.prems r obtain outs' where "run_commands env All_or_nothing (Suc i) cs sv1 = (Inr (outs', errors, None), sv')"
      "outs = out # outs'" by (auto split: sum.splits prod.splits)
    then show ?thesis using Cons.IH apply_command_id r Inr by fastforce
  qed
qed simp

lemma remember_fields [simp]:
  "sv_raw (remember env batch res sv) = sv_raw sv" "sv_draft (remember env batch res sv) = sv_draft sv"
  "sv_bus (remember env batch res sv) = sv_bus sv" "sv_messages (remember env batch res sv) = sv_messages sv"
  by (simp_all add: remember_def split: option.split)

text \<open>C26. An \<open>all_or_nothing\<close> batch is applied as a whole or not at all: when \<open>submit\<close> answers a batch it has not answered
  before, either the answer is ok, has no error and lists every command of the batch as applied, in order; or it lists none,
  and the raw tasks, the draft trees with their mappings and the message stream are exactly as they were.\<close>

theorem batch_all_or_nothing:
  assumes "submit env sv batch = (Inr r, sv')" "ab_mode batch = All_or_nothing" "cached_record sv batch = None"
  shows "if ar_ok r then ar_applied_command_ids r = map command_id (ab_commands batch) \<and> ar_errors r = []
    else ar_applied_command_ids r = [] \<and> length (ar_errors r) = 1
      \<and> sv_raw sv' = sv_raw sv \<and> sv_draft sv' = sv_draft sv \<and> sv_messages sv' = sv_messages sv"
proof -
  obtain q sv1 where q: "run_commands (part 0 env) All_or_nothing 0 (ab_commands batch) sv = (Inr q, sv1)"
    using assms by (auto simp: submit_def submit_fresh_def Let_def split: sum.splits prod.splits option.splits)
  obtain outs errors stop where stop: "q = (outs, errors, stop)" by (cases q)
  show ?thesis
  proof (cases stop)
    case None
    have "map co_command_id outs = map command_id (ab_commands batch)" "errors = []"
      using run_commands_all q stop None by blast+
    then show ?thesis
      using assms q stop None
      by (auto simp: submit_def submit_fresh_def Let_def completed_def split: sum.splits prod.splits)
  next
    case (Some err)
    have "sv_messages sv1 = sv_messages sv"
      using run_commands_aside [of "part 0 env" All_or_nothing 0 "ab_commands batch" sv] q by simp
    then show ?thesis
      using assms q stop Some
      by (auto simp: submit_def submit_fresh_def Let_def rejected_def restore_fields split: sum.splits prod.splits)
  qed
qed

section \<open>Repeated batches\<close>

definition remembered :: "'j authoring_service \<Rightarrow> string \<Rightarrow> string \<Rightarrow> AuthoringCommandResult \<Rightarrow> bool" where
  "remembered sv session_id key r \<longleftrightarrow> (\<exists>q. records_get (sv_records sv) session_id key = Some q \<and> ir_result q = r)"

lemma remember_keeps: "remembered sv s k r \<Longrightarrow> remembered (remember env batch res sv) s k r"
  by (auto simp: remembered_def remember_def records_put_keeps split: option.split)

lemma emit_records: "sv_records (snd (emit_effects env batch es sv)) = sv_records sv"
  by (simp add: emit_effects_def split: option.split)

lemma submit_keeps:
  assumes "remembered sv s k r"
  shows "remembered (snd (submit env sv batch)) s k r"
proof (cases "cached_record sv batch")
  case None
  obtain a sv1 where run: "run_commands (part 0 env) (ab_mode batch) 0 (ab_commands batch) sv = (a, sv1)"
    by (cases "run_commands (part 0 env) (ab_mode batch) 0 (ab_commands batch) sv")
  have s1: "sv_records sv1 = sv_records sv"
    using run_commands_aside [of "part 0 env" "ab_mode batch" 0 "ab_commands batch" sv] run by simp
  have kept: "remembered sv2 s k r" if "sv_records sv2 = sv_records sv" for sv2
    using assms that by (simp add: remembered_def)
  have emit: "remembered sv2 s k r" if "emit_effects e batch es sv1 = (b, sv2)" for e es b sv2
    using emit_records [of e batch es sv1] that s1 by (simp add: kept)
  have plain: "remembered sv1 s k r" "remembered (restore_snapshot (take_snapshot sv mode) sv1) s k r" for mode
    by (simp_all add: kept s1 restore_fields)
  show ?thesis
    by (auto simp: submit_def None submit_fresh_def Let_def run plain split: sum.split prod.split option.split
        intro: remember_keeps emit)
qed (use assms in \<open>simp add: submit_def\<close>)

lemma after_keeps: "remembered sv s k r \<Longrightarrow> remembered (service_after calls sv) s k r"
  by (induction calls arbitrary: sv) (auto simp: service_after_def split_beta submit_keeps)

lemma remember_stores:
  assumes "batch_idempotency_key batch = Some key" "records_get (sv_records sv) (ab_session_id batch) key = None"
  shows "remembered (remember env batch r sv) (ab_session_id batch) key r"
  using assms by (simp add: remembered_def remember_def records_put_def records_get_def record_key_def)

lemma submit_remembers:
  assumes "submit env sv batch = (Inr r, sv')" "batch_idempotency_key batch = Some key"
  shows "remembered sv' (ab_session_id batch) key r"
proof (cases "cached_record sv batch")
  case None
  then have free: "records_get (sv_records sv) (ab_session_id batch) key = None"
    using assms(2) by (simp add: cached_record_def)
  obtain a sv1 where run: "run_commands (part 0 env) (ab_mode batch) 0 (ab_commands batch) sv = (a, sv1)"
    by (cases "run_commands (part 0 env) (ab_mode batch) 0 (ab_commands batch) sv")
  have s1: "sv_records sv1 = sv_records sv"
    using run_commands_aside [of "part 0 env" "ab_mode batch" 0 "ab_commands batch" sv] run by simp
  have emit: "records_get (sv_records sv2) (ab_session_id batch) key = None" if "emit_effects e batch es sv1 = (b, sv2)" for e es b sv2
    using emit_records [of e batch es sv1] that s1 free by simp
  show ?thesis
    using assms(1) free
    by (auto simp: submit_def None submit_fresh_def Let_def run restore_fields s1 split: sum.splits prod.splits option.splits
        intro!: remember_stores [OF assms(2)] intro: emit)
next
  case (Some q)
  then show ?thesis using assms by (auto simp: submit_def cached_record_def remembered_def)
qed

text \<open>C27. A batch with an idempotency key is applied once: after \<open>submit\<close> has answered it, every later batch of the session
  with the same key gets that very answer and changes nothing, whatever was submitted in between and whatever the later batch
  asks for. The request hash that is recorded with the answer is not compared.\<close>

theorem batch_answered_once:
  assumes "submit env sv batch = (Inr r, sv1)" "batch_idempotency_key batch = Some key"
    and "batch_idempotency_key batch' = Some key" "ab_session_id batch' = ab_session_id batch"
  shows "submit env' (service_after calls sv1) batch' = (Inr r, service_after calls sv1)"
proof -
  have "remembered (service_after calls sv1) (ab_session_id batch) key r"
    using assms(1,2) by (intro after_keeps submit_remembers)
  then show ?thesis using assms(3,4) by (auto simp: submit_def cached_record_def remembered_def)
qed

section \<open>The stores after any batches\<close>

text \<open>C28. Whatever batches a service with empty stores is given, with whatever payloads: the draft store is one that calls of
  its operations reach, so its trees are forests; every raw task it holds is a value of its class, under its own key, with no
  ask answered twice and every answer answering one of its asks; and the task bus keeps its invariant.\<close>

theorem service_invariant:
  assumes "sv_draft sv = empty_store" "sv_raw sv = []" "sv_bus sv = empty_bus"
  shows "(\<exists>ops. sv_draft (service_after calls sv) = draft_store_after ops empty_store)
    \<and> forest_inv (sv_draft (service_after calls sv))
    \<and> (\<forall>sid rid r. raw_get (sv_raw (service_after calls sv)) sid rid = Some r \<longrightarrow>
         rt_session_id r = sid \<and> rt_raw_task_id r = rid \<and> RawTask_validate r = Inr r
         \<and> distinct (map ans_ask_id (rt_answers r))
         \<and> (\<forall>a \<in> set (rt_answers r). \<exists>q \<in> set (rt_asks r). ask_ask_id q = ans_ask_id a))
    \<and> bus_inv (sv_bus (service_after calls sv))"
proof (intro conjI allI impI)
  let ?sv = "service_after calls sv"
  show ops: "\<exists>ops. sv_draft ?sv = draft_store_after ops empty_store"
    using drafts.after [of sv calls] assms(1) by (simp add: draft_reaches_def)
  then show "forest_inv (sv_draft ?sv)" using forest_after forest_empty by metis
  show "bus_inv (sv_bus ?sv)"
    using writes_inv [OF tasks.after [of sv calls]] assms(3) empty_bus_inv(1) by simp
  fix sid rid r assume r: "raw_get (sv_raw ?sv) sid rid = Some r"
  have "raw_inv (sv_raw ?sv)" using raws.after [of sv calls] assms(2) by simp
  then have ok: "(sid, rid) = (rt_session_id r, rt_raw_task_id r)" "RawTask_validate r = Inr r"
    "distinct (map ans_ask_id (rt_answers r))" using r by (auto simp: raw_inv_def raw_get_def raw_ok_def)
  then show "rt_session_id r = sid" "rt_raw_task_id r = rid" "RawTask_validate r = Inr r"
    "distinct (map ans_ask_id (rt_answers r))" by simp_all
  show "\<forall>a \<in> set (rt_answers r). \<exists>q \<in> set (rt_asks r). ask_ask_id q = ans_ask_id a"
    using RawTask_valid_answers [OF ok(2)] by blast
qed

section \<open>What a rollback leaves\<close>

lemma apply_command_bus: "\<not> is_publish c \<Longrightarrow> sv_bus (snd (apply_command env sv c)) = sv_bus sv"
  by (cases c) (simp_all add: mutate_raw_task_frame mutate_draft_tree_frame)

text \<open>A rollback does not reach the task bus: when a batch publishes a draft tree and a later command of it that publishes
  nothing fails, the batch is rejected and the draft store is as before, so its nodes are accepted again and without
  mappings, but the published tasks stay on the bus, where they can be claimed.\<close>

theorem rejected_batch_leaves_tasks:
  assumes "cached_record sv batch = None" "ab_mode batch = All_or_nothing" "ab_commands batch = [PublishDraftTaskTree c, c2]"
    and "publish_draft_command (part 0 (part 0 env)) sv c = (Inr out, sv1)" "\<not> is_publish c2"
    and "apply_command (part 1 (part 0 env)) sv1 c2 = (Inl e, sv2)" "command_error c2 e = Inr err"
  shows "\<exists>sv'. submit env sv batch = (Inr (rejected batch err), sv') \<and> sv_draft sv' = sv_draft sv \<and> sv_bus sv' = sv_bus sv1"
proof -
  have "sv_bus sv2 = sv_bus sv1" using apply_command_bus [OF assms(5), of "part 1 (part 0 env)" sv1] assms(6) by simp
  then show ?thesis
    using assms by (simp add: submit_def submit_fresh_def Let_def restore_fields)
qed

section \<open>Examples\<close>

definition sample_actor :: ActorRef where
  "sample_actor = \<lparr>ac_actor_id = ''u'', ac_kind = Actor_user, ac_display_name = None\<rparr>"

definition sample_service_env :: "json service_env" where
  "sample_service_env = \<lparr>ev_feasibility = (\<lambda>_. Inl (ValidationError (Msg ''FeasibilityReport'' []))),
     ev_option = (\<lambda>_ _. Inl (ValidationError (Msg ''RawTaskAnswerOption'' []))),
     ev_patch = (\<lambda>_. Inl (ValidationError (Msg ''TaskNodePatch'' []))), ev_repr = (\<lambda>_. []), ev_hash = (\<lambda>_. ''h''),
     ev_codec = sample_message_codec, ev_id = (\<lambda>p. ''i''), ev_clock = (\<lambda>_ _. sample_time 5), ev_publish = (\<lambda>_. Draft_Complete.sample_env)\<rparr>"

text \<open>The tree of two nodes, accepted.\<close>

definition sample_accepted_ops :: "draft_op list" where
  "sample_accepted_ops = sample_tree_ops @ [Mark_accepted ''s'' ''t'' 2 (\<lambda>_. sample_time 3)]"

definition sample_service :: "json authoring_service" where
  "sample_service = \<lparr>sv_raw = [], sv_draft = draft_store_after sample_accepted_ops empty_store, sv_bus = empty_bus,
     sv_has_publisher = True, sv_messages = None, sv_records = [], sv_validator = None\<rparr>"

definition sample_publish :: PublishDraftTaskTreeCommand where
  "sample_publish = \<lparr>pd_command_id = ''c1'', pd_session_id = ''s'', pd_draft_tree_id = ''t'', pd_actor = sample_actor,
     pd_expected_version = None, pd_idempotency_key = ''k1'',
     pd_publish_options = \<lparr>po_root_draft_task_ids = [], po_start_immediately = False, po_metadata = []\<rparr>\<rparr>"

definition sample_bad_command :: AuthoringCommand where
  "sample_bad_command = MutateRawTask \<lparr>mr_command_id = ''c2'', mr_command_session_id = ''s'', mr_raw_task_id = Some ''r'',
     mr_actor = sample_actor, mr_causation_message_id = None, mr_expected_version = None, mr_idempotency_key = None,
     mr_operations = [\<lparr>ro_op = Set_status, ro_payload = [(''status'', JStr ''assessing'')]\<rparr>]\<rparr>"

definition sample_batch :: AuthoringCommandBatch where
  "sample_batch = \<lparr>ab_batch_id = ''b'', ab_session_id = ''s'', ab_actor = sample_actor, ab_causation_message_id = None,
     ab_idempotency_key = Some ''k'', ab_mode = All_or_nothing,
     ab_commands = [PublishDraftTaskTree sample_publish, sample_bad_command]\<rparr>"

text \<open>Without a record of its key the batch is rejected; with one it is answered from the record.\<close>

lemma sample_rejected:
  "map_ok (\<lambda>r. ar_ok r) (fst (submit sample_service_env sample_service sample_batch)) = Inr False"
  "cached_record sample_service sample_batch = None"
  by code_simp+

theorem batch_all_or_nothing_witness:
  "\<exists>r sv'. submit sample_service_env sample_service sample_batch = (Inr r, sv') \<and> \<not> ar_ok r
     \<and> ar_applied_command_ids r = [] \<and> sv_draft sv' = sv_draft sample_service"
proof -
  obtain r sv' where r: "submit sample_service_env sample_service sample_batch = (Inr r, sv')" "\<not> ar_ok r"
    using sample_rejected(1) by (cases "submit sample_service_env sample_service sample_batch") (auto elim!: map_ok_InrE)
  have "ab_mode sample_batch = All_or_nothing" by (simp add: sample_batch_def)
  from batch_all_or_nothing [OF r(1) this sample_rejected(2)] r show ?thesis by simp
qed

theorem batch_answered_once_witness:
  "\<exists>r sv'. submit sample_service_env sample_service sample_batch = (Inr r, sv')
     \<and> submit sample_service_env sv' (sample_batch\<lparr>ab_commands := [PublishDraftTaskTree sample_publish]\<rparr>) = (Inr r, sv')"
proof -
  obtain r sv' where r: "submit sample_service_env sample_service sample_batch = (Inr r, sv')"
    using sample_rejected(1) by (cases "submit sample_service_env sample_service sample_batch") (auto elim!: map_ok_InrE)
  have key: "batch_idempotency_key sample_batch = Some ''k''"
    "batch_idempotency_key (sample_batch\<lparr>ab_commands := [PublishDraftTaskTree sample_publish]\<rparr>) = Some ''k''"
    "ab_session_id (sample_batch\<lparr>ab_commands := [PublishDraftTaskTree sample_publish]\<rparr>) = ab_session_id sample_batch"
    by (simp_all add: sample_batch_def batch_idempotency_key_def)
  from batch_answered_once [OF r key, of sample_service_env "[]"] r show ?thesis by (auto simp: service_after_def)
qed

definition sample_create :: AuthoringCommandBatch where
  "sample_create = \<lparr>ab_batch_id = ''b'', ab_session_id = ''s'', ab_actor = sample_actor, ab_causation_message_id = None,
     ab_idempotency_key = None, ab_mode = Best_effort,
     ab_commands = [MutateRawTask \<lparr>mr_command_id = ''c'', mr_command_session_id = ''s'', mr_raw_task_id = Some ''r'',
       mr_actor = sample_actor, mr_causation_message_id = None, mr_expected_version = None, mr_idempotency_key = None,
       mr_operations = [\<lparr>ro_op = Raw_op_create, ro_payload = [(''source_message_id'', JStr ''m''), (''user_input'', JStr ''x'')]\<rparr>,
         \<lparr>ro_op = Add_clarification_ask, ro_payload = [(''ask_id'', JStr ''q''), (''question'', JStr ''y''), (''reason'', JStr ''z'')]\<rparr>,
         \<lparr>ro_op = Apply_answer, ro_payload = [(''ask_id'', JStr ''q''), (''value'', JStr ''v''), (''source_message_id'', JStr ''m'')]\<rparr>]\<rparr>]\<rparr>"

definition sample_empty_service :: "json authoring_service" where
  "sample_empty_service = sample_service\<lparr>sv_draft := empty_store\<rparr>"

theorem service_invariant_witness:
  "\<exists>r. raw_get (sv_raw (service_after [(sample_service_env, sample_create)] sample_empty_service)) ''s'' ''r'' = Some r
     \<and> length (rt_answers r) = 1 \<and> distinct (map ans_ask_id (rt_answers r)) \<and> RawTask_validate r = Inr r"
proof -
  let ?sv = "service_after [(sample_service_env, sample_create)] sample_empty_service"
  have "map_option (\<lambda>r. length (rt_answers r)) (raw_get (sv_raw ?sv) ''s'' ''r'') = Some 1" by code_simp
  then obtain r where r: "raw_get (sv_raw ?sv) ''s'' ''r'' = Some r" "length (rt_answers r) = 1" by auto
  have "sv_draft sample_empty_service = empty_store" "sv_raw sample_empty_service = []" "sv_bus sample_empty_service = empty_bus"
    by (simp_all add: sample_empty_service_def sample_service_def)
  from service_invariant [OF this, of "[(sample_service_env, sample_create)]"] r show ?thesis by blast
qed

theorem rejected_batch_leaves_tasks_witness:
  "\<exists>sv'. (\<exists>err. submit sample_service_env sample_service sample_batch = (Inr (rejected sample_batch err), sv'))
     \<and> sv_draft sv' = sv_draft sample_service \<and> sv_bus sv' \<noteq> empty_bus"
proof -
  have pub: "(case publish_draft_command (part 0 (part 0 sample_service_env)) sample_service sample_publish of
      (Inl _, _) \<Rightarrow> False
    | (Inr _, sv1) \<Rightarrow> bus_tasks (sv_bus sv1) \<noteq> [] \<and>
        (case apply_command (part 1 (part 0 sample_service_env)) sv1 sample_bad_command of
           (Inr _, _) \<Rightarrow> False | (Inl e, _) \<Rightarrow> is_ok (command_error sample_bad_command e)))"
    by code_simp
  then obtain out sv1 e sv2 err where run:
    "publish_draft_command (part 0 (part 0 sample_service_env)) sample_service sample_publish = (Inr out, sv1)"
    "bus_tasks (sv_bus sv1) \<noteq> []"
    "apply_command (part 1 (part 0 sample_service_env)) sv1 sample_bad_command = (Inl e, sv2)"
    "command_error sample_bad_command e = Inr err"
    by (auto split: prod.splits sum.splits elim!: is_okE)
  have "cached_record sample_service sample_batch = None" "ab_mode sample_batch = All_or_nothing"
    "ab_commands sample_batch = [PublishDraftTaskTree sample_publish, sample_bad_command]" "\<not> is_publish sample_bad_command"
    by (simp_all add: cached_record_def sample_batch_def sample_service_def batch_idempotency_key_def records_get_def sample_bad_command_def)
  from rejected_batch_leaves_tasks [OF this(1-3) run(1) this(4) run(3,4)] run(2)
  show ?thesis by (auto simp: empty_bus_def)
qed

end
