(* ===== verification/Authoring_Publish.thy ===== *)
theory Authoring_Publish
  imports Authoring_Atomic
begin

text \<open>
  The publish command on an accepted tree: when \<open>mark_published\<close> of the draft store succeeds, and that what the publisher
  answers passes the checks of the service, so that the command publishes every node.
\<close>

section \<open>The trees of the store\<close>

definition trees_inv :: "InMemoryDraftTaskStore \<Rightarrow> bool" where
  "trees_inv st \<longleftrightarrow> (\<forall>k t. dict_get (ds_trees st) k = Some t \<longrightarrow>
     k = (dt_session_id t, dt_draft_tree_id t) \<and> DraftTaskTree_valid t)"

lemma trees_inv_cong: "ds_trees st' = ds_trees st \<Longrightarrow> trees_inv st' = trees_inv st"
  by (simp add: trees_inv_def)

lemma trees_bump: "trees_inv st \<Longrightarrow> trees_inv (snd (bump_tree st sid tid now))"
  by (auto simp: trees_inv_def bump_tree_def Let_def dest!: DraftTaskTree_validate_cases split: option.splits sum.splits)

lemma trees_load: "\<lbrakk>trees_inv st; DraftTaskTree_valid t\<rbrakk> \<Longrightarrow> trees_inv (snd (load_tree st t))"
  by (auto simp: trees_inv_def load_tree_def Let_def)

lemma trees_create: "trees_inv st \<Longrightarrow> trees_inv (snd (create_tree st sid roots title summary tid clock))"
  using trees_load
  by (auto simp: create_tree_def elim!: bind_ok_InrE dest!: DraftTaskTree_validate_cases split: sum.splits prod.splits)
     (metis snd_conv)+

lemma set_statuses_trees': "set_statuses s sid clock ns st = (r, st') \<Longrightarrow> ds_trees st' = ds_trees st"
  using set_statuses_trees [of s sid clock ns st] by simp

lemma trees_run: "trees_inv st \<Longrightarrow> trees_inv (snd (draft_run op st))"
proof (cases op)
  case (Mark_accepted sid tid e clock)
  assume "trees_inv st"
  then show ?thesis
    by (auto simp: Mark_accepted mark_accepted_def trees_inv_cong [OF set_statuses_trees']
        intro!: trees_bump split: sum.splits prod.splits)
next
  case (Mark_published sid tid ms e clock)
  assume "trees_inv st"
  then show ?thesis
    by (auto simp: Mark_published mark_published_def trees_inv_cong [OF set_statuses_trees']
        trees_inv_cong [OF record_mappings_fields(2)] intro!: trees_bump split: sum.splits prod.splits)
qed (auto simp: add_node_def update_node_def Let_def trees_create trees_inv_cong [OF put_node_fields(2)]
    trees_inv_cong [OF put_node_fields(4)] intro!: trees_bump split: sum.splits option.splits)

lemma trees_after: "trees_inv st \<Longrightarrow> trees_inv (draft_store_after ops st)"
  by (induction ops arbitrary: st) (simp_all add: draft_store_after_def trees_run)

lemma trees_empty [simp]: "trees_inv empty_store"
  by (simp add: trees_inv_def empty_store_def)

section \<open>When \<open>mark_published\<close> succeeds\<close>

text \<open>The loop that sets statuses, with a clock that is not behind the nodes.\<close>

lemma set_statuses_succeeds:
  assumes "distinct (map dn_draft_task_id ns)" "\<forall>n \<in> set ns. DraftTaskNode_valid n"
    and "\<forall>n \<in> set ns. \<forall>k. dn_created_at n \<le> clock k"
  shows "\<exists>st'. set_statuses s sid clock ns st = (Inr (\<lambda>k. clock (length ns + k)), st')
    \<and> (\<forall>n \<in> set ns. \<exists>now. dict_get (ds_nodes st') (sid, dn_draft_task_id n)
         = Some (n\<lparr>dn_status := s, dn_version := dn_version n + 1, dn_updated_at := now\<rparr>))
    \<and> (\<forall>k. k \<notin> (\<lambda>n. (sid, dn_draft_task_id n)) ` set ns \<longrightarrow> dict_get (ds_nodes st') k = dict_get (ds_nodes st) k)
    \<and> ds_trees st' = ds_trees st \<and> ds_mappings_by_draft st' = ds_mappings_by_draft st
    \<and> ds_mappings_by_task st' = ds_mappings_by_task st"
  using assms
proof (induction ns arbitrary: clock st)
  case (Cons n ns)
  let ?n = "n\<lparr>dn_status := s, dn_version := dn_version n + 1, dn_updated_at := clock 0\<rparr>"
  let ?st = "put_node st (sid, dn_draft_task_id n) ?n"
  have "DraftTaskNode_valid n" "dn_created_at n \<le> clock 0" using Cons.prems by simp_all
  then have valid: "DraftTaskNode_validate ?n = Inr ?n"
    by (intro DraftTaskNode_validate_valid) (auto simp: DraftTaskNode_valid_iff DraftTaskNode_fields_ok_def)
  have prems: "distinct (map dn_draft_task_id ns)" "\<forall>n \<in> set ns. DraftTaskNode_valid n"
    "\<forall>n \<in> set ns. \<forall>k. dn_created_at n \<le> clock (Suc k)" using Cons.prems by simp_all
  obtain st' where st': "set_statuses s sid (\<lambda>k. clock (Suc k)) ns ?st = (Inr (\<lambda>k. clock (Suc (length ns + k))), st')"
    "\<forall>n \<in> set ns. \<exists>now. dict_get (ds_nodes st') (sid, dn_draft_task_id n)
       = Some (n\<lparr>dn_status := s, dn_version := dn_version n + 1, dn_updated_at := now\<rparr>)"
    "\<forall>k. k \<notin> (\<lambda>n. (sid, dn_draft_task_id n)) ` set ns \<longrightarrow> dict_get (ds_nodes st') k = dict_get (ds_nodes ?st) k"
    "ds_trees st' = ds_trees ?st" "ds_mappings_by_draft st' = ds_mappings_by_draft ?st"
    "ds_mappings_by_task st' = ds_mappings_by_task ?st"
    using Cons.IH [of "\<lambda>k. clock (Suc k)" ?st, OF prems] by auto
  have "(sid, dn_draft_task_id n) \<notin> (\<lambda>n. (sid, dn_draft_task_id n)) ` set ns" using Cons.prems(1) by auto
  then have "dict_get (ds_nodes st') (sid, dn_draft_task_id n) = Some ?n" using st'(3) by simp
  then show ?case using st' by (intro exI [of _ st']) (auto simp: valid)
qed simp

lemma entries_append: "entries (append_entry d k v) k' = (if k' = k then entries d k @ [v] else entries d k')"
  by (simp add: append_entry_def entries_def)

lemma record_mappings_entries:
  "entries (ds_mappings_by_draft (record_mappings sid ms st)) (sid, i)
     = entries (ds_mappings_by_draft st) (sid, i) @ filter (\<lambda>m. dm_draft_task_id m = i) ms"
proof (induction ms arbitrary: st)
  case (Cons m ms)
  show ?case unfolding record_mappings.simps Cons.IH by (simp add: entries_append)
qed simp

lemma check_mappings_ok:
  assumes "\<And>m. m \<in> set ms \<Longrightarrow> dm_session_id m = sid" "\<And>m. m \<in> set ms \<Longrightarrow> dm_draft_tree_id m = tid"
    and "\<And>m. m \<in> set ms \<Longrightarrow> get_node st sid (dm_draft_task_id m) \<noteq> None"
  shows "check_mappings st sid tid ms = Inr ()"
  using assms
proof (induction ms)
  case (Cons m ms)
  have "check_mappings st sid tid ms = Inr ()" by (rule Cons.IH) (rule Cons.prems, simp)+
  moreover have "dm_session_id m = sid" "dm_draft_tree_id m = tid" "get_node st sid (dm_draft_task_id m) \<noteq> None"
    by (rule Cons.prems, simp)+
  ultimately show ?case by simp
qed simp

text \<open>Without clashing roots the tree can be rebuilt.\<close>

lemma bump_tree_succeeds:
  assumes "forest_inv st" "trees_inv st" "dict_get (ds_trees st) (sid, tid) = Some t" "\<not> tree_stuck st (sid, tid)"
    and "\<exists>n \<in> set (dict_values (ds_nodes st)). in_tree sid tid n \<and> dn_parent_draft_task_id n = None" "dt_created_at t \<le> now"
  shows "\<exists>u. bump_tree st sid tid now = (Inr u, st\<lparr>ds_trees := dict_set (ds_trees st) (sid, tid) u\<rparr>)
    \<and> dt_version u = dt_version t + 1"
proof -
  let ?vs = "dict_values (ds_nodes st)"
  let ?roots = "filter (\<lambda>n. in_tree sid tid n \<and> dn_parent_draft_task_id n = None) ?vs"
  let ?u = "t\<lparr>dt_root_nodes := sort_nodes ?roots, dt_version := dt_version t + 1, dt_updated_at := now\<rparr>"
  have inv: "store_inv st" and nodes: "\<And>n. n \<in> set ?vs \<Longrightarrow> DraftTaskNode_valid n"
    using assms(1) by (auto simp: forest_inv_def)
  have t: "(sid, tid) = (dt_session_id t, dt_draft_tree_id t)" "DraftTaskTree_valid t"
    using assms(2,3) by (auto simp: trees_inv_def)
  have stored: "dict_get (ds_nodes st) (dn_session_id n, dn_draft_task_id n) = Some n" if n: "n \<in> set ?vs" for n
  proof -
    obtain k where k: "dict_get (ds_nodes st) k = Some n" using n unfolding dict_values_mem [OF store_inv_ok [OF inv]] by (rule exE)
    with store_inv_key [OF inv k] show ?thesis by simp
  qed
  have keys: "map fst (ds_nodes st) = map (\<lambda>n. (dn_session_id n, dn_draft_task_id n)) ?vs"
  proof -
    have "fst e = (dn_session_id (snd e), dn_draft_task_id (snd e))" if "e \<in> set (ds_nodes st)" for e
      using store_inv_key [OF inv] map_of_is_SomeI [OF store_inv_ok [OF inv]] that by (cases e) auto
    then show ?thesis by auto
  qed
  have vs: "distinct ?vs" using store_inv_ok [OF inv] unfolding keys by (simp only: distinct_map)
  have inj: "inj_on dn_order_index (set ?roots)"
  proof (rule inj_onI, rule ccontr)
    fix n m assume nm: "n \<in> set ?roots" "m \<in> set ?roots" "dn_order_index n = dn_order_index m" "n \<noteq> m"
    have "tree_stuck st (sid, tid)"
      unfolding tree_stuck_def fst_conv snd_conv
      by (rule exI [of _ "(dn_session_id n, dn_draft_task_id n)"], rule exI [of _ "(dn_session_id m, dn_draft_task_id m)"],
          rule exI [of _ n], rule exI [of _ m]) (use nm stored [of n] stored [of m] in auto)
    with assms(4) show False by contradiction
  qed
  have "distinct (map dn_order_index ?roots)" by (rule distinct_map [THEN iffD2], rule conjI, rule distinct_filter [OF vs], rule inj)
  then have "distinct (map dn_order_index (sort_nodes ?roots))" by (simp only: sort_nodes_set(2))
  moreover have "sort_nodes ?roots \<noteq> []"
  proof -
    obtain n where "n \<in> set ?vs" "in_tree sid tid n" "dn_parent_draft_task_id n = None" using assms(5) by (elim bexE conjE)
    then have "n \<in> set (sort_nodes ?roots)" unfolding sort_nodes_set(1) by simp
    then show ?thesis by force
  qed
  ultimately have "DraftTaskTree_valid ?u"
    using t nodes assms(6) by (auto simp: DraftTaskTree_valid_iff DraftTaskTree_fields_ok_def in_tree_def)
  then have "DraftTaskTree_validate ?u = Inr ?u"
    by (auto simp: DraftTaskTree_valid_def DraftTaskTree_validate_def split: if_splits)
  then show ?thesis using assms(3) by (simp add: bump_tree_def Let_def)
qed

text \<open>Setting statuses leaves the places of the nodes.\<close>

lemma set_statuses_not_stuck:
  assumes "\<not> tree_stuck st key"
    and stored: "\<And>n. n \<in> set ns \<Longrightarrow> dict_get (ds_nodes st) (sid, dn_draft_task_id n) = Some n"
    and new: "\<forall>n \<in> set ns. \<exists>now. dict_get (ds_nodes st') (sid, dn_draft_task_id n)
         = Some (n\<lparr>dn_status := s, dn_version := dn_version n + 1, dn_updated_at := now\<rparr>)"
    and old: "\<forall>k. k \<notin> (\<lambda>n. (sid, dn_draft_task_id n)) ` set ns \<longrightarrow> dict_get (ds_nodes st') k = dict_get (ds_nodes st) k"
  shows "\<not> tree_stuck st' key"
proof
  have before: "\<exists>m. dict_get (ds_nodes st) k = Some m \<and> in_tree (fst key) (snd key) m \<and> dn_parent_draft_task_id m = None
      \<and> dn_order_index m = dn_order_index n"
    if n: "dict_get (ds_nodes st') k = Some n" "in_tree (fst key) (snd key) n" "dn_parent_draft_task_id n = None" for k n
  proof (cases "k \<in> (\<lambda>n. (sid, dn_draft_task_id n)) ` set ns")
    case True
    then obtain m where m: "m \<in> set ns" "k = (sid, dn_draft_task_id m)" by blast
    from new m(1) obtain now where "dict_get (ds_nodes st') k
        = Some (m\<lparr>dn_status := s, dn_version := dn_version m + 1, dn_updated_at := now\<rparr>)" unfolding m(2) by blast
    with n(1) have "n = m\<lparr>dn_status := s, dn_version := dn_version m + 1, dn_updated_at := now\<rparr>" by simp
    with n(2,3) stored [OF m(1)] m(2) show ?thesis by (intro exI [of _ m]) (simp add: in_tree_def)
  next
    case False
    then have "dict_get (ds_nodes st) k = Some n" using old [rule_format, OF False] n(1) by simp
    with n(2,3) show ?thesis by (intro exI [of _ n]) simp
  qed
  assume "tree_stuck st' key"
  then obtain i j n m where ij: "i \<noteq> j" "dict_get (ds_nodes st') i = Some n" "dict_get (ds_nodes st') j = Some m"
    "in_tree (fst key) (snd key) n" "in_tree (fst key) (snd key) m" "dn_parent_draft_task_id n = None"
    "dn_parent_draft_task_id m = None" "dn_order_index n = dn_order_index m"
    unfolding tree_stuck_def by (elim exE conjE)
  obtain n0 where n0: "dict_get (ds_nodes st) i = Some n0" "in_tree (fst key) (snd key) n0"
    "dn_parent_draft_task_id n0 = None" "dn_order_index n0 = dn_order_index n" using before [OF ij(2,4,6)] by (elim exE conjE)
  obtain m0 where m0: "dict_get (ds_nodes st) j = Some m0" "in_tree (fst key) (snd key) m0"
    "dn_parent_draft_task_id m0 = None" "dn_order_index m0 = dn_order_index m" using before [OF ij(3,5,7)] by (elim exE conjE)
  have "dn_order_index n0 = dn_order_index m0" by (simp only: n0(4) m0(4) ij(8))
  then have "tree_stuck st key" unfolding tree_stuck_def using ij(1) n0(1-3) m0(1-3) by (intro exI conjI)
  with assms(1) show False by contradiction
qed

text \<open>A tree with nodes has a root.\<close>

lemma listed_root:
  assumes "forest_inv st" "list_nodes st sid tid = Inr nodes" "nodes \<noteq> []"
  obtains r where "r \<in> set nodes" "dn_parent_draft_task_id r = None"
proof -
  have precede: "parents_precede (filter (in_tree sid tid) (dict_values (ds_nodes st)))"
    using assms(1) parents_precede_filter by (auto simp: forest_inv_def)
  have nodes: "nodes = sort_nodes (filter (in_tree sid tid) (dict_values (ds_nodes st)))"
    using assms(2) by (auto simp: list_nodes_def elim: map_ok_InrE)
  then have same_set: "set nodes = set (filter (in_tree sid tid) (dict_values (ds_nodes st)))" by (simp only: sort_nodes_set(1))
  obtain n ns where n: "filter (in_tree sid tid) (dict_values (ds_nodes st)) = n # ns"
    using assms(3) same_set by (metis list.exhaust set_empty)
  have "dn_parent_draft_task_id n = None"
    using precede [unfolded n] unfolding parents_precede_def parent_in_def by (force split: option.splits)
  moreover have "n \<in> set nodes" unfolding same_set n by simp
  ultimately show ?thesis by (intro that)
qed

text \<open>An accepted tree without clashing roots can be marked as published.\<close>

lemma mark_published_succeeds:
  assumes inv: "forest_inv st" "trees_inv st"
    and tree: "get_tree st sid tid = Inr tree" "list_nodes st sid tid = Inr nodes" "nodes \<noteq> []"
    and accepted: "\<forall>n \<in> set nodes. dn_status n = DraftTaskStatus.Accepted" and stuck: "\<not> tree_stuck st (sid, tid)"
    and behind: "\<forall>n \<in> set nodes. \<forall>k. dn_created_at n \<le> clock k" and behind_tree: "\<forall>k. dt_created_at tree \<le> clock k"
    and here: "\<forall>m \<in> set ms. dm_session_id m = sid \<and> dm_draft_tree_id m = tid"
    and drafts: "map dm_draft_task_id ms = map dn_draft_task_id nodes"
  shows "\<exists>t st'. mark_published st sid tid ms (Some (dt_version tree)) clock = (Inr t, st')
    \<and> dt_version t = dt_version tree + 1 \<and> get_tree st' sid tid = Inr t
    \<and> (\<forall>n \<in> set nodes. \<exists>now. get_node st' sid (dn_draft_task_id n)
         = Some (n\<lparr>dn_status := DraftTaskStatus.Published, dn_version := dn_version n + 1, dn_updated_at := now\<rparr>))
    \<and> (\<forall>i. list_for_draft st' sid i = list_for_draft st sid i @ filter (\<lambda>m. dm_draft_task_id m = i) ms)"
proof -
  have sinv: "store_inv st" using inv(1) by (rule forest_store_inv)
  note listed = list_nodes_stored [OF sinv tree(2)]
  have open_nodes: "filter (\<lambda>n. dn_status n \<noteq> DraftTaskStatus.Published) nodes = nodes"
    using accepted by simp
  have mem: "n \<in> set (dict_values (ds_nodes st))" if "n \<in> set nodes" for n
    using that listed(2) dict_get_mem by metis
  have valid: "\<forall>n \<in> set nodes. DraftTaskNode_valid n" using inv(1) mem by (auto simp: forest_inv_def)
  obtain st1 where st1: "set_statuses DraftTaskStatus.Published sid clock nodes st = (Inr (\<lambda>k. clock (length nodes + k)), st1)"
    and new: "\<forall>n \<in> set nodes. \<exists>now. dict_get (ds_nodes st1) (sid, dn_draft_task_id n)
         = Some (n\<lparr>dn_status := DraftTaskStatus.Published, dn_version := dn_version n + 1, dn_updated_at := now\<rparr>)"
    and old: "\<forall>k. k \<notin> (\<lambda>n. (sid, dn_draft_task_id n)) ` set nodes \<longrightarrow> dict_get (ds_nodes st1) k = dict_get (ds_nodes st) k"
    and same: "ds_trees st1 = ds_trees st" "ds_mappings_by_draft st1 = ds_mappings_by_draft st"
    using set_statuses_succeeds [OF listed(1) valid behind, of DraftTaskStatus.Published sid st] by blast
  have stored: "dict_get (ds_nodes st) (sid, dn_draft_task_id n) = Some n" if "n \<in> set nodes" for n
    using that listed(2) by blast
  let ?st = "record_mappings sid ms st1"
  have "set_statuses DraftTaskStatus.Published sid clock (filter (\<lambda>n. dn_status n \<noteq> DraftTaskStatus.Published) nodes) st
      = (Inr (\<lambda>k. clock (length nodes + k)), st1)" by (simp only: open_nodes st1)
  with inv(1) tree(2) _ have "forest_inv st1" by (rule forest_listed) (use accepted in simp)
  then have f: "forest_inv ?st" by (simp add: forest_inv_cong [OF record_mappings_fields(1)])
  have t: "trees_inv ?st" using inv(2) by (simp only: trees_inv_def record_mappings_fields(2) same(1))
  have "\<not> tree_stuck st1 (sid, tid)" using stuck stored new old by (rule set_statuses_not_stuck)
  then have stuck': "\<not> tree_stuck ?st (sid, tid)" by (simp add: tree_stuck_def)
  have got: "dict_get (ds_trees ?st) (sid, tid) = Some tree" using tree(1) by (simp add: same(1) get_tree_version)
  obtain r where r: "r \<in> set nodes" "dn_parent_draft_task_id r = None" using inv(1) tree(2,3) by (rule listed_root)
  have root: "\<exists>n \<in> set (dict_values (ds_nodes ?st)). in_tree sid tid n \<and> dn_parent_draft_task_id n = None"
  proof -
    obtain now where "dict_get (ds_nodes st1) (sid, dn_draft_task_id r)
        = Some (r\<lparr>dn_status := DraftTaskStatus.Published, dn_version := dn_version r + 1, dn_updated_at := now\<rparr>)"
      using new r(1) by blast
    then have "r\<lparr>dn_status := DraftTaskStatus.Published, dn_version := dn_version r + 1, dn_updated_at := now\<rparr>
        \<in> set (dict_values (ds_nodes ?st))" unfolding record_mappings_fields(1) by (rule dict_get_mem)
    moreover have "in_tree sid tid r" using r(1) listed(2) by blast
    ultimately show ?thesis using r(2) by (force simp: in_tree_def)
  qed
  obtain u where u: "bump_tree ?st sid tid (clock (length nodes)) = (Inr u, ?st\<lparr>ds_trees := dict_set (ds_trees ?st) (sid, tid) u\<rparr>)"
    "dt_version u = dt_version tree + 1"
    using bump_tree_succeeds [OF f t got stuck' root behind_tree [rule_format]] by blast
  have "refuse_status (\<lambda>n. dn_status n = DraftTaskStatus.Cancelled) g nodes = Inr ()" for g
    by (rule refuse_status_ok [THEN iffD2]) (simp add: accepted)
  moreover have "check_mappings st sid tid ms = Inr ()"
  proof (rule check_mappings_ok)
    fix m assume m: "m \<in> set ms"
    show "dm_session_id m = sid" "dm_draft_tree_id m = tid" using here m by simp_all
    have "dm_draft_task_id m \<in> set (map dn_draft_task_id nodes)" unfolding drafts [symmetric] using m by simp
    then obtain n where "n \<in> set nodes" "dm_draft_task_id m = dn_draft_task_id n" by auto
    then show "get_node st sid (dm_draft_task_id m) \<noteq> None"
      using stored get_node_inv [OF sinv] by (metis option.distinct(1))
  qed
  ultimately have run: "mark_published st sid tid ms (Some (dt_version tree)) clock
      = (Inr u, ?st\<lparr>ds_trees := dict_set (ds_trees ?st) (sid, tid) u\<rparr>)"
    by (simp add: mark_published_def tree(1,2) open_nodes st1 u(1))
  have get: "get_node (?st\<lparr>ds_trees := x\<rparr>) sid i = get_node st1 sid i" for x i by (simp add: get_node_def)
  have node: "\<exists>now. get_node st1 sid (dn_draft_task_id n)
      = Some (n\<lparr>dn_status := DraftTaskStatus.Published, dn_version := dn_version n + 1, dn_updated_at := now\<rparr>)"
    if n: "n \<in> set nodes" for n
  proof -
    have "dn_session_id n = sid" using n listed(2) by (simp add: in_tree_def)
    moreover obtain now where "dict_get (ds_nodes st1) (sid, dn_draft_task_id n)
        = Some (n\<lparr>dn_status := DraftTaskStatus.Published, dn_version := dn_version n + 1, dn_updated_at := now\<rparr>)"
      using new n by blast
    ultimately show ?thesis by (intro exI [of _ now]) (simp add: get_node_def)
  qed
  let ?st' = "?st\<lparr>ds_trees := dict_set (ds_trees ?st) (sid, tid) u\<rparr>"
  have "get_tree ?st' sid tid = Inr u" by (simp add: get_tree_def)
  moreover have "list_for_draft ?st' sid i = list_for_draft st sid i @ filter (\<lambda>m. dm_draft_task_id m = i) ms" for i
    by (simp add: list_for_draft_def record_mappings_entries same(2))
  moreover have "\<exists>now. get_node ?st' sid (dn_draft_task_id n)
      = Some (n\<lparr>dn_status := DraftTaskStatus.Published, dn_version := dn_version n + 1, dn_updated_at := now\<rparr>)"
    if "n \<in> set nodes" for n using node [OF that] by (simp only: get)
  ultimately show ?thesis using run u(2) by (intro exI [of _ u] exI [of _ ?st'] conjI ballI allI)
qed

section \<open>Publishing through the service\<close>

lemma scan_mappings_ok:
  assumes "\<forall>m \<in> set ms. dm_session_id m = pd_session_id c \<and> dm_draft_tree_id m = pd_draft_tree_id c"
    and "distinct (map dm_draft_task_id ms)" "set (map dm_draft_task_id ms) \<inter> set seen = {}"
  shows "scan_mappings c roots ms seen mapped = Inr (rev (map dm_draft_task_id ms) @ seen,
    rev (map dm_task_id (filter (\<lambda>m. dm_draft_task_id m \<in> set roots) ms)) @ mapped)"
  using assms
proof (induction ms arbitrary: seen mapped)
  case (Cons m ms)
  have m: "dm_session_id m = pd_session_id c" "dm_draft_tree_id m = pd_draft_tree_id c" "dm_draft_task_id m \<notin> set seen"
    using Cons.prems by simp_all
  have rest: "\<forall>m \<in> set ms. dm_session_id m = pd_session_id c \<and> dm_draft_tree_id m = pd_draft_tree_id c"
    "distinct (map dm_draft_task_id ms)" "set (map dm_draft_task_id ms) \<inter> set (dm_draft_task_id m # seen) = {}"
    using Cons.prems by auto
  show ?case using m by (simp add: Cons.IH [OF rest])
qed simp

lemma published_as_mapping:
  assumes "distinct (map dm_draft_task_id (tp_mappings res))" "m \<in> set (tp_mappings res)"
  shows "published_as res (dm_draft_task_id m) = dm_task_id m"
  using map_of_mapped [OF assms, of dm_task_id] by (simp add: published_as_def)

text \<open>What the publisher of stored trees answers passes the checks of the service.\<close>

lemma publish_result_accepted:
  assumes "tp_rejected_task_ids res = []" "map dm_draft_task_id (tp_mappings res) = map dn_draft_task_id nodes"
    and "\<forall>m \<in> set (tp_mappings res). dm_session_id m = pd_session_id c \<and> dm_draft_tree_id m = pd_draft_tree_id c"
    and "tp_root_task_ids res = map (\<lambda>n. published_as res (dn_draft_task_id n)) (children_of nodes None)"
    and "distinct (map dn_draft_task_id nodes)" "r \<in> set nodes" "dn_parent_draft_task_id r = None"
  shows "validate_publish_result c nodes res = Inr ()"
proof -
  let ?ms = "tp_mappings res"
  have distinct: "distinct (map dm_draft_task_id ?ms)" using assms(2,5) by simp
  have drafts: "set (map dm_draft_task_id ?ms) = set (map dn_draft_task_id nodes)" by (simp only: assms(2))
  have scan: "scan_mappings c (root_ids nodes) ?ms [] [] = Inr (rev (map dm_draft_task_id ?ms),
      rev (map dm_task_id (filter (\<lambda>m. dm_draft_task_id m \<in> set (root_ids nodes)) ?ms)))"
    using scan_mappings_ok [OF assms(3) distinct, of "[]" "root_ids nodes" "[]"] by simp
  have "dm_task_id ` {m \<in> set ?ms. dm_draft_task_id m \<in> set (root_ids nodes)}
      = published_as res ` {i \<in> set (map dm_draft_task_id ?ms). i \<in> set (root_ids nodes)}"
    using published_as_mapping [OF distinct] by (force simp: image_iff)
  also have "{i \<in> set (map dm_draft_task_id ?ms). i \<in> set (root_ids nodes)} = set (root_ids nodes)"
    unfolding drafts by (auto simp: root_ids_def children_of_def)
  finally have mapped: "set (rev (map dm_task_id (filter (\<lambda>m. dm_draft_task_id m \<in> set (root_ids nodes)) ?ms)))
      = set (tp_root_task_ids res)"
    by (simp add: assms(4) root_ids_def image_image)
  have "r \<in> set (children_of nodes None)" using assms(6,7) by (simp add: children_of_def)
  then have roots: "tp_root_task_ids res \<noteq> []" unfolding assms(4) by force
  have ms: "?ms \<noteq> []" using assms(2,6) by force
  have missing: "filter (\<lambda>i. i \<notin> set (rev (map dm_draft_task_id ?ms))) (map dn_draft_task_id nodes) = []"
    and extra: "filter (\<lambda>i. i \<notin> set (map dn_draft_task_id nodes)) (rev (map dm_draft_task_id ?ms)) = []"
    unfolding set_rev drafts using drafts by (auto simp: filter_empty_conv)
  show ?thesis
    unfolding validate_publish_result_def scan bind_ok_simps prod.case Let_def missing extra mapped
    by (simp add: assms(1) roots ms)
qed

lemma filter_key: "\<lbrakk>distinct (map f xs); x \<in> set xs\<rbrakk> \<Longrightarrow> filter (\<lambda>y. f y = f x) xs = [x]"
proof (induction xs)
  case (Cons y ys)
  show ?case
  proof (cases "x \<in> set ys")
    case True
    then show ?thesis using Cons by auto
  next
    case False
    then have "x = y" "f y \<notin> f ` set ys" using Cons.prems by auto
    then have "x = y" "\<forall>z \<in> set ys. f z \<noteq> f y" by (metis image_eqI)+
    then show ?thesis by (simp add: filter_empty_conv)
  qed
qed simp

text \<open>C29. The publish command is complete: on a service whose stores were reached by calls, for an accepted tree whose roots do
  not clash and whose texts are not blank, with no partial request, the current version or none given, a validator that
  accepts, fresh task identifiers and clocks that do not run behind the stored times, the command succeeds. Every draft node
  becomes published, gets exactly one more mapping, and that mapping leads to a pending task on the bus with the node's intent
  and capability; the answer refers to the tasks of the roots.\<close>

theorem publish_command_complete:
  assumes state: "sv_draft sv = draft_store_after ops empty_store" "bus_inv (sv_bus sv)" "sv_has_publisher sv"
    and tree: "get_tree (sv_draft sv) (pd_session_id c) (pd_draft_tree_id c) = Inr tree"
      "list_nodes (sv_draft sv) (pd_session_id c) (pd_draft_tree_id c) = Inr nodes" "nodes \<noteq> []"
    and accepted: "\<forall>n \<in> set nodes. dn_status n = DraftTaskStatus.Accepted" "texts_ok nodes"
      "\<not> tree_stuck (sv_draft sv) (pd_session_id c, pd_draft_tree_id c)"
    and request: "po_root_draft_task_ids (pd_publish_options c) = []" "pd_expected_version c \<in> {None, Some (dt_version tree)}"
      "\<forall>v. sv_validator sv = Some v \<longrightarrow> vt_valid (validate_tree v tree)"
    and draws: "pe_request_id (ev_publish env []) \<noteq> []" "inj (pe_fresh (ev_publish env []))"
      "\<forall>k. pe_fresh (ev_publish env []) k \<noteq> [] \<and> get (sv_bus sv) (pd_session_id c) (pe_fresh (ev_publish env []) k) = None"
    and clock: "\<forall>n \<in> set nodes. \<forall>k. dn_created_at n \<le> ev_clock env [] k" "\<forall>k. dt_created_at tree \<le> ev_clock env [] k"
  shows "\<exists>out sv'. publish_draft_command env sv c = (Inr out, sv')
    \<and> (\<forall>n \<in> set nodes. \<exists>n' m t. get_node (sv_draft sv') (pd_session_id c) (dn_draft_task_id n) = Some n'
         \<and> dn_status n' = DraftTaskStatus.Published \<and> dn_version n' = dn_version n + 1
         \<and> list_for_draft (sv_draft sv') (pd_session_id c) (dn_draft_task_id n)
             = list_for_draft (sv_draft sv) (pd_session_id c) (dn_draft_task_id n) @ [m]
         \<and> get (sv_bus sv') (pd_session_id c) (dm_task_id m) = Some t \<and> td_status t = Pending
         \<and> td_intent t = dn_intent n \<and> td_required_capability t = dn_required_capability n
         \<and> (dn_parent_draft_task_id n = None \<longrightarrow> published_ref (dm_task_id m) \<in> set (co_object_refs out)))
    \<and> sv_raw sv' = sv_raw sv \<and> bus_inv (sv_bus sv')"
proof -
  let ?sid = "pd_session_id c" and ?tid = "pd_draft_tree_id c" and ?st = "sv_draft sv"
  have inv: "forest_inv ?st" "trees_inv ?st" unfolding state(1) by (simp_all add: forest_after trees_after)
  have listed: "distinct (map dn_draft_task_id nodes)"
    using list_nodes_stored(1) [OF forest_store_inv [OF inv(1)] tree(2)] .
  obtain r where r: "r \<in> set nodes" "dn_parent_draft_task_id r = None" using inv(1) tree(2,3) by (rule listed_root)
  obtain res b' where pub: "publish_draft_tree (ev_publish env []) (sv_bus sv) (Some ?st) ?sid ?tid = (Inr res, b')"
    and res: "tp_rejected_task_ids res = []" "bus_inv b'"
      "map dm_draft_task_id (tp_mappings res) = map dn_draft_task_id nodes"
      "\<forall>m \<in> set (tp_mappings res). dm_session_id m = ?sid \<and> dm_draft_tree_id m = ?tid"
      "tp_root_task_ids res = map (\<lambda>n. published_as res (dn_draft_task_id n)) (children_of nodes None)"
      "\<forall>n \<in> set nodes. \<exists>t. get b' ?sid (published_as res (dn_draft_task_id n)) = Some t \<and> td_status t = Pending
         \<and> td_intent t = dn_intent n \<and> td_required_capability t = dn_required_capability n
         \<and> td_parent_id t = map_option (published_as res) (dn_parent_draft_task_id n)"
    using draft_tree_published [OF tree(2) [unfolded state(1)] tree(3) accepted(2) draws(1,2) state(2) draws(3)]
    unfolding state(1) [symmetric] by blast
  have distinct: "distinct (map dm_draft_task_id (tp_mappings res))" using res(3) listed by simp
  have valid: "validate_publish_result c nodes res = Inr ()"
    using res(1,3,4,5) listed r by (rule publish_result_accepted)
  have "check_publishable nodes = Inr ()" using accepted(1) by (induction nodes) simp_all
  then have "validate_publish_request c nodes = Inr ()"
    using tree(3) request(1) by (simp add: validate_publish_request_def)
  then have checked: "check_publish_command sv c = Inr (tree, nodes)"
    using state(3) tree(1,2) request(2,3) by (auto simp: check_publish_command_def split: option.splits)
  have expected: "expected_or (pd_expected_version c) (dt_version tree) = dt_version tree"
    using request(2) by (auto simp: expected_or_def)
  obtain t st' where mark: "mark_published ?st ?sid ?tid (tp_mappings res) (Some (dt_version tree)) (ev_clock env []) = (Inr t, st')"
    and done_nodes: "\<forall>n \<in> set nodes. \<exists>now. get_node st' ?sid (dn_draft_task_id n)
         = Some (n\<lparr>dn_status := DraftTaskStatus.Published, dn_version := dn_version n + 1, dn_updated_at := now\<rparr>)"
    and recorded: "\<forall>i. list_for_draft st' ?sid i = list_for_draft ?st ?sid i @ filter (\<lambda>m. dm_draft_task_id m = i) (tp_mappings res)"
    using mark_published_succeeds [OF inv tree accepted(1,3) clock res(4,3)] by (elim exE conjE)
  define out where "out = \<lparr>co_command_id = pd_command_id c, co_object_refs = map published_ref (tp_root_task_ids res),
    co_message_effects = [published_effect c res], co_warnings = []\<rparr>"
  have run: "publish_draft_command env sv c = (Inr out, sv\<lparr>sv_bus := b', sv_draft := st'\<rparr>)"
    by (simp add: publish_draft_command_def checked pub valid expected mark out_def)
  have each: "\<exists>n' m t. get_node st' ?sid (dn_draft_task_id n) = Some n'
         \<and> dn_status n' = DraftTaskStatus.Published \<and> dn_version n' = dn_version n + 1
         \<and> list_for_draft st' ?sid (dn_draft_task_id n) = list_for_draft ?st ?sid (dn_draft_task_id n) @ [m]
         \<and> get b' ?sid (dm_task_id m) = Some t \<and> td_status t = Pending
         \<and> td_intent t = dn_intent n \<and> td_required_capability t = dn_required_capability n
         \<and> (dn_parent_draft_task_id n = None \<longrightarrow> published_ref (dm_task_id m) \<in> set (co_object_refs out))"
    if n: "n \<in> set nodes" for n
  proof -
    have "dn_draft_task_id n \<in> set (map dm_draft_task_id (tp_mappings res))" using n res(3) by simp
    then obtain m where m: "m \<in> set (tp_mappings res)" "dm_draft_task_id m = dn_draft_task_id n" by auto
    have task: "dm_task_id m = published_as res (dn_draft_task_id n)"
      using published_as_mapping [OF distinct m(1)] by (simp only: m(2))
    obtain t where t: "get b' ?sid (dm_task_id m) = Some t" "td_status t = Pending" "td_intent t = dn_intent n"
      "td_required_capability t = dn_required_capability n" using res(6) n unfolding task by blast
    obtain now where now: "get_node st' ?sid (dn_draft_task_id n)
        = Some (n\<lparr>dn_status := DraftTaskStatus.Published, dn_version := dn_version n + 1, dn_updated_at := now\<rparr>)"
      using done_nodes n by blast
    have "filter (\<lambda>y. dm_draft_task_id y = dn_draft_task_id n) (tp_mappings res) = [m]"
      using filter_key [OF distinct m(1)] by (simp only: m(2))
    with recorded have rec: "list_for_draft st' ?sid (dn_draft_task_id n) = list_for_draft ?st ?sid (dn_draft_task_id n) @ [m]" by simp
    have root: "published_ref (dm_task_id m) \<in> set (co_object_refs out)" if "dn_parent_draft_task_id n = None"
      using n that by (auto simp: out_def res(5) task children_of_def)
    show ?thesis using now rec t root by (intro exI conjI impI) (assumption | simp)+
  qed
  show ?thesis
    by (rule exI [of _ out], rule exI, intro conjI ballI, rule run) (use each res(2) in simp_all)
qed

lemma sample_accepted_nodes:
  "map_ok (\<lambda>ns. map dn_draft_task_id ns = [''a'', ''b''] \<and> texts_ok ns
     \<and> list_all (\<lambda>n. dn_status n = DraftTaskStatus.Accepted \<and> dn_created_at n \<le> sample_time 5) ns)
     (list_nodes (draft_store_after sample_accepted_ops empty_store) ''s'' ''t'') = Inr True"
  by code_simp

lemma sample_accepted_tree:
  "map_ok (\<lambda>t. dt_created_at t \<le> sample_time 5) (get_tree (draft_store_after sample_accepted_ops empty_store) ''s'' ''t'') = Inr True"
  "is_ok (fst (bump_tree (draft_store_after sample_accepted_ops empty_store) ''s'' ''t'' (sample_time 5)))"
  by code_simp+

theorem publish_command_complete_witness:
  "\<exists>out sv' n' m t. publish_draft_command sample_service_env sample_service sample_publish = (Inr out, sv')
     \<and> get_node (sv_draft sv') ''s'' ''b'' = Some n' \<and> dn_status n' = DraftTaskStatus.Published
     \<and> list_for_draft (sv_draft sv') ''s'' ''b'' = [m] \<and> get (sv_bus sv') ''s'' (dm_task_id m) = Some t \<and> td_status t = Pending"
proof -
  let ?st = "draft_store_after sample_accepted_ops empty_store"
  obtain nodes where nodes: "list_nodes ?st ''s'' ''t'' = Inr nodes" "map dn_draft_task_id nodes = [''a'', ''b'']" "texts_ok nodes"
    "list_all (\<lambda>n. dn_status n = DraftTaskStatus.Accepted \<and> dn_created_at n \<le> sample_time 5) nodes"
    using sample_accepted_nodes by (auto elim!: map_ok_InrE)
  obtain tree where tree: "get_tree ?st ''s'' ''t'' = Inr tree" "dt_created_at tree \<le> sample_time 5"
    using sample_accepted_tree(1) by (auto elim!: map_ok_InrE)
  have c: "pd_session_id sample_publish = ''s''" "pd_draft_tree_id sample_publish = ''t''"
    "po_root_draft_task_ids (pd_publish_options sample_publish) = []" "pd_expected_version sample_publish = None"
    by (simp_all add: sample_publish_def)
  have sv: "sv_draft sample_service = ?st" "sv_bus sample_service = empty_bus" "sv_has_publisher sample_service"
    "sv_validator sample_service = None" by (simp_all add: sample_service_def)
  have env: "ev_publish sample_service_env [] = Draft_Complete.sample_env" "ev_clock sample_service_env [] = (\<lambda>_. sample_time 5)"
    by (simp_all add: sample_service_env_def)
  have stuck: "\<not> tree_stuck ?st (''s'', ''t'')"
    using bump_tree_not_stuck [OF draft_store_after_inv [OF store_inv_empty] sample_accepted_tree(2)]
    by (simp add: tree_stuck_def)
  have free: "\<forall>k. pe_fresh Draft_Complete.sample_env k \<noteq> [] \<and> get empty_bus ''s'' (pe_fresh Draft_Complete.sample_env k) = None"
    by (simp add: Draft_Complete.sample_env_def sample_uuid4_def empty_bus_def get_def)
  have fresh: "inj (pe_fresh Draft_Complete.sample_env)" "pe_request_id Draft_Complete.sample_env \<noteq> []"
    using sample_uuid4_inj by (simp_all add: Draft_Complete.sample_env_def)
  have b: "\<exists>n \<in> set nodes. dn_draft_task_id n = ''b''"
  proof -
    have "''b'' \<in> set (map dn_draft_task_id nodes)" unfolding nodes(2) by simp
    then show ?thesis by auto
  qed
  have "nodes \<noteq> []" using nodes(2) by auto
  then have "\<exists>out sv'. publish_draft_command sample_service_env sample_service sample_publish = (Inr out, sv')
    \<and> (\<forall>n \<in> set nodes. \<exists>n' m t. get_node (sv_draft sv') ''s'' (dn_draft_task_id n) = Some n'
         \<and> dn_status n' = DraftTaskStatus.Published \<and> dn_version n' = dn_version n + 1
         \<and> list_for_draft (sv_draft sv') ''s'' (dn_draft_task_id n)
             = list_for_draft (sv_draft sample_service) ''s'' (dn_draft_task_id n) @ [m]
         \<and> get (sv_bus sv') ''s'' (dm_task_id m) = Some t \<and> td_status t = Pending
         \<and> td_intent t = dn_intent n \<and> td_required_capability t = dn_required_capability n
         \<and> (dn_parent_draft_task_id n = None \<longrightarrow> published_ref (dm_task_id m) \<in> set (co_object_refs out)))
    \<and> sv_raw sv' = sv_raw sample_service \<and> bus_inv (sv_bus sv')"
    using publish_command_complete [of sample_service sample_accepted_ops sample_publish tree nodes sample_service_env]
      nodes tree stuck free fresh empty_bus_inv(1)
    by (simp add: c sv env list_all_iff)
  moreover have "list_for_draft (sv_draft sample_service) ''s'' ''b'' = []" unfolding sv(1) by code_simp
  ultimately show ?thesis using b by fastforce
qed

end
