(* ===== verification/Execution_Models.thy ===== *)
theory Execution_Models
  imports Task_Models Payload Draft_Validator
begin

text \<open>
  The data of the execution plane (\<open>execution_plane/models.py\<close>): requests, policies, executions, events, results,
  errors and evidence with the constraints pydantic checks, and the registry of environments
  (\<open>execution_plane/env_registry.py\<close>) with the choice of a compatible one.
\<close>

section \<open>Literal types\<close>

datatype TaskRequesterKind = Requester_plato | Requester_external_app | Requester_system | Requester_test

datatype TaskExecutionStatus =
    Exec_accepted | Exec_pending | Exec_claimed | Exec_running | Exec_waiting_for_user | Exec_done | Exec_failed
  | Exec_cancelled | Exec_lease_expired | Exec_rejected

datatype TaskEventKind =
    Event_accepted | Event_claimed | Event_started | Event_progress | Event_waiting_for_user | Event_result_ready
  | Event_failed | Event_cancelled | Event_lease_expired | Event_evidence_added

datatype EvidenceKind =
    Evidence_result_summary | Evidence_error_summary | Evidence_file_change_summary | Evidence_tool_observation
  | Evidence_screenshot | Evidence_text_extract | Evidence_diff | Evidence_audit_record

datatype CallbackMode = Callback_none | Callback_poll | Callback_sse | Callback_webhook

datatype ExecutionEnvStatus = Env_online | Env_offline | Env_draining | Env_disabled

datatype RiskLevel = Risk_low | Risk_medium | Risk_high

datatype EvidenceVisibility = Vis_visible | Vis_permission_limited | Vis_hidden

fun requester_kind_str :: "TaskRequesterKind \<Rightarrow> string" where
  "requester_kind_str Requester_plato = ''plato''"
| "requester_kind_str Requester_external_app = ''external_app''"
| "requester_kind_str Requester_system = ''system''"
| "requester_kind_str Requester_test = ''test''"

section \<open>Requests\<close>

record TaskRequester =
  qr_kind :: TaskRequesterKind
  qr_id :: string
  qr_display_name :: "string option"
  qr_trust_scope :: "string option"

definition TaskRequester_fields_ok :: "TaskRequester \<Rightarrow> bool" where
  "TaskRequester_fields_ok r \<longleftrightarrow> qr_id r \<noteq> [] \<and> opt_nonempty (qr_display_name r) \<and> opt_nonempty (qr_trust_scope r)"

definition scoped_id :: "TaskRequester \<Rightarrow> string" where
  "scoped_id r = requester_kind_str (qr_kind r) @ '':'' @ qr_id r"

record ExternalRef =
  xr_system :: string
  xr_kind :: string
  xr_id :: string
  xr_url :: "string option"

definition ExternalRef_fields_ok :: "ExternalRef \<Rightarrow> bool" where
  "ExternalRef_fields_ok r \<longleftrightarrow> xr_system r \<noteq> [] \<and> xr_kind r \<noteq> [] \<and> xr_id r \<noteq> [] \<and> opt_nonempty (xr_url r)"

record CapabilityPolicy =
  cy_required_capability :: string
  cy_allowed_tools :: "string list"
  cy_denied_tools :: "string list"
  cy_requires_human_confirmation :: bool
  cy_max_runtime_seconds :: "int option"
  cy_max_llm_tokens :: "int option"
  cy_workspace_scope :: "string option"
  cy_risk_level :: RiskLevel

text \<open>The field constraints with \<open>_validate_tool_sets\<close>.\<close>

definition CapabilityPolicy_ok :: "CapabilityPolicy \<Rightarrow> bool" where
  "CapabilityPolicy_ok p \<longleftrightarrow> cy_required_capability p \<noteq> []
     \<and> (case cy_max_runtime_seconds p of None \<Rightarrow> True | Some k \<Rightarrow> 0 < k)
     \<and> (case cy_max_llm_tokens p of None \<Rightarrow> True | Some k \<Rightarrow> 0 < k)
     \<and> opt_nonempty (cy_workspace_scope p)
     \<and> list_all (\<lambda>t. t \<notin> set (cy_denied_tools p)) (cy_allowed_tools p)"

record EvidenceRequirement =
  er_required :: "EvidenceKind list"
  er_optional :: "EvidenceKind list"
  er_retention_policy :: "string option"
  er_redact_for_diagnostics :: bool

record CallbackPolicy =
  cb_mode :: CallbackMode
  cb_url :: "string option"
  cb_signing_key_ref :: "string option"
  cb_event_kinds :: "TaskEventKind list"

text \<open>The field constraints with \<open>_validate_callback_url\<close>.\<close>

definition CallbackPolicy_ok :: "CallbackPolicy \<Rightarrow> bool" where
  "CallbackPolicy_ok c \<longleftrightarrow> opt_nonempty (cb_url c) \<and> opt_nonempty (cb_signing_key_ref c)
     \<and> (cb_mode c = Callback_webhook \<longrightarrow> cb_url c \<noteq> None)
     \<and> (cb_mode c \<noteq> Callback_webhook \<longrightarrow> cb_signing_key_ref c = None)"

record TaskRequest =
  tq_idempotency_key :: string
  tq_requester :: TaskRequester
  tq_external_ref :: "ExternalRef option"
  tq_task_type :: string
  tq_intent :: string
  tq_input :: payload
  tq_policy :: CapabilityPolicy
  tq_evidence :: EvidenceRequirement
  tq_callback :: CallbackPolicy
  tq_metadata :: payload

text \<open>The characters of the pattern of \<open>task_type\<close>.\<close>

definition task_type_char :: "char \<Rightarrow> bool" where
  "task_type_char c \<longleftrightarrow> (let n = of_char c :: nat in 97 \<le> n \<and> n \<le> 122 \<or> 65 \<le> n \<and> n \<le> 90 \<or> 48 \<le> n \<and> n \<le> 57)
     \<or> c \<in> set ''_.:-''"

definition TaskRequest_validate :: "TaskRequest \<Rightarrow> TaskRequest result" where
  "TaskRequest_validate q =
     (if tq_idempotency_key q = [] \<or> \<not> TaskRequester_fields_ok (tq_requester q)
         \<or> \<not> (case tq_external_ref q of None \<Rightarrow> True | Some r \<Rightarrow> ExternalRef_fields_ok r)
         \<or> tq_task_type q = [] \<or> \<not> list_all task_type_char (tq_task_type q) \<or> tq_intent q = []
         \<or> \<not> CapabilityPolicy_ok (tq_policy q) \<or> \<not> opt_nonempty (er_retention_policy (tq_evidence q))
         \<or> \<not> CallbackPolicy_ok (tq_callback q)
         \<or> CHR ''.'' \<notin> set (tq_task_type q)
         \<or> (qr_kind (tq_requester q) = Requester_external_app \<and> take 6 (tq_task_type q) = ''plato.'')
      then Inl (ValidationError (Msg ''TaskRequest'' [])) else Inr q)"

definition scoped_idempotency_key :: "TaskRequest \<Rightarrow> string" where
  "scoped_idempotency_key q = scoped_id (tq_requester q) @ '':'' @ tq_idempotency_key q"

section \<open>Executions, events and what they refer to\<close>

record TaskExecution =
  tn_execution_id :: string
  tn_task_id :: string
  tn_request_id :: string
  tn_status :: TaskExecutionStatus
  tn_requester :: TaskRequester
  tn_external_ref :: "ExternalRef option"
  tn_task_type :: string
  tn_required_capability :: string
  tn_env_id :: "string option"
  tn_lease_id :: "string option"
  tn_created_at :: datetime
  tn_updated_at :: datetime
  tn_started_at :: "datetime option"
  tn_completed_at :: "datetime option"
  tn_result_ref :: "string option"
  tn_error_ref :: "string option"
  tn_evidence_refs :: "string list"
  tn_session_id :: string

definition TaskExecution_validate :: "TaskExecution \<Rightarrow> TaskExecution result" where
  "TaskExecution_validate e =
     (if tn_execution_id e = [] \<or> tn_task_id e = [] \<or> tn_request_id e = [] \<or> tn_task_type e = []
         \<or> tn_required_capability e = [] \<or> \<not> opt_nonempty (tn_env_id e) \<or> \<not> opt_nonempty (tn_lease_id e)
         \<or> \<not> opt_nonempty (tn_result_ref e) \<or> \<not> opt_nonempty (tn_error_ref e) \<or> tn_session_id e = []
         \<or> tn_updated_at e < tn_created_at e
         \<or> (case tn_completed_at e of None \<Rightarrow> False | Some c \<Rightarrow> c < tn_created_at e)
      then Inl (ValidationError (Msg ''TaskExecution'' [])) else Inr e)"

record TaskEvent =
  tv_event_id :: string
  tv_execution_id :: string
  tv_task_id :: string
  tv_kind :: TaskEventKind
  tv_occurred_at :: datetime
  tv_summary :: msg
  tv_data :: payload
  tv_evidence_refs :: "string list"

definition TaskEvent_ok :: "TaskEvent \<Rightarrow> bool" where
  "TaskEvent_ok v \<longleftrightarrow> tv_event_id v \<noteq> [] \<and> tv_execution_id v \<noteq> [] \<and> tv_task_id v \<noteq> []
     \<and> (case tv_summary v of Msg text vs \<Rightarrow> text \<noteq> [])"

record TaskEventQuery =
  vq_limit :: int
  vq_cursor :: "string option"

definition TaskEventQuery_ok :: "TaskEventQuery \<Rightarrow> bool" where
  "TaskEventQuery_ok v \<longleftrightarrow> 1 \<le> vq_limit v \<and> vq_limit v \<le> 500 \<and> opt_nonempty (vq_cursor v)"

definition default_event_query :: TaskEventQuery where
  "default_event_query = \<lparr>vq_limit = 100, vq_cursor = None\<rparr>"

record TaskEventPage =
  vp_items :: "TaskEvent list"
  vp_next_cursor :: "string option"

record TaskResult =
  ts_result_ref :: string
  ts_execution_id :: string
  ts_summary :: string
  ts_structured_payload :: payload
  ts_evidence_refs :: "string list"
  ts_created_at :: datetime

definition TaskResult_validate :: "TaskResult \<Rightarrow> TaskResult result" where
  "TaskResult_validate r =
     (if ts_result_ref r = [] \<or> ts_execution_id r = [] \<or> ts_summary r = []
      then Inl (ValidationError (Msg ''TaskResult'' [])) else Inr r)"

record TaskError =
  tx_error_ref :: string
  tx_execution_id :: string
  tx_code :: string
  tx_message :: string
  tx_retryable :: bool
  tx_recovery_hint :: "string option"
  tx_evidence_refs :: "string list"
  tx_created_at :: datetime

definition TaskError_validate :: "TaskError \<Rightarrow> TaskError result" where
  "TaskError_validate r =
     (if tx_error_ref r = [] \<or> tx_execution_id r = [] \<or> tx_code r = [] \<or> tx_message r = []
         \<or> \<not> opt_nonempty (tx_recovery_hint r)
      then Inl (ValidationError (Msg ''TaskError'' [])) else Inr r)"

record EvidenceRef =
  ef_evidence_id :: string
  ef_execution_id :: string
  ef_kind :: EvidenceKind
  ef_title :: string
  ef_summary :: string
  ef_uri :: "string option"
  ef_object_ref :: payload
  ef_visibility :: EvidenceVisibility
  ef_created_at :: datetime

definition EvidenceRef_ok :: "EvidenceRef \<Rightarrow> bool" where
  "EvidenceRef_ok r \<longleftrightarrow> ef_evidence_id r \<noteq> [] \<and> ef_execution_id r \<noteq> [] \<and> ef_title r \<noteq> [] \<and> ef_summary r \<noteq> []
     \<and> opt_nonempty (ef_uri r)"

record EvidencePage =
  fp_items :: "EvidenceRef list"
  fp_next_cursor :: "string option"

record CancelTaskCommand =
  ct_command_id :: string
  ct_reason :: string

record RetryTaskCommand =
  rc_command_id :: string
  rc_instruction :: "string option"

definition CancelTaskCommand_ok :: "CancelTaskCommand \<Rightarrow> bool" where
  "CancelTaskCommand_ok c \<longleftrightarrow> ct_command_id c \<noteq> [] \<and> ct_reason c \<noteq> []"

definition RetryTaskCommand_ok :: "RetryTaskCommand \<Rightarrow> bool" where
  "RetryTaskCommand_ok c \<longleftrightarrow> rc_command_id c \<noteq> [] \<and> opt_nonempty (rc_instruction c)"

section \<open>Environments and leases\<close>

datatype TaskLeaseStatus = Lease_active | Lease_released | Lease_expired | Lease_revoked

record TaskLease =
  tl_lease_id :: string
  tl_execution_id :: string
  tl_env_id :: string
  tl_status :: TaskLeaseStatus
  tl_claimed_at :: datetime
  tl_expires_at :: datetime
  tl_renewed_at :: "datetime option"

definition TaskLease_validate :: "TaskLease \<Rightarrow> TaskLease result" where
  "TaskLease_validate l =
     (if tl_lease_id l = [] \<or> tl_execution_id l = [] \<or> tl_env_id l = [] \<or> tl_expires_at l \<le> tl_claimed_at l
         \<or> (case tl_renewed_at l of None \<Rightarrow> False | Some t \<Rightarrow> t < tl_claimed_at l)
      then Inl (ValidationError (Msg ''TaskLease'' [])) else Inr l)"

record ExecutionEnv =
  ee_env_id :: string
  ee_display_name :: string
  ee_status :: ExecutionEnvStatus
  ee_capabilities :: "string list"
  ee_tool_pool :: "string list"
  ee_permission_profile_id :: "string option"
  ee_workspace_scope :: "string option"
  ee_active_execution_id :: "string option"
  ee_last_heartbeat_at :: "datetime option"
  ee_runtime_version :: "string option"

definition supports :: "ExecutionEnv \<Rightarrow> CapabilityPolicy \<Rightarrow> bool" where
  "supports e p =
     (if ee_status e \<noteq> Env_online then False
      else if cy_required_capability p \<notin> set (ee_capabilities e) then False
      else if cy_allowed_tools p \<noteq> [] then list_all (\<lambda>t. t \<in> set (ee_tool_pool e)) (cy_allowed_tools p)
      else True)"

type_synonym InMemoryExecutionEnvRegistry = "(string, ExecutionEnv) dict"

definition env_upsert ::
  "InMemoryExecutionEnvRegistry \<Rightarrow> ExecutionEnv \<Rightarrow> datetime \<Rightarrow> ExecutionEnv \<times> InMemoryExecutionEnvRegistry" where
  "env_upsert reg e now =
     (let updated = e\<lparr>ee_last_heartbeat_at := Some (case ee_last_heartbeat_at e of None \<Rightarrow> now | Some t \<Rightarrow> t)\<rparr>
      in (updated, dict_set reg (ee_env_id updated) updated))"

fun registry_init :: "InMemoryExecutionEnvRegistry \<Rightarrow> ExecutionEnv list \<Rightarrow> (nat \<Rightarrow> datetime) \<Rightarrow> InMemoryExecutionEnvRegistry" where
  "registry_init reg [] clock = reg"
| "registry_init reg (e # es) clock = registry_init (snd (env_upsert reg e (clock 0))) es (\<lambda>k. clock (Suc k))"

definition env_get :: "InMemoryExecutionEnvRegistry \<Rightarrow> string \<Rightarrow> ExecutionEnv option" where
  "env_get reg i = dict_get reg i"

definition env_list :: "InMemoryExecutionEnvRegistry \<Rightarrow> ExecutionEnv list" where
  "env_list reg = sort_key ee_env_id (dict_values reg)"

definition find_compatible :: "InMemoryExecutionEnvRegistry \<Rightarrow> CapabilityPolicy \<Rightarrow> ExecutionEnv option" where
  "find_compatible reg p =
     (let candidates = filter (\<lambda>e. supports e p) (dict_values reg)
      in if candidates = [] then None else Some (hd (sort_key ee_env_id candidates)))"

definition default_local_execution_env :: "string list \<Rightarrow> string list \<Rightarrow> ExecutionEnv" where
  "default_local_execution_env capabilities tool_pool =
     \<lparr>ee_env_id = ''local-default'', ee_display_name = ''Local Default Execution Env'', ee_status = Env_online,
      ee_capabilities = capabilities, ee_tool_pool = tool_pool, ee_permission_profile_id = None,
      ee_workspace_scope = None, ee_active_execution_id = None, ee_last_heartbeat_at = None,
      ee_runtime_version = Some ''local''\<rparr>"

definition local_macos_app_control_execution_env :: "string list \<Rightarrow> string list \<Rightarrow> ExecutionEnv" where
  "local_macos_app_control_execution_env capabilities tool_pool =
     \<lparr>ee_env_id = ''local_macos_app_control'', ee_display_name = ''Local macOS App Control'', ee_status = Env_online,
      ee_capabilities = capabilities, ee_tool_pool = tool_pool, ee_permission_profile_id = None,
      ee_workspace_scope = None, ee_active_execution_id = None, ee_last_heartbeat_at = None,
      ee_runtime_version = Some ''local-macos-app-control''\<rparr>"

text \<open>The environment that is picked: the compatible one with the least identifier.\<close>

lemma find_compatible_Some:
  assumes "find_compatible reg p = Some e"
  shows "e \<in> set (dict_values reg)" "supports e p"
    "\<And>d. \<lbrakk>d \<in> set (dict_values reg); supports d p\<rbrakk> \<Longrightarrow> ee_env_id e \<le> ee_env_id d"
proof -
  let ?cs = "filter (\<lambda>e. supports e p) (dict_values reg)"
  have e: "?cs \<noteq> []" "e = hd (sort_key ee_env_id ?cs)" using assms by (auto simp: find_compatible_def Let_def split: if_splits)
  have "sort_key ee_env_id ?cs \<noteq> []" using e(1) by (metis set_empty set_sort)
  then obtain xs where xs: "sort_key ee_env_id ?cs = e # xs" using e(2) by (cases "sort_key ee_env_id ?cs") auto
  have "set (e # xs) = set ?cs" unfolding xs [symmetric] by simp
  then have mem: "e \<in> set ?cs" "\<And>d. d \<in> set ?cs \<Longrightarrow> d = e \<or> d \<in> set xs" by auto
  show "e \<in> set (dict_values reg)" "supports e p" using mem(1) by auto
  have "sorted (map ee_env_id (e # xs))" unfolding xs [symmetric] by simp
  then show "ee_env_id e \<le> ee_env_id d" if "d \<in> set (dict_values reg)" "supports d p" for d
    using mem(2) [of d] that by auto
qed

lemma find_compatible_None: "find_compatible reg p = None \<longleftrightarrow> (\<forall>e \<in> set (dict_values reg). \<not> supports e p)"
  by (auto simp: find_compatible_def Let_def filter_empty_conv)

end
