(* ===== verification/Execution_Store.thy ===== *)
theory Execution_Store
  imports Execution_Models Draft_Store Message_Stream
begin

text \<open>
  The stores of the execution plane (\<open>execution_plane/store.py\<close>): the in-memory dictionaries and the SQLite tables, each
  operation of both, and the calls of the \<open>ExecutionPlaneStore\<close> protocol as data, run on either. JSON and
  \<open>fromisoformat\<close> are a codec that the SQLite operations take as an argument.
\<close>

section \<open>Errors\<close>

text \<open>\<open>ExecutionPlaneError\<close> with its code, message, status code, retryable flag and details; any other exception passes through.\<close>

datatype exec_error = ExecutionPlaneError string msg int bool payload | Raised py_error

type_synonym 'a exec_result = "exec_error + 'a"

definition lift_error :: "'a result \<Rightarrow> 'a exec_result" where
  "lift_error r = (case r of Inl e \<Rightarrow> Inl (Raised e) | Inr x \<Rightarrow> Inr x)"

lemma lift_error_simps [simp]: "lift_error (Inl e) = Inl (Raised e)" "lift_error (Inr x) = Inr x"
  by (simp_all add: lift_error_def)

definition idempotency_conflict :: "string \<Rightarrow> string \<Rightarrow> exec_error" where
  "idempotency_conflict existing current =
     ExecutionPlaneError ''idempotency_conflict'' (Msg ''idempotency key was already used with a different request'' []) 409 False
       [(''existingRequestHash'', JStr existing), (''requestHash'', JStr current)]"

record TaskRequestIdempotencyRecord =
  ti_scoped_key :: string
  ti_request_hash :: string
  ti_execution_id :: string
  ti_request :: TaskRequest
  ti_created_at :: datetime
  ti_updated_at :: datetime

text \<open>
  Values that pass the checks of their class and whose free payload is plain JSON.
\<close>

definition request_readable :: "TaskRequest \<Rightarrow> bool" where
  "request_readable q \<longleftrightarrow> TaskRequest_validate q = Inr q \<and> json_plain (JObj (tq_input q)) \<and> json_plain (JObj (tq_metadata q))"

definition execution_readable :: "TaskExecution \<Rightarrow> bool" where
  "execution_readable x \<longleftrightarrow> TaskExecution_validate x = Inr x"

definition event_readable :: "TaskEvent \<Rightarrow> bool" where
  "event_readable v \<longleftrightarrow> TaskEvent_ok v \<and> json_plain (JObj (tv_data v))"

definition result_readable :: "TaskResult \<Rightarrow> bool" where
  "result_readable r \<longleftrightarrow> TaskResult_validate r = Inr r \<and> json_plain (JObj (ts_structured_payload r))"

definition error_readable :: "TaskError \<Rightarrow> bool" where
  "error_readable r \<longleftrightarrow> TaskError_validate r = Inr r"

definition evidence_readable :: "EvidenceRef \<Rightarrow> bool" where
  "evidence_readable r \<longleftrightarrow> EvidenceRef_ok r \<and> json_plain (JObj (ef_object_ref r))"

definition idempotency_record_ok :: "TaskRequestIdempotencyRecord \<Rightarrow> bool" where
  "idempotency_record_ok r \<longleftrightarrow> ti_scoped_key r \<noteq> [] \<and> ti_request_hash r \<noteq> [] \<and> ti_execution_id r \<noteq> []
     \<and> request_readable (ti_request r) \<and> datetime_ok (ti_created_at r) \<and> datetime_ok (ti_updated_at r)"

section \<open>The in-memory store\<close>

record InMemoryExecutionPlaneStore =
  ps_idempotency :: "(string, TaskRequestIdempotencyRecord) dict"
  ps_executions :: "(string, TaskExecution) dict"
  ps_events :: "(string, TaskEvent list) dict"
  ps_results :: "(string, TaskResult) dict"
  ps_errors :: "(string, TaskError) dict"
  ps_evidence :: "(string, EvidenceRef list) dict"

definition empty_plane :: InMemoryExecutionPlaneStore where
  "empty_plane = \<lparr>ps_idempotency = [], ps_executions = [], ps_events = [], ps_results = [], ps_errors = [], ps_evidence = []\<rparr>"

definition get_idempotency :: "InMemoryExecutionPlaneStore \<Rightarrow> string \<Rightarrow> TaskRequestIdempotencyRecord option" where
  "get_idempotency st key = dict_get (ps_idempotency st) key"

definition put_idempotency ::
  "InMemoryExecutionPlaneStore \<Rightarrow> TaskRequestIdempotencyRecord
     \<Rightarrow> TaskRequestIdempotencyRecord exec_result \<times> InMemoryExecutionPlaneStore" where
  "put_idempotency st r =
     (case dict_get (ps_idempotency st) (ti_scoped_key r) of
        None \<Rightarrow> (Inr r, st\<lparr>ps_idempotency := dict_set (ps_idempotency st) (ti_scoped_key r) r\<rparr>)
      | Some existing \<Rightarrow>
          if ti_request_hash existing \<noteq> ti_request_hash r
          then (Inl (idempotency_conflict (ti_request_hash existing) (ti_request_hash r)), st)
          else (Inr existing, st))"

definition put_execution :: "InMemoryExecutionPlaneStore \<Rightarrow> TaskExecution \<Rightarrow> InMemoryExecutionPlaneStore" where
  "put_execution st e = st\<lparr>ps_executions := dict_set (ps_executions st) (tn_execution_id e) e\<rparr>"

definition get_execution :: "InMemoryExecutionPlaneStore \<Rightarrow> string \<Rightarrow> TaskExecution option" where
  "get_execution st i = dict_get (ps_executions st) i"

definition append_event :: "InMemoryExecutionPlaneStore \<Rightarrow> TaskEvent \<Rightarrow> InMemoryExecutionPlaneStore" where
  "append_event st v = st\<lparr>ps_events := append_entry (ps_events st) (tv_execution_id v) v\<rparr>"

text \<open>\<open>xs[:limit]\<close>.\<close>

definition py_take :: "int \<Rightarrow> 'a list \<Rightarrow> 'a list" where
  "py_take limit xs = (if limit < 0 then take (length xs - nat (- limit)) xs else take (nat limit) xs)"

definition list_events :: "InMemoryExecutionPlaneStore \<Rightarrow> string \<Rightarrow> int \<Rightarrow> TaskEvent list" where
  "list_events st i limit = py_take limit (entries (ps_events st) i)"

definition put_result :: "InMemoryExecutionPlaneStore \<Rightarrow> TaskResult \<Rightarrow> InMemoryExecutionPlaneStore" where
  "put_result st r = st\<lparr>ps_results := dict_set (ps_results st) (ts_result_ref r) r\<rparr>"

definition get_result :: "InMemoryExecutionPlaneStore \<Rightarrow> string \<Rightarrow> TaskResult option" where
  "get_result st i = dict_get (ps_results st) i"

definition put_error :: "InMemoryExecutionPlaneStore \<Rightarrow> TaskError \<Rightarrow> InMemoryExecutionPlaneStore" where
  "put_error st r = st\<lparr>ps_errors := dict_set (ps_errors st) (tx_error_ref r) r\<rparr>"

definition get_error :: "InMemoryExecutionPlaneStore \<Rightarrow> string \<Rightarrow> TaskError option" where
  "get_error st i = dict_get (ps_errors st) i"

definition put_evidence :: "InMemoryExecutionPlaneStore \<Rightarrow> EvidenceRef \<Rightarrow> InMemoryExecutionPlaneStore" where
  "put_evidence st r = st\<lparr>ps_evidence := append_entry (ps_evidence st) (ef_execution_id r) r\<rparr>"

definition list_evidence :: "InMemoryExecutionPlaneStore \<Rightarrow> string \<Rightarrow> EvidenceRef list" where
  "list_evidence st i = entries (ps_evidence st) i"

section \<open>The SQLite store\<close>

text \<open>Pydantic's JSON of each class and \<open>datetime.fromisoformat\<close>.\<close>

record 'j plane_codec =
  pc_dump_request :: "TaskRequest \<Rightarrow> 'j"
  pc_load_request :: "'j \<Rightarrow> TaskRequest result"
  pc_dump_execution :: "TaskExecution \<Rightarrow> 'j"
  pc_load_execution :: "'j \<Rightarrow> TaskExecution result"
  pc_dump_event :: "TaskEvent \<Rightarrow> 'j"
  pc_load_event :: "'j \<Rightarrow> TaskEvent result"
  pc_dump_result :: "TaskResult \<Rightarrow> 'j"
  pc_load_result :: "'j \<Rightarrow> TaskResult result"
  pc_dump_error :: "TaskError \<Rightarrow> 'j"
  pc_load_error :: "'j \<Rightarrow> TaskError result"
  pc_dump_evidence :: "EvidenceRef \<Rightarrow> 'j"
  pc_load_evidence :: "'j \<Rightarrow> EvidenceRef result"
  pc_fromisoformat :: "string \<Rightarrow> datetime result"

text \<open>A value of each class reads back from its JSON, and a time from its text.\<close>

definition plane_codec_ok :: "'j plane_codec \<Rightarrow> bool" where
  "plane_codec_ok P \<longleftrightarrow>
     (\<forall>x. request_readable x \<longrightarrow> pc_load_request P (pc_dump_request P x) = Inr x)
     \<and> (\<forall>x. execution_readable x \<longrightarrow> pc_load_execution P (pc_dump_execution P x) = Inr x)
     \<and> (\<forall>x. event_readable x \<longrightarrow> pc_load_event P (pc_dump_event P x) = Inr x)
     \<and> (\<forall>x. result_readable x \<longrightarrow> pc_load_result P (pc_dump_result P x) = Inr x)
     \<and> (\<forall>x. error_readable x \<longrightarrow> pc_load_error P (pc_dump_error P x) = Inr x)
     \<and> (\<forall>x. evidence_readable x \<longrightarrow> pc_load_evidence P (pc_dump_evidence P x) = Inr x)
     \<and> (\<forall>t. datetime_ok t \<longrightarrow> pc_fromisoformat P (isoformat t) = Inr t)"

record 'j idempotency_row =
  iw_scoped_key :: string
  iw_request_hash :: string
  iw_execution_id :: string
  iw_request_json :: 'j
  iw_created_at :: string
  iw_updated_at :: string

text \<open>A row of one of the other tables: its unique key, the execution, the payload and the time.\<close>

record 'j plane_row =
  xw_key :: string
  xw_execution_id :: string
  xw_payload :: 'j
  xw_time :: string

record 'j SqliteExecutionPlaneStore =
  xt_idempotency :: "'j idempotency_row list"
  xt_tasks :: "'j plane_row list"
  xt_events :: "'j plane_row list"
  xt_results :: "'j plane_row list"
  xt_errors :: "'j plane_row list"
  xt_evidence :: "'j plane_row list"

definition empty_plane_tables :: "'j SqliteExecutionPlaneStore" where
  "empty_plane_tables =
     \<lparr>xt_idempotency = [], xt_tasks = [], xt_events = [], xt_results = [], xt_errors = [], xt_evidence = []\<rparr>"

definition idempotency_from_row :: "'j plane_codec \<Rightarrow> 'j idempotency_row \<Rightarrow> TaskRequestIdempotencyRecord result" where
  "idempotency_from_row P r =
     bind_ok (pc_load_request P (iw_request_json r)) (\<lambda>request.
     bind_ok (pc_fromisoformat P (iw_created_at r)) (\<lambda>created_at.
     bind_ok (pc_fromisoformat P (iw_updated_at r)) (\<lambda>updated_at.
     if iw_scoped_key r = [] \<or> iw_request_hash r = [] \<or> iw_execution_id r = []
     then Inl (ValidationError (Msg ''TaskRequestIdempotencyRecord'' []))
     else Inr \<lparr>ti_scoped_key = iw_scoped_key r, ti_request_hash = iw_request_hash r, ti_execution_id = iw_execution_id r,
               ti_request = request, ti_created_at = created_at, ti_updated_at = updated_at\<rparr>)))"

definition sql_get_idempotency ::
  "'j plane_codec \<Rightarrow> 'j SqliteExecutionPlaneStore \<Rightarrow> string \<Rightarrow> TaskRequestIdempotencyRecord option exec_result" where
  "sql_get_idempotency P db key =
     (case find (\<lambda>r. iw_scoped_key r = key) (xt_idempotency db) of
        None \<Rightarrow> Inr None
      | Some r \<Rightarrow> lift_error (map_ok Some (idempotency_from_row P r)))"

definition idempotency_row_of :: "'j plane_codec \<Rightarrow> TaskRequestIdempotencyRecord \<Rightarrow> 'j idempotency_row" where
  "idempotency_row_of P r =
     \<lparr>iw_scoped_key = ti_scoped_key r, iw_request_hash = ti_request_hash r, iw_execution_id = ti_execution_id r,
      iw_request_json = pc_dump_request P (ti_request r), iw_created_at = isoformat (ti_created_at r),
      iw_updated_at = isoformat (ti_updated_at r)\<rparr>"

definition sql_put_idempotency ::
  "'j plane_codec \<Rightarrow> 'j SqliteExecutionPlaneStore \<Rightarrow> TaskRequestIdempotencyRecord
     \<Rightarrow> TaskRequestIdempotencyRecord exec_result \<times> 'j SqliteExecutionPlaneStore" where
  "sql_put_idempotency P db r =
     (case sql_get_idempotency P db (ti_scoped_key r) of
        Inl e \<Rightarrow> (Inl e, db)
      | Inr (Some existing) \<Rightarrow>
          if ti_request_hash existing \<noteq> ti_request_hash r
          then (Inl (idempotency_conflict (ti_request_hash existing) (ti_request_hash r)), db)
          else (Inr existing, db)
      | Inr None \<Rightarrow> (Inr r, db\<lparr>xt_idempotency := xt_idempotency db @ [idempotency_row_of P r]\<rparr>))"

text \<open>\<open>INSERT ... ON CONFLICT(key) DO UPDATE\<close> with the assignments \<open>f\<close>, and \<open>INSERT OR IGNORE\<close>.\<close>

definition upsert_row :: "('j plane_row \<Rightarrow> 'j plane_row) \<Rightarrow> 'j plane_row \<Rightarrow> 'j plane_row list \<Rightarrow> 'j plane_row list" where
  "upsert_row f r rows =
     (if list_ex (\<lambda>q. xw_key q = xw_key r) rows then map (\<lambda>q. if xw_key q = xw_key r then f q else q) rows
      else rows @ [r])"

definition insert_or_ignore :: "'j plane_row \<Rightarrow> 'j plane_row list \<Rightarrow> 'j plane_row list" where
  "insert_or_ignore r rows = (if list_ex (\<lambda>q. xw_key q = xw_key r) rows then rows else rows @ [r])"

definition sql_put_execution ::
  "'j plane_codec \<Rightarrow> 'j SqliteExecutionPlaneStore \<Rightarrow> TaskExecution \<Rightarrow> 'j SqliteExecutionPlaneStore" where
  "sql_put_execution P db e =
     (let payload = pc_dump_execution P e; stamp = isoformat (tn_updated_at e)
      in db\<lparr>xt_tasks := upsert_row (\<lambda>q. q\<lparr>xw_payload := payload, xw_time := stamp\<rparr>)
           \<lparr>xw_key = tn_execution_id e, xw_execution_id = tn_execution_id e, xw_payload = payload, xw_time = stamp\<rparr>
           (xt_tasks db)\<rparr>)"

definition find_payload :: "('j \<Rightarrow> 'a result) \<Rightarrow> 'j plane_row list \<Rightarrow> string \<Rightarrow> 'a option exec_result" where
  "find_payload ld rows key =
     (case find (\<lambda>q. xw_key q = key) rows of
        None \<Rightarrow> Inr None | Some q \<Rightarrow> lift_error (map_ok Some (ld (xw_payload q))))"

definition sql_get_execution ::
  "'j plane_codec \<Rightarrow> 'j SqliteExecutionPlaneStore \<Rightarrow> string \<Rightarrow> TaskExecution option exec_result" where
  "sql_get_execution P db i = find_payload (pc_load_execution P) (xt_tasks db) i"

definition sql_append_event ::
  "'j plane_codec \<Rightarrow> 'j SqliteExecutionPlaneStore \<Rightarrow> TaskEvent \<Rightarrow> 'j SqliteExecutionPlaneStore" where
  "sql_append_event P db v =
     db\<lparr>xt_events := insert_or_ignore \<lparr>xw_key = tv_event_id v, xw_execution_id = tv_execution_id v,
          xw_payload = pc_dump_event P v, xw_time = isoformat (tv_occurred_at v)\<rparr> (xt_events db)\<rparr>"

text \<open>\<open>ORDER BY id ASC\<close> is the order of insertion; a negative \<open>LIMIT\<close> is none.\<close>

definition rows_for :: "'j plane_row list \<Rightarrow> string \<Rightarrow> 'j plane_row list" where
  "rows_for rows i = filter (\<lambda>q. xw_execution_id q = i) rows"

definition sql_list_events ::
  "'j plane_codec \<Rightarrow> 'j SqliteExecutionPlaneStore \<Rightarrow> string \<Rightarrow> int \<Rightarrow> TaskEvent list exec_result" where
  "sql_list_events P db i limit =
     (let rows = rows_for (xt_events db) i;
          limited = (if limit < 0 then rows else take (nat limit) rows)
      in lift_error (those_ok (map (\<lambda>q. pc_load_event P (xw_payload q)) limited)))"

definition sql_put_result ::
  "'j plane_codec \<Rightarrow> 'j SqliteExecutionPlaneStore \<Rightarrow> TaskResult \<Rightarrow> 'j SqliteExecutionPlaneStore" where
  "sql_put_result P db r =
     db\<lparr>xt_results := upsert_row (\<lambda>q. q\<lparr>xw_payload := pc_dump_result P r\<rparr>)
          \<lparr>xw_key = ts_result_ref r, xw_execution_id = ts_execution_id r, xw_payload = pc_dump_result P r,
           xw_time = isoformat (ts_created_at r)\<rparr> (xt_results db)\<rparr>"

definition sql_get_result ::
  "'j plane_codec \<Rightarrow> 'j SqliteExecutionPlaneStore \<Rightarrow> string \<Rightarrow> TaskResult option exec_result" where
  "sql_get_result P db i = find_payload (pc_load_result P) (xt_results db) i"

definition sql_put_error ::
  "'j plane_codec \<Rightarrow> 'j SqliteExecutionPlaneStore \<Rightarrow> TaskError \<Rightarrow> 'j SqliteExecutionPlaneStore" where
  "sql_put_error P db r =
     db\<lparr>xt_errors := upsert_row (\<lambda>q. q\<lparr>xw_payload := pc_dump_error P r\<rparr>)
          \<lparr>xw_key = tx_error_ref r, xw_execution_id = tx_execution_id r, xw_payload = pc_dump_error P r,
           xw_time = isoformat (tx_created_at r)\<rparr> (xt_errors db)\<rparr>"

definition sql_get_error ::
  "'j plane_codec \<Rightarrow> 'j SqliteExecutionPlaneStore \<Rightarrow> string \<Rightarrow> TaskError option exec_result" where
  "sql_get_error P db i = find_payload (pc_load_error P) (xt_errors db) i"

definition sql_put_evidence ::
  "'j plane_codec \<Rightarrow> 'j SqliteExecutionPlaneStore \<Rightarrow> EvidenceRef \<Rightarrow> 'j SqliteExecutionPlaneStore" where
  "sql_put_evidence P db r =
     db\<lparr>xt_evidence := insert_or_ignore \<lparr>xw_key = ef_evidence_id r, xw_execution_id = ef_execution_id r,
          xw_payload = pc_dump_evidence P r, xw_time = isoformat (ef_created_at r)\<rparr> (xt_evidence db)\<rparr>"

definition sql_list_evidence ::
  "'j plane_codec \<Rightarrow> 'j SqliteExecutionPlaneStore \<Rightarrow> string \<Rightarrow> EvidenceRef list exec_result" where
  "sql_list_evidence P db i =
     lift_error (those_ok (map (\<lambda>q. pc_load_evidence P (xw_payload q)) (rows_for (xt_evidence db) i)))"

section \<open>Calls of a store\<close>

datatype plane_call =
    Put_idempotency TaskRequestIdempotencyRecord | Get_idempotency string
  | Put_execution TaskExecution | Get_execution string
  | Append_event TaskEvent | List_events string int
  | Put_result TaskResult | Get_result string
  | Put_error TaskError | Get_error string
  | Put_evidence EvidenceRef | List_evidence string

datatype plane_answer =
    Stored | Found_record "TaskRequestIdempotencyRecord option" | Found_execution "TaskExecution option"
  | Found_events "TaskEvent list" | Found_result "TaskResult option" | Found_error "TaskError option"
  | Found_evidence "EvidenceRef list"

definition map_exec :: "('a \<Rightarrow> 'b) \<Rightarrow> 'a exec_result \<Rightarrow> 'b exec_result" where
  "map_exec f r = (case r of Inl e \<Rightarrow> Inl e | Inr x \<Rightarrow> Inr (f x))"

fun plane_run :: "plane_call \<Rightarrow> InMemoryExecutionPlaneStore \<Rightarrow> plane_answer exec_result \<times> InMemoryExecutionPlaneStore" where
  "plane_run (Put_idempotency r) st = map_prod (map_exec (\<lambda>x. Found_record (Some x))) id (put_idempotency st r)"
| "plane_run (Get_idempotency k) st = (Inr (Found_record (get_idempotency st k)), st)"
| "plane_run (Put_execution e) st = (Inr Stored, put_execution st e)"
| "plane_run (Get_execution i) st = (Inr (Found_execution (get_execution st i)), st)"
| "plane_run (Append_event v) st = (Inr Stored, append_event st v)"
| "plane_run (List_events i limit) st = (Inr (Found_events (list_events st i limit)), st)"
| "plane_run (Put_result r) st = (Inr Stored, put_result st r)"
| "plane_run (Get_result i) st = (Inr (Found_result (get_result st i)), st)"
| "plane_run (Put_error r) st = (Inr Stored, put_error st r)"
| "plane_run (Get_error i) st = (Inr (Found_error (get_error st i)), st)"
| "plane_run (Put_evidence r) st = (Inr Stored, put_evidence st r)"
| "plane_run (List_evidence i) st = (Inr (Found_evidence (list_evidence st i)), st)"

fun sql_plane_run ::
  "'j plane_codec \<Rightarrow> plane_call \<Rightarrow> 'j SqliteExecutionPlaneStore \<Rightarrow> plane_answer exec_result \<times> 'j SqliteExecutionPlaneStore" where
  "sql_plane_run P (Put_idempotency r) db = map_prod (map_exec (\<lambda>x. Found_record (Some x))) id (sql_put_idempotency P db r)"
| "sql_plane_run P (Get_idempotency k) db = (map_exec Found_record (sql_get_idempotency P db k), db)"
| "sql_plane_run P (Put_execution e) db = (Inr Stored, sql_put_execution P db e)"
| "sql_plane_run P (Get_execution i) db = (map_exec Found_execution (sql_get_execution P db i), db)"
| "sql_plane_run P (Append_event v) db = (Inr Stored, sql_append_event P db v)"
| "sql_plane_run P (List_events i limit) db = (map_exec Found_events (sql_list_events P db i limit), db)"
| "sql_plane_run P (Put_result r) db = (Inr Stored, sql_put_result P db r)"
| "sql_plane_run P (Get_result i) db = (map_exec Found_result (sql_get_result P db i), db)"
| "sql_plane_run P (Put_error r) db = (Inr Stored, sql_put_error P db r)"
| "sql_plane_run P (Get_error i) db = (map_exec Found_error (sql_get_error P db i), db)"
| "sql_plane_run P (Put_evidence r) db = (Inr Stored, sql_put_evidence P db r)"
| "sql_plane_run P (List_evidence i) db = (map_exec Found_evidence (sql_list_evidence P db i), db)"

end
