(* ===== verification/Execution_Service.thy ===== *)
theory Execution_Service
  imports Execution_Store Task_Bus Result_Summary
begin

text \<open>
  The embedded task API (\<open>execution_plane/embedded_service.py\<close>): a request becomes a task of the task bus and an execution of
  the plane's store; executions follow their tasks; cancelling and retrying go through the bus.
\<close>

section \<open>State and surroundings\<close>

record exec_service =
  xs_bus :: InMemoryTaskBus
  xs_store :: InMemoryExecutionPlaneStore
  xs_envs :: InMemoryExecutionEnvRegistry
  xs_summaries :: "summary_store option"
  xs_default_session_id :: string

text \<open>The request hash, \<open>uuid5(NAMESPACE_URL, ...).hex\<close>, the readings of the clock and the identifiers a call draws.\<close>

record exec_env =
  xe_hash :: "TaskRequest \<Rightarrow> string"
  xe_uuid5 :: "string \<Rightarrow> string"
  xe_clock :: "nat \<Rightarrow> datetime"
  xe_event_id :: string
  xe_fresh :: string

text \<open>A runtime handler, which may do anything with the service it is registered at.\<close>

record runtime_handler =
  rh_validate_request :: "TaskRequest \<Rightarrow> unit exec_result"
  rh_publish_or_resume :: "TaskRequest \<Rightarrow> TaskExecution \<Rightarrow> exec_service \<Rightarrow> TaskExecution exec_result \<times> exec_service"

section \<open>From a request to a task\<close>

definition task_id_for_request :: "(string \<Rightarrow> string) \<Rightarrow> TaskRequest \<Rightarrow> string" where
  "task_id_for_request uuid5 q =
     uuid5 (''taskweavn.execution_plane.task:'' @ scoped_id (tq_requester q) @ '':'' @ tq_idempotency_key q)"

definition execution_id_for_task_id :: "string \<Rightarrow> string" where
  "execution_id_for_task_id task_id = ''exec_'' @ task_id"

definition session_id_for_request :: "TaskRequest \<Rightarrow> string \<Rightarrow> string" where
  "session_id_for_request q default_session_id =
     (let raw = json_or (payload_get (tq_metadata q) ''sessionId'') (payload_get (tq_metadata q) ''session_id'');
          safe_requester = replace_char CHR '':'' CHR ''_'' (replace_char CHR ''/'' CHR ''_'' (qr_id (tq_requester q)));
          fallback = (if safe_requester \<noteq> [] then ''external:'' @ safe_requester else default_session_id)
      in case raw of
           JStr s \<Rightarrow> if \<not> blank s then strip s
                    else if qr_kind (tq_requester q) = Requester_plato \<and> (case tq_external_ref q of
                              None \<Rightarrow> False | Some r \<Rightarrow> xr_system r = ''plato'')
                    then default_session_id else fallback
         | _ \<Rightarrow> if qr_kind (tq_requester q) = Requester_plato \<and> (case tq_external_ref q of
                      None \<Rightarrow> False | Some r \<Rightarrow> xr_system r = ''plato'')
                then default_session_id else fallback)"

definition optional_text :: "json \<Rightarrow> string option" where
  "optional_text v = (case v of JStr s \<Rightarrow> if strip s = [] then None else Some (strip s) | _ \<Rightarrow> None)"

definition string_tuple :: "json \<Rightarrow> string list" where
  "string_tuple v = (case v of
     JArr vs \<Rightarrow> List.map_filter (\<lambda>x. case x of JStr s \<Rightarrow> if blank s then None else Some (strip s) | _ \<Rightarrow> None) vs
   | _ \<Rightarrow> [])"

definition opt_json :: "string option \<Rightarrow> json" where
  "opt_json x = (case x of None \<Rightarrow> JNull | Some s \<Rightarrow> JStr s)"

text \<open>\<open>model_dump(mode="json", by_alias=True)\<close> of the requester and of the external reference.\<close>

definition dump_requester :: "TaskRequester \<Rightarrow> json" where
  "dump_requester r = JObj [(''kind'', JStr (requester_kind_str (qr_kind r))), (''id'', JStr (qr_id r)),
     (''displayName'', opt_json (qr_display_name r)), (''trustScope'', opt_json (qr_trust_scope r))]"

definition dump_external_ref :: "ExternalRef \<Rightarrow> json" where
  "dump_external_ref r = JObj [(''system'', JStr (xr_system r)), (''kind'', JStr (xr_kind r)), (''id'', JStr (xr_id r)),
     (''url'', opt_json (xr_url r))]"

definition task_for_request :: "TaskRequest \<Rightarrow> string \<Rightarrow> string \<Rightarrow> datetime \<Rightarrow> TaskDomain" where
  "task_for_request q session_id task_id now =
     \<lparr>td_task_id = task_id, td_session_id = session_id, td_parent_id = None, td_root_id = task_id, td_order_index = 0,
      td_intent = tq_intent q, td_summary = optional_text (payload_get (tq_input q) ''summary''),
      td_instructions = optional_text (payload_get (tq_input q) ''instructions''),
      td_acceptance_criteria = string_tuple (json_or (payload_get (tq_input q) ''acceptanceCriteria'')
        (payload_get (tq_input q) ''acceptance_criteria'')),
      td_required_capability = cy_required_capability (tq_policy q),
      td_dispatch_constraints = Some \<lparr>dc_required_agent_id = None, dc_preferred_agent_id = None,
        dc_required_capabilities = [cy_required_capability (tq_policy q)],
        dc_metadata = [(''execution_plane_requester'', dump_requester (tq_requester q)),
          (''execution_plane_task_type'', JStr (tq_task_type q)),
          (''execution_plane_idempotency_key'', JStr (tq_idempotency_key q)),
          (''execution_plane_allowed_tools'', JArr (map JStr (cy_allowed_tools (tq_policy q)))),
          (''execution_plane_denied_tools'', JArr (map JStr (cy_denied_tools (tq_policy q))))]
          @ (case tq_external_ref q of None \<Rightarrow> [] | Some r \<Rightarrow> [(''execution_plane_external_ref'', dump_external_ref r)])\<rparr>,
      td_status = Pending, td_result_ref = None, td_error_ref = None, td_claimed_by = None, td_waiting_for_ask_id = None,
      td_waiting_for_confirmation_id = None, td_waiting_for_user_since = None, td_interrupt_requested = False,
      td_interrupt_request_id = None, td_interrupt_reason = None, td_interrupt_requested_by = None,
      td_interrupt_requested_at = None, td_created_by = scoped_id (tq_requester q), td_created_at = now,
      td_started_at = None, td_completed_at = None\<rparr>"

section \<open>From a task to an execution\<close>

fun status_from_task :: "TaskStatus \<Rightarrow> TaskExecutionStatus" where
  "status_from_task Pending = Exec_pending"
| "status_from_task Running = Exec_running"
| "status_from_task Waiting_for_user = Exec_waiting_for_user"
| "status_from_task Done = Exec_done"
| "status_from_task Failed = Exec_failed"

definition execution_from_task :: "TaskExecution \<Rightarrow> TaskDomain \<Rightarrow> TaskExecution" where
  "execution_from_task e t =
     e\<lparr>tn_status := status_from_task (td_status t),
       tn_updated_at := (case td_completed_at t of Some c \<Rightarrow> c
                         | None \<Rightarrow> (case td_started_at t of Some s \<Rightarrow> s | None \<Rightarrow> tn_updated_at e)),
       tn_started_at := td_started_at t, tn_completed_at := td_completed_at t,
       tn_result_ref := td_result_ref t, tn_error_ref := td_error_ref t\<rparr>"

definition require_execution :: "InMemoryExecutionPlaneStore \<Rightarrow> string \<Rightarrow> TaskExecution exec_result" where
  "require_execution st i =
     (case get_execution st i of
        None \<Rightarrow> Inl (ExecutionPlaneError ''task_not_found'' (Msg ''task execution was not found'' []) 404 False
                  [(''executionId'', JStr i)])
      | Some e \<Rightarrow> Inr e)"

definition get_task :: "exec_service \<Rightarrow> string \<Rightarrow> TaskExecution exec_result \<times> exec_service" where
  "get_task sv i =
     (case require_execution (xs_store sv) i of
        Inl e \<Rightarrow> (Inl e, sv)
      | Inr x \<Rightarrow>
          (case get (xs_bus sv) (tn_session_id x) (tn_task_id x) of
             None \<Rightarrow> (Inl (ExecutionPlaneError ''task_not_found'' (Msg ''execution task was not found in TaskBus'' []) 404 False
                       [(''executionId'', JStr i), (''taskId'', JStr (tn_task_id x))]), sv)
           | Some t \<Rightarrow>
               (let updated = execution_from_task x t
                in (Inr updated, if updated \<noteq> x then sv\<lparr>xs_store := put_execution (xs_store sv) updated\<rparr> else sv))))"

section \<open>Publishing\<close>

text \<open>\<open>TaskStoreError\<close> with its subclass.\<close>

fun store_error :: "py_error \<Rightarrow> msg option" where
  "store_error (TaskStoreError m) = Some m"
| "store_error (VersionConflictError m) = Some m"
| "store_error _ = None"

text \<open>The call of \<open>TaskBus.publish\<close> with its handler: an existing task counts as published.\<close>

definition publish_on_bus :: "InMemoryTaskBus \<Rightarrow> TaskDomain \<Rightarrow> unit exec_result \<times> InMemoryTaskBus" where
  "publish_on_bus b t =
     (case Task_Bus.publish b t of
        Inr (u, b') \<Rightarrow> (Inr (), b')
      | Inl e \<Rightarrow>
          (case store_error e of
             None \<Rightarrow> (Inl (Raised e), b)
           | Some m \<Rightarrow>
               if get b (td_session_id t) (td_task_id t) = None
               then (Inl (ExecutionPlaneError ''execution_failed'' m 500 True [(''taskId'', JStr (td_task_id t))]), b)
               else (Inr (), b)))"

definition new_execution :: "TaskRequest \<Rightarrow> string \<Rightarrow> string \<Rightarrow> string \<Rightarrow> string \<Rightarrow> datetime \<Rightarrow> TaskExecution" where
  "new_execution q execution_id task_id session_id env_id now =
     \<lparr>tn_execution_id = execution_id, tn_task_id = task_id, tn_request_id = scoped_idempotency_key q, tn_status = Exec_pending,
      tn_requester = tq_requester q, tn_external_ref = tq_external_ref q, tn_task_type = tq_task_type q,
      tn_required_capability = cy_required_capability (tq_policy q), tn_env_id = Some env_id, tn_lease_id = None,
      tn_created_at = now, tn_updated_at = now, tn_started_at = None, tn_completed_at = None, tn_result_ref = None,
      tn_error_ref = None, tn_evidence_refs = [], tn_session_id = session_id\<rparr>"

definition accepted_event :: "exec_env \<Rightarrow> TaskRequest \<Rightarrow> string \<Rightarrow> string \<Rightarrow> string \<Rightarrow> datetime \<Rightarrow> TaskEvent" where
  "accepted_event env q execution_id task_id env_id now =
     \<lparr>tv_event_id = xe_event_id env, tv_execution_id = execution_id, tv_task_id = task_id, tv_kind = Event_accepted,
      tv_occurred_at = now, tv_summary = Msg ''Task accepted by Execution Plane.'' [],
      tv_data = [(''taskType'', JStr (tq_task_type q)),
        (''requiredCapability'', JStr (cy_required_capability (tq_policy q))), (''envId'', JStr env_id)],
      tv_evidence_refs = []\<rparr>"

text \<open>
  The steps of \<open>publish_task\<close> for a key that is not recorded, up to the runtime handler: from the end, the writes of the store,
  the task on the bus, the choice of an environment.
\<close>

definition record_execution ::
  "exec_env \<Rightarrow> exec_service \<Rightarrow> TaskRequest \<Rightarrow> TaskExecution \<Rightarrow> string \<Rightarrow> datetime \<Rightarrow> TaskExecution exec_result \<times> exec_service" where
  "record_execution env sv q x env_id now =
     (case put_idempotency (put_execution (xs_store sv) x)
             \<lparr>ti_scoped_key = scoped_idempotency_key q, ti_request_hash = xe_hash env q,
              ti_execution_id = tn_execution_id x, ti_request = q, ti_created_at = now, ti_updated_at = now\<rparr> of
        (Inl err, st) \<Rightarrow> (Inl err, sv\<lparr>xs_store := st\<rparr>)
      | (Inr _, st) \<Rightarrow>
          (Inr x, sv\<lparr>xs_store := append_event st (accepted_event env q (tn_execution_id x) (tn_task_id x) env_id now)\<rparr>))"

definition accept_on_env :: "exec_env \<Rightarrow> exec_service \<Rightarrow> TaskRequest \<Rightarrow> string \<Rightarrow> TaskExecution exec_result \<times> exec_service" where
  "accept_on_env env sv q env_id =
     (let session_id = session_id_for_request q (xs_default_session_id sv);
          task_id = task_id_for_request (xe_uuid5 env) q;
          execution_id = execution_id_for_task_id task_id;
          now = xe_clock env 0
      in case TaskDomain_validate (task_for_request q session_id task_id (xe_clock env 1)) of
           Inl err \<Rightarrow> (Inl (Raised err), sv)
         | Inr task \<Rightarrow>
             (case publish_on_bus (xs_bus sv) task of
                (Inl err, b) \<Rightarrow> (Inl err, sv\<lparr>xs_bus := b\<rparr>)
              | (Inr _, b) \<Rightarrow>
                  (case TaskExecution_validate (new_execution q execution_id task_id session_id env_id now) of
                     Inl err \<Rightarrow> (Inl (Raised err), sv\<lparr>xs_bus := b\<rparr>)
                   | Inr execution \<Rightarrow> record_execution env (sv\<lparr>xs_bus := b\<rparr>) q execution env_id now)))"

definition accept_request :: "exec_env \<Rightarrow> exec_service \<Rightarrow> TaskRequest \<Rightarrow> TaskExecution exec_result \<times> exec_service" where
  "accept_request env sv q =
     (case find_compatible (xs_envs sv) (tq_policy q) of
        None \<Rightarrow> (Inl (ExecutionPlaneError ''capability_not_available''
                  (Msg ''no execution environment can satisfy the requested capability'' []) 409 True
                  [(''requiredCapability'', JStr (cy_required_capability (tq_policy q))),
                   (''allowedTools'', JArr (map JStr (cy_allowed_tools (tq_policy q))))]), sv)
      | Some e \<Rightarrow> accept_on_env env sv q (ee_env_id e))"

definition publish_task ::
  "exec_env \<Rightarrow> (string \<Rightarrow> runtime_handler option) \<Rightarrow> exec_service \<Rightarrow> TaskRequest \<Rightarrow> TaskExecution exec_result \<times> exec_service" where
  "publish_task env handlers sv q =
     (let resume = (\<lambda>(r, s). case r of
            Inl e \<Rightarrow> (Inl e, s)
          | Inr x \<Rightarrow> (case handlers (tq_task_type q) of
                       None \<Rightarrow> (Inr x, s) | Some h \<Rightarrow> rh_publish_or_resume h q x s))
      in case (case handlers (tq_task_type q) of None \<Rightarrow> Inr () | Some h \<Rightarrow> rh_validate_request h q) of
           Inl e \<Rightarrow> (Inl e, sv)
         | Inr _ \<Rightarrow>
             (case get_idempotency (xs_store sv) (scoped_idempotency_key q) of
                Some existing \<Rightarrow>
                  if ti_request_hash existing \<noteq> xe_hash env q
                  then (Inl (idempotency_conflict (ti_request_hash existing) (xe_hash env q)), sv)
                  else resume (get_task sv (ti_execution_id existing))
              | None \<Rightarrow> resume (accept_request env sv q)))"

section \<open>Cancelling and retrying\<close>

text \<open>What both do with the answer of the bus.\<close>

definition commit_task ::
  "exec_service \<Rightarrow> TaskExecution \<Rightarrow> TaskDomain \<Rightarrow> InMemoryTaskBus \<Rightarrow> (TaskExecution \<Rightarrow> TaskEvent) \<Rightarrow> TaskExecution exec_result \<times> exec_service" where
  "commit_task sv x t b event =
     (let updated = execution_from_task x t
      in (Inr updated, sv\<lparr>xs_bus := b, xs_store := append_event (put_execution (xs_store sv) updated) (event updated)\<rparr>))"

definition bus_refused :: "string \<Rightarrow> string \<Rightarrow> py_error \<Rightarrow> exec_error" where
  "bus_refused code execution_id e =
     (case store_error e of
        None \<Rightarrow> Raised e | Some m \<Rightarrow> ExecutionPlaneError code m 409 False [(''executionId'', JStr execution_id)])"

definition cancel_task :: "exec_env \<Rightarrow> exec_service \<Rightarrow> string \<Rightarrow> CancelTaskCommand \<Rightarrow> TaskExecution exec_result \<times> exec_service" where
  "cancel_task env sv i c =
     (case require_execution (xs_store sv) i of
        Inl e \<Rightarrow> (Inl e, sv)
      | Inr x \<Rightarrow>
          (case request_interrupt (xs_bus sv) (tn_session_id x) (tn_task_id x) (ct_reason c) By_user (Some (ct_command_id c))
                  (xe_clock env 0) (xe_fresh env) of
             Inl e \<Rightarrow> (Inl (bus_refused ''task_not_cancellable'' i e), sv)
           | Inr (t, b) \<Rightarrow> commit_task sv x t b (\<lambda>updated.
               \<lparr>tv_event_id = xe_event_id env, tv_execution_id = i, tv_task_id = tn_task_id x,
                tv_kind = (if tn_status updated = Exec_failed then Event_cancelled else Event_progress),
                tv_occurred_at = xe_clock env 1, tv_summary = Msg ''Cancel requested: {}'' [ct_reason c],
                tv_data = [(''commandId'', JStr (ct_command_id c))], tv_evidence_refs = []\<rparr>)))"

definition retry_execution :: "exec_env \<Rightarrow> exec_service \<Rightarrow> string \<Rightarrow> RetryTaskCommand \<Rightarrow> TaskExecution exec_result \<times> exec_service" where
  "retry_execution env sv i c =
     (case require_execution (xs_store sv) i of
        Inl e \<Rightarrow> (Inl e, sv)
      | Inr x \<Rightarrow>
          (case retry (xs_bus sv) (tn_session_id x) (tn_task_id x) (rc_instruction c) of
             Inl e \<Rightarrow> (Inl (bus_refused ''task_not_retryable'' i e), sv)
           | Inr (t, b) \<Rightarrow> commit_task sv x t b (\<lambda>updated.
               \<lparr>tv_event_id = xe_event_id env, tv_execution_id = i, tv_task_id = tn_task_id x, tv_kind = Event_progress,
                tv_occurred_at = xe_clock env 1, tv_summary = Msg ''Retry requested.'' [],
                tv_data = [(''commandId'', JStr (rc_command_id c))], tv_evidence_refs = []\<rparr>)))"

section \<open>Events, results, errors and evidence\<close>

definition events_page :: "exec_service \<Rightarrow> string \<Rightarrow> TaskEventQuery option \<Rightarrow> TaskEventPage exec_result" where
  "events_page sv i query =
     (case require_execution (xs_store sv) i of
        Inl e \<Rightarrow> Inl e
      | Inr _ \<Rightarrow> Inr \<lparr>vp_items = list_events (xs_store sv) i (vq_limit (case query of None \<Rightarrow> default_event_query | Some v \<Rightarrow> v)),
                      vp_next_cursor = None\<rparr>)"

definition evidence_page :: "exec_service \<Rightarrow> string \<Rightarrow> EvidencePage exec_result" where
  "evidence_page sv i =
     (case require_execution (xs_store sv) i of
        Inl e \<Rightarrow> Inl e | Inr _ \<Rightarrow> Inr \<lparr>fp_items = list_evidence (xs_store sv) i, fp_next_cursor = None\<rparr>)"

text \<open>\<open>_execution_for_task\<close>, which writes an execution for a task that has none.\<close>

definition legacy_execution :: "string \<Rightarrow> TaskDomain \<Rightarrow> TaskExecution" where
  "legacy_execution session_id t =
     \<lparr>tn_execution_id = execution_id_for_task_id (td_task_id t), tn_task_id = td_task_id t,
      tn_request_id = ''taskbus:'' @ session_id @ '':'' @ td_task_id t, tn_status = status_from_task (td_status t),
      tn_requester = \<lparr>qr_kind = Requester_system, qr_id = ''taskbus'', qr_display_name = None, qr_trust_scope = None\<rparr>,
      tn_external_ref = None, tn_task_type = ''taskbus.legacy_execution'',
      tn_required_capability = td_required_capability t, tn_env_id = None, tn_lease_id = None,
      tn_created_at = td_created_at t,
      tn_updated_at = (case td_completed_at t of Some c \<Rightarrow> c
                       | None \<Rightarrow> (case td_started_at t of Some s \<Rightarrow> s | None \<Rightarrow> td_created_at t)),
      tn_started_at = td_started_at t, tn_completed_at = td_completed_at t, tn_result_ref = td_result_ref t,
      tn_error_ref = td_error_ref t, tn_evidence_refs = [], tn_session_id = session_id\<rparr>"

definition execution_for_task :: "exec_service \<Rightarrow> string \<Rightarrow> string \<Rightarrow> TaskExecution exec_result \<times> exec_service" where
  "execution_for_task sv session_id task_id =
     (case get_execution (xs_store sv) (execution_id_for_task_id task_id) of
        Some x \<Rightarrow> (Inr x, sv)
      | None \<Rightarrow>
          (case get (xs_bus sv) session_id task_id of
             None \<Rightarrow> (Inl (ExecutionPlaneError ''task_not_found'' (Msg ''task summary points to a missing TaskBus task'' []) 404 False
                       [(''sessionId'', JStr session_id), (''taskId'', JStr task_id)]), sv)
           | Some t \<Rightarrow>
               (case TaskExecution_validate ((legacy_execution session_id t)\<lparr>tn_execution_id := execution_id_for_task_id task_id,
                       tn_task_id := task_id, tn_request_id := ''taskbus:'' @ session_id @ '':'' @ task_id\<rparr>) of
                  Inl e \<Rightarrow> (Inl (Raised e), sv)
                | Inr x \<Rightarrow> (Inr x, sv\<lparr>xs_store := put_execution (xs_store sv) x\<rparr>))))"

definition not_found :: "string \<Rightarrow> string \<Rightarrow> string \<Rightarrow> exec_error" where
  "not_found text key i = ExecutionPlaneError ''result_not_found'' (Msg text []) 404 False [(key, JStr i)]"

text \<open>The summary of a kind that the summary store holds under a reference.\<close>

definition summary_of_kind :: "exec_service \<Rightarrow> TaskExecutionSummaryKind \<Rightarrow> string \<Rightarrow> TaskExecutionSummary option" where
  "summary_of_kind sv kind i =
     (case xs_summaries sv of
        None \<Rightarrow> None
      | Some st \<Rightarrow> (case summary_get st i of None \<Rightarrow> None | Some s \<Rightarrow> if sm_kind s = kind then Some s else None))"

definition result_for :: "exec_service \<Rightarrow> string \<Rightarrow> TaskResult exec_result \<times> exec_service" where
  "result_for sv i =
     (case get_result (xs_store sv) i of
        Some r \<Rightarrow> (Inr r, sv)
      | None \<Rightarrow>
          (case summary_of_kind sv Result_kind i of
             None \<Rightarrow> (Inl (not_found ''task result was not found'' ''resultRef'' i), sv)
           | Some s \<Rightarrow>
               (case execution_for_task sv (sm_session_id s) (sm_task_id s) of
                  (Inl e, sv1) \<Rightarrow> (Inl e, sv1)
                | (Inr x, sv1) \<Rightarrow>
                    (case TaskResult_validate \<lparr>ts_result_ref = i, ts_execution_id = tn_execution_id x, ts_summary = sm_summary s,
                            ts_structured_payload = sm_metadata s, ts_evidence_refs = [], ts_created_at = sm_created_at s\<rparr> of
                       Inl e \<Rightarrow> (Inl (Raised e), sv1)
                     | Inr r \<Rightarrow> (Inr r, sv1\<lparr>xs_store := put_result (xs_store sv1) r\<rparr>)))))"

definition error_for :: "exec_service \<Rightarrow> string \<Rightarrow> TaskError exec_result \<times> exec_service" where
  "error_for sv i =
     (case get_error (xs_store sv) i of
        Some r \<Rightarrow> (Inr r, sv)
      | None \<Rightarrow>
          (case summary_of_kind sv Error_kind i of
             None \<Rightarrow> (Inl (not_found ''task error was not found'' ''errorRef'' i), sv)
           | Some s \<Rightarrow>
               (case execution_for_task sv (sm_session_id s) (sm_task_id s) of
                  (Inl e, sv1) \<Rightarrow> (Inl e, sv1)
                | (Inr x, sv1) \<Rightarrow>
                    (case TaskError_validate \<lparr>tx_error_ref = i, tx_execution_id = tn_execution_id x,
                            tx_code = or_else (sm_error_type s) ''task_failed'',
                            tx_message = or_else (sm_error_message s) (sm_summary s), tx_retryable = True,
                            tx_recovery_hint = sm_stop_reason s, tx_evidence_refs = [], tx_created_at = sm_created_at s\<rparr> of
                       Inl e \<Rightarrow> (Inl (Raised e), sv1)
                     | Inr r \<Rightarrow> (Inr r, sv1\<lparr>xs_store := put_error (xs_store sv1) r\<rparr>)))))"

end
