(* ===== verification/Simulation.thy ===== *)
theory Simulation
  imports Prelude
begin

text \<open>
  Runs of calls over a state, and the contract under which one implementation answers every run as another: related states, the
  same answer to an allowed call, related states after it. The execution-plane stores interpret it.
\<close>

section \<open>Two implementations with the same answers\<close>

text \<open>The answers of a sequence of calls.\<close>

fun answers_of :: "('op \<Rightarrow> 's \<Rightarrow> 'a \<times> 's) \<Rightarrow> 'op list \<Rightarrow> 's \<Rightarrow> 'a list" where
  "answers_of f [] s = []"
| "answers_of f (op # ops) s = fst (f op s) # answers_of f ops (snd (f op s))"

text \<open>Every call of a sequence meets its condition in the state it finds.\<close>

fun all_allowed :: "('op \<Rightarrow> 's \<Rightarrow> 'a \<times> 's) \<Rightarrow> ('op \<Rightarrow> 's \<Rightarrow> bool) \<Rightarrow> 'op list \<Rightarrow> 's \<Rightarrow> bool" where
  "all_allowed f ok [] s = True"
| "all_allowed f ok (op # ops) s = (ok op s \<and> all_allowed f ok ops (snd (f op s)))"

lemma all_allowed_conj: "all_allowed f (\<lambda>op s. P op s \<and> Q op s) ops s \<longleftrightarrow> all_allowed f P ops s \<and> all_allowed f Q ops s"
  by (induction ops arbitrary: s) auto

text \<open>
  A concrete implementation that simulates an abstract one: related states give the same answer to an allowed call and stay
  related.
\<close>

locale simulation =
  fixes related :: "'c \<Rightarrow> 'a \<Rightarrow> bool"
    and run_c :: "'op \<Rightarrow> 'c \<Rightarrow> 'r \<times> 'c"
    and run_a :: "'op \<Rightarrow> 'a \<Rightarrow> 'r \<times> 'a"
    and ok :: "'op \<Rightarrow> 'a \<Rightarrow> bool"
  assumes same_answer: "\<lbrakk>related c a; ok op a\<rbrakk> \<Longrightarrow> fst (run_c op c) = fst (run_a op a)"
    and stays_related: "\<lbrakk>related c a; ok op a\<rbrakk> \<Longrightarrow> related (snd (run_c op c)) (snd (run_a op a))"
begin

lemma answers_alike: "\<lbrakk>related c a; all_allowed run_a ok ops a\<rbrakk> \<Longrightarrow> answers_of run_c ops c = answers_of run_a ops a"
  by (induction ops arbitrary: c a) (auto simp: same_answer stays_related)

end

end
