(* ===== verification/Execution_Refine.thy ===== *)
theory Execution_Refine
  imports Execution_Store Simulation
begin

text \<open>
  The SQLite store of the execution plane refines the in-memory one: the relation between tables and dictionaries, kept by every
  call that writes valid values under new event and evidence identifiers.
\<close>

section \<open>The SQLite store answers as the in-memory one\<close>

text \<open>A table with a key against a dictionary: the same keys in the same order, the same values.\<close>

definition keyed_alike :: "('v \<Rightarrow> 'j) \<Rightarrow> ('v \<Rightarrow> bool) \<Rightarrow> 'j plane_row list \<Rightarrow> (string, 'v) dict \<Rightarrow> bool" where
  "keyed_alike dump valid rows d \<longleftrightarrow> dict_ok d
     \<and> list_all2 (\<lambda>q (k, v). xw_key q = k \<and> xw_payload q = dump v \<and> valid v) rows d"

lemma keyed_find:
  assumes "keyed_alike dump valid rows d" "\<And>v. valid v \<Longrightarrow> ld (dump v) = Inr v"
  shows "find_payload ld rows key = Inr (dict_get d key)"
proof -
  have "list_all2 (\<lambda>q (k, v). xw_key q = k \<and> xw_payload q = dump v \<and> valid v) rows d" using assms(1) by (simp add: keyed_alike_def)
  then show ?thesis
    by (induction rule: list_all2_induct) (auto simp: find_payload_def assms(2))
qed

lemma keyed_mem:
  assumes "list_all2 (\<lambda>q (k, v). xw_key q = k \<and> R q v) rows d"
  shows "list_ex (\<lambda>q. xw_key q = key) rows \<longleftrightarrow> dict_get d key \<noteq> None"
  using assms by (induction rule: list_all2_induct) auto

lemma keyed_upsert:
  assumes "keyed_alike dump valid rows d" "valid v" "xw_key r = k" "xw_payload r = dump v"
    and "\<And>q. xw_key (f q) = xw_key q" "\<And>q. xw_payload (f q) = dump v"
  shows "keyed_alike dump valid (upsert_row f r rows) (dict_set d k v)"
proof -
  have ok: "dict_ok d" and all: "list_all2 (\<lambda>q (k, v). xw_key q = k \<and> xw_payload q = dump v \<and> valid v) rows d"
    using assms(1) by (simp_all add: keyed_alike_def)
  note mem = keyed_mem [OF all, of k]
  show ?thesis
  proof (cases "dict_get d k = None")
    case True
    with mem all assms(2-4) ok show ?thesis
      by (simp add: keyed_alike_def upsert_row_def dict_set_fresh list_all2_appendI map_of_eq_None_iff)
  next
    case False
    have "list_all2 (\<lambda>q (k, v). xw_key q = k \<and> xw_payload q = dump v \<and> valid v)
        (map (\<lambda>q. if xw_key q = k then f q else q) rows) (map (\<lambda>e. if fst e = k then (k, v) else e) d)"
      unfolding list_all2_map1 list_all2_map2 by (rule list_all2_mono [OF all]) (auto simp: assms)
    moreover have "dict_set d k v = map (\<lambda>e. if fst e = k then (k, v) else e) d" using ok False by (rule dict_set_map)
    moreover have "dict_ok (dict_set d k v)" using ok by (rule dict_ok_set)
    moreover have "list_ex (\<lambda>q. xw_key q = k) rows" using mem False by blast
    ultimately show ?thesis by (simp only: keyed_alike_def upsert_row_def assms(3) if_True)
  qed
qed

text \<open>A log with a unique identifier against a dictionary of lists.\<close>

definition logged_alike ::
  "('v \<Rightarrow> 'j) \<Rightarrow> ('v \<Rightarrow> bool) \<Rightarrow> ('v \<Rightarrow> string) \<Rightarrow> 'j plane_row list \<Rightarrow> (string, 'v list) dict \<Rightarrow> bool" where
  "logged_alike dump valid ident rows d \<longleftrightarrow>
     (\<forall>i. list_all2 (\<lambda>q v. xw_payload q = dump v \<and> valid v) (rows_for rows i) (entries d i))
     \<and> (\<forall>q \<in> set rows. \<exists>i. \<exists>w \<in> set (entries d i). xw_key q = ident w)"

definition fresh_in :: "('v \<Rightarrow> string) \<Rightarrow> (string, 'v list) dict \<Rightarrow> string \<Rightarrow> bool" where
  "fresh_in ident d i \<longleftrightarrow> list_all (list_all (\<lambda>w. ident w \<noteq> i)) (dict_values d)"

lemma fresh_entries: "fresh_in ident d i \<Longrightarrow> w \<in> set (entries d k) \<Longrightarrow> ident w \<noteq> i"
proof -
  assume fresh: "fresh_in ident d i" and w: "w \<in> set (entries d k)"
  then obtain vs where vs: "dict_get d k = Some vs" "w \<in> set vs" by (cases "dict_get d k") (simp_all add: entries_def)
  have "vs \<in> set (dict_values d)" using vs(1) by (rule dict_get_mem)
  then show "ident w \<noteq> i" using fresh vs(2) unfolding fresh_in_def list_all_iff by blast
qed

lemma logged_append:
  assumes "logged_alike dump valid ident rows d" "valid v" "fresh_in ident d (ident v)"
    and "xw_key r = ident v" "xw_execution_id r = k" "xw_payload r = dump v"
  shows "logged_alike dump valid ident (insert_or_ignore r rows) (append_entry d k v)"
proof -
  have entry: "entries (append_entry d k v) i = (if i = k then entries d k @ [v] else entries d i)" for i
    by (simp add: append_entry_def entries_def)
  have keys: "\<exists>i. \<exists>w \<in> set (entries d i). xw_key q = ident w" if "q \<in> set rows" for q
    using assms(1) that by (simp add: logged_alike_def)
  have new: "\<not> list_ex (\<lambda>q. xw_key q = xw_key r) rows"
  proof
    assume "list_ex (\<lambda>q. xw_key q = xw_key r) rows"
    then obtain q where q: "q \<in> set rows" "xw_key q = ident v" by (auto simp: list_ex_iff assms(4))
    from keys [OF q(1)] obtain i w where "w \<in> set (entries d i)" "ident w = ident v" using q(2) by auto
    with fresh_entries [OF assms(3)] show False by blast
  qed
  have "list_all2 (\<lambda>q v. xw_payload q = dump v \<and> valid v) (rows_for (rows @ [r]) i) (entries (append_entry d k v) i)" for i
    using assms(1,2,5,6) by (auto simp: logged_alike_def rows_for_def entry intro!: list_all2_appendI)
  moreover have "\<exists>i. \<exists>w \<in> set (entries (append_entry d k v) i). xw_key q = ident w" if "q \<in> set (rows @ [r])" for q
  proof (cases "q \<in> set rows")
    case True
    then obtain i w where "w \<in> set (entries d i)" "xw_key q = ident w" using keys by blast
    then show ?thesis by (intro exI [of _ i] bexI [of _ w]) (auto simp: entry)
  next
    case False
    then show ?thesis using that assms(4) by (intro exI [of _ k] bexI [of _ v]) (auto simp: entry)
  qed
  ultimately show ?thesis using new by (simp only: logged_alike_def insert_or_ignore_def if_False) blast
qed

lemma logged_read:
  assumes "logged_alike dump valid ident rows d" "\<And>v. valid v \<Longrightarrow> ld (dump v) = Inr v"
  shows "those_ok (map (\<lambda>q. ld (xw_payload q)) (take n (rows_for rows i))) = Inr (take n (entries d i))"
proof -
  have "list_all2 (\<lambda>q v. xw_payload q = dump v \<and> valid v) (take n (rows_for rows i)) (take n (entries d i))"
    using assms(1) by (simp add: logged_alike_def list_all2_takeI)
  then show ?thesis by (induction rule: list_all2_induct) (simp_all add: assms(2))
qed

lemma logged_read_all:
  assumes "logged_alike dump valid ident rows d" "\<And>v. valid v \<Longrightarrow> ld (dump v) = Inr v"
  shows "those_ok (map (\<lambda>q. ld (xw_payload q)) (rows_for rows i)) = Inr (entries d i)"
proof -
  have "length (rows_for rows i) = length (entries d i)"
    using assms(1) by (auto simp: logged_alike_def dest: list_all2_lengthD)
  then show ?thesis using logged_read [OF assms, of "length (entries d i)" i] by simp
qed

text \<open>The idempotency table.\<close>

definition idempotency_alike :: "'j plane_codec \<Rightarrow> 'j idempotency_row list \<Rightarrow> (string, TaskRequestIdempotencyRecord) dict \<Rightarrow> bool" where
  "idempotency_alike P rows d \<longleftrightarrow>
     list_all2 (\<lambda>q (k, r). q = idempotency_row_of P r \<and> k = ti_scoped_key r \<and> idempotency_record_ok r) rows d"

lemma idempotency_row_roundtrip:
  "\<lbrakk>plane_codec_ok P; idempotency_record_ok r\<rbrakk> \<Longrightarrow> idempotency_from_row P (idempotency_row_of P r) = Inr r"
  by (simp add: plane_codec_ok_def idempotency_record_ok_def idempotency_from_row_def idempotency_row_of_def)

lemma idempotency_get:
  assumes "plane_codec_ok P" "idempotency_alike P (xt_idempotency db) d"
  shows "sql_get_idempotency P db key = Inr (dict_get d key)"
proof -
  have "list_all2 (\<lambda>q (k, r). q = idempotency_row_of P r \<and> k = ti_scoped_key r \<and> idempotency_record_ok r) (xt_idempotency db) d"
    using assms(2) by (simp add: idempotency_alike_def)
  then have "(case find (\<lambda>r. iw_scoped_key r = key) (xt_idempotency db) of
        None \<Rightarrow> Inr None | Some r \<Rightarrow> lift_error (map_ok Some (idempotency_from_row P r))) = Inr (dict_get d key)"
    by (induction rule: list_all2_induct) (auto simp: idempotency_row_roundtrip [OF assms(1)], auto simp: idempotency_row_of_def)
  then show ?thesis by (simp add: sql_get_idempotency_def)
qed

text \<open>The relation between the two stores, and the calls for which they agree.\<close>

definition plane_alike :: "'j plane_codec \<Rightarrow> 'j SqliteExecutionPlaneStore \<Rightarrow> InMemoryExecutionPlaneStore \<Rightarrow> bool" where
  "plane_alike P db st \<longleftrightarrow> plane_codec_ok P
     \<and> idempotency_alike P (xt_idempotency db) (ps_idempotency st)
     \<and> keyed_alike (pc_dump_execution P) execution_readable (xt_tasks db) (ps_executions st)
     \<and> logged_alike (pc_dump_event P) event_readable tv_event_id (xt_events db) (ps_events st)
     \<and> keyed_alike (pc_dump_result P) result_readable (xt_results db) (ps_results st)
     \<and> keyed_alike (pc_dump_error P) error_readable (xt_errors db) (ps_errors st)
     \<and> logged_alike (pc_dump_evidence P) evidence_readable ef_evidence_id (xt_evidence db) (ps_evidence st)"

fun plane_allowed :: "plane_call \<Rightarrow> InMemoryExecutionPlaneStore \<Rightarrow> bool" where
  "plane_allowed (Put_idempotency r) st = idempotency_record_ok r"
| "plane_allowed (Put_execution e) st = execution_readable e"
| "plane_allowed (Append_event v) st = (event_readable v \<and> fresh_in tv_event_id (ps_events st) (tv_event_id v))"
| "plane_allowed (List_events i limit) st = (0 \<le> limit)"
| "plane_allowed (Put_result r) st = result_readable r"
| "plane_allowed (Put_error r) st = error_readable r"
| "plane_allowed (Put_evidence r) st = (evidence_readable r \<and> fresh_in ef_evidence_id (ps_evidence st) (ef_evidence_id r))"
| "plane_allowed _ st = True"

lemma put_idempotency_alike:
  assumes "plane_alike P db st" "idempotency_record_ok r"
  shows "fst (sql_put_idempotency P db r) = fst (put_idempotency st r)"
    and "plane_alike P (snd (sql_put_idempotency P db r)) (snd (put_idempotency st r))"
proof -
  have get: "sql_get_idempotency P db (ti_scoped_key r) = Inr (dict_get (ps_idempotency st) (ti_scoped_key r))"
    using assms(1) by (intro idempotency_get) (simp_all add: plane_alike_def)
  show "fst (sql_put_idempotency P db r) = fst (put_idempotency st r)"
    by (simp add: sql_put_idempotency_def put_idempotency_def get split: option.split)
  have "idempotency_alike P (xt_idempotency db @ [idempotency_row_of P r]) (ps_idempotency st @ [(ti_scoped_key r, r)])"
    using assms by (simp add: plane_alike_def idempotency_alike_def list_all2_appendI)
  then show "plane_alike P (snd (sql_put_idempotency P db r)) (snd (put_idempotency st r))"
    using assms(1)
    by (auto simp: sql_put_idempotency_def put_idempotency_def get plane_alike_def dict_set_fresh split: option.split)
qed

lemma plane_reads:
  assumes "plane_alike P db st"
  shows "sql_get_execution P db i = Inr (get_execution st i)" "sql_get_result P db i = Inr (get_result st i)"
    "sql_get_error P db i = Inr (get_error st i)"
  unfolding sql_get_execution_def sql_get_result_def sql_get_error_def get_execution_def get_result_def get_error_def
  using assms by (auto simp: plane_alike_def plane_codec_ok_def intro!: keyed_find)

interpretation sqlite_plane: simulation "plane_alike P" "sql_plane_run P" plane_run plane_allowed for P :: "'j plane_codec"
proof
  fix db :: "'j SqliteExecutionPlaneStore" and st op
  assume rel: "plane_alike P db st" and allowed: "plane_allowed op st"
  have P: "plane_codec_ok P" using rel by (simp add: plane_alike_def)
  note laws = P [unfolded plane_codec_ok_def]
  note parts = rel [unfolded plane_alike_def]
  show "fst (sql_plane_run P op db) = fst (plane_run op st)"
  proof (cases op)
    case (Put_idempotency r)
    then show ?thesis using put_idempotency_alike(1) [OF rel] allowed by simp
  next
    case (Get_idempotency k)
    have "idempotency_alike P (xt_idempotency db) (ps_idempotency st)" using parts by blast
    from idempotency_get [OF P this, of k] Get_idempotency show ?thesis by (simp add: map_exec_def get_idempotency_def)
  next
    case (List_events i limit)
    then show ?thesis
      using logged_read [of "pc_dump_event P" event_readable tv_event_id "xt_events db" "ps_events st" "pc_load_event P"] parts laws allowed
      by (simp add: sql_list_events_def list_events_def py_take_def Let_def map_exec_def)
  next
    case (List_evidence i)
    then show ?thesis
      using logged_read_all [of "pc_dump_evidence P" evidence_readable ef_evidence_id "xt_evidence db" "ps_evidence st" "pc_load_evidence P"] parts laws
      by (simp add: sql_list_evidence_def list_evidence_def map_exec_def)
  qed (simp_all add: plane_reads [OF rel] map_exec_def)
  show "plane_alike P (snd (sql_plane_run P op db)) (snd (plane_run op st))"
  proof (cases op)
    case (Put_idempotency r)
    then show ?thesis using put_idempotency_alike(2) [OF rel] allowed by simp
  qed (use rel allowed in \<open>auto simp: plane_alike_def sql_put_execution_def put_execution_def sql_append_event_def append_event_def
      sql_put_result_def put_result_def sql_put_error_def put_error_def sql_put_evidence_def put_evidence_def Let_def
      intro!: keyed_upsert logged_append\<close>)
qed

section \<open>Properties\<close>

lemma empty_plane_alike: "plane_codec_ok P \<Longrightarrow> plane_alike P empty_plane_tables empty_plane"
  by (simp add: plane_alike_def empty_plane_tables_def empty_plane_def idempotency_alike_def keyed_alike_def logged_alike_def
      rows_for_def entries_def)

text \<open>C16. Both stores of the execution plane answer alike: over any sequence of store calls that writes values their classes
  accept, uses new identifiers for events and evidence and asks for no negative number of events, the SQLite store returns what
  the in-memory store returns to every single call, idempotency conflicts included.\<close>

theorem sqlite_plane_answers_as_memory:
  assumes "plane_codec_ok P" "all_allowed plane_run plane_allowed calls empty_plane"
  shows "answers_of (sql_plane_run P) calls empty_plane_tables = answers_of plane_run calls empty_plane"
  using sqlite_plane.answers_alike empty_plane_alike assms by blast

text \<open>A codec that keeps each value as it is, and a few calls: a key, the same key with another hash, events, a result twice.\<close>

datatype plane_text =
    Request_text TaskRequest | Execution_text TaskExecution | Event_text TaskEvent | Result_text TaskResult
  | Error_text TaskError | Evidence_text EvidenceRef

definition unreadable :: py_error where
  "unreadable = ValidationError (Msg ''json'' [])"

definition sample_plane_codec :: "plane_text plane_codec" where
  "sample_plane_codec =
     \<lparr>pc_dump_request = Request_text, pc_load_request = (\<lambda>j. case j of Request_text x \<Rightarrow> Inr x | _ \<Rightarrow> Inl unreadable),
      pc_dump_execution = Execution_text, pc_load_execution = (\<lambda>j. case j of Execution_text x \<Rightarrow> Inr x | _ \<Rightarrow> Inl unreadable),
      pc_dump_event = Event_text, pc_load_event = (\<lambda>j. case j of Event_text x \<Rightarrow> Inr x | _ \<Rightarrow> Inl unreadable),
      pc_dump_result = Result_text, pc_load_result = (\<lambda>j. case j of Result_text x \<Rightarrow> Inr x | _ \<Rightarrow> Inl unreadable),
      pc_dump_error = Error_text, pc_load_error = (\<lambda>j. case j of Error_text x \<Rightarrow> Inr x | _ \<Rightarrow> Inl unreadable),
      pc_dump_evidence = Evidence_text, pc_load_evidence = (\<lambda>j. case j of Evidence_text x \<Rightarrow> Inr x | _ \<Rightarrow> Inl unreadable),
      pc_fromisoformat = (\<lambda>s. Inr (parse_isoformat s))\<rparr>"

lemma sample_plane_codec_ok: "plane_codec_ok sample_plane_codec"
  by (simp add: plane_codec_ok_def sample_plane_codec_def Let_def parse_isoformat)

definition sample_request :: "string \<Rightarrow> string \<Rightarrow> string \<Rightarrow> TaskRequest" where
  "sample_request requester key intent =
     \<lparr>tq_idempotency_key = key,
      tq_requester = \<lparr>qr_kind = Requester_external_app, qr_id = requester, qr_display_name = None, qr_trust_scope = None\<rparr>,
      tq_external_ref = None, tq_task_type = ''app.task'', tq_intent = intent, tq_input = [],
      tq_policy = \<lparr>cy_required_capability = ''code'', cy_allowed_tools = [], cy_denied_tools = [],
        cy_requires_human_confirmation = False, cy_max_runtime_seconds = None, cy_max_llm_tokens = None,
        cy_workspace_scope = None, cy_risk_level = Risk_low\<rparr>,
      tq_evidence = \<lparr>er_required = [], er_optional = [], er_retention_policy = None, er_redact_for_diagnostics = True\<rparr>,
      tq_callback = \<lparr>cb_mode = Callback_poll, cb_url = None, cb_signing_key_ref = None, cb_event_kinds = []\<rparr>,
      tq_metadata = []\<rparr>"

lemma sample_request_readable:
  "\<lbrakk>requester \<noteq> []; key \<noteq> []; intent \<noteq> []\<rbrakk> \<Longrightarrow> request_readable (sample_request requester key intent)"
  by (simp add: request_readable_def TaskRequest_validate_def sample_request_def TaskRequester_fields_ok_def CapabilityPolicy_ok_def
      CallbackPolicy_ok_def task_type_char_def Let_def)

definition sample_record :: "string \<Rightarrow> TaskRequestIdempotencyRecord" where
  "sample_record hash = \<lparr>ti_scoped_key = ''external_app:a:k'', ti_request_hash = hash, ti_execution_id = ''exec_1'',
     ti_request = sample_request ''a'' ''k'' ''go'', ti_created_at = sample_time 1, ti_updated_at = sample_time 1\<rparr>"

definition sample_event :: "string \<Rightarrow> TaskEvent" where
  "sample_event i = \<lparr>tv_event_id = i, tv_execution_id = ''exec_1'', tv_task_id = ''1'', tv_kind = Event_progress,
     tv_occurred_at = sample_time 2, tv_summary = Msg ''working'' [], tv_data = [(''n'', JInt 1)], tv_evidence_refs = []\<rparr>"

definition sample_result :: "string \<Rightarrow> TaskResult" where
  "sample_result s = \<lparr>ts_result_ref = ''r'', ts_execution_id = ''exec_1'', ts_summary = s, ts_structured_payload = [],
     ts_evidence_refs = [], ts_created_at = sample_time 3\<rparr>"

definition sample_plane_calls :: "plane_call list" where
  "sample_plane_calls = [Put_idempotency (sample_record ''h1''), Put_idempotency (sample_record ''h2''),
     Append_event (sample_event ''e1''), Append_event (sample_event ''e2''), List_events ''exec_1'' 1,
     Put_result (sample_result ''ok''), Put_result (sample_result ''done''), Get_result ''r'', Get_result ''x'']"

theorem sqlite_plane_answers_as_memory_witness:
  "answers_of (sql_plane_run sample_plane_codec) sample_plane_calls empty_plane_tables =
     answers_of plane_run sample_plane_calls empty_plane
   \<and> answers_of plane_run sample_plane_calls empty_plane =
     [Inr (Found_record (Some (sample_record ''h1''))), Inl (idempotency_conflict ''h1'' ''h2''), Inr Stored, Inr Stored,
      Inr (Found_events [sample_event ''e1'']), Inr Stored, Inr Stored, Inr (Found_result (Some (sample_result ''done''))),
      Inr (Found_result None)]"
proof
  have "all_allowed plane_run plane_allowed sample_plane_calls empty_plane"
    by (simp add: sample_plane_calls_def sample_record_def idempotency_record_ok_def sample_request_readable sample_time_def datetime_ok_def
        sample_event_def event_readable_def TaskEvent_ok_def sample_result_def result_readable_def TaskResult_validate_def
        fresh_in_def empty_plane_def put_idempotency_def append_event_def append_entry_def entries_def)
  with sample_plane_codec_ok show "answers_of (sql_plane_run sample_plane_codec) sample_plane_calls empty_plane_tables =
     answers_of plane_run sample_plane_calls empty_plane" by (rule sqlite_plane_answers_as_memory)
qed code_simp

end
