(* ===== verification/Execution_Safety.thy ===== *)
theory Execution_Safety
  imports Execution_Service Execution_Refine Bus_Protocol "HOL-Library.Sublist"
begin

text \<open>
  What the embedded task API promises over every sequence of its calls with workers on the bus beside it: executions backed by
  tasks, keys bound to their first request, events only appended, publishing idempotent and resumable.
\<close>

section \<open>Steps\<close>

text \<open>The calls of the task API that can change its state; the rest only read.\<close>

datatype service_call =
    Publish_request TaskRequest | Read_execution string | Cancel string CancelTaskCommand | Retry_execution string RetryTaskCommand
  | Read_result string | Read_error string | Record_result TaskResult | Record_error TaskError | Record_evidence EvidenceRef

abbreviation no_handlers :: "string \<Rightarrow> runtime_handler option" where
  "no_handlers \<equiv> \<lambda>_. None"

fun service_run :: "exec_env \<Rightarrow> service_call \<Rightarrow> exec_service \<Rightarrow> exec_service" where
  "service_run env (Publish_request q) sv = snd (publish_task env no_handlers sv q)"
| "service_run env (Read_execution i) sv = snd (get_task sv i)"
| "service_run env (Cancel i c) sv = snd (cancel_task env sv i c)"
| "service_run env (Retry_execution i c) sv = snd (retry_execution env sv i c)"
| "service_run env (Read_result i) sv = snd (result_for sv i)"
| "service_run env (Read_error i) sv = snd (error_for sv i)"
| "service_run env (Record_result r) sv = sv\<lparr>xs_store := put_result (xs_store sv) r\<rparr>"
| "service_run env (Record_error r) sv = sv\<lparr>xs_store := put_error (xs_store sv) r\<rparr>"
| "service_run env (Record_evidence r) sv = sv\<lparr>xs_store := put_evidence (xs_store sv) r\<rparr>"

text \<open>A call of the bus that returned, and the two the API makes itself.\<close>

definition bus_call :: "InMemoryTaskBus \<Rightarrow> InMemoryTaskBus \<Rightarrow> bool" where
  "bus_call b b' \<longleftrightarrow> (\<exists>clk fresh op r. exec clk fresh op b = Inr (r, b'))"

lemma bus_callI:
  "request_interrupt b s i r u q now fresh = Inr (t, b') \<Longrightarrow> bus_call b b'"
  "retry b s i instruction = Inr (t, b') \<Longrightarrow> bus_call b b'"
proof -
  assume "request_interrupt b s i r u q now fresh = Inr (t, b')"
  then have "exec (\<lambda>_. now) fresh (Request_interrupt s i r u q) b = Inr ([t], b')" by simp
  then show "bus_call b b'" unfolding bus_call_def by blast
next
  assume "retry b s i instruction = Inr (t, b')"
  then have "exec clk [] (Retry s i instruction) b = Inr ([t], b')" for clk by simp
  then show "bus_call b b'" unfolding bus_call_def by blast
qed

text \<open>
  A step of the system: a call of the API, with any clock and identifiers but one hash and one \<open>uuid5\<close>, or any call of the bus by
  a worker beside it.
\<close>

inductive plane_step :: "(TaskRequest \<Rightarrow> string) \<Rightarrow> (string \<Rightarrow> string) \<Rightarrow> exec_service \<Rightarrow> exec_service \<Rightarrow> bool" for hash uuid5 where
  api_step: "\<lbrakk>xe_hash env = hash; xe_uuid5 env = uuid5\<rbrakk> \<Longrightarrow> plane_step hash uuid5 sv (service_run env c sv)"
| bus_step: "bus_call (xs_bus sv) b \<Longrightarrow> plane_step hash uuid5 sv (sv\<lparr>xs_bus := b\<rparr>)"

text \<open>The states reached from an empty store over a bus that calls alone built.\<close>

inductive plane_reachable :: "(TaskRequest \<Rightarrow> string) \<Rightarrow> (string \<Rightarrow> string) \<Rightarrow> exec_service \<Rightarrow> bool" for hash uuid5 where
  plane_start: "\<lbrakk>xs_store sv = empty_plane; reachable False (xs_bus sv)\<rbrakk> \<Longrightarrow> plane_reachable hash uuid5 sv"
| plane_next: "\<lbrakk>plane_reachable hash uuid5 sv; plane_step hash uuid5 sv sv'\<rbrakk> \<Longrightarrow> plane_reachable hash uuid5 sv'"

section \<open>What every step keeps\<close>

text \<open>Every stored execution is filed under its identifier, which names its task, and the task is on the bus.\<close>

definition backed :: "exec_service \<Rightarrow> TaskExecution \<Rightarrow> bool" where
  "backed sv x \<longleftrightarrow> tn_execution_id x = execution_id_for_task_id (tn_task_id x)
     \<and> get (xs_bus sv) (tn_session_id x) (tn_task_id x) \<noteq> None"

definition executions_backed :: "exec_service \<Rightarrow> bool" where
  "executions_backed sv \<longleftrightarrow> (\<forall>i x. get_execution (xs_store sv) i = Some x \<longrightarrow> tn_execution_id x = i \<and> backed sv x)"

text \<open>Every recorded key names the task its text gives and an execution that is stored.\<close>

definition task_id_for_key :: "(string \<Rightarrow> string) \<Rightarrow> string \<Rightarrow> string" where
  "task_id_for_key uuid5 k = uuid5 (''taskweavn.execution_plane.task:'' @ k)"

lemma task_id_for_request_key: "task_id_for_request uuid5 q = task_id_for_key uuid5 (scoped_idempotency_key q)"
  by (simp add: task_id_for_request_def task_id_for_key_def scoped_idempotency_key_def)

definition records_backed :: "(string \<Rightarrow> string) \<Rightarrow> exec_service \<Rightarrow> bool" where
  "records_backed uuid5 sv \<longleftrightarrow> (\<forall>k r. get_idempotency (xs_store sv) k = Some r \<longrightarrow>
     ti_execution_id r = execution_id_for_task_id (task_id_for_key uuid5 k)
     \<and> get_execution (xs_store sv) (execution_id_for_task_id (task_id_for_key uuid5 k)) \<noteq> None)"

definition plane_inv :: "(string \<Rightarrow> string) \<Rightarrow> exec_service \<Rightarrow> bool" where
  "plane_inv uuid5 sv \<longleftrightarrow> bus_inv (xs_bus sv) \<and> executions_backed sv \<and> records_backed uuid5 sv"

text \<open>What a step never takes away: tasks, executions, recorded keys and events.\<close>

definition plane_grows :: "exec_service \<Rightarrow> exec_service \<Rightarrow> bool" where
  "plane_grows sv sv' \<longleftrightarrow>
     (\<forall>s i. get (xs_bus sv) s i \<noteq> None \<longrightarrow> get (xs_bus sv') s i \<noteq> None)
     \<and> (\<forall>i. get_execution (xs_store sv) i \<noteq> None \<longrightarrow> get_execution (xs_store sv') i \<noteq> None)
     \<and> (\<forall>k r. get_idempotency (xs_store sv) k = Some r \<longrightarrow> get_idempotency (xs_store sv') k = Some r)
     \<and> (\<forall>i. prefix (entries (ps_events (xs_store sv)) i) (entries (ps_events (xs_store sv')) i))"

lemma plane_grows_refl [simp]: "plane_grows sv sv"
  by (simp add: plane_grows_def)

lemma plane_grows_trans: "\<lbrakk>plane_grows a b; plane_grows b c\<rbrakk> \<Longrightarrow> plane_grows a c"
  unfolding plane_grows_def by (meson prefix_order.trans)

lemma entries_append_entry: "entries (append_entry d k v) i = (if i = k then entries d k @ [v] else entries d i)"
  by (simp add: append_entry_def entries_def)

lemmas plane_store_defs = put_execution_def get_execution_def get_idempotency_def append_event_def put_result_def put_error_def
  put_evidence_def

text \<open>Storing an execution of a task that is on the bus.\<close>

lemma put_execution_keeps:
  assumes "plane_inv uuid5 sv" "backed sv x"
  shows "plane_inv uuid5 (sv\<lparr>xs_store := put_execution (xs_store sv) x\<rparr>)"
    "plane_grows sv (sv\<lparr>xs_store := put_execution (xs_store sv) x\<rparr>)"
  using assms by (auto simp: plane_inv_def executions_backed_def records_backed_def plane_grows_def backed_def plane_store_defs)

lemma append_event_keeps:
  assumes "plane_inv uuid5 sv"
  shows "plane_inv uuid5 (sv\<lparr>xs_store := append_event (xs_store sv) v\<rparr>)"
    "plane_grows sv (sv\<lparr>xs_store := append_event (xs_store sv) v\<rparr>)"
  using assms
  by (auto simp: plane_inv_def executions_backed_def records_backed_def plane_grows_def backed_def plane_store_defs entries_append_entry)

lemma exec_bus_keeps:
  assumes "plane_inv uuid5 sv" "bus_call (xs_bus sv) b"
  shows "plane_inv uuid5 (sv\<lparr>xs_bus := b\<rparr>)" "plane_grows sv (sv\<lparr>xs_bus := b\<rparr>)"
proof -
  obtain clk fresh op r where call: "exec clk fresh op (xs_bus sv) = Inr (r, b)" using assms(2) by (auto simp: bus_call_def)
  have inv: "bus_inv (xs_bus sv)" using assms(1) by (simp add: plane_inv_def)
  then have keyed: "keyed (xs_bus sv)" by (simp add: bus_inv_def)
  have kept: "get b s i \<noteq> None" if "get (xs_bus sv) s i \<noteq> None" for s i
    using exec_get [OF call keyed, of s i] that by auto
  have "bus_inv b" using call inv by (rule exec_inv)
  moreover have "backed (sv\<lparr>xs_bus := b\<rparr>) x" if "backed sv x" for x using that kept by (simp add: backed_def)
  then have "executions_backed (sv\<lparr>xs_bus := b\<rparr>)" using assms(1) by (simp add: plane_inv_def executions_backed_def)
  ultimately show "plane_inv uuid5 (sv\<lparr>xs_bus := b\<rparr>)" using assms(1) by (simp add: plane_inv_def records_backed_def)
  show "plane_grows sv (sv\<lparr>xs_bus := b\<rparr>)" using kept by (simp add: plane_grows_def)
qed

text \<open>Reading an execution back from its task.\<close>

lemma execution_from_task_ids [simp]:
  "tn_execution_id (execution_from_task x t) = tn_execution_id x" "tn_task_id (execution_from_task x t) = tn_task_id x"
  "tn_session_id (execution_from_task x t) = tn_session_id x" "tn_request_id (execution_from_task x t) = tn_request_id x"
  by (simp_all add: execution_from_task_def)

lemma execution_from_task_twice [simp]: "execution_from_task (execution_from_task x t) t = execution_from_task x t"
  by (simp add: execution_from_task_def split: option.split)

lemma get_task_keeps:
  assumes "plane_inv uuid5 sv"
  shows "plane_inv uuid5 (snd (get_task sv i))" "plane_grows sv (snd (get_task sv i))"
proof -
  have "backed sv (execution_from_task x t)" if "get_execution (xs_store sv) i = Some x" for x t
    using assms that by (auto simp: plane_inv_def executions_backed_def backed_def)
  then show "plane_inv uuid5 (snd (get_task sv i))" "plane_grows sv (snd (get_task sv i))"
    using assms put_execution_keeps [OF assms]
    by (auto simp: get_task_def require_execution_def Let_def split: option.split sum.split)
qed

lemma commit_task_keeps:
  assumes "plane_inv uuid5 sv" "bus_call (xs_bus sv) b" "get_execution (xs_store sv) i = Some x"
  shows "plane_inv uuid5 (snd (commit_task sv x t b event))" "plane_grows sv (snd (commit_task sv x t b event))"
proof -
  let ?sv1 = "sv\<lparr>xs_bus := b\<rparr>"
  note bus = exec_bus_keeps [OF assms(1,2)]
  have "get_execution (xs_store ?sv1) i = Some x" using assms(3) by simp
  with bus(1) have "backed ?sv1 x" unfolding plane_inv_def executions_backed_def by blast
  then have "backed ?sv1 (execution_from_task x t)" by (simp add: backed_def)
  note stored = put_execution_keeps [OF bus(1) this]
  note logged = append_event_keeps [OF stored(1)]
  show "plane_inv uuid5 (snd (commit_task sv x t b event))" using logged(1) by (simp add: commit_task_def Let_def)
  have "plane_grows sv ((sv\<lparr>xs_bus := b\<rparr>)\<lparr>xs_store := append_event (put_execution (xs_store sv) (execution_from_task x t)) v\<rparr>)" for v
    using plane_grows_trans [OF bus(2) plane_grows_trans [OF stored(2) logged(2)]] by simp
  then show "plane_grows sv (snd (commit_task sv x t b event))" by (simp add: commit_task_def Let_def)
qed

lemma cancel_task_keeps:
  assumes "plane_inv uuid5 sv"
  shows "plane_inv uuid5 (snd (cancel_task env sv i c))" "plane_grows sv (snd (cancel_task env sv i c))"
  using assms commit_task_keeps [OF assms]
  by (auto simp: cancel_task_def require_execution_def split: option.split sum.split dest: bus_callI)

lemma retry_execution_keeps:
  assumes "plane_inv uuid5 sv"
  shows "plane_inv uuid5 (snd (retry_execution env sv i c))" "plane_grows sv (snd (retry_execution env sv i c))"
  using assms commit_task_keeps [OF assms]
  by (auto simp: retry_execution_def require_execution_def split: option.split sum.split dest: bus_callI)

lemma execution_for_task_keeps:
  assumes "plane_inv uuid5 sv"
  shows "plane_inv uuid5 (snd (execution_for_task sv s i))" "plane_grows sv (snd (execution_for_task sv s i))"
proof -
  have "backed sv x" if "TaskExecution_validate ((legacy_execution s t)\<lparr>tn_execution_id := execution_id_for_task_id i,
      tn_task_id := i, tn_request_id := r\<rparr>) = Inr x" "get (xs_bus sv) s i = Some t" for x t r
    using that by (auto simp: TaskExecution_validate_def backed_def legacy_execution_def split: if_splits)
  then show "plane_inv uuid5 (snd (execution_for_task sv s i))" "plane_grows sv (snd (execution_for_task sv s i))"
    using assms put_execution_keeps [OF assms]
    by (auto simp: execution_for_task_def split: option.split sum.split)
qed

lemma records_keep:
  assumes "plane_inv uuid5 sv"
  shows "plane_inv uuid5 (sv\<lparr>xs_store := put_result (xs_store sv) r\<rparr>)" "plane_grows sv (sv\<lparr>xs_store := put_result (xs_store sv) r\<rparr>)"
    "plane_inv uuid5 (sv\<lparr>xs_store := put_error (xs_store sv) e\<rparr>)" "plane_grows sv (sv\<lparr>xs_store := put_error (xs_store sv) e\<rparr>)"
    "plane_inv uuid5 (sv\<lparr>xs_store := put_evidence (xs_store sv) v\<rparr>)" "plane_grows sv (sv\<lparr>xs_store := put_evidence (xs_store sv) v\<rparr>)"
  using assms by (auto simp: plane_inv_def executions_backed_def records_backed_def plane_grows_def backed_def plane_store_defs)

text \<open>Accepting a request: the task on the bus, then the execution, the key and the event.\<close>

lemma publish_on_bus_Inr:
  assumes "publish_on_bus b t = (Inr u, b')"
  shows "b' = b \<or> bus_call b b'" "get b' (td_session_id t) (td_task_id t) \<noteq> None"
proof -
  have "(b' = b \<or> bus_call b b') \<and> get b' (td_session_id t) (td_task_id t) \<noteq> None"
  proof (cases "Task_Bus.publish b t")
    case (Inl e)
    then show ?thesis using assms by (auto simp: publish_on_bus_def split: option.splits if_splits)
  next
    case (Inr p)
    then obtain v where p: "Task_Bus.publish b t = Inr (v, b')" using assms by (cases p) (simp add: publish_on_bus_def)
    then have "exec clk fresh (Publish t) b = Inr ([v], b')" for clk fresh by simp
    then have "bus_call b b'" unfolding bus_call_def by blast
    moreover have "load b t = Inr (v, b')" using p by (simp add: publish_def split: if_splits)
    then have "get b' (td_session_id t) (td_task_id t) = Some t" by (simp add: load_get)
    ultimately show ?thesis by simp
  qed
  then show "b' = b \<or> bus_call b b'" "get b' (td_session_id t) (td_task_id t) \<noteq> None" by auto
qed

lemma publish_on_bus_Inl: "publish_on_bus b t = (Inl e, b') \<Longrightarrow> b' = b"
  by (auto simp: publish_on_bus_def split: sum.splits option.splits if_splits)

lemma new_record_keeps:
  assumes "plane_inv uuid5 sv" "get_idempotency (xs_store sv) (ti_scoped_key r) = None"
    and "ti_execution_id r = execution_id_for_task_id (task_id_for_key uuid5 (ti_scoped_key r))"
    and "get_execution (xs_store sv) (ti_execution_id r) \<noteq> None"
  shows "fst (put_idempotency (xs_store sv) r) = Inr r"
    "plane_inv uuid5 (sv\<lparr>xs_store := snd (put_idempotency (xs_store sv) r)\<rparr>)"
    "plane_grows sv (sv\<lparr>xs_store := snd (put_idempotency (xs_store sv) r)\<rparr>)"
    "get_idempotency (snd (put_idempotency (xs_store sv) r)) (ti_scoped_key r) = Some r"
  using assms
  by (auto simp: put_idempotency_def plane_inv_def executions_backed_def records_backed_def plane_grows_def backed_def
      get_execution_def get_idempotency_def)

lemma record_execution_keeps:
  assumes "plane_inv uuid5 sv" "get_idempotency (xs_store sv) (scoped_idempotency_key q) = None" "backed sv x"
    and "tn_task_id x = task_id_for_request uuid5 q" "record_execution env sv q x env_id now = (res, sv')"
  shows "plane_inv uuid5 sv'" "plane_grows sv sv'" "res = Inr x" "xs_bus sv' = xs_bus sv"
    "\<exists>r. get_idempotency (xs_store sv') (scoped_idempotency_key q) = Some r \<and> ti_request_hash r = xe_hash env q"
proof -
  define sv1 where "sv1 = sv\<lparr>xs_store := put_execution (xs_store sv) x\<rparr>"
  define r where "r = \<lparr>ti_scoped_key = scoped_idempotency_key q, ti_request_hash = xe_hash env q,
    ti_execution_id = tn_execution_id x, ti_request = q, ti_created_at = now, ti_updated_at = now\<rparr>"
  note stored = put_execution_keeps [OF assms(1,3), folded sv1_def]
  have "get_idempotency (xs_store sv1) (ti_scoped_key r) = None"
    using assms(2) by (simp add: sv1_def r_def get_idempotency_def put_execution_def)
  moreover have "ti_execution_id r = execution_id_for_task_id (task_id_for_key uuid5 (ti_scoped_key r))"
    using assms(3,4) by (simp add: r_def backed_def task_id_for_request_key)
  moreover have "get_execution (xs_store sv1) (ti_execution_id r) \<noteq> None"
    by (simp add: sv1_def r_def get_execution_def put_execution_def)
  ultimately have rec: "fst (put_idempotency (xs_store sv1) r) = Inr r"
    "plane_inv uuid5 (sv1\<lparr>xs_store := snd (put_idempotency (xs_store sv1) r)\<rparr>)"
    "plane_grows sv1 (sv1\<lparr>xs_store := snd (put_idempotency (xs_store sv1) r)\<rparr>)"
    "get_idempotency (snd (put_idempotency (xs_store sv1) r)) (ti_scoped_key r) = Some r"
    using new_record_keeps [OF stored(1), of r] by blast+
  let ?v = "accepted_event env q (tn_execution_id x) (tn_task_id x) env_id now"
  note logged = append_event_keeps [OF rec(2), of ?v]
  obtain st where st: "put_idempotency (xs_store sv1) r = (Inr r, st)" using rec(1) by (cases "put_idempotency (xs_store sv1) r") simp
  have out: "res = Inr x" "sv' = sv1\<lparr>xs_store := append_event st ?v\<rparr>"
    using assms(5) st by (simp_all add: record_execution_def sv1_def r_def)
  show "res = Inr x" by (rule out)
  show "plane_inv uuid5 sv'" using logged(1) by (simp add: out(2) st)
  show "plane_grows sv sv'" using plane_grows_trans [OF stored(2) plane_grows_trans [OF rec(3) logged(2)]] by (simp add: out(2) st)
  show "xs_bus sv' = xs_bus sv" by (simp add: out(2) sv1_def)
  show "\<exists>r. get_idempotency (xs_store sv') (scoped_idempotency_key q) = Some r \<and> ti_request_hash r = xe_hash env q"
    using rec(4) [unfolded st snd_conv] by (intro exI [of _ r]) (simp add: out(2) r_def get_idempotency_def append_event_def)
qed

text \<open>What holds after a request was accepted, and after it was not.\<close>

definition accepted :: "exec_env \<Rightarrow> TaskRequest \<Rightarrow> TaskExecution \<Rightarrow> exec_service \<Rightarrow> bool" where
  "accepted env q x sv \<longleftrightarrow> tn_execution_id x = execution_id_for_task_id (task_id_for_request (xe_uuid5 env) q)
     \<and> tn_task_id x = task_id_for_request (xe_uuid5 env) q
     \<and> (\<exists>r. get_idempotency (xs_store sv) (scoped_idempotency_key q) = Some r \<and> ti_request_hash r = xe_hash env q)"

lemma accept_on_env_keeps:
  assumes "plane_inv (xe_uuid5 env) sv" "get_idempotency (xs_store sv) (scoped_idempotency_key q) = None"
    and "accept_on_env env sv q env_id = (res, sv')"
  shows "plane_inv (xe_uuid5 env) sv' \<and> plane_grows sv sv' \<and> (\<forall>x. res = Inr x \<longrightarrow> accepted env q x sv')"
proof -
  define session_id where "session_id = session_id_for_request q (xs_default_session_id sv)"
  define task_id where "task_id = task_id_for_request (xe_uuid5 env) q"
  define task where "task = task_for_request q session_id task_id (xe_clock env 1)"
  let ?x = "new_execution q (execution_id_for_task_id task_id) task_id session_id env_id (xe_clock env 0)"
  note unf = assms(3) [unfolded accept_on_env_def Let_def, folded session_id_def task_id_def, folded task_def]
  show ?thesis
  proof (cases "TaskDomain_validate task")
    case (Inl e)
    then show ?thesis using unf assms(1) by auto
  next
    case (Inr t)
    then have "TaskDomain_valid task" by (simp add: TaskDomain_valid_def)
    with Inr have t: "t = task" by (simp add: TaskDomain_validate_valid)
    obtain ans b where pub: "publish_on_bus (xs_bus sv) task = (ans, b)" by (cases "publish_on_bus (xs_bus sv) task")
    show ?thesis
    proof (cases ans)
      case (Inl e)
      then show ?thesis using unf assms(1) pub Inr t publish_on_bus_Inl [of "xs_bus sv" task e b] by auto
    next
      case ok: (Inr u)
      note bus = publish_on_bus_Inr [OF pub [unfolded ok]]
      have keep: "plane_inv (xe_uuid5 env) (sv\<lparr>xs_bus := b\<rparr>)" "plane_grows sv (sv\<lparr>xs_bus := b\<rparr>)"
        using bus(1) exec_bus_keeps [OF assms(1)] assms(1) by auto
      show ?thesis
      proof (cases "TaskExecution_validate ?x")
        case (Inl e)
        then show ?thesis using unf keep pub Inr t ok by auto
      next
        case valid: (Inr y)
        then have y: "y = ?x" by (simp add: TaskExecution_validate_def split: if_splits)
        have out: "record_execution env (sv\<lparr>xs_bus := b\<rparr>) q ?x env_id (xe_clock env 0) = (res, sv')"
          using unf pub Inr t ok valid y by simp
        have "backed (sv\<lparr>xs_bus := b\<rparr>) ?x"
          using bus(2) by (simp add: backed_def new_execution_def task_def task_for_request_def)
        note rec = record_execution_keeps [OF keep(1) _ this _ out]
        show ?thesis
          using rec assms(2) plane_grows_trans [OF keep(2)] by (auto simp: accepted_def new_execution_def task_id_def)
      qed
    qed
  qed
qed

lemma accept_request_keeps:
  assumes "plane_inv (xe_uuid5 env) sv" "get_idempotency (xs_store sv) (scoped_idempotency_key q) = None"
    and "accept_request env sv q = (res, sv')"
  shows "plane_inv (xe_uuid5 env) sv' \<and> plane_grows sv sv' \<and> (\<forall>x. res = Inr x \<longrightarrow> accepted env q x sv')"
proof (cases "find_compatible (xs_envs sv) (tq_policy q)")
  case None
  then show ?thesis using assms by (auto simp: accept_request_def)
next
  case (Some e)
  then have "accept_on_env env sv q (ee_env_id e) = (res, sv')" using assms(3) by (simp add: accept_request_def)
  with assms(1,2) show ?thesis by (rule accept_on_env_keeps)
qed

lemma publish_task_fresh:
  "get_idempotency (xs_store sv) (scoped_idempotency_key q) = None \<Longrightarrow> publish_task env no_handlers sv q = accept_request env sv q"
  by (auto simp: publish_task_def Let_def split: prod.splits sum.splits)

lemma publish_task_recorded:
  assumes "get_idempotency (xs_store sv) (scoped_idempotency_key q) = Some r"
  shows "publish_task env no_handlers sv q =
    (if ti_request_hash r \<noteq> xe_hash env q then (Inl (idempotency_conflict (ti_request_hash r) (xe_hash env q)), sv)
     else get_task sv (ti_execution_id r))"
  using assms by (auto simp: publish_task_def Let_def split: prod.splits sum.splits)

lemma get_task_backed:
  assumes "plane_inv uuid5 sv" "get_execution (xs_store sv) i = Some x"
  obtains t where "get (xs_bus sv) (tn_session_id x) (tn_task_id x) = Some t" "tn_execution_id x = i"
    "i = execution_id_for_task_id (tn_task_id x)"
    "get_task sv i = (Inr (execution_from_task x t),
       if execution_from_task x t \<noteq> x then sv\<lparr>xs_store := put_execution (xs_store sv) (execution_from_task x t)\<rparr> else sv)"
proof -
  have "tn_execution_id x = i" "backed sv x" using assms by (auto simp: plane_inv_def executions_backed_def)
  moreover from this obtain t where "get (xs_bus sv) (tn_session_id x) (tn_task_id x) = Some t" by (auto simp: backed_def)
  ultimately show ?thesis using that [of t] assms(2) by (simp add: get_task_def require_execution_def Let_def backed_def)
qed

lemma publish_task_keeps:
  assumes "plane_inv (xe_uuid5 env) sv"
  shows "plane_inv (xe_uuid5 env) (snd (publish_task env no_handlers sv q))" "plane_grows sv (snd (publish_task env no_handlers sv q))"
proof -
  have "plane_inv (xe_uuid5 env) (snd (publish_task env no_handlers sv q)) \<and> plane_grows sv (snd (publish_task env no_handlers sv q))"
  proof (cases "get_idempotency (xs_store sv) (scoped_idempotency_key q)")
    case None
    obtain res sv' where "accept_request env sv q = (res, sv')" by (cases "accept_request env sv q")
    with accept_request_keeps [OF assms None this] show ?thesis by (simp add: publish_task_fresh [OF None])
  next
    case (Some r)
    then show ?thesis using assms get_task_keeps [OF assms] by (simp add: publish_task_recorded)
  qed
  then show "plane_inv (xe_uuid5 env) (snd (publish_task env no_handlers sv q))" "plane_grows sv (snd (publish_task env no_handlers sv q))"
    by blast+
qed

lemma read_outcome_keeps:
  assumes "plane_inv uuid5 sv"
  shows "plane_inv uuid5 (snd (result_for sv i)) \<and> plane_grows sv (snd (result_for sv i))"
    "plane_inv uuid5 (snd (error_for sv i)) \<and> plane_grows sv (snd (error_for sv i))"
proof -
  have ex: "plane_inv uuid5 sv1 \<and> plane_grows sv sv1" if "execution_for_task sv s k = (res, sv1)" for s k res sv1
    using execution_for_task_keeps [OF assms, of s k] that by simp
  show "plane_inv uuid5 (snd (result_for sv i)) \<and> plane_grows sv (snd (result_for sv i))"
    using assms
    by (auto simp: result_for_def split: option.split prod.split sum.split dest!: ex intro: records_keep plane_grows_trans)
  show "plane_inv uuid5 (snd (error_for sv i)) \<and> plane_grows sv (snd (error_for sv i))"
    using assms
    by (auto simp: error_for_def split: option.split prod.split sum.split dest!: ex intro: records_keep plane_grows_trans)
qed

lemma service_run_keeps:
  assumes "plane_inv (xe_uuid5 env) sv"
  shows "plane_inv (xe_uuid5 env) (service_run env c sv) \<and> plane_grows sv (service_run env c sv)"
  using publish_task_keeps [OF assms] get_task_keeps [OF assms] cancel_task_keeps [OF assms] retry_execution_keeps [OF assms]
    read_outcome_keeps [OF assms] records_keep [OF assms]
  by (cases c) simp_all

lemma plane_step_keeps: "\<lbrakk>plane_step hash uuid5 sv sv'; plane_inv uuid5 sv\<rbrakk> \<Longrightarrow> plane_inv uuid5 sv' \<and> plane_grows sv sv'"
  by (induction rule: plane_step.induct) (use service_run_keeps exec_bus_keeps in blast)+

lemma plane_steps_keep:
  "\<lbrakk>(plane_step hash uuid5)\<^sup>*\<^sup>* sv sv'; plane_inv uuid5 sv\<rbrakk> \<Longrightarrow> plane_inv uuid5 sv' \<and> plane_grows sv sv'"
  by (induction rule: rtranclp_induct) (auto dest: plane_step_keeps intro: plane_grows_trans)

lemma plane_reachable_inv: "plane_reachable hash uuid5 sv \<Longrightarrow> plane_inv uuid5 sv"
proof (induction rule: plane_reachable.induct)
  case (plane_start sv)
  have "bus_inv (xs_bus sv)" using plane_start(2) by (rule reachable_inv)
  then show ?case
    by (simp add: plane_inv_def executions_backed_def records_backed_def plane_start(1) empty_plane_def get_execution_def
        get_idempotency_def)
qed (use plane_step_keeps in blast)

section \<open>A request whose writes were lost\<close>

lemma task_for_request_clock:
  "TaskDomain_valid (task_for_request q s i now) \<longleftrightarrow> TaskDomain_valid (task_for_request q s i now')"
  by (simp add: TaskDomain_valid_iff TaskDomain_fields_ok_def task_for_request_def)

lemma task_for_request_ids [simp]:
  "td_session_id (task_for_request q s i now) = s" "td_task_id (task_for_request q s i now) = i"
  "td_status (task_for_request q s i now) = Pending"
  by (simp_all add: task_for_request_def)

lemma new_execution_clock:
  "TaskExecution_validate (new_execution q x i s e now) = Inr (new_execution q x i s e now) \<longleftrightarrow>
   TaskExecution_validate (new_execution q x i s e now') = Inr (new_execution q x i s e now')"
  by (simp add: TaskExecution_validate_def new_execution_def)

lemma publish_on_bus_again:
  assumes "get b (td_session_id t) (td_task_id t) \<noteq> None" "td_status t = Pending"
  shows "publish_on_bus b t = (Inr (), b)"
  using assms by (simp add: publish_on_bus_def publish_def load_def Let_def)

text \<open>What an accepted request went through, and that it goes through again when its task is on the bus.\<close>

lemma accept_on_env_Inr:
  assumes "accept_on_env env sv q env_id = (Inr x, sv')"
    and "session_id = session_id_for_request q (xs_default_session_id sv)" "task_id = task_id_for_request (xe_uuid5 env) q"
  shows "TaskDomain_valid (task_for_request q session_id task_id (xe_clock env 1))"
    "get (xs_bus sv') session_id task_id \<noteq> None"
    "x = new_execution q (execution_id_for_task_id task_id) task_id session_id env_id (xe_clock env 0)"
    "TaskExecution_validate x = Inr x"
proof -
  let ?task = "task_for_request q session_id task_id (xe_clock env 1)"
  let ?x = "new_execution q (execution_id_for_task_id task_id) task_id session_id env_id (xe_clock env 0)"
  note unf = assms(1) [unfolded accept_on_env_def Let_def, folded assms(2,3)]
  show valid: "TaskDomain_valid ?task" using unf by (auto simp: TaskDomain_valid_def split: sum.splits)
  note unf = unf [unfolded TaskDomain_validate_valid [OF valid] sum.case]
  obtain b where pub: "publish_on_bus (xs_bus sv) ?task = (Inr (), b)" using unf by (auto split: prod.splits sum.splits)
  obtain y where y: "TaskExecution_validate ?x = Inr y" and rec: "record_execution env (sv\<lparr>xs_bus := b\<rparr>) q y env_id (xe_clock env 0) = (Inr x, sv')"
    using unf [unfolded pub prod.case sum.case] by (auto split: sum.splits)
  have "y = ?x" using y by (simp add: TaskExecution_validate_def split: if_splits)
  moreover have "xs_bus sv' = b" "x = y" using rec by (auto simp: record_execution_def split: prod.splits sum.splits)
  ultimately show "get (xs_bus sv') session_id task_id \<noteq> None" "x = ?x" "TaskExecution_validate x = Inr x"
    using publish_on_bus_Inr(2) [OF pub] y by simp_all
qed

lemma accept_on_env_again:
  assumes "session_id = session_id_for_request q (xs_default_session_id sv)" "task_id = task_id_for_request (xe_uuid5 env) q"
    and "TaskDomain_valid (task_for_request q session_id task_id now)" "get (xs_bus sv) session_id task_id \<noteq> None"
    and "TaskExecution_validate (new_execution q (execution_id_for_task_id task_id) task_id session_id env_id earlier)
      = Inr (new_execution q (execution_id_for_task_id task_id) task_id session_id env_id earlier)"
    and "get_idempotency (xs_store sv) (scoped_idempotency_key q) = None"
  shows "\<exists>sv'. accept_on_env env sv q env_id =
      (Inr (new_execution q (execution_id_for_task_id task_id) task_id session_id env_id (xe_clock env 0)), sv')
    \<and> xs_bus sv' = xs_bus sv"
proof -
  let ?task = "task_for_request q session_id task_id (xe_clock env 1)"
  let ?x = "new_execution q (execution_id_for_task_id task_id) task_id session_id env_id (xe_clock env 0)"
  have valid: "TaskDomain_valid ?task" using assms(3) task_for_request_clock by blast
  have "publish_on_bus (xs_bus sv) ?task = (Inr (), xs_bus sv)" using assms(4) by (intro publish_on_bus_again) simp_all
  moreover have "TaskExecution_validate ?x = Inr ?x" using assms(5) new_execution_clock by blast
  ultimately have "accept_on_env env sv q env_id = record_execution env sv q ?x env_id (xe_clock env 0)"
    using valid by (simp add: accept_on_env_def Let_def TaskDomain_validate_valid flip: assms(1,2))
  moreover have "\<exists>sv'. record_execution env sv q ?x env_id (xe_clock env 0) = (Inr ?x, sv') \<and> xs_bus sv' = xs_bus sv"
    using assms(6) by (simp add: record_execution_def put_idempotency_def get_idempotency_def put_execution_def)
  ultimately show ?thesis by simp
qed

lemma publish_accepted:
  assumes "plane_inv (xe_uuid5 env) sv" "publish_task env no_handlers sv q = (Inr x, sv')"
  shows "accepted env q x sv' \<and> plane_inv (xe_uuid5 env) sv'"
proof (cases "get_idempotency (xs_store sv) (scoped_idempotency_key q)")
  case None
  then show ?thesis using accept_request_keeps [OF assms(1) None, of "Inr x" sv'] assms(2) by (simp add: publish_task_fresh)
next
  case (Some r)
  then have hash: "ti_request_hash r = xe_hash env q" and out: "get_task sv (ti_execution_id r) = (Inr x, sv')"
    using assms(2) by (auto simp: publish_task_recorded split: if_splits)
  have id: "ti_execution_id r = execution_id_for_task_id (task_id_for_request (xe_uuid5 env) q)"
    using assms(1) Some by (auto simp: plane_inv_def records_backed_def task_id_for_request_key)
  obtain z where z: "get_execution (xs_store sv) (ti_execution_id r) = Some z"
    using out by (auto simp: get_task_def require_execution_def split: option.splits)
  from assms(1) z obtain t where x: "x = execution_from_task z t" "tn_execution_id z = ti_execution_id r"
      "ti_execution_id r = execution_id_for_task_id (tn_task_id z)"
    by (rule get_task_backed) (use out in auto)
  have "plane_inv (xe_uuid5 env) sv'" "plane_grows sv sv'" using get_task_keeps [OF assms(1), of "ti_execution_id r"] out by simp_all
  then show ?thesis using Some hash id x by (auto simp: accepted_def plane_grows_def execution_id_for_task_id_def)
qed

section \<open>Properties\<close>

text \<open>A service over an empty bus with the default environment, one clock, a hash and identifiers.\<close>

definition sample_exec_env :: exec_env where
  "sample_exec_env = \<lparr>xe_hash = tq_intent, xe_uuid5 = (\<lambda>s. drop 31 s), xe_clock = sample_time, xe_event_id = ''e'', xe_fresh = ''u''\<rparr>"

definition sample_service :: exec_service where
  "sample_service = \<lparr>xs_bus = empty_bus, xs_store = empty_plane,
     xs_envs = [(''local-default'', default_local_execution_env [''code''] [])], xs_summaries = None,
     xs_default_session_id = ''execution-plane''\<rparr>"

lemma sample_service_reachable: "plane_reachable hash uuid5 sample_service"
  by (rule plane_start) (simp_all add: sample_service_def reach_empty)

definition sample_accepted :: exec_service where
  "sample_accepted = snd (publish_task sample_exec_env no_handlers sample_service (sample_request ''a'' ''k'' ''go''))"

definition sample_execution :: TaskExecution where
  "sample_execution = projr (fst (publish_task sample_exec_env no_handlers sample_service (sample_request ''a'' ''k'' ''go'')))"

lemma sample_published:
  "publish_task sample_exec_env no_handlers sample_service (sample_request ''a'' ''k'' ''go'') = (Inr sample_execution, sample_accepted)"
  unfolding sample_execution_def sample_accepted_def by code_simp

lemma sample_accepted_reachable: "plane_reachable tq_intent (drop 31) sample_accepted"
proof -
  have "plane_step tq_intent (drop 31) sample_service (service_run sample_exec_env (Publish_request (sample_request ''a'' ''k'' ''go'')) sample_service)"
    by (rule api_step) (simp_all add: sample_exec_env_def)
  then show ?thesis using plane_next [OF sample_service_reachable] by (simp add: sample_accepted_def)
qed

text \<open>The same service after a worker has claimed the task.\<close>

definition sample_claimed :: exec_service where
  "sample_claimed = sample_accepted\<lparr>xs_bus :=
     snd (projr (exec sample_time ''u'' (Claim_next ''external:a'' ''code'' ''worker'') (xs_bus sample_accepted)))\<rparr>"

lemma sample_claimed_step: "plane_step tq_intent (drop 31) sample_accepted sample_claimed"
proof -
  have "exec sample_time ''u'' (Claim_next ''external:a'' ''code'' ''worker'') (xs_bus sample_accepted) =
      Inr (projr (exec sample_time ''u'' (Claim_next ''external:a'' ''code'' ''worker'') (xs_bus sample_accepted)))" by code_simp
  then show ?thesis unfolding sample_claimed_def by (intro bus_step) (metis bus_call_def prod.collapse)
qed

lemma sample_claimed_steps: "(plane_step tq_intent (drop 31))\<^sup>*\<^sup>* sample_accepted sample_claimed"
  using sample_claimed_step by (rule r_into_rtranclp)

text \<open>C12. Publishing is idempotent: once a request was accepted, then after any further API calls and any work of the bus the same
  request is answered again by the execution it got the first time, with the same task; nothing is published on the bus, no event
  is written, and the answer carries the status the task has by then.\<close>

theorem publish_is_idempotent:
  assumes "plane_reachable hash uuid5 sv" "xe_hash env = hash" "xe_uuid5 env = uuid5"
    and "publish_task env no_handlers sv q = (Inr x, sv1)" "(plane_step hash uuid5)\<^sup>*\<^sup>* sv1 sv2"
    and "xe_hash env' = hash" "xe_uuid5 env' = uuid5"
  shows "\<exists>y sv3 t. publish_task env' no_handlers sv2 q = (Inr y, sv3)
     \<and> tn_execution_id y = tn_execution_id x \<and> tn_task_id y = tn_task_id x
     \<and> xs_bus sv3 = xs_bus sv2 \<and> ps_events (xs_store sv3) = ps_events (xs_store sv2)
     \<and> get (xs_bus sv2) (tn_session_id y) (tn_task_id y) = Some t \<and> tn_status y = status_from_task (td_status t)"
proof -
  have "accepted env q x sv1" "plane_inv uuid5 sv1"
    using publish_accepted [of env sv q x sv1] assms plane_reachable_inv by auto
  then obtain r where r: "get_idempotency (xs_store sv2) (scoped_idempotency_key q) = Some r" "ti_request_hash r = hash q"
      and inv: "plane_inv uuid5 sv2"
    using plane_steps_keep [OF assms(5)] assms(2) by (auto simp: accepted_def plane_grows_def)
  then obtain z where z: "get_execution (xs_store sv2) (ti_execution_id r) = Some z"
    and id: "ti_execution_id r = execution_id_for_task_id (task_id_for_request uuid5 q)"
    by (auto simp: plane_inv_def records_backed_def task_id_for_request_key)
  have ids: "tn_execution_id x = ti_execution_id r" "tn_task_id x = task_id_for_request uuid5 q"
    using \<open>accepted env q x sv1\<close> id assms(3) by (simp_all add: accepted_def)
  have pub: "publish_task env' no_handlers sv2 q = get_task sv2 (ti_execution_id r)"
    using r assms(6) by (simp add: publish_task_recorded)
  from inv z show ?thesis
  proof (rule get_task_backed)
    fix t assume t: "get (xs_bus sv2) (tn_session_id z) (tn_task_id z) = Some t" "tn_execution_id z = ti_execution_id r"
      "ti_execution_id r = execution_id_for_task_id (tn_task_id z)"
      and out: "get_task sv2 (ti_execution_id r) = (Inr (execution_from_task z t), if execution_from_task z t \<noteq> z
        then sv2\<lparr>xs_store := put_execution (xs_store sv2) (execution_from_task z t)\<rparr> else sv2)"
    have "tn_task_id z = tn_task_id x" using t(3) id ids by (simp add: execution_id_for_task_id_def)
    moreover have "tn_status (execution_from_task z t) = status_from_task (td_status t)" by (simp add: execution_from_task_def)
    ultimately show ?thesis using t(1,2) ids(1) unfolding pub out by (simp add: put_execution_def)
  qed
qed

theorem publish_is_idempotent_witness:
  "\<exists>y sv3 t. publish_task sample_exec_env no_handlers sample_claimed (sample_request ''a'' ''k'' ''go'') = (Inr y, sv3)
     \<and> tn_execution_id y = tn_execution_id sample_execution \<and> tn_task_id y = tn_task_id sample_execution
     \<and> xs_bus sv3 = xs_bus sample_claimed \<and> ps_events (xs_store sv3) = ps_events (xs_store sample_claimed)
     \<and> get (xs_bus sample_claimed) (tn_session_id y) (tn_task_id y) = Some t \<and> tn_status y = status_from_task (td_status t)"
  by (rule publish_is_idempotent [OF sample_service_reachable _ _ sample_published sample_claimed_steps])
    (simp_all add: sample_exec_env_def)

text \<open>C15. A key is bound to its first request: once a request was accepted, any request with the same scoped key and another hash is
  refused with a conflict (HTTP 409) that names both hashes, whatever happened in between, and the refusal changes nothing.\<close>

theorem reused_key_conflicts:
  assumes "plane_reachable hash uuid5 sv" "xe_hash env = hash" "xe_uuid5 env = uuid5"
    and "publish_task env no_handlers sv q = (Inr x, sv1)" "(plane_step hash uuid5)\<^sup>*\<^sup>* sv1 sv2"
    and "xe_hash env' = hash" "scoped_idempotency_key q' = scoped_idempotency_key q" "hash q' \<noteq> hash q"
  shows "publish_task env' no_handlers sv2 q' = (Inl (idempotency_conflict (hash q) (hash q')), sv2)"
proof -
  have "accepted env q x sv1" "plane_inv uuid5 sv1"
    using publish_accepted [of env sv q x sv1] assms plane_reachable_inv by auto
  then obtain r where "get_idempotency (xs_store sv2) (scoped_idempotency_key q') = Some r" "ti_request_hash r = hash q"
    using plane_steps_keep [OF assms(5)] assms(2,7) by (auto simp: accepted_def plane_grows_def)
  then show ?thesis using assms(6,8) by (simp add: publish_task_recorded)
qed

text \<open>
  The scoped key joins requester and key with a colon, so requester \<open>a\<close> with key \<open>b:k\<close> and requester \<open>a:b\<close> with key
  \<open>k\<close> share one: the second of the two is refused for a key it never used.
\<close>

lemma sample_colliding_published:
  "publish_task sample_exec_env no_handlers sample_service (sample_request ''a'' ''b:k'' ''go'') =
    (Inr (projr (fst (publish_task sample_exec_env no_handlers sample_service (sample_request ''a'' ''b:k'' ''go'')))),
     snd (publish_task sample_exec_env no_handlers sample_service (sample_request ''a'' ''b:k'' ''go'')))"
  by code_simp

theorem reused_key_conflicts_witness:
  "qr_id (tq_requester (sample_request ''a:b'' ''k'' ''other'')) \<noteq> qr_id (tq_requester (sample_request ''a'' ''b:k'' ''go''))
   \<and> fst (publish_task sample_exec_env no_handlers
        (snd (publish_task sample_exec_env no_handlers sample_service (sample_request ''a'' ''b:k'' ''go'')))
        (sample_request ''a:b'' ''k'' ''other'')) = Inl (idempotency_conflict ''go'' ''other'')"
  using reused_key_conflicts [OF sample_service_reachable [of tq_intent "drop 31"] _ _ sample_colliding_published rtranclp.rtrancl_refl,
      of sample_exec_env "sample_request ''a:b'' ''k'' ''other''"]
  by (simp add: sample_exec_env_def sample_request_def scoped_idempotency_key_def scoped_id_def)

text \<open>C13. Every stored execution can be read and follows its task: in every state the API reaches, the task of an execution is on
  the bus, reading the execution succeeds and returns it with the task's status, times and references, the answer is what the
  store then holds, and reading it again changes nothing.\<close>

theorem execution_follows_its_task:
  assumes "plane_reachable hash uuid5 sv" "get_execution (xs_store sv) i = Some x"
  shows "\<exists>t sv'. get (xs_bus sv) (tn_session_id x) (tn_task_id x) = Some t
     \<and> get_task sv i = (Inr (execution_from_task x t), sv')
     \<and> get_execution (xs_store sv') i = Some (execution_from_task x t) \<and> xs_bus sv' = xs_bus sv
     \<and> get_task sv' i = (Inr (execution_from_task x t), sv')"
  using plane_reachable_inv [OF assms(1)] assms(2)
proof (rule get_task_backed)
  fix t assume t: "get (xs_bus sv) (tn_session_id x) (tn_task_id x) = Some t" "tn_execution_id x = i"
    and out: "get_task sv i = (Inr (execution_from_task x t), if execution_from_task x t \<noteq> x
        then sv\<lparr>xs_store := put_execution (xs_store sv) (execution_from_task x t)\<rparr> else sv)"
  let ?sv = "if execution_from_task x t \<noteq> x then sv\<lparr>xs_store := put_execution (xs_store sv) (execution_from_task x t)\<rparr> else sv"
  have stored: "get_execution (xs_store ?sv) i = Some (execution_from_task x t)" "xs_bus ?sv = xs_bus sv"
    using t(2) assms(2) by (auto simp: get_execution_def put_execution_def)
  then have "get_task ?sv i = (Inr (execution_from_task x t), ?sv)"
    using t(1) by (simp add: get_task_def require_execution_def Let_def del: if_split)
  with t(1) out stored show ?thesis by blast
qed

theorem execution_follows_its_task_witness:
  "\<exists>t sv'. get (xs_bus sample_claimed) (tn_session_id sample_execution) (tn_task_id sample_execution) = Some t
     \<and> get_task sample_claimed ''exec_external_app:a:k'' = (Inr (execution_from_task sample_execution t), sv')
     \<and> get_execution (xs_store sv') ''exec_external_app:a:k'' = Some (execution_from_task sample_execution t)
     \<and> xs_bus sv' = xs_bus sample_claimed
     \<and> get_task sv' ''exec_external_app:a:k'' = (Inr (execution_from_task sample_execution t), sv')"
proof -
  have "get_execution (xs_store sample_claimed) ''exec_external_app:a:k'' = Some sample_execution" by code_simp
  from execution_follows_its_task [OF plane_next [OF sample_accepted_reachable sample_claimed_step] this] show ?thesis by blast
qed

text \<open>C14. A crash between the bus and the store is healed by the retry: if the task of an accepted request is on the bus but the
  writes to the store were lost (none of them made, or only the execution), publishing the request again succeeds with the same
  execution and task and publishes nothing.\<close>

theorem interrupted_publish_resumes:
  assumes "plane_reachable hash uuid5 sv" "xe_uuid5 env = uuid5" "xe_uuid5 env' = uuid5"
    and "get_idempotency (xs_store sv) (scoped_idempotency_key q) = None"
    and "publish_task env no_handlers sv q = (Inr x, sv1)" "st = xs_store sv \<or> st = put_execution (xs_store sv) x"
  shows "\<exists>y sv2. publish_task env' no_handlers (sv\<lparr>xs_bus := xs_bus sv1, xs_store := st\<rparr>) q = (Inr y, sv2)
     \<and> tn_execution_id y = tn_execution_id x \<and> tn_task_id y = tn_task_id x \<and> tn_session_id y = tn_session_id x
     \<and> xs_bus sv2 = xs_bus sv1"
proof -
  let ?s = "session_id_for_request q (xs_default_session_id sv)" and ?i = "task_id_for_request uuid5 q"
  let ?sv = "sv\<lparr>xs_bus := xs_bus sv1, xs_store := st\<rparr>"
  obtain e where e: "find_compatible (xs_envs sv) (tq_policy q) = Some e" and acc: "accept_on_env env sv q (ee_env_id e) = (Inr x, sv1)"
    using assms(5) by (auto simp: publish_task_fresh [OF assms(4)] accept_request_def split: option.splits)
  note first = accept_on_env_Inr [OF acc refl refl, unfolded assms(2)]
  have none: "get_idempotency (xs_store ?sv) (scoped_idempotency_key q) = None"
    using assms(4,6) by (auto simp: get_idempotency_def put_execution_def)
  have "\<exists>sv'. accept_on_env env' ?sv q (ee_env_id e) =
      (Inr (new_execution q (execution_id_for_task_id ?i) ?i ?s (ee_env_id e) (xe_clock env' 0)), sv') \<and> xs_bus sv' = xs_bus ?sv"
    using first none assms(3) by (intro accept_on_env_again [OF _ _ first(1)]) simp_all
  moreover have "publish_task env' no_handlers ?sv q = accept_on_env env' ?sv q (ee_env_id e)"
    using e by (simp add: publish_task_fresh [OF none] accept_request_def)
  ultimately show ?thesis using first(3) by (auto simp: new_execution_def)
qed

theorem interrupted_publish_resumes_witness:
  "\<exists>y sv2. publish_task sample_exec_env no_handlers
        (sample_service\<lparr>xs_bus := xs_bus sample_accepted, xs_store := empty_plane\<rparr>) (sample_request ''a'' ''k'' ''go'') = (Inr y, sv2)
     \<and> tn_execution_id y = tn_execution_id sample_execution \<and> tn_task_id y = tn_task_id sample_execution
     \<and> tn_session_id y = tn_session_id sample_execution \<and> xs_bus sv2 = xs_bus sample_accepted"
  by (rule interrupted_publish_resumes [OF sample_service_reachable _ _ _ sample_published])
    (simp_all add: sample_service_def empty_plane_def get_idempotency_def)

end
