(* ===== verification/Config_Models.thy ===== *)
theory Config_Models
  imports Payload Datetime
begin

text \<open>
  The data of the runtime configuration (\<open>runtime_config/models.py\<close>), the registry of its keys (\<open>registry.py\<close>) and the
  keys the product ships with (\<open>defaults.py\<close>).  A registry is the dictionary the class keeps, so registering a key twice is the
  error the class raises.
\<close>

section \<open>Literal types\<close>

datatype RuntimeConfigScopeLevel =
    Level_global | Level_workspace | Level_session | Level_task | Level_agent_run | Level_process

datatype RuntimeConfigSourceKind =
    Kind_built_in_default | Kind_environment | Kind_cli | Kind_settings_store | Kind_workspace_file | Kind_session_override
  | Kind_task_override | Kind_runtime_patch | Kind_process_input

datatype RuntimeConfigMutability =
    Mut_live | Mut_next_context_build | Mut_next_llm_call | Mut_next_action | Mut_next_agent_run | Mut_next_task
  | Mut_next_session | Mut_startup_only | Mut_migration_only

datatype RuntimeConfigEffectiveStatus =
    Effective_active | Pending_next_context_build | Pending_next_llm_call | Pending_next_action | Pending_next_agent_run
  | Pending_next_task | Pending_next_session | Pending_restart

datatype RuntimeConfigValueType =
    Type_bool | Type_int | Type_float | Type_string | Type_string_list | Type_object

datatype RuntimeConfigActorType = Actor_user | Actor_system | Actor_test | Actor_migration

datatype RuntimeConfigChangeStatus = Change_accepted | Change_rejected | Change_no_op

datatype RuntimeConfigRejectionCode =
    Reject_unknown_key | Reject_unsupported_scope | Reject_invalid_value | Reject_secret_not_patchable
  | Reject_startup_only_not_patchable | Reject_stale_base_config | Reject_higher_priority_source_active | Reject_policy_denied

fun level_str :: "RuntimeConfigScopeLevel \<Rightarrow> string" where
  "level_str Level_global = ''global''"
| "level_str Level_workspace = ''workspace''"
| "level_str Level_session = ''session''"
| "level_str Level_task = ''task''"
| "level_str Level_agent_run = ''agent_run''"
| "level_str Level_process = ''process''"

fun kind_str :: "RuntimeConfigSourceKind \<Rightarrow> string" where
  "kind_str Kind_built_in_default = ''built_in_default''"
| "kind_str Kind_environment = ''environment''"
| "kind_str Kind_cli = ''cli''"
| "kind_str Kind_settings_store = ''settings_store''"
| "kind_str Kind_workspace_file = ''workspace_file''"
| "kind_str Kind_session_override = ''session_override''"
| "kind_str Kind_task_override = ''task_override''"
| "kind_str Kind_runtime_patch = ''runtime_patch''"
| "kind_str Kind_process_input = ''process_input''"

fun mutability_str :: "RuntimeConfigMutability \<Rightarrow> string" where
  "mutability_str Mut_live = ''live''"
| "mutability_str Mut_next_context_build = ''next_context_build''"
| "mutability_str Mut_next_llm_call = ''next_llm_call''"
| "mutability_str Mut_next_action = ''next_action''"
| "mutability_str Mut_next_agent_run = ''next_agent_run''"
| "mutability_str Mut_next_task = ''next_task''"
| "mutability_str Mut_next_session = ''next_session''"
| "mutability_str Mut_startup_only = ''startup_only''"
| "mutability_str Mut_migration_only = ''migration_only''"

fun effective_str :: "RuntimeConfigEffectiveStatus \<Rightarrow> string" where
  "effective_str Effective_active = ''active''"
| "effective_str Pending_next_context_build = ''pending_next_context_build''"
| "effective_str Pending_next_llm_call = ''pending_next_llm_call''"
| "effective_str Pending_next_action = ''pending_next_action''"
| "effective_str Pending_next_agent_run = ''pending_next_agent_run''"
| "effective_str Pending_next_task = ''pending_next_task''"
| "effective_str Pending_next_session = ''pending_next_session''"
| "effective_str Pending_restart = ''pending_restart''"

section \<open>Errors\<close>

text \<open>The exception classes of the package; \<open>ConfigRaised\<close> is any other exception.\<close>

datatype config_error =
    RuntimeConfigResolverError msg
  | RuntimeConfigRegistryError msg
  | RuntimeConfigBusError msg
  | RuntimeConfigChangeStoreError msg
  | ConfigRaised py_error

type_synonym 'a config_result = "config_error + 'a"

definition bind_config :: "'a config_result \<Rightarrow> ('a \<Rightarrow> 'b config_result) \<Rightarrow> 'b config_result" where
  "bind_config r f = (case r of Inl e \<Rightarrow> Inl e | Inr x \<Rightarrow> f x)"

lemma bind_config_simps [simp]: "bind_config (Inr x) f = f x" "bind_config (Inl e) f = Inl e"
  by (simp_all add: bind_config_def)

lemma bind_config_InrE: assumes "bind_config r f = Inr y" obtains x where "r = Inr x" "f x = Inr y"
  using assms by (cases r) auto

section \<open>Scopes, keys and layers\<close>

record RuntimeConfigScope =
  sc_level :: RuntimeConfigScopeLevel
  sc_workspace_id :: "string option"
  sc_session_id :: "string option"
  sc_task_id :: "string option"
  sc_agent_run_id :: "string option"

text \<open>\<open>RuntimeConfigScope(level=...)\<close>, and \<open>_validate_scope_identifiers\<close>.\<close>

definition level_scope :: "RuntimeConfigScopeLevel \<Rightarrow> RuntimeConfigScope" where
  "level_scope l = \<lparr>sc_level = l, sc_workspace_id = None, sc_session_id = None, sc_task_id = None, sc_agent_run_id = None\<rparr>"

fun required_ids :: "RuntimeConfigScopeLevel \<Rightarrow> (RuntimeConfigScope \<Rightarrow> string option) list" where
  "required_ids Level_global = []"
| "required_ids Level_process = []"
| "required_ids Level_workspace = [sc_workspace_id]"
| "required_ids Level_session = [sc_workspace_id, sc_session_id]"
| "required_ids Level_task = [sc_workspace_id, sc_session_id, sc_task_id]"
| "required_ids Level_agent_run = [sc_workspace_id, sc_session_id, sc_task_id, sc_agent_run_id]"

definition scope_ids_ok :: "RuntimeConfigScope \<Rightarrow> bool" where
  "scope_ids_ok s \<longleftrightarrow> list_all (\<lambda>f. f s \<noteq> None) (required_ids (sc_level s))"

record RuntimeConfigKey =
  ck_key :: string
  ck_domain :: string
  ck_value_type :: RuntimeConfigValueType
  ck_default_value :: json
  ck_scope_levels :: "RuntimeConfigScopeLevel list"
  ck_mutability :: RuntimeConfigMutability
  ck_description :: string
  ck_source_hints :: "RuntimeConfigSourceKind list"
  ck_user_visible :: bool
  ck_secret :: bool
  ck_restart_required :: bool

text \<open>The field constraints with \<open>_domain_matches_key\<close> and \<open>_not_empty\<close>.\<close>

definition RuntimeConfigKey_ok :: "RuntimeConfigKey \<Rightarrow> bool" where
  "RuntimeConfigKey_ok k \<longleftrightarrow> ck_key k \<noteq> [] \<and> ck_domain k \<noteq> [] \<and> ck_description k \<noteq> []
     \<and> (CHR ''.'' \<in> set (ck_key k) \<longrightarrow> takeWhile (\<lambda>c. c \<noteq> CHR ''.'') (ck_key k) = ck_domain k)
     \<and> ck_scope_levels k \<noteq> [] \<and> ck_source_hints k \<noteq> []"

record RuntimeConfigSource =
  so_source_id :: string
  so_kind :: RuntimeConfigSourceKind
  so_scope :: RuntimeConfigScope
  so_priority :: int

record RuntimeConfigLayer =
  la_source :: RuntimeConfigSource
  la_values :: payload

record EffectiveRuntimeConfigValue =
  ev_key :: string
  ev_value :: json
  ev_source :: RuntimeConfigSource
  ev_mutability :: RuntimeConfigMutability
  ev_effective_status :: RuntimeConfigEffectiveStatus
  ev_redacted :: bool

record EffectiveRuntimeConfig =
  ec_config_id :: string
  ec_scope :: RuntimeConfigScope
  ec_created_at :: datetime
  ec_schema_version :: string
  ec_values :: "(string, EffectiveRuntimeConfigValue) dict"
  ec_source_layers :: "RuntimeConfigSource list"
  ec_config_hash :: string

section \<open>Patches, changes and snapshots\<close>

record RuntimeConfigActor =
  ac_actor_type :: RuntimeConfigActorType
  ac_actor_id :: "string option"
  ac_display_name :: "string option"

record RuntimeConfigPatch =
  cp_patch_id :: string
  cp_idempotency_key :: "string option"
  cp_scope :: RuntimeConfigScope
  cp_actor :: RuntimeConfigActor
  cp_reason :: "string option"
  cp_values :: payload
  cp_expected_base_config_hash :: "string option"
  cp_dry_run :: bool
  cp_allow_partial_acceptance :: bool
  cp_requested_at :: datetime

definition RuntimeConfigActor_ok :: "RuntimeConfigActor \<Rightarrow> bool" where
  "RuntimeConfigActor_ok a \<longleftrightarrow> opt_nonempty (ac_actor_id a) \<and> opt_nonempty (ac_display_name a)"

text \<open>The field constraints with \<open>_scope_has_required_ids\<close>.\<close>

definition RuntimeConfigPatch_ok :: "RuntimeConfigPatch \<Rightarrow> bool" where
  "RuntimeConfigPatch_ok p \<longleftrightarrow> cp_patch_id p \<noteq> [] \<and> opt_nonempty (cp_idempotency_key p) \<and> opt_nonempty (cp_reason p)
     \<and> cp_values p \<noteq> [] \<and> dict_ok (cp_values p) \<and> opt_nonempty (cp_expected_base_config_hash p)
     \<and> RuntimeConfigActor_ok (cp_actor p) \<and> scope_ids_ok (cp_scope p)"

record RuntimeConfigRejection =
  rj_code :: RuntimeConfigRejectionCode
  rj_message :: msg
  rj_details :: payload

record RuntimeConfigChange =
  ch_change_id :: string
  ch_patch_id :: string
  ch_idempotency_key :: "string option"
  ch_scope :: RuntimeConfigScope
  ch_actor :: RuntimeConfigActor
  ch_reason :: "string option"
  ch_status :: RuntimeConfigChangeStatus
  ch_requested_values :: payload
  ch_accepted_values :: payload
  ch_rejected_values :: "(string, RuntimeConfigRejection) dict"
  ch_redacted_keys :: "string list"
  ch_base_config_hash :: string
  ch_resulting_config_hash :: "string option"
  ch_effective_status_by_key :: "(string, RuntimeConfigEffectiveStatus) dict"
  ch_created_at :: datetime

abbreviation dict_keys :: "(string, 'v) dict \<Rightarrow> string list" where
  "dict_keys d \<equiv> map fst d"

text \<open>\<open>_change_is_consistent\<close> after the field constraints.\<close>

definition change_status_ok :: "RuntimeConfigChange \<Rightarrow> bool" where
  "change_status_ok c \<longleftrightarrow> (case ch_status c of
       Change_rejected \<Rightarrow> ch_accepted_values c = [] \<and> ch_resulting_config_hash c = None
     | Change_accepted \<Rightarrow> ch_accepted_values c \<noteq> [] \<and> ch_resulting_config_hash c \<noteq> None
     | Change_no_op \<Rightarrow> ch_accepted_values c = [] \<and> ch_rejected_values c = []
         \<and> ch_resulting_config_hash c = Some (ch_base_config_hash c))"

definition RuntimeConfigChange_ok :: "RuntimeConfigChange \<Rightarrow> bool" where
  "RuntimeConfigChange_ok c \<longleftrightarrow> ch_change_id c \<noteq> [] \<and> ch_patch_id c \<noteq> [] \<and> opt_nonempty (ch_idempotency_key c)
     \<and> opt_nonempty (ch_reason c) \<and> ch_base_config_hash c \<noteq> [] \<and> opt_nonempty (ch_resulting_config_hash c)
     \<and> RuntimeConfigActor_ok (ch_actor c) \<and> scope_ids_ok (ch_scope c)
     \<and> list_all (\<lambda>k. k \<notin> set (dict_keys (ch_rejected_values c))) (dict_keys (ch_accepted_values c))
     \<and> list_all (\<lambda>k. k \<in> set (dict_keys (ch_requested_values c))) (ch_redacted_keys c)
     \<and> change_status_ok c
     \<and> list_all (\<lambda>k. k \<in> set (dict_keys (ch_effective_status_by_key c))) (dict_keys (ch_accepted_values c))"

definition RuntimeConfigChange_validate :: "RuntimeConfigChange \<Rightarrow> RuntimeConfigChange config_result" where
  "RuntimeConfigChange_validate c =
     (if RuntimeConfigChange_ok c then Inr c else Inl (ConfigRaised (ValidationError (Msg ''RuntimeConfigChange'' []))))"

record RuntimeConfigSnapshotRecord =
  sn_snapshot_id :: string
  sn_config_hash :: string
  sn_scope :: RuntimeConfigScope
  sn_effective_config :: EffectiveRuntimeConfig
  sn_created_by_change_id :: "string option"
  sn_created_at :: datetime

text \<open>The field constraints with \<open>_snapshot_matches_effective_config\<close>.\<close>

definition RuntimeConfigSnapshotRecord_validate :: "RuntimeConfigSnapshotRecord \<Rightarrow> RuntimeConfigSnapshotRecord config_result" where
  "RuntimeConfigSnapshotRecord_validate s =
     (if sn_snapshot_id s = [] \<or> sn_config_hash s = [] \<or> \<not> opt_nonempty (sn_created_by_change_id s)
         \<or> \<not> scope_ids_ok (sn_scope s) \<or> sn_config_hash s \<noteq> ec_config_hash (sn_effective_config s)
         \<or> sn_scope s \<noteq> ec_scope (sn_effective_config s)
      then Inl (ConfigRaised (ValidationError (Msg ''RuntimeConfigSnapshotRecord'' []))) else Inr s)"

section \<open>The registry\<close>

type_synonym RuntimeConfigRegistry = "(string, RuntimeConfigKey) dict"

definition registry_register :: "RuntimeConfigRegistry \<Rightarrow> RuntimeConfigKey \<Rightarrow> RuntimeConfigRegistry config_result" where
  "registry_register reg k =
     (if dict_get reg (ck_key k) \<noteq> None
      then Inl (RuntimeConfigRegistryError (Msg ''duplicate runtime config key: {}'' [ck_key k]))
      else Inr (dict_set reg (ck_key k) k))"

fun register_many :: "RuntimeConfigRegistry \<Rightarrow> RuntimeConfigKey list \<Rightarrow> RuntimeConfigRegistry config_result" where
  "register_many reg [] = Inr reg"
| "register_many reg (k # ks) = bind_config (registry_register reg k) (\<lambda>reg'. register_many reg' ks)"

definition registry_get :: "RuntimeConfigRegistry \<Rightarrow> string \<Rightarrow> RuntimeConfigKey config_result" where
  "registry_get reg k =
     (case dict_get reg k of
        None \<Rightarrow> Inl (RuntimeConfigRegistryError (Msg ''unknown runtime config key: {}'' [k])) | Some key \<Rightarrow> Inr key)"

definition registry_has :: "RuntimeConfigRegistry \<Rightarrow> string \<Rightarrow> bool" where
  "registry_has reg k \<longleftrightarrow> dict_get reg k \<noteq> None"

definition registry_all :: "RuntimeConfigRegistry \<Rightarrow> RuntimeConfigKey list" where
  "registry_all reg = map snd (sort_key fst reg)"

definition registry_domain :: "RuntimeConfigRegistry \<Rightarrow> string \<Rightarrow> RuntimeConfigKey list" where
  "registry_domain reg d = filter (\<lambda>k. ck_domain k = d) (registry_all reg)"

text \<open>A registry as the class keeps it: one entry per key, under the key's own name.\<close>

definition registry_ok :: "RuntimeConfigRegistry \<Rightarrow> bool" where
  "registry_ok reg \<longleftrightarrow> dict_ok reg \<and> list_all (\<lambda>(n, k). ck_key k = n) reg"

lemma register_many_ok: "\<lbrakk>register_many reg ks = Inr reg'; registry_ok reg\<rbrakk> \<Longrightarrow> registry_ok reg'"
proof (induction ks arbitrary: reg)
  case (Cons k ks)
  then obtain reg1 where reg1: "registry_register reg k = Inr reg1" "register_many reg1 ks = Inr reg'"
    by (auto elim: bind_config_InrE)
  then have "reg1 = reg @ [(ck_key k, k)]" "ck_key k \<notin> fst ` set reg"
    by (auto simp: registry_register_def dict_set_fresh map_of_eq_None_iff split: if_splits)
  then have "registry_ok reg1" using Cons.prems(2) by (auto simp: registry_ok_def)
  with Cons.IH reg1(2) show ?case by blast
qed simp

lemma registry_key_name: "\<lbrakk>registry_ok reg; dict_get reg n = Some k\<rbrakk> \<Longrightarrow> ck_key k = n"
  by (auto simp: registry_ok_def list_all_iff dest: map_of_SomeD)

section \<open>The built-in keys\<close>

text \<open>\<open>RuntimeConfigKey(...)\<close> with the defaults of the fields that no built-in key sets.\<close>

definition config_key ::
  "string \<Rightarrow> string \<Rightarrow> RuntimeConfigValueType \<Rightarrow> json \<Rightarrow> RuntimeConfigScopeLevel list \<Rightarrow> RuntimeConfigMutability
     \<Rightarrow> RuntimeConfigSourceKind list \<Rightarrow> bool \<Rightarrow> string \<Rightarrow> RuntimeConfigKey" where
  "config_key key domain value_type default_value scope_levels mutability source_hints restart_required description =
     \<lparr>ck_key = key, ck_domain = domain, ck_value_type = value_type, ck_default_value = default_value,
      ck_scope_levels = scope_levels, ck_mutability = mutability, ck_description = description,
      ck_source_hints = source_hints, ck_user_visible = True, ck_secret = False, ck_restart_required = restart_required\<rparr>"

definition default_keys_loop_and_task :: "RuntimeConfigKey list" where
  "default_keys_loop_and_task =
    [config_key ''agent_loop.default_max_steps'' ''agent_loop'' Type_int (JInt 20)
       [Level_workspace, Level_session, Level_agent_run] Mut_next_agent_run
       [Kind_built_in_default, Kind_cli, Kind_process_input] False
       ''Maximum AgentLoop ReAct iterations before stopping.'',
     config_key ''context_manager.checkpoint_interval_steps'' ''context_manager'' Type_int (JInt 5)
       [Level_workspace, Level_session, Level_agent_run] Mut_next_agent_run
       [Kind_built_in_default, Kind_process_input] False
       ''Agent loop step interval for checkpoint context rendering.'',
     config_key ''context_manager.max_prior_messages'' ''context_manager'' Type_int (JInt 200)
       [Level_workspace, Level_session, Level_agent_run] Mut_next_agent_run
       [Kind_built_in_default, Kind_process_input] False
       ''Maximum prior loop messages passed into context assembly.'',
     config_key ''context_manager.budget.max_events'' ''context_manager'' Type_int (JInt 20)
       [Level_workspace, Level_session, Level_task] Mut_next_context_build
       [Kind_built_in_default, Kind_process_input] False
       ''Maximum recent event summaries selected for context.'',
     config_key ''context_manager.budget.max_tool_results'' ''context_manager'' Type_int (JInt 10)
       [Level_workspace, Level_session, Level_task] Mut_next_context_build
       [Kind_built_in_default, Kind_process_input] False
       ''Maximum recent tool result summaries selected for context.'',
     config_key ''context_manager.budget.max_file_snippets'' ''context_manager'' Type_int (JInt 6)
       [Level_workspace, Level_session, Level_task] Mut_next_context_build
       [Kind_built_in_default, Kind_process_input] False
       ''Maximum file snippets selected for context.'',
     config_key ''context_manager.budget.max_file_snippet_chars'' ''context_manager'' Type_int (JInt 8000)
       [Level_workspace, Level_session, Level_task] Mut_next_context_build
       [Kind_built_in_default, Kind_process_input] False
       ''Maximum characters selected for one file snippet.'',
     config_key ''context_manager.budget.max_rendered_chars'' ''context_manager'' Type_int (JInt 60000)
       [Level_workspace, Level_session, Level_task] Mut_next_context_build
       [Kind_built_in_default, Kind_process_input] False
       ''Maximum rendered context characters before compaction pressure.'',
     config_key ''execution_dispatcher.enabled'' ''execution_dispatcher'' Type_bool (JBool True)
       [Level_process, Level_workspace] Mut_startup_only
       [Kind_built_in_default, Kind_process_input] True
       ''Whether fixed-route task dispatch is enabled.'',
     config_key ''execution_dispatcher.max_ticks_per_trigger'' ''execution_dispatcher'' Type_int (JInt 10)
       [Level_process, Level_workspace] Mut_next_task
       [Kind_built_in_default, Kind_process_input] False
       ''Maximum dispatcher ticks per trigger.'',
     config_key ''task_api.enabled'' ''task_api'' Type_bool (JBool True)
       [Level_process, Level_workspace] Mut_startup_only
       [Kind_built_in_default, Kind_process_input] True
       ''Whether the local Execution Plane Task API is exposed.'',
     config_key ''task_api.require_valid_session'' ''task_api'' Type_bool (JBool True)
       [Level_workspace] Mut_next_task
       [Kind_built_in_default, Kind_process_input] False
       ''Whether Task API requests must reference an existing session.'',
     config_key ''computer_use.enabled'' ''computer_use'' Type_bool (JBool False)
       [Level_process, Level_workspace] Mut_startup_only
       [Kind_built_in_default, Kind_environment, Kind_cli, Kind_process_input] True
       ''Whether computer-use tools are available to execution agents.'',
     config_key ''computer_use.backend'' ''computer_use'' Type_string (JStr ''disabled'')
       [Level_process] Mut_startup_only
       [Kind_built_in_default, Kind_environment, Kind_cli, Kind_process_input] True
       ''Selected computer-use backend: disabled, helper, or macos.'']"

definition default_keys_computer_and_llm :: "RuntimeConfigKey list" where
  "default_keys_computer_and_llm =
    [config_key ''computer_use.helper.endpoint_manifest_path'' ''computer_use'' Type_string (JStr '''')
       [Level_process, Level_workspace] Mut_startup_only
       [Kind_built_in_default, Kind_environment, Kind_process_input] True
       ''Path to the app-control helper endpoint manifest. Used when computer_use.backend is helper.'',
     config_key ''computer_use.helper.endpoint'' ''computer_use'' Type_string (JStr '''')
       [Level_process] Mut_startup_only
       [Kind_built_in_default, Kind_environment, Kind_process_input] True
       ''Direct app-control helper endpoint override for development.'',
     config_key ''computer_use.allowed_apps'' ''computer_use'' Type_string_list (JArr [])
       [Level_process, Level_workspace] Mut_startup_only
       [Kind_built_in_default, Kind_environment, Kind_cli, Kind_process_input] True
       ''Application allowlist for computer-use actions.'',
     config_key ''computer_use.allow_coordinate_click'' ''computer_use'' Type_bool (JBool True)
       [Level_process, Level_workspace] Mut_startup_only
       [Kind_built_in_default, Kind_process_input] True
       ''Whether coordinate-based clicks are allowed for the private, app-allowlisted computer-use Helper.'',
     config_key ''computer_use.screen_recording_required'' ''computer_use'' Type_bool (JBool False)
       [Level_process, Level_workspace] Mut_startup_only
       [Kind_built_in_default, Kind_process_input] True
       ''Whether the computer-use backend requires screen recording readiness.'',
     config_key ''computer_use.max_text_chars'' ''computer_use'' Type_int (JInt 4000)
       [Level_process, Level_workspace] Mut_startup_only
       [Kind_built_in_default, Kind_process_input] True
       ''Maximum text length accepted by computer-use text entry.'',
     config_key ''safety.high_risk_confirmation'' ''safety'' Type_string (JStr ''required'')
       [Level_workspace, Level_session, Level_task] Mut_next_action
       [Kind_built_in_default, Kind_process_input] False
       ''Confirmation policy for high-risk user-visible actions.'',
     config_key ''llm.default_provider'' ''llm'' Type_string (JStr ''deepseek'')
       [Level_global, Level_workspace, Level_session] Mut_next_llm_call
       [Kind_built_in_default, Kind_environment, Kind_settings_store, Kind_cli] False
       ''Default LLM provider for runtime calls.'',
     config_key ''llm.default_model'' ''llm'' Type_string (JStr ''deepseek-v4-pro'')
       [Level_global, Level_workspace, Level_session] Mut_next_llm_call
       [Kind_built_in_default, Kind_environment, Kind_settings_store, Kind_cli] False
       ''Default LLM model identifier.'',
     config_key ''llm.request_timeout_seconds'' ''llm'' Type_float (JFloat (Fin 180))
       [Level_global, Level_workspace, Level_session] Mut_next_llm_call
       [Kind_built_in_default, Kind_environment, Kind_settings_store] False
       ''Default LLM request timeout in seconds.'',
     config_key ''logging.profile'' ''logging'' Type_string JNull
       [Level_global, Level_workspace, Level_session] Mut_live
       [Kind_built_in_default, Kind_settings_store, Kind_cli, Kind_process_input] False
       ''Selected structured logging profile.'',
     config_key ''logging.level'' ''logging'' Type_string (JStr ''INFO'')
       [Level_global, Level_workspace, Level_session] Mut_live
       [Kind_built_in_default, Kind_settings_store, Kind_cli, Kind_process_input] False
       ''Default structured logging level.'',
     config_key ''web.search_enabled'' ''web'' Type_bool (JBool False)
       [Level_global, Level_workspace, Level_session] Mut_next_action
       [Kind_built_in_default, Kind_environment, Kind_settings_store] False
       ''Whether web search can be used by runtime tools.'']"

definition default_keys_logging_and_router :: "RuntimeConfigKey list" where
  "default_keys_logging_and_router =
    [config_key ''web.fetch_limits'' ''web'' Type_object (JObj [(''maxUrls'', (JInt 3)), (''maxCharsPerUrl'', (JInt 20000)), (''maxTotalChars'', (JInt 40000))])
       [Level_global, Level_workspace, Level_session] Mut_next_action
       [Kind_built_in_default, Kind_environment, Kind_settings_store] False
       ''Default web fetch limits.'',
     config_key ''read_only_inquiry.llm_enabled'' ''read_only_inquiry'' Type_bool (JBool True)
       [Level_process, Level_workspace] Mut_startup_only
       [Kind_built_in_default, Kind_environment, Kind_cli, Kind_process_input] True
       ''Whether read-only inquiry can use guarded LLM answers.'',
     config_key ''runtime_input_router.mode'' ''runtime_input_router'' Type_string (JStr ''llm_first'')
       [Level_process, Level_workspace] Mut_startup_only
       [Kind_built_in_default, Kind_process_input] True
       ''Runtime Input Router semantic interpreter mode.'',
     config_key ''runtime_input_router.llm_planner_required'' ''runtime_input_router'' Type_bool (JBool True)
       [Level_process, Level_workspace] Mut_startup_only
       [Kind_built_in_default, Kind_process_input] True
       ''Whether free-form natural language requires an LLM planner route.'',
     config_key ''runtime_input_router.planner_failure_policy'' ''runtime_input_router'' Type_string (JStr ''fail_closed_no_mutation'')
       [Level_process, Level_workspace] Mut_startup_only
       [Kind_built_in_default, Kind_process_input] True
       ''Router behavior when the LLM planner is unavailable or invalid.'',
     config_key ''runtime_input_router.skill_source'' ''runtime_input_router'' Type_string (JStr ''builtin_runtime_skills'')
       [Level_process] Mut_startup_only
       [Kind_built_in_default, Kind_process_input] True
       ''Source for Router skill instructions injected into planner context.'',
     config_key ''runtime_input_router.max_skill_instruction_chars'' ''runtime_input_router'' Type_int (JInt 2400)
       [Level_process] Mut_startup_only
       [Kind_built_in_default, Kind_process_input] True
       ''Maximum instruction characters loaded per Router runtime skill.'',
     config_key ''debug.main_page_trace_enabled'' ''debug'' Type_bool (JBool True)
       [Level_process] Mut_live
       [Kind_built_in_default, Kind_environment, Kind_process_input] False
       ''Whether Main Page trace logging is enabled.'',
     config_key ''debug.main_page_trace_sink'' ''debug'' Type_object (JObj [(''print'', (JBool False)), (''file'', JNull)])
       [Level_process] Mut_startup_only
       [Kind_built_in_default, Kind_environment, Kind_process_input] True
       ''Main Page trace mirror sinks.'']"

definition default_runtime_config_keys :: "RuntimeConfigKey list" where
  "default_runtime_config_keys =
     default_keys_loop_and_task @ default_keys_computer_and_llm @ default_keys_logging_and_router"

definition build_default_runtime_config_registry :: "RuntimeConfigRegistry config_result" where
  "build_default_runtime_config_registry = register_many [] default_runtime_config_keys"

end
