(* ===== verification/Config_Resolver.thy ===== *)
theory Config_Resolver
  imports Config_Models
begin

text \<open>
  The resolver (\<open>runtime_config/resolver.py\<close>): the defaults, the layers applied in the order of their priority, the hash
  of the result, and the layers read from the environment and from the process.  The digest of the JSON text (\<open>hashlib.sha256\<close>)
  and the reading of a float from its text are arguments.
\<close>

section \<open>Values\<close>

text \<open>\<open>float(n)\<close> of an integer: rounded to 53 significant bits, ties to even; too large an integer raises.\<close>

definition round_int :: "int \<Rightarrow> int" where
  "round_int i =
     (let e = bit_count (nat \<bar>i\<bar>) - 53; q = i div 2 ^ e; r = 2 * (i mod 2 ^ e)
      in if r > 2 ^ e \<or> (r = 2 ^ e \<and> odd q) then (q + 1) * 2 ^ e else q * 2 ^ e)"

definition float_of_int :: "int \<Rightarrow> pyfloat config_result" where
  "float_of_int i =
     (if \<bar>round_int i\<bar> \<ge> 2 ^ 1024 then Inl (ConfigRaised (OverflowError (Msg ''int too large to convert to float'' [])))
      else Inr (Fin (of_int (round_int i))))"

fun is_str :: "json \<Rightarrow> bool" where
  "is_str (JStr s) = True"
| "is_str _ = False"

definition must_be :: "RuntimeConfigKey \<Rightarrow> string \<Rightarrow> 'a config_result" where
  "must_be key kind = Inl (RuntimeConfigResolverError (Msg (''{} must '' @ kind) [ck_key key]))"

definition normalize_value :: "RuntimeConfigKey \<Rightarrow> json \<Rightarrow> json config_result" where
  "normalize_value key v =
     (if v = JNull then Inr JNull
      else case ck_value_type key of
        Type_bool \<Rightarrow> (case v of JBool b \<Rightarrow> Inr v | _ \<Rightarrow> must_be key ''be bool'')
      | Type_int \<Rightarrow> (case v of JInt i \<Rightarrow> Inr v | _ \<Rightarrow> must_be key ''be int'')
      | Type_float \<Rightarrow> (case v of
            JFloat x \<Rightarrow> Inr v
          | JInt i \<Rightarrow> bind_config (float_of_int i) (\<lambda>x. Inr (JFloat x))
          | _ \<Rightarrow> must_be key ''be float'')
      | Type_string \<Rightarrow> (case v of JStr s \<Rightarrow> Inr v | _ \<Rightarrow> must_be key ''be string'')
      | Type_string_list \<Rightarrow> (case v of
            JArr vs \<Rightarrow> if list_all is_str vs then Inr v else must_be key ''contain only strings''
          | _ \<Rightarrow> must_be key ''be string list'')
      | Type_object \<Rightarrow> (case v of JObj d \<Rightarrow> Inr v | _ \<Rightarrow> must_be key ''be object''))"

fun pending_status :: "RuntimeConfigMutability \<Rightarrow> RuntimeConfigEffectiveStatus" where
  "pending_status Mut_live = Effective_active"
| "pending_status Mut_next_context_build = Pending_next_context_build"
| "pending_status Mut_next_llm_call = Pending_next_llm_call"
| "pending_status Mut_next_action = Pending_next_action"
| "pending_status Mut_next_agent_run = Pending_next_agent_run"
| "pending_status Mut_next_task = Pending_next_task"
| "pending_status Mut_next_session = Pending_next_session"
| "pending_status _ = Pending_restart"

definition effective_status :: "RuntimeConfigMutability \<Rightarrow> RuntimeConfigSource \<Rightarrow> RuntimeConfigEffectiveStatus" where
  "effective_status m src = (if so_kind src \<noteq> Kind_runtime_patch then Effective_active else pending_status m)"

definition effective_value :: "string \<Rightarrow> RuntimeConfigKey \<Rightarrow> RuntimeConfigSource \<Rightarrow> json \<Rightarrow> EffectiveRuntimeConfigValue" where
  "effective_value name key src v =
     \<lparr>ev_key = name, ev_value = v, ev_source = src, ev_mutability = ck_mutability key,
      ev_effective_status = effective_status (ck_mutability key) src, ev_redacted = ck_secret key\<rparr>"

section \<open>Resolving\<close>

definition default_source :: RuntimeConfigSource where
  "default_source = \<lparr>so_source_id = ''built_in_defaults'', so_kind = Kind_built_in_default,
     so_scope = level_scope Level_global, so_priority = 0\<rparr>"

type_synonym config_values = "(string, EffectiveRuntimeConfigValue) dict"

fun apply_defaults :: "RuntimeConfigKey list \<Rightarrow> config_values \<Rightarrow> config_values config_result" where
  "apply_defaults [] values = Inr values"
| "apply_defaults (key # keys) values =
     bind_config (normalize_value key (ck_default_value key))
       (\<lambda>v. apply_defaults keys (dict_set values (ck_key key) (effective_value (ck_key key) key default_source v)))"

fun apply_layer :: "RuntimeConfigRegistry \<Rightarrow> RuntimeConfigSource \<Rightarrow> payload \<Rightarrow> config_values \<Rightarrow> config_values config_result" where
  "apply_layer reg src [] values = Inr values"
| "apply_layer reg src ((name, raw) # rest) values =
     bind_config (registry_get reg name) (\<lambda>key.
     bind_config (normalize_value key raw) (\<lambda>v.
     apply_layer reg src rest (dict_set values name (effective_value name key src v))))"

fun apply_layers :: "RuntimeConfigRegistry \<Rightarrow> RuntimeConfigLayer list \<Rightarrow> config_values \<Rightarrow> config_values config_result" where
  "apply_layers reg [] values = Inr values"
| "apply_layers reg (l # ls) values =
     bind_config (apply_layer reg (la_source l) (la_values l) values) (apply_layers reg ls)"

abbreviation layer_priority :: "RuntimeConfigLayer \<Rightarrow> int" where
  "layer_priority l \<equiv> so_priority (la_source l)"

fun first_sources :: "string list \<Rightarrow> RuntimeConfigSource list \<Rightarrow> RuntimeConfigSource list" where
  "first_sources seen [] = []"
| "first_sources seen (s # ss) =
     (if so_source_id s \<in> set seen then first_sources seen ss else s # first_sources (so_source_id s # seen) ss)"

definition unique_sources :: "RuntimeConfigSource list \<Rightarrow> RuntimeConfigSource list" where
  "unique_sources ss = first_sources [] (sort_key so_priority ss)"

text \<open>The payload whose JSON text is hashed, its keys in order.\<close>

definition config_payload :: "config_values \<Rightarrow> json" where
  "config_payload values = JObj (map (\<lambda>(k, e). (k, JObj
     [(''value'', ev_value e), (''source'', JStr (so_source_id (ev_source e))), (''kind'', JStr (kind_str (so_kind (ev_source e)))),
      (''mutability'', JStr (mutability_str (ev_mutability e))),
      (''effectiveStatus'', JStr (effective_str (ev_effective_status e))), (''redacted'', JBool (ev_redacted e))]))
     (sort_key fst values))"

text \<open>\<open>RuntimeConfigResolver.resolve\<close>; \<open>digest\<close> is the SHA-256 of the JSON text, \<open>now\<close> the clock.\<close>

definition resolve ::
  "(json \<Rightarrow> string) \<Rightarrow> datetime \<Rightarrow> RuntimeConfigRegistry \<Rightarrow> RuntimeConfigScope \<Rightarrow> RuntimeConfigLayer list
     \<Rightarrow> EffectiveRuntimeConfig config_result" where
  "resolve digest now reg scope layers =
     bind_config (apply_defaults (registry_all reg) []) (\<lambda>defaults.
     bind_config (apply_layers reg (sort_key layer_priority layers) defaults) (\<lambda>values.
     let config_hash = digest (config_payload values)
     in Inr \<lparr>ec_config_id = ''runtime_config:'' @ take 16 config_hash, ec_scope = scope, ec_created_at = now,
             ec_schema_version = ''plato.runtime_config.v1'', ec_values = values,
             ec_source_layers = unique_sources (default_source # map la_source layers), ec_config_hash = config_hash\<rparr>))"

definition resolve_default_runtime_config ::
  "(json \<Rightarrow> string) \<Rightarrow> datetime \<Rightarrow> RuntimeConfigScope option \<Rightarrow> RuntimeConfigLayer list \<Rightarrow> RuntimeConfigRegistry option
     \<Rightarrow> EffectiveRuntimeConfig config_result" where
  "resolve_default_runtime_config digest now scope layers registry =
     bind_config (case registry of Some reg \<Rightarrow> Inr reg
                  | None \<Rightarrow> build_default_runtime_config_registry)
       (\<lambda>reg. resolve digest now reg (case scope of Some s \<Rightarrow> s | None \<Rightarrow> level_scope Level_process) layers)"

definition explain ::
  "(json \<Rightarrow> string) \<Rightarrow> datetime \<Rightarrow> RuntimeConfigRegistry \<Rightarrow> string \<Rightarrow> RuntimeConfigScope \<Rightarrow> RuntimeConfigLayer list
     \<Rightarrow> EffectiveRuntimeConfigValue config_result" where
  "explain digest now reg key scope layers =
     bind_config (resolve digest now reg scope layers) (\<lambda>config.
     case dict_get (ec_values config) key of
       Some e \<Rightarrow> Inr e
     | None \<Rightarrow> Inl (RuntimeConfigResolverError (Msg ''unknown runtime config key: {}'' [key])))"

definition process_runtime_config_layer :: "payload \<Rightarrow> string \<Rightarrow> int \<Rightarrow> RuntimeConfigLayer" where
  "process_runtime_config_layer values source_id priority =
     \<lparr>la_source = \<lparr>so_source_id = source_id, so_kind = Kind_process_input, so_scope = level_scope Level_process,
        so_priority = priority\<rparr>, la_values = values\<rparr>"

section \<open>The environment layer\<close>

type_synonym environ = "(string, string) dict"

definition non_empty :: "string option \<Rightarrow> string option" where
  "non_empty v = (case v of None \<Rightarrow> None | Some s \<Rightarrow> if strip s = [] then None else Some (strip s))"

text \<open>\<open>parse\<close> is \<open>float(text)\<close>.\<close>

definition positive_float :: "(string \<Rightarrow> pyfloat result) \<Rightarrow> string option \<Rightarrow> pyfloat option config_result" where
  "positive_float parse v =
     (case v of
        None \<Rightarrow> Inr None
      | Some s \<Rightarrow>
          if blank s then Inr None
          else case parse s of
                 Inl e \<Rightarrow> Inl (ConfigRaised e)
               | Inr x \<Rightarrow> if fle x (Fin 0) then Inl (RuntimeConfigResolverError (Msg ''timeout value must be positive'' []))
                          else Inr (Some x))"

definition positive_int :: "string option \<Rightarrow> int option config_result" where
  "positive_int v =
     (case v of
        None \<Rightarrow> Inr None
      | Some s \<Rightarrow>
          if blank s then Inr None
          else case int_of_str s of
                 Inl e \<Rightarrow> Inl (RuntimeConfigResolverError (Msg ''invalid integer environment value: {}'' [s]))
               | Inr n \<Rightarrow> if n \<le> 0 then Inl (RuntimeConfigResolverError (Msg ''integer environment value must be positive'' []))
                          else Inr (Some n))"

definition optional_bool :: "string option \<Rightarrow> bool option config_result" where
  "optional_bool v =
     (case v of
        None \<Rightarrow> Inr None
      | Some s \<Rightarrow>
          (let normalized = map lower_char (strip s)
           in if normalized \<in> set [''1'', ''true'', ''yes'', ''on''] then Inr (Some True)
              else if normalized \<in> set [''0'', ''false'', ''no'', ''off''] then Inr (Some False)
              else Inl (RuntimeConfigResolverError (Msg ''invalid boolean environment value: {}'' [s]))))"

fun split_on :: "char \<Rightarrow> string \<Rightarrow> string list" where
  "split_on c [] = [[]]"
| "split_on c (x # xs) =
     (if x = c then [] # split_on c xs
      else case split_on c xs of w # ws \<Rightarrow> (x # w) # ws | [] \<Rightarrow> [[x]])"

definition csv :: "string option \<Rightarrow> string list" where
  "csv v = (case v of None \<Rightarrow> [] | Some s \<Rightarrow> map strip (filter (\<lambda>w. \<not> blank w) (split_on CHR '','' s)))"

text \<open>One entry of \<open>values\<close>, written if the variable gave something.\<close>

definition put_some :: "string \<Rightarrow> ('a \<Rightarrow> json) \<Rightarrow> 'a option \<Rightarrow> payload \<Rightarrow> payload" where
  "put_some k f x values = (case x of None \<Rightarrow> values | Some v \<Rightarrow> dict_set values k (f v))"

definition web_fetch_limits :: "environ \<Rightarrow> payload config_result" where
  "web_fetch_limits env =
     bind_config (positive_int (dict_get env ''PLATO_WEB_FETCH_MAX_URLS'')) (\<lambda>urls.
     bind_config (positive_int (dict_get env ''PLATO_WEB_FETCH_MAX_CHARS_PER_URL'')) (\<lambda>chars.
     bind_config (positive_int (dict_get env ''PLATO_WEB_FETCH_MAX_TOTAL_CHARS'')) (\<lambda>total.
     Inr (put_some ''maxTotalChars'' JInt total (put_some ''maxCharsPerUrl'' JInt chars (put_some ''maxUrls'' JInt urls []))))))"

definition backend_values :: "string option \<Rightarrow> payload \<Rightarrow> payload" where
  "backend_values backend values =
     (case backend of
        None \<Rightarrow> values
      | Some b \<Rightarrow>
          (let normalized = map lower_char (strip b)
           in dict_set (dict_set values ''computer_use.backend'' (JStr normalized))
                ''computer_use.enabled'' (JBool (normalized \<noteq> ''disabled''))))"

definition trace_sink_value :: "bool option \<Rightarrow> string option \<Rightarrow> json option" where
  "trace_sink_value pr file =
     (if pr \<noteq> None \<or> file \<noteq> None
      then Some (JObj [(''print'', JBool (pr = Some True)), (''file'', case file of None \<Rightarrow> JNull | Some f \<Rightarrow> JStr f)])
      else None)"

definition environment_values :: "(string \<Rightarrow> pyfloat result) \<Rightarrow> environ \<Rightarrow> payload config_result" where
  "environment_values parse env =
     bind_config (positive_float parse (dict_get env ''LLM_REQUEST_TIMEOUT_SECONDS'')) (\<lambda>timeout.
     bind_config (optional_bool (dict_get env ''PLATO_COMPUTER_USE_ALLOW_COORDINATE_CLICK'')) (\<lambda>coordinate_click.
     bind_config (optional_bool (dict_get env ''PLATO_COMPUTER_USE_SCREEN_RECORDING_REQUIRED'')) (\<lambda>screen_recording.
     bind_config (positive_int (dict_get env ''PLATO_COMPUTER_USE_MAX_TEXT_CHARS'')) (\<lambda>max_text_chars.
     bind_config (optional_bool (dict_get env ''PLATO_ENABLE_READ_ONLY_INQUIRY_LLM'')) (\<lambda>read_only_inquiry.
     bind_config (optional_bool (dict_get env ''PLATO_WEB_SEARCH_ENABLED'')) (\<lambda>web_search.
     bind_config (web_fetch_limits env) (\<lambda>limits.
     bind_config (optional_bool (dict_get env ''PLATO_MAIN_PAGE_TRACE'')) (\<lambda>trace_enabled.
     bind_config (optional_bool (dict_get env ''PLATO_MAIN_PAGE_TRACE_PRINT'')) (\<lambda>trace_print.
     let allowed = csv (dict_get env ''PLATO_COMPUTER_USE_ALLOWED_APPS'');
         v1 = put_some ''llm.default_provider'' JStr (non_empty (dict_get env ''LLM_PROVIDER'')) [];
         v2 = put_some ''llm.default_model'' JStr (non_empty (dict_get env ''LLM_MODEL'')) v1;
         v3 = put_some ''llm.request_timeout_seconds'' JFloat timeout v2;
         v4 = backend_values (non_empty (dict_get env ''PLATO_COMPUTER_USE_BACKEND'')) v3;
         v5 = put_some ''computer_use.allowed_apps'' (\<lambda>ws. JArr (map JStr ws)) (if allowed = [] then None else Some allowed) v4;
         v6 = put_some ''computer_use.allow_coordinate_click'' JBool coordinate_click v5;
         v7 = put_some ''computer_use.screen_recording_required'' JBool screen_recording v6;
         v8 = put_some ''computer_use.max_text_chars'' JInt max_text_chars v7;
         v9 = put_some ''read_only_inquiry.llm_enabled'' JBool read_only_inquiry v8;
         v10 = put_some ''web.search_enabled'' JBool web_search v9;
         v11 = put_some ''web.fetch_limits'' JObj (if limits = [] then None else Some limits) v10;
         v12 = put_some ''debug.main_page_trace_enabled'' JBool trace_enabled v11
     in Inr (put_some ''debug.main_page_trace_sink'' id
          (trace_sink_value trace_print (non_empty (dict_get env ''PLATO_MAIN_PAGE_TRACE_FILE''))) v12))))))))))"

definition environment_runtime_config_layer ::
  "(string \<Rightarrow> pyfloat result) \<Rightarrow> environ \<Rightarrow> int \<Rightarrow> RuntimeConfigLayer config_result" where
  "environment_runtime_config_layer parse env priority =
     bind_config (environment_values parse env) (\<lambda>values.
     Inr \<lparr>la_source = \<lparr>so_source_id = ''environment'', so_kind = Kind_environment, so_scope = level_scope Level_process,
            so_priority = priority\<rparr>, la_values = values\<rparr>)"

end
