(* ===== verification/Config_Exact.thy ===== *)
theory Config_Exact
  imports Config_Resolver
begin

text \<open>
  What a resolved configuration holds: for each registered key the value of the strongest layer that sets it, the last one among
  equals, and the default where no layer does; and the resolver fails on exactly the layers that set an unknown key or a value of
  another type.
\<close>

section \<open>What resolving computes\<close>

text \<open>The entry one source gives for a key, if the key is registered and the value has its type.\<close>

definition layer_value :: "RuntimeConfigRegistry \<Rightarrow> RuntimeConfigSource \<Rightarrow> string \<Rightarrow> json \<Rightarrow> EffectiveRuntimeConfigValue option" where
  "layer_value reg src name raw =
     (case dict_get reg name of
        None \<Rightarrow> None
      | Some key \<Rightarrow> (case normalize_value key raw of Inl e \<Rightarrow> None | Inr v \<Rightarrow> Some (effective_value name key src v)))"

definition values_typed :: "RuntimeConfigRegistry \<Rightarrow> payload \<Rightarrow> bool" where
  "values_typed reg vs \<longleftrightarrow> list_all (\<lambda>(name, raw). layer_value reg default_source name raw \<noteq> None) vs"

definition defaults_typed :: "RuntimeConfigRegistry \<Rightarrow> bool" where
  "defaults_typed reg \<longleftrightarrow> list_all (\<lambda>(name, key). case normalize_value key (ck_default_value key) of Inl e \<Rightarrow> False | Inr v \<Rightarrow> True) reg"

lemma layer_value_None: "layer_value reg src name raw = None \<longleftrightarrow> layer_value reg src' name raw = None"
  by (simp add: layer_value_def split: option.split sum.split)

text \<open>The layer that decides a key: the highest priority wins, of equal ones the later.\<close>

fun winner :: "RuntimeConfigLayer list \<Rightarrow> RuntimeConfigLayer option" where
  "winner [] = None"
| "winner (l # ls) = (case winner ls of
     None \<Rightarrow> Some l | Some w \<Rightarrow> Some (if layer_priority w < layer_priority l then l else w))"

definition supplies :: "string \<Rightarrow> RuntimeConfigLayer \<Rightarrow> bool" where
  "supplies k l \<longleftrightarrow> dict_get (la_values l) k \<noteq> None"

definition resolved_value :: "RuntimeConfigRegistry \<Rightarrow> RuntimeConfigLayer list \<Rightarrow> string \<Rightarrow> EffectiveRuntimeConfigValue option" where
  "resolved_value reg layers k =
     (case winner (filter (supplies k) layers) of
        Some l \<Rightarrow> layer_value reg (la_source l) k (the (dict_get (la_values l) k))
      | None \<Rightarrow> (case dict_get reg k of
          None \<Rightarrow> None | Some key \<Rightarrow> layer_value reg default_source k (ck_default_value key)))"

section \<open>Sorting and overwriting picks the winner\<close>

lemma last_insort_key:
  "sorted (map f ys) \<Longrightarrow> last (insort_key f x ys) = (if ys = [] \<or> f (last ys) < f x then x else last ys)"
proof (induction ys)
  case (Cons y ys)
  have "f y \<le> f (last ys)" if "ys \<noteq> []" using Cons.prems last_in_set [OF that] by simp
  then have "\<not> f (last ys) < f x" if "ys \<noteq> []" "f x \<le> f y" using that by fastforce
  then show ?case using Cons by (auto simp: last_ConsR)
qed simp

lemma winner_last: "winner ls = (if ls = [] then None else Some (last (sort_key layer_priority ls)))"
proof (induction ls)
  case (Cons l ls)
  have "sorted (map layer_priority (sort_key layer_priority ls))" by simp
  then show ?case using Cons.IH by (simp add: last_insort_key)
qed simp

lemma apply_layer_get:
  "\<lbrakk>apply_layer reg src vs acc = Inr res; dict_ok vs\<rbrakk> \<Longrightarrow>
   dict_get res k = (case dict_get vs k of None \<Rightarrow> dict_get acc k | Some raw \<Rightarrow> layer_value reg src k raw)"
proof (induction reg src vs acc rule: apply_layer.induct)
  case (2 reg src name raw rest acc)
  obtain key where key: "registry_get reg name = Inr key" using 2(2) by (auto elim: bind_config_InrE)
  obtain v where v: "normalize_value key raw = Inr v" using 2(2) key by (auto elim: bind_config_InrE)
  have rest: "apply_layer reg src rest (dict_set acc name (effective_value name key src v)) = Inr res"
    using 2(2) key v by simp
  have entry: "layer_value reg src name raw = Some (effective_value name key src v)"
    using key v by (simp add: layer_value_def registry_get_def split: option.splits)
  have "dict_ok rest" "dict_get rest name = None" using 2(3) by (auto simp: map_of_eq_None_iff)
  then show ?case using 2(1) [OF rest] entry by (cases "k = name"; cases "dict_get rest k") simp_all
qed simp

lemma apply_layer_typed: "(\<exists>res. apply_layer reg src vs acc = Inr res) \<longleftrightarrow> values_typed reg vs"
proof (induction reg src vs acc rule: apply_layer.induct)
  case (2 reg src name raw rest acc)
  show ?case
  proof (cases "registry_get reg name")
    case (Inl e)
    then show ?thesis by (auto simp: values_typed_def layer_value_def registry_get_def split: option.splits)
  next
    case (Inr key)
    then have key: "dict_get reg name = Some key" by (auto simp: registry_get_def split: option.splits)
    show ?thesis
    proof (cases "normalize_value key raw")
      case norm: (Inl e)
      then show ?thesis using Inr key by (auto simp: values_typed_def layer_value_def)
    next
      case norm: (Inr v)
      then show ?thesis using 2 [of key v] Inr key by (simp add: values_typed_def layer_value_def)
    qed
  qed
qed (simp add: values_typed_def)

lemma apply_layers_get:
  "\<lbrakk>apply_layers reg ls acc = Inr res; \<forall>l \<in> set ls. dict_ok (la_values l)\<rbrakk> \<Longrightarrow>
   dict_get res k = (if filter (supplies k) ls = [] then dict_get acc k
     else let l = last (filter (supplies k) ls) in layer_value reg (la_source l) k (the (dict_get (la_values l) k)))"
proof (induction ls arbitrary: acc)
  case (Cons l ls)
  obtain mid where mid: "apply_layer reg (la_source l) (la_values l) acc = Inr mid" "apply_layers reg ls mid = Inr res"
    using Cons.prems(1) by (auto elim: bind_config_InrE)
  have "dict_get mid k = (case dict_get (la_values l) k of None \<Rightarrow> dict_get acc k
      | Some raw \<Rightarrow> layer_value reg (la_source l) k raw)"
    using apply_layer_get [OF mid(1)] Cons.prems(2) by simp
  moreover have "supplies k l \<longleftrightarrow> dict_get (la_values l) k \<noteq> None" by (simp add: supplies_def)
  ultimately show ?case
    using Cons.IH [OF mid(2)] Cons.prems(2) by (cases "dict_get (la_values l) k") (simp_all add: Let_def)
qed simp

lemma apply_layers_typed:
  "(\<exists>res. apply_layers reg ls acc = Inr res) \<longleftrightarrow> (\<forall>l \<in> set ls. values_typed reg (la_values l))"
proof (induction ls arbitrary: acc)
  case (Cons l ls)
  show ?case
  proof (cases "apply_layer reg (la_source l) (la_values l) acc")
    case (Inl e)
    then show ?thesis using apply_layer_typed [of reg "la_source l" "la_values l" acc] by simp
  next
    case (Inr mid)
    then show ?thesis using apply_layer_typed [of reg "la_source l" "la_values l" acc] Cons.IH [of mid] by simp
  qed
qed simp

lemma apply_defaults_get:
  "\<lbrakk>apply_defaults keys acc = Inr res; distinct (map ck_key keys)\<rbrakk> \<Longrightarrow>
   dict_get res k = (case find (\<lambda>key. ck_key key = k) keys of
     None \<Rightarrow> dict_get acc k
   | Some key \<Rightarrow> (case normalize_value key (ck_default_value key) of
       Inl e \<Rightarrow> None | Inr v \<Rightarrow> Some (effective_value k key default_source v)))"
proof (induction keys arbitrary: acc)
  case (Cons key keys)
  obtain v where v: "normalize_value key (ck_default_value key) = Inr v" using Cons.prems(1) by (auto elim: bind_config_InrE)
  have rest: "apply_defaults keys (dict_set acc (ck_key key) (effective_value (ck_key key) key default_source v)) = Inr res"
    using Cons.prems(1) v by simp
  have "\<forall>key' \<in> set keys. ck_key key' \<noteq> ck_key key" using Cons.prems(2) by (simp add: image_iff) metis
  then have "find (\<lambda>key'. ck_key key' = ck_key key) keys = None" by (simp add: find_None_iff)
  with Cons.IH [OF rest] Cons.prems(2) v show ?case
    by (cases "ck_key key = k"; cases "find (\<lambda>key. ck_key key = k) keys") auto
qed simp

lemma apply_defaults_typed:
  "(\<exists>res. apply_defaults keys acc = Inr res) \<longleftrightarrow>
   list_all (\<lambda>key. case normalize_value key (ck_default_value key) of Inl e \<Rightarrow> False | Inr v \<Rightarrow> True) keys"
proof (induction keys arbitrary: acc)
  case (Cons key keys)
  then show ?case by (cases "normalize_value key (ck_default_value key)") simp_all
qed simp

section \<open>The registry as the resolver reads it\<close>

lemma registry_all_keys:
  assumes "registry_ok reg"
  shows "distinct (map ck_key (registry_all reg))" "find (\<lambda>key. ck_key key = k) (registry_all reg) = dict_get reg k"
    "list_all P (registry_all reg) \<longleftrightarrow> list_all (\<lambda>(n, key). P key) reg"
proof -
  let ?reg = "sort_key fst reg"
  have names: "map ck_key (registry_all reg) = map fst ?reg"
    using assms by (auto simp: registry_all_def registry_ok_def list_all_iff)
  have set: "set ?reg = set reg" by simp
  have "distinct (map fst ?reg)" using assms by (simp add: registry_ok_def distinct_map inj_on_def)
  then show "distinct (map ck_key (registry_all reg))" by (simp add: names)
  have find: "\<forall>(n, key) \<in> set xs. ck_key key = n \<Longrightarrow> find (\<lambda>key. ck_key key = k) (map snd xs) = map_of xs k" for xs
    by (induction xs) auto
  have "find (\<lambda>key. ck_key key = k) (registry_all reg) = map_of ?reg k"
    unfolding registry_all_def using assms by (intro find) (auto simp: registry_ok_def list_all_iff)
  also have "\<dots> = map_of reg k"
    using assms \<open>distinct (map fst ?reg)\<close> set by (intro map_of_inject_set [THEN iffD2, THEN fun_cong]) (simp_all add: registry_ok_def)
  finally show "find (\<lambda>key. ck_key key = k) (registry_all reg) = dict_get reg k" .
  show "list_all P (registry_all reg) \<longleftrightarrow> list_all (\<lambda>(n, key). P key) reg"
    by (auto simp: registry_all_def list_all_iff)
qed

definition well_typed :: "RuntimeConfigRegistry \<Rightarrow> RuntimeConfigLayer list \<Rightarrow> bool" where
  "well_typed reg layers \<longleftrightarrow> defaults_typed reg \<and> (\<forall>l \<in> set layers. values_typed reg (la_values l))"

lemma resolve_values:
  assumes "registry_ok reg" "\<forall>l \<in> set layers. dict_ok (la_values l)" "resolve digest now reg scope layers = Inr c"
  shows "dict_get (ec_values c) k = resolved_value reg layers k"
proof -
  obtain defaults res where d: "apply_defaults (registry_all reg) [] = Inr defaults"
    and r: "apply_layers reg (sort_key layer_priority layers) defaults = Inr res" and c: "ec_values c = res"
    using assms(3) by (auto simp: resolve_def Let_def elim!: bind_config_InrE)
  have base: "dict_get defaults k = (case dict_get reg k of None \<Rightarrow> None
      | Some key \<Rightarrow> layer_value reg default_source k (ck_default_value key))"
    using apply_defaults_get [OF d] registry_all_keys [OF assms(1)] by (simp add: layer_value_def split: option.split)
  have "dict_get res k = (if filter (supplies k) (sort_key layer_priority layers) = [] then dict_get defaults k
     else let l = last (filter (supplies k) (sort_key layer_priority layers))
          in layer_value reg (la_source l) k (the (dict_get (la_values l) k)))"
    using assms(2) by (intro apply_layers_get [OF r]) simp
  then show ?thesis
    by (simp add: c base resolved_value_def winner_last Let_def flip: sort_key_filter_commute)
qed

lemma resolve_total:
  assumes "registry_ok reg"
  shows "(\<exists>c. resolve digest now reg scope layers = Inr c) \<longleftrightarrow> well_typed reg layers"
proof -
  have d: "(\<exists>defaults. apply_defaults (registry_all reg) [] = Inr defaults) \<longleftrightarrow> defaults_typed reg"
    by (simp add: apply_defaults_typed registry_all_keys [OF assms] defaults_typed_def)
  show ?thesis
  proof (cases "apply_defaults (registry_all reg) []")
    case (Inl e)
    then show ?thesis using d by (simp add: resolve_def well_typed_def)
  next
    case (Inr defaults)
    then have "defaults_typed reg" using d by blast
    moreover have "(\<exists>c. resolve digest now reg scope layers = Inr c) \<longleftrightarrow>
        (\<exists>res. apply_layers reg (sort_key layer_priority layers) defaults = Inr res)"
      using Inr by (cases "apply_layers reg (sort_key layer_priority layers) defaults") (simp_all add: resolve_def Let_def)
    ultimately show ?thesis by (simp add: apply_layers_typed well_typed_def)
  qed
qed

section \<open>Properties\<close>

text \<open>C17. Resolving is exact: it succeeds exactly when every default and every value of every layer belongs to a registered key and
  has that key's type, and then each key holds the normalized value of the layer with the highest priority that sets it, the
  later of two equal ones, or else the default, together with its source and status; no other key appears.\<close>

theorem resolve_exact:
  assumes "registry_ok reg" "\<forall>l \<in> set layers. dict_ok (la_values l)"
  shows "case resolve digest now reg scope layers of
     Inr c \<Rightarrow> well_typed reg layers \<and> (\<forall>k. dict_get (ec_values c) k = resolved_value reg layers k)
   | Inl e \<Rightarrow> \<not> well_typed reg layers"
proof (cases "resolve digest now reg scope layers")
  case (Inl e)
  then show ?thesis using resolve_total [OF assms(1), of digest now scope layers] by simp
next
  case (Inr c)
  then show ?thesis
    using resolve_total [OF assms(1), of digest now scope layers] resolve_values [OF assms Inr] by auto
qed

text \<open>The built-in registry, and two layers that set the same key.\<close>

definition default_registry :: RuntimeConfigRegistry where
  "default_registry = map (\<lambda>k. (ck_key k, k)) default_runtime_config_keys"

lemma default_registry_built: "build_default_runtime_config_registry = Inr default_registry"
  unfolding default_registry_def by code_simp

lemma default_registry_ok: "registry_ok default_registry"
  using register_many_ok [OF default_registry_built [unfolded build_default_runtime_config_registry_def]]
  by (simp add: registry_ok_def)

definition sample_layers :: "RuntimeConfigLayer list" where
  "sample_layers = [process_runtime_config_layer [(''agent_loop.default_max_steps'', JInt 50)] ''process_input'' 100,
     process_runtime_config_layer [(''agent_loop.default_max_steps'', JInt 30), (''llm.request_timeout_seconds'', JInt 9)] ''late'' 90]"

theorem resolve_exact_witness:
  "\<exists>c. resolve (\<lambda>j. ''h'') (Datetime 1 1 1 0 0 0 0) default_registry (level_scope Level_process) sample_layers = Inr c
     \<and> map_option ev_value (dict_get (ec_values c) ''agent_loop.default_max_steps'') = Some (JInt 50)
     \<and> map_option ev_value (dict_get (ec_values c) ''llm.request_timeout_seconds'') = Some (JFloat (Fin 9))
     \<and> map_option ev_value (dict_get (ec_values c) ''logging.level'') = Some (JStr ''INFO'')"
proof -
  let ?r = "resolve (\<lambda>j. ''h'') (Datetime 1 1 1 0 0 0 0) default_registry (level_scope Level_process) sample_layers"
  have keys: "map (\<lambda>k. map_option ev_value (resolved_value default_registry sample_layers k))
      [''agent_loop.default_max_steps'', ''llm.request_timeout_seconds'', ''logging.level''] =
      [Some (JInt 50), Some (JFloat (Fin 9)), Some (JStr ''INFO'')]" by code_simp
  have typed: "well_typed default_registry sample_layers" by code_simp
  have "\<forall>l \<in> set sample_layers. dict_ok (la_values l)" by code_simp
  from resolve_exact [OF default_registry_ok this, of "\<lambda>j. ''h''" "Datetime 1 1 1 0 0 0 0" "level_scope Level_process"]
  show ?thesis using keys typed by (cases ?r) simp_all
qed

end
