(* ===== verification/Config_Bus.thy ===== *)
theory Config_Bus
  imports Config_Resolver Message_Stream
begin

text \<open>
  The bus that tells the consumers of a configuration about an accepted change (\<open>runtime_config/config_bus.py\<close>).  A handler
  is a function of the event that returns a result, nothing, or the exception it raises.
\<close>

section \<open>The configuration bus\<close>

record RuntimeConfigBusEvent =
  be_event_id :: string
  be_change_id :: string
  be_patch_id :: string
  be_scope :: RuntimeConfigScope
  be_actor :: RuntimeConfigActor
  be_reason :: "string option"
  be_accepted_values :: payload
  be_active_values :: payload
  be_pending_values :: payload
  be_effective_status_by_key :: "(string, RuntimeConfigEffectiveStatus) dict"
  be_base_config_hash :: string
  be_resulting_config_hash :: string
  be_change_created_at :: datetime
  be_published_at :: datetime

text \<open>The field constraints with \<open>_event_is_consistent\<close>.\<close>

definition RuntimeConfigBusEvent_ok :: "RuntimeConfigBusEvent \<Rightarrow> bool" where
  "RuntimeConfigBusEvent_ok v \<longleftrightarrow> be_event_id v \<noteq> [] \<and> be_change_id v \<noteq> [] \<and> be_patch_id v \<noteq> [] \<and> opt_nonempty (be_reason v)
     \<and> be_base_config_hash v \<noteq> [] \<and> be_resulting_config_hash v \<noteq> []
     \<and> set (dict_keys (be_accepted_values v)) = set (dict_keys (be_effective_status_by_key v))
     \<and> set (dict_keys (be_active_values v)) \<union> set (dict_keys (be_pending_values v)) = set (dict_keys (be_accepted_values v))
     \<and> set (dict_keys (be_active_values v)) \<inter> set (dict_keys (be_pending_values v)) = {}
     \<and> list_all (\<lambda>k. dict_get (be_effective_status_by_key v) k = Some Effective_active) (dict_keys (be_active_values v))
     \<and> list_all (\<lambda>k. dict_get (be_effective_status_by_key v) k \<noteq> Some Effective_active) (dict_keys (be_pending_values v))"

datatype RuntimeConfigBusConsumerStatus = Consumer_applied | Consumer_skipped | Consumer_failed

record RuntimeConfigBusConsumerResult =
  cr_consumer_id :: string
  cr_status :: RuntimeConfigBusConsumerStatus
  cr_applied_keys :: "string list"
  cr_skipped_keys :: "string list"
  cr_message :: "string option"
  cr_error_type :: "string option"

definition RuntimeConfigBusConsumerResult_validate ::
  "RuntimeConfigBusConsumerResult \<Rightarrow> RuntimeConfigBusConsumerResult config_result" where
  "RuntimeConfigBusConsumerResult_validate r =
     (if cr_consumer_id r = [] \<or> \<not> opt_nonempty (cr_message r) \<or> \<not> opt_nonempty (cr_error_type r)
      then Inl (ConfigRaised (ValidationError (Msg ''RuntimeConfigBusConsumerResult'' []))) else Inr r)"

record RuntimeConfigBusPublication =
  pn_event :: RuntimeConfigBusEvent
  pn_consumer_results :: "RuntimeConfigBusConsumerResult list"

text \<open>A handler returns a result or nothing, or raises: the name of the exception class and \<open>str(exc)\<close>.\<close>

type_synonym RuntimeConfigBusHandler =
  "RuntimeConfigBusEvent \<Rightarrow> (string \<times> string) + RuntimeConfigBusConsumerResult option"

record InMemoryRuntimeConfigBus =
  cb_handlers :: "(string, RuntimeConfigBusHandler) dict"
  cb_publications :: "RuntimeConfigBusPublication list"

definition empty_config_bus :: InMemoryRuntimeConfigBus where
  "empty_config_bus = \<lparr>cb_handlers = [], cb_publications = []\<rparr>"

definition config_subscribe ::
  "InMemoryRuntimeConfigBus \<Rightarrow> string \<Rightarrow> RuntimeConfigBusHandler \<Rightarrow> InMemoryRuntimeConfigBus config_result" where
  "config_subscribe b consumer_id handler =
     (if consumer_id = [] then Inl (RuntimeConfigBusError (Msg ''consumer_id must not be empty'' []))
      else if dict_get (cb_handlers b) consumer_id \<noteq> None
      then Inl (RuntimeConfigBusError (Msg ''runtime config consumer already subscribed: {}'' [consumer_id]))
      else Inr (b\<lparr>cb_handlers := dict_set (cb_handlers b) consumer_id handler\<rparr>))"

definition config_unsubscribe :: "InMemoryRuntimeConfigBus \<Rightarrow> string \<Rightarrow> InMemoryRuntimeConfigBus" where
  "config_unsubscribe b consumer_id = b\<lparr>cb_handlers := AList.delete consumer_id (cb_handlers b)\<rparr>"

definition deliver ::
  "string \<Rightarrow> RuntimeConfigBusHandler \<Rightarrow> RuntimeConfigBusEvent \<Rightarrow> RuntimeConfigBusConsumerResult config_result" where
  "deliver consumer_id handler v =
     (let report = (\<lambda>status message error_type. RuntimeConfigBusConsumerResult_validate
            \<lparr>cr_consumer_id = consumer_id, cr_status = status, cr_applied_keys = [],
             cr_skipped_keys = dict_keys (be_accepted_values v), cr_message = Some message, cr_error_type = error_type\<rparr>)
      in case handler v of
           Inl (name, text) \<Rightarrow> report Consumer_failed text (Some name)
         | Inr None \<Rightarrow> report Consumer_skipped ''Consumer returned no result.'' None
         | Inr (Some r) \<Rightarrow>
             if cr_consumer_id r \<noteq> consumer_id
             then report Consumer_failed ''Consumer result ID must match subscription consumer_id.'' (Some ''RuntimeConfigBusError'')
             else Inr r)"

fun deliver_all ::
  "(string, RuntimeConfigBusHandler) dict \<Rightarrow> RuntimeConfigBusEvent \<Rightarrow> RuntimeConfigBusConsumerResult list config_result" where
  "deliver_all [] v = Inr []"
| "deliver_all ((i, h) # hs) v = bind_config (deliver i h v) (\<lambda>r. bind_config (deliver_all hs v) (\<lambda>rs. Inr (r # rs)))"

text \<open>The values a change made active, and those that wait.\<close>

definition status_of :: "RuntimeConfigChange \<Rightarrow> string \<Rightarrow> RuntimeConfigEffectiveStatus option" where
  "status_of c k = dict_get (ch_effective_status_by_key c) k"

definition runtime_config_bus_event_from_change ::
  "string \<Rightarrow> datetime \<Rightarrow> RuntimeConfigChange \<Rightarrow> RuntimeConfigBusEvent config_result" where
  "runtime_config_bus_event_from_change event_id now c =
     (if ch_status c \<noteq> Change_accepted
      then Inl (RuntimeConfigBusError (Msg ''only accepted runtime config changes publish'' []))
      else case ch_resulting_config_hash c of
        None \<Rightarrow> Inl (RuntimeConfigBusError (Msg ''accepted runtime config change requires hash'' []))
      | Some h \<Rightarrow>
          (case find (\<lambda>k. status_of c k = None) (dict_keys (ch_accepted_values c)) of
             Some k \<Rightarrow> Inl (ConfigRaised (KeyError (Msg ''{}'' [k])))
           | None \<Rightarrow>
               (let v = \<lparr>be_event_id = ''runtime_config_event:'' @ event_id, be_change_id = ch_change_id c,
                  be_patch_id = ch_patch_id c, be_scope = ch_scope c, be_actor = ch_actor c, be_reason = ch_reason c,
                  be_accepted_values = ch_accepted_values c,
                  be_active_values = filter (\<lambda>(k, x). status_of c k = Some Effective_active) (ch_accepted_values c),
                  be_pending_values = filter (\<lambda>(k, x). status_of c k \<noteq> Some Effective_active) (ch_accepted_values c),
                  be_effective_status_by_key = ch_effective_status_by_key c, be_base_config_hash = ch_base_config_hash c,
                  be_resulting_config_hash = h, be_change_created_at = ch_created_at c, be_published_at = now\<rparr>
                in if RuntimeConfigBusEvent_ok v then Inr v
                   else Inl (ConfigRaised (ValidationError (Msg ''RuntimeConfigBusEvent'' []))))))"

definition publish_change ::
  "string \<Rightarrow> datetime \<Rightarrow> InMemoryRuntimeConfigBus \<Rightarrow> RuntimeConfigChange
     \<Rightarrow> RuntimeConfigBusPublication option config_result \<times> InMemoryRuntimeConfigBus" where
  "publish_change event_id now b c =
     (if ch_status c \<noteq> Change_accepted then (Inr None, b)
      else case bind_config (runtime_config_bus_event_from_change event_id now c)
                  (\<lambda>v. bind_config (deliver_all (cb_handlers b) v) (\<lambda>rs. Inr \<lparr>pn_event = v, pn_consumer_results = rs\<rparr>)) of
        Inl e \<Rightarrow> (Inl e, b)
      | Inr p \<Rightarrow> (Inr (Some p), b\<lparr>cb_publications := cb_publications b @ [p]\<rparr>))"

end
