(* ===== verification/Config_Store.thy ===== *)
theory Config_Store
  imports Config_Bus
begin

text \<open>
  The ledger of changes and the snapshots (\<open>runtime_config/sqlite_store.py\<close>): rows of columns, the unique indexes, and the
  orders the queries ask for.  JSON texts are values of a type parameter, with the reading and writing of them as a codec.
\<close>

section \<open>Columns\<close>

text \<open>What the store uses of \<open>json\<close>, of Pydantic's JSON and of \<open>fromisoformat\<close>.\<close>

record 'j config_codec =
  cf_dumps :: "json \<Rightarrow> 'j"
  cf_loads :: "'j \<Rightarrow> json result"
  cf_dump_actor :: "RuntimeConfigActor \<Rightarrow> 'j"
  cf_load_actor :: "'j \<Rightarrow> RuntimeConfigActor result"
  cf_dump_rejections :: "(string, RuntimeConfigRejection) dict \<Rightarrow> 'j"
  cf_load_rejections :: "'j \<Rightarrow> (string, RuntimeConfigRejection) dict result"
  cf_dump_config :: "EffectiveRuntimeConfig \<Rightarrow> 'j"
  cf_load_config :: "'j \<Rightarrow> EffectiveRuntimeConfig result"
  cf_fromisoformat :: "string \<Rightarrow> datetime result"

fun change_status_str :: "RuntimeConfigChangeStatus \<Rightarrow> string" where
  "change_status_str Change_accepted = ''accepted''"
| "change_status_str Change_rejected = ''rejected''"
| "change_status_str Change_no_op = ''no_op''"

definition config_literal :: "('a \<Rightarrow> string) \<Rightarrow> 'a list \<Rightarrow> string \<Rightarrow> 'a result" where
  "config_literal str vs s =
     (case find (\<lambda>v. str v = s) vs of
        None \<Rightarrow> Inl (ValidationError (Msg ''RuntimeConfigChange'' [])) | Some v \<Rightarrow> Inr v)"

definition change_status_of :: "string \<Rightarrow> RuntimeConfigChangeStatus result" where
  "change_status_of = config_literal change_status_str [Change_accepted, Change_rejected, Change_no_op]"

definition level_of :: "string \<Rightarrow> RuntimeConfigScopeLevel result" where
  "level_of = config_literal level_str [Level_global, Level_workspace, Level_session, Level_task, Level_agent_run, Level_process]"

definition effective_of :: "string \<Rightarrow> RuntimeConfigEffectiveStatus result" where
  "effective_of = config_literal effective_str [Effective_active, Pending_next_context_build, Pending_next_llm_call, Pending_next_action,
     Pending_next_agent_run, Pending_next_task, Pending_next_session, Pending_restart]"

definition statuses_json :: "(string, RuntimeConfigEffectiveStatus) dict \<Rightarrow> json" where
  "statuses_json d = JObj (map (\<lambda>(k, s). (k, JStr (effective_str s))) d)"

text \<open>Pydantic's reading of the parsed columns.\<close>

fun statuses_of :: "(string \<times> json) list \<Rightarrow> (string, RuntimeConfigEffectiveStatus) dict result" where
  "statuses_of [] = Inr []"
| "statuses_of ((k, JStr s) # d) = bind_ok (effective_of s) (\<lambda>t. map_ok (\<lambda>rest. (k, t) # rest) (statuses_of d))"
| "statuses_of ((k, v) # d) = Inl (ValidationError (Msg ''RuntimeConfigChange'' []))"

fun obj_of :: "json \<Rightarrow> payload result" where
  "obj_of (JObj d) = Inr d"
| "obj_of _ = Inl (ValidationError (Msg ''RuntimeConfigChange'' []))"

fun strs_of :: "json list \<Rightarrow> string list result" where
  "strs_of [] = Inr []"
| "strs_of (JStr s # js) = map_ok (\<lambda>ss. s # ss) (strs_of js)"
| "strs_of (j # js) = Inl (ValidationError (Msg ''RuntimeConfigChange'' []))"

fun str_list_of :: "json \<Rightarrow> string list result" where
  "str_list_of (JArr js) = strs_of js"
| "str_list_of _ = Inl (ValidationError (Msg ''RuntimeConfigChange'' []))"

section \<open>Rows\<close>

text \<open>The scope columns, which both tables have.\<close>

record scope_row =
  sw_level :: string
  sw_workspace_id :: "string option"
  sw_session_id :: "string option"
  sw_task_id :: "string option"
  sw_agent_run_id :: "string option"

definition scope_values :: "RuntimeConfigScope \<Rightarrow> scope_row" where
  "scope_values s = \<lparr>sw_level = level_str (sc_level s), sw_workspace_id = sc_workspace_id s, sw_session_id = sc_session_id s,
     sw_task_id = sc_task_id s, sw_agent_run_id = sc_agent_run_id s\<rparr>"

definition scope_from_row :: "scope_row \<Rightarrow> RuntimeConfigScope result" where
  "scope_from_row r =
     map_ok (\<lambda>l. \<lparr>sc_level = l, sc_workspace_id = sw_workspace_id r, sc_session_id = sw_session_id r,
        sc_task_id = sw_task_id r, sc_agent_run_id = sw_agent_run_id r\<rparr>) (level_of (sw_level r))"

record 'j change_row =
  cw_change_id :: string
  cw_patch_id :: string
  cw_idempotency_key :: "string option"
  cw_scope :: scope_row
  cw_actor_json :: 'j
  cw_reason :: "string option"
  cw_status :: string
  cw_requested_values_json :: 'j
  cw_accepted_values_json :: 'j
  cw_rejected_values_json :: 'j
  cw_redacted_keys_json :: 'j
  cw_base_config_hash :: string
  cw_resulting_config_hash :: "string option"
  cw_effective_status_json :: 'j
  cw_created_at :: string

record 'j snapshot_row =
  nw_snapshot_id :: string
  nw_config_hash :: string
  nw_scope :: scope_row
  nw_effective_config_json :: 'j
  nw_created_by_change_id :: "string option"
  nw_created_at :: string

record 'j config_db =
  db_changes :: "'j change_row list"
  db_snapshots :: "'j snapshot_row list"

definition empty_config_db :: "'j config_db" where
  "empty_config_db = \<lparr>db_changes = [], db_snapshots = []\<rparr>"

definition change_row_of :: "'j config_codec \<Rightarrow> RuntimeConfigChange \<Rightarrow> 'j change_row" where
  "change_row_of P c =
     \<lparr>cw_change_id = ch_change_id c, cw_patch_id = ch_patch_id c, cw_idempotency_key = ch_idempotency_key c,
      cw_scope = scope_values (ch_scope c), cw_actor_json = cf_dump_actor P (ch_actor c), cw_reason = ch_reason c,
      cw_status = change_status_str (ch_status c), cw_requested_values_json = cf_dumps P (JObj (ch_requested_values c)),
      cw_accepted_values_json = cf_dumps P (JObj (ch_accepted_values c)),
      cw_rejected_values_json = cf_dump_rejections P (ch_rejected_values c),
      cw_redacted_keys_json = cf_dumps P (JArr (map JStr (ch_redacted_keys c))),
      cw_base_config_hash = ch_base_config_hash c, cw_resulting_config_hash = ch_resulting_config_hash c,
      cw_effective_status_json = cf_dumps P (statuses_json (ch_effective_status_by_key c)),
      cw_created_at = isoformat (ch_created_at c)\<rparr>"

definition lift_raise :: "'a result \<Rightarrow> 'a config_result" where
  "lift_raise r = (case r of Inl e \<Rightarrow> Inl (ConfigRaised e) | Inr x \<Rightarrow> Inr x)"

lemma lift_raise_simps [simp]: "lift_raise (Inl e) = Inl (ConfigRaised e)" "lift_raise (Inr x) = Inr x"
  by (simp_all add: lift_raise_def)

definition change_from_row :: "'j config_codec \<Rightarrow> 'j change_row \<Rightarrow> RuntimeConfigChange config_result" where
  "change_from_row P r =
     bind_config (lift_raise (cf_load_rejections P (cw_rejected_values_json r))) (\<lambda>rejected.
     bind_config (lift_raise (scope_from_row (cw_scope r))) (\<lambda>scope.
     bind_config (lift_raise (cf_load_actor P (cw_actor_json r))) (\<lambda>actor.
     bind_config (lift_raise (change_status_of (cw_status r))) (\<lambda>status.
     bind_config (lift_raise (bind_ok (cf_loads P (cw_requested_values_json r)) obj_of)) (\<lambda>requested.
     bind_config (lift_raise (bind_ok (cf_loads P (cw_accepted_values_json r)) obj_of)) (\<lambda>accepted.
     bind_config (lift_raise (bind_ok (cf_loads P (cw_redacted_keys_json r)) str_list_of)) (\<lambda>redacted.
     bind_config (lift_raise (bind_ok (bind_ok (cf_loads P (cw_effective_status_json r)) obj_of) statuses_of)) (\<lambda>statuses.
     bind_config (lift_raise (cf_fromisoformat P (cw_created_at r))) (\<lambda>created_at.
     RuntimeConfigChange_validate
       \<lparr>ch_change_id = cw_change_id r, ch_patch_id = cw_patch_id r, ch_idempotency_key = cw_idempotency_key r,
        ch_scope = scope, ch_actor = actor, ch_reason = cw_reason r, ch_status = status, ch_requested_values = requested,
        ch_accepted_values = accepted, ch_rejected_values = rejected, ch_redacted_keys = redacted,
        ch_base_config_hash = cw_base_config_hash r, ch_resulting_config_hash = cw_resulting_config_hash r,
        ch_effective_status_by_key = statuses, ch_created_at = created_at\<rparr>)))))))))"

definition snapshot_row_of :: "'j config_codec \<Rightarrow> RuntimeConfigSnapshotRecord \<Rightarrow> 'j snapshot_row" where
  "snapshot_row_of P s =
     \<lparr>nw_snapshot_id = sn_snapshot_id s, nw_config_hash = sn_config_hash s, nw_scope = scope_values (sn_scope s),
      nw_effective_config_json = cf_dump_config P (sn_effective_config s), nw_created_by_change_id = sn_created_by_change_id s,
      nw_created_at = isoformat (sn_created_at s)\<rparr>"

definition snapshot_from_row :: "'j config_codec \<Rightarrow> 'j snapshot_row \<Rightarrow> RuntimeConfigSnapshotRecord config_result" where
  "snapshot_from_row P r =
     bind_config (lift_raise (scope_from_row (nw_scope r))) (\<lambda>scope.
     bind_config (lift_raise (cf_load_config P (nw_effective_config_json r))) (\<lambda>config.
     bind_config (lift_raise (cf_fromisoformat P (nw_created_at r))) (\<lambda>created_at.
     RuntimeConfigSnapshotRecord_validate
       \<lparr>sn_snapshot_id = nw_snapshot_id r, sn_config_hash = nw_config_hash r, sn_scope = scope, sn_effective_config = config,
        sn_created_by_change_id = nw_created_by_change_id r, sn_created_at = created_at\<rparr>)))"

section \<open>Operations\<close>

text \<open>The unique index over the key and the scope columns with \<open>NULL\<close> read as the empty string.\<close>

definition coalesce :: "string option \<Rightarrow> string" where
  "coalesce x = (case x of None \<Rightarrow> [] | Some s \<Rightarrow> s)"

definition scope_index :: "scope_row \<Rightarrow> string list" where
  "scope_index r = [sw_level r, coalesce (sw_workspace_id r), coalesce (sw_session_id r), coalesce (sw_task_id r),
     coalesce (sw_agent_run_id r)]"

definition change_clash :: "'j change_row \<Rightarrow> 'j change_row \<Rightarrow> bool" where
  "change_clash r q \<longleftrightarrow> cw_change_id q = cw_change_id r
     \<or> (cw_idempotency_key r \<noteq> None \<and> cw_idempotency_key q = cw_idempotency_key r
        \<and> scope_index (cw_scope q) = scope_index (cw_scope r))"

definition append_change :: "'j config_codec \<Rightarrow> 'j config_db \<Rightarrow> RuntimeConfigChange \<Rightarrow> 'j config_db config_result" where
  "append_change P db c =
     (if list_ex (change_clash (change_row_of P c)) (db_changes db)
      then Inl (RuntimeConfigChangeStoreError (Msg
        ''runtime config change already exists or idempotency key was reused in the same scope'' []))
      else Inr (db\<lparr>db_changes := db_changes db @ [change_row_of P c]\<rparr>))"

definition save_snapshot :: "'j config_codec \<Rightarrow> 'j config_db \<Rightarrow> RuntimeConfigSnapshotRecord \<Rightarrow> 'j config_db config_result" where
  "save_snapshot P db s =
     (if list_ex (\<lambda>q. nw_snapshot_id q = sn_snapshot_id s) (db_snapshots db)
      then Inl (RuntimeConfigChangeStoreError (Msg ''runtime config snapshot already exists'' []))
      else Inr (db\<lparr>db_snapshots := db_snapshots db @ [snapshot_row_of P s]\<rparr>))"

definition optional_row :: "('r \<Rightarrow> 'a config_result) \<Rightarrow> 'r list \<Rightarrow> 'a option config_result" where
  "optional_row f rows = (case rows of [] \<Rightarrow> Inr None | r # _ \<Rightarrow> bind_config (f r) (\<lambda>x. Inr (Some x)))"

definition get_change :: "'j config_codec \<Rightarrow> 'j config_db \<Rightarrow> string \<Rightarrow> RuntimeConfigChange option config_result" where
  "get_change P db i = optional_row (change_from_row P) (filter (\<lambda>r. cw_change_id r = i) (db_changes db))"

abbreviation change_order :: "'j change_row list \<Rightarrow> 'j change_row list" where
  "change_order \<equiv> sort_key (\<lambda>r. (cw_created_at r, cw_change_id r))"

definition get_change_by_idempotency_key ::
  "'j config_codec \<Rightarrow> 'j config_db \<Rightarrow> string \<Rightarrow> RuntimeConfigScope \<Rightarrow> RuntimeConfigChange option config_result" where
  "get_change_by_idempotency_key P db key scope =
     optional_row (change_from_row P)
       (change_order (filter (\<lambda>r. cw_idempotency_key r = Some key \<and> cw_scope r = scope_values scope) (db_changes db)))"

definition get_snapshot :: "'j config_codec \<Rightarrow> 'j config_db \<Rightarrow> string \<Rightarrow> RuntimeConfigSnapshotRecord option config_result" where
  "get_snapshot P db config_hash =
     optional_row (snapshot_from_row P)
       (rev (sort_key (\<lambda>r. (nw_created_at r, nw_snapshot_id r)) (filter (\<lambda>r. nw_config_hash r = config_hash) (db_snapshots db))))"

fun changes_from_rows :: "'j config_codec \<Rightarrow> 'j change_row list \<Rightarrow> RuntimeConfigChange list config_result" where
  "changes_from_rows P [] = Inr []"
| "changes_from_rows P (r # rs) =
     bind_config (change_from_row P r) (\<lambda>c. bind_config (changes_from_rows P rs) (\<lambda>cs. Inr (c # cs)))"

definition list_changes :: "'j config_codec \<Rightarrow> 'j config_db \<Rightarrow> RuntimeConfigScope \<Rightarrow> RuntimeConfigChange list config_result" where
  "list_changes P db scope =
     changes_from_rows P (change_order (filter (\<lambda>r. cw_scope r = scope_values scope) (db_changes db)))"

end
