(* ===== verification/Config_Service.thy ===== *)
theory Config_Service
  imports Config_Store
begin

text \<open>
  Patches (\<open>runtime_config/mutation_service.py\<close>): validating a patch against the base layers, and applying it, which writes
  the change, then the snapshot, and then publishes; what was written before an exception stays.
\<close>

section \<open>State and surroundings\<close>

record 'j config_service =
  cs_db :: "'j config_db"
  cs_bus :: "InMemoryRuntimeConfigBus option"
  cs_registry :: RuntimeConfigRegistry
  cs_base_layers :: "RuntimeConfigLayer list"

text \<open>The digest of a configuration, the readings of the clock and the identifiers one call draws.\<close>

record config_env =
  ce_digest :: "json \<Rightarrow> string"
  ce_clock :: "nat \<Rightarrow> datetime"
  ce_change_id :: string
  ce_event_id :: string

section \<open>Validating a patch\<close>

definition runtime_patch_layer :: "RuntimeConfigScope \<Rightarrow> string \<Rightarrow> payload \<Rightarrow> RuntimeConfigLayer" where
  "runtime_patch_layer scope patch_id vs =
     \<lparr>la_source = \<lparr>so_source_id = ''runtime_patch:'' @ patch_id, so_kind = Kind_runtime_patch, so_scope = scope,
        so_priority = 80\<rparr>, la_values = vs\<rparr>"

definition resolve_base :: "config_env \<Rightarrow> nat \<Rightarrow> 'j config_service \<Rightarrow> RuntimeConfigScope \<Rightarrow> EffectiveRuntimeConfig config_result" where
  "resolve_base env n sv scope = resolve (ce_digest env) (ce_clock env n) (cs_registry sv) scope (cs_base_layers sv)"

definition resolve_candidate ::
  "config_env \<Rightarrow> nat \<Rightarrow> 'j config_service \<Rightarrow> RuntimeConfigScope \<Rightarrow> string \<Rightarrow> payload \<Rightarrow> EffectiveRuntimeConfig config_result" where
  "resolve_candidate env n sv scope patch_id vs =
     resolve (ce_digest env) (ce_clock env n) (cs_registry sv) scope (cs_base_layers sv @ [runtime_patch_layer scope patch_id vs])"

definition normalize_patch_value ::
  "config_env \<Rightarrow> 'j config_service \<Rightarrow> RuntimeConfigScope \<Rightarrow> string \<Rightarrow> json \<Rightarrow> string \<Rightarrow> json config_result" where
  "normalize_patch_value env sv scope key v patch_id =
     bind_config (resolve (ce_digest env) (ce_clock env 1) (cs_registry sv) scope [runtime_patch_layer scope patch_id [(key, v)]])
       (\<lambda>config. case dict_get (ec_values config) key of
          None \<Rightarrow> Inl (ConfigRaised (KeyError (Msg ''{}'' [key]))) | Some e \<Rightarrow> Inr (ev_value e))"

definition rejection :: "RuntimeConfigRejectionCode \<Rightarrow> msg \<Rightarrow> payload \<Rightarrow> RuntimeConfigRejection" where
  "rejection code message details = \<lparr>rj_code = code, rj_message = message, rj_details = details\<rparr>"

definition durable_levels :: "RuntimeConfigScopeLevel list" where
  "durable_levels = [Level_global, Level_workspace, Level_session, Level_task]"

text \<open>The four collections the loop over the values fills.\<close>

record patch_check =
  pk_requested :: payload
  pk_redacted :: "string list"
  pk_accepted :: payload
  pk_rejected :: "(string, RuntimeConfigRejection) dict"

definition reject_key :: "string \<Rightarrow> RuntimeConfigRejection \<Rightarrow> patch_check \<Rightarrow> patch_check" where
  "reject_key k r st = st\<lparr>pk_rejected := dict_set (pk_rejected st) k r\<rparr>"

definition redacted_value :: json where
  "redacted_value = JStr ''<redacted>''"

definition check_value ::
  "config_env \<Rightarrow> 'j config_service \<Rightarrow> RuntimeConfigPatch \<Rightarrow> string \<Rightarrow> json \<Rightarrow> patch_check \<Rightarrow> patch_check config_result" where
  "check_value env sv p k raw st =
     (case registry_get (cs_registry sv) k of
        Inl e \<Rightarrow> Inr (reject_key k (rejection Reject_unknown_key (Msg ''Unknown runtime config key: {}'' [k]) [(''key'', JStr k)]) st)
      | Inr key \<Rightarrow>
          (let level = sc_level (cp_scope p)
           in if level \<notin> set durable_levels
              then Inr (reject_key k (rejection Reject_unsupported_scope
                     (Msg ''Runtime config patches for scope {!r} are not durable in C5.'' [level_str level])
                     [(''scopeLevel'', JStr (level_str level))]) st)
              else if level \<notin> set (ck_scope_levels key)
              then Inr (reject_key k (rejection Reject_unsupported_scope
                     (Msg ''Runtime config key {!r} does not support scope {!r}.'' [k, level_str level])
                     [(''scopeLevel'', JStr (level_str level)),
                      (''supportedScopeLevels'', JArr (map (\<lambda>l. JStr (level_str l)) (ck_scope_levels key)))]) st)
              else if ck_secret key
              then Inr (reject_key k (rejection Reject_secret_not_patchable
                     (Msg ''Secrets are owned by the Settings secret boundary.'' []) [(''redacted'', JBool True)])
                     (st\<lparr>pk_requested := dict_set (pk_requested st) k redacted_value, pk_redacted := pk_redacted st @ [k]\<rparr>))
              else case normalize_patch_value env sv (cp_scope p) k raw (cp_patch_id p) of
                     Inr v \<Rightarrow> Inr (st\<lparr>pk_accepted := dict_set (pk_accepted st) k v\<rparr>)
                   | Inl (RuntimeConfigResolverError m) \<Rightarrow>
                       Inr (reject_key k (rejection Reject_invalid_value m [(''key'', JStr k)]) st)
                   | Inl e \<Rightarrow> Inl e))"

fun check_values ::
  "config_env \<Rightarrow> 'j config_service \<Rightarrow> RuntimeConfigPatch \<Rightarrow> payload \<Rightarrow> patch_check \<Rightarrow> patch_check config_result" where
  "check_values env sv p [] st = Inr st"
| "check_values env sv p ((k, raw) # rest) st = bind_config (check_value env sv p k raw st) (check_values env sv p rest)"

text \<open>\<open>RuntimeConfigChange(...)\<close> of a patch, with the fields that depend on the outcome as arguments.\<close>

definition change_for ::
  "config_env \<Rightarrow> RuntimeConfigPatch \<Rightarrow> string \<Rightarrow> RuntimeConfigChangeStatus \<Rightarrow> patch_check \<Rightarrow> string option
     \<Rightarrow> (string, RuntimeConfigEffectiveStatus) dict \<Rightarrow> RuntimeConfigChange config_result" where
  "change_for env p base_hash status st resulting statuses =
     RuntimeConfigChange_validate
       \<lparr>ch_change_id = ''runtime_config_change:'' @ ce_change_id env, ch_patch_id = cp_patch_id p,
        ch_idempotency_key = cp_idempotency_key p, ch_scope = cp_scope p, ch_actor = cp_actor p, ch_reason = cp_reason p,
        ch_status = status, ch_requested_values = pk_requested st, ch_accepted_values = pk_accepted st,
        ch_rejected_values = pk_rejected st, ch_redacted_keys = pk_redacted st, ch_base_config_hash = base_hash,
        ch_resulting_config_hash = resulting, ch_effective_status_by_key = statuses, ch_created_at = cp_requested_at p\<rparr>"

definition rejected_change ::
  "config_env \<Rightarrow> RuntimeConfigPatch \<Rightarrow> string \<Rightarrow> patch_check \<Rightarrow> RuntimeConfigChange config_result" where
  "rejected_change env p base_hash st = change_for env p base_hash Change_rejected (st\<lparr>pk_accepted := []\<rparr>) None []"

definition json_equivalent :: "json \<Rightarrow> json \<Rightarrow> bool" where
  "json_equivalent a b \<longleftrightarrow> canon a = canon b"

definition patch_is_no_op :: "EffectiveRuntimeConfig \<Rightarrow> payload \<Rightarrow> bool" where
  "patch_is_no_op base accepted \<longleftrightarrow> list_all (\<lambda>(k, v). case dict_get (ec_values base) k of
     None \<Rightarrow> False | Some e \<Rightarrow> json_equivalent (ev_value e) v) accepted"

definition stale_rejections :: "string \<Rightarrow> string \<Rightarrow> payload \<Rightarrow> (string, RuntimeConfigRejection) dict" where
  "stale_rejections expected current requested =
     map (\<lambda>(k, v). (k, rejection Reject_stale_base_config
       (Msg ''Patch base config hash does not match current effective config.'' [])
       [(''expectedBaseConfigHash'', JStr expected), (''currentBaseConfigHash'', JStr current)])) requested"

definition denied_rejection :: "string \<Rightarrow> RuntimeConfigRejection" where
  "denied_rejection k = rejection Reject_policy_denied (Msg
     ''Runtime config patch was rejected because partial acceptance is disabled and another key failed validation.'' [])
     [(''key'', JStr k), (''partialAcceptance'', JBool False)]"

text \<open>What follows the loop.\<close>

definition conclude_patch ::
  "config_env \<Rightarrow> 'j config_service \<Rightarrow> RuntimeConfigPatch \<Rightarrow> EffectiveRuntimeConfig \<Rightarrow> patch_check \<Rightarrow> RuntimeConfigChange config_result" where
  "conclude_patch env sv p base st =
     (let base_hash = ec_config_hash base
      in if pk_accepted st = [] then rejected_change env p base_hash st
         else if pk_rejected st \<noteq> [] \<and> \<not> cp_allow_partial_acceptance p
         then rejected_change env p base_hash (st\<lparr>pk_rejected := dict_merge (pk_rejected st)
                (map (\<lambda>(k, v). (k, denied_rejection k)) (pk_accepted st))\<rparr>)
         else if pk_rejected st = [] \<and> patch_is_no_op base (pk_accepted st)
         then change_for env p base_hash Change_no_op (st\<lparr>pk_accepted := []\<rparr>) (Some base_hash) []
         else bind_config (resolve_candidate env 2 sv (cp_scope p) (cp_patch_id p) (pk_accepted st)) (\<lambda>candidate.
              change_for env p base_hash Change_accepted st (Some (ec_config_hash candidate))
                (map (\<lambda>(k, v). (k, ev_effective_status (the (dict_get (ec_values candidate) k)))) (pk_accepted st))))"

definition validate_patch :: "config_env \<Rightarrow> 'j config_service \<Rightarrow> RuntimeConfigPatch \<Rightarrow> RuntimeConfigChange config_result" where
  "validate_patch env sv p =
     bind_config (resolve_base env 0 sv (cp_scope p)) (\<lambda>base.
     let start = \<lparr>pk_requested = cp_values p, pk_redacted = [], pk_accepted = [], pk_rejected = []\<rparr>
     in case cp_expected_base_config_hash p of
          Some h \<Rightarrow>
            if h \<noteq> ec_config_hash base
            then rejected_change env p (ec_config_hash base)
                   (start\<lparr>pk_rejected := stale_rejections h (ec_config_hash base) (cp_values p)\<rparr>)
            else bind_config (check_values env sv p (cp_values p) start) (conclude_patch env sv p base)
        | None \<Rightarrow> bind_config (check_values env sv p (cp_values p) start) (conclude_patch env sv p base))"

section \<open>Applying a patch\<close>

definition snapshot_for_change ::
  "config_env \<Rightarrow> 'j config_service \<Rightarrow> RuntimeConfigChange \<Rightarrow> RuntimeConfigSnapshotRecord option config_result" where
  "snapshot_for_change env sv c =
     (case ch_status c of
        Change_rejected \<Rightarrow> Inr None
      | status \<Rightarrow>
          bind_config (if status = Change_no_op then resolve_base env 3 sv (ch_scope c)
                       else resolve_candidate env 3 sv (ch_scope c) (ch_patch_id c) (ch_accepted_values c)) (\<lambda>config.
          bind_config (RuntimeConfigSnapshotRecord_validate
            \<lparr>sn_snapshot_id = ''runtime_config_snapshot:'' @ ch_change_id c, sn_config_hash = ec_config_hash config,
             sn_scope = ch_scope c, sn_effective_config = config, sn_created_by_change_id = Some (ch_change_id c),
             sn_created_at = ce_clock env 4\<rparr>) (\<lambda>s. Inr (Some s))))"

text \<open>The writes of \<open>apply_patch\<close>, in their order; what was written before an exception stays.\<close>

definition announce_change ::
  "config_env \<Rightarrow> 'j config_service \<Rightarrow> RuntimeConfigChange \<Rightarrow> RuntimeConfigChange config_result \<times> 'j config_service" where
  "announce_change env sv c =
     (case cs_bus sv of
        None \<Rightarrow> (Inr c, sv)
      | Some b \<Rightarrow>
          if ch_status c \<noteq> Change_accepted then (Inr c, sv)
          else case publish_change (ce_event_id env) (ce_clock env 5) b c of
                 (Inl e, b') \<Rightarrow> (Inl e, sv\<lparr>cs_bus := Some b'\<rparr>)
               | (Inr p, b') \<Rightarrow> (Inr c, sv\<lparr>cs_bus := Some b'\<rparr>))"

definition record_snapshot ::
  "'j config_codec \<Rightarrow> config_env \<Rightarrow> 'j config_service \<Rightarrow> RuntimeConfigChange \<Rightarrow> RuntimeConfigChange config_result \<times> 'j config_service" where
  "record_snapshot P env sv c =
     (case snapshot_for_change env sv c of
        Inl e \<Rightarrow> (Inl e, sv)
      | Inr None \<Rightarrow> announce_change env sv c
      | Inr (Some s) \<Rightarrow>
          (case save_snapshot P (cs_db sv) s of
             Inl e \<Rightarrow> (Inl e, sv)
           | Inr db \<Rightarrow> announce_change env (sv\<lparr>cs_db := db\<rparr>) c))"

definition record_change ::
  "'j config_codec \<Rightarrow> config_env \<Rightarrow> 'j config_service \<Rightarrow> RuntimeConfigChange \<Rightarrow> RuntimeConfigChange config_result \<times> 'j config_service" where
  "record_change P env sv c =
     (case append_change P (cs_db sv) c of
        Inl e \<Rightarrow> (Inl e, sv)
      | Inr db \<Rightarrow> record_snapshot P env (sv\<lparr>cs_db := db\<rparr>) c)"

definition apply_fresh ::
  "'j config_codec \<Rightarrow> config_env \<Rightarrow> 'j config_service \<Rightarrow> RuntimeConfigPatch \<Rightarrow> RuntimeConfigChange config_result \<times> 'j config_service" where
  "apply_fresh P env sv p =
     (case validate_patch env sv p of
        Inl e \<Rightarrow> (Inl e, sv)
      | Inr c \<Rightarrow> if cp_dry_run p then (Inr c, sv) else record_change P env sv c)"

definition apply_patch ::
  "'j config_codec \<Rightarrow> config_env \<Rightarrow> 'j config_service \<Rightarrow> RuntimeConfigPatch \<Rightarrow> RuntimeConfigChange config_result \<times> 'j config_service" where
  "apply_patch P env sv p =
     (case cp_idempotency_key p of
        None \<Rightarrow> apply_fresh P env sv p
      | Some k \<Rightarrow>
          (case get_change_by_idempotency_key P (cs_db sv) k (cp_scope p) of
             Inl e \<Rightarrow> (Inl e, sv)
           | Inr (Some existing) \<Rightarrow> (Inr existing, sv)
           | Inr None \<Rightarrow> apply_fresh P env sv p))"

end
