(* ===== verification/Config_Patch.thy ===== *)
theory Config_Patch
  imports Config_Exact Config_Service
begin

text \<open>
  What a patch may set: the loop over its values accepts exactly the values of registered, patchable keys that have the key's type,
  and where the value of a secret is redacted.
\<close>

section \<open>Which values a patch may set\<close>

definition scope_supported :: "RuntimeConfigScopeLevel \<Rightarrow> RuntimeConfigKey \<Rightarrow> bool" where
  "scope_supported level key \<longleftrightarrow> level \<in> set durable_levels \<and> level \<in> set (ck_scope_levels key)"

text \<open>The value a request for a key is accepted with: the key is registered, supports the scope and is no secret, and the value
  has its type.\<close>

definition patch_outcome :: "RuntimeConfigRegistry \<Rightarrow> RuntimeConfigScopeLevel \<Rightarrow> string \<Rightarrow> json \<Rightarrow> json option" where
  "patch_outcome reg level k raw =
     (case dict_get reg k of
        None \<Rightarrow> None
      | Some key \<Rightarrow> if scope_supported level key \<and> \<not> ck_secret key
                   then (case normalize_value key raw of Inl e \<Rightarrow> None | Inr v \<Rightarrow> Some v) else None)"

lemma defaults_apply:
  "registry_ok reg \<Longrightarrow> (\<exists>defaults. apply_defaults (registry_all reg) [] = Inr defaults) \<longleftrightarrow> defaults_typed reg"
  by (simp add: apply_defaults_typed registry_all_keys defaults_typed_def)

lemma resolve_one_layer:
  assumes "registry_ok reg" "defaults_typed reg" "dict_get reg k = Some key"
  shows "bind_config (resolve digest now reg scope [\<lparr>la_source = src, la_values = [(k, raw)]\<rparr>])
      (\<lambda>config. case dict_get (ec_values config) k of
         None \<Rightarrow> Inl (ConfigRaised (KeyError (Msg ''{}'' [k]))) | Some e \<Rightarrow> Inr (ev_value e)) = normalize_value key raw"
proof -
  obtain defaults where "apply_defaults (registry_all reg) [] = Inr defaults"
    using assms(2) defaults_apply [OF assms(1)] by blast
  moreover have "registry_get reg k = Inr key" using assms(3) by (simp add: registry_get_def)
  ultimately show ?thesis
    by (cases "normalize_value key raw") (simp_all add: resolve_def Let_def effective_value_def)
qed

lemma normalize_patch_value_key:
  assumes "registry_ok (cs_registry sv)" "defaults_typed (cs_registry sv)" "dict_get (cs_registry sv) k = Some key"
  shows "normalize_patch_value env sv scope k raw patch_id = normalize_value key raw"
  unfolding normalize_patch_value_def runtime_patch_layer_def using resolve_one_layer [OF assms] .

lemma check_value_outcome:
  assumes "registry_ok (cs_registry sv)" "defaults_typed (cs_registry sv)" "check_value env sv p k raw st = Inr st'"
  defines "outcome \<equiv> patch_outcome (cs_registry sv) (sc_level (cp_scope p)) k raw"
  shows "pk_accepted st' = (case outcome of None \<Rightarrow> pk_accepted st | Some v \<Rightarrow> dict_set (pk_accepted st) k v)"
    "dom (dict_get (pk_rejected st')) = dom (dict_get (pk_rejected st)) \<union> (if outcome = None then {k} else {})"
    "dom (dict_get (pk_requested st')) \<subseteq> dom (dict_get (pk_requested st)) \<union> {k}"
proof -
  have "pk_accepted st' = (case outcome of None \<Rightarrow> pk_accepted st | Some v \<Rightarrow> dict_set (pk_accepted st) k v)
     \<and> dom (dict_get (pk_rejected st')) = dom (dict_get (pk_rejected st)) \<union> (if outcome = None then {k} else {})
     \<and> dom (dict_get (pk_requested st')) \<subseteq> dom (dict_get (pk_requested st)) \<union> {k}"
  proof (cases "dict_get (cs_registry sv) k")
    case None
    then show ?thesis
      using assms(3) by (auto simp: check_value_def registry_get_def outcome_def patch_outcome_def reject_key_def)
  next
    case (Some key)
    note norm = normalize_patch_value_key [OF assms(1,2) Some]
    show ?thesis
    proof (cases "scope_supported (sc_level (cp_scope p)) key \<and> \<not> ck_secret key")
      case True
      then show ?thesis
        using assms(3) Some
        by (auto simp: check_value_def registry_get_def outcome_def patch_outcome_def reject_key_def scope_supported_def norm Let_def
            split: sum.splits config_error.splits)
    next
      case False
      then show ?thesis
        using assms(3) Some
        by (auto simp: check_value_def registry_get_def outcome_def patch_outcome_def reject_key_def scope_supported_def Let_def
            split: if_splits)
    qed
  qed
  then show "pk_accepted st' = (case outcome of None \<Rightarrow> pk_accepted st | Some v \<Rightarrow> dict_set (pk_accepted st) k v)"
    "dom (dict_get (pk_rejected st')) = dom (dict_get (pk_rejected st)) \<union> (if outcome = None then {k} else {})"
    "dom (dict_get (pk_requested st')) \<subseteq> dom (dict_get (pk_requested st)) \<union> {k}" by blast+
qed

text \<open>What the loop leaves.\<close>

lemma check_values_outcome:
  assumes "registry_ok (cs_registry sv)" "defaults_typed (cs_registry sv)"
  shows "\<lbrakk>check_values env sv p vs st = Inr st'; dict_ok vs\<rbrakk> \<Longrightarrow>
    (\<forall>k. dict_get (pk_accepted st') k = (case dict_get vs k of
       None \<Rightarrow> dict_get (pk_accepted st) k
     | Some raw \<Rightarrow> (case patch_outcome (cs_registry sv) (sc_level (cp_scope p)) k raw of
         None \<Rightarrow> dict_get (pk_accepted st) k | Some v \<Rightarrow> Some v)))
    \<and> (\<forall>k. dict_get (pk_rejected st') k \<noteq> None \<longleftrightarrow> dict_get (pk_rejected st) k \<noteq> None
         \<or> (\<exists>raw. dict_get vs k = Some raw \<and> patch_outcome (cs_registry sv) (sc_level (cp_scope p)) k raw = None))
    \<and> (dict_ok (pk_accepted st) \<longrightarrow> dict_ok (pk_accepted st'))"
proof (induction vs arbitrary: st)
  case (Cons e rest)
  obtain k raw where e: "e = (k, raw)" by (cases e)
  obtain mid where mid: "check_value env sv p k raw st = Inr mid" "check_values env sv p rest mid = Inr st'"
    using Cons.prems(1) by (auto simp: e elim: bind_config_InrE)
  have fresh: "dict_get rest k = None" "dict_ok rest" using Cons.prems(2) by (auto simp: e map_of_eq_None_iff)
  note step = check_value_outcome [OF assms mid(1)]
  have rej: "dict_get (pk_rejected mid) i \<noteq> None \<longleftrightarrow> dict_get (pk_rejected st) i \<noteq> None
      \<or> i = k \<and> patch_outcome (cs_registry sv) (sc_level (cp_scope p)) k raw = None" for i
    using step(2) by (auto simp: dom_def split: if_splits)
  note ih = Cons.IH [OF mid(2) fresh(2)]
  have "dict_get (pk_accepted st') i = (case dict_get (e # rest) i of
       None \<Rightarrow> dict_get (pk_accepted st) i
     | Some raw \<Rightarrow> (case patch_outcome (cs_registry sv) (sc_level (cp_scope p)) i raw of
         None \<Rightarrow> dict_get (pk_accepted st) i | Some v \<Rightarrow> Some v))" for i
    using conjunct1 [OF ih, rule_format, of i] step(1) fresh(1)
    by (cases "i = k") (auto simp: e split: option.splits)
  moreover have "dict_get (pk_rejected st') i \<noteq> None \<longleftrightarrow> dict_get (pk_rejected st) i \<noteq> None
       \<or> (\<exists>raw. dict_get (e # rest) i = Some raw \<and> patch_outcome (cs_registry sv) (sc_level (cp_scope p)) i raw = None)" for i
    using ih rej [of i] fresh(1) by (cases "i = k") (auto simp: e)
  moreover have "dict_ok (pk_accepted st) \<longrightarrow> dict_ok (pk_accepted st')"
    using ih step(1) by (auto split: option.splits)
  ultimately show ?case by blast
qed simp

lemma RuntimeConfigChange_validate_Inr: "RuntimeConfigChange_validate c = Inr d \<longleftrightarrow> RuntimeConfigChange_ok c \<and> d = c"
  by (auto simp: RuntimeConfigChange_validate_def)

text \<open>A patch that gets past the hash runs the loop.\<close>

definition patch_start :: "RuntimeConfigPatch \<Rightarrow> patch_check" where
  "patch_start p = \<lparr>pk_requested = cp_values p, pk_redacted = [], pk_accepted = [], pk_rejected = []\<rparr>"

definition stale_patch :: "RuntimeConfigPatch \<Rightarrow> EffectiveRuntimeConfig \<Rightarrow> bool" where
  "stale_patch p base \<longleftrightarrow> (case cp_expected_base_config_hash p of None \<Rightarrow> False | Some h \<Rightarrow> h \<noteq> ec_config_hash base)"

lemma validate_patch_cases:
  assumes "validate_patch env sv p = Inr c"
  obtains base where "resolve_base env 0 sv (cp_scope p) = Inr base" "stale_patch p base"
      "rejected_change env p (ec_config_hash base) ((patch_start p)\<lparr>pk_rejected :=
         stale_rejections (the (cp_expected_base_config_hash p)) (ec_config_hash base) (cp_values p)\<rparr>) = Inr c"
    | base st where "resolve_base env 0 sv (cp_scope p) = Inr base" "\<not> stale_patch p base"
      "check_values env sv p (cp_values p) (patch_start p) = Inr st" "conclude_patch env sv p base st = Inr c"
  using assms
  by (auto simp: validate_patch_def stale_patch_def patch_start_def Let_def elim!: bind_config_InrE split: option.splits if_splits)

lemma resolve_base_typed:
  assumes "registry_ok (cs_registry sv)" "resolve_base env n sv scope = Inr base"
  shows "well_typed (cs_registry sv) (cs_base_layers sv)" "defaults_typed (cs_registry sv)"
proof -
  have "\<exists>c. resolve (ce_digest env) (ce_clock env n) (cs_registry sv) scope (cs_base_layers sv) = Inr c"
    using assms(2) by (simp add: resolve_base_def)
  then show "well_typed (cs_registry sv) (cs_base_layers sv)" by (simp only: resolve_total [OF assms(1)])
  then show "defaults_typed (cs_registry sv)" by (simp add: well_typed_def)
qed

lemma accepted_change_cases:
  assumes "conclude_patch env sv p base st = Inr c" "ch_status c = Change_accepted"
  obtains candidate where "resolve_candidate env 2 sv (cp_scope p) (cp_patch_id p) (pk_accepted st) = Inr candidate"
    "ch_accepted_values c = pk_accepted st" "ch_rejected_values c = pk_rejected st" "pk_accepted st \<noteq> []"
    "pk_rejected st = [] \<or> cp_allow_partial_acceptance p" "ch_base_config_hash c = ec_config_hash base"
    "ch_resulting_config_hash c = Some (ec_config_hash candidate)" "ch_scope c = cp_scope p" "ch_patch_id c = cp_patch_id p"
    "ch_effective_status_by_key c = map (\<lambda>(k, v). (k, ev_effective_status (the (dict_get (ec_values candidate) k)))) (pk_accepted st)"
  using assms
  by (auto simp: conclude_patch_def Let_def rejected_change_def change_for_def RuntimeConfigChange_validate_Inr
      elim!: bind_config_InrE split: if_splits)

text \<open>What is kept of the requested values.\<close>

definition redacts :: "RuntimeConfigRegistry \<Rightarrow> RuntimeConfigScopeLevel \<Rightarrow> string \<Rightarrow> bool" where
  "redacts reg level k \<longleftrightarrow> (case dict_get reg k of None \<Rightarrow> False | Some key \<Rightarrow> scope_supported level key \<and> ck_secret key)"

lemma check_value_requested:
  assumes "check_value env sv p k raw st = Inr st'"
  shows "pk_requested st' = (if redacts (cs_registry sv) (sc_level (cp_scope p)) k
      then dict_set (pk_requested st) k redacted_value else pk_requested st)"
    "pk_redacted st' = (if redacts (cs_registry sv) (sc_level (cp_scope p)) k then pk_redacted st @ [k] else pk_redacted st)"
  using assms
  by (auto simp: check_value_def registry_get_def redacts_def scope_supported_def reject_key_def Let_def
      split: option.splits if_splits sum.splits config_error.splits)

lemma check_values_requested:
  "\<lbrakk>check_values env sv p vs st = Inr st'; dict_ok vs\<rbrakk> \<Longrightarrow>
   dict_get (pk_requested st') k = (if dict_get vs k \<noteq> None \<and> redacts (cs_registry sv) (sc_level (cp_scope p)) k
     then Some redacted_value else dict_get (pk_requested st) k)"
proof (induction vs arbitrary: st)
  case (Cons e rest)
  obtain i raw where e: "e = (i, raw)" by (cases e)
  obtain mid where mid: "check_value env sv p i raw st = Inr mid" "check_values env sv p rest mid = Inr st'"
    using Cons.prems(1) by (auto simp: e elim: bind_config_InrE)
  have "dict_get rest i = None" "dict_ok rest" using Cons.prems(2) by (auto simp: e map_of_eq_None_iff)
  then show ?case
    using Cons.IH [OF mid(2)] check_value_requested(1) [OF mid(1)] by (cases "k = i") (auto simp: e)
qed simp

lemma conclude_patch_requested: "conclude_patch env sv p base st = Inr c \<Longrightarrow> ch_requested_values c = pk_requested st"
  by (auto simp: conclude_patch_def Let_def rejected_change_def change_for_def RuntimeConfigChange_validate_Inr
      elim!: bind_config_InrE split: if_splits)

lemma conclude_patch_accepted:
  "conclude_patch env sv p base st = Inr c \<Longrightarrow> ch_accepted_values c = [] \<or> ch_accepted_values c = pk_accepted st"
  by (auto simp: conclude_patch_def Let_def rejected_change_def change_for_def RuntimeConfigChange_validate_Inr
      elim!: bind_config_InrE split: if_splits)

text \<open>A registry with a plain and a secret key, a service over a layer, and patches.\<close>

definition sample_config_registry :: RuntimeConfigRegistry where
  "sample_config_registry =
     [(''loop.steps'', config_key ''loop.steps'' ''loop'' Type_int (JInt 20) [Level_global, Level_workspace] Mut_next_agent_run
        [Kind_built_in_default] False ''Maximum steps.''),
      (''llm.token'', (config_key ''llm.token'' ''llm'' Type_string (JStr []) [Level_global] Mut_next_llm_call
        [Kind_settings_store] False ''Access token.'')\<lparr>ck_secret := True\<rparr>)]"

lemma sample_config_registry_ok: "registry_ok sample_config_registry"
  by (simp add: registry_ok_def sample_config_registry_def config_key_def)

definition sample_config_service :: "RuntimeConfigLayer list \<Rightarrow> 'j config_service" where
  "sample_config_service layers = \<lparr>cs_db = empty_config_db, cs_bus = None, cs_registry = sample_config_registry,
     cs_base_layers = layers\<rparr>"

definition sample_config_env :: config_env where
  "sample_config_env = \<lparr>ce_digest = (\<lambda>j. ''sha256''), ce_clock = (\<lambda>n. Datetime 2025 1 1 0 0 n 0),
     ce_change_id = ''1'', ce_event_id = ''1''\<rparr>"

definition sample_patch :: "string option \<Rightarrow> RuntimeConfigPatch" where
  "sample_patch expected = \<lparr>cp_patch_id = ''p'', cp_idempotency_key = Some ''k'', cp_scope = level_scope Level_global,
     cp_actor = \<lparr>ac_actor_type = Actor_user, ac_actor_id = None, ac_display_name = None\<rparr>, cp_reason = None,
     cp_values = [(''loop.steps'', JInt 30), (''llm.token'', JStr ''sk-1'')], cp_expected_base_config_hash = expected,
     cp_dry_run = False, cp_allow_partial_acceptance = True, cp_requested_at = Datetime 2025 1 1 0 0 0 0\<rparr>"

section \<open>Properties\<close>

text \<open>C18. What an accepted patch changes: its accepted values are exactly the requested ones whose key is registered, supports the
  scope of the patch, is no secret, and whose value has the key's type, normalized; the rest is rejected, which without partial
  acceptance is nothing; and the resulting hash is that of the base layers with a layer of the accepted values on top. Neither the
  actor nor the mutability of a key has a say: a \<open>migration_only\<close> key is patched by any actor, which the design documents
  forbid.\<close>

theorem patch_accepts_exactly:
  assumes "registry_ok (cs_registry sv)" "dict_ok (cp_values p)"
    and "validate_patch env sv p = Inr c" "ch_status c = Change_accepted"
  shows "(\<forall>k. dict_get (ch_accepted_values c) k =
       Option.bind (dict_get (cp_values p) k) (patch_outcome (cs_registry sv) (sc_level (cp_scope p)) k))
     \<and> (\<forall>k. dict_get (ch_rejected_values c) k \<noteq> None \<longleftrightarrow>
         dict_get (cp_values p) k \<noteq> None \<and> dict_get (ch_accepted_values c) k = None)
     \<and> (ch_rejected_values c = [] \<or> cp_allow_partial_acceptance p)
     \<and> map_option ec_config_hash (case resolve_candidate env 2 sv (cp_scope p) (cp_patch_id p) (ch_accepted_values c) of
         Inl e \<Rightarrow> None | Inr candidate \<Rightarrow> Some candidate) = ch_resulting_config_hash c"
  using assms(3)
proof (cases rule: validate_patch_cases)
  case (1 base)
  then show ?thesis using assms(4) by (auto simp: rejected_change_def change_for_def RuntimeConfigChange_validate_Inr)
next
  case (2 base st)
  have "defaults_typed (cs_registry sv)" using resolve_base_typed(2) [OF assms(1) 2(1)] .
  note loop = check_values_outcome [OF assms(1) this 2(3) assms(2)]
  from 2(4) assms(4) show ?thesis
  proof (rule accepted_change_cases)
    fix candidate
    assume cand: "resolve_candidate env 2 sv (cp_scope p) (cp_patch_id p) (pk_accepted st) = Inr candidate"
      and out: "ch_accepted_values c = pk_accepted st" "ch_rejected_values c = pk_rejected st"
        "pk_rejected st = [] \<or> cp_allow_partial_acceptance p" "ch_resulting_config_hash c = Some (ec_config_hash candidate)"
    have acc: "dict_get (ch_accepted_values c) k =
       Option.bind (dict_get (cp_values p) k) (patch_outcome (cs_registry sv) (sc_level (cp_scope p)) k)" for k
      using conjunct1 [OF loop, rule_format, of k] by (simp add: out patch_start_def split: option.splits)
    have "dict_get (pk_rejected st) k \<noteq> None \<longleftrightarrow>
        (\<exists>raw. dict_get (cp_values p) k = Some raw \<and> patch_outcome (cs_registry sv) (sc_level (cp_scope p)) k raw = None)" for k
      using conjunct1 [OF conjunct2 [OF loop], rule_format, of k] by (simp add: patch_start_def)
    then have "dict_get (ch_rejected_values c) k \<noteq> None \<longleftrightarrow>
         dict_get (cp_values p) k \<noteq> None \<and> dict_get (ch_accepted_values c) k = None" for k
      unfolding acc out(2) by (cases "dict_get (cp_values p) k") simp_all
    with acc out cand show ?thesis by simp
  qed
qed

theorem patch_accepts_exactly_witness:
  "\<exists>c. validate_patch sample_config_env (sample_config_service [] :: unit config_service) (sample_patch None) = Inr c
     \<and> dict_get (ch_accepted_values c) ''loop.steps'' = Some (JInt 30) \<and> dict_get (ch_rejected_values c) ''llm.token'' \<noteq> None"
proof -
  let ?sv = "sample_config_service [] :: unit config_service" and ?p = "sample_patch None"
  have "case validate_patch sample_config_env ?sv ?p of Inl e \<Rightarrow> False | Inr c \<Rightarrow> ch_status c = Change_accepted" by code_simp
  then obtain c where c: "validate_patch sample_config_env ?sv ?p = Inr c" "ch_status c = Change_accepted"
    by (auto split: sum.splits)
  have p: "dict_ok (cp_values ?p)" "dict_get (cp_values ?p) ''loop.steps'' = Some (JInt 30)" "dict_get (cp_values ?p) ''llm.token'' \<noteq> None"
    by (simp_all add: sample_patch_def)
  have outcomes: "patch_outcome (cs_registry ?sv) (sc_level (cp_scope ?p)) ''loop.steps'' (JInt 30) = Some (JInt 30)"
    "patch_outcome (cs_registry ?sv) (sc_level (cp_scope ?p)) ''llm.token'' (JStr ''sk-1'') = None" by code_simp+
  have reg: "registry_ok (cs_registry ?sv)" using sample_config_registry_ok by (simp add: sample_config_service_def)
  note exact = patch_accepts_exactly [OF reg p(1) c]
  have "dict_get (ch_accepted_values c) ''loop.steps'' = Some (JInt 30)"
    using conjunct1 [OF exact, rule_format, of "''loop.steps''"] p(2) outcomes(1) by simp
  moreover have "dict_get (ch_accepted_values c) ''llm.token'' = None"
    using conjunct1 [OF exact, rule_format, of "''llm.token''"] outcomes(2) by (simp add: sample_patch_def)
  ultimately show ?thesis using c(1) exact p(3) by blast
qed

text \<open>C21. Secrets in the ledger: a secret is never among the accepted values, but it is replaced by \<open><redacted>\<close> in the requested
  values only if the patch is not stale and its scope is one the key supports; in every other case the change that is written to
  the ledger holds the secret itself.\<close>

theorem secret_redacted_only_in_scope:
  assumes "registry_ok (cs_registry sv)" "dict_ok (cp_values p)" "validate_patch env sv p = Inr c"
    and "resolve_base env 0 sv (cp_scope p) = Inr base"
    and "dict_get (cs_registry sv) k = Some key" "ck_secret key" "dict_get (cp_values p) k = Some raw"
  shows "dict_get (ch_accepted_values c) k = None
     \<and> dict_get (ch_requested_values c) k =
       Some (if \<not> stale_patch p base \<and> scope_supported (sc_level (cp_scope p)) key then redacted_value else raw)"
  using assms(3)
proof (cases rule: validate_patch_cases)
  case (1 base')
  then show ?thesis
    using assms by (auto simp: rejected_change_def change_for_def RuntimeConfigChange_validate_Inr patch_start_def)
next
  case (2 base' st)
  have "defaults_typed (cs_registry sv)" using resolve_base_typed(2) [OF assms(1) 2(1)] .
  from conjunct1 [OF check_values_outcome [OF assms(1) this 2(3) assms(2)], rule_format, of k]
  have "dict_get (pk_accepted st) k = None" using assms(5-7) by (simp add: patch_outcome_def patch_start_def)
  then have "dict_get (ch_accepted_values c) k = None" using conclude_patch_accepted [OF 2(4)] by auto
  moreover have "dict_get (pk_requested st) k = Some (if scope_supported (sc_level (cp_scope p)) key then redacted_value else raw)"
    using check_values_requested [OF 2(3) assms(2), of k] assms(5-7) by (simp add: redacts_def patch_start_def)
  moreover have "base' = base" using 2(1) assms(4) by simp
  ultimately show ?thesis using 2(2) conclude_patch_requested [OF 2(4)] by simp
qed

theorem secret_redacted_only_in_scope_witness:
  "\<exists>c. validate_patch sample_config_env (sample_config_service [] :: unit config_service) (sample_patch (Some ''old'')) = Inr c
     \<and> dict_get (ch_requested_values c) ''llm.token'' = Some (JStr ''sk-1'')"
proof -
  let ?sv = "sample_config_service [] :: unit config_service" and ?p = "sample_patch (Some ''old'')"
  have "case validate_patch sample_config_env ?sv ?p of Inl e \<Rightarrow> False | Inr c \<Rightarrow> True" by code_simp
  then obtain c where c: "validate_patch sample_config_env ?sv ?p = Inr c" by (auto split: sum.splits)
  have "case resolve_base sample_config_env 0 ?sv (cp_scope ?p) of Inl e \<Rightarrow> False | Inr base \<Rightarrow> stale_patch ?p base" by code_simp
  then obtain base where base: "resolve_base sample_config_env 0 ?sv (cp_scope ?p) = Inr base" "stale_patch ?p base"
    by (auto split: sum.splits)
  obtain key where key: "dict_get (cs_registry ?sv) ''llm.token'' = Some key" "ck_secret key"
    by (simp add: sample_config_service_def sample_config_registry_def)
  have reg: "registry_ok (cs_registry ?sv)" using sample_config_registry_ok by (simp add: sample_config_service_def)
  have p: "dict_ok (cp_values ?p)" "dict_get (cp_values ?p) ''llm.token'' = Some (JStr ''sk-1'')" by (simp_all add: sample_patch_def)
  from secret_redacted_only_in_scope [OF reg p(1) c base(1) key p(2)] show ?thesis using c base(2) by simp
qed

end
