(* ===== verification/Config_Ledger.thy ===== *)
theory Config_Ledger
  imports Config_Patch
begin

text \<open>
  The changes the service writes read back from their rows, up to the order of the keys in the JSON columns; so a patch with an
  idempotency key is applied once in its scope.
\<close>

section \<open>A change reads back\<close>

text \<open>What a row gives back: the same change with the keys of its JSON columns sorted.\<close>

definition canon_rejection :: "RuntimeConfigRejection \<Rightarrow> RuntimeConfigRejection" where
  "canon_rejection r = r\<lparr>rj_details := canon_context (rj_details r)\<rparr>"

definition canon_rejections :: "(string, RuntimeConfigRejection) dict \<Rightarrow> (string, RuntimeConfigRejection) dict" where
  "canon_rejections d = sort_key fst (map (\<lambda>(k, r). (k, canon_rejection r)) d)"

definition canon_change :: "RuntimeConfigChange \<Rightarrow> RuntimeConfigChange" where
  "canon_change c = c\<lparr>ch_requested_values := canon_context (ch_requested_values c),
     ch_accepted_values := canon_context (ch_accepted_values c), ch_rejected_values := canon_rejections (ch_rejected_values c),
     ch_effective_status_by_key := sort_key fst (ch_effective_status_by_key c)\<rparr>"

definition rejections_ok :: "(string, RuntimeConfigRejection) dict \<Rightarrow> bool" where
  "rejections_ok d \<longleftrightarrow> dict_ok d \<and> list_all (\<lambda>(k, r). json_plain (JObj (rj_details r))) d"

definition change_readable :: "RuntimeConfigChange \<Rightarrow> bool" where
  "change_readable c \<longleftrightarrow> RuntimeConfigChange_ok c \<and> json_ok (JObj (ch_requested_values c)) \<and> json_ok (JObj (ch_accepted_values c))
     \<and> rejections_ok (ch_rejected_values c) \<and> dict_ok (ch_effective_status_by_key c) \<and> datetime_ok (ch_created_at c)"

text \<open>What the store relies on: text of \<^verbatim>\<open>json.dumps\<close> reads back with sorted keys (it keeps \<open>nan\<close> and the infinities), Pydantic's
  JSON of actors and of rejections with plain details as they were, a time from its text.\<close>

definition config_codec_ok :: "'j config_codec \<Rightarrow> bool" where
  "config_codec_ok P \<longleftrightarrow>
     (\<forall>j. json_ok j \<longrightarrow> cf_loads P (cf_dumps P j) = Inr (canon j))
     \<and> (\<forall>a. RuntimeConfigActor_ok a \<longrightarrow> cf_load_actor P (cf_dump_actor P a) = Inr a)
     \<and> (\<forall>d. rejections_ok d \<longrightarrow> cf_load_rejections P (cf_dump_rejections P d) = Inr (canon_rejections d))
     \<and> (\<forall>t. datetime_ok t \<longrightarrow> cf_fromisoformat P (isoformat t) = Inr t)"

lemma change_status_roundtrip [simp]: "change_status_of (change_status_str s) = Inr s"
  by (cases s) (simp_all add: change_status_of_def config_literal_def)

lemma level_roundtrip [simp]: "level_of (level_str l) = Inr l"
  by (cases l) (simp_all add: level_of_def config_literal_def)

lemma effective_roundtrip [simp]: "effective_of (effective_str e) = Inr e"
  by (cases e) (simp_all add: effective_of_def config_literal_def)

lemma scope_roundtrip [simp]: "scope_from_row (scope_values s) = Inr s"
  by (simp add: scope_from_row_def scope_values_def)

lemma scope_values_inject [simp]: "scope_values s = scope_values t \<longleftrightarrow> s = t"
  by (metis scope_roundtrip sum.inject(2))

lemma strs_of_JStr [simp]: "strs_of (map JStr ss) = Inr ss"
  by (induction ss) simp_all

lemma statuses_roundtrip:
  "bind_ok (obj_of (canon (statuses_json d))) statuses_of = Inr (sort_key fst d)"
proof -
  let ?f = "\<lambda>(k, s). (k, JStr (effective_str s))"
  have "map ((\<lambda>(k, v). (k, canon v)) \<circ> ?f) d = map ?f d" by auto
  moreover have "sort_key fst (map ?f d) = map ?f (sort_key fst d)" by (simp add: sort_key_map case_prod_beta)
  ultimately have "canon (statuses_json d) = JObj (map ?f (sort_key fst d))" by (simp only: statuses_json_def canon.simps map_map)
  moreover have "statuses_of (map ?f xs) = Inr xs" for xs by (induction xs) auto
  ultimately show ?thesis by simp
qed

lemma statuses_json_ok: "dict_ok d \<Longrightarrow> json_ok (statuses_json d)"
  by (auto simp: statuses_json_def comp_def case_prod_beta list_all_iff)

lemma canon_keys [simp]:
  "fst ` set (canon_context d) = fst ` set d" "canon_context d = [] \<longleftrightarrow> d = []"
  "fst ` set (canon_rejections r) = fst ` set r" "canon_rejections r = [] \<longleftrightarrow> r = []"
  by (auto simp: canon_context_def canon_rejections_def image_image case_prod_beta)

lemma canon_change_ok: "RuntimeConfigChange_ok (canon_change c) \<longleftrightarrow> RuntimeConfigChange_ok c"
  by (simp add: RuntimeConfigChange_ok_def canon_change_def change_status_ok_def list_all_iff cong: RuntimeConfigChangeStatus.case_cong)

lemma change_row_reads:
  assumes "config_codec_ok P" "change_readable c"
  shows "change_from_row P (change_row_of P c) = Inr (canon_change c)"
proof -
  have obj: "cf_loads P (cf_dumps P (JObj d)) = Inr (JObj (canon_context d))" if "json_ok (JObj d)" for d
    using assms(1) that by (simp add: config_codec_ok_def canon_context_def)
  have arr: "cf_loads P (cf_dumps P (JArr (map JStr ss))) = Inr (JArr (map JStr ss))" for ss
    using assms(1) by (simp add: config_codec_ok_def)
  have stat: "cf_loads P (cf_dumps P (statuses_json d)) = Inr (canon (statuses_json d))" if "dict_ok d" for d
    using assms(1) statuses_json_ok [OF that] by (simp add: config_codec_ok_def)
  have ok: "RuntimeConfigChange_validate (canon_change c) = Inr (canon_change c)"
    using assms(2) by (simp add: RuntimeConfigChange_validate_Inr canon_change_ok change_readable_def)
  have columns: "cf_load_rejections P (cf_dump_rejections P (ch_rejected_values c)) = Inr (canon_rejections (ch_rejected_values c))"
    "cf_load_actor P (cf_dump_actor P (ch_actor c)) = Inr (ch_actor c)"
    "cf_loads P (cf_dumps P (JObj (ch_requested_values c))) = Inr (JObj (canon_context (ch_requested_values c)))"
    "cf_loads P (cf_dumps P (JObj (ch_accepted_values c))) = Inr (JObj (canon_context (ch_accepted_values c)))"
    "bind_ok (bind_ok (cf_loads P (cf_dumps P (statuses_json (ch_effective_status_by_key c)))) obj_of) statuses_of =
       Inr (sort_key fst (ch_effective_status_by_key c))"
    "cf_fromisoformat P (isoformat (ch_created_at c)) = Inr (ch_created_at c)"
    using assms obj stat statuses_roundtrip [of "ch_effective_status_by_key c"]
    by (simp_all add: change_readable_def config_codec_ok_def RuntimeConfigChange_ok_def)
  show ?thesis using ok
    by (simp add: change_from_row_def change_row_of_def columns arr del: RuntimeConfigChange.simps)
      (cases c, simp add: canon_change_def)
qed

section \<open>The changes the service writes are readable\<close>

lemma set_dict_set: "set (dict_set d k v) \<subseteq> insert (k, v) (set d)"
  by (induction d) auto

lemma json_ok_set: "\<lbrakk>json_ok (JObj d); json_ok v\<rbrakk> \<Longrightarrow> json_ok (JObj (dict_set d k v))"
  using set_dict_set [of k v d] by (fastforce simp: list_all_iff)

lemma rejections_ok_set: "\<lbrakk>rejections_ok d; json_plain (JObj (rj_details r))\<rbrakk> \<Longrightarrow> rejections_ok (dict_set d k r)"
  using set_dict_set [of k r d] by (fastforce simp: rejections_ok_def list_all_iff)

lemma normalize_value_json_ok: "\<lbrakk>normalize_value key raw = Inr v; json_ok raw\<rbrakk> \<Longrightarrow> json_ok v"
  by (auto simp: normalize_value_def must_be_def elim!: bind_config_InrE
      split: if_splits RuntimeConfigValueType.splits json.splits)

definition check_ok :: "patch_check \<Rightarrow> bool" where
  "check_ok st \<longleftrightarrow> json_ok (JObj (pk_requested st)) \<and> json_ok (JObj (pk_accepted st)) \<and> rejections_ok (pk_rejected st)"

lemma check_ok_steps:
  assumes "check_ok st"
  shows "json_plain (JObj details) \<Longrightarrow> check_ok (reject_key k (rejection code m details) st)"
    "json_ok v \<Longrightarrow> check_ok (st\<lparr>pk_accepted := dict_set (pk_accepted st) k v\<rparr>)"
    "check_ok (st\<lparr>pk_requested := dict_set (pk_requested st) k redacted_value, pk_redacted := ks\<rparr>)"
  using assms json_ok_set [of "pk_accepted st" v k] json_ok_set [of "pk_requested st" redacted_value k]
    rejections_ok_set [of "pk_rejected st" "rejection code m details" k]
  unfolding check_ok_def reject_key_def by (simp_all add: rejection_def redacted_value_def del: json_ok.simps(2) json_plain.simps(3))

lemma check_value_ok:
  assumes "registry_ok (cs_registry sv)" "defaults_typed (cs_registry sv)" "check_value env sv p k raw st = Inr st'"
    and "json_ok raw" "check_ok st"
  shows "check_ok st'"
proof (cases "dict_get (cs_registry sv) k")
  case None
  then show ?thesis using assms(3,5) by (auto simp: check_value_def registry_get_def intro: check_ok_steps)
next
  case (Some key)
  have ok: "json_ok v" if "normalize_patch_value env sv (cp_scope p) k raw (cp_patch_id p) = Inr v" for v
    using that normalize_value_json_ok [OF _ assms(4)] normalize_patch_value_key [OF assms(1,2) Some] by simp
  then show ?thesis
    using assms(3,5) Some
    by (auto simp: check_value_def registry_get_def Let_def list_all_iff intro!: check_ok_steps
        split: if_splits sum.splits config_error.splits)
qed

lemma check_values_ok:
  assumes "registry_ok (cs_registry sv)" "defaults_typed (cs_registry sv)"
  shows "\<lbrakk>check_values env sv p vs st = Inr st'; list_all (\<lambda>(k, v). json_ok v) vs; check_ok st\<rbrakk> \<Longrightarrow> check_ok st'"
proof (induction vs arbitrary: st)
  case (Cons e rest)
  obtain k raw where e: "e = (k, raw)" by (cases e)
  obtain mid where mid: "check_value env sv p k raw st = Inr mid" "check_values env sv p rest mid = Inr st'"
    using Cons.prems(1) by (auto simp: e elim: bind_config_InrE)
  have "check_ok mid" using check_value_ok [OF assms mid(1)] Cons.prems(2,3) by (simp add: e)
  then show ?case using Cons.IH [OF mid(2)] Cons.prems(2) by simp
qed simp

lemma change_for_readable:
  assumes "change_for env p h status st resulting statuses = Inr c" "check_ok st" "dict_ok statuses" "datetime_ok (cp_requested_at p)"
  shows "change_readable c"
  using assms by (auto simp: change_for_def RuntimeConfigChange_validate_Inr change_readable_def check_ok_def)

lemma rejections_ok_merge:
  "\<lbrakk>rejections_ok d; list_all (\<lambda>(k, r). json_plain (JObj (rj_details r))) e\<rbrakk> \<Longrightarrow> rejections_ok (dict_merge d e)"
  unfolding dict_merge_def by (induction e arbitrary: d) (auto intro!: rejections_ok_set simp del: json_plain.simps(3))

lemma validate_patch_readable:
  assumes "registry_ok (cs_registry sv)" "validate_patch env sv p = Inr c" "json_ok (JObj (cp_values p))" "datetime_ok (cp_requested_at p)"
  shows "change_readable c"
  using assms(2)
proof (cases rule: validate_patch_cases)
  case (1 base)
  have "check_ok ((patch_start p)\<lparr>pk_rejected := stale_rejections h h' (cp_values p), pk_accepted := []\<rparr>)" for h h'
    using assms(3)
    by (auto simp: check_ok_def patch_start_def stale_rejections_def rejections_ok_def rejection_def list_all_iff comp_def case_prod_beta)
  then show ?thesis using 1(3) assms(4) unfolding rejected_change_def by (auto intro: change_for_readable)
next
  case (2 base st)
  have "defaults_typed (cs_registry sv)" using resolve_base_typed(2) [OF assms(1) 2(1)] .
  moreover have "check_ok (patch_start p)" using assms(3) by (simp add: check_ok_def patch_start_def rejections_ok_def)
  ultimately have st: "check_ok st" using check_values_ok [OF assms(1) _ 2(3)] assms(3) by simp
  then have cleared: "check_ok (st\<lparr>pk_accepted := []\<rparr>)"
    "check_ok (st\<lparr>pk_rejected := dict_merge (pk_rejected st) (map (\<lambda>(k, v). (k, denied_rejection k)) (pk_accepted st)), pk_accepted := []\<rparr>)"
    by (auto simp: check_ok_def denied_rejection_def rejection_def list_all_iff intro!: rejections_ok_merge)
  have keys: "dict_ok (map (\<lambda>(k, v). (k, f k)) (pk_accepted st))" for f :: "string \<Rightarrow> RuntimeConfigEffectiveStatus"
    using st by (simp add: check_ok_def comp_def case_prod_beta)
  have acc: "change_readable c"
    if "change_for env p h Change_accepted st r (map (\<lambda>(k, v). (k, f k)) (pk_accepted st)) = Inr c" for h r f
    using change_for_readable [OF that st keys assms(4)] .
  show ?thesis
    using 2(4) cleared assms(4)
    by (auto simp: conclude_patch_def Let_def rejected_change_def elim!: bind_config_InrE split: if_splits
        intro: acc change_for_readable)
qed

text \<open>A recorded change is found under its key and scope.\<close>

lemma announce_change_db: "cs_db (snd (announce_change env sv c)) = cs_db sv"
  by (simp add: announce_change_def split: option.split sum.split prod.split)

lemma announce_change_Inr: "fst (announce_change env sv c) = Inr d \<Longrightarrow> d = c"
  by (auto simp: announce_change_def split: option.splits sum.splits prod.splits if_splits)

lemma record_snapshot_changes: "db_changes (cs_db (snd (record_snapshot P env sv c))) = db_changes (cs_db sv)"
  by (auto simp: record_snapshot_def announce_change_db save_snapshot_def split: option.split sum.split)

lemma record_snapshot_Inr: "fst (record_snapshot P env sv c) = Inr d \<Longrightarrow> d = c"
  by (auto simp: record_snapshot_def dest: announce_change_Inr split: option.splits sum.splits)

lemma record_change_Inr:
  assumes "record_change P env sv c = (Inr d, sv')"
  shows "d = c" "db_changes (cs_db sv') = db_changes (cs_db sv) @ [change_row_of P c]"
proof -
  obtain db where db: "append_change P (cs_db sv) c = Inr db" "record_snapshot P env (sv\<lparr>cs_db := db\<rparr>) c = (Inr d, sv')"
    using assms by (auto simp: record_change_def split: sum.splits)
  show "d = c" using db(2) record_snapshot_Inr [of P env "sv\<lparr>cs_db := db\<rparr>" c d] by simp
  have "db_changes (cs_db sv') = db_changes db" using db(2) record_snapshot_changes [of P env "sv\<lparr>cs_db := db\<rparr>" c] by simp
  then show "db_changes (cs_db sv') = db_changes (cs_db sv) @ [change_row_of P c]"
    using db(1) by (auto simp: append_change_def split: if_splits)
qed

lemma no_change_recorded:
  "get_change_by_idempotency_key P db k scope = Inr None \<longleftrightarrow>
   filter (\<lambda>r. cw_idempotency_key r = Some k \<and> cw_scope r = scope_values scope) (db_changes db) = []"
proof -
  let ?rows = "filter (\<lambda>r. cw_idempotency_key r = Some k \<and> cw_scope r = scope_values scope) (db_changes db)"
  show ?thesis
    by (cases "change_order ?rows")
      (auto simp: get_change_by_idempotency_key_def optional_row_def bind_config_def split: sum.splits)
qed

lemma change_recorded:
  assumes "config_codec_ok P" "change_readable c" "ch_idempotency_key c = Some k" "ch_scope c = scope"
    and "get_change_by_idempotency_key P db k scope = Inr None" "db_changes db' = db_changes db @ [change_row_of P c]"
  shows "get_change_by_idempotency_key P db' k scope = Inr (Some (canon_change c))"
proof -
  have "filter (\<lambda>r. cw_idempotency_key r = Some k \<and> cw_scope r = scope_values scope) (db_changes db') = [change_row_of P c]"
    using assms(3-6) by (simp add: no_change_recorded change_row_of_def)
  then show ?thesis
    using change_row_reads [OF assms(1,2)] by (simp add: get_change_by_idempotency_key_def optional_row_def)
qed

lemma change_for_identity:
  "change_for env p h status st r ss = Inr c \<Longrightarrow> ch_idempotency_key c = cp_idempotency_key p \<and> ch_scope c = cp_scope p"
  by (auto simp: change_for_def RuntimeConfigChange_validate_Inr)

lemma validate_patch_identity:
  assumes "validate_patch env sv p = Inr c"
  shows "ch_idempotency_key c = cp_idempotency_key p \<and> ch_scope c = cp_scope p"
  using assms
  by (cases rule: validate_patch_cases)
    (auto simp: conclude_patch_def rejected_change_def Let_def elim!: bind_config_InrE split: if_splits dest: change_for_identity)

text \<open>A text for each thing the store writes.\<close>

datatype config_text = Json_text json | Actor_text RuntimeConfigActor
  | Rejections_text "(string, RuntimeConfigRejection) dict" | Config_text EffectiveRuntimeConfig

definition sample_config_codec :: "config_text config_codec" where
  "sample_config_codec =
     (let e = ValidationError (Msg ''JSON'' [])
      in \<lparr>cf_dumps = (\<lambda>j. Json_text (canon j)), cf_loads = (\<lambda>t. case t of Json_text j \<Rightarrow> Inr j | _ \<Rightarrow> Inl e),
          cf_dump_actor = Actor_text, cf_load_actor = (\<lambda>t. case t of Actor_text a \<Rightarrow> Inr a | _ \<Rightarrow> Inl e),
          cf_dump_rejections = (\<lambda>d. Rejections_text (canon_rejections d)),
          cf_load_rejections = (\<lambda>t. case t of Rejections_text d \<Rightarrow> Inr d | _ \<Rightarrow> Inl e),
          cf_dump_config = Config_text, cf_load_config = (\<lambda>t. case t of Config_text c \<Rightarrow> Inr c | _ \<Rightarrow> Inl e),
          cf_fromisoformat = (\<lambda>s. Inr (parse_isoformat s))\<rparr>)"

lemma sample_config_codec_ok: "config_codec_ok sample_config_codec"
  by (simp add: config_codec_ok_def sample_config_codec_def Let_def parse_isoformat)

section \<open>Later patches\<close>

text \<open>Patches applied one after the other, each with its clock and identifiers.\<close>

fun apply_patches :: "'j config_codec \<Rightarrow> (config_env \<times> RuntimeConfigPatch) list \<Rightarrow> 'j config_service \<Rightarrow> 'j config_service" where
  "apply_patches P [] sv = sv"
| "apply_patches P ((env, p) # later) sv = apply_patches P later (snd (apply_patch P env sv p))"

text \<open>A patch adds at most one row, under its own key and scope, and none under a key and scope that has one.\<close>

lemma record_change_rows:
  "db_changes (cs_db (snd (record_change P env sv c))) \<in> {db_changes (cs_db sv), db_changes (cs_db sv) @ [change_row_of P c]}"
proof (cases "append_change P (cs_db sv) c")
  case (Inr db)
  then have "db_changes db = db_changes (cs_db sv) @ [change_row_of P c]" by (auto simp: append_change_def split: if_splits)
  then show ?thesis using Inr record_snapshot_changes [of P env "sv\<lparr>cs_db := db\<rparr>" c] by (simp add: record_change_def)
qed (simp add: record_change_def)

lemma apply_fresh_rows:
  obtains "db_changes (cs_db (snd (apply_fresh P env sv p))) = db_changes (cs_db sv)"
    | c where "db_changes (cs_db (snd (apply_fresh P env sv p))) = db_changes (cs_db sv) @ [change_row_of P c]"
        "ch_idempotency_key c = cp_idempotency_key p" "ch_scope c = cp_scope p"
proof (cases "validate_patch env sv p")
  case (Inl e)
  then show thesis using that(1) by (simp add: apply_fresh_def)
next
  case (Inr c)
  then show thesis using that(1) that(2) [of c] validate_patch_identity [OF Inr] record_change_rows [of P env sv c]
    by (cases "cp_dry_run p") (auto simp: apply_fresh_def)
qed

lemma recorded_kept:
  assumes "get_change_by_idempotency_key P (cs_db sv) k scope = Inr (Some x)"
  shows "get_change_by_idempotency_key P (cs_db (snd (apply_patch P env sv p))) k scope = Inr (Some x)"
proof (cases "cp_idempotency_key p = Some k \<and> cp_scope p = scope")
  case True
  then show ?thesis using assms by (simp add: apply_patch_def)
next
  case False
  have same: "get_change_by_idempotency_key P (cs_db (snd (apply_fresh P env sv p))) k scope = Inr (Some x)"
  proof (cases rule: apply_fresh_rows [of P env sv p])
    case 1
    then show ?thesis using assms by (simp add: get_change_by_idempotency_key_def)
  next
    case (2 c)
    have "filter (\<lambda>r. cw_idempotency_key r = Some k \<and> cw_scope r = scope_values scope) [change_row_of P c] = []"
      using False 2(2,3) by (simp add: change_row_of_def)
    then show ?thesis using assms unfolding get_change_by_idempotency_key_def 2(1) by simp
  qed
  then show ?thesis using assms by (auto simp: apply_patch_def split: option.split sum.split)
qed

lemma recorded_kept_later:
  "get_change_by_idempotency_key P (cs_db sv) k scope = Inr (Some x) \<Longrightarrow>
   get_change_by_idempotency_key P (cs_db (apply_patches P later sv)) k scope = Inr (Some x)"
  by (induction P later sv rule: apply_patches.induct) (simp_all add: recorded_kept)

section \<open>Properties\<close>

text \<open>C19. A patch is applied once: after a patch with an idempotency key was answered, and after any further patches, every patch
  with that key and scope, whatever it asks for, is answered with the recorded change, read back from its row, and changes
  nothing.\<close>

theorem patch_applied_once:
  assumes "config_codec_ok P" "registry_ok (cs_registry sv)" "json_ok (JObj (cp_values p))" "datetime_ok (cp_requested_at p)"
    and "cp_idempotency_key p = Some k" "\<not> cp_dry_run p"
    and "get_change_by_idempotency_key P (cs_db sv) k (cp_scope p) = Inr None"
    and "apply_patch P env sv p = (Inr c, sv')" "cp_idempotency_key p' = Some k" "cp_scope p' = cp_scope p"
  shows "apply_patch P env' (apply_patches P later sv') p' = (Inr (canon_change c), apply_patches P later sv')"
proof -
  obtain d where d: "validate_patch env sv p = Inr d" "record_change P env sv d = (Inr c, sv')"
    using assms(5-8) by (auto simp: apply_patch_def apply_fresh_def split: sum.splits)
  note rec = record_change_Inr [OF d(2)]
  have "change_readable c" using validate_patch_readable [OF assms(2) d(1) assms(3,4)] rec(1) by simp
  moreover have "ch_idempotency_key c = Some k" "ch_scope c = cp_scope p" using validate_patch_identity [OF d(1)] assms(5) rec(1) by simp_all
  ultimately have "get_change_by_idempotency_key P (cs_db sv') k (cp_scope p) = Inr (Some (canon_change c))"
    using rec assms(1,7) by (auto intro: change_recorded)
  from recorded_kept_later [OF this, of later] show ?thesis using assms(9,10) by (simp add: apply_patch_def)
qed

definition other_patch :: RuntimeConfigPatch where
  "other_patch = (sample_patch None)\<lparr>cp_idempotency_key := Some ''other'', cp_values := [(''loop.steps'', JInt 40)]\<rparr>"

theorem patch_applied_once_witness:
  "\<exists>c sv. apply_patch sample_config_codec sample_config_env (sample_config_service []) (sample_patch None) = (Inr c, sv)
     \<and> (let sv' = apply_patches sample_config_codec [(sample_config_env, other_patch)] sv
        in apply_patch sample_config_codec sample_config_env sv' (sample_patch (Some ''old'')) = (Inr (canon_change c), sv'))"
proof -
  let ?sv = "sample_config_service [] :: config_text config_service" and ?p = "sample_patch None"
  have "case fst (apply_patch sample_config_codec sample_config_env ?sv ?p) of Inl e \<Rightarrow> False | Inr c \<Rightarrow> True" by code_simp
  then obtain c sv where applied: "apply_patch sample_config_codec sample_config_env ?sv ?p = (Inr c, sv)"
    by (metis prod.collapse sum.case_eq_if sum.collapse(2))
  have "registry_ok (cs_registry ?sv)" using sample_config_registry_ok by (simp add: sample_config_service_def)
  moreover have "json_ok (JObj (cp_values ?p))" by (simp add: sample_patch_def)
  moreover have "datetime_ok (cp_requested_at ?p)" by (simp add: sample_patch_def datetime_ok_def)
  moreover have "get_change_by_idempotency_key sample_config_codec (cs_db ?sv) ''k'' (cp_scope ?p) = Inr None"
    by (simp add: get_change_by_idempotency_key_def sample_config_service_def empty_config_db_def optional_row_def)
  ultimately have "apply_patch sample_config_codec sample_config_env (apply_patches sample_config_codec [(sample_config_env, other_patch)] sv)
      (sample_patch (Some ''old'')) = (Inr (canon_change c), apply_patches sample_config_codec [(sample_config_env, other_patch)] sv)"
    using applied sample_config_codec_ok
    by (intro patch_applied_once [where sv = ?sv and p = ?p and env = sample_config_env]) (simp_all add: sample_patch_def)
  with applied show ?thesis unfolding Let_def by blast
qed

end
