(* ===== verification/Config_Delivery.thy ===== *)
theory Config_Delivery
  imports Config_Ledger
begin

text \<open>
  What follows an accepted patch: the event the bus delivers, what a stronger layer makes of the patch, and what the patch leaves
  of the state that the next one is validated against.
\<close>

section \<open>Patches below a stronger source\<close>

lemma winner_snoc: "winner (ls @ [x]) = (case winner ls of
    None \<Rightarrow> Some x | Some w \<Rightarrow> Some (if layer_priority w \<le> layer_priority x then x else w))"
  by (induction ls) (auto split: option.splits if_splits)

lemma winner_Some: "ls \<noteq> [] \<Longrightarrow> \<exists>w. winner ls = Some w"
  by (cases ls) (auto split: option.split)

lemma winner_max: "winner ls = Some w \<Longrightarrow> w \<in> set ls \<and> (\<forall>l \<in> set ls. layer_priority l \<le> layer_priority w)"
proof (induction ls arbitrary: w)
  case (Cons l ls)
  show ?case
  proof (cases "winner ls")
    case None
    then have "ls = []" using winner_Some by fastforce
    then show ?thesis using Cons.prems by simp
  next
    case (Some v)
    then show ?thesis using Cons.prems Cons.IH [OF Some] by (fastforce split: if_splits)
  qed
qed simp

text \<open>A layer that sets a key with a higher priority hides what a patch sets.\<close>

lemma stronger_layer_decides:
  assumes "l \<in> set layers" "supplies k l" "80 < layer_priority l"
  shows "resolved_value reg (layers @ [runtime_patch_layer scope patch_id vs]) k = resolved_value reg layers k"
    "\<exists>w \<in> set layers. winner (filter (supplies k) layers) = Some w"
proof -
  have "l \<in> set (filter (supplies k) layers)" using assms(1,2) by simp
  then obtain w where w: "winner (filter (supplies k) layers) = Some w" using winner_Some by (metis empty_iff list.set(1))
  then have "80 < layer_priority w" "w \<in> set layers"
    using winner_max [OF w] assms(3) \<open>l \<in> set (filter (supplies k) layers)\<close> by fastforce+
  then show "\<exists>w \<in> set layers. winner (filter (supplies k) layers) = Some w" using w by blast
  show "resolved_value reg (layers @ [runtime_patch_layer scope patch_id vs]) k = resolved_value reg layers k"
    using w \<open>80 < layer_priority w\<close> by (simp add: resolved_value_def winner_snoc runtime_patch_layer_def)
qed

lemma dict_get_filter_key: "dict_get (filter (\<lambda>(k, v). Q k) d) k = (if Q k then dict_get d k else None)"
  by (induction d) auto

lemma dict_get_map_key: "dict_get (map (\<lambda>(k, v). (k, f k)) d) k = (if dict_get d k = None then None else Some (f k))"
  by (induction d) auto

lemma resolved_status:
  assumes "winner (filter (supplies k) layers) = Some w" "so_kind (la_source w) \<noteq> Kind_runtime_patch"
    and "resolved_value reg layers k = Some e"
  shows "ev_effective_status e = Effective_active"
  using assms by (auto simp: resolved_value_def layer_value_def effective_value_def effective_status_def split: option.splits sum.splits)

section \<open>Publishing a change\<close>

definition well_behaved :: "RuntimeConfigBusHandler \<Rightarrow> bool" where
  "well_behaved h \<longleftrightarrow> (\<forall>v. case h v of Inl (name, text) \<Rightarrow> name \<noteq> [] \<and> text \<noteq> [] | Inr r \<Rightarrow> True)"

lemma deliver_well_behaved:
  assumes "i \<noteq> []" "well_behaved h"
  shows "\<exists>r. deliver i h v = Inr r \<and> cr_consumer_id r = i"
proof (cases "h v")
  case (Inl e)
  then show ?thesis
    using assms spec [OF assms(2) [unfolded well_behaved_def], of v]
    by (cases e) (simp add: deliver_def RuntimeConfigBusConsumerResult_validate_def Let_def)
next
  case (Inr r)
  then show ?thesis
    using assms(1) by (cases r) (auto simp: deliver_def RuntimeConfigBusConsumerResult_validate_def Let_def)
qed

lemma deliver_all_well_behaved:
  "\<forall>(i, h) \<in> set hs. i \<noteq> [] \<and> well_behaved h \<Longrightarrow> \<exists>rs. deliver_all hs v = Inr rs \<and> map cr_consumer_id rs = map fst hs"
proof (induction hs)
  case (Cons e hs)
  obtain i h where e: "e = (i, h)" by (cases e)
  obtain r where r: "deliver i h v = Inr r" "cr_consumer_id r = i"
    using Cons.prems deliver_well_behaved [of i h v] by (auto simp: e)
  obtain rs where "deliver_all hs v = Inr rs" "map cr_consumer_id rs = map fst hs" using Cons by auto
  with r show ?case by (simp add: e)
qed simp

lemma event_of_change:
  assumes "RuntimeConfigChange_ok c" "ch_status c = Change_accepted"
    and "set (dict_keys (ch_effective_status_by_key c)) = set (dict_keys (ch_accepted_values c))"
  obtains v where "runtime_config_bus_event_from_change event_id now c = Inr v"
    "be_active_values v = filter (\<lambda>(k, x). status_of c k = Some Effective_active) (ch_accepted_values c)"
    "be_pending_values v = filter (\<lambda>(k, x). status_of c k \<noteq> Some Effective_active) (ch_accepted_values c)"
proof -
  obtain h where h: "ch_resulting_config_hash c = Some h" "h \<noteq> []"
    using assms(1,2) by (auto simp: RuntimeConfigChange_ok_def change_status_ok_def)
  have known: "find (\<lambda>k. status_of c k = None) (dict_keys (ch_accepted_values c)) = None"
    using assms(3) by (auto simp: find_None_iff status_of_def map_of_eq_None_iff)
  let ?active = "filter (\<lambda>(k, x). status_of c k = Some Effective_active) (ch_accepted_values c)"
  let ?pending = "filter (\<lambda>(k, x). status_of c k \<noteq> Some Effective_active) (ch_accepted_values c)"
  have parts: "fst ` set ?active \<union> fst ` set ?pending = fst ` set (ch_accepted_values c)" "fst ` set ?active \<inter> fst ` set ?pending = {}"
    by force+
  have statuses: "list_all (\<lambda>k. status_of c k = Some Effective_active) (dict_keys ?active)"
    "list_all (\<lambda>k. status_of c k \<noteq> Some Effective_active) (dict_keys ?pending)"
    by (auto simp: list_all_iff)
  show ?thesis
    using that assms h known parts statuses
    by (auto simp: runtime_config_bus_event_from_change_def RuntimeConfigBusEvent_ok_def RuntimeConfigChange_ok_def Let_def status_of_def)
qed

text \<open>A bus with a consumer that skips and one that raises.\<close>

definition sample_config_bus :: InMemoryRuntimeConfigBus where
  "sample_config_bus = \<lparr>cb_handlers = [(''loop'', \<lambda>v. Inr None), (''llm'', \<lambda>v. Inl (''ValueError'', ''boom''))], cb_publications = []\<rparr>"

section \<open>What a patch leaves alone\<close>

text \<open>The part of the service that validation reads.\<close>

definition config_basis :: "'j config_service \<Rightarrow> RuntimeConfigRegistry \<times> RuntimeConfigLayer list" where
  "config_basis sv = (cs_registry sv, cs_base_layers sv)"

lemma check_value_basis:
  assumes "config_basis sv = config_basis sv'" shows "check_value env sv p k raw st = check_value env sv' p k raw st"
proof -
  have same: "cs_registry sv = cs_registry sv'" "normalize_patch_value env sv = normalize_patch_value env sv'"
    using assms by (auto simp: config_basis_def normalize_patch_value_def intro!: ext)
  show ?thesis unfolding check_value_def same ..
qed

lemma check_values_basis:
  "config_basis sv = config_basis sv' \<Longrightarrow> check_values env sv p vs st = check_values env sv' p vs st"
proof (induction vs arbitrary: st)
  case (Cons e vs)
  obtain k raw where e: "e = (k, raw)" by (cases e)
  have "check_values env sv p vs = check_values env sv' p vs" using Cons by blast
  then show ?case using check_value_basis [OF Cons.prems, of env p k raw st] by (simp add: e)
qed simp

lemma validate_patch_basis:
  assumes "config_basis sv = config_basis sv'" shows "validate_patch env sv p = validate_patch env sv' p"
proof -
  have same: "resolve_base env n sv = resolve_base env n sv'" "resolve_candidate env n sv = resolve_candidate env n sv'" for n
    using assms by (auto simp: config_basis_def resolve_base_def resolve_candidate_def intro!: ext)
  have conclude: "conclude_patch env sv p = conclude_patch env sv' p" by (intro ext, unfold conclude_patch_def same, rule refl)
  show ?thesis unfolding validate_patch_def same conclude check_values_basis [OF assms] ..
qed

lemma announce_basis: "config_basis (snd (announce_change env sv c)) = config_basis sv"
  by (auto simp: announce_change_def config_basis_def split: option.split sum.split prod.split)

lemma apply_patch_basis: "config_basis (snd (apply_patch P env sv p)) = config_basis sv"
proof -
  have "config_basis (snd (record_snapshot P env sv c)) = config_basis sv" for sv :: "'a config_service" and c
    using announce_basis [of env] by (auto simp: record_snapshot_def config_basis_def split: option.split sum.split)
  then have "config_basis (snd (apply_fresh P env sv p)) = config_basis sv"
    by (auto simp: apply_fresh_def record_change_def config_basis_def split: sum.split)
  then show ?thesis by (auto simp: apply_patch_def split: option.split sum.split)
qed

section \<open>Properties\<close>

text \<open>Every consumer hears of an accepted change: if the consumers that fail give a reason, publishing a change whose statuses
  are those of its accepted values succeeds, records one publication with one result per subscriber in the order of subscription,
  and its event splits the accepted values into the active ones and those that wait.\<close>

theorem config_bus_delivers:
  assumes "RuntimeConfigChange_ok c" "ch_status c = Change_accepted"
    and "set (dict_keys (ch_effective_status_by_key c)) = set (dict_keys (ch_accepted_values c))"
    and "\<forall>(i, h) \<in> set (cb_handlers b). i \<noteq> [] \<and> well_behaved h"
  shows "\<exists>p. publish_change event_id now b c = (Inr (Some p), b\<lparr>cb_publications := cb_publications b @ [p]\<rparr>)
     \<and> map cr_consumer_id (pn_consumer_results p) = map fst (cb_handlers b)
     \<and> (\<forall>k. dict_get (ch_accepted_values c) k = (case dict_get (be_active_values (pn_event p)) k of
           Some x \<Rightarrow> Some x | None \<Rightarrow> dict_get (be_pending_values (pn_event p)) k))"
proof -
  obtain v where v: "runtime_config_bus_event_from_change event_id now c = Inr v"
    "be_active_values v = filter (\<lambda>(k, x). status_of c k = Some Effective_active) (ch_accepted_values c)"
    "be_pending_values v = filter (\<lambda>(k, x). status_of c k \<noteq> Some Effective_active) (ch_accepted_values c)"
    using event_of_change [OF assms(1-3)] by blast
  obtain rs where rs: "deliver_all (cb_handlers b) v = Inr rs" "map cr_consumer_id rs = map fst (cb_handlers b)"
    using deliver_all_well_behaved [OF assms(4)] by blast
  have "dict_get (ch_accepted_values c) k = (case dict_get (be_active_values v) k of
      Some x \<Rightarrow> Some x | None \<Rightarrow> dict_get (be_pending_values v) k)" for k
    by (simp add: v(2,3) dict_get_filter_key split: option.split)
  then have split: "\<forall>k. dict_get (ch_accepted_values c) k = (case dict_get (be_active_values v) k of
      Some x \<Rightarrow> Some x | None \<Rightarrow> dict_get (be_pending_values v) k)" by blast
  let ?p = "\<lparr>pn_event = v, pn_consumer_results = rs\<rparr>"
  have "publish_change event_id now b c = (Inr (Some ?p), b\<lparr>cb_publications := cb_publications b @ [?p]\<rparr>)"
    using v(1) rs(1) assms(2) by (simp add: publish_change_def)
  moreover have "map cr_consumer_id (pn_consumer_results ?p) = map fst (cb_handlers b)" using rs(2) by simp
  moreover have "pn_event ?p = v" by simp
  ultimately show ?thesis using split by metis
qed

theorem config_bus_delivers_witness:
  "\<exists>c p. validate_patch sample_config_env (sample_config_service [] :: unit config_service) (sample_patch None) = Inr c
     \<and> publish_change ''1'' (Datetime 2025 1 1 0 0 0 0) sample_config_bus c = (Inr (Some p), sample_config_bus\<lparr>cb_publications := [p]\<rparr>)
     \<and> map cr_consumer_id (pn_consumer_results p) = [''loop'', ''llm'']"
proof -
  let ?sv = "sample_config_service [] :: unit config_service"
  have "case validate_patch sample_config_env ?sv (sample_patch None) of Inl e \<Rightarrow> False
     | Inr c \<Rightarrow> RuntimeConfigChange_ok c \<and> ch_status c = Change_accepted
         \<and> set (dict_keys (ch_effective_status_by_key c)) = set (dict_keys (ch_accepted_values c))" by code_simp
  then obtain c where c: "validate_patch sample_config_env ?sv (sample_patch None) = Inr c" "RuntimeConfigChange_ok c"
    "ch_status c = Change_accepted" "set (dict_keys (ch_effective_status_by_key c)) = set (dict_keys (ch_accepted_values c))"
    by (auto split: sum.splits)
  have "\<forall>(i, h) \<in> set (cb_handlers sample_config_bus). i \<noteq> [] \<and> well_behaved h"
    by (simp add: sample_config_bus_def well_behaved_def)
  from config_bus_delivers [OF c(2-4) this, of "''1''" "Datetime 2025 1 1 0 0 0 0"] show ?thesis
    using c(1) by (auto simp: sample_config_bus_def)
qed

text \<open>C22. A patch below a stronger source is reported as active without having any effect: if a base layer with a priority above 80
  (the environment has 90, the process 100) sets the key of an accepted patch, the effective value stays what it was, and still
  the event of the change lists the value of the patch as active, whatever the key's mutability.\<close>

theorem overridden_patch_reported_active:
  assumes "registry_ok (cs_registry sv)" "dict_ok (cp_values p)" "\<forall>l \<in> set (cs_base_layers sv). dict_ok (la_values l)"
    and "\<forall>l \<in> set (cs_base_layers sv). so_kind (la_source l) \<noteq> Kind_runtime_patch"
    and "l \<in> set (cs_base_layers sv)" "supplies k l" "80 < layer_priority l"
    and "validate_patch env sv p = Inr c" "ch_status c = Change_accepted" "dict_get (ch_accepted_values c) k = Some x"
    and "resolve_base env 0 sv (cp_scope p) = Inr base"
    and "runtime_config_bus_event_from_change event_id now c = Inr v"
  shows "\<exists>candidate. resolve_candidate env 2 sv (cp_scope p) (cp_patch_id p) (ch_accepted_values c) = Inr candidate
     \<and> dict_get (ec_values candidate) k = dict_get (ec_values base) k \<and> dict_get (be_active_values v) k = Some x"
  using assms(8)
proof (cases rule: validate_patch_cases)
  case (1 base')
  then show ?thesis using assms(9) by (auto simp: rejected_change_def change_for_def RuntimeConfigChange_validate_Inr)
next
  case (2 base' st)
  have typed: "defaults_typed (cs_registry sv)" using resolve_base_typed(2) [OF assms(1) 2(1)] .
  have st: "dict_ok (pk_accepted st)"
    using check_values_outcome [OF assms(1) typed 2(3) assms(2)] by (simp add: patch_start_def)
  note stronger = stronger_layer_decides [OF assms(5-7)]
  from 2(4) assms(9) show ?thesis
  proof (rule accepted_change_cases)
    fix candidate
    assume cand: "resolve_candidate env 2 sv (cp_scope p) (cp_patch_id p) (pk_accepted st) = Inr candidate"
      and out: "ch_accepted_values c = pk_accepted st"
        "ch_effective_status_by_key c = map (\<lambda>(k, v). (k, ev_effective_status (the (dict_get (ec_values candidate) k)))) (pk_accepted st)"
    have layers: "\<forall>l \<in> set (cs_base_layers sv @ [runtime_patch_layer (cp_scope p) (cp_patch_id p) (pk_accepted st)]). dict_ok (la_values l)"
      using assms(3) st by (auto simp: runtime_patch_layer_def)
    have "dict_get (ec_values candidate) k = resolved_value (cs_registry sv) (cs_base_layers sv) k"
      using resolve_values [OF assms(1) layers cand [unfolded resolve_candidate_def], of k] stronger(1) by simp
    moreover have base: "dict_get (ec_values base) k = resolved_value (cs_registry sv) (cs_base_layers sv) k"
      using resolve_values [OF assms(1,3) assms(11) [unfolded resolve_base_def], of k] .
    ultimately have same: "dict_get (ec_values candidate) k = dict_get (ec_values base) k" by simp
    obtain w where w: "w \<in> set (cs_base_layers sv)" "winner (filter (supplies k) (cs_base_layers sv)) = Some w" using stronger(2) by blast
    have "dict_get (cs_registry sv) k \<noteq> None \<and> values_typed (cs_registry sv) (la_values w)"
      using conjunct1 [OF check_values_outcome [OF assms(1) typed 2(3) assms(2)], rule_format, of k] assms(10) out(1)
        resolve_base_typed(1) [OF assms(1) 2(1)] w(1)
      by (auto simp: patch_start_def patch_outcome_def well_typed_def split: option.splits)
    moreover have "supplies k w" using winner_max [OF w(2)] by simp
    ultimately obtain e where e: "resolved_value (cs_registry sv) (cs_base_layers sv) k = Some e"
      using w(2) layer_value_None [of "cs_registry sv" "la_source w" k _ default_source]
      by (fastforce simp: resolved_value_def values_typed_def list_all_iff supplies_def dest: map_of_SomeD)
    have "ev_effective_status e = Effective_active" using resolved_status [OF w(2) _ e] assms(4) w(1) by blast
    then have "status_of c k = Some Effective_active"
      using assms(10) same base e by (simp add: status_of_def out dict_get_map_key)
    moreover have "be_active_values v = filter (\<lambda>(k, x). status_of c k = Some Effective_active) (ch_accepted_values c)"
      using assms(12) by (auto simp: runtime_config_bus_event_from_change_def Let_def split: if_splits option.splits)
    ultimately have "dict_get (be_active_values v) k = Some x" using assms(10) by (simp add: dict_get_filter_key)
    then show ?thesis using cand same out(1) by simp
  qed
qed

theorem overridden_patch_reported_active_witness:
  "\<exists>c v candidate. validate_patch sample_config_env (sample_config_service
        [process_runtime_config_layer [(''loop.steps'', JInt 50)] ''process_input'' 100] :: unit config_service) (sample_patch None) = Inr c
     \<and> runtime_config_bus_event_from_change ''1'' (Datetime 2025 1 1 0 0 0 0) c = Inr v
     \<and> dict_get (be_active_values v) ''loop.steps'' = Some (JInt 30)
     \<and> resolve_candidate sample_config_env 2 (sample_config_service
        [process_runtime_config_layer [(''loop.steps'', JInt 50)] ''process_input'' 100] :: unit config_service)
        (level_scope Level_global) ''p'' (ch_accepted_values c) = Inr candidate
     \<and> map_option ev_value (dict_get (ec_values candidate) ''loop.steps'') = Some (JInt 50)"
proof -
  let ?l = "process_runtime_config_layer [(''loop.steps'', JInt 50)] ''process_input'' 100"
  let ?sv = "sample_config_service [?l] :: unit config_service" and ?p = "sample_patch None"
  have "case validate_patch sample_config_env ?sv ?p of Inl e \<Rightarrow> False
     | Inr c \<Rightarrow> ch_status c = Change_accepted \<and> dict_get (ch_accepted_values c) ''loop.steps'' = Some (JInt 30)
       \<and> (case runtime_config_bus_event_from_change ''1'' (Datetime 2025 1 1 0 0 0 0) c of Inl e \<Rightarrow> False | Inr v \<Rightarrow> True)" by code_simp
  then obtain c v where c: "validate_patch sample_config_env ?sv ?p = Inr c" "ch_status c = Change_accepted"
    "dict_get (ch_accepted_values c) ''loop.steps'' = Some (JInt 30)"
    and v: "runtime_config_bus_event_from_change ''1'' (Datetime 2025 1 1 0 0 0 0) c = Inr v"
    by (auto split: sum.splits)
  have "case resolve_base sample_config_env 0 ?sv (cp_scope ?p) of Inl e \<Rightarrow> False
     | Inr base \<Rightarrow> map_option ev_value (dict_get (ec_values base) ''loop.steps'') = Some (JInt 50)" by code_simp
  then obtain base where base: "resolve_base sample_config_env 0 ?sv (cp_scope ?p) = Inr base"
    "map_option ev_value (dict_get (ec_values base) ''loop.steps'') = Some (JInt 50)" by (auto split: sum.splits)
  have "registry_ok (cs_registry ?sv)" "dict_ok (cp_values ?p)" "\<forall>l \<in> set (cs_base_layers ?sv). dict_ok (la_values l)"
    "\<forall>l \<in> set (cs_base_layers ?sv). so_kind (la_source l) \<noteq> Kind_runtime_patch" "?l \<in> set (cs_base_layers ?sv)"
    "supplies ''loop.steps'' ?l" "80 < layer_priority ?l"
    using sample_config_registry_ok
    by (simp_all add: sample_config_service_def sample_patch_def process_runtime_config_layer_def supplies_def)
  from overridden_patch_reported_active [OF this c base(1) v] show ?thesis
    using c(1) v base(2) by (auto simp: sample_patch_def)
qed

text \<open>C20. Accepted patches do not accumulate: after any sequence of applied patches a patch is validated against the same base as
  before them, so it gets the same change, with the same base hash; in particular an expected base hash never detects a patch that
  was applied in between, and the configuration a later patch results in does not hold the values of an earlier one.\<close>

theorem patches_do_not_accumulate:
  "validate_patch env (fold (\<lambda>(e, q) sv. snd (apply_patch P e sv q)) qs sv) p = validate_patch env sv p"
proof (rule validate_patch_basis)
  show "config_basis (fold (\<lambda>(e, q) sv. snd (apply_patch P e sv q)) qs sv) = config_basis sv"
    by (induction qs arbitrary: sv) (auto simp: apply_patch_basis)
qed

end
