(* ===== verification/Authoring_Tables.thy ===== *)
theory Authoring_Tables
  imports Authoring_Service
begin

text \<open>
  The SQLite authoring stores (\<open>task/sqlite_authoring.py\<close>) and the active state of a session (\<open>task/stores.py\<close>): one
  database with the tables of raw tasks, draft trees, draft nodes, mappings, idempotency records and active states, and the
  operations of the four stores as sequences of statements, with the transactions that roll them back.  JSON texts are values of
  a type parameter, read and written by a codec.
\<close>

section \<open>Columns and rows\<close>

text \<open>What the stores use of \<open>json\<close>, of Pydantic's JSON and of the reading of a time from its text.\<close>

record 'j authoring_codec =
  yc_dump_strs :: "string list \<Rightarrow> 'j"
  yc_load_strs :: "'j \<Rightarrow> string list result"
  yc_dump_feasibility :: "FeasibilityReport \<Rightarrow> 'j"
  yc_load_feasibility :: "'j \<Rightarrow> FeasibilityReport result"
  yc_dump_asks :: "RawTaskAsk list \<Rightarrow> 'j"
  yc_load_asks :: "'j \<Rightarrow> RawTaskAsk list result"
  yc_dump_answers :: "RawTaskAnswer list \<Rightarrow> 'j"
  yc_load_answers :: "'j \<Rightarrow> RawTaskAnswer list result"
  yc_dump_result :: "AuthoringCommandResult \<Rightarrow> 'j"
  yc_load_result :: "'j \<Rightarrow> AuthoringCommandResult result"
  yc_fromisoformat :: "string \<Rightarrow> datetime result"

record 'j raw_row =
  yw_session_id :: string
  yw_raw_task_id :: string
  yw_source_message_id :: string
  yw_user_input :: string
  yw_status :: string
  yw_intent_summary :: "string option"
  yw_feasibility_json :: "'j option"
  yw_asks_json :: 'j
  yw_answers_json :: 'j
  yw_constraints_json :: 'j
  yw_assumptions_json :: 'j
  yw_version :: int
  yw_created_by :: string
  yw_created_at :: string
  yw_updated_at :: string

record tree_row =
  yt_session_id :: string
  yt_draft_tree_id :: string
  yt_title :: "string option"
  yt_summary :: "string option"
  yt_created_by :: string
  yt_version :: int
  yt_created_at :: string
  yt_updated_at :: string

record 'j node_row =
  yn_session_id :: string
  yn_draft_tree_id :: string
  yn_draft_task_id :: string
  yn_parent_draft_task_id :: "string option"
  yn_order_index :: int
  yn_title :: string
  yn_intent :: string
  yn_summary :: "string option"
  yn_instructions :: "string option"
  yn_acceptance_criteria_json :: 'j
  yn_required_capability :: string
  yn_constraints_json :: 'j
  yn_rationale :: "string option"
  yn_status :: string
  yn_version :: int
  yn_created_by :: string
  yn_created_at :: string
  yn_updated_at :: string

record mapping_row =
  ym_session_id :: string
  ym_draft_tree_id :: string
  ym_draft_task_id :: string
  ym_task_id :: string
  ym_published_at :: string
  ym_publish_command_id :: string

record active_row =
  ya_session_id :: string
  ya_active_raw_task_id :: "string option"
  ya_active_draft_tree_id :: "string option"
  ya_active_plan_id :: "string option"
  ya_active_state :: string
  ya_updated_at :: string

record 'j record_row =
  yk_session_id :: string
  yk_idempotency_key :: string
  yk_request_hash :: string
  yk_result_json :: 'j
  yk_created_at :: string

text \<open>One database holds the tables of all authoring stores.\<close>

record 'j authoring_db =
  yd_active :: "active_row list"
  yd_raw :: "'j raw_row list"
  yd_trees :: "tree_row list"
  yd_nodes :: "'j node_row list"
  yd_mappings :: "mapping_row list"
  yd_records :: "'j record_row list"

definition empty_authoring_db :: "'j authoring_db" where
  "empty_authoring_db = \<lparr>yd_active = [], yd_raw = [], yd_trees = [], yd_nodes = [], yd_mappings = [], yd_records = []\<rparr>"

text \<open>\<open>_write_transaction\<close>: an exception rolls back what the block wrote.\<close>

definition write_transaction :: "'db \<Rightarrow> 'a result \<times> 'db \<Rightarrow> 'a result \<times> 'db" where
  "write_transaction db out = (case out of (Inl e, _) \<Rightarrow> (Inl e, db) | (Inr x, db') \<Rightarrow> (Inr x, db'))"

text \<open>A parameter for an \<open>INTEGER\<close> column: one of more than 63 bits and a sign raises \<open>OverflowError\<close> before the statement runs.
  It is no \<open>sqlite3.Error\<close>, so the stores do not translate it.\<close>

definition sqlite_integer :: "int \<Rightarrow> bool" where
  "sqlite_integer i \<longleftrightarrow> - 9223372036854775808 \<le> i \<and> i < 9223372036854775808"

definition bind_integers :: "int list \<Rightarrow> unit result" where
  "bind_integers is = (if list_all sqlite_integer is then Inr ()
     else Inl (OverflowError (Msg ''Python int too large to convert to SQLite INTEGER'' [])))"

text \<open>\<open>AuthoringStoreError\<close>, a subclass of \<open>TaskStoreError\<close>, for a row that does not validate.\<close>

definition readable_row :: "string \<Rightarrow> 'a result \<Rightarrow> 'a result" where
  "readable_row name r = (case r of Inl e \<Rightarrow> Inl (TaskStoreError (Msg ''invalid {} row'' [name])) | Inr x \<Rightarrow> Inr x)"

definition optional_load :: "('j \<Rightarrow> 'a result) \<Rightarrow> 'j option \<Rightarrow> 'a option result" where
  "optional_load ld x = (case x of None \<Rightarrow> Inr None | Some j \<Rightarrow> map_ok Some (ld j))"

section \<open>Raw tasks\<close>

definition raw_row_of :: "'j authoring_codec \<Rightarrow> RawTask \<Rightarrow> 'j raw_row" where
  "raw_row_of P r =
     \<lparr>yw_session_id = rt_session_id r, yw_raw_task_id = rt_raw_task_id r, yw_source_message_id = rt_source_message_id r,
      yw_user_input = rt_user_input r, yw_status = raw_status_str (rt_status r), yw_intent_summary = rt_intent_summary r,
      yw_feasibility_json = map_option (yc_dump_feasibility P) (rt_feasibility r), yw_asks_json = yc_dump_asks P (rt_asks r),
      yw_answers_json = yc_dump_answers P (rt_answers r), yw_constraints_json = yc_dump_strs P (rt_constraints r),
      yw_assumptions_json = yc_dump_strs P (rt_assumptions r), yw_version = rt_version r, yw_created_by = rt_created_by r,
      yw_created_at = isoformat (rt_created_at r), yw_updated_at = isoformat (rt_updated_at r)\<rparr>"

definition raw_from_row :: "'j authoring_codec \<Rightarrow> 'j raw_row \<Rightarrow> RawTask result" where
  "raw_from_row P q = readable_row ''RawTask'' (
     bind_ok (optional_load (yc_load_feasibility P) (yw_feasibility_json q)) (\<lambda>feasibility.
     bind_ok (yc_load_asks P (yw_asks_json q)) (\<lambda>asks.
     bind_ok (yc_load_answers P (yw_answers_json q)) (\<lambda>answers.
     bind_ok (yc_load_strs P (yw_constraints_json q)) (\<lambda>constraints.
     bind_ok (yc_load_strs P (yw_assumptions_json q)) (\<lambda>assumptions.
     bind_ok (raw_status_field (JStr (yw_status q))) (\<lambda>status.
     bind_ok (yc_fromisoformat P (yw_created_at q)) (\<lambda>created_at.
     bind_ok (yc_fromisoformat P (yw_updated_at q)) (\<lambda>updated_at.
     RawTask_validate
       \<lparr>rt_raw_task_id = yw_raw_task_id q, rt_session_id = yw_session_id q, rt_source_message_id = yw_source_message_id q,
        rt_user_input = yw_user_input q, rt_status = status, rt_intent_summary = yw_intent_summary q,
        rt_feasibility = feasibility, rt_asks = asks, rt_answers = answers, rt_constraints = constraints,
        rt_assumptions = assumptions, rt_version = yw_version q, rt_created_by = yw_created_by q, rt_created_at = created_at,
        rt_updated_at = updated_at\<rparr>)))))))))"

definition sql_raw_get :: "'j authoring_codec \<Rightarrow> 'j authoring_db \<Rightarrow> string \<Rightarrow> string \<Rightarrow> RawTask option result" where
  "sql_raw_get P db session_id raw_task_id =
     (case find (\<lambda>q. (yw_session_id q, yw_raw_task_id q) = (session_id, raw_task_id)) (yd_raw db) of
        None \<Rightarrow> Inr None | Some q \<Rightarrow> map_ok Some (raw_from_row P q))"

definition sql_raw_create :: "'j authoring_codec \<Rightarrow> 'j authoring_db \<Rightarrow> RawTask \<Rightarrow> RawTask result \<times> 'j authoring_db" where
  "sql_raw_create P db r =
     (case sql_raw_get P db (rt_session_id r) (rt_raw_task_id r) of
        Inl e \<Rightarrow> (Inl e, db)
      | Inr (Some _) \<Rightarrow> (Inl (TaskStoreError (Msg ''RawTask {} already exists'' [rt_raw_task_id r])), db)
      | Inr None \<Rightarrow> write_transaction db
          (case bind_integers [rt_version r] of
             Inl e \<Rightarrow> (Inl e, db) | Inr _ \<Rightarrow> (Inr r, db\<lparr>yd_raw := yd_raw db @ [raw_row_of P r]\<rparr>)))"

definition sql_raw_list_for_session :: "'j authoring_codec \<Rightarrow> 'j authoring_db \<Rightarrow> string \<Rightarrow> RawTask list result" where
  "sql_raw_list_for_session P db session_id =
     those_ok (map (raw_from_row P) (sort_key (\<lambda>q. (yw_created_at q, yw_updated_at q, yw_raw_task_id q))
       (filter (\<lambda>q. yw_session_id q = session_id) (yd_raw db))))"

definition sql_raw_save ::
  "'j authoring_codec \<Rightarrow> 'j authoring_db \<Rightarrow> RawTask \<Rightarrow> int \<Rightarrow> datetime \<Rightarrow> RawTask result \<times> 'j authoring_db" where
  "sql_raw_save P db r expected_version now =
     (case sql_raw_get P db (rt_session_id r) (rt_raw_task_id r) of
        Inl e \<Rightarrow> (Inl e, db)
      | Inr None \<Rightarrow> (Inl (LookupError (Msg ''RawTask {} not found'' [rt_raw_task_id r])), db)
      | Inr (Some current) \<Rightarrow>
          (case bind_ok (check_version (rt_version current) expected_version (rt_raw_task_id r)) (\<lambda>_.
                RawTask_validate (r\<lparr>rt_version := rt_version current + 1, rt_created_at := rt_created_at current,
                  rt_updated_at := now\<rparr>)) of
             Inl e \<Rightarrow> (Inl e, db)
           | Inr updated \<Rightarrow> write_transaction db
               (case bind_integers [rt_version updated] of
                  Inl e \<Rightarrow> (Inl e, db)
                | Inr _ \<Rightarrow> (Inr updated, db\<lparr>yd_raw := map (\<lambda>q. if (yw_session_id q, yw_raw_task_id q) =
                    (rt_session_id updated, rt_raw_task_id updated) then raw_row_of P updated else q) (yd_raw db)\<rparr>))))"

section \<open>Draft nodes and trees\<close>

definition node_row_of :: "'j authoring_codec \<Rightarrow> DraftTaskNode \<Rightarrow> 'j node_row" where
  "node_row_of P n =
     \<lparr>yn_session_id = dn_session_id n, yn_draft_tree_id = dn_draft_tree_id n, yn_draft_task_id = dn_draft_task_id n,
      yn_parent_draft_task_id = dn_parent_draft_task_id n, yn_order_index = dn_order_index n, yn_title = dn_title n,
      yn_intent = dn_intent n, yn_summary = dn_summary n, yn_instructions = dn_instructions n,
      yn_acceptance_criteria_json = yc_dump_strs P (dn_acceptance_criteria n), yn_required_capability = dn_required_capability n,
      yn_constraints_json = yc_dump_strs P (dn_constraints n), yn_rationale = dn_rationale n,
      yn_status = draft_status_str (dn_status n), yn_version = dn_version n, yn_created_by = dn_created_by n,
      yn_created_at = isoformat (dn_created_at n), yn_updated_at = isoformat (dn_updated_at n)\<rparr>"

definition node_from_row :: "'j authoring_codec \<Rightarrow> 'j node_row \<Rightarrow> DraftTaskNode result" where
  "node_from_row P q = readable_row ''DraftTaskNode'' (
     bind_ok (yc_load_strs P (yn_acceptance_criteria_json q)) (\<lambda>criteria.
     bind_ok (yc_load_strs P (yn_constraints_json q)) (\<lambda>constraints.
     bind_ok (case draft_status_of (yn_status q) of
                None \<Rightarrow> Inl (ValidationError (Msg ''DraftTaskNode'' [])) | Some s \<Rightarrow> Inr s) (\<lambda>status.
     bind_ok (yc_fromisoformat P (yn_created_at q)) (\<lambda>created_at.
     bind_ok (yc_fromisoformat P (yn_updated_at q)) (\<lambda>updated_at.
     DraftTaskNode_validate
       \<lparr>dn_draft_task_id = yn_draft_task_id q, dn_session_id = yn_session_id q, dn_draft_tree_id = yn_draft_tree_id q,
        dn_parent_draft_task_id = yn_parent_draft_task_id q, dn_order_index = yn_order_index q, dn_title = yn_title q,
        dn_intent = yn_intent q, dn_summary = yn_summary q, dn_instructions = yn_instructions q,
        dn_acceptance_criteria = criteria, dn_required_capability = yn_required_capability q, dn_constraints = constraints,
        dn_rationale = yn_rationale q, dn_status = status, dn_version = yn_version q, dn_created_by = yn_created_by q,
        dn_created_at = created_at, dn_updated_at = updated_at\<rparr>))))))"

definition tree_row_of :: "DraftTaskTree \<Rightarrow> tree_row" where
  "tree_row_of t =
     \<lparr>yt_session_id = dt_session_id t, yt_draft_tree_id = dt_draft_tree_id t, yt_title = dt_title t, yt_summary = dt_summary t,
      yt_created_by = dt_created_by t, yt_version = dt_version t, yt_created_at = isoformat (dt_created_at t),
      yt_updated_at = isoformat (dt_updated_at t)\<rparr>"

definition tree_from_row :: "'j authoring_codec \<Rightarrow> tree_row \<Rightarrow> DraftTaskNode list \<Rightarrow> DraftTaskTree result" where
  "tree_from_row P q roots = readable_row ''DraftTaskTree'' (
     bind_ok (yc_fromisoformat P (yt_created_at q)) (\<lambda>created_at.
     bind_ok (yc_fromisoformat P (yt_updated_at q)) (\<lambda>updated_at.
     DraftTaskTree_validate
       \<lparr>dt_draft_tree_id = yt_draft_tree_id q, dt_session_id = yt_session_id q, dt_title = yt_title q, dt_summary = yt_summary q,
        dt_root_nodes = sort_nodes roots, dt_created_by = yt_created_by q, dt_version = yt_version q,
        dt_created_at = created_at, dt_updated_at = updated_at\<rparr>)))"

definition tree_row_key :: "tree_row \<Rightarrow> string \<times> string" where
  "tree_row_key q = (yt_session_id q, yt_draft_tree_id q)"

definition node_row_key :: "'j node_row \<Rightarrow> string \<times> string" where
  "node_row_key q = (yn_session_id q, yn_draft_task_id q)"

definition sql_tree_row :: "'j authoring_db \<Rightarrow> string \<Rightarrow> string \<Rightarrow> tree_row result" where
  "sql_tree_row db session_id draft_tree_id =
     (case find (\<lambda>q. tree_row_key q = (session_id, draft_tree_id)) (yd_trees db) of
        None \<Rightarrow> Inl (LookupError (Msg ''DraftTaskTree {} not found'' [draft_tree_id])) | Some q \<Rightarrow> Inr q)"

definition sql_children ::
  "'j authoring_codec \<Rightarrow> 'j authoring_db \<Rightarrow> string \<Rightarrow> string \<Rightarrow> string option \<Rightarrow> DraftTaskNode list result" where
  "sql_children P db session_id draft_tree_id parent =
     those_ok (map (node_from_row P) (sort_key (\<lambda>q. (yn_order_index q, yn_created_at q, yn_draft_task_id q))
       (filter (\<lambda>q. yn_session_id q = session_id \<and> yn_draft_tree_id q = draft_tree_id \<and> yn_parent_draft_task_id q = parent)
          (yd_nodes db))))"

definition sql_tree_from_row :: "'j authoring_codec \<Rightarrow> 'j authoring_db \<Rightarrow> tree_row \<Rightarrow> DraftTaskTree result" where
  "sql_tree_from_row P db q =
     bind_ok (sql_children P db (yt_session_id q) (yt_draft_tree_id q) None) (tree_from_row P q)"

definition sql_get_tree :: "'j authoring_codec \<Rightarrow> 'j authoring_db \<Rightarrow> string \<Rightarrow> string \<Rightarrow> DraftTaskTree result" where
  "sql_get_tree P db session_id draft_tree_id =
     bind_ok (sql_tree_row db session_id draft_tree_id) (sql_tree_from_row P db)"

definition sql_list_trees :: "'j authoring_codec \<Rightarrow> 'j authoring_db \<Rightarrow> string \<Rightarrow> DraftTaskTree list result" where
  "sql_list_trees P db session_id =
     those_ok (map (sql_tree_from_row P db) (sort_key (\<lambda>q. (yt_created_at q, yt_draft_tree_id q))
       (filter (\<lambda>q. yt_session_id q = session_id) (yd_trees db))))"

definition sql_list_nodes :: "'j authoring_codec \<Rightarrow> 'j authoring_db \<Rightarrow> string \<Rightarrow> string \<Rightarrow> DraftTaskNode list result" where
  "sql_list_nodes P db session_id draft_tree_id =
     bind_ok (sql_tree_row db session_id draft_tree_id) (\<lambda>_.
     those_ok (map (node_from_row P) (sort_key (\<lambda>q. (or_else (yn_parent_draft_task_id q) [], yn_order_index q,
         yn_created_at q, yn_draft_task_id q))
       (filter (\<lambda>q. yn_session_id q = session_id \<and> yn_draft_tree_id q = draft_tree_id) (yd_nodes db)))))"

definition sql_get_node :: "'j authoring_codec \<Rightarrow> 'j authoring_db \<Rightarrow> string \<Rightarrow> string \<Rightarrow> DraftTaskNode option result" where
  "sql_get_node P db session_id draft_task_id =
     (case find (\<lambda>q. node_row_key q = (session_id, draft_task_id)) (yd_nodes db) of
        None \<Rightarrow> Inr None | Some q \<Rightarrow> map_ok Some (node_from_row P q))"

definition sql_check_parent ::
  "'j authoring_codec \<Rightarrow> 'j authoring_db \<Rightarrow> string \<Rightarrow> string \<Rightarrow> string option \<Rightarrow> string \<Rightarrow> unit result" where
  "sql_check_parent P db session_id draft_tree_id parent text =
     (case parent of
        None \<Rightarrow> Inr ()
      | Some p \<Rightarrow> bind_ok (sql_get_node P db session_id p) (\<lambda>found. case found of
             None \<Rightarrow> Inl (LookupError (Msg text [p]))
           | Some n \<Rightarrow> if dn_draft_tree_id n \<noteq> draft_tree_id then Inl (LookupError (Msg text [p])) else Inr ()))"

definition sql_draft_list_children ::
  "'j authoring_codec \<Rightarrow> 'j authoring_db \<Rightarrow> string \<Rightarrow> string \<Rightarrow> string option \<Rightarrow> DraftTaskNode list result" where
  "sql_draft_list_children P db session_id draft_tree_id parent =
     bind_ok (sql_tree_row db session_id draft_tree_id) (\<lambda>_.
     bind_ok (sql_check_parent P db session_id draft_tree_id parent ''DraftTaskNode {} not found'') (\<lambda>_.
     sql_children P db session_id draft_tree_id parent))"

section \<open>Changing drafts\<close>

text \<open>\<open>INSERT\<close> and \<open>UPDATE\<close> by primary key. None is the \<open>IntegrityError\<close> of an \<open>INSERT\<close> with a taken primary key.\<close>

definition bind_node :: "DraftTaskNode \<Rightarrow> unit result" where
  "bind_node n = bind_integers [dn_order_index n, dn_version n]"

fun insert_nodes :: "'j authoring_codec \<Rightarrow> DraftTaskNode list \<Rightarrow> 'j authoring_db \<Rightarrow> 'j authoring_db option result" where
  "insert_nodes P [] db = Inr (Some db)"
| "insert_nodes P (n # ns) db =
     bind_ok (bind_node n) (\<lambda>_.
       if list_ex (\<lambda>q. node_row_key q = (dn_session_id n, dn_draft_task_id n)) (yd_nodes db) then Inr None
       else insert_nodes P ns (db\<lparr>yd_nodes := yd_nodes db @ [node_row_of P n]\<rparr>))"

definition update_node_row :: "'j authoring_codec \<Rightarrow> DraftTaskNode \<Rightarrow> 'j authoring_db \<Rightarrow> 'j authoring_db result" where
  "update_node_row P n db =
     bind_ok (bind_node n) (\<lambda>_.
       Inr (db\<lparr>yd_nodes := map (\<lambda>q. if node_row_key q = (dn_session_id n, dn_draft_task_id n)
         then node_row_of P n else q) (yd_nodes db)\<rparr>))"

definition build_tree ::
  "string \<Rightarrow> DraftTaskNode list \<Rightarrow> string option \<Rightarrow> string option \<Rightarrow> string \<Rightarrow> (nat \<Rightarrow> datetime) \<Rightarrow> DraftTaskTree result" where
  "build_tree session_id roots title summary draft_tree_id clock =
     (if roots = [] then Inl (ValueError (Msg ''draft tree requires at least one root'' []))
      else bind_ok (those_ok (map (\<lambda>r. DraftTaskNode_validate (r\<lparr>dn_session_id := session_id,
             dn_draft_tree_id := draft_tree_id, dn_parent_draft_task_id := None\<rparr>)) roots)) (\<lambda>normalized_roots.
           DraftTaskTree_validate
             \<lparr>dt_draft_tree_id = draft_tree_id, dt_session_id = session_id, dt_title = title, dt_summary = summary,
              dt_root_nodes = sort_nodes normalized_roots, dt_created_by = dn_created_by (hd normalized_roots), dt_version = 1,
              dt_created_at = clock 0, dt_updated_at = clock 1\<rparr>))"

definition sql_create_tree ::
  "'j authoring_codec \<Rightarrow> 'j authoring_db \<Rightarrow> string \<Rightarrow> DraftTaskNode list \<Rightarrow> string option \<Rightarrow> string option \<Rightarrow> string
     \<Rightarrow> (nat \<Rightarrow> datetime) \<Rightarrow> DraftTaskTree result \<times> 'j authoring_db" where
  "sql_create_tree P db session_id roots title summary draft_tree_id clock =
     (case build_tree session_id roots title summary draft_tree_id clock of
        Inl e \<Rightarrow> (Inl e, db)
      | Inr tree \<Rightarrow> write_transaction db
          (let exists = Inl (TaskStoreError (Msg ''DraftTaskTree or DraftTaskNode already exists'' []))
           in case bind_integers [dt_version tree] of
                Inl e \<Rightarrow> (Inl e, db)
              | Inr _ \<Rightarrow>
                  if list_ex (\<lambda>q. tree_row_key q = (session_id, draft_tree_id)) (yd_trees db) then (exists, db)
                  else case insert_nodes P (dt_root_nodes tree) (db\<lparr>yd_trees := yd_trees db @ [tree_row_of tree]\<rparr>) of
                         Inl e \<Rightarrow> (Inl e, db) | Inr None \<Rightarrow> (exists, db) | Inr (Some db') \<Rightarrow> (Inr tree, db')))"

definition sql_bump_tree ::
  "'j authoring_codec \<Rightarrow> 'j authoring_db \<Rightarrow> string \<Rightarrow> string \<Rightarrow> datetime \<Rightarrow> DraftTaskTree result \<times> 'j authoring_db" where
  "sql_bump_tree P db session_id draft_tree_id now =
     (case sql_tree_row db session_id draft_tree_id of
        Inl e \<Rightarrow> (Inl e, db)
      | Inr q \<Rightarrow>
          (case bind_integers [yt_version q + 1] of
             Inl e \<Rightarrow> (Inl e, db)
           | Inr _ \<Rightarrow>
               (let db' = db\<lparr>yd_trees := map (\<lambda>r. if tree_row_key r = (session_id, draft_tree_id)
                      then r\<lparr>yt_version := yt_version q + 1, yt_updated_at := isoformat now\<rparr> else r) (yd_trees db)\<rparr>
                in (sql_get_tree P db' session_id draft_tree_id, db'))))"

text \<open>A block that ends with \<open>_bump_tree\<close> and whose result is something else.\<close>

definition sql_bump_and_return ::
  "'j authoring_codec \<Rightarrow> 'j authoring_db \<Rightarrow> string \<Rightarrow> string \<Rightarrow> datetime \<Rightarrow> 'a \<Rightarrow> 'a result \<times> 'j authoring_db" where
  "sql_bump_and_return P db session_id draft_tree_id now x =
     (case sql_bump_tree P db session_id draft_tree_id now of (Inl e, db') \<Rightarrow> (Inl e, db') | (Inr _, db') \<Rightarrow> (Inr x, db'))"

definition sql_add_node ::
  "'j authoring_codec \<Rightarrow> 'j authoring_db \<Rightarrow> string \<Rightarrow> string \<Rightarrow> DraftTaskNode \<Rightarrow> int \<Rightarrow> (nat \<Rightarrow> datetime)
     \<Rightarrow> DraftTaskNode result \<times> 'j authoring_db" where
  "sql_add_node P db session_id draft_tree_id node expected_tree_version clock =
     (let taken = TaskStoreError (Msg ''DraftTaskNode {} already exists'' [dn_draft_task_id node])
      in case bind_ok (sql_tree_row db session_id draft_tree_id) (\<lambda>q.
              bind_ok (check_version (yt_version q) expected_tree_version draft_tree_id) (\<lambda>_.
              bind_ok (sql_get_node P db session_id (dn_draft_task_id node)) (\<lambda>found.
              bind_ok (if found \<noteq> None then Inl taken else Inr ()) (\<lambda>_.
              bind_ok (sql_check_parent P db session_id draft_tree_id (dn_parent_draft_task_id node)
                         ''parent DraftTaskNode {} not found'') (\<lambda>_.
              DraftTaskNode_validate (node\<lparr>dn_session_id := session_id, dn_draft_tree_id := draft_tree_id,
                dn_created_at := clock 0, dn_updated_at := clock 0\<rparr>)))))) of
           Inl e \<Rightarrow> (Inl e, db)
         | Inr normalized \<Rightarrow> write_transaction db
             (case insert_nodes P [normalized] db of
                Inl e \<Rightarrow> (Inl e, db)
              | Inr None \<Rightarrow> (Inl taken, db)
              | Inr (Some db') \<Rightarrow> sql_bump_and_return P db' session_id draft_tree_id (clock 1) normalized))"

definition sql_update_node ::
  "'j authoring_codec \<Rightarrow> 'j authoring_db \<Rightarrow> string \<Rightarrow> string \<Rightarrow> TaskNodePatch \<Rightarrow> int \<Rightarrow> (nat \<Rightarrow> datetime)
     \<Rightarrow> DraftTaskNode result \<times> 'j authoring_db" where
  "sql_update_node P db session_id draft_task_id patch expected_version clock =
     (case sql_get_node P db session_id draft_task_id of
        Inl e \<Rightarrow> (Inl e, db)
      | Inr None \<Rightarrow> (Inl (LookupError (Msg ''DraftTaskNode {} not found'' [draft_task_id])), db)
      | Inr (Some node) \<Rightarrow>
          (if dn_status node \<noteq> Draft
           then (Inl (TaskStoreError (Msg ''draft task cannot be edited while status is {}''
                   [draft_status_str (dn_status node)])), db)
           else if patch_children_ops patch \<noteq> []
           then (Inl (TaskStoreError (Msg ''children_ops are handled by explicit tree operations'' [])), db)
           else if patch_status patch = Some ''published''
           then (Inl (TaskStoreError (Msg ''published status must be set through mark_published'' [])), db)
           else case bind_ok (check_version (dn_version node) expected_version draft_task_id)
                       (\<lambda>_. patched_node node patch (clock 0)) of
                  Inl e \<Rightarrow> (Inl e, db)
                | Inr updated \<Rightarrow> write_transaction db
                    (case update_node_row P updated db of
                       Inl e \<Rightarrow> (Inl e, db)
                     | Inr db' \<Rightarrow> sql_bump_and_return P db' session_id (dn_draft_tree_id node) (clock 1) updated)))"

fun sql_set_statuses ::
  "'j authoring_codec \<Rightarrow> DraftTaskStatus \<Rightarrow> (nat \<Rightarrow> datetime) \<Rightarrow> DraftTaskNode list \<Rightarrow> 'j authoring_db
     \<Rightarrow> (nat \<Rightarrow> datetime) result \<times> 'j authoring_db" where
  "sql_set_statuses P status clock [] db = (Inr clock, db)"
| "sql_set_statuses P status clock (n # ns) db =
     (case DraftTaskNode_validate (n\<lparr>dn_status := status, dn_version := dn_version n + 1, dn_updated_at := clock 0\<rparr>) of
        Inl e \<Rightarrow> (Inl e, db)
      | Inr updated \<Rightarrow>
          (case update_node_row P updated db of
             Inl e \<Rightarrow> (Inl e, db)
           | Inr db' \<Rightarrow> sql_set_statuses P status (\<lambda>k. clock (Suc k)) ns db'))"

definition sql_mark_accepted ::
  "'j authoring_codec \<Rightarrow> 'j authoring_db \<Rightarrow> string \<Rightarrow> string \<Rightarrow> int \<Rightarrow> (nat \<Rightarrow> datetime)
     \<Rightarrow> DraftTaskTree result \<times> 'j authoring_db" where
  "sql_mark_accepted P db session_id draft_tree_id expected_version clock =
     (case bind_ok (sql_tree_row db session_id draft_tree_id) (\<lambda>q.
           bind_ok (check_version (yt_version q) expected_version draft_tree_id) (\<lambda>_.
           bind_ok (sql_list_nodes P db session_id draft_tree_id) (\<lambda>nodes.
           map_ok (\<lambda>_. nodes) (refuse_status (\<lambda>n. dn_status n \<notin> {Draft, Accepted})
             (\<lambda>n. Msg ''cannot accept draft tree with {} node {}''
                    [draft_status_str (dn_status n), dn_draft_task_id n]) nodes)))) of
        Inl e \<Rightarrow> (Inl e, db)
      | Inr nodes \<Rightarrow> write_transaction db
          (case sql_set_statuses P Accepted clock (filter (\<lambda>n. dn_status n = Draft) nodes) db of
             (Inl e, db') \<Rightarrow> (Inl e, db')
           | (Inr clock', db') \<Rightarrow> sql_bump_tree P db' session_id draft_tree_id (clock' 0)))"

section \<open>Mappings to published tasks\<close>

fun sql_check_mappings :: "string \<Rightarrow> string \<Rightarrow> string list \<Rightarrow> DraftToPublishedMapping list \<Rightarrow> unit result" where
  "sql_check_mappings session_id draft_tree_id node_ids [] = Inr ()"
| "sql_check_mappings session_id draft_tree_id node_ids (m # ms) =
     (if dm_session_id m \<noteq> session_id \<or> dm_draft_tree_id m \<noteq> draft_tree_id
      then Inl (ValueError (Msg ''mapping session_id and draft_tree_id must match tree'' []))
      else if dm_draft_task_id m \<notin> set node_ids
      then Inl (LookupError (Msg ''mapped DraftTaskNode {} not found'' [dm_draft_task_id m]))
      else sql_check_mappings session_id draft_tree_id node_ids ms)"

definition mapping_row_of :: "DraftToPublishedMapping \<Rightarrow> mapping_row" where
  "mapping_row_of m =
     \<lparr>ym_session_id = dm_session_id m, ym_draft_tree_id = dm_draft_tree_id m, ym_draft_task_id = dm_draft_task_id m,
      ym_task_id = dm_task_id m, ym_published_at = isoformat (dm_published_at m), ym_publish_command_id = dm_publish_command_id m\<rparr>"

definition mapping_from_row :: "'j authoring_codec \<Rightarrow> mapping_row \<Rightarrow> DraftToPublishedMapping result" where
  "mapping_from_row P q = readable_row ''DraftToPublishedMapping'' (
     bind_ok (yc_fromisoformat P (ym_published_at q)) (\<lambda>published_at.
     DraftToPublishedMapping_validate
       \<lparr>dm_session_id = ym_session_id q, dm_draft_tree_id = ym_draft_tree_id q, dm_draft_task_id = ym_draft_task_id q,
        dm_task_id = ym_task_id q, dm_published_at = published_at, dm_publish_command_id = ym_publish_command_id q\<rparr>))"

definition mapping_key :: "mapping_row \<Rightarrow> string \<times> string \<times> string" where
  "mapping_key q = (ym_session_id q, ym_draft_task_id q, ym_task_id q)"

definition insert_mapping :: "DraftToPublishedMapping \<Rightarrow> 'j authoring_db \<Rightarrow> 'j authoring_db" where
  "insert_mapping m db =
     (let q = mapping_row_of m
      in if list_ex (\<lambda>r. mapping_key r = mapping_key q) (yd_mappings db) then db
         else db\<lparr>yd_mappings := yd_mappings db @ [q]\<rparr>)"

definition sql_mark_published ::
  "'j authoring_codec \<Rightarrow> 'j authoring_db \<Rightarrow> string \<Rightarrow> string \<Rightarrow> DraftToPublishedMapping list \<Rightarrow> int option \<Rightarrow> (nat \<Rightarrow> datetime)
     \<Rightarrow> DraftTaskTree result \<times> 'j authoring_db" where
  "sql_mark_published P db session_id draft_tree_id mappings expected_version clock =
     (case bind_ok (sql_tree_row db session_id draft_tree_id) (\<lambda>q.
           bind_ok (case expected_version of None \<Rightarrow> Inr ()
                    | Some v \<Rightarrow> check_version (yt_version q) v draft_tree_id) (\<lambda>_.
           bind_ok (sql_list_nodes P db session_id draft_tree_id) (\<lambda>nodes.
           bind_ok (refuse_status (\<lambda>n. dn_status n = Cancelled)
             (\<lambda>n. Msg ''cannot publish cancelled node {}'' [dn_draft_task_id n]) nodes) (\<lambda>_.
           map_ok (\<lambda>_. nodes) (sql_check_mappings session_id draft_tree_id (map dn_draft_task_id nodes) mappings))))) of
        Inl e \<Rightarrow> (Inl e, db)
      | Inr nodes \<Rightarrow> write_transaction db
          (case sql_set_statuses P DraftTaskStatus.Published clock (filter (\<lambda>n. dn_status n \<noteq> DraftTaskStatus.Published) nodes) db of
             (Inl e, db') \<Rightarrow> (Inl e, db')
           | (Inr clock', db') \<Rightarrow> sql_bump_tree P (fold insert_mapping mappings db') session_id draft_tree_id (clock' 0)))"

definition sql_list_for_draft :: "'j authoring_codec \<Rightarrow> 'j authoring_db \<Rightarrow> string \<Rightarrow> string \<Rightarrow> DraftToPublishedMapping list result" where
  "sql_list_for_draft P db session_id draft_task_id =
     those_ok (map (mapping_from_row P) (sort_key (\<lambda>q. (ym_published_at q, ym_publish_command_id q, ym_task_id q))
       (filter (\<lambda>q. ym_session_id q = session_id \<and> ym_draft_task_id q = draft_task_id) (yd_mappings db))))"

definition sql_list_for_task :: "'j authoring_codec \<Rightarrow> 'j authoring_db \<Rightarrow> string \<Rightarrow> string \<Rightarrow> DraftToPublishedMapping list result" where
  "sql_list_for_task P db session_id task_id =
     those_ok (map (mapping_from_row P) (sort_key (\<lambda>q. (ym_published_at q, ym_publish_command_id q, ym_draft_task_id q))
       (filter (\<lambda>q. ym_session_id q = session_id \<and> ym_task_id q = task_id) (yd_mappings db))))"

section \<open>Idempotency records\<close>

definition record_row_of :: "'j authoring_codec \<Rightarrow> AuthoringCommandIdempotencyRecord \<Rightarrow> 'j record_row" where
  "record_row_of P r =
     \<lparr>yk_session_id = ir_session_id r, yk_idempotency_key = ir_idempotency_key r, yk_request_hash = ir_request_hash r,
      yk_result_json = yc_dump_result P (ir_result r), yk_created_at = isoformat (ir_created_at r)\<rparr>"

definition record_from_row :: "'j authoring_codec \<Rightarrow> 'j record_row \<Rightarrow> AuthoringCommandIdempotencyRecord result" where
  "record_from_row P q = readable_row ''AuthoringCommandIdempotencyRecord'' (
     bind_ok (yc_load_result P (yk_result_json q)) (\<lambda>result.
     bind_ok (yc_fromisoformat P (yk_created_at q)) (\<lambda>created_at.
     Inr \<lparr>ir_session_id = yk_session_id q, ir_idempotency_key = yk_idempotency_key q, ir_request_hash = yk_request_hash q,
          ir_result = result, ir_created_at = created_at\<rparr>)))"

definition record_row_key :: "'j record_row \<Rightarrow> string \<times> string" where
  "record_row_key q = (yk_session_id q, yk_idempotency_key q)"

definition sql_record_get ::
  "'j authoring_codec \<Rightarrow> 'j authoring_db \<Rightarrow> string \<Rightarrow> string \<Rightarrow> AuthoringCommandIdempotencyRecord option result" where
  "sql_record_get P db session_id key =
     (case find (\<lambda>q. record_row_key q = (session_id, key)) (yd_records db) of
        None \<Rightarrow> Inr None | Some q \<Rightarrow> map_ok Some (record_from_row P q))"

definition sql_record_put ::
  "'j authoring_codec \<Rightarrow> 'j authoring_db \<Rightarrow> AuthoringCommandIdempotencyRecord
     \<Rightarrow> AuthoringCommandIdempotencyRecord result \<times> 'j authoring_db" where
  "sql_record_put P db r =
     (let q = record_row_of P r;
          db' = (if list_ex (\<lambda>r. record_row_key r = record_row_key q) (yd_records db) then db
                 else db\<lparr>yd_records := yd_records db @ [q]\<rparr>)
      in (bind_ok (sql_record_get P db' (ir_session_id r) (ir_idempotency_key r)) (\<lambda>found. case found of
            None \<Rightarrow> Inl (TaskStoreError (Msg ''authoring command idempotency record was not saved'' [])) | Some c \<Rightarrow> Inr c), db'))"

section \<open>The active authoring state\<close>

datatype AuthoringActiveState = Active_none | Active_raw_task | Active_draft_tree | Active_published | Active_cancelled

fun active_state_str :: "AuthoringActiveState \<Rightarrow> string" where
  "active_state_str Active_none = ''none''"
| "active_state_str Active_raw_task = ''raw_task''"
| "active_state_str Active_draft_tree = ''draft_tree''"
| "active_state_str Active_published = ''published''"
| "active_state_str Active_cancelled = ''cancelled''"

record ActiveAuthoringState =
  aa_session_id :: string
  aa_active_raw_task_id :: "string option"
  aa_active_draft_tree_id :: "string option"
  aa_active_plan_id :: "string option"
  aa_active_state :: AuthoringActiveState
  aa_updated_at :: datetime

text \<open>The field constraints with \<open>_validate_state_pointers\<close>.\<close>

definition ActiveAuthoringState_ok :: "ActiveAuthoringState \<Rightarrow> bool" where
  "ActiveAuthoringState_ok a \<longleftrightarrow> aa_session_id a \<noteq> [] \<and> opt_nonempty (aa_active_raw_task_id a)
     \<and> opt_nonempty (aa_active_draft_tree_id a) \<and> opt_nonempty (aa_active_plan_id a)
     \<and> (aa_active_state a = Active_none \<longrightarrow>
          aa_active_raw_task_id a = None \<and> aa_active_draft_tree_id a = None \<and> aa_active_plan_id a = None)
     \<and> (aa_active_state a = Active_raw_task \<longrightarrow> aa_active_raw_task_id a \<noteq> None)
     \<and> (aa_active_state a \<in> {Active_draft_tree, Active_published} \<longrightarrow> aa_active_draft_tree_id a \<noteq> None)"

definition ActiveAuthoringState_validate :: "ActiveAuthoringState \<Rightarrow> ActiveAuthoringState result" where
  "ActiveAuthoringState_validate a =
     (if ActiveAuthoringState_ok a then Inr a else Inl (ValidationError (Msg ''ActiveAuthoringState'' [])))"

definition active_state_of :: "string \<Rightarrow> AuthoringActiveState result" where
  "active_state_of s =
     (case find (\<lambda>a. active_state_str a = s) [Active_none, Active_raw_task, Active_draft_tree, Active_published, Active_cancelled] of
        None \<Rightarrow> Inl (ValidationError (Msg ''ActiveAuthoringState'' [])) | Some a \<Rightarrow> Inr a)"

definition active_row_of :: "ActiveAuthoringState \<Rightarrow> active_row" where
  "active_row_of a =
     \<lparr>ya_session_id = aa_session_id a, ya_active_raw_task_id = aa_active_raw_task_id a,
      ya_active_draft_tree_id = aa_active_draft_tree_id a, ya_active_plan_id = aa_active_plan_id a,
      ya_active_state = active_state_str (aa_active_state a), ya_updated_at = isoformat (aa_updated_at a)\<rparr>"

definition active_from_row :: "'j authoring_codec \<Rightarrow> active_row \<Rightarrow> ActiveAuthoringState result" where
  "active_from_row P q = readable_row ''ActiveAuthoringState'' (
     bind_ok (active_state_of (ya_active_state q)) (\<lambda>state.
     bind_ok (yc_fromisoformat P (ya_updated_at q)) (\<lambda>updated_at.
     ActiveAuthoringState_validate
       \<lparr>aa_session_id = ya_session_id q, aa_active_raw_task_id = ya_active_raw_task_id q,
        aa_active_draft_tree_id = ya_active_draft_tree_id q, aa_active_plan_id = ya_active_plan_id q, aa_active_state = state,
        aa_updated_at = updated_at\<rparr>)))"

definition get_active :: "'j authoring_codec \<Rightarrow> 'j authoring_db \<Rightarrow> string \<Rightarrow> datetime \<Rightarrow> ActiveAuthoringState result" where
  "get_active P db session_id now =
     (case find (\<lambda>q. ya_session_id q = session_id) (yd_active db) of
        None \<Rightarrow> ActiveAuthoringState_validate \<lparr>aa_session_id = session_id, aa_active_raw_task_id = None,
          aa_active_draft_tree_id = None, aa_active_plan_id = None, aa_active_state = Active_none, aa_updated_at = now\<rparr>
      | Some q \<Rightarrow> active_from_row P q)"

definition upsert_active :: "active_row \<Rightarrow> 'j authoring_db \<Rightarrow> 'j authoring_db" where
  "upsert_active q db =
     db\<lparr>yd_active := (if list_ex (\<lambda>r. ya_session_id r = ya_session_id q) (yd_active db)
        then map (\<lambda>r. if ya_session_id r = ya_session_id q then q else r) (yd_active db) else yd_active db @ [q])\<rparr>"

definition save_active :: "ActiveAuthoringState \<Rightarrow> 'j authoring_db \<Rightarrow> unit result \<times> 'j authoring_db" where
  "save_active a db =
     (case ActiveAuthoringState_validate a of Inl e \<Rightarrow> (Inl e, db) | Inr a \<Rightarrow> (Inr (), upsert_active (active_row_of a) db))"

definition raw_task_exists :: "'j authoring_db \<Rightarrow> string \<Rightarrow> string \<Rightarrow> bool" where
  "raw_task_exists db session_id raw_task_id \<longleftrightarrow>
     list_ex (\<lambda>q. (yw_session_id q, yw_raw_task_id q) = (session_id, raw_task_id)) (yd_raw db)"

definition draft_tree_exists :: "'j authoring_db \<Rightarrow> string \<Rightarrow> string \<Rightarrow> bool" where
  "draft_tree_exists db session_id draft_tree_id \<longleftrightarrow>
     list_ex (\<lambda>q. tree_row_key q = (session_id, draft_tree_id)) (yd_trees db)"

definition set_active_raw_task ::
  "'j authoring_db \<Rightarrow> string \<Rightarrow> string \<Rightarrow> datetime \<Rightarrow> unit result \<times> 'j authoring_db" where
  "set_active_raw_task db session_id raw_task_id now =
     (if \<not> raw_task_exists db session_id raw_task_id
      then (Inl (LookupError (Msg ''RawTask {} not found'' [raw_task_id])), db)
      else save_active \<lparr>aa_session_id = session_id, aa_active_raw_task_id = Some raw_task_id, aa_active_draft_tree_id = None,
             aa_active_plan_id = None, aa_active_state = Active_raw_task, aa_updated_at = now\<rparr> db)"

definition set_active_draft_tree ::
  "'j authoring_db \<Rightarrow> string \<Rightarrow> string option \<Rightarrow> string \<Rightarrow> string option \<Rightarrow> datetime \<Rightarrow> unit result \<times> 'j authoring_db" where
  "set_active_draft_tree db session_id raw_task_id draft_tree_id active_plan_id now =
     (if \<not> (case raw_task_id of None \<Rightarrow> True | Some i \<Rightarrow> raw_task_exists db session_id i)
      then (Inl (LookupError (Msg ''RawTask {} not found'' [or_else raw_task_id []])), db)
      else if \<not> draft_tree_exists db session_id draft_tree_id
      then (Inl (LookupError (Msg ''DraftTaskTree {} not found'' [draft_tree_id])), db)
      else save_active \<lparr>aa_session_id = session_id, aa_active_raw_task_id = raw_task_id,
             aa_active_draft_tree_id = Some draft_tree_id, aa_active_plan_id = active_plan_id,
             aa_active_state = Active_draft_tree, aa_updated_at = now\<rparr> db)"

definition active_mark_published ::
  "'j authoring_codec \<Rightarrow> 'j authoring_db \<Rightarrow> string \<Rightarrow> string \<Rightarrow> datetime \<Rightarrow> unit result \<times> 'j authoring_db" where
  "active_mark_published P db session_id draft_tree_id now =
     (case get_active P db session_id now of
        Inl e \<Rightarrow> (Inl e, db)
      | Inr a \<Rightarrow>
          if aa_active_draft_tree_id a \<noteq> Some draft_tree_id
          then (Inl (TaskStoreError (Msg ''DraftTaskTree {} is not the active draft tree'' [draft_tree_id])), db)
          else if \<not> draft_tree_exists db session_id draft_tree_id
          then (Inl (LookupError (Msg ''DraftTaskTree {} not found'' [draft_tree_id])), db)
          else save_active \<lparr>aa_session_id = session_id, aa_active_raw_task_id = aa_active_raw_task_id a,
                 aa_active_draft_tree_id = Some draft_tree_id, aa_active_plan_id = aa_active_plan_id a,
                 aa_active_state = Active_published, aa_updated_at = now\<rparr> db)"

definition cancel_active :: "'j authoring_codec \<Rightarrow> 'j authoring_db \<Rightarrow> string \<Rightarrow> datetime \<Rightarrow> unit result \<times> 'j authoring_db" where
  "cancel_active P db session_id now =
     (case get_active P db session_id now of
        Inl e \<Rightarrow> (Inl e, db)
      | Inr a \<Rightarrow>
          if aa_active_state a = Active_none then (Inr (), db)
          else save_active (a\<lparr>aa_session_id := session_id, aa_active_state := Active_cancelled, aa_updated_at := now\<rparr>) db)"

end
