(* ===== verification/Authoring_Rows.thy ===== *)
theory Authoring_Rows
  imports Authoring_Tables Draft_Evolution Simulation
begin

text \<open>
  The rows of the authoring tables read back, and the relation between a database and the in-memory stores under which every
  query returns what the in-memory store returns.
\<close>

section \<open>Rows read back\<close>

definition ask_readable :: "RawTaskAsk \<Rightarrow> bool" where
  "ask_readable a \<longleftrightarrow> RawTaskAsk_fields_ok a \<and> datetime_ok (ask_created_at a)"

definition answer_readable :: "RawTaskAnswer \<Rightarrow> bool" where
  "answer_readable a \<longleftrightarrow> RawTaskAnswer_fields_ok a \<and> datetime_ok (ans_created_at a)"

text \<open>The free contexts of the message effects of a result are plain JSON.\<close>

definition result_plain :: "AuthoringCommandResult \<Rightarrow> bool" where
  "result_plain r \<longleftrightarrow> list_all (\<lambda>e. json_plain (JObj (me_context e))) (ar_message_effects r)"

text \<open>What the stores rely on: valid values whose free parts are plain JSON read back from their JSON text, and a time from its
  text.\<close>

definition authoring_codec_ok :: "'j authoring_codec \<Rightarrow> bool" where
  "authoring_codec_ok P \<longleftrightarrow>
     (\<forall>ss. yc_load_strs P (yc_dump_strs P ss) = Inr ss)
     \<and> (\<forall>f. is_ok (FeasibilityReport_validate f) \<longrightarrow> yc_load_feasibility P (yc_dump_feasibility P f) = Inr f)
     \<and> (\<forall>as. list_all ask_readable as \<longrightarrow> yc_load_asks P (yc_dump_asks P as) = Inr as)
     \<and> (\<forall>as. list_all answer_readable as \<longrightarrow> yc_load_answers P (yc_dump_answers P as) = Inr as)
     \<and> (\<forall>r. is_ok (AuthoringCommandResult_validate r) \<and> result_plain r \<longrightarrow> yc_load_result P (yc_dump_result P r) = Inr r)
     \<and> (\<forall>t. datetime_ok t \<longrightarrow> yc_fromisoformat P (isoformat t) = Inr t)"

definition raw_readable :: "RawTask \<Rightarrow> bool" where
  "raw_readable r \<longleftrightarrow> is_ok (RawTask_validate r) \<and> list_all ask_readable (rt_asks r) \<and> list_all answer_readable (rt_answers r)
     \<and> datetime_ok (rt_created_at r) \<and> datetime_ok (rt_updated_at r)"

definition node_readable :: "DraftTaskNode \<Rightarrow> bool" where
  "node_readable n \<longleftrightarrow> DraftTaskNode_valid n \<and> datetime_ok (dn_created_at n) \<and> datetime_ok (dn_updated_at n)"

definition tree_times_ok :: "DraftTaskTree \<Rightarrow> bool" where
  "tree_times_ok t \<longleftrightarrow> datetime_ok (dt_created_at t) \<and> datetime_ok (dt_updated_at t)"

definition record_readable :: "AuthoringCommandIdempotencyRecord \<Rightarrow> bool" where
  "record_readable r \<longleftrightarrow> is_ok (AuthoringCommandResult_validate (ir_result r)) \<and> result_plain (ir_result r)
     \<and> datetime_ok (ir_created_at r)"

lemma readable_row_simps [simp]: "readable_row name (Inr x) = Inr x" "is_ok (readable_row name r) = is_ok r"
  by (simp_all add: readable_row_def is_ok_def split: sum.split)

lemma raw_status_reads [simp]: "raw_status_field (JStr (raw_status_str s)) = Inr s"
  by (cases s) (simp_all add: raw_status_field_def str_field_def)

lemma raw_row_reads: "\<lbrakk>authoring_codec_ok P; raw_readable r\<rbrakk> \<Longrightarrow> raw_from_row P (raw_row_of P r) = Inr r"
proof -
  assume P: "authoring_codec_ok P" and r: "raw_readable r"
  then obtain u where "RawTask_validate r = Inr u" by (auto simp: raw_readable_def elim: is_okE)
  then have v: "RawTask_validate r = Inr r" and f: "case rt_feasibility r of None \<Rightarrow> True | Some f \<Rightarrow> is_ok (FeasibilityReport_validate f)"
    by (auto simp: RawTask_validate_def RawTask_fields_ok_def split: if_splits)
  have "optional_load (yc_load_feasibility P) (map_option (yc_dump_feasibility P) (rt_feasibility r)) = Inr (rt_feasibility r)"
    using f P by (auto simp: optional_load_def authoring_codec_ok_def split: option.split)
  then show ?thesis
    using P r v by (cases r) (simp add: raw_from_row_def raw_row_of_def authoring_codec_ok_def raw_readable_def)
qed

lemma node_row_reads: "\<lbrakk>authoring_codec_ok P; node_readable n\<rbrakk> \<Longrightarrow> node_from_row P (node_row_of P n) = Inr n"
  by (cases n) (simp add: node_from_row_def node_row_of_def authoring_codec_ok_def node_readable_def DraftTaskNode_validate_valid)

lemma nodes_read: "\<lbrakk>authoring_codec_ok P; \<forall>n \<in> set ns. node_readable n\<rbrakk> \<Longrightarrow>
    those_ok (map (node_from_row P) (map (node_row_of P) ns)) = Inr ns"
  by (induction ns) (simp_all add: node_row_reads)

lemma record_row_reads: "\<lbrakk>authoring_codec_ok P; record_readable r\<rbrakk> \<Longrightarrow> record_from_row P (record_row_of P r) = Inr r"
  by (cases r) (simp add: record_from_row_def record_row_of_def authoring_codec_ok_def record_readable_def)

text \<open>A table whose rows are those of the values of a dictionary.\<close>

lemma find_rows:
  assumes "\<forall>(k, v) \<in> set d. ident v = k" "\<And>v. row_key (row v) = ident v"
  shows "find (\<lambda>q. row_key q = k) (map row (dict_values d)) = map_option row (dict_get d k)"
    "list_ex (\<lambda>q. row_key q = k) (map row (dict_values d)) \<longleftrightarrow> dict_get d k \<noteq> None"
  using assms by (induction d) auto

lemma update_values:
  assumes "dict_ok d" "dict_get d k \<noteq> None" "\<forall>(k, v) \<in> set d. ident v = k"
  shows "dict_values (dict_set d k w) = map (\<lambda>v. if ident v = k then w else v) (dict_values d)"
  using assms(3) by (auto simp: dict_set_map [OF assms(1,2)])

lemma values_fresh: "dict_get d k = None \<Longrightarrow> dict_values (dict_set d k w) = dict_values d @ [w]"
  by (simp add: dict_set_fresh)

section \<open>Databases and stores\<close>

abbreviation node_key :: "DraftTaskNode \<Rightarrow> string \<times> string" where
  "node_key n \<equiv> (dn_session_id n, dn_draft_task_id n)"

abbreviation tree_key :: "DraftTaskTree \<Rightarrow> string \<times> string" where
  "tree_key t \<equiv> (dt_session_id t, dt_draft_tree_id t)"

definition tree_roots :: "InMemoryDraftTaskStore \<Rightarrow> string \<times> string \<Rightarrow> DraftTaskNode list" where
  "tree_roots st k = sort_nodes (filter (\<lambda>n. in_tree (fst k) (snd k) n \<and> dn_parent_draft_task_id n = None) (dict_values (ds_nodes st)))"

definition drafts_ok :: "InMemoryDraftTaskStore \<Rightarrow> bool" where
  "drafts_ok st \<longleftrightarrow> dict_ok (ds_nodes st) \<and> (\<forall>(k, n) \<in> set (ds_nodes st). node_key n = k)
     \<and> (\<forall>n \<in> set (dict_values (ds_nodes st)). node_readable n \<and> dict_get (ds_trees st) (dn_session_id n, dn_draft_tree_id n) \<noteq> None)
     \<and> dict_ok (ds_trees st) \<and> (\<forall>(k, t) \<in> set (ds_trees st). tree_key t = k)
     \<and> (\<forall>t \<in> set (dict_values (ds_trees st)). tree_times_ok t)"

text \<open>The rows are those of the stored values; the root nodes are no column.\<close>

definition rows_alike :: "'j authoring_codec \<Rightarrow> 'j authoring_db \<Rightarrow> InMemoryDraftTaskStore \<Rightarrow> bool" where
  "rows_alike P db st \<longleftrightarrow> authoring_codec_ok P \<and> drafts_ok st
     \<and> yd_nodes db = map (node_row_of P) (dict_values (ds_nodes st))
     \<and> yd_trees db = map tree_row_of (dict_values (ds_trees st))"

text \<open>The trees hold the root nodes of the node table, and are valid.\<close>

definition synced :: "InMemoryDraftTaskStore \<Rightarrow> bool" where
  "synced st \<longleftrightarrow> (\<forall>k t. dict_get (ds_trees st) k = Some t \<longrightarrow> DraftTaskTree_valid t \<and> dt_root_nodes t = tree_roots st k)"

lemma drafts_ok_inv: "drafts_ok st \<Longrightarrow> store_inv st"
  by (auto simp: drafts_ok_def store_inv_def dest!: map_of_SomeD)

lemma row_keys [simp]:
  "node_row_key (node_row_of P n) = node_key n" "tree_row_key (tree_row_of t) = tree_key t"
  by (simp_all add: node_row_key_def node_row_of_def tree_row_key_def tree_row_of_def)

lemma alike_find:
  assumes "rows_alike P db st"
  shows "find (\<lambda>q. node_row_key q = k) (yd_nodes db) = map_option (node_row_of P) (dict_get (ds_nodes st) k)"
    "list_ex (\<lambda>q. node_row_key q = k) (yd_nodes db) \<longleftrightarrow> dict_get (ds_nodes st) k \<noteq> None"
    "find (\<lambda>q. tree_row_key q = k) (yd_trees db) = map_option tree_row_of (dict_get (ds_trees st) k)"
    "list_ex (\<lambda>q. tree_row_key q = k) (yd_trees db) \<longleftrightarrow> dict_get (ds_trees st) k \<noteq> None"
proof -
  have rows: "yd_nodes db = map (node_row_of P) (dict_values (ds_nodes st))" "yd_trees db = map tree_row_of (dict_values (ds_trees st))"
    and keys: "\<forall>(k, n) \<in> set (ds_nodes st). node_key n = k" "\<forall>(k, t) \<in> set (ds_trees st). tree_key t = k"
    using assms by (simp_all add: rows_alike_def drafts_ok_def)
  show "find (\<lambda>q. node_row_key q = k) (yd_nodes db) = map_option (node_row_of P) (dict_get (ds_nodes st) k)"
    "list_ex (\<lambda>q. node_row_key q = k) (yd_nodes db) \<longleftrightarrow> dict_get (ds_nodes st) k \<noteq> None"
    unfolding rows by (rule find_rows [OF keys(1)], simp)+
  show "find (\<lambda>q. tree_row_key q = k) (yd_trees db) = map_option tree_row_of (dict_get (ds_trees st) k)"
    "list_ex (\<lambda>q. tree_row_key q = k) (yd_trees db) \<longleftrightarrow> dict_get (ds_trees st) k \<noteq> None"
    unfolding rows by (rule find_rows [OF keys(2)], simp)+
qed

lemma stored_readable:
  assumes "rows_alike P db st"
  shows "n \<in> set (dict_values (ds_nodes st)) \<Longrightarrow> node_readable n" "dict_get (ds_nodes st) k = Some n \<Longrightarrow> node_readable n"
    "dict_get (ds_trees st) j = Some t \<Longrightarrow> tree_times_ok t \<and> tree_key t = j"
  using assms by (auto simp: rows_alike_def drafts_ok_def dest: dict_get_mem dest!: map_of_SomeD)

lemma alike_get_node:
  assumes "rows_alike P db st"
  shows "sql_get_node P db sid i = Inr (get_node st sid i)"
proof -
  have P: "authoring_codec_ok P" and inv: "store_inv st" using assms drafts_ok_inv by (auto simp: rows_alike_def)
  have "get_node st sid i = dict_get (ds_nodes st) (sid, i)"
    using get_node_inv [OF inv] by (metis not_None_eq)
  then show ?thesis
    using node_row_reads [OF P] stored_readable(2) [OF assms]
    by (cases "dict_get (ds_nodes st) (sid, i)") (simp_all add: sql_get_node_def alike_find [OF assms])
qed

lemma alike_tree_row:
  assumes "rows_alike P db st" shows "sql_tree_row db sid tid = map_ok tree_row_of (get_tree st sid tid)"
  by (simp add: sql_tree_row_def alike_find [OF assms] get_tree_def split: option.split)

lemma alike_check_parent:
  assumes "rows_alike P db st" shows "sql_check_parent P db sid tid parent text = check_parent st sid tid parent text"
  by (simp add: sql_check_parent_def check_parent_def alike_get_node [OF assms] split: option.split)

section \<open>Reads\<close>

text \<open>The order of the time column is the order of the times.\<close>

lemmas iso_order = less_eq_prod_def isoformat_le isoformat_inject isoformat_less

lemma sort_nodes_idem [simp]: "sort_nodes (sort_nodes ns) = sort_nodes ns"
  by (simp add: sort_nodes_def sort_key_id_if_sorted)

lemma alike_select:
  assumes "rows_alike P db st"
    and "\<And>n. sel (node_row_of P n) = want n" "\<And>n. key (node_row_of P n) = key' n"
    and "\<And>m n. \<lbrakk>want m; want n; node_readable m; node_readable n\<rbrakk> \<Longrightarrow> key' m \<le> key' n \<longleftrightarrow>
      (or_else (dn_parent_draft_task_id m) [], dn_order_index m, dn_created_at m, dn_draft_task_id m)
        \<le> (or_else (dn_parent_draft_task_id n) [], dn_order_index n, dn_created_at n, dn_draft_task_id n)"
  shows "those_ok (map (node_from_row P) (sort_key key (filter sel (yd_nodes db)))) =
    Inr (sort_nodes (filter want (dict_values (ds_nodes st))))"
proof -
  have P: "authoring_codec_ok P" and rows: "yd_nodes db = map (node_row_of P) (dict_values (ds_nodes st))"
    using assms(1) by (simp_all add: rows_alike_def)
  define ns where "ns = filter want (dict_values (ds_nodes st))"
  have ns: "\<forall>n \<in> set ns. node_readable n \<and> want n" using stored_readable(1) [OF assms(1)] by (auto simp: ns_def)
  have "filter sel (yd_nodes db) = map (node_row_of P) ns"
    unfolding rows ns_def filter_map o_def assms(2) ..
  moreover have "sort_key key (map (node_row_of P) ns) = map (node_row_of P) (sort_key key' ns)"
    by (simp add: sort_key_map assms(3))
  moreover have "sort_key key' ns = sort_nodes ns"
  proof (unfold sort_nodes_def, rule sort_key_cong_le)
    fix m n assume "m \<in> set ns" "n \<in> set ns"
    then have "want m" "want n" "node_readable m" "node_readable n" using ns by simp_all
    then show "key' m \<le> key' n \<longleftrightarrow>
      (or_else (dn_parent_draft_task_id m) [], dn_order_index m, dn_created_at m, dn_draft_task_id m)
        \<le> (or_else (dn_parent_draft_task_id n) [], dn_order_index n, dn_created_at n, dn_draft_task_id n)" by (rule assms(4))
  qed
  ultimately have "map (node_from_row P) (sort_key key (filter sel (yd_nodes db))) = map (node_from_row P) (map (node_row_of P) (sort_nodes ns))"
    by (simp only:)
  moreover have "\<forall>n \<in> set (sort_nodes ns). node_readable n" using ns by simp
  ultimately show ?thesis unfolding ns_def [symmetric] using nodes_read [OF P] by metis
qed

lemma alike_children:
  assumes "rows_alike P db st"
  shows "sql_children P db sid tid parent =
    Inr (sort_nodes (filter (\<lambda>n. in_tree sid tid n \<and> dn_parent_draft_task_id n = parent) (dict_values (ds_nodes st))))"
  unfolding sql_children_def
  by (rule alike_select [OF assms, where key' = "\<lambda>n. (dn_order_index n, isoformat (dn_created_at n), dn_draft_task_id n)"])
    (auto simp: node_row_of_def in_tree_def node_readable_def iso_order)

lemma alike_list_nodes:
  assumes "rows_alike P db st" shows "sql_list_nodes P db sid tid = list_nodes st sid tid"
proof -
  have "those_ok (map (node_from_row P) (sort_key (\<lambda>q. (or_else (yn_parent_draft_task_id q) [], yn_order_index q,
         yn_created_at q, yn_draft_task_id q)) (filter (\<lambda>q. yn_session_id q = sid \<and> yn_draft_tree_id q = tid) (yd_nodes db)))) =
       Inr (sort_nodes (filter (in_tree sid tid) (dict_values (ds_nodes st))))"
    by (rule alike_select [OF assms, where key' = "\<lambda>n. (or_else (dn_parent_draft_task_id n) [], dn_order_index n,
          isoformat (dn_created_at n), dn_draft_task_id n)"])
      (auto simp: node_row_of_def in_tree_def node_readable_def iso_order)
  then show ?thesis
    by (simp add: sql_list_nodes_def list_nodes_def alike_tree_row [OF assms] get_tree_def split: option.split)
qed

lemma alike_list_children:
  assumes "rows_alike P db st" shows "sql_draft_list_children P db sid tid parent = draft_list_children st sid tid parent"
  by (simp add: sql_draft_list_children_def draft_list_children_def alike_tree_row [OF assms] alike_check_parent [OF assms]
      alike_children [OF assms] get_tree_def split: option.split)

lemma alike_tree_from_row:
  assumes "rows_alike P db st" "tree_times_ok t"
  shows "sql_tree_from_row P db (tree_row_of t) =
    readable_row ''DraftTaskTree'' (DraftTaskTree_validate (t\<lparr>dt_root_nodes := tree_roots st (tree_key t)\<rparr>))"
proof -
  have "authoring_codec_ok P" using assms(1) by (simp add: rows_alike_def)
  then show ?thesis
    using assms(2) by (cases t) (simp add: sql_tree_from_row_def alike_children [OF assms(1)] tree_row_of_def tree_from_row_def
        tree_times_ok_def authoring_codec_ok_def tree_roots_def)
qed

text \<open>With synchronized root nodes the trees read back as they are stored.\<close>

lemma synced_reads:
  assumes "rows_alike P db st" "synced st" "dict_get (ds_trees st) k = Some t"
  shows "sql_tree_from_row P db (tree_row_of t) = Inr t"
proof -
  have t: "DraftTaskTree_valid t" "dt_root_nodes t = tree_roots st k" "tree_times_ok t" "tree_key t = k"
    using assms(2,3) stored_readable(3) [OF assms(1,3)] by (auto simp: synced_def)
  have "t\<lparr>dt_root_nodes := tree_roots st k\<rparr> = t" using t(2) by (cases t) simp
  then show ?thesis
    using alike_tree_from_row [OF assms(1) t(3)] t(1,4) DraftTaskTree_validate_cases
    by (auto simp: DraftTaskTree_valid_def elim!: is_okE)
qed

lemma alike_get_tree:
  assumes "rows_alike P db st" "synced st" shows "sql_get_tree P db sid tid = get_tree st sid tid"
  using synced_reads [OF assms, of "(sid, tid)"]
  by (simp add: sql_get_tree_def alike_tree_row [OF assms(1)] get_tree_def split: option.split)

lemma alike_list_trees:
  assumes "rows_alike P db st" "synced st" shows "sql_list_trees P db sid = Inr (list_trees st sid)"
proof -
  define ts where "ts = filter (\<lambda>t. dt_session_id t = sid) (dict_values (ds_trees st))"
  have ok: "dict_ok (ds_trees st)" and rows: "yd_trees db = map tree_row_of (dict_values (ds_trees st))"
    using assms(1) by (simp_all add: rows_alike_def drafts_ok_def)
  have ts: "\<exists>k. dict_get (ds_trees st) k = Some t" if "t \<in> set ts" for t
    using that dict_values_mem [OF ok] by (auto simp: ts_def)
  have "filter (\<lambda>q. yt_session_id q = sid) (yd_trees db) = map tree_row_of ts"
    unfolding rows ts_def filter_map o_def by (simp add: tree_row_of_def)
  moreover have "sort_key (\<lambda>q. (yt_created_at q, yt_draft_tree_id q)) (map tree_row_of ts) =
      map tree_row_of (sort_key (\<lambda>t. (dt_created_at t, dt_draft_tree_id t)) ts)"
  proof -
    have "sort_key (\<lambda>t. (isoformat (dt_created_at t), dt_draft_tree_id t)) ts = sort_key (\<lambda>t. (dt_created_at t, dt_draft_tree_id t)) ts"
    proof (rule sort_key_cong_le)
      fix x y assume "x \<in> set ts" "y \<in> set ts"
      then have "datetime_ok (dt_created_at x)" "datetime_ok (dt_created_at y)"
        using ts stored_readable(3) [OF assms(1)] by (auto simp: tree_times_ok_def dest!: ts)
      then show "(isoformat (dt_created_at x), dt_draft_tree_id x) \<le> (isoformat (dt_created_at y), dt_draft_tree_id y) \<longleftrightarrow>
          (dt_created_at x, dt_draft_tree_id x) \<le> (dt_created_at y, dt_draft_tree_id y)" by (simp add: iso_order)
    qed
    then show ?thesis by (simp add: sort_key_map tree_row_of_def)
  qed
  moreover have "those_ok (map (sql_tree_from_row P db) (map tree_row_of us)) = Inr us" if "set us \<subseteq> set ts" for us
    using that
  proof (induction us)
    case (Cons u us)
    then obtain k where "dict_get (ds_trees st) k = Some u" using ts [of u] by auto
    from synced_reads [OF assms this] Cons show ?case by simp
  qed simp
  ultimately show ?thesis by (simp only: sql_list_trees_def list_trees_def ts_def set_sort subset_refl)
qed

end
