(* ===== verification/Authoring_Writes.thy ===== *)
theory Authoring_Writes
  imports Authoring_Rows
begin

text \<open>
  Every write of the SQLite draft store agrees with the in-memory one: the same result and related states, or both refuse.  The
  root nodes that the in-memory trees hold stay those of the node table.
\<close>

section \<open>Writes\<close>

text \<open>A call of the database against a call of the store: the same result with related states, or both refuse.\<close>

definition agrees :: "('c \<Rightarrow> 'a \<Rightarrow> bool) \<Rightarrow> 'x result \<times> 'c \<Rightarrow> 'x result \<times> 'a \<Rightarrow> bool" where
  "agrees R c a \<longleftrightarrow> (case fst a of Inl e \<Rightarrow> \<not> is_ok (fst c) | Inr x \<Rightarrow> fst c = Inr x \<and> R (snd c) (snd a))"

lemma agrees_simps [simp]:
  "agrees R (Inl e, db) (Inl e', st)" "agrees R (Inr x, db) (Inr y, st) \<longleftrightarrow> x = y \<and> R db st"
  "agrees R (write_transaction db c) a \<longleftrightarrow> agrees R c a"
  by (auto simp: agrees_def write_transaction_def is_ok_def split: sum.splits prod.splits)

lemma agrees_refused: "\<not> is_ok (fst a) \<Longrightarrow> agrees R (Inl e, db) a"
  by (auto simp: agrees_def is_ok_def split: sum.split)

text \<open>The integers of a store are those an \<open>INTEGER\<close> column takes. A call that ends in such a store binds no other integer.\<close>

definition node_fits :: "DraftTaskNode \<Rightarrow> bool" where
  "node_fits n \<longleftrightarrow> sqlite_integer (dn_order_index n) \<and> sqlite_integer (dn_version n)"

definition drafts_fit :: "InMemoryDraftTaskStore \<Rightarrow> bool" where
  "drafts_fit st \<longleftrightarrow> (\<forall>n \<in> set (dict_values (ds_nodes st)). node_fits n)
     \<and> (\<forall>t \<in> set (dict_values (ds_trees st)). sqlite_integer (dt_version t))"

definition ends_fit :: "'x result \<times> InMemoryDraftTaskStore \<Rightarrow> bool" where
  "ends_fit a \<longleftrightarrow> (is_ok (fst a) \<longrightarrow> drafts_fit (snd a))"

lemma bind_fits [simp]:
  "bind_integers [i] = (if sqlite_integer i then Inr () else Inl (OverflowError (Msg ''Python int too large to convert to SQLite INTEGER'' [])))"
  "bind_node n = (if node_fits n then Inr () else Inl (OverflowError (Msg ''Python int too large to convert to SQLite INTEGER'' [])))"
  by (auto simp: bind_integers_def bind_node_def node_fits_def)

lemma fits_stored:
  assumes "ends_fit a" "is_ok (fst a)"
  shows "dict_get (ds_nodes (snd a)) k = Some n \<Longrightarrow> node_fits n" "dict_get (ds_trees (snd a)) k = Some t \<Longrightarrow> sqlite_integer (dt_version t)"
  using assms dict_get_mem [of "ds_nodes (snd a)" k n] dict_get_mem [of "ds_trees (snd a)" k t]
  by (auto simp: ends_fit_def drafts_fit_def simp del: set_map)

lemma dict_set_keys: "\<lbrakk>\<forall>(k, v) \<in> set d. ident v = k; ident w = j\<rbrakk> \<Longrightarrow> \<forall>(k, v) \<in> set (dict_set d j w). ident v = k"
  by (induction d) auto

lemma dict_set_values: "x \<in> set (dict_values (dict_set d j w)) \<Longrightarrow> x = w \<or> x \<in> set (dict_values d)"
  by (induction d) (auto split: if_splits)

lemma rows_alike_cong:
  assumes "yd_nodes db' = yd_nodes db" "yd_trees db' = yd_trees db" "ds_nodes st' = ds_nodes st" "ds_trees st' = ds_trees st"
  shows "rows_alike P db' st' \<longleftrightarrow> rows_alike P db st"
  by (simp add: rows_alike_def drafts_ok_def assms)

lemma drafts_ok_put:
  assumes "drafts_ok st" "node_readable n" "dict_get (ds_trees st) (dn_session_id n, dn_draft_tree_id n) \<noteq> None"
  shows "drafts_ok (put_node st (node_key n) n)"
  using assms dict_set_keys [of "ds_nodes st" node_key n "node_key n"] dict_set_values [where d = "ds_nodes st" and j = "node_key n" and w = n]
  by (auto simp: drafts_ok_def simp del: set_map) blast+

lemma drafts_ok_tree:
  assumes "drafts_ok st" "tree_times_ok t"
  shows "drafts_ok (st\<lparr>ds_trees := dict_set (ds_trees st) (tree_key t) t\<rparr>)"
  using assms dict_set_keys [of "ds_trees st" tree_key t "tree_key t"] dict_set_values [where d = "ds_trees st" and j = "tree_key t" and w = t]
  by (auto simp: drafts_ok_def simp del: set_map) blast+

lemma alike_insert:
  assumes "rows_alike P db st" "dict_get (ds_nodes st) (node_key n) = None" "node_readable n"
    and "dict_get (ds_trees st) (dn_session_id n, dn_draft_tree_id n) \<noteq> None"
  shows "rows_alike P (db\<lparr>yd_nodes := yd_nodes db @ [node_row_of P n]\<rparr>) (put_node st (node_key n) n)"
  using assms drafts_ok_put [of st n] by (simp add: rows_alike_def values_fresh del: map_map)

lemma alike_update:
  assumes "rows_alike P db st" "dict_get (ds_nodes st) (node_key n) \<noteq> None" "node_readable n"
    and "dict_get (ds_trees st) (dn_session_id n, dn_draft_tree_id n) \<noteq> None"
    and "node_fits n"
  obtains db' where "update_node_row P n db = Inr db'" "rows_alike P db' (put_node st (node_key n) n)"
proof -
  have rows: "yd_nodes db = map (node_row_of P) (dict_values (ds_nodes st))" and ok: "drafts_ok st"
    using assms(1) by (simp_all add: rows_alike_def)
  have "dict_values (dict_set (ds_nodes st) (node_key n) n) =
      map (\<lambda>m. if node_key m = node_key n then n else m) (dict_values (ds_nodes st))"
    using ok assms(2) by (intro update_values) (simp_all add: drafts_ok_def)
  then have "map (\<lambda>q. if node_row_key q = node_key n then node_row_of P n else q) (yd_nodes db) =
      map (node_row_of P) (dict_values (dict_set (ds_nodes st) (node_key n) n))"
    unfolding rows by simp
  then have "rows_alike P (db\<lparr>yd_nodes := map (\<lambda>q. if node_row_key q = node_key n then node_row_of P n else q) (yd_nodes db)\<rparr>)
      (put_node st (node_key n) n)"
    using assms(1) drafts_ok_put [OF ok assms(3,4)] by (simp add: rows_alike_def del: map_map)
  then show ?thesis using assms(5) by (intro that) (simp_all add: update_node_row_def)
qed

lemma alike_insert_tree:
  assumes "rows_alike P db st" "dict_get (ds_trees st) (tree_key t) = None" "tree_times_ok t"
  shows "rows_alike P (db\<lparr>yd_trees := yd_trees db @ [tree_row_of t]\<rparr>) (st\<lparr>ds_trees := dict_set (ds_trees st) (tree_key t) t\<rparr>)"
  using assms drafts_ok_tree [of st t] by (simp add: rows_alike_def values_fresh del: map_map)

lemma map_update_rows:
  assumes "\<And>m. m \<in> set vs \<Longrightarrow> row_key (row m) = ident m" "\<And>m. \<lbrakk>m \<in> set vs; ident m = k\<rbrakk> \<Longrightarrow> g (row m) = row u"
  shows "map (\<lambda>r. if row_key r = k then g r else r) (map row vs) = map row (map (\<lambda>m. if ident m = k then u else m) vs)"
  using assms by (induction vs) auto

lemma alike_update_tree:
  assumes "rows_alike P db st" "dict_get (ds_trees st) (tree_key u) = Some t" "tree_times_ok u"
    and "u = t\<lparr>dt_root_nodes := rs, dt_version := v, dt_updated_at := now\<rparr>"
  shows "rows_alike P (db\<lparr>yd_trees := map (\<lambda>r. if tree_row_key r = tree_key u then r\<lparr>yt_version := v, yt_updated_at := isoformat now\<rparr> else r)
     (yd_trees db)\<rparr>) (st\<lparr>ds_trees := dict_set (ds_trees st) (tree_key u) u\<rparr>)"
proof -
  have rows: "yd_trees db = map tree_row_of (dict_values (ds_trees st))" and ok: "drafts_ok st"
    using assms(1) by (simp_all add: rows_alike_def)
  have keys: "dict_ok (ds_trees st)" "\<forall>(k, t) \<in> set (ds_trees st). tree_key t = k" using ok by (simp_all add: drafts_ok_def)
  have "dict_values (dict_set (ds_trees st) (tree_key u) u) =
      map (\<lambda>m. if tree_key m = tree_key u then u else m) (dict_values (ds_trees st))"
    using keys assms(2) by (intro update_values) simp_all
  moreover have "tree_row_of u = (tree_row_of t)\<lparr>yt_version := v, yt_updated_at := isoformat now\<rparr>"
    by (simp add: assms(4) tree_row_of_def)
  moreover have "m = t" if m: "m \<in> set (dict_values (ds_trees st))" "tree_key m = tree_key u" for m
  proof -
    obtain k where k: "dict_get (ds_trees st) k = Some m" using m(1) unfolding dict_values_mem [OF keys(1)] by (rule exE)
    then have "k = tree_key u" using keys(2) m(2) by (auto dest!: map_of_SomeD)
    then show ?thesis using assms(2) k by simp
  qed
  ultimately have "map (\<lambda>r. if tree_row_key r = tree_key u then r\<lparr>yt_version := v, yt_updated_at := isoformat now\<rparr> else r) (yd_trees db) =
      map tree_row_of (dict_values (dict_set (ds_trees st) (tree_key u) u))"
    unfolding rows by (simp only:) (rule map_update_rows, simp_all del: set_map)
  then show ?thesis using assms(1) drafts_ok_tree [OF ok assms(3)] by (simp add: rows_alike_def del: map_map)
qed

lemma tree_row_version [simp]: "yt_version (tree_row_of t) = dt_version t"
  by (simp add: tree_row_of_def)

lemma bump_alike:
  assumes "rows_alike P db st" "datetime_ok now" "ends_fit (bump_tree st sid tid now)"
  shows "agrees (rows_alike P) (sql_bump_tree P db sid tid now) (bump_tree st sid tid now)"
proof (cases "dict_get (ds_trees st) (sid, tid)")
  case None
  then show ?thesis by (simp add: sql_bump_tree_def bump_tree_def alike_tree_row [OF assms(1)] get_tree_def)
next
  case (Some t)
  have t: "tree_times_ok t" "tree_key t = (sid, tid)" using stored_readable(3) [OF assms(1) Some] by simp_all
  define u where "u = t\<lparr>dt_root_nodes := tree_roots st (sid, tid), dt_version := dt_version t + 1, dt_updated_at := now\<rparr>"
  have u: "tree_key u = (sid, tid)" "tree_times_ok u" using t assms(2) by (simp_all add: u_def tree_times_ok_def)
  define db' where "db' = db\<lparr>yd_trees := map (\<lambda>r. if tree_row_key r = (sid, tid)
    then r\<lparr>yt_version := dt_version t + 1, yt_updated_at := isoformat now\<rparr> else r) (yd_trees db)\<rparr>"
  define st' where "st' = st\<lparr>ds_trees := dict_set (ds_trees st) (sid, tid) u\<rparr>"
  have alike: "rows_alike P db' st'"
    using alike_update_tree [OF assms(1), where u = u and t = t and rs = "tree_roots st (sid, tid)" and v = "dt_version t + 1" and now = now] Some u
    unfolding db'_def st'_def u(1) by (simp add: u_def)
  have "tree_roots st' (sid, tid) = tree_roots st (sid, tid)" by (simp add: tree_roots_def st'_def)
  then have "u\<lparr>dt_root_nodes := tree_roots st' (tree_key u)\<rparr> = u" unfolding u(1) by (simp add: u_def)
  moreover have "get_tree st' sid tid = Inr u" by (simp add: get_tree_def st'_def)
  ultimately have "sql_get_tree P db' sid tid = readable_row ''DraftTaskTree'' (DraftTaskTree_validate u)"
    using alike_tree_row [OF alike] alike_tree_from_row [OF alike u(2)] by (simp add: sql_get_tree_def)
  then have get: "sql_get_tree P db' sid tid = readable_row ''DraftTaskTree'' (DraftTaskTree_validate u)" .
  have row: "sql_tree_row db sid tid = Inr (tree_row_of t)" using Some by (simp add: alike_tree_row [OF assms(1)] get_tree_def)
  have sql: "sql_bump_tree P db sid tid now = (readable_row ''DraftTaskTree'' (DraftTaskTree_validate u), db')" if "sqlite_integer (dt_version t + 1)"
    using that unfolding sql_bump_tree_def row sum.case Let_def tree_row_version db'_def [symmetric] get by simp
  have mem: "bump_tree st sid tid now = (case DraftTaskTree_validate u of Inl e \<Rightarrow> (Inl e, st) | Inr v \<Rightarrow> (Inr v, st\<lparr>ds_trees := dict_set (ds_trees st) (sid, tid) v\<rparr>))"
    using Some by (simp add: bump_tree_def u_def tree_roots_def Let_def)
  show ?thesis
  proof (cases "DraftTaskTree_validate u")
    case (Inl e)
    then have "\<not> is_ok (fst (sql_bump_tree P db sid tid now))"
      by (cases "sqlite_integer (dt_version t + 1)") (simp_all add: sql, simp add: sql_bump_tree_def row)
    then show ?thesis using Inl by (simp add: mem agrees_def)
  next
    case (Inr v)
    then have v: "v = u" using DraftTaskTree_validate_cases by blast
    then have "sqlite_integer (dt_version t + 1)"
      using fits_stored(2) [OF assms(3), of "(sid, tid)" u] Inr by (simp add: mem u_def)
    then show ?thesis using Inr v alike by (simp add: sql mem st'_def)
  qed
qed

lemma bump_and_return_alike:
  assumes "rows_alike P db st" "datetime_ok now" "ends_fit (bump_and_return st sid tid now x)"
  shows "agrees (rows_alike P) (sql_bump_and_return P db sid tid now x) (bump_and_return st sid tid now x)"
proof -
  have "ends_fit (bump_tree st sid tid now)" using assms(3) by (simp add: ends_fit_def)
  from bump_alike [OF assms(1,2) this] show ?thesis
    by (auto simp: agrees_def sql_bump_and_return_def bump_and_return_def is_ok_def split: prod.splits sum.splits)
qed

lemma load_nodes_values:
  "is_ok (fst (load_nodes tid ns st)) \<Longrightarrow> dict_values (ds_nodes (snd (load_nodes tid ns st))) = dict_values (ds_nodes st) @ ns"
proof (induction tid ns st rule: load_nodes.induct)
  case (2 tid n ns st)
  then show ?case by (auto simp: Let_def values_fresh split: if_splits)
qed simp

lemma insert_nodes_alike:
  assumes "rows_alike P db st" "\<forall>n \<in> set ns. node_readable n \<and> dict_get (ds_trees st) (dn_session_id n, dn_draft_tree_id n) \<noteq> None"
    and "is_ok (fst (load_nodes tid ns st)) \<Longrightarrow> \<forall>n \<in> set ns. node_fits n"
  shows "case insert_nodes P ns db of Inr (Some db') \<Rightarrow> fst (load_nodes tid ns st) = Inr () \<and> rows_alike P db' (snd (load_nodes tid ns st))
    | _ \<Rightarrow> \<not> is_ok (fst (load_nodes tid ns st))"
  using assms
proof (induction ns arbitrary: db st)
  case (Cons n ns)
  show ?case
  proof (cases "dict_get (ds_nodes st) (node_key n)")
    case None
    let ?db = "db\<lparr>yd_nodes := yd_nodes db @ [node_row_of P n]\<rparr>"
    let ?st = "put_node_tree (put_node st (node_key n) n) (node_key n) tid"
    have "rows_alike P ?db (put_node st (node_key n) n)" using Cons.prems None by (intro alike_insert) simp_all
    then have alike: "rows_alike P ?db ?st" using rows_alike_cong [of ?db ?db ?st "put_node st (node_key n) n" P] by simp
    have mem: "load_nodes tid (n # ns) st = load_nodes tid ns ?st" using None by (simp add: Let_def)
    show ?thesis
    proof (cases "node_fits n")
      case True
      then have step: "insert_nodes P (n # ns) db = insert_nodes P ns ?db"
        using None alike_find(2) [OF Cons.prems(1), of "node_key n"] by simp
      show ?thesis unfolding step mem by (rule Cons.IH [OF alike]) (use Cons.prems(2,3) mem in simp_all)
    next
      case False
      then show ?thesis using Cons.prems(3) by auto
    qed
  next
    case (Some m)
    then show ?thesis using alike_find(2) [OF Cons.prems(1), of "node_key n"] by (simp add: Let_def)
  qed
qed simp

lemma load_nodes_fit:
  assumes "is_ok (fst (load_nodes tid ns st))" "drafts_fit (snd (load_nodes tid ns st))"
  shows "\<forall>n \<in> set ns. node_fits n"
  using assms(2) unfolding drafts_fit_def load_nodes_values [OF assms(1)] by simp

lemma create_tree_built: "create_tree st sid roots title summary tid clock =
    (case build_tree sid roots title summary tid clock of
       Inl e \<Rightarrow> (Inl e, st)
     | Inr tree \<Rightarrow> (case load_tree st tree of (Inl e, st') \<Rightarrow> (Inl e, st') | (Inr _, st') \<Rightarrow> (Inr tree, st')))"
  by (simp add: create_tree_def build_tree_def)

text \<open>The parts of a tree that was built.\<close>

lemma build_tree_parts:
  assumes "build_tree sid roots title summary tid clock = Inr t" "\<forall>r \<in> set roots. datetime_ok (dn_created_at r) \<and> datetime_ok (dn_updated_at r)"
    and "\<forall>k. datetime_ok (clock k)"
  shows "tree_key t = (sid, tid)" "tree_times_ok t" "DraftTaskTree_valid t"
    "\<forall>n \<in> set (dt_root_nodes t). node_readable n \<and> in_tree sid tid n \<and> dn_parent_draft_task_id n = None"
    "sort_nodes (dt_root_nodes t) = dt_root_nodes t" "sqlite_integer (dt_version t)"
proof -
  obtain ns where ns: "those_ok (map (\<lambda>r. DraftTaskNode_validate (r\<lparr>dn_session_id := sid, dn_draft_tree_id := tid,
      dn_parent_draft_task_id := None\<rparr>)) roots) = Inr ns"
    and t: "DraftTaskTree_validate \<lparr>dt_draft_tree_id = tid, dt_session_id = sid, dt_title = title, dt_summary = summary,
      dt_root_nodes = sort_nodes ns, dt_created_by = dn_created_by (hd ns), dt_version = 1, dt_created_at = clock 0,
      dt_updated_at = clock 1\<rparr> = Inr t"
    using assms(1) by (auto simp: build_tree_def elim: bind_ok_InrE split: if_splits)
  note tree = DraftTaskTree_validate_cases [OF t]
  show "tree_key t = (sid, tid)" "tree_times_ok t" "DraftTaskTree_valid t" "sort_nodes (dt_root_nodes t) = dt_root_nodes t"
    "sqlite_integer (dt_version t)"
    using tree assms(3) by (simp_all add: tree_times_ok_def sqlite_integer_def)
  have "\<forall>n \<in> set ns. node_readable n \<and> in_tree sid tid n \<and> dn_parent_draft_task_id n = None"
    using ns assms(2)
  proof (induction roots arbitrary: ns)
    case (Cons r roots)
    then obtain n ms where n: "DraftTaskNode_validate (r\<lparr>dn_session_id := sid, dn_draft_tree_id := tid, dn_parent_draft_task_id := None\<rparr>) = Inr n"
      and ms: "those_ok (map (\<lambda>r. DraftTaskNode_validate (r\<lparr>dn_session_id := sid, dn_draft_tree_id := tid,
        dn_parent_draft_task_id := None\<rparr>)) roots) = Inr ms" and "ns = n # ms"
      by (auto elim!: bind_ok_InrE map_ok_InrE)
    with DraftTaskNode_validate_cases [OF n] Cons.IH [OF ms] Cons.prems(2) show ?case
      by (auto simp: node_readable_def in_tree_def)
  qed simp
  then show "\<forall>n \<in> set (dt_root_nodes t). node_readable n \<and> in_tree sid tid n \<and> dn_parent_draft_task_id n = None"
    using tree by simp
qed

lemma create_tree_alike:
  assumes "rows_alike P db st" "\<forall>r \<in> set roots. datetime_ok (dn_created_at r) \<and> datetime_ok (dn_updated_at r)" "\<forall>k. datetime_ok (clock k)"
    and "ends_fit (create_tree st sid roots title summary tid clock)"
  shows "agrees (rows_alike P) (sql_create_tree P db sid roots title summary tid clock) (create_tree st sid roots title summary tid clock)"
proof (cases "build_tree sid roots title summary tid clock")
  case (Inl e)
  then show ?thesis by (simp add: sql_create_tree_def create_tree_built)
next
  case (Inr t)
  note parts = build_tree_parts [OF Inr assms(2,3)]
  show ?thesis
  proof (cases "dict_get (ds_trees st) (sid, tid)")
    case (Some u)
    then show ?thesis
      using parts(1,6) alike_find(4) [OF assms(1), of "(sid, tid)"] Inr
      by (simp add: sql_create_tree_def create_tree_built load_tree_def Let_def)
  next
    case None
    let ?db = "db\<lparr>yd_trees := yd_trees db @ [tree_row_of t]\<rparr>" and ?st = "st\<lparr>ds_trees := dict_set (ds_trees st) (sid, tid) t\<rparr>"
    have alike: "rows_alike P ?db ?st" using alike_insert_tree [OF assms(1) _ parts(2)] None unfolding parts(1) by simp
    have load: "load_tree st t = load_nodes tid (dt_root_nodes t) ?st" using parts(1) None by (simp add: load_tree_def Let_def)
    have ins: "case insert_nodes P (dt_root_nodes t) ?db of Inr (Some db') \<Rightarrow> fst (load_nodes tid (dt_root_nodes t) ?st) = Inr ()
        \<and> rows_alike P db' (snd (load_nodes tid (dt_root_nodes t) ?st))
      | _ \<Rightarrow> \<not> is_ok (fst (load_nodes tid (dt_root_nodes t) ?st))"
    proof (rule insert_nodes_alike [OF alike])
      show "\<forall>n \<in> set (dt_root_nodes t). node_fits n" if ok: "is_ok (fst (load_nodes tid (dt_root_nodes t) ?st))"
      proof (rule load_nodes_fit [OF ok])
        show "drafts_fit (snd (load_nodes tid (dt_root_nodes t) ?st))"
          using ok assms(4) by (simp add: ends_fit_def create_tree_built Inr load split: prod.splits sum.splits)
      qed
    qed (use parts(4) in \<open>auto simp: in_tree_def\<close>)
    have new: "\<not> list_ex (\<lambda>q. tree_row_key q = (sid, tid)) (yd_trees db)" using alike_find(4) [OF assms(1)] None by simp
    have sql: "agrees (rows_alike P) (sql_create_tree P db sid roots title summary tid clock) a \<longleftrightarrow>
        agrees (rows_alike P) (case insert_nodes P (dt_root_nodes t) ?db of
          Inl e \<Rightarrow> (Inl e, db)
        | Inr None \<Rightarrow> (Inl (TaskStoreError (Msg ''DraftTaskTree or DraftTaskNode already exists'' [])), db)
        | Inr (Some db') \<Rightarrow> (Inr t, db')) a" for a
      using parts(6) by (simp add: sql_create_tree_def Inr Let_def new)
    have mem: "create_tree st sid roots title summary tid clock =
        (case load_nodes tid (dt_root_nodes t) ?st of (Inl e, st') \<Rightarrow> (Inl e, st') | (Inr _, st') \<Rightarrow> (Inr t, st'))"
      by (simp add: create_tree_built Inr load)
    obtain r st' where l: "load_nodes tid (dt_root_nodes t) ?st = (r, st')" by (meson surj_pair)
    show ?thesis
      unfolding sql mem using ins unfolding l
      by (cases r) (auto simp: is_ok_def split: sum.splits option.splits)
  qed
qed

lemma alike_node: "rows_alike P db st \<Longrightarrow> get_node st sid i = dict_get (ds_nodes st) (sid, i)"
  using get_node_inv [OF drafts_ok_inv] by (metis not_None_eq rows_alike_def)

text \<open>A tree that a call found is in the database, and so are the trees of the stored nodes.\<close>

lemma alike_owned:
  "\<lbrakk>rows_alike P db st; dict_get (ds_nodes st) k = Some n\<rbrakk> \<Longrightarrow> dict_get (ds_trees st) (dn_session_id n, dn_draft_tree_id n) \<noteq> None"
  using dict_get_mem [of "ds_nodes st" k n] unfolding rows_alike_def drafts_ok_def by blast

lemma add_node_alike:
  assumes "rows_alike P db st" "datetime_ok now" "ends_fit (add_node st sid tid node e (\<lambda>_. now))"
  shows "agrees (rows_alike P) (sql_add_node P db sid tid node e (\<lambda>_. now)) (add_node st sid tid node e (\<lambda>_. now))"
proof -
  let ?guard = "bind_ok (get_tree st sid tid) (\<lambda>tree.
     bind_ok (check_version (dt_version tree) e tid) (\<lambda>_.
     bind_ok (if dict_get (ds_nodes st) (sid, dn_draft_task_id node) \<noteq> None
              then Inl (TaskStoreError (Msg ''DraftTaskNode {} already exists'' [dn_draft_task_id node])) else Inr ()) (\<lambda>_.
     bind_ok (check_parent st sid tid (dn_parent_draft_task_id node) ''parent DraftTaskNode {} not found'') (\<lambda>_.
     DraftTaskNode_validate (node\<lparr>dn_session_id := sid, dn_draft_tree_id := tid, dn_created_at := now, dn_updated_at := now\<rparr>)))))"
  have same: "bind_ok (sql_tree_row db sid tid) (\<lambda>q.
     bind_ok (check_version (yt_version q) e tid) (\<lambda>_.
     bind_ok (sql_get_node P db sid (dn_draft_task_id node)) (\<lambda>found.
     bind_ok (if found \<noteq> None then Inl (TaskStoreError (Msg ''DraftTaskNode {} already exists'' [dn_draft_task_id node])) else Inr ()) (\<lambda>_.
     bind_ok (sql_check_parent P db sid tid (dn_parent_draft_task_id node) ''parent DraftTaskNode {} not found'') (\<lambda>_.
     DraftTaskNode_validate (node\<lparr>dn_session_id := sid, dn_draft_tree_id := tid, dn_created_at := now, dn_updated_at := now\<rparr>)))))) = ?guard"
    by (cases "get_tree st sid tid") (simp_all add: alike_tree_row [OF assms(1)] alike_get_node [OF assms(1)] alike_check_parent [OF assms(1)] alike_node [OF assms(1)])
  show ?thesis
  proof (cases ?guard)
    case (Inl e)
    show ?thesis unfolding sql_add_node_def add_node_def Let_def same Inl by simp
  next
    case (Inr n)
    then obtain t where t: "get_tree st sid tid = Inr t" and new: "dict_get (ds_nodes st) (sid, dn_draft_task_id node) = None"
      and n: "DraftTaskNode_validate (node\<lparr>dn_session_id := sid, dn_draft_tree_id := tid, dn_created_at := now, dn_updated_at := now\<rparr>) = Inr n"
      by (auto elim!: bind_ok_InrE split: if_splits)
    have n': "node_key n = (sid, dn_draft_task_id node)" "node_readable n" "(dn_session_id n, dn_draft_tree_id n) = (sid, tid)"
      using DraftTaskNode_validate_cases [OF n] assms(2) by (auto simp: node_readable_def)
    let ?db = "db\<lparr>yd_nodes := yd_nodes db @ [node_row_of P n]\<rparr>"
    let ?st = "put_node_tree (put_node st (sid, dn_draft_task_id node) n) (sid, dn_draft_task_id node) tid"
    have "rows_alike P ?db (put_node st (node_key n) n)"
      using t new n' by (intro alike_insert [OF assms(1)]) (simp_all add: get_tree_version)
    then have alike: "rows_alike P ?db ?st" using rows_alike_cong [of ?db ?db ?st "put_node st (node_key n) n" P] n'(1) by simp
    have mem: "add_node st sid tid node e (\<lambda>_. now) = bump_and_return ?st sid tid now n"
      unfolding add_node_def Let_def Inr sum.case ..
    have sql: "agrees R (sql_add_node P db sid tid node e (\<lambda>_. now)) a \<longleftrightarrow> agrees R
        (case insert_nodes P [n] db of Inl e \<Rightarrow> (Inl e, db)
         | Inr None \<Rightarrow> (Inl (TaskStoreError (Msg ''DraftTaskNode {} already exists'' [dn_draft_task_id node])), db)
         | Inr (Some db') \<Rightarrow> sql_bump_and_return P db' sid tid now n) a" for R and a :: "DraftTaskNode result \<times> InMemoryDraftTaskStore"
      unfolding sql_add_node_def Let_def same Inr sum.case agrees_simps(3) ..
    show ?thesis
    proof (cases "node_fits n")
      case True
      then have ins: "insert_nodes P [n] db = Inr (Some ?db)" using alike_find(2) [OF assms(1), of "node_key n"] new n'(1) by simp
      show ?thesis
        unfolding sql ins sum.case option.case mem by (rule bump_and_return_alike [OF alike assms(2)]) (use assms(3) mem in simp)
    next
      case False
      then have "\<not> is_ok (fst (bump_and_return ?st sid tid now n))"
        using fits_stored(1) [OF assms(3), of "(sid, dn_draft_task_id node)" n] unfolding mem by auto
      then show ?thesis using False unfolding sql mem by (simp add: agrees_refused)
    qed
  qed
qed

lemma update_node_alike:
  assumes "rows_alike P db st" "datetime_ok now" "ends_fit (update_node st sid i patch e (\<lambda>_. now))"
  shows "agrees (rows_alike P) (sql_update_node P db sid i patch e (\<lambda>_. now)) (update_node st sid i patch e (\<lambda>_. now))"
proof (cases "dict_get (ds_nodes st) (sid, i)")
  case None
  then show ?thesis by (simp add: sql_update_node_def update_node_def alike_get_node [OF assms(1)] alike_node [OF assms(1)])
next
  case (Some n)
  have key: "node_key n = (sid, i)" using store_inv_key [OF drafts_ok_inv Some] assms(1) by (simp add: rows_alike_def)
  have get: "get_node st sid i = Some n" using Some alike_node [OF assms(1)] by simp
  show ?thesis
  proof (cases "dn_status n = Draft \<and> patch_children_ops patch = [] \<and> patch_status patch \<noteq> Some ''published''")
    case False
    then show ?thesis by (auto simp: sql_update_node_def update_node_def alike_get_node [OF assms(1)] get)
  next
    case True
    show ?thesis
    proof (cases "bind_ok (check_version (dn_version n) e i) (\<lambda>_. patched_node n patch now)")
      case (Inl x)
      then show ?thesis using True by (simp add: sql_update_node_def update_node_def alike_get_node [OF assms(1)] get)
    next
      case (Inr m)
      then have m: "patched_node n patch now = Inr m" by (auto elim!: bind_ok_InrE)
      have valid: "DraftTaskNode_valid m" "dn_updated_at m = now" "dn_created_at m = dn_created_at n" "node_key m = (sid, i)"
        "dn_draft_tree_id m = dn_draft_tree_id n"
        using m key by (auto simp: patched_node_def elim!: bind_ok_InrE dest!: DraftTaskNode_validate_cases)
      have mem: "update_node st sid i patch e (\<lambda>_. now) = bump_and_return (put_node st (sid, i) m) sid (dn_draft_tree_id n) now m"
        using True Inr by (simp add: update_node_def get)
      have sql: "agrees R (sql_update_node P db sid i patch e (\<lambda>_. now)) a \<longleftrightarrow> agrees R
          (case update_node_row P m db of Inl e \<Rightarrow> (Inl e, db)
           | Inr db' \<Rightarrow> sql_bump_and_return P db' sid (dn_draft_tree_id n) now m) a" for R and a :: "DraftTaskNode result \<times> InMemoryDraftTaskStore"
        using True Inr by (simp add: sql_update_node_def alike_get_node [OF assms(1)] get)
      show ?thesis
      proof (cases "node_fits m")
        case True
        obtain db' where db': "update_node_row P m db = Inr db'" "rows_alike P db' (put_node st (node_key m) m)"
          using alike_update [OF assms(1), of m] valid key Some assms(2) stored_readable(2) [OF assms(1) Some] alike_owned [OF assms(1) Some] True
          by (auto simp: node_readable_def)
        have alike: "rows_alike P db' (put_node st (sid, i) m)" using db'(2) unfolding valid(4) .
        show ?thesis
          unfolding sql db'(1) sum.case mem by (rule bump_and_return_alike [OF alike assms(2)]) (use assms(3) mem in simp)
      next
        case False
        then have "\<not> is_ok (fst (bump_and_return (put_node st (sid, i) m) sid (dn_draft_tree_id n) now m))"
          using fits_stored(1) [OF assms(3), of "(sid, i)" m] unfolding mem by auto
        then show ?thesis using False unfolding sql mem by (simp add: agrees_refused update_node_row_def)
      qed
    qed
  qed
qed

lemma set_statuses_keeps:
  "k \<notin> (\<lambda>n. (sid, dn_draft_task_id n)) ` set ns \<Longrightarrow> dict_get (ds_nodes (snd (set_statuses s sid clock ns st))) k = dict_get (ds_nodes st) k"
  by (induction ns arbitrary: clock st) (auto split: sum.split)

text \<open>Either the updates agree or one of them binds an integer that is too large, which the in-memory store then holds.\<close>

lemma set_statuses_alike:
  assumes "rows_alike P db st" "\<forall>k. datetime_ok (clock k)" "distinct (map dn_draft_task_id ns)"
    and "\<forall>n \<in> set ns. dict_get (ds_nodes st) (sid, dn_draft_task_id n) = Some n"
  shows "agrees (rows_alike P) (sql_set_statuses P s clock ns db) (set_statuses s sid clock ns st)
    \<or> \<not> is_ok (fst (sql_set_statuses P s clock ns db))
      \<and> (\<exists>k n. dict_get (ds_nodes (snd (set_statuses s sid clock ns st))) k = Some n \<and> \<not> node_fits n)"
  using assms
proof (induction ns arbitrary: clock db st)
  case (Cons n ns)
  let ?n = "n\<lparr>dn_status := s, dn_version := dn_version n + 1, dn_updated_at := clock 0\<rparr>"
  let ?st = "put_node st (sid, dn_draft_task_id n) ?n"
  have stored: "dict_get (ds_nodes st) (sid, dn_draft_task_id n) = Some n" using Cons.prems(4) by simp
  have key: "node_key n = (sid, dn_draft_task_id n)"
    using store_inv_key [OF drafts_ok_inv stored] Cons.prems(1) by (simp add: rows_alike_def)
  consider e where "DraftTaskNode_validate ?n = Inl e" | "DraftTaskNode_validate ?n = Inr ?n" "\<not> node_fits ?n"
    | "DraftTaskNode_validate ?n = Inr ?n" "DraftTaskNode_valid ?n" "node_fits ?n"
    using DraftTaskNode_validate_cases [of ?n] by (cases "DraftTaskNode_validate ?n") auto
  then show ?case
  proof cases
    case 2
    have "(sid, dn_draft_task_id n) \<notin> (\<lambda>n. (sid, dn_draft_task_id n)) ` set ns" using Cons.prems(3) by auto
    from set_statuses_keeps [OF this, of s "\<lambda>k. clock (Suc k)" ?st]
    have "dict_get (ds_nodes (snd (set_statuses s sid clock (n # ns) st))) (sid, dn_draft_task_id n) = Some ?n" using 2(1) by simp
    moreover have "\<not> is_ok (fst (sql_set_statuses P s clock (n # ns) db))" using 2 by (simp add: update_node_row_def)
    ultimately show ?thesis using 2(2) by blast
  next
    case 3
    obtain db' where db': "update_node_row P ?n db = Inr db'" "rows_alike P db' (put_node st (node_key ?n) ?n)"
      using stored key 3 Cons.prems(2) stored_readable(2) [OF Cons.prems(1) stored] alike_owned [OF Cons.prems(1) stored]
      by (elim alike_update [OF Cons.prems(1), of ?n, rotated -1]) (simp_all add: node_readable_def)
    have alike: "rows_alike P db' ?st" using db'(2) key by simp
    have "\<forall>l \<in> set ns. dict_get (ds_nodes ?st) (sid, dn_draft_task_id l) = Some l"
      using Cons.prems(3,4) by (auto simp: image_iff)
    from Cons.IH [OF alike _ _ this, of "\<lambda>k. clock (Suc k)"] Cons.prems(2,3) show ?thesis using 3(1) db'(1) by simp
  qed simp
qed simp

text \<open>The common end of both marks.\<close>

lemma statuses_bump_alike:
  assumes "rows_alike P db st" "datetime_ok now" "list_nodes st sid tid = Inr nodes"
    and "\<And>db'. yd_nodes (f db') = yd_nodes db' \<and> yd_trees (f db') = yd_trees db'"
    and "\<And>st'. ds_nodes (g st') = ds_nodes st' \<and> ds_trees (g st') = ds_trees st'"
    and "ends_fit (case set_statuses s sid (\<lambda>_. now) (filter Q nodes) st of
       (Inl e, st') \<Rightarrow> (Inl e, st') | (Inr c, st') \<Rightarrow> bump_tree (g st') sid tid (c 0))"
  shows "agrees (rows_alike P)
    (case sql_set_statuses P s (\<lambda>_. now) (filter Q nodes) db of
       (Inl e, db') \<Rightarrow> (Inl e, db') | (Inr c, db') \<Rightarrow> sql_bump_tree P (f db') sid tid (c 0))
    (case set_statuses s sid (\<lambda>_. now) (filter Q nodes) st of
       (Inl e, st') \<Rightarrow> (Inl e, st') | (Inr c, st') \<Rightarrow> bump_tree (g st') sid tid (c 0))"
proof -
  have inv: "store_inv st" using assms(1) drafts_ok_inv by (auto simp: rows_alike_def)
  have split: "agrees (rows_alike P) (sql_set_statuses P s (\<lambda>_. now) (filter Q nodes) db) (set_statuses s sid (\<lambda>_. now) (filter Q nodes) st)
      \<or> \<not> is_ok (fst (sql_set_statuses P s (\<lambda>_. now) (filter Q nodes) db))
        \<and> (\<exists>k n. dict_get (ds_nodes (snd (set_statuses s sid (\<lambda>_. now) (filter Q nodes) st))) k = Some n \<and> \<not> node_fits n)"
    using list_nodes_stored [OF inv assms(3)] assms(2)
    by (intro set_statuses_alike [OF assms(1)]) (auto simp: distinct_map_filter)
  have "c = (\<lambda>_. now)" if "set_statuses s sid (\<lambda>_. now) ns st0 = (Inr c, st')" for c st' ns st0
    using that by (induction ns arbitrary: st0) (auto split: sum.splits)
  note clock = this
  obtain r db' r' st' where calls: "sql_set_statuses P s (\<lambda>_. now) (filter Q nodes) db = (r, db')"
    "set_statuses s sid (\<lambda>_. now) (filter Q nodes) st = (r', st')" by (meson surj_pair)
  show ?thesis
  proof (cases r')
    case (Inl e)
    then obtain x where "r = Inl x" using split by (cases r) (auto simp: calls agrees_def)
    then show ?thesis by (simp add: calls Inl)
  next
    case (Inr c)
    have bump: "ends_fit (bump_tree (g st') sid tid (c 0))" using assms(6) by (simp add: calls Inr)
    show ?thesis
    proof (cases r)
      case (Inl e)
      then obtain k n where "dict_get (ds_nodes st') k = Some n" "\<not> node_fits n"
        using split Inr by (auto simp: calls agrees_def)
      then have "\<not> is_ok (fst (bump_tree (g st') sid tid (c 0)))"
        using fits_stored(1) [OF bump, of k n] assms(5) [of st'] by auto
      then show ?thesis using agrees_refused by (simp add: calls Inl Inr)
    next
      case (Inr c')
      then have r: "r = Inr c" "rows_alike P db' st'" using split \<open>r' = Inr c\<close> by (auto simp: calls agrees_def)
      have "rows_alike P (f db') (g st')" using r(2) assms(4) [of db'] assms(5) [of st'] rows_alike_cong by blast
      moreover have "c = (\<lambda>_. now)" using clock calls(2) \<open>r' = Inr c\<close> by blast
      ultimately show ?thesis using bump_alike [OF _ assms(2)] bump by (simp add: calls \<open>r' = Inr c\<close> r(1))
    qed
  qed
qed

lemma mark_accepted_alike:
  assumes "rows_alike P db st" "datetime_ok now" "ends_fit (mark_accepted st sid tid e (\<lambda>_. now))"
  shows "agrees (rows_alike P) (sql_mark_accepted P db sid tid e (\<lambda>_. now)) (mark_accepted st sid tid e (\<lambda>_. now))"
proof -
  let ?guard = "bind_ok (get_tree st sid tid) (\<lambda>tree. bind_ok (check_version (dt_version tree) e tid) (\<lambda>_.
     bind_ok (list_nodes st sid tid) (\<lambda>nodes. map_ok (\<lambda>_. nodes) (refuse_status (\<lambda>n. dn_status n \<notin> {Draft, Accepted})
       (\<lambda>n. Msg ''cannot accept draft tree with {} node {}'' [draft_status_str (dn_status n), dn_draft_task_id n]) nodes))))"
  have same: "bind_ok (sql_tree_row db sid tid) (\<lambda>q. bind_ok (check_version (yt_version q) e tid) (\<lambda>_.
     bind_ok (sql_list_nodes P db sid tid) (\<lambda>nodes. map_ok (\<lambda>_. nodes) (refuse_status (\<lambda>n. dn_status n \<notin> {Draft, Accepted})
       (\<lambda>n. Msg ''cannot accept draft tree with {} node {}'' [draft_status_str (dn_status n), dn_draft_task_id n]) nodes)))) = ?guard"
    by (cases "get_tree st sid tid") (simp_all add: alike_tree_row [OF assms(1)] alike_list_nodes [OF assms(1)])
  show ?thesis
  proof (cases ?guard)
    case (Inl x)
    show ?thesis unfolding sql_mark_accepted_def mark_accepted_def same Inl by simp
  next
    case (Inr nodes)
    then have "list_nodes st sid tid = Inr nodes" by (auto elim!: bind_ok_InrE map_ok_InrE)
    from statuses_bump_alike [OF assms(1,2) this, of "\<lambda>d. d" "\<lambda>d. d"] assms(3) [unfolded mark_accepted_def Inr sum.case] show ?thesis
      unfolding sql_mark_accepted_def mark_accepted_def same Inr sum.case agrees_simps(3) by simp
  qed
qed

text \<open>The one place where the stores differ: the SQLite store wants the mapped nodes in the tree, the other in the session.\<close>

definition mappings_local :: "InMemoryDraftTaskStore \<Rightarrow> string \<Rightarrow> string \<Rightarrow> DraftToPublishedMapping list \<Rightarrow> bool" where
  "mappings_local st sid tid ms \<longleftrightarrow> list_all (\<lambda>m. case get_node st sid (dm_draft_task_id m) of
     None \<Rightarrow> True | Some n \<Rightarrow> dn_draft_tree_id n = tid) ms"

lemma check_mappings_alike:
  assumes "rows_alike P db st" "list_nodes st sid tid = Inr nodes" "mappings_local st sid tid ms"
  shows "sql_check_mappings sid tid (map dn_draft_task_id nodes) ms = check_mappings st sid tid ms"
proof -
  have inv: "store_inv st" using assms(1) drafts_ok_inv by (auto simp: rows_alike_def)
  have found: "dm_draft_task_id m \<in> set (map dn_draft_task_id nodes) \<longleftrightarrow> get_node st sid (dm_draft_task_id m) \<noteq> None"
    if "case get_node st sid (dm_draft_task_id m) of None \<Rightarrow> True | Some n \<Rightarrow> dn_draft_tree_id n = tid" for m
  proof (cases "get_node st sid (dm_draft_task_id m)")
    case None
    then show ?thesis
      using list_nodes_stored(2) [OF inv assms(2)] alike_node [OF assms(1), of sid "dm_draft_task_id m"] by (auto simp del: option.simps)
  next
    case (Some n)
    then have "dict_get (ds_nodes st) (sid, dm_draft_task_id m) = Some n" using alike_node [OF assms(1)] by simp
    moreover from store_inv_key [OF inv this] have "dn_session_id n = sid" "dn_draft_task_id n = dm_draft_task_id m" by simp_all
    ultimately have "n \<in> set nodes" "dn_draft_task_id n = dm_draft_task_id m"
      using Some that list_nodes_stored(2) [OF inv assms(2), of n] by (simp_all add: in_tree_def)
    then show ?thesis using Some by (auto intro: rev_image_eqI)
  qed
  show ?thesis using assms(3)
  proof (induction ms)
    case (Cons m ms)
    then have m: "dm_draft_task_id m \<in> set (map dn_draft_task_id nodes) \<longleftrightarrow> get_node st sid (dm_draft_task_id m) \<noteq> None"
      by (intro found) (simp add: mappings_local_def)
    have rest: "sql_check_mappings sid tid (map dn_draft_task_id nodes) ms = check_mappings st sid tid ms"
      using Cons by (simp add: mappings_local_def)
    show ?case unfolding sql_check_mappings.simps check_mappings.simps rest m by simp
  qed simp
qed

lemma insert_mappings_fields [simp]:
  "yd_nodes (fold insert_mapping ms db) = yd_nodes db" "yd_trees (fold insert_mapping ms db) = yd_trees db"
  by (induction ms arbitrary: db) (simp_all add: insert_mapping_def Let_def)

lemma mark_published_alike:
  assumes "rows_alike P db st" "datetime_ok now" "mappings_local st sid tid ms"
    and "ends_fit (mark_published st sid tid ms e (\<lambda>_. now))"
  shows "agrees (rows_alike P) (sql_mark_published P db sid tid ms e (\<lambda>_. now)) (mark_published st sid tid ms e (\<lambda>_. now))"
proof -
  let ?refuse = "refuse_status (\<lambda>n. dn_status n = Cancelled) (\<lambda>n. Msg ''cannot publish cancelled node {}'' [dn_draft_task_id n])"
  let ?guard = "bind_ok (get_tree st sid tid) (\<lambda>tree.
     bind_ok (case e of None \<Rightarrow> Inr () | Some v \<Rightarrow> check_version (dt_version tree) v tid) (\<lambda>_.
     bind_ok (list_nodes st sid tid) (\<lambda>nodes. bind_ok (?refuse nodes) (\<lambda>_. map_ok (\<lambda>_. nodes) (check_mappings st sid tid ms)))))"
  have same: "bind_ok (sql_tree_row db sid tid) (\<lambda>q.
     bind_ok (case e of None \<Rightarrow> Inr () | Some v \<Rightarrow> check_version (yt_version q) v tid) (\<lambda>_.
     bind_ok (sql_list_nodes P db sid tid) (\<lambda>nodes. bind_ok (?refuse nodes) (\<lambda>_.
       map_ok (\<lambda>_. nodes) (sql_check_mappings sid tid (map dn_draft_task_id nodes) ms))))) = ?guard"
    using check_mappings_alike [OF assms(1) _ assms(3)]
    by (cases "list_nodes st sid tid"; cases "get_tree st sid tid"; cases e)
      (simp_all add: alike_tree_row [OF assms(1)] alike_list_nodes [OF assms(1)])
  show ?thesis
  proof (cases ?guard)
    case (Inl x)
    show ?thesis unfolding sql_mark_published_def mark_published_def same Inl by simp
  next
    case (Inr nodes)
    then have "list_nodes st sid tid = Inr nodes" by (auto elim!: bind_ok_InrE map_ok_InrE)
    from statuses_bump_alike [OF assms(1,2) this, of "fold insert_mapping ms" "record_mappings sid ms"]
      assms(4) [unfolded mark_published_def Inr sum.case] show ?thesis
      unfolding sql_mark_published_def mark_published_def same Inr sum.case agrees_simps(3) by simp
  qed
qed

section \<open>Root nodes stay synchronized\<close>

definition synced_but :: "string \<times> string \<Rightarrow> InMemoryDraftTaskStore \<Rightarrow> bool" where
  "synced_but k st \<longleftrightarrow> (\<forall>j t. j \<noteq> k \<longrightarrow> dict_get (ds_trees st) j = Some t \<longrightarrow> DraftTaskTree_valid t \<and> dt_root_nodes t = tree_roots st j)"

lemma synced_but_synced: "synced st \<Longrightarrow> synced_but k st"
  by (simp add: synced_def synced_but_def)

lemma filter_values_set:
  "\<lbrakk>\<not> Q w; \<And>v. dict_get d k = Some v \<Longrightarrow> \<not> Q v\<rbrakk> \<Longrightarrow> filter Q (dict_values (dict_set d k w)) = filter Q (dict_values d)"
  by (induction d) (auto split: if_splits)

lemma put_synced_but:
  assumes "synced_but (sid, tid) st" "in_tree sid tid n" "\<And>m. dict_get (ds_nodes st) k = Some m \<Longrightarrow> in_tree sid tid m"
  shows "synced_but (sid, tid) (put_node st k n)"
proof -
  have "tree_roots (put_node st k n) j = tree_roots st j" if "j \<noteq> (sid, tid)" for j
    unfolding tree_roots_def put_node_fields
    by (subst filter_values_set) (use assms(2,3) that in \<open>auto simp: in_tree_def\<close>)
  then show ?thesis using assms(1) by (auto simp: synced_but_def)
qed

lemma synced_but_cong:
  "\<lbrakk>ds_nodes st' = ds_nodes st; ds_trees st' = ds_trees st\<rbrakk> \<Longrightarrow> synced_but k st' = synced_but k st"
  by (simp add: synced_but_def tree_roots_def)

lemma bump_synced:
  assumes "synced_but (sid, tid) st" "is_ok (fst (bump_tree st sid tid now))"
  shows "synced (snd (bump_tree st sid tid now))"
proof -
  obtain t u where t: "dict_get (ds_trees st) (sid, tid) = Some t"
    and u: "DraftTaskTree_validate (t\<lparr>dt_root_nodes := tree_roots st (sid, tid), dt_version := dt_version t + 1, dt_updated_at := now\<rparr>) = Inr u"
    and bump: "bump_tree st sid tid now = (Inr u, st\<lparr>ds_trees := dict_set (ds_trees st) (sid, tid) u\<rparr>)"
    using assms(2) by (auto simp: bump_tree_def Let_def tree_roots_def split: option.splits sum.splits)
  have "tree_roots (st\<lparr>ds_trees := ts\<rparr>) = tree_roots st" for ts by (simp add: tree_roots_def fun_eq_iff)
  then show ?thesis
    using DraftTaskTree_validate_cases [OF u] assms(1) by (auto simp: synced_def synced_but_def bump)
qed

lemma bump_and_return_synced:
  assumes "synced_but (sid, tid) st" "is_ok (fst (bump_and_return st sid tid now x))"
  shows "synced (snd (bump_and_return st sid tid now x))"
  using bump_synced [OF assms(1)] assms(2) by simp

lemma set_statuses_synced_but:
  assumes "synced_but (sid, tid) st" "distinct (map dn_draft_task_id ns)"
    and "\<forall>n \<in> set ns. dict_get (ds_nodes st) (sid, dn_draft_task_id n) = Some n \<and> in_tree sid tid n"
  shows "synced_but (sid, tid) (snd (set_statuses s sid clock ns st))"
  using assms
proof (induction ns arbitrary: clock st)
  case (Cons n ns)
  let ?n = "n\<lparr>dn_status := s, dn_version := dn_version n + 1, dn_updated_at := clock 0\<rparr>"
  show ?case
  proof (cases "DraftTaskNode_validate ?n")
    case (Inr m)
    then have m: "m = ?n" using DraftTaskNode_validate_cases by blast
    have "synced_but (sid, tid) (put_node st (sid, dn_draft_task_id n) ?n)"
      using Cons.prems by (intro put_synced_but) (auto simp: in_tree_def)
    moreover have "\<forall>l \<in> set ns. dict_get (ds_nodes (put_node st (sid, dn_draft_task_id n) ?n)) (sid, dn_draft_task_id l) = Some l \<and> in_tree sid tid l"
      using Cons.prems(2,3) by (auto simp: image_iff)
    ultimately show ?thesis using Cons.IH Cons.prems(2) Inr m by simp
  qed (use Cons.prems in simp)
qed simp

lemma listed_statuses_synced:
  assumes "store_inv st" "synced st" "list_nodes st sid tid = Inr nodes"
  shows "synced_but (sid, tid) (snd (set_statuses s sid clock (filter Q nodes) st))"
  using list_nodes_stored [OF assms(1,3)] synced_but_synced [OF assms(2)]
  by (intro set_statuses_synced_but) (auto simp: distinct_map_filter)

lemma create_synced:
  assumes "rows_alike P db st" "synced st" "\<forall>r \<in> set roots. datetime_ok (dn_created_at r) \<and> datetime_ok (dn_updated_at r)"
    "\<forall>k. datetime_ok (clock k)" "is_ok (fst (create_tree st sid roots title summary tid clock))"
  shows "synced (snd (create_tree st sid roots title summary tid clock))"
proof -
  obtain t where t: "build_tree sid roots title summary tid clock = Inr t"
    using assms(5) by (cases "build_tree sid roots title summary tid clock") (simp_all add: create_tree_built)
  note parts = build_tree_parts [OF t assms(3,4)]
  define st0 where "st0 = st\<lparr>ds_trees := dict_set (ds_trees st) (sid, tid) t\<rparr>"
  have new: "dict_get (ds_trees st) (sid, tid) = None" and ok: "is_ok (fst (load_nodes tid (dt_root_nodes t) st0))"
    and snd: "snd (create_tree st sid roots title summary tid clock) = snd (load_nodes tid (dt_root_nodes t) st0)"
    using assms(5) parts(1)
    by (auto simp: create_tree_built t load_tree_def Let_def st0_def split: prod.splits sum.splits if_splits)
  define st' where "st' = snd (load_nodes tid (dt_root_nodes t) st0)"
  have nodes: "dict_values (ds_nodes st') = dict_values (ds_nodes st) @ dt_root_nodes t"
    using load_nodes_values [OF ok] by (simp add: st'_def st0_def)
  have trees: "ds_trees st' = dict_set (ds_trees st) (sid, tid) t" by (simp add: st'_def st0_def)
  have own: "\<not> in_tree sid tid n" if "n \<in> set (dict_values (ds_nodes st))" for n
    using that assms(1) new by (auto simp: rows_alike_def drafts_ok_def in_tree_def)
  have "tree_roots st' (sid, tid) = dt_root_nodes t"
  proof -
    have "filter (\<lambda>n. in_tree sid tid n \<and> dn_parent_draft_task_id n = None) (dict_values (ds_nodes st)) = []"
      unfolding filter_empty_conv using own by blast
    moreover have "filter (\<lambda>n. in_tree sid tid n \<and> dn_parent_draft_task_id n = None) (dt_root_nodes t) = dt_root_nodes t"
      using parts(4) by (simp add: filter_id_conv)
    ultimately show ?thesis using parts(5) by (simp only: tree_roots_def nodes filter_append fst_conv snd_conv append_Nil)
  qed
  moreover have "tree_roots st' j = tree_roots st j" if "j \<noteq> (sid, tid)" for j
  proof -
    have "filter (\<lambda>n. in_tree (fst j) (snd j) n \<and> dn_parent_draft_task_id n = None) (dt_root_nodes t) = []"
      using parts(4) that by (auto simp: filter_empty_conv in_tree_def)
    then show ?thesis by (simp only: tree_roots_def nodes filter_append append_Nil2)
  qed
  ultimately have "synced st'" using assms(2) parts(3) by (auto simp: synced_def trees)
  then show ?thesis unfolding snd st'_def .
qed

lemma add_synced:
  assumes "rows_alike P db st" "synced st" "is_ok (fst (add_node st sid tid node e clock))"
  shows "synced (snd (add_node st sid tid node e clock))"
proof -
  obtain n where new: "dict_get (ds_nodes st) (sid, dn_draft_task_id node) = None"
    and n: "DraftTaskNode_validate (node\<lparr>dn_session_id := sid, dn_draft_tree_id := tid, dn_created_at := clock 0, dn_updated_at := clock 1\<rparr>) = Inr n"
    and call: "add_node st sid tid node e clock = bump_and_return (put_node_tree (put_node st (sid, dn_draft_task_id node) n)
      (sid, dn_draft_task_id node) tid) sid tid (clock 2) n"
    using assms(3) by (auto simp: add_node_def Let_def elim!: bind_ok_InrE split: sum.splits if_splits)
  have "synced_but (sid, tid) (put_node st (sid, dn_draft_task_id node) n)"
    using synced_but_synced [OF assms(2)] DraftTaskNode_validate_cases [OF n] new by (intro put_synced_but) (auto simp: in_tree_def)
  then have "synced_but (sid, tid) (put_node_tree (put_node st (sid, dn_draft_task_id node) n) (sid, dn_draft_task_id node) tid)"
    by (subst synced_but_cong [of _ "put_node st (sid, dn_draft_task_id node) n"]) simp_all
  then show ?thesis using assms(3) unfolding call by (rule bump_and_return_synced)
qed

lemma update_synced:
  assumes "rows_alike P db st" "synced st" "is_ok (fst (update_node st sid i patch e clock))"
  shows "synced (snd (update_node st sid i patch e clock))"
proof -
  obtain n m where n: "get_node st sid i = Some n" and m: "patched_node n patch (clock 0) = Inr m"
    and call: "update_node st sid i patch e clock = bump_and_return (put_node st (sid, i) m) sid (dn_draft_tree_id n) (clock 1) m"
    using assms(3) by (auto simp: update_node_def elim!: bind_ok_InrE split: option.splits sum.splits if_splits)
  have stored: "dict_get (ds_nodes st) (sid, i) = Some n" using n alike_node [OF assms(1)] by simp
  then have "dn_session_id n = sid" using store_inv_key [OF drafts_ok_inv stored] assms(1) by (simp add: rows_alike_def)
  moreover have "dn_session_id m = dn_session_id n" "dn_draft_tree_id m = dn_draft_tree_id n"
    using m by (auto simp: patched_node_def elim!: bind_ok_InrE dest!: DraftTaskNode_validate_cases)
  ultimately have "synced_but (sid, dn_draft_tree_id n) (put_node st (sid, i) m)"
    using synced_but_synced [OF assms(2)] stored by (intro put_synced_but) (auto simp: in_tree_def)
  then show ?thesis using assms(3) unfolding call by (rule bump_and_return_synced)
qed

lemma mark_accepted_synced:
  assumes "rows_alike P db st" "synced st" "is_ok (fst (mark_accepted st sid tid e clock))"
  shows "synced (snd (mark_accepted st sid tid e clock))"
proof -
  have inv: "store_inv st" using assms(1) drafts_ok_inv by (auto simp: rows_alike_def)
  obtain nodes clock' st' where nodes: "list_nodes st sid tid = Inr nodes"
    and st': "set_statuses Accepted sid clock (filter (\<lambda>n. dn_status n = Draft) nodes) st = (Inr clock', st')"
    and call: "mark_accepted st sid tid e clock = bump_tree st' sid tid (clock' 0)"
    using assms(3) by (auto simp: mark_accepted_def elim!: bind_ok_InrE map_ok_InrE split: sum.splits prod.splits)
  have "synced_but (sid, tid) st'" using listed_statuses_synced [OF inv assms(2) nodes] st' by (metis snd_conv)
  then show ?thesis using assms(3) unfolding call by (rule bump_synced)
qed

lemma mark_published_synced:
  assumes "rows_alike P db st" "synced st" "is_ok (fst (mark_published st sid tid ms e clock))"
  shows "synced (snd (mark_published st sid tid ms e clock))"
proof -
  have inv: "store_inv st" using assms(1) drafts_ok_inv by (auto simp: rows_alike_def)
  obtain nodes clock' st' where nodes: "list_nodes st sid tid = Inr nodes"
    and st': "set_statuses DraftTaskStatus.Published sid clock (filter (\<lambda>n. dn_status n \<noteq> DraftTaskStatus.Published) nodes) st = (Inr clock', st')"
    and call: "mark_published st sid tid ms e clock = bump_tree (record_mappings sid ms st') sid tid (clock' 0)"
    using assms(3) by (auto simp: mark_published_def elim!: bind_ok_InrE map_ok_InrE split: sum.splits prod.splits)
  have "synced_but (sid, tid) st'" using listed_statuses_synced [OF inv assms(2) nodes] st' by (metis snd_conv)
  then have "synced_but (sid, tid) (record_mappings sid ms st')" by (simp add: synced_but_cong [of "record_mappings sid ms st'" st'])
  then show ?thesis using assms(3) unfolding call by (rule bump_synced)
qed

section \<open>Raw tasks and idempotency records\<close>

abbreviation raw_key :: "RawTask \<Rightarrow> string \<times> string" where
  "raw_key r \<equiv> (rt_session_id r, rt_raw_task_id r)"

definition raws_alike :: "'j authoring_codec \<Rightarrow> 'j authoring_db \<Rightarrow> InMemoryRawTaskStore \<Rightarrow> bool" where
  "raws_alike P db st \<longleftrightarrow> authoring_codec_ok P \<and> dict_ok st \<and> (\<forall>(k, r) \<in> set st. raw_key r = k)
     \<and> (\<forall>r \<in> set (dict_values st). raw_readable r) \<and> yd_raw db = map (raw_row_of P) (dict_values st)"

definition raws_fit :: "InMemoryRawTaskStore \<Rightarrow> bool" where
  "raws_fit st \<longleftrightarrow> (\<forall>r \<in> set (dict_values st). sqlite_integer (rt_version r))"

lemma raw_row_key [simp]: "(yw_session_id (raw_row_of P r), yw_raw_task_id (raw_row_of P r)) = raw_key r"
  by (simp add: raw_row_of_def)

lemma raws_get:
  assumes "raws_alike P db st" shows "sql_raw_get P db sid i = Inr (raw_get st sid i)"
proof -
  have rows: "yd_raw db = map (raw_row_of P) (dict_values st)" and keys: "\<forall>(k, r) \<in> set st. raw_key r = k" and P: "authoring_codec_ok P"
    using assms by (simp_all add: raws_alike_def)
  have "find (\<lambda>q. (yw_session_id q, yw_raw_task_id q) = (sid, i)) (yd_raw db) = map_option (raw_row_of P) (dict_get st (sid, i))"
    unfolding rows by (rule find_rows(1) [OF keys, where row_key = "\<lambda>q. (yw_session_id q, yw_raw_task_id q)"]) simp
  moreover have "raw_readable r" if "dict_get st (sid, i) = Some r" for r
    using assms dict_get_mem [OF that] by (simp only: raws_alike_def)
  ultimately show ?thesis
    using raw_row_reads [OF P] by (cases "dict_get st (sid, i)") (simp_all add: sql_raw_get_def raw_get_def)
qed

lemma raws_list:
  assumes "raws_alike P db st" shows "sql_raw_list_for_session P db sid = Inr (raw_list_for_session st sid)"
proof -
  have P: "authoring_codec_ok P" and rows: "yd_raw db = map (raw_row_of P) (dict_values st)"
    using assms by (simp_all add: raws_alike_def)
  define rs where "rs = filter (\<lambda>r. rt_session_id r = sid) (dict_values st)"
  have rs: "\<forall>r \<in> set rs. raw_readable r" using assms by (auto simp: raws_alike_def rs_def)
  have "filter (\<lambda>q. yw_session_id q = sid) (yd_raw db) = map (raw_row_of P) rs"
    unfolding rows rs_def filter_map o_def by (simp add: raw_row_of_def)
  moreover have "sort_key (\<lambda>q. (yw_created_at q, yw_updated_at q, yw_raw_task_id q)) (map (raw_row_of P) rs) =
      map (raw_row_of P) (sort_key (\<lambda>r. (rt_created_at r, rt_updated_at r, rt_raw_task_id r)) rs)"
  proof -
    have "sort_key (\<lambda>r. (isoformat (rt_created_at r), isoformat (rt_updated_at r), rt_raw_task_id r)) rs =
        sort_key (\<lambda>r. (rt_created_at r, rt_updated_at r, rt_raw_task_id r)) rs"
    proof (rule sort_key_cong_le)
      fix x y assume "x \<in> set rs" "y \<in> set rs"
      then have "raw_readable x" "raw_readable y" using rs by simp_all
      then show "(isoformat (rt_created_at x), isoformat (rt_updated_at x), rt_raw_task_id x)
           \<le> (isoformat (rt_created_at y), isoformat (rt_updated_at y), rt_raw_task_id y) \<longleftrightarrow>
         (rt_created_at x, rt_updated_at x, rt_raw_task_id x) \<le> (rt_created_at y, rt_updated_at y, rt_raw_task_id y)"
        by (simp add: raw_readable_def iso_order)
    qed
    then show ?thesis by (simp add: sort_key_map raw_row_of_def)
  qed
  moreover have "those_ok (map (raw_from_row P) (map (raw_row_of P) us)) = Inr us" if "set us \<subseteq> set rs" for us
    using that rs by (induction us) (auto simp: raw_row_reads [OF P])
  ultimately show ?thesis by (simp only: sql_raw_list_for_session_def raw_list_for_session_def rs_def set_sort subset_refl)
qed

lemma raws_create:
  assumes "raws_alike P db st" "raw_readable r" "is_ok (fst (raw_create st r)) \<Longrightarrow> raws_fit (snd (raw_create st r))"
  shows "agrees (raws_alike P) (sql_raw_create P db r) (raw_create st r)"
proof (cases "dict_get st (raw_key r)")
  case None
  have "\<forall>(k, x) \<in> set (dict_set st (raw_key r) r). raw_key x = k" "\<forall>x \<in> set (dict_values (dict_set st (raw_key r) r)). raw_readable x"
    using assms dict_set_keys [of st raw_key r] dict_set_values [where d = st and j = "raw_key r" and w = r]
    by (auto simp: raws_alike_def simp del: set_map)
  moreover have "map (raw_row_of P) (dict_values (dict_set st (raw_key r) r)) = yd_raw db @ [raw_row_of P r]"
    unfolding values_fresh [OF None] using assms(1) by (simp add: raws_alike_def)
  ultimately have "raws_alike P (db\<lparr>yd_raw := yd_raw db @ [raw_row_of P r]\<rparr>) (dict_set st (raw_key r) r)"
    using assms(1) unfolding raws_alike_def by simp
  moreover have "sqlite_integer (rt_version r)"
    using assms(3) None by (simp add: raw_create_def Let_def raws_fit_def values_fresh del: set_map)
  ultimately show ?thesis using None by (simp add: sql_raw_create_def raw_create_def raws_get [OF assms(1)] raw_get_def Let_def)
qed (use assms in \<open>simp add: sql_raw_create_def raw_create_def raws_get raw_get_def Let_def\<close>)

lemma raws_save:
  assumes "raws_alike P db st" "list_all ask_readable (rt_asks r)" "list_all answer_readable (rt_answers r)" "datetime_ok now"
    and "is_ok (fst (raw_save st r e now)) \<Longrightarrow> raws_fit (snd (raw_save st r e now))"
  shows "agrees (raws_alike P) (sql_raw_save P db r e now) (raw_save st r e now)"
proof (cases "dict_get st (raw_key r)")
  case (Some current)
  let ?r = "r\<lparr>rt_version := rt_version current + 1, rt_created_at := rt_created_at current, rt_updated_at := now\<rparr>"
  have cur: "raw_readable current" using assms(1) dict_get_mem [OF Some] by (simp only: raws_alike_def)
  have keys: "dict_ok st" "\<forall>(k, r) \<in> set st. raw_key r = k" and rows: "yd_raw db = map (raw_row_of P) (dict_values st)"
    using assms(1) by (simp_all add: raws_alike_def)
  show ?thesis
  proof (cases "bind_ok (check_version (rt_version current) e (rt_raw_task_id r)) (\<lambda>_. RawTask_validate ?r)")
    case (Inl x)
    then show ?thesis
      using Some by (auto simp: sql_raw_save_def raw_save_def raws_get [OF assms(1)] raw_get_def Let_def bind_ok_def split: sum.splits)
  next
    case (Inr u)
    then have u: "u = ?r" "RawTask_validate ?r = Inr u" "check_version (rt_version current) e (rt_raw_task_id r) = Inr ()"
      using RawTask_validate_cases by (auto elim!: bind_ok_InrE)
    have read: "raw_readable ?r" using u assms(2-4) cur by (simp add: raw_readable_def)
    have "\<forall>(k, x) \<in> set (dict_set st (raw_key r) ?r). raw_key x = k" "\<forall>x \<in> set (dict_values (dict_set st (raw_key r) ?r)). raw_readable x"
      using read assms(1) dict_set_keys [of st raw_key ?r "raw_key r"] dict_set_values [where d = st and j = "raw_key r" and w = ?r]
      by (auto simp: raws_alike_def simp del: set_map)
    moreover have upd: "dict_values (dict_set st (raw_key r) ?r) = map (\<lambda>v. if raw_key v = raw_key r then ?r else v) (dict_values st)"
      using Some keys by (intro update_values) simp_all
    have "map (\<lambda>q. if (yw_session_id q, yw_raw_task_id q) = raw_key r then raw_row_of P ?r else q) (yd_raw db) =
        map (raw_row_of P) (dict_values (dict_set st (raw_key r) ?r))"
      unfolding rows upd
      by (rule map_update_rows [where row_key = "\<lambda>q. (yw_session_id q, yw_raw_task_id q)"]) simp_all
    ultimately have alike: "raws_alike P (db\<lparr>yd_raw := map (\<lambda>q. if (yw_session_id q, yw_raw_task_id q) = raw_key r
        then raw_row_of P ?r else q) (yd_raw db)\<rparr>) (dict_set st (raw_key r) ?r)"
      using assms(1) keys(1) unfolding raws_alike_def by simp
    have e: "e = rt_version current" using u(3) by simp
    have mem: "raw_save st r e now = (Inr ?r, dict_set st (raw_key r) ?r)"
      using Some u(2) unfolding e u(1) by (simp add: raw_save_def raw_get_def Let_def)
    have "?r \<in> set (dict_values (dict_set st (raw_key r) ?r))" by (rule dict_get_mem [of _ "raw_key r"]) simp
    then have "sqlite_integer (rt_version ?r)" using assms(5) unfolding mem raws_fit_def by auto
    then show ?thesis
      using alike Some u(2) unfolding e u(1) by (simp add: sql_raw_save_def raw_save_def raws_get [OF assms(1)] raw_get_def Let_def)
  qed
qed (use assms in \<open>simp add: sql_raw_save_def raw_save_def raws_get raw_get_def Let_def\<close>)

end
