(* ===== verification/Authoring_Refine.thy ===== *)
theory Authoring_Refine
  imports Authoring_Writes
begin

text \<open>
  The SQLite authoring stores refine the in-memory ones with refused calls undone, by an interpretation of the contract
  \<open>simulation\<close>; and the active state of a session only points to rows that exist.
\<close>

definition records_alike :: "'j authoring_codec \<Rightarrow> 'j authoring_db \<Rightarrow> InMemoryAuthoringCommandIdempotencyStore \<Rightarrow> bool" where
  "records_alike P db st \<longleftrightarrow> authoring_codec_ok P \<and> (\<forall>(k, r) \<in> set st. record_key r = k)
     \<and> (\<forall>r \<in> set (dict_values st). record_readable r) \<and> yd_records db = map (record_row_of P) (dict_values st)"

lemma record_row_keys [simp]: "record_row_key (record_row_of P r) = record_key r"
  by (simp add: record_row_key_def record_row_of_def record_key_def)

lemma records_find:
  assumes "records_alike P db st"
  shows "find (\<lambda>q. record_row_key q = k) (yd_records db) = map_option (record_row_of P) (dict_get st k)"
    "list_ex (\<lambda>q. record_row_key q = k) (yd_records db) \<longleftrightarrow> dict_get st k \<noteq> None"
proof -
  have rows: "yd_records db = map (record_row_of P) (dict_values st)" and keys: "\<forall>(k, r) \<in> set st. record_key r = k"
    using assms by (simp_all add: records_alike_def)
  show "find (\<lambda>q. record_row_key q = k) (yd_records db) = map_option (record_row_of P) (dict_get st k)"
    "list_ex (\<lambda>q. record_row_key q = k) (yd_records db) \<longleftrightarrow> dict_get st k \<noteq> None"
    unfolding rows by (rule find_rows [OF keys], simp)+
qed

lemma records_get_alike:
  assumes "records_alike P db st" shows "sql_record_get P db sid k = Inr (records_get st sid k)"
proof -
  have P: "authoring_codec_ok P" using assms by (simp add: records_alike_def)
  have "record_readable r" if "dict_get st (sid, k) = Some r" for r
    using assms dict_get_mem [OF that] by (simp only: records_alike_def)
  then show ?thesis
    using record_row_reads [OF P] by (cases "dict_get st (sid, k)") (simp_all add: sql_record_get_def records_get_def records_find [OF assms])
qed

lemma records_put_alike:
  assumes "records_alike P db st" "record_readable r"
  shows "fst (sql_record_put P db r) = Inr (fst (records_put st r)) \<and> records_alike P (snd (sql_record_put P db r)) (snd (records_put st r))"
proof (cases "dict_get st (record_key r)")
  case (Some c)
  then have "list_ex (\<lambda>q. record_row_key q = record_key r) (yd_records db)" using records_find(2) [OF assms(1)] by simp
  then show ?thesis
    using Some assms(1) records_get_alike [OF assms(1), of "ir_session_id r" "ir_idempotency_key r"]
    by (simp add: sql_record_put_def records_put_def records_get_def record_key_def Let_def)
next
  case None
  let ?db = "db\<lparr>yd_records := yd_records db @ [record_row_of P r]\<rparr>" and ?st = "dict_set st (record_key r) r"
  have "\<forall>(k, x) \<in> set ?st. record_key x = k" "\<forall>x \<in> set (dict_values ?st). record_readable x"
    using assms dict_set_keys [of st record_key r] dict_set_values [where d = st and j = "record_key r" and w = r]
    by (auto simp: records_alike_def simp del: set_map)
  moreover have "map (record_row_of P) (dict_values ?st) = yd_records db @ [record_row_of P r]"
    unfolding values_fresh [OF None] using assms(1) by (simp add: records_alike_def)
  ultimately have alike: "records_alike P ?db ?st" using assms(1) unfolding records_alike_def by simp
  have new: "\<not> list_ex (\<lambda>q. record_row_key q = record_key r) (yd_records db)" using records_find(2) [OF assms(1)] None by simp
  have put: "sql_record_put P db r = (Inr r, ?db)"
    using records_get_alike [OF alike, of "ir_session_id r" "ir_idempotency_key r"] new
    by (simp add: sql_record_put_def records_get_def record_key_def Let_def)
  show ?thesis using alike None unfolding put by (simp add: records_put_def)
qed

section \<open>The stores as one\<close>

record authoring_memory =
  am_raw :: InMemoryRawTaskStore
  am_draft :: InMemoryDraftTaskStore
  am_records :: InMemoryAuthoringCommandIdempotencyStore

definition empty_authoring_memory :: authoring_memory where
  "empty_authoring_memory = \<lparr>am_raw = [], am_draft = empty_store, am_records = []\<rparr>"

definition authoring_alike :: "'j authoring_codec \<Rightarrow> 'j authoring_db \<Rightarrow> authoring_memory \<Rightarrow> bool" where
  "authoring_alike P db m \<longleftrightarrow> rows_alike P db (am_draft m) \<and> synced (am_draft m) \<and> raws_alike P db (am_raw m)
     \<and> records_alike P db (am_records m)"

datatype authoring_call =
    Create_raw RawTask | Get_raw string string | List_raws string | Save_raw RawTask int datetime
  | Create_drafts string "DraftTaskNode list" "string option" "string option" string datetime
  | Get_drafts string string | List_drafts string | List_draft_nodes string string
  | List_draft_children string string "string option" | Get_draft string string
  | Add_draft string string DraftTaskNode int datetime | Update_draft string string TaskNodePatch int datetime
  | Accept_drafts string string int datetime | Publish_drafts string string "DraftToPublishedMapping list" "int option" datetime
  | Get_record string string | Put_record AuthoringCommandIdempotencyRecord

datatype authoring_answer =
    Refused | Raw_answer RawTask | Raw_option "RawTask option" | Raw_list "RawTask list" | Tree_answer DraftTaskTree
  | Tree_list "DraftTaskTree list" | Node_answer DraftTaskNode | Node_option "DraftTaskNode option"
  | Node_list "DraftTaskNode list" | Record_answer AuthoringCommandIdempotencyRecord
  | Record_option "AuthoringCommandIdempotencyRecord option"

definition told :: "('a \<Rightarrow> authoring_answer) \<Rightarrow> 'a result \<Rightarrow> authoring_answer" where
  "told f r = (case r of Inl e \<Rightarrow> Refused | Inr x \<Rightarrow> f x)"

lemma told_simps [simp]: "told f (Inl e) = Refused" "told f (Inr x) = f x"
  by (simp_all add: told_def)

definition told_with :: "('a \<Rightarrow> authoring_answer) \<Rightarrow> 'a result \<times> 'st \<Rightarrow> authoring_answer \<times> 'st" where
  "told_with f out = (told f (fst out), snd out)"

fun sql_authoring_run :: "'j authoring_codec \<Rightarrow> authoring_call \<Rightarrow> 'j authoring_db \<Rightarrow> authoring_answer \<times> 'j authoring_db" where
  "sql_authoring_run P (Create_raw r) db = told_with Raw_answer (sql_raw_create P db r)"
| "sql_authoring_run P (Get_raw sid i) db = (told Raw_option (sql_raw_get P db sid i), db)"
| "sql_authoring_run P (List_raws sid) db = (told Raw_list (sql_raw_list_for_session P db sid), db)"
| "sql_authoring_run P (Save_raw r e now) db = told_with Raw_answer (sql_raw_save P db r e now)"
| "sql_authoring_run P (Create_drafts sid roots title summary tid now) db =
     told_with Tree_answer (sql_create_tree P db sid roots title summary tid (\<lambda>_. now))"
| "sql_authoring_run P (Get_drafts sid tid) db = (told Tree_answer (sql_get_tree P db sid tid), db)"
| "sql_authoring_run P (List_drafts sid) db = (told Tree_list (sql_list_trees P db sid), db)"
| "sql_authoring_run P (List_draft_nodes sid tid) db = (told Node_list (sql_list_nodes P db sid tid), db)"
| "sql_authoring_run P (List_draft_children sid tid parent) db = (told Node_list (sql_draft_list_children P db sid tid parent), db)"
| "sql_authoring_run P (Get_draft sid i) db = (told Node_option (sql_get_node P db sid i), db)"
| "sql_authoring_run P (Add_draft sid tid n e now) db = told_with Node_answer (sql_add_node P db sid tid n e (\<lambda>_. now))"
| "sql_authoring_run P (Update_draft sid i patch e now) db = told_with Node_answer (sql_update_node P db sid i patch e (\<lambda>_. now))"
| "sql_authoring_run P (Accept_drafts sid tid e now) db = told_with Tree_answer (sql_mark_accepted P db sid tid e (\<lambda>_. now))"
| "sql_authoring_run P (Publish_drafts sid tid ms e now) db =
     told_with Tree_answer (sql_mark_published P db sid tid ms e (\<lambda>_. now))"
| "sql_authoring_run P (Get_record sid k) db = (told Record_option (sql_record_get P db sid k), db)"
| "sql_authoring_run P (Put_record r) db = told_with Record_answer (sql_record_put P db r)"

text \<open>The in-memory stores with a refused call undone.\<close>

definition undoing_draft ::
  "authoring_memory \<Rightarrow> ('a \<Rightarrow> authoring_answer) \<Rightarrow> 'a result \<times> InMemoryDraftTaskStore \<Rightarrow> authoring_answer \<times> authoring_memory" where
  "undoing_draft m f out = (case write_transaction (am_draft m) out of (r, st) \<Rightarrow> (told f r, m\<lparr>am_draft := st\<rparr>))"

definition undoing_raw ::
  "authoring_memory \<Rightarrow> RawTask result \<times> InMemoryRawTaskStore \<Rightarrow> authoring_answer \<times> authoring_memory" where
  "undoing_raw m out = (case write_transaction (am_raw m) out of (r, st) \<Rightarrow> (told Raw_answer r, m\<lparr>am_raw := st\<rparr>))"

fun memory_run :: "authoring_call \<Rightarrow> authoring_memory \<Rightarrow> authoring_answer \<times> authoring_memory" where
  "memory_run (Create_raw r) m = undoing_raw m (raw_create (am_raw m) r)"
| "memory_run (Get_raw sid i) m = (Raw_option (raw_get (am_raw m) sid i), m)"
| "memory_run (List_raws sid) m = (Raw_list (raw_list_for_session (am_raw m) sid), m)"
| "memory_run (Save_raw r e now) m = undoing_raw m (raw_save (am_raw m) r e now)"
| "memory_run (Create_drafts sid roots title summary tid now) m =
     undoing_draft m Tree_answer (create_tree (am_draft m) sid roots title summary tid (\<lambda>_. now))"
| "memory_run (Get_drafts sid tid) m = (told Tree_answer (get_tree (am_draft m) sid tid), m)"
| "memory_run (List_drafts sid) m = (Tree_list (list_trees (am_draft m) sid), m)"
| "memory_run (List_draft_nodes sid tid) m = (told Node_list (list_nodes (am_draft m) sid tid), m)"
| "memory_run (List_draft_children sid tid parent) m = (told Node_list (draft_list_children (am_draft m) sid tid parent), m)"
| "memory_run (Get_draft sid i) m = (Node_option (get_node (am_draft m) sid i), m)"
| "memory_run (Add_draft sid tid n e now) m = undoing_draft m Node_answer (add_node (am_draft m) sid tid n e (\<lambda>_. now))"
| "memory_run (Update_draft sid i patch e now) m =
     undoing_draft m Node_answer (update_node (am_draft m) sid i patch e (\<lambda>_. now))"
| "memory_run (Accept_drafts sid tid e now) m =
     undoing_draft m Tree_answer (mark_accepted (am_draft m) sid tid e (\<lambda>_. now))"
| "memory_run (Publish_drafts sid tid ms e now) m =
     undoing_draft m Tree_answer (mark_published (am_draft m) sid tid ms e (\<lambda>_. now))"
| "memory_run (Get_record sid k) m = (Record_option (records_get (am_records m) sid k), m)"
| "memory_run (Put_record r) m = (case records_put (am_records m) r of (c, st) \<Rightarrow> (Record_answer c, m\<lparr>am_records := st\<rparr>))"

text \<open>What a caller passes: values their classes accept, times with four-digit years, mappings of nodes of the tree.\<close>

fun call_values_ok :: "authoring_call \<Rightarrow> authoring_memory \<Rightarrow> bool" where
  "call_values_ok (Create_raw r) m = raw_readable r"
| "call_values_ok (Save_raw r e now) m =
     (list_all ask_readable (rt_asks r) \<and> list_all answer_readable (rt_answers r) \<and> datetime_ok now)"
| "call_values_ok (Create_drafts sid roots title summary tid now) m =
     (list_all (\<lambda>r. datetime_ok (dn_created_at r) \<and> datetime_ok (dn_updated_at r)) roots \<and> datetime_ok now)"
| "call_values_ok (Add_draft sid tid n e now) m = datetime_ok now"
| "call_values_ok (Update_draft sid i patch e now) m = datetime_ok now"
| "call_values_ok (Accept_drafts sid tid e now) m = datetime_ok now"
| "call_values_ok (Publish_drafts sid tid ms e now) m = (datetime_ok now \<and> mappings_local (am_draft m) sid tid ms)"
| "call_values_ok (Put_record r) m = record_readable r"
| "call_values_ok _ m = True"

text \<open>The integers that the in-memory stores come to hold, orders of siblings and versions, are those of an \<open>INTEGER\<close> column.\<close>

definition integers_fit :: "authoring_memory \<Rightarrow> bool" where
  "integers_fit m \<longleftrightarrow> drafts_fit (am_draft m) \<and> raws_fit (am_raw m)"

definition authoring_allowed :: "authoring_call \<Rightarrow> authoring_memory \<Rightarrow> bool" where
  "authoring_allowed call m \<longleftrightarrow> call_values_ok call m \<and> integers_fit (snd (memory_run call m))"

lemma undoing_fits:
  "integers_fit (snd (undoing_draft m f a)) \<Longrightarrow> ends_fit a"
  "\<lbrakk>integers_fit (snd (undoing_raw m b)); is_ok (fst b)\<rbrakk> \<Longrightarrow> raws_fit (snd b)"
  by (auto simp: undoing_draft_def undoing_raw_def write_transaction_def integers_fit_def ends_fit_def is_ok_def
      split: prod.splits sum.splits)

text \<open>What the draft calls leave alone.\<close>

definition other_tables :: "'j authoring_db \<Rightarrow> active_row list \<times> 'j raw_row list \<times> 'j record_row list" where
  "other_tables db = (yd_active db, yd_raw db, yd_records db)"

lemma other_tables_simps [simp]:
  "other_tables (db\<lparr>yd_trees := ts\<rparr>) = other_tables db" "other_tables (db\<lparr>yd_nodes := ns\<rparr>) = other_tables db"
  "other_tables (db\<lparr>yd_mappings := ms\<rparr>) = other_tables db"
  by (simp_all add: other_tables_def)

lemma bump_others [simp]:
  "other_tables (snd (sql_bump_tree P db sid tid now)) = other_tables db"
  "other_tables (snd (sql_bump_and_return P db sid tid now x)) = other_tables db"
  by (auto simp: sql_bump_and_return_def sql_bump_tree_def Let_def split: sum.split prod.split)

lemma insert_nodes_others: "insert_nodes P ns db = Inr (Some db') \<Longrightarrow> other_tables db' = other_tables db"
  by (induction ns arbitrary: db) (auto split: if_splits)

lemma update_node_others: "update_node_row P n db = Inr db' \<Longrightarrow> other_tables db' = other_tables db \<and> yd_trees db' = yd_trees db"
  by (auto simp: update_node_row_def split: if_splits)

lemma statuses_others [simp]: "other_tables (snd (sql_set_statuses P s clock ns db)) = other_tables db"
  by (induction ns arbitrary: clock db) (auto dest!: update_node_others split: sum.split)

lemma mappings_others [simp]: "other_tables (fold insert_mapping ms db) = other_tables db"
  by (induction ms arbitrary: db) (simp_all add: insert_mapping_def Let_def)

lemma transaction_others: "other_tables (snd out) = other_tables db \<Longrightarrow> other_tables (snd (write_transaction db out)) = other_tables db"
  by (auto simp: write_transaction_def split: prod.split sum.split)

lemma marks_others:
  "other_tables (snd (case sql_set_statuses P s clock ns db of (Inl e, db') \<Rightarrow> (Inl e, db')
     | (Inr c, db') \<Rightarrow> sql_bump_tree P (fold insert_mapping ms db') sid tid (c 0))) = other_tables db"
proof -
  obtain r db' where call: "sql_set_statuses P s clock ns db = (r, db')" by (meson surj_pair)
  then have "other_tables db' = other_tables db" using statuses_others [of P s clock ns db] by simp
  then show ?thesis by (cases r) (simp_all add: call)
qed

lemma draft_calls_others:
  "other_tables (snd (sql_create_tree P db sid roots title summary tid clock)) = other_tables db"
  "other_tables (snd (sql_add_node P db sid tid n e clock)) = other_tables db"
  "other_tables (snd (sql_update_node P db sid i patch e clock)) = other_tables db"
  "other_tables (snd (sql_mark_accepted P db sid tid e clock)) = other_tables db"
  "other_tables (snd (sql_mark_published P db sid tid ms w clock)) = other_tables db"
proof -
  show "other_tables (snd (sql_create_tree P db sid roots title summary tid clock)) = other_tables db"
    by (auto simp: sql_create_tree_def Let_def dest!: insert_nodes_others intro!: transaction_others split: sum.split option.split)
  show "other_tables (snd (sql_add_node P db sid tid n e clock)) = other_tables db"
    by (auto simp: sql_add_node_def Let_def dest!: insert_nodes_others intro!: transaction_others split: sum.split option.split simp del: insert_nodes.simps)
  show "other_tables (snd (sql_update_node P db sid i patch e clock)) = other_tables db"
    by (auto simp: sql_update_node_def dest!: update_node_others intro!: transaction_others split: sum.split option.split)
  show "other_tables (snd (sql_mark_accepted P db sid tid e clock)) = other_tables db"
    using marks_others [where ms = "[]", unfolded fold.simps id_apply] by (auto simp: sql_mark_accepted_def intro!: transaction_others split: sum.split)
  show "other_tables (snd (sql_mark_published P db sid tid ms w clock)) = other_tables db"
    using marks_others by (auto simp: sql_mark_published_def intro!: transaction_others split: sum.split)
qed

text \<open>A refused call leaves the database as it was.\<close>

lemma transaction_refused: "\<not> is_ok (fst (write_transaction db out)) \<Longrightarrow> snd (write_transaction db out) = db"
  by (auto simp: write_transaction_def split: prod.splits sum.splits)

lemma draft_calls_refused:
  "\<not> is_ok (fst (sql_create_tree P db sid roots title summary tid clock)) \<Longrightarrow> snd (sql_create_tree P db sid roots title summary tid clock) = db"
  "\<not> is_ok (fst (sql_add_node P db sid tid n e clock)) \<Longrightarrow> snd (sql_add_node P db sid tid n e clock) = db"
  "\<not> is_ok (fst (sql_update_node P db sid i patch e clock)) \<Longrightarrow> snd (sql_update_node P db sid i patch e clock) = db"
  "\<not> is_ok (fst (sql_mark_accepted P db sid tid e clock)) \<Longrightarrow> snd (sql_mark_accepted P db sid tid e clock) = db"
  "\<not> is_ok (fst (sql_mark_published P db sid tid ms w clock)) \<Longrightarrow> snd (sql_mark_published P db sid tid ms w clock) = db"
  unfolding sql_create_tree_def sql_add_node_def sql_update_node_def sql_mark_accepted_def sql_mark_published_def Let_def
  by (auto dest!: transaction_refused split: sum.splits option.splits if_splits)

lemma raw_calls_refused:
  "\<not> is_ok (fst (sql_raw_create P db r)) \<Longrightarrow> snd (sql_raw_create P db r) = db"
  "\<not> is_ok (fst (sql_raw_save P db r e now)) \<Longrightarrow> snd (sql_raw_save P db r e now) = db"
  by (auto simp: sql_raw_create_def sql_raw_save_def write_transaction_def split: sum.splits option.splits if_splits)

text \<open>One call of each kind.\<close>

lemma draft_step:
  assumes "authoring_alike P db m" "agrees (rows_alike P) c a" "\<not> is_ok (fst c) \<Longrightarrow> snd c = db" "is_ok (fst a) \<Longrightarrow> synced (snd a)"
    and "other_tables (snd c) = other_tables db"
  shows "fst (told_with f c) = fst (undoing_draft m f a)" "authoring_alike P (snd (told_with f c)) (snd (undoing_draft m f a))"
proof -
  have rest: "yd_raw (snd c) = yd_raw db" "yd_records (snd c) = yd_records db" using assms(5) by (simp_all add: other_tables_def)
  show "fst (told_with f c) = fst (undoing_draft m f a)"
    using assms(2) by (cases a; cases "fst a"; cases "fst c")
      (simp_all add: agrees_def told_with_def undoing_draft_def write_transaction_def)
  show "authoring_alike P (snd (told_with f c)) (snd (undoing_draft m f a))"
  proof (cases "fst a")
    case (Inl x)
    then have "snd c = db" using assms(2,3) by (simp add: agrees_def)
    then show ?thesis using assms(1) Inl by (cases a) (simp add: told_with_def undoing_draft_def write_transaction_def)
  next
    case (Inr x)
    then show ?thesis
      using assms(1,2,4) rest by (cases a)
        (simp add: told_with_def undoing_draft_def write_transaction_def agrees_def authoring_alike_def raws_alike_def records_alike_def)
  qed
qed

lemma raw_step:
  assumes "authoring_alike P db m" "agrees (raws_alike P) c a" "\<not> is_ok (fst c) \<Longrightarrow> snd c = db"
    and "yd_nodes (snd c) = yd_nodes db" "yd_trees (snd c) = yd_trees db" "yd_records (snd c) = yd_records db"
  shows "fst (told_with Raw_answer c) = fst (undoing_raw m a)" "authoring_alike P (snd (told_with Raw_answer c)) (snd (undoing_raw m a))"
proof -
  show "fst (told_with Raw_answer c) = fst (undoing_raw m a)"
    using assms(2) by (cases a; cases "fst a"; cases "fst c")
      (simp_all add: agrees_def told_with_def undoing_raw_def write_transaction_def)
  show "authoring_alike P (snd (told_with Raw_answer c)) (snd (undoing_raw m a))"
  proof (cases "fst a")
    case (Inl x)
    then have "snd c = db" using assms(2,3) by (simp add: agrees_def)
    then show ?thesis using assms(1) Inl by (cases a) (simp add: told_with_def undoing_raw_def write_transaction_def)
  next
    case (Inr x)
    then show ?thesis
      using assms(1,2,4-6) by (cases a)
        (simp add: told_with_def undoing_raw_def write_transaction_def agrees_def authoring_alike_def rows_alike_def records_alike_def)
  qed
qed

lemma raw_calls_others [simp]:
  "yd_nodes (snd (sql_raw_create P db r)) = yd_nodes db" "yd_trees (snd (sql_raw_create P db r)) = yd_trees db"
  "yd_records (snd (sql_raw_create P db r)) = yd_records db" "yd_active (snd (sql_raw_create P db r)) = yd_active db"
  "yd_nodes (snd (sql_raw_save P db r e now)) = yd_nodes db" "yd_trees (snd (sql_raw_save P db r e now)) = yd_trees db"
  "yd_records (snd (sql_raw_save P db r e now)) = yd_records db" "yd_active (snd (sql_raw_save P db r e now)) = yd_active db"
  by (auto simp: sql_raw_create_def sql_raw_save_def write_transaction_def split: sum.splits option.splits if_splits)

lemma record_call_others [simp]:
  "yd_nodes (snd (sql_record_put P db r)) = yd_nodes db" "yd_trees (snd (sql_record_put P db r)) = yd_trees db"
  "yd_raw (snd (sql_record_put P db r)) = yd_raw db" "yd_active (snd (sql_record_put P db r)) = yd_active db"
  by (auto simp: sql_record_put_def Let_def)

lemma call_alike:
  assumes "authoring_alike P db m" "authoring_allowed call m"
  shows "fst (sql_authoring_run P call db) = fst (memory_run call m) \<and> authoring_alike P (snd (sql_authoring_run P call db)) (snd (memory_run call m))"
proof -
  have parts: "rows_alike P db (am_draft m)" "synced (am_draft m)" "raws_alike P db (am_raw m)" "records_alike P db (am_records m)"
    using assms(1) by (simp_all add: authoring_alike_def)
  have allowed: "call_values_ok call m" and fit: "integers_fit (snd (memory_run call m))"
    using assms(2) by (simp_all add: authoring_allowed_def)
  note raw = raw_step [OF assms(1)] and draft = draft_step [OF assms(1)]
  show ?thesis
  proof (cases call)
    case (Create_raw r)
    then show ?thesis
      using raw [OF raws_create [OF parts(3)] raw_calls_refused(1)] allowed fit undoing_fits(2) by simp
  next
    case (Save_raw r e now)
    then show ?thesis
      using raw [OF raws_save [OF parts(3)] raw_calls_refused(2)] allowed fit undoing_fits(2) by simp
  next
    case (Create_drafts sid roots title summary tid now)
    then have ok: "\<forall>r \<in> set roots. datetime_ok (dn_created_at r) \<and> datetime_ok (dn_updated_at r)" "\<forall>k::nat. datetime_ok now"
      using allowed by (simp_all add: list_all_iff)
    have fit: "ends_fit (create_tree (am_draft m) sid roots title summary tid (\<lambda>_. now))" using fit undoing_fits(1) Create_drafts by simp
    show ?thesis
      using draft [OF create_tree_alike [OF parts(1) ok fit] draft_calls_refused(1) create_synced [OF parts(1,2) ok] draft_calls_others(1)] Create_drafts by simp
  next
    case (Add_draft sid tid n e now)
    then have ok: "datetime_ok now" and fit: "ends_fit (add_node (am_draft m) sid tid n e (\<lambda>_. now))"
      using allowed fit undoing_fits(1) by simp_all
    show ?thesis
      using draft [OF add_node_alike [OF parts(1) ok fit] draft_calls_refused(2) add_synced [OF parts(1,2)] draft_calls_others(2)] Add_draft by simp
  next
    case (Update_draft sid i patch e now)
    then have ok: "datetime_ok now" and fit: "ends_fit (update_node (am_draft m) sid i patch e (\<lambda>_. now))"
      using allowed fit undoing_fits(1) by simp_all
    show ?thesis
      using draft [OF update_node_alike [OF parts(1) ok fit] draft_calls_refused(3) update_synced [OF parts(1,2)] draft_calls_others(3)] Update_draft by simp
  next
    case (Accept_drafts sid tid e now)
    then have ok: "datetime_ok now" and fit: "ends_fit (mark_accepted (am_draft m) sid tid e (\<lambda>_. now))"
      using allowed fit undoing_fits(1) by simp_all
    show ?thesis
      using draft [OF mark_accepted_alike [OF parts(1) ok fit] draft_calls_refused(4) mark_accepted_synced [OF parts(1,2)] draft_calls_others(4)] Accept_drafts by simp
  next
    case (Publish_drafts sid tid ms e now)
    then have ok: "datetime_ok now" "mappings_local (am_draft m) sid tid ms"
      and fit: "ends_fit (mark_published (am_draft m) sid tid ms e (\<lambda>_. now))"
      using allowed fit undoing_fits(1) by simp_all
    show ?thesis
      using draft [OF mark_published_alike [OF parts(1) ok fit] draft_calls_refused(5) mark_published_synced [OF parts(1,2)] draft_calls_others(5)] Publish_drafts by simp
  next
    case (Put_record r)
    then have "record_readable r" using allowed by simp
    from records_put_alike [OF parts(4) this] Put_record parts show ?thesis
      by (cases "records_put (am_records m) r") (simp add: told_with_def authoring_alike_def rows_alike_def raws_alike_def)
  qed (use assms(1) in \<open>simp_all add: raws_get [OF parts(3)] raws_list [OF parts(3)] alike_get_tree [OF parts(1,2)] alike_list_trees [OF parts(1,2)]
      alike_list_nodes [OF parts(1)] alike_list_children [OF parts(1)] alike_get_node [OF parts(1)] records_get_alike [OF parts(4)]\<close>)
qed

interpretation sqlite_authoring: simulation "authoring_alike P" "sql_authoring_run P" memory_run authoring_allowed
  for P :: "'j authoring_codec"
  by unfold_locales (use call_alike in blast)+

lemma empty_authoring_alike: "authoring_codec_ok P \<Longrightarrow> authoring_alike P empty_authoring_db empty_authoring_memory"
  by (simp add: authoring_alike_def rows_alike_def raws_alike_def records_alike_def drafts_ok_def synced_def
      empty_authoring_db_def empty_authoring_memory_def empty_store_def)

section \<open>The active state of a session\<close>

text \<open>One call on the database: of the task stores or of the store of active states.\<close>

inductive authoring_step :: "'j authoring_codec \<Rightarrow> 'j authoring_db \<Rightarrow> 'j authoring_db \<Rightarrow> bool" for P where
  store_call: "authoring_step P db (snd (sql_authoring_run P call db))"
| activate_raw: "datetime_ok now \<Longrightarrow> authoring_step P db (snd (set_active_raw_task db sid i now))"
| activate_drafts: "datetime_ok now \<Longrightarrow> authoring_step P db (snd (set_active_draft_tree db sid raw tid plan now))"
| active_published: "datetime_ok now \<Longrightarrow> authoring_step P db (snd (active_mark_published P db sid tid now))"
| active_cancelled: "datetime_ok now \<Longrightarrow> authoring_step P db (snd (cancel_active P db sid now))"

text \<open>Rows are never removed.\<close>

definition rows_kept :: "'j authoring_db \<Rightarrow> 'j authoring_db \<Rightarrow> bool" where
  "rows_kept db db' \<longleftrightarrow> (\<forall>sid i. raw_task_exists db sid i \<longrightarrow> raw_task_exists db' sid i)
     \<and> (\<forall>sid i. draft_tree_exists db sid i \<longrightarrow> draft_tree_exists db' sid i)"

lemma rows_kept_refl [simp]: "rows_kept db db"
  by (simp add: rows_kept_def)

lemma rows_kept_same: "\<lbrakk>yd_raw db' = yd_raw db; yd_trees db' = yd_trees db\<rbrakk> \<Longrightarrow> rows_kept db db'"
  by (simp add: rows_kept_def raw_task_exists_def draft_tree_exists_def)

abbreviation tree_keys :: "'j authoring_db \<Rightarrow> (string \<times> string) list" where
  "tree_keys db \<equiv> map tree_row_key (yd_trees db)"

abbreviation raw_keys :: "'j authoring_db \<Rightarrow> (string \<times> string) list" where
  "raw_keys db \<equiv> map (\<lambda>q. (yw_session_id q, yw_raw_task_id q)) (yd_raw db)"

lemma exists_keys:
  "raw_task_exists db sid i \<longleftrightarrow> (sid, i) \<in> set (raw_keys db)" "draft_tree_exists db sid i \<longleftrightarrow> (sid, i) \<in> set (tree_keys db)"
  by (auto simp: raw_task_exists_def draft_tree_exists_def list_ex_iff intro: rev_image_eqI)

lemma bump_keys [simp]:
  "tree_keys (snd (sql_bump_tree P db sid tid now)) = tree_keys db"
  "tree_keys (snd (sql_bump_and_return P db sid tid now x)) = tree_keys db"
  by (auto simp: sql_bump_and_return_def sql_bump_tree_def Let_def tree_row_key_def o_def split: sum.split prod.split)

lemma insert_nodes_trees: "insert_nodes P ns db = Inr (Some db') \<Longrightarrow> yd_trees db' = yd_trees db"
  by (induction ns arbitrary: db) (auto split: if_splits)

lemma statuses_trees [simp]: "yd_trees (snd (sql_set_statuses P s clock ns db)) = yd_trees db"
  by (induction ns arbitrary: clock db) (auto dest!: update_node_others split: sum.split)

lemma transaction_keys: "tree_keys (snd out) = tree_keys db \<Longrightarrow> tree_keys (snd (write_transaction db out)) = tree_keys db"
  by (auto simp: write_transaction_def split: prod.split sum.split)

lemma marks_keys:
  "tree_keys (snd (case sql_set_statuses P s clock ns db of (Inl e, db') \<Rightarrow> (Inl e, db')
     | (Inr c, db') \<Rightarrow> sql_bump_tree P (fold insert_mapping ms db') sid tid (c 0))) = tree_keys db"
proof -
  obtain r db' where call: "sql_set_statuses P s clock ns db = (r, db')" by (meson surj_pair)
  then have "yd_trees db' = yd_trees db" using statuses_trees [of P s clock ns db] by simp
  then show ?thesis by (cases r) (simp_all add: call)
qed

lemma draft_calls_keys:
  "set (tree_keys db) \<subseteq> set (tree_keys (snd (sql_create_tree P db sid roots title summary tid clock)))"
  "tree_keys (snd (sql_add_node P db sid tid n e clock)) = tree_keys db"
  "tree_keys (snd (sql_update_node P db sid i patch e clock)) = tree_keys db"
  "tree_keys (snd (sql_mark_accepted P db sid tid e clock)) = tree_keys db"
  "tree_keys (snd (sql_mark_published P db sid tid ms w clock)) = tree_keys db"
proof -
  show "set (tree_keys db) \<subseteq> set (tree_keys (snd (sql_create_tree P db sid roots title summary tid clock)))"
    by (auto simp: sql_create_tree_def write_transaction_def Let_def dest!: insert_nodes_trees split: sum.split option.split)
  show "tree_keys (snd (sql_add_node P db sid tid n e clock)) = tree_keys db"
    by (auto simp: sql_add_node_def Let_def dest!: insert_nodes_trees intro!: transaction_keys split: sum.split option.split simp del: insert_nodes.simps)
  show "tree_keys (snd (sql_update_node P db sid i patch e clock)) = tree_keys db"
    by (auto simp: sql_update_node_def dest!: update_node_others intro!: transaction_keys split: sum.split option.split)
  show "tree_keys (snd (sql_mark_accepted P db sid tid e clock)) = tree_keys db"
    using marks_keys [where ms = "[]", unfolded fold.simps id_apply] by (auto simp: sql_mark_accepted_def intro!: transaction_keys split: sum.split)
  show "tree_keys (snd (sql_mark_published P db sid tid ms w clock)) = tree_keys db"
    using marks_keys by (auto simp: sql_mark_published_def intro!: transaction_keys split: sum.split)
qed

lemma raw_save_keys: "raw_keys (snd (sql_raw_save P db r e now)) = raw_keys db"
  by (auto simp: sql_raw_save_def raw_row_of_def write_transaction_def o_def dest!: RawTask_validate_cases elim!: bind_ok_InrE split: sum.splits option.splits)

lemma draft_call_keeps:
  assumes "other_tables (snd c) = other_tables db" "set (tree_keys db) \<subseteq> set (tree_keys (snd c))"
  shows "rows_kept db (snd (told_with f c)) \<and> yd_active (snd (told_with f c)) = yd_active db"
  using assms by (auto simp: told_with_def rows_kept_def exists_keys other_tables_def simp del: set_map)

lemma store_call_keeps: "rows_kept db (snd (sql_authoring_run P call db)) \<and> yd_active (snd (sql_authoring_run P call db)) = yd_active db"
proof (cases call)
  case (Save_raw r e now)
  then show ?thesis
    using raw_save_keys [of P db r e now] by (simp add: told_with_def rows_kept_def exists_keys del: set_map)
next
  case (Create_raw r)
  then show ?thesis
    by (auto simp: told_with_def rows_kept_def exists_keys sql_raw_create_def write_transaction_def split: sum.splits option.splits if_splits)
next
  case (Put_record r)
  then show ?thesis by (simp add: told_with_def rows_kept_same)
qed (simp_all add: draft_call_keeps [OF draft_calls_others(1) draft_calls_keys(1)]
    draft_call_keeps [OF draft_calls_others(2) equalityD2 [OF arg_cong [OF draft_calls_keys(2), of set]]]
    draft_call_keeps [OF draft_calls_others(3) equalityD2 [OF arg_cong [OF draft_calls_keys(3), of set]]]
    draft_call_keeps [OF draft_calls_others(4) equalityD2 [OF arg_cong [OF draft_calls_keys(4), of set]]]
    draft_call_keeps [OF draft_calls_others(5) equalityD2 [OF arg_cong [OF draft_calls_keys(5), of set]]])

text \<open>A stored active state reads back and points to rows that exist.\<close>

definition pointers_exist :: "'j authoring_db \<Rightarrow> ActiveAuthoringState \<Rightarrow> bool" where
  "pointers_exist db a \<longleftrightarrow> (\<forall>i. aa_active_raw_task_id a = Some i \<longrightarrow> raw_task_exists db (aa_session_id a) i)
     \<and> (\<forall>i. aa_active_draft_tree_id a = Some i \<longrightarrow> draft_tree_exists db (aa_session_id a) i)"

definition active_rows_ok :: "'j authoring_db \<Rightarrow> bool" where
  "active_rows_ok db \<longleftrightarrow> (\<forall>q \<in> set (yd_active db). \<exists>a. q = active_row_of a \<and> ActiveAuthoringState_ok a
     \<and> datetime_ok (aa_updated_at a) \<and> pointers_exist db a)"

lemma pointers_kept: "\<lbrakk>pointers_exist db a; rows_kept db db'\<rbrakk> \<Longrightarrow> pointers_exist db' a"
  by (simp add: pointers_exist_def rows_kept_def)

lemma active_rows_kept: "\<lbrakk>active_rows_ok db; rows_kept db db'; yd_active db' = yd_active db\<rbrakk> \<Longrightarrow> active_rows_ok db'"
  using pointers_kept unfolding active_rows_ok_def by metis

lemma active_state_reads [simp]: "active_state_of (active_state_str s) = Inr s"
  by (cases s) (simp_all add: active_state_of_def)

lemma active_row_reads:
  "\<lbrakk>authoring_codec_ok P; ActiveAuthoringState_ok a; datetime_ok (aa_updated_at a)\<rbrakk> \<Longrightarrow> active_from_row P (active_row_of a) = Inr a"
  by (cases a) (simp add: active_from_row_def active_row_of_def authoring_codec_ok_def ActiveAuthoringState_validate_def)

lemma get_active_ok:
  assumes "authoring_codec_ok P" "active_rows_ok db" "sid \<noteq> []" "datetime_ok now"
  obtains a where "get_active P db sid now = Inr a" "ActiveAuthoringState_ok a" "aa_session_id a = sid" "pointers_exist db a"
proof (cases "find (\<lambda>q. ya_session_id q = sid) (yd_active db)")
  case None
  let ?a = "\<lparr>aa_session_id = sid, aa_active_raw_task_id = None, aa_active_draft_tree_id = None, aa_active_plan_id = None,
    aa_active_state = Active_none, aa_updated_at = now\<rparr>"
  have "ActiveAuthoringState_ok ?a" using assms(3) by (simp add: ActiveAuthoringState_ok_def)
  moreover from this have "get_active P db sid now = Inr ?a" using None by (simp add: get_active_def ActiveAuthoringState_validate_def)
  ultimately show ?thesis by (intro that [of ?a]) (simp_all add: pointers_exist_def)
next
  case (Some q)
  then have q: "q \<in> set (yd_active db)" "ya_session_id q = sid" by (auto simp: find_Some_iff)
  then obtain a where a: "q = active_row_of a" "ActiveAuthoringState_ok a" "datetime_ok (aa_updated_at a)" "pointers_exist db a"
    using assms(2) by (auto simp: active_rows_ok_def)
  have "aa_session_id a = sid" using q(2) by (simp add: a(1) active_row_of_def)
  moreover have "get_active P db sid now = Inr a" using Some active_row_reads [OF assms(1) a(2,3)] by (simp add: get_active_def a(1))
  ultimately show ?thesis using that a(2,4) by blast
qed

lemma save_active_ok:
  assumes "active_rows_ok db" "pointers_exist db a" "datetime_ok (aa_updated_at a)"
  shows "active_rows_ok (snd (save_active a db))"
proof (cases "ActiveAuthoringState_ok a")
  case True
  have "pointers_exist (upsert_active q db) b = pointers_exist db b" for q b
    by (simp add: upsert_active_def pointers_exist_def raw_task_exists_def draft_tree_exists_def)
  moreover have "q \<in> set (yd_active (upsert_active r db)) \<Longrightarrow> q = r \<or> q \<in> set (yd_active db)" for q r
    by (auto simp: upsert_active_def split: if_splits)
  ultimately show ?thesis
    using True assms unfolding active_rows_ok_def by (simp add: save_active_def ActiveAuthoringState_validate_def) metis
qed (use assms(1) in \<open>simp add: save_active_def ActiveAuthoringState_validate_def\<close>)

lemma active_step_ok:
  assumes "authoring_codec_ok P" "active_rows_ok db" "authoring_step P db db'"
  shows "active_rows_ok db'"
  using assms(3)
proof cases
  case (store_call call)
  then show ?thesis using active_rows_kept [OF assms(2)] store_call_keeps by blast
next
  case (activate_raw now sid i)
  then show ?thesis
    using assms(2) by (auto simp: set_active_raw_task_def pointers_exist_def intro!: save_active_ok)
next
  case (activate_drafts now sid raw tid plan)
  then show ?thesis
    using assms(2) by (auto simp: set_active_draft_tree_def pointers_exist_def split: option.splits intro!: save_active_ok)
next
  case (active_published now sid tid)
  show ?thesis
  proof (cases "sid = []")
    case False
    then obtain a where a: "get_active P db sid now = Inr a" "aa_session_id a = sid" "pointers_exist db a"
      using get_active_ok [OF assms(1,2) _ active_published(2)] by blast
    then show ?thesis
      using assms(2) active_published by (auto simp: active_mark_published_def pointers_exist_def intro!: save_active_ok)
  next
    case True
    then show ?thesis
      using assms(2) active_published
      by (auto simp: active_mark_published_def save_active_def ActiveAuthoringState_validate_def ActiveAuthoringState_ok_def split: sum.split)
  qed
next
  case (active_cancelled now sid)
  show ?thesis
  proof (cases "sid = []")
    case False
    then obtain a where a: "get_active P db sid now = Inr a" "aa_session_id a = sid" "pointers_exist db a"
      using get_active_ok [OF assms(1,2) _ active_cancelled(2)] by blast
    then show ?thesis
      using assms(2) active_cancelled by (auto simp: cancel_active_def pointers_exist_def intro!: save_active_ok)
  next
    case True
    then show ?thesis
      using assms(2) active_cancelled
      by (auto simp: cancel_active_def save_active_def ActiveAuthoringState_validate_def ActiveAuthoringState_ok_def split: sum.split)
  qed
qed

lemma active_rows_reachable:
  assumes "authoring_codec_ok P" "(authoring_step P)\<^sup>*\<^sup>* empty_authoring_db db"
  shows "active_rows_ok db"
  using assms(2) by induction (simp_all add: active_rows_ok_def empty_authoring_db_def active_step_ok [OF assms(1), unfolded active_rows_ok_def])

section \<open>Properties\<close>

text \<open>A codec that keeps each value as it is.\<close>

datatype authoring_text = Strs_text "string list" | Feasibility_text FeasibilityReport | Asks_text "RawTaskAsk list"
  | Answers_text "RawTaskAnswer list" | Result_text AuthoringCommandResult

definition sample_authoring_codec :: "authoring_text authoring_codec" where
  "sample_authoring_codec =
     (let e = ValueError (Msg ''stored JSON value must be a list'' [])
      in \<lparr>yc_dump_strs = Strs_text, yc_load_strs = (\<lambda>t. case t of Strs_text x \<Rightarrow> Inr x | _ \<Rightarrow> Inl e),
          yc_dump_feasibility = Feasibility_text, yc_load_feasibility = (\<lambda>t. case t of Feasibility_text x \<Rightarrow> Inr x | _ \<Rightarrow> Inl e),
          yc_dump_asks = Asks_text, yc_load_asks = (\<lambda>t. case t of Asks_text x \<Rightarrow> Inr x | _ \<Rightarrow> Inl e),
          yc_dump_answers = Answers_text, yc_load_answers = (\<lambda>t. case t of Answers_text x \<Rightarrow> Inr x | _ \<Rightarrow> Inl e),
          yc_dump_result = Result_text, yc_load_result = (\<lambda>t. case t of Result_text x \<Rightarrow> Inr x | _ \<Rightarrow> Inl e),
          yc_fromisoformat = (\<lambda>s. Inr (parse_isoformat s))\<rparr>)"

lemma sample_authoring_codec_ok: "authoring_codec_ok sample_authoring_codec"
  by (simp add: authoring_codec_ok_def sample_authoring_codec_def Let_def parse_isoformat)

text \<open>A tree, a node with a taken place among the roots, the tree again, its acceptance.\<close>

definition sample_authoring_calls :: "authoring_call list" where
  "sample_authoring_calls =
     [Create_drafts ''s'' [sample_draft ''a''] None None ''t'' (sample_time 0),
      Add_draft ''s'' ''t'' (sample_draft ''b'') 1 (sample_time 1), Get_draft ''s'' ''b'',
      Add_draft ''s'' ''t'' ((sample_draft ''c'')\<lparr>dn_parent_draft_task_id := Some ''a''\<rparr>) 1 (sample_time 1),
      Accept_drafts ''s'' ''t'' 2 (sample_time 2), List_draft_nodes ''s'' ''t'']"

text \<open>An order of siblings that only the in-memory store takes.\<close>

lemma large_order_index_overflows:
  "\<not> is_ok (fst (sql_create_tree sample_authoring_codec empty_authoring_db ''s''
       [(sample_draft ''a'')\<lparr>dn_order_index := 9223372036854775808\<rparr>] None None ''t'' (\<lambda>_. sample_time 0)))
   \<and> is_ok (fst (create_tree empty_store ''s'' [(sample_draft ''a'')\<lparr>dn_order_index := 9223372036854775808\<rparr>] None None ''t''
       (\<lambda>_. sample_time 0)))"
  by code_simp

text \<open>C30. The SQLite authoring stores answer as the in-memory ones whose refused calls are undone: over any sequence of calls with
  values their classes accept, results of plain JSON and mappings of nodes of the published tree, in which the versions and the
  orders of siblings stay below \<open>2 ^ 63\<close> in magnitude, each call gets the same answer or is refused by both.
  So no row that the stores write is ever unreadable, and a call that the in-memory store refuses half-way leaves no trace.\<close>

theorem sqlite_authoring_answers_as_memory:
  assumes "authoring_codec_ok P" "all_allowed memory_run authoring_allowed calls empty_authoring_memory"
  shows "answers_of (sql_authoring_run P) calls empty_authoring_db = answers_of memory_run calls empty_authoring_memory"
  using sqlite_authoring.answers_alike empty_authoring_alike assms by blast

theorem sqlite_authoring_answers_as_memory_witness:
  "answers_of (sql_authoring_run sample_authoring_codec) sample_authoring_calls empty_authoring_db =
     answers_of memory_run sample_authoring_calls empty_authoring_memory
   \<and> answers_of memory_run sample_authoring_calls empty_authoring_memory ! 1 = Refused
   \<and> answers_of memory_run sample_authoring_calls empty_authoring_memory ! 2 = Node_option None"
proof -
  have "all_allowed memory_run call_values_ok sample_authoring_calls empty_authoring_memory"
    by (simp add: sample_authoring_calls_def sample_draft_def sample_time_def datetime_ok_def)
  moreover have "all_allowed memory_run (\<lambda>call m. integers_fit (snd (memory_run call m))) sample_authoring_calls empty_authoring_memory"
    by code_simp
  ultimately have "all_allowed memory_run authoring_allowed sample_authoring_calls empty_authoring_memory"
    unfolding authoring_allowed_def all_allowed_conj ..
  from sqlite_authoring_answers_as_memory [OF sample_authoring_codec_ok this]
  have same: "answers_of (sql_authoring_run sample_authoring_codec) sample_authoring_calls empty_authoring_db =
     answers_of memory_run sample_authoring_calls empty_authoring_memory" .
  have "answers_of memory_run sample_authoring_calls empty_authoring_memory ! 1 = Refused"
    "answers_of memory_run sample_authoring_calls empty_authoring_memory ! 2 = Node_option None" by code_simp+
  with same show ?thesis by blast
qed

text \<open>C31. The active state of a session is always readable and never points into nothing: in every database reached by calls of
  the stores and of the store of active states, reading the active state of a session succeeds, and the raw task and the draft
  tree it names exist in that session, published and cancelled flows included.\<close>

theorem active_state_points_to_rows:
  assumes "authoring_codec_ok P" "(authoring_step P)\<^sup>*\<^sup>* empty_authoring_db db" "sid \<noteq> []" "datetime_ok now"
  shows "\<exists>a. get_active P db sid now = Inr a \<and> aa_session_id a = sid
     \<and> (aa_active_state a = Active_none \<longrightarrow> aa_active_raw_task_id a = None \<and> aa_active_draft_tree_id a = None)
     \<and> (\<forall>i. aa_active_raw_task_id a = Some i \<longrightarrow> raw_task_exists db sid i)
     \<and> (\<forall>i. aa_active_draft_tree_id a = Some i \<longrightarrow> draft_tree_exists db sid i)"
proof -
  obtain a where a: "get_active P db sid now = Inr a" "ActiveAuthoringState_ok a" "aa_session_id a = sid" "pointers_exist db a"
    using get_active_ok [OF assms(1) active_rows_reachable [OF assms(1,2)] assms(3,4)] .
  have "aa_active_state a = Active_none \<longrightarrow> aa_active_raw_task_id a = None \<and> aa_active_draft_tree_id a = None"
    using a(2) by (simp add: ActiveAuthoringState_ok_def)
  with a(1,3) a(4) [unfolded pointers_exist_def a(3)] show ?thesis by blast
qed

theorem active_state_points_to_rows_witness:
  "\<exists>db a. (authoring_step sample_authoring_codec)\<^sup>*\<^sup>* empty_authoring_db db
     \<and> get_active sample_authoring_codec db ''s'' (sample_time 9) = Inr a \<and> aa_active_draft_tree_id a = Some ''t''
     \<and> draft_tree_exists db ''s'' ''t''"
proof -
  let ?db1 = "snd (sql_authoring_run sample_authoring_codec (hd sample_authoring_calls) empty_authoring_db)"
  let ?db = "snd (set_active_draft_tree ?db1 ''s'' None ''t'' None (sample_time 1))"
  have times: "datetime_ok (sample_time 1)" "datetime_ok (sample_time 9)" by (simp_all add: sample_time_def datetime_ok_def)
  have "authoring_step sample_authoring_codec empty_authoring_db ?db1" by (rule store_call)
  moreover have "authoring_step sample_authoring_codec ?db1 ?db" using times(1) by (rule activate_drafts)
  ultimately have reach: "(authoring_step sample_authoring_codec)\<^sup>*\<^sup>* empty_authoring_db ?db"
    by (rule rtranclp.rtrancl_into_rtrancl [OF r_into_rtranclp])
  have "map_ok aa_active_draft_tree_id (get_active sample_authoring_codec ?db ''s'' (sample_time 9)) = Inr (Some ''t'')" by code_simp
  moreover obtain a where a: "get_active sample_authoring_codec ?db ''s'' (sample_time 9) = Inr a"
    "\<forall>i. aa_active_draft_tree_id a = Some i \<longrightarrow> draft_tree_exists ?db ''s'' i"
    using active_state_points_to_rows [OF sample_authoring_codec_ok reach _ times(2), of "''s''"] by blast
  ultimately have "aa_active_draft_tree_id a = Some ''t''" by simp
  with a reach show ?thesis by blast
qed

end
