(* ===== verification/Spec2Isabelle.thy ===== *)
theory Spec2Isabelle
  imports Sqlite_Bus Dispatcher Publish_Replay Plan_Proposal Llm_Retry Authoring_Publish Execution_Safety Config_Delivery Authoring_Refine
begin

text \<open>
  A verification library for the task runtime of \<^verbatim>\<open>taskweavn\<close> (Python, under \<^verbatim>\<open>src/src/taskweavn\<close>).

  \<^bold>\<open>The program.\<close> A user and a collaborator agent author plans; a publisher turns a plan into tasks of a TaskBus; a
  dispatcher with one worker thread runs a fixed-route executor for every session that asks for it; the executor claims
  a task, hands it to an agent and commits what the agent reports. An agent asks for permission through an autonomy gate,
  which looks at the risk of an action; questions and answers are messages of a stream with a bus on top, on which an
  agent waits. Results and failures are kept as summaries under the references the tasks carry. Language models are called
  through providers that share one retry loop. Other programs hand in work through the task API of an execution plane, which
  turns a request into a task and reports on its execution. The runtime reads its settings from a configuration of layers,
  which users patch while it runs.

  \<^bold>\<open>The theories\<close>, in the order in which they build on one another, with the files they model:

  \<^item> \<^verbatim>\<open>Floats\<close>, \<^verbatim>\<open>Prelude\<close>, \<^verbatim>\<open>Datetime\<close>, \<^verbatim>\<open>Json_Text\<close>: what the code uses of Python. Floats with \<open>nan\<close> and infinities
    and the rounding to a double, exceptions as the left side of a sum, strings, dictionaries in insertion order, stable sorting, \<open>datetime\<close> with
    \<open>isoformat\<close>, the text and the equality of JSON values.
  \<^item> \<^verbatim>\<open>Task_Models\<close> (\<^verbatim>\<open>task/models.py\<close>): the task classes with their field constraints and validators.
  \<^item> \<^verbatim>\<open>Task_Bus\<close>, \<^verbatim>\<open>Task_Lifecycle\<close> (\<^verbatim>\<open>task/bus.py\<close>): the in-memory bus, one definition per handler; every handler
    is a sequence of single writes, and the invariant, the lifecycle and the validity of the stored tasks follow by
    induction over the writes.
  \<^item> \<^verbatim>\<open>Bus_Protocol\<close> states what any TaskBus promises as the locale \<open>task_bus\<close>, interpreted there by the in-memory bus
    and in \<^verbatim>\<open>Sqlite_Bus\<close> (\<^verbatim>\<open>task/sqlite_bus.py\<close>) by the SQLite bus: the SQLite bus answers every allowed sequence of
    calls as the in-memory bus does.
  \<^item> \<^verbatim>\<open>Autonomy\<close> (\<^verbatim>\<open>interaction/risk.py\<close>, \<^verbatim>\<open>autonomy.py\<close>, \<^verbatim>\<open>gate.py\<close>): risk assessment and the gate, with the locale
    \<open>risk_assessor\<close> for what the gate relies on.
  \<^item> \<^verbatim>\<open>Message_Stream\<close> (\<^verbatim>\<open>interaction/message.py\<close>, \<^verbatim>\<open>sqlite_message_stream.py\<close>) and \<^verbatim>\<open>Message_Bus\<close>
    (\<^verbatim>\<open>interaction/bus.py\<close>, \<^verbatim>\<open>wait.py\<close>): which messages are accepted and how they read back, what a subscription
    delivers, what the wait for an answer returns.
  \<^item> \<^verbatim>\<open>Product_Errors\<close> (\<^verbatim>\<open>product_errors.py\<close>) and \<^verbatim>\<open>Result_Summary\<close> (\<^verbatim>\<open>task/result_summary.py\<close>,
    \<^verbatim>\<open>sqlite_result_summary.py\<close>): error metadata and the summaries, with the locale \<open>execution_summary_store\<close>
    interpreted by both stores.
  \<^item> \<^verbatim>\<open>Executor\<close> and \<^verbatim>\<open>Dispatcher\<close> (\<^verbatim>\<open>task/execution.py\<close>): one tick of the fixed-route executor on every branch, the
    adapter that runs an AgentLoop, and the dispatcher as a step relation whose steps are the blocks under its lock. A tick
    runs the first eligible task and reports what is true of it; the dispatcher drains one session at a time, in the order
    of the requests, and serves every queued session as long as no tick raises.
  \<^item> \<^verbatim>\<open>Publisher\<close>, \<^verbatim>\<open>Publish_Tree\<close>, \<^verbatim>\<open>Publish_Replay\<close> (\<^verbatim>\<open>task/publisher.py\<close>): from a normalized tree to published tasks. A valid tree is published as a
    whole, parents first, and publishing it again under its idempotency key changes nothing.
  \<^item> \<^verbatim>\<open>Plan_Proposal\<close> (\<^verbatim>\<open>task/authoring.py\<close>): the validator of a proposed plan accepts exactly the plans whose
    dependencies resolve and have no cycle.
  \<^item> \<^verbatim>\<open>Raw_Task\<close> (\<^verbatim>\<open>task/authoring.py\<close>) and \<^verbatim>\<open>Draft_Store\<close>, \<^verbatim>\<open>Draft_Evolution\<close> (\<^verbatim>\<open>task/stores.py\<close>): the authoring objects and
    their in-memory stores. \<^verbatim>\<open>Versioned\<close> states optimistic locking as the locale \<open>versioned_object\<close>, interpreted for raw
    tasks, draft trees and draft nodes: no accepted update is lost. What a node may become is one relation that every
    operation keeps.
  \<^item> \<^verbatim>\<open>Draft_Publish\<close>, \<^verbatim>\<open>Draft_Complete\<close> (\<^verbatim>\<open>task/publisher.py\<close>): publishing a stored draft tree. The locales \<open>draft_forest\<close>
    and \<open>valid_draft_forest\<close> say what the recursion over parent pointers needs; a reachable store interprets them, so every
    node is published exactly once.
  \<^item> \<^verbatim>\<open>Payload\<close>, \<^verbatim>\<open>Authoring_Commands\<close>, \<^verbatim>\<open>Draft_Validator\<close>, \<^verbatim>\<open>Authoring_Service\<close> (\<^verbatim>\<open>task/authoring.py\<close>,
    \<^verbatim>\<open>authoring_idempotency.py\<close>, \<^verbatim>\<open>authoring_service.py\<close>): the command payloads, the commands and their results, the
    capability catalog and the validator, and the service that applies batches of commands to the stores.
    \<^verbatim>\<open>Authoring_Atomic\<close> shows that a batch is applied as a whole or not at all, that a key is answered once and that the
    stores keep their invariants, with the locale \<open>service_part\<close> interpreted for each part of the state;
    \<^verbatim>\<open>Authoring_Publish\<close> shows that the publish command on an accepted tree succeeds.
  \<^item> \<^verbatim>\<open>Authoring_Tables\<close>, \<^verbatim>\<open>Authoring_Rows\<close>, \<^verbatim>\<open>Authoring_Writes\<close>, \<^verbatim>\<open>Authoring_Refine\<close> (\<^verbatim>\<open>task/sqlite_authoring.py\<close>, the
    active state of \<^verbatim>\<open>task/stores.py\<close>): the SQLite stores of raw tasks, drafts and answered commands, and the pointer to
    what a session works on. Every row reads back as the object it was written from; with the locale of \<^verbatim>\<open>Simulation\<close> the stores
    answer as the in-memory ones whose refused calls are undone, as long as the integers fit an \<open>INTEGER\<close> column; the pointer
    never leads into nothing.
  \<^item> \<^verbatim>\<open>Llm_Retry\<close> (\<^verbatim>\<open>llm/retry.py\<close>, \<^verbatim>\<open>contracts.py\<close>, \<^verbatim>\<open>errors.py\<close>): the retry loop ends with the first attempt that
    settles the request, or the last one allowed. Its sums and products are rounded as doubles are; the power function of the C
    library is a parameter.
  \<^item> \<^verbatim>\<open>Execution_Models\<close>, \<^verbatim>\<open>Execution_Store\<close>, \<^verbatim>\<open>Execution_Service\<close> (\<^verbatim>\<open>execution_plane/models.py\<close>,
    \<^verbatim>\<open>env_registry.py\<close>, \<^verbatim>\<open>errors.py\<close>, \<^verbatim>\<open>store.py\<close>, \<^verbatim>\<open>embedded_service.py\<close>): requests, executions, both stores and the
    embedded task API. \<^verbatim>\<open>Simulation\<close> is the contract under which one implementation answers as another;
    \<^verbatim>\<open>Execution_Refine\<close> interprets it with the SQLite store over the in-memory one. \<^verbatim>\<open>Execution_Safety\<close> runs the API beside
    workers on the bus: publishing is idempotent and resumes after a crash, a key stays with its request, every execution
    follows its task.
  \<^item> \<^verbatim>\<open>Config_Models\<close>, \<^verbatim>\<open>Config_Resolver\<close>, \<^verbatim>\<open>Config_Bus\<close>, \<^verbatim>\<open>Config_Store\<close>, \<^verbatim>\<open>Config_Service\<close>
    (\<^verbatim>\<open>runtime_config/models.py\<close>, \<^verbatim>\<open>registry.py\<close>, \<^verbatim>\<open>defaults.py\<close>, \<^verbatim>\<open>resolver.py\<close>, \<^verbatim>\<open>config_bus.py\<close>,
    \<^verbatim>\<open>sqlite_store.py\<close>, \<^verbatim>\<open>mutation_service.py\<close>): the runtime configuration as layers over registered keys, and patches of it.
    \<^verbatim>\<open>Config_Exact\<close> says what a resolved configuration holds without running the resolver, \<^verbatim>\<open>Config_Patch\<close> which values a
    patch may set, \<^verbatim>\<open>Config_Ledger\<close> that changes read back and a key is applied once, \<^verbatim>\<open>Config_Delivery\<close> what the
    consumers hear and what an accepted patch leaves unchanged.

  \<^bold>\<open>Modelling.\<close> A class is a record, a \<open>Literal\<close> or enum a datatype, a handler a function of its state that returns the new
  state or the exception; a handler that can raise after a write returns both. What a lock protects is one step. A clock
  reading, a fresh identifier or a random draw is an argument; a language model, an agent, a codec of Pydantic or
  \<^verbatim>\<open>json.loads\<close> and \<open>uuid5\<close> are parameters, with what the code relies on as hypotheses that the witnesses discharge.
  Strings hold code points below 256. Trace and log calls are left out. An SQL table is a list of rows, a \<open>SELECT\<close> a
  filter and a stable sort by its \<open>ORDER BY\<close> columns; an integer bound to an \<open>INTEGER\<close> column overflows at \<open>2 ^ 63\<close>. The codecs
  keep values whose free JSON is plain: Pydantic writes \<open>nan\<close> and the infinities as \<open>null\<close>. Sums of deadlines are exact.

  \<^bold>\<open>Loops and bounds.\<close> Loops over a collection are structural recursions. The cycle check of a plan is a nested recursion
  with a termination proof: the tasks not under visit, then the length of the list. The drain of the dispatcher and the
  retry loop recurse over the number of rounds left, which is the bound in the code. The wait for an answer is a recursion over the
  moments at which the waiter holds the condition; that it still waits is a result of its own. The recursion over draft
  children is bounded by the number of nodes, which no branch exceeds in a reachable store; the recursion into the children of
  a payload ends because payloads are finite. Apart from these no fuel is used.

  \<^bold>\<open>Not modelled.\<close> The HTTP server, its view models and the runtime input router (transport, classification by a language
  model); the ReAct loop itself, the sandbox, the tools and the integrations (processes, desktop, network); prompt and
  context rendering; the recursion limit of Python, which deep draft trees and long chains of dependencies can reach; observability and diagnostics; opening and closing connections and schema migration. Of the code that could be modelled in
  the same way, the plan stores and contract revision are left.

  \<^bold>\<open>Order of work.\<close> The task bus first, as everything else writes through it; then what runs tasks (executor, dispatcher,
  summaries), what asks the user (gate, stream, wait), what creates tasks (publisher, plans, authoring), the providers, the execution
  plane on top of the bus, the runtime configuration, and the durable authoring stores.
\<close>

end
